(* ===== verification/Prelude.thy ===== *)
theory Prelude
  imports Main "HOL-Library.Word" "HOL-Library.State_Monad"
begin

section \<open>Shared vocabulary of the development\<close>

text \<open>
  What every component theory builds on:
  \<^item> the reading of Go strings: \<open>string\<close> is a list of bytes, and the functions of the
    packages \<open>strings\<close> and \<open>strconv\<close> that the sources call. \<open>TrimSpace\<close> and
    \<open>ToLower\<close> are modelled on the ASCII range, which is the range the sources compare
    against; bytes above 127 are left alone;
  \<^item> the effect monad: handlers are values of the library's state monad. The predicate
    transformer \<open>wp\<close> computes by simplification, \<open>pres\<close> says that a computation
    keeps an invariant and has one introduction rule per way of composing computations;
  \<^item> lemmas on lists that several components share.
\<close>

named_theorems pres_intros \<open>computations that keep an invariant\<close>
named_theorems wp_simps \<open>weakest preconditions of the primitive computations\<close>

subsection \<open>Bytes and strings\<close>

text \<open>The ASCII white space of Go's \<open>unicode.IsSpace\<close>: tab, LF, VT, FF, CR and blank.\<close>

definition is_space :: "char \<Rightarrow> bool" where
  "is_space c \<longleftrightarrow> c \<in> {CHR 0x09, CHR 0x0A, CHR 0x0B, CHR 0x0C, CHR 0x0D, CHR 0x20}"

definition trim_space :: "string \<Rightarrow> string" where
  "trim_space s = rev (dropWhile is_space (rev (dropWhile is_space s)))"

definition lower_char :: "char \<Rightarrow> char" where
  "lower_char c = (let n = of_char c :: nat in if 65 \<le> n \<and> n \<le> 90 then char_of (n + 32) else c)"

definition to_lower :: "string \<Rightarrow> string" where
  "to_lower s = map lower_char s"

definition has_prefix :: "string \<Rightarrow> string \<Rightarrow> bool" where
  "has_prefix s p \<longleftrightarrow> take (length p) s = p"

definition has_suffix :: "string \<Rightarrow> string \<Rightarrow> bool" where
  "has_suffix s p \<longleftrightarrow> length p \<le> length s \<and> drop (length s - length p) s = p"

fun contains :: "string \<Rightarrow> string \<Rightarrow> bool" where
  "contains [] p = (p = [])"
| "contains (c # s) p = (has_prefix (c # s) p \<or> contains s p)"

definition contains_any :: "string \<Rightarrow> string \<Rightarrow> bool" where
  "contains_any s cs \<longleftrightarrow> list_ex (\<lambda>c. c \<in> set cs) s"

fun join :: "string \<Rightarrow> string list \<Rightarrow> string" where
  "join sep [] = []"
| "join sep [x] = x"
| "join sep (x # y # xs) = x @ sep @ join sep (y # xs)"

text \<open>Cutting a string at every occurrence of one byte, as \<open>strings.Split\<close> with a
  separator of length one does: the result is never empty.\<close>

fun split_on :: "char \<Rightarrow> string \<Rightarrow> string list" where
  "split_on d [] = [[]]"
| "split_on d (c # s) =
     (if c = d then [] # split_on d s
      else case split_on d s of [] \<Rightarrow> [[c]] | x # xs \<Rightarrow> (c # x) # xs)"

lemma split_on_not_Nil [simp]: "split_on d s \<noteq> []"
  by (cases s) (simp_all split: list.split)

lemma split_on_Cons [simp]:
  "split_on d (c # s) = (if c = d then [] # split_on d s
     else (c # hd (split_on d s)) # tl (split_on d s))"
  by (cases "split_on d s") simp_all

declare split_on.simps(2) [simp del]

text \<open>The decimal rendering of \<open>fmt.Sprintf("%d")\<close>.\<close>

fun nat_digits :: "nat \<Rightarrow> string" where
  "nat_digits n = (if n < 10 then [char_of (48 + n)]
                   else nat_digits (n div 10) @ [char_of (48 + n mod 10)])"

declare nat_digits.simps [simp del]

definition itoa :: "int \<Rightarrow> string" where
  "itoa i = (if i < 0 then CHR ''-'' # nat_digits (nat (- i)) else nat_digits (nat i))"

subsection \<open>Facts about strings\<close>

lemma dropWhile_idem [simp]: "dropWhile P (dropWhile P xs) = dropWhile P xs"
  by (induction xs) auto

lemma dropWhile_hd_eq: "xs = [] \<or> \<not> P (hd xs) \<Longrightarrow> dropWhile P xs = xs"
  by (cases xs) auto

lemma dropWhile_suffix_last:
  assumes "dropWhile P xs \<noteq> []"
  shows "last (dropWhile P xs) = last xs"
proof -
  have "xs = takeWhile P xs @ dropWhile P xs" by simp
  with assms show ?thesis by (metis last_append)
qed

text \<open>Trimming at the right keeps the first byte, so trimming twice is trimming once.\<close>

lemma trim_space_hd:
  assumes "trim_space s \<noteq> []"
  shows "\<not> is_space (hd (trim_space s))" and "\<not> is_space (last (trim_space s))"
proof -
  let ?d = "dropWhile is_space s"
  let ?e = "dropWhile is_space (rev ?d)"
  have ne: "?e \<noteq> []" using assms by (simp add: trim_space_def)
  then have "?d \<noteq> []" by (metis dropWhile.simps(1) rev.simps(1))
  then have "\<not> is_space (hd ?d)" by (rule hd_dropWhile)
  moreover have "last ?e = last (rev ?d)" using ne by (rule dropWhile_suffix_last)
  ultimately show "\<not> is_space (hd (trim_space s))"
    using ne \<open>?d \<noteq> []\<close> by (simp add: trim_space_def hd_rev last_rev)
  show "\<not> is_space (last (trim_space s))"
    using hd_dropWhile [OF ne] ne by (simp add: trim_space_def last_rev)
qed

lemma trim_space_fixed:
  "s = [] \<or> (\<not> is_space (hd s) \<and> \<not> is_space (last s)) \<Longrightarrow> trim_space s = s"
  by (auto simp: trim_space_def dropWhile_hd_eq hd_rev)

lemma trim_space_idem [simp]: "trim_space (trim_space s) = trim_space s"
  using trim_space_hd by (intro trim_space_fixed) blast

lemma lower_char_idem [simp]: "lower_char (lower_char c) = lower_char c"
  by (auto simp: lower_char_def Let_def)

lemma to_lower_idem [simp]: "to_lower (to_lower s) = to_lower s"
  by (simp add: to_lower_def comp_def)

lemma to_lower_Nil [simp]: "to_lower [] = []" "to_lower s = [] \<longleftrightarrow> s = []"
  by (simp_all add: to_lower_def)

lemma trim_space_Nil [simp]: "trim_space [] = []"
  by (simp add: trim_space_def)

lemma has_prefix_Cons [simp]: "has_prefix s [c] \<longleftrightarrow> s \<noteq> [] \<and> hd s = c"
  by (cases s) (auto simp: has_prefix_def)

lemma has_prefix_append [simp]: "has_prefix (p @ s) p"
  by (simp add: has_prefix_def)

lemma has_prefix_iff: "has_prefix s p \<longleftrightarrow> (\<exists>r. s = p @ r)"
  by (auto simp: has_prefix_def) (metis append_take_drop_id)

lemma has_suffix_iff: "has_suffix s p \<longleftrightarrow> (\<exists>r. s = r @ p)"
proof
  assume "has_suffix s p"
  then show "\<exists>r. s = r @ p"
    unfolding has_suffix_def by (metis append_take_drop_id)
qed (auto simp: has_suffix_def)

lemma contains_iff: "contains s p \<longleftrightarrow> (\<exists>u v. s = u @ p @ v)"
proof (induction s)
  case (Cons c s)
  show ?case
  proof
    assume "contains (c # s) p"
    then show "\<exists>u v. c # s = u @ p @ v"
    proof (cases "has_prefix (c # s) p")
      case True
      then show ?thesis by (metis has_prefix_iff append_Nil)
    next
      case False
      with \<open>contains (c # s) p\<close> Cons show ?thesis by simp (metis append_Cons)
    qed
  next
    assume "\<exists>u v. c # s = u @ p @ v"
    then obtain u v where uv: "c # s = u @ p @ v" by blast
    show "contains (c # s) p"
    proof (cases u)
      case Nil
      with uv have "has_prefix (c # s) p" by (simp add: has_prefix_iff)
      then show ?thesis by simp
    next
      case (Cons d u')
      with uv have "s = u' @ p @ v" by simp
      with Cons.IH show ?thesis by auto
    qed
  qed
qed simp

lemma contains_any_iff: "contains_any s cs \<longleftrightarrow> set s \<inter> set cs \<noteq> {}"
  by (auto simp: contains_any_def list_ex_iff)

lemma split_on_no_sep: "x \<in> set (split_on d s) \<Longrightarrow> d \<notin> set x"
proof (induction s arbitrary: x)
  case (Cons c s)
  have "hd (split_on d s) \<in> set (split_on d s)"
    and "\<And>y. y \<in> set (tl (split_on d s)) \<Longrightarrow> y \<in> set (split_on d s)"
    by (auto intro: list.set_sel)
  with Cons show ?case by (fastforce split: if_splits)
qed simp

lemma split_on_append_sep: "d \<notin> set x \<Longrightarrow> split_on d (x @ d # s) = x # split_on d s"
  by (induction x) auto

lemma split_on_single: "d \<notin> set x \<Longrightarrow> split_on d x = [x]"
  by (induction x) auto

lemma split_on_join:
  "xs \<noteq> [] \<Longrightarrow> (\<forall>x \<in> set xs. d \<notin> set x) \<Longrightarrow> split_on d (join [d] xs) = xs"
  by (induction "[d]" xs rule: join.induct) (auto simp: split_on_append_sep split_on_single)

lemma join_Cons: "join sep (x # xs) = (if xs = [] then x else x @ sep @ join sep xs)"
  by (cases xs) auto

lemma join_append:
  "join sep (xs @ ys) =
     (if xs = [] then join sep ys else if ys = [] then join sep xs
      else join sep xs @ sep @ join sep ys)"
  by (induction xs) (auto simp: join_Cons)

subsection \<open>Facts about decimal rendering\<close>

lemma nat_digits_not_Nil [simp]: "nat_digits n \<noteq> []"
  by (subst nat_digits.simps) simp

lemma of_char_digit: "a < 10 \<Longrightarrow> (of_char (char_of (48 + a) :: char) :: nat) = 48 + a"
  by simp

lemma char_of_digit_inj:
  assumes "a < 10" and "b < 10" and "(char_of (48 + a) :: char) = char_of (48 + b)"
  shows "a = (b::nat)"
proof -
  have "(of_char (char_of (48 + a) :: char) :: nat) = of_char (char_of (48 + b) :: char)"
    using assms(3) by simp
  with assms(1,2) show ?thesis by (simp only: of_char_digit)
qed

text \<open>The value a digit string denotes, and that rendering is its right inverse.\<close>

definition digits_value :: "string \<Rightarrow> nat" where
  "digits_value s = foldl (\<lambda>n c. 10 * n + (of_char c - 48)) 0 s"

lemma digits_value_nat_digits [simp]: "digits_value (nat_digits n) = n"
proof (induction n rule: nat_digits.induct)
  case (1 n)
  show ?case
  proof (cases "n < 10")
    case True
    then show ?thesis
      by (subst nat_digits.simps) (simp add: digits_value_def of_char_digit)
  next
    case False
    with "1" have "digits_value (nat_digits (n div 10)) = n div 10" by blast
    with False show ?thesis
      by (subst nat_digits.simps) (simp add: digits_value_def of_char_digit)
  qed
qed

lemma nat_digits_inj: "nat_digits m = nat_digits n \<longleftrightarrow> m = n"
  by (metis digits_value_nat_digits)

lemma nat_digits_chars: "c \<in> set (nat_digits n) \<Longrightarrow> 48 \<le> (of_char c :: nat) \<and> of_char c \<le> (57 :: nat)"
proof (induction n rule: nat_digits.induct)
  case (1 n)
  show ?case
  proof (cases "n < 10")
    case True
    with "1.prems" show ?thesis
      by (subst (asm) nat_digits.simps) (simp add: of_char_digit)
  next
    case False
    with "1.prems" have "c \<in> set (nat_digits (n div 10)) \<or> c = char_of (48 + n mod 10)"
      by (subst (asm) nat_digits.simps) auto
    with "1.IH" False show ?thesis by (auto simp: of_char_digit)
  qed
qed

lemma itoa_inj: "itoa i = itoa j \<longleftrightarrow> i = j"
proof
  assume eq: "itoa i = itoa j"
  have minus: "CHR ''-'' \<notin> set (nat_digits n)" for n
    using nat_digits_chars [of "CHR ''-''" n] by auto
  have hd_digits: "hd (nat_digits n) \<noteq> CHR ''-''" for n
    using minus [of n] by (metis list.set_sel(1) nat_digits_not_Nil)
  show "i = j"
  proof (cases "i < 0"; cases "j < 0")
    assume "i < 0" "j < 0"
    with eq show ?thesis by (simp add: itoa_def nat_digits_inj)
  next
    assume "i < 0" "\<not> j < 0"
    with eq hd_digits [of "nat j"] show ?thesis by (simp add: itoa_def) (metis list.sel(1))
  next
    assume "\<not> i < 0" "j < 0"
    with eq hd_digits [of "nat i"] show ?thesis by (simp add: itoa_def)
  next
    assume "\<not> i < 0" "\<not> j < 0"
    with eq show ?thesis by (simp add: itoa_def nat_digits_inj)
  qed
qed simp

subsection \<open>The effect monad\<close>

text \<open>
  A computation over states \<open>'s\<close> is a value of \<^typ>\<open>('s, 'a) state\<close>. \<open>wp m Q s\<close> is the
  condition under which running \<open>m\<close> in \<open>s\<close> ends in \<open>Q\<close>; it unfolds through \<open>do\<close> blocks
  by rewriting. \<open>pres I m\<close> is preservation of \<open>I\<close>.
\<close>

type_synonym ('s, 'a) comp = "('s, 'a) state"

definition wp :: "('s, 'a) comp \<Rightarrow> ('a \<Rightarrow> 's \<Rightarrow> bool) \<Rightarrow> 's \<Rightarrow> bool" where
  "wp m Q s = (case run_state m s of (a, s') \<Rightarrow> Q a s')"

definition pres :: "('s \<Rightarrow> bool) \<Rightarrow> ('s, 'a) comp \<Rightarrow> bool" where
  "pres I m \<longleftrightarrow> (\<forall>s. I s \<longrightarrow> I (snd (run_state m s)))"

text \<open>Running a computation of a part of the state inside the whole.\<close>

definition zoom :: "('w \<Rightarrow> 's) \<Rightarrow> ('s \<Rightarrow> 'w \<Rightarrow> 'w) \<Rightarrow> ('s, 'a) comp \<Rightarrow> ('w, 'a) comp" where
  "zoom get_part put_part m =
     State (\<lambda>w. case run_state m (get_part w) of (a, s') \<Rightarrow> (a, put_part s' w))"

lemma wp_return [simp, wp_simps]: "wp (State_Monad.return x) Q = Q x"
  by (simp add: wp_def fun_eq_iff)

lemma wp_bind [simp, wp_simps]:
  "wp (State_Monad.bind m f) Q = wp m (\<lambda>a. wp (f a) Q)"
  by (simp add: wp_def fun_eq_iff split: prod.splits)

lemma wp_get [simp, wp_simps]: "wp State_Monad.get Q = (\<lambda>s. Q s s)"
  by (simp add: wp_def fun_eq_iff)

lemma wp_set [simp, wp_simps]: "wp (State_Monad.set t) Q = (\<lambda>_. Q () t)"
  by (simp add: wp_def fun_eq_iff)

lemma wp_update [simp, wp_simps]: "wp (State_Monad.update f) Q = (\<lambda>s. Q () (f s))"
  by (simp add: wp_def State_Monad.update_def fun_eq_iff)

lemma wp_if [simp, wp_simps]:
  "wp (if b then m else n) Q = (if b then wp m Q else wp n Q)"
  by simp

lemma wp_run: "run_state m s = (a, s') \<Longrightarrow> wp m Q s = Q a s'"
  by (simp add: wp_def)

lemma wp_iff_run: "wp m Q s \<longleftrightarrow> Q (fst (run_state m s)) (snd (run_state m s))"
  by (simp add: wp_def split: prod.splits)

lemma wp_mono: "wp m P s \<Longrightarrow> (\<And>a t. P a t \<Longrightarrow> Q a t) \<Longrightarrow> wp m Q s"
  by (simp add: wp_iff_run)

text \<open>The same as rules, for goals that are taken apart statement by statement.\<close>

named_theorems wp_intros \<open>one rule per way of composing computations\<close>

lemma wp_returnI [wp_intros]: "Q x s \<Longrightarrow> wp (State_Monad.return x) Q s"
  by simp

lemma wp_bindI [wp_intros]: "wp m (\<lambda>a. wp (f a) Q) s \<Longrightarrow> wp (State_Monad.bind m f) Q s"
  by simp

lemma wp_ifI [wp_intros]:
  "(b \<Longrightarrow> wp m Q s) \<Longrightarrow> (\<not> b \<Longrightarrow> wp n Q s) \<Longrightarrow> wp (if b then m else n) Q s"
  by simp

lemma wp_optionI [wp_intros]:
  "(x = None \<Longrightarrow> wp m Q s) \<Longrightarrow> (\<And>y. x = Some y \<Longrightarrow> wp (f y) Q s) \<Longrightarrow>
   wp (case x of None \<Rightarrow> m | Some y \<Rightarrow> f y) Q s"
  by (cases x) auto

lemma wp_sumI [wp_intros]:
  "(\<And>e. x = Inl e \<Longrightarrow> wp (f e) Q s) \<Longrightarrow> (\<And>y. x = Inr y \<Longrightarrow> wp (g y) Q s) \<Longrightarrow>
   wp (case x of Inl e \<Rightarrow> f e | Inr y \<Rightarrow> g y) Q s"
  by (cases x) auto

lemma wp_trivial [simp]: "wp m (\<lambda>_ _. True) = (\<lambda>_. True)"
  by (simp add: wp_def fun_eq_iff)

lemma wp_conj: "wp m (\<lambda>a t. P a t \<and> Q a t) s \<longleftrightarrow> wp m P s \<and> wp m Q s"
  by (simp add: wp_iff_run)

lemma pres_iff_wp: "pres I m \<longleftrightarrow> (\<forall>s. I s \<longrightarrow> wp m (\<lambda>_. I) s)"
  by (simp add: pres_def wp_iff_run)

lemma presD: "pres I m \<Longrightarrow> I s \<Longrightarrow> I (snd (run_state m s))"
  by (simp add: pres_def)

lemma pres_wp: "pres I m \<Longrightarrow> I s \<Longrightarrow> (\<And>a t. I t \<Longrightarrow> Q a t) \<Longrightarrow> wp m Q s"
  by (simp add: pres_def wp_iff_run)

lemma pres_return [pres_intros]: "pres I (State_Monad.return x)"
  by (simp add: pres_iff_wp)

lemma pres_get [pres_intros]: "pres I State_Monad.get"
  by (simp add: pres_iff_wp)

lemma pres_bind [pres_intros]: "pres I m \<Longrightarrow> (\<And>a. pres I (f a)) \<Longrightarrow> pres I (State_Monad.bind m f)"
  by (auto simp: pres_def split: prod.splits)

lemma pres_if [pres_intros]:
  "(b \<Longrightarrow> pres I m) \<Longrightarrow> (\<not> b \<Longrightarrow> pres I n) \<Longrightarrow> pres I (if b then m else n)"
  by simp

lemma pres_option [pres_intros]:
  "(x = None \<Longrightarrow> pres I m) \<Longrightarrow> (\<And>y. x = Some y \<Longrightarrow> pres I (f y)) \<Longrightarrow>
   pres I (case x of None \<Rightarrow> m | Some y \<Rightarrow> f y)"
  by (cases x) auto

lemma pres_sum [pres_intros]:
  "(\<And>e. x = Inl e \<Longrightarrow> pres I (f e)) \<Longrightarrow> (\<And>y. x = Inr y \<Longrightarrow> pres I (g y)) \<Longrightarrow>
   pres I (case x of Inl e \<Rightarrow> f e | Inr y \<Rightarrow> g y)"
  by (cases x) auto

lemma pres_prod [pres_intros]:
  "(\<And>a b. x = (a, b) \<Longrightarrow> pres I (f a b)) \<Longrightarrow> pres I (case x of (a, b) \<Rightarrow> f a b)"
  by (cases x) auto

lemma pres_list [pres_intros]:
  "(x = [] \<Longrightarrow> pres I m) \<Longrightarrow> (\<And>y ys. x = y # ys \<Longrightarrow> pres I (f y ys)) \<Longrightarrow>
   pres I (case x of [] \<Rightarrow> m | y # ys \<Rightarrow> f y ys)"
  by (cases x) auto

lemma wp_zoom [simp, wp_simps]:
  "wp (zoom get_part put_part m) Q = (\<lambda>w. wp m (\<lambda>a s. Q a (put_part s w)) (get_part w))"
  by (simp add: zoom_def wp_def fun_eq_iff split: prod.splits)

lemma pres_zoom:
  "(\<And>s w. I w \<Longrightarrow> I (put_part s w)) \<Longrightarrow> pres I (zoom get_part put_part m)"
  by (simp add: pres_def zoom_def split: prod.splits)

lemma pres_update: "(\<And>s. I s \<Longrightarrow> I (f s)) \<Longrightarrow> pres I (State_Monad.update f)"
  by (simp add: pres_iff_wp)

text \<open>\<open>triple I R m\<close>: \<open>m\<close> keeps \<open>I\<close> and its result satisfies \<open>R\<close>.\<close>

definition triple :: "('s \<Rightarrow> bool) \<Rightarrow> ('a \<Rightarrow> bool) \<Rightarrow> ('s, 'a) comp \<Rightarrow> bool" where
  "triple I R m \<longleftrightarrow> (\<forall>s. I s \<longrightarrow> wp m (\<lambda>a t. I t \<and> R a) s)"

named_theorems triple_intros \<open>computations that keep an invariant and bound their result\<close>

lemma tripleI: "(\<And>s. I s \<Longrightarrow> wp m (\<lambda>a t. I t \<and> R a) s) \<Longrightarrow> triple I R m"
  by (simp add: triple_def)

lemma triple_wp: "triple I R m \<Longrightarrow> I s \<Longrightarrow> (\<And>a t. I t \<Longrightarrow> R a \<Longrightarrow> Q a t) \<Longrightarrow> wp m Q s"
  by (auto simp: triple_def elim!: wp_mono)

lemma triple_pres: "triple I R m \<Longrightarrow> pres I m"
  by (auto simp: triple_def pres_iff_wp elim!: wp_mono)

lemma triple_weaken: "triple I R m \<Longrightarrow> (\<And>a. R a \<Longrightarrow> R' a) \<Longrightarrow> triple I R' m"
  by (auto simp: triple_def elim!: wp_mono)

lemma triple_True: "triple I (\<lambda>_. True) m \<longleftrightarrow> pres I m"
  by (simp add: triple_def pres_iff_wp)

lemma triple_return [triple_intros]: "R x \<Longrightarrow> triple I R (State_Monad.return x)"
  by (simp add: triple_def)

lemma triple_bind:
  "triple I R m \<Longrightarrow> (\<And>a. R a \<Longrightarrow> triple I R' (f a)) \<Longrightarrow> triple I R' (State_Monad.bind m f)"
  unfolding triple_def wp_bind by (intro allI impI, rule wp_mono [where P = "\<lambda>a t. I t \<and> R a"]) simp_all

lemma triple_bind_pres:
  "pres I m \<Longrightarrow> (\<And>a. triple I R' (f a)) \<Longrightarrow> triple I R' (State_Monad.bind m f)"
  by (rule triple_bind [where R = "\<lambda>_. True"]) (simp_all add: triple_True)

lemma pres_bind_triple:
  "triple I R m \<Longrightarrow> (\<And>a. R a \<Longrightarrow> pres I (f a)) \<Longrightarrow> pres I (State_Monad.bind m f)"
  unfolding triple_True [symmetric] by (rule triple_bind)

lemma triple_if [triple_intros]:
  "(b \<Longrightarrow> triple I R m) \<Longrightarrow> (\<not> b \<Longrightarrow> triple I R n) \<Longrightarrow> triple I R (if b then m else n)"
  by simp

subsection \<open>Facts about lists\<close>

lemma sort_key_Nil [simp]: "sort_key f xs = [] \<longleftrightarrow> xs = []"
  by (metis length_0_conv length_sort)

lemma find_Some_iff: "find P xs = Some x \<Longrightarrow> x \<in> set xs \<and> P x"
  by (induction xs) (auto split: if_splits)

lemma distinct_map_filter_subset: "distinct (map f xs) \<Longrightarrow> distinct (map f (filter P xs))"
  by (induction xs) auto

end
