(* ===== verification/Types.thy ===== *)
theory Types
  imports Prelude
begin

section \<open>The shared data types (internal/types)\<close>

text \<open>
  The structs of \<open>src/internal/types\<close> as records and its enumerations as datatypes. A field
  keeps its Go name behind a prefix that names the struct. A pointer field is an option, a slice is
  a list (a nil slice is the empty list), a time stamp is a count of nanoseconds. Only error codes
  and status codes of responses are kept: message texts and the free-form detail maps are not.
\<close>

type_synonym timestamp = int

subsection \<open>Virtual machines (vm.go)\<close>

datatype VMState =
    StateCreated | StateStarting | StateRunning | StateStopping | StateStopped
  | StatePausing | StatePaused | StateResuming | StateFailed

fun vm_state_string :: "VMState \<Rightarrow> string" where
  "vm_state_string StateCreated = ''created''"
| "vm_state_string StateStarting = ''starting''"
| "vm_state_string StateRunning = ''running''"
| "vm_state_string StateStopping = ''stopping''"
| "vm_state_string StateStopped = ''stopped''"
| "vm_state_string StatePausing = ''pausing''"
| "vm_state_string StatePaused = ''paused''"
| "vm_state_string StateResuming = ''resuming''"
| "vm_state_string StateFailed = ''failed''"

record Mount =
  mnt_Source :: string
  mnt_Target :: string
  mnt_Type :: string
  mnt_ReadOnly :: bool

record SecretRef =
  sec_Name :: string
  sec_Source :: string
  sec_Type :: string
  sec_Target :: string

record PortForward =
  pf_HostPort :: int
  pf_VMPort :: int
  pf_Protocol :: string

record EgressProxy =
  px_IP :: string
  px_Port :: int
  px_Protocol :: string

record EgressRule =
  er_CIDR :: string
  er_Protocol :: string
  er_Port :: int
  er_Description :: string

record EgressPolicy =
  ep_Enabled :: bool
  ep_DefaultAction :: string
  ep_AllowDNS :: bool
  ep_ProxyOnly :: bool
  ep_Proxy :: "EgressProxy option"
  ep_AllowRules :: "EgressRule list"

record NetworkConfig =
  nc_Mode :: string
  nc_TapDevice :: string
  nc_MACAddress :: string
  nc_BridgeName :: "string option"
  nc_IPAddress :: string
  nc_Gateway :: string
  nc_Netmask :: string
  nc_PortForwards :: "PortForward list"
  nc_EgressPolicy :: "EgressPolicy option"

record DiskConfig =
  dk_DriveID :: string
  dk_PathOnHost :: string
  dk_IsReadOnly :: bool
  dk_IsRootDevice :: bool

record VMConfig =
  vc_VCPUs :: int
  vc_MemoryMiB :: int
  vc_KernelArgs :: string
  vc_SSHPublicKey :: string
  vc_Network :: NetworkConfig
  vc_Disks :: "DiskConfig list"
  vc_Mounts :: "Mount list"
  vc_Secrets :: "SecretRef list"

record NetworkRuntimeInfo =
  ni_TapDevice :: string
  ni_HostIP :: string
  ni_GuestIP :: string
  ni_Gateway :: string

record VMRuntime =
  rt_PID :: int
  rt_Driver :: string
  rt_ExternalID :: string
  rt_SocketPath :: string
  rt_ConsolePath :: string
  rt_NetworkInfo :: "NetworkRuntimeInfo option"

record VM =
  vm_ID :: string
  vm_Name :: string
  vm_State :: VMState
  vm_Image :: string
  vm_ImageDigest :: string
  vm_Architecture :: string
  vm_Config :: VMConfig
  vm_Runtime :: "VMRuntime option"
  vm_CreatedAt :: timestamp
  vm_UpdatedAt :: timestamp
  vm_LockedBy :: "string option"
  vm_LockedAt :: "timestamp option"
  vm_OwnerUserID :: string
  vm_GroupID :: string
  vm_SpiffeID :: string

subsection \<open>Requests (vm.go)\<close>

record NetworkConfigRequest =
  nr_Mode :: "string option"
  nr_BridgeName :: "string option"
  nr_MACAddress :: "string option"
  nr_PortForwards :: "PortForward list option"
  nr_EgressPolicy :: "EgressPolicy option"

record VMConfigRequest =
  vr_VCPUs :: "int option"
  vr_MemoryMiB :: "int option"
  vr_KernelArgs :: "string option"
  vr_SSHPublicKey :: "string option"
  vr_Network :: "NetworkConfigRequest option"
  vr_Mounts :: "Mount list option"
  vr_Secrets :: "SecretRef list option"

record CreateVMRequest =
  cr_Name :: string
  cr_Image :: string
  cr_Config :: "VMConfigRequest option"
  cr_OwnerUserID :: string
  cr_GroupID :: string
  cr_AutoRegisterSPIFFE :: "bool option"

record VMExecRequest =
  xr_Command :: "string list"
  xr_TimeoutSeconds :: "int option"

record VMExecResult =
  xs_Command :: "string list"
  xs_ExitCode :: int
  xs_Stdout :: string
  xs_Stderr :: string
  xs_RuntimeID :: string

record VMListItem =
  li_ID :: string
  li_Name :: string
  li_State :: VMState
  li_Image :: string
  li_ImageDigest :: string
  li_Architecture :: string
  li_Config :: VMConfig
  li_Runtime :: "VMRuntime option"
  li_CreatedAt :: timestamp
  li_UptimeSeconds :: "int option"
  li_OwnerUserID :: string
  li_GroupID :: string
  li_SpiffeID :: string

subsection \<open>Images and snapshots (image.go, snapshot.go)\<close>

record Image =
  im_Digest :: string
  im_Tags :: "string list"
  im_Architecture :: string
  im_SizeBytes :: int
  im_KernelVersion :: string
  im_RootfsPath :: string
  im_KernelPath :: string
  im_PulledAt :: timestamp

datatype PullJobState = PullJobPending | PullJobInProgress | PullJobCompleted | PullJobFailed

record PullProgress =
  pp_CurrentBytes :: int
  pp_TotalBytes :: int
  pp_Percentage :: int

record ImagePullJob =
  pj_ID :: string
  pj_ImageRef :: string
  pj_State :: PullJobState
  pj_Progress :: "PullProgress option"
  pj_Error :: "string option"
  pj_CreatedAt :: timestamp
  pj_CompletedAt :: "timestamp option"
  pj_ResultDigest :: "string option"

record Snapshot =
  sn_ID :: string
  sn_VMID :: string
  sn_Name :: string
  sn_MemoryFilePath :: string
  sn_SnapshotFilePath :: string
  sn_SizeBytes :: int
  sn_CreatedAt :: timestamp

subsection \<open>Errors and responses (errors.go)\<close>

datatype ErrorCode =
    ErrInvalidRequest | ErrUnauthorized | ErrInvalidConfig | ErrRegistryAuthFailed
  | ErrVMNotFound | ErrImageNotFound | ErrSnapshotNotFound | ErrRecordingNotFound
  | ErrInvalidStateTransition | ErrVMLocked | ErrResourceInUse | ErrValidationError
  | ErrResourceLimitExceeded | ErrSnapshotIncompatible | ErrInternalError
  | ErrServiceUnavailable | ErrUnsupportedOperation | ErrInsufficientStorage | ErrNotFound

datatype Body =
    NoBody
  | ErrorBody ErrorCode
  | VMBody VM
  | VMListBody "VMListItem list" nat
  | SnapshotBody Snapshot
  | SnapshotListBody "Snapshot list" nat
  | ImageBody Image
  | ImageListBody "Image list" nat
  | PullJobBody ImagePullJob
  | ExecBody "VMExecResult option"
  | TextBody string

record Response =
  rs_Status :: nat
  rs_Body :: Body

definition WriteError :: "nat \<Rightarrow> ErrorCode \<Rightarrow> Response" where
  "WriteError statusCode code = \<lparr>rs_Status = statusCode, rs_Body = ErrorBody code\<rparr>"

definition writeJSON :: "nat \<Rightarrow> Body \<Rightarrow> Response" where
  "writeJSON statusCode b = \<lparr>rs_Status = statusCode, rs_Body = b\<rparr>"

lemma Response_simps [simp]:
  "rs_Status (WriteError n c) = n" "rs_Body (WriteError n c) = ErrorBody c"
  "rs_Status (writeJSON n b) = n" "rs_Body (writeJSON n b) = b"
  by (simp_all add: WriteError_def writeJSON_def)

lemma WriteError_eq_iff [simp]: "WriteError n c = WriteError m d \<longleftrightarrow> n = m \<and> c = d"
  by (simp add: WriteError_def)

lemma vm_state_string_inj: "vm_state_string s = vm_state_string t \<longleftrightarrow> s = t"
  by (cases s; cases t) simp_all

lemma vm_state_string_not_Nil [simp]: "vm_state_string s \<noteq> []"
  by (cases s) simp_all

end
