(* ===== verification/Ipam.thy ===== *)
theory Ipam
  imports Types
begin

section \<open>IP address management (internal/network/ipam.go)\<close>

text \<open>
  The daemon hands out 172.16.0.10 to 172.16.0.254 to its machines. The Go type keeps a map from
  machine ids to addresses and a queue of free addresses; every method runs under one mutex, so each
  is one atomic step of the model. The theorems: the two parts always partition the pool, no
  address is held by two machines, allocation is idempotent and fails only when the pool is
  exhausted, release gives the address back, and reloading after a restart rebuilds the partition.
\<close>

record IPAM =
  allocated :: "string \<rightharpoonup> string"
  available :: "string list"

subsection \<open>The operations\<close>

definition pool_addr :: "nat \<Rightarrow> string" where
  "pool_addr i = ''172.16.0.'' @ nat_digits i"

definition pool :: "string list" where
  "pool = map pool_addr [10..<255]"

definition NewIPAM :: IPAM where
  "NewIPAM = \<lparr>allocated = Map.empty, available = pool\<rparr>"

definition AllocateIP :: "string \<Rightarrow> (IPAM, string option) comp" where
  "AllocateIP vmID = do {
     ipam \<leftarrow> State_Monad.get;
     case allocated ipam vmID of
       Some ip \<Rightarrow> State_Monad.return (Some ip)
     | None \<Rightarrow>
         (case available ipam of
            [] \<Rightarrow> State_Monad.return None
          | ip # rest \<Rightarrow> do {
              State_Monad.set (ipam\<lparr>available := rest, allocated := (allocated ipam)(vmID \<mapsto> ip)\<rparr>);
              State_Monad.return (Some ip)
            })
   }"

definition ReleaseIP :: "string \<Rightarrow> (IPAM, unit) comp" where
  "ReleaseIP vmID = do {
     ipam \<leftarrow> State_Monad.get;
     case allocated ipam vmID of
       Some ip \<Rightarrow>
         State_Monad.set (ipam\<lparr>allocated := (allocated ipam)(vmID := None),
                               available := available ipam @ [ip]\<rparr>)
     | None \<Rightarrow> State_Monad.return ()
   }"

definition GetAllocatedIP :: "IPAM \<Rightarrow> string \<Rightarrow> string option" where
  "GetAllocatedIP ipam vmID = allocated ipam vmID"

definition GetAvailableCount :: "IPAM \<Rightarrow> nat" where
  "GetAvailableCount ipam = length (available ipam)"

definition GetAllocatedCount :: "IPAM \<Rightarrow> nat" where
  "GetAllocatedCount ipam = card (dom (allocated ipam))"

definition GetAllAllocations :: "IPAM \<Rightarrow> (string \<rightharpoonup> string)" where
  "GetAllAllocations ipam = allocated ipam"

text \<open>The map argument of \<open>LoadAllocations\<close> is given by its entries: Go's iteration order over
  the map does not matter, because only the set of values and the entries themselves are used.\<close>

definition LoadAllocations :: "(string \<times> string) list \<Rightarrow> (IPAM, unit) comp" where
  "LoadAllocations allocations =
     State_Monad.set
       \<lparr>allocated = map_of allocations,
        available = filter (\<lambda>ip. ip \<notin> set (map snd allocations)) pool\<rparr>"

subsection \<open>The pool\<close>

lemma pool_addr_inj: "pool_addr i = pool_addr j \<longleftrightarrow> i = j"
  by (simp add: pool_addr_def nat_digits_inj)

lemma distinct_pool [simp]: "distinct pool"
  by (simp add: pool_def distinct_map inj_on_def pool_addr_inj)

lemma length_pool [simp]: "length pool = 245"
  by (simp add: pool_def)

lemma card_pool: "card (set pool) = 245"
  by (simp add: distinct_card)

subsection \<open>The invariant: free and held addresses partition the pool\<close>

definition holders_unique :: "(string \<rightharpoonup> string) \<Rightarrow> bool" where
  "holders_unique m \<longleftrightarrow> (\<forall>a b ip. m a = Some ip \<longrightarrow> m b = Some ip \<longrightarrow> a = b)"

definition ipam_inv :: "IPAM \<Rightarrow> bool" where
  "ipam_inv ipam \<longleftrightarrow>
     distinct (available ipam)
     \<and> holders_unique (allocated ipam)
     \<and> set (available ipam) \<inter> ran (allocated ipam) = {}
     \<and> set (available ipam) \<union> ran (allocated ipam) = set pool"

lemma ipam_invD:
  assumes "ipam_inv ipam"
  shows "distinct (available ipam)" and "holders_unique (allocated ipam)"
    and "set (available ipam) \<inter> ran (allocated ipam) = {}"
    and "set (available ipam) \<union> ran (allocated ipam) = set pool"
  using assms by (simp_all add: ipam_inv_def)

lemma holders_uniqueD: "holders_unique m \<Longrightarrow> m a = Some ip \<Longrightarrow> m b = Some ip \<Longrightarrow> a = b"
  by (simp add: holders_unique_def)

lemma holders_unique_upd: "holders_unique m \<Longrightarrow> ip \<notin> ran m \<Longrightarrow> holders_unique (m(k \<mapsto> ip))"
  unfolding holders_unique_def ran_def by auto

lemma holders_unique_delete: "holders_unique m \<Longrightarrow> holders_unique (m(k := None))"
  unfolding holders_unique_def by auto

lemma ran_delete_unique:
  assumes "holders_unique m" and "m k = Some ip"
  shows "ran (m(k := None)) = ran m - {ip}"
proof (intro set_eqI iffI)
  fix x assume "x \<in> ran (m(k := None))"
  then obtain a where a: "(m(k := None)) a = Some x" by (auto simp: ran_def)
  then have "a \<noteq> k" and "m a = Some x" by (auto split: if_splits)
  with assms show "x \<in> ran m - {ip}" by (auto simp: ran_def dest: holders_uniqueD)
next
  fix x assume "x \<in> ran m - {ip}"
  then obtain a where "m a = Some x" and "x \<noteq> ip" by (auto simp: ran_def)
  with assms(2) show "x \<in> ran (m(k := None))" by (intro ranI [of _ a]) auto
qed

lemma holders_unique_card:
  assumes "holders_unique m"
  shows "card (ran m) = card (dom m)"
proof -
  have "inj_on (\<lambda>a. the (m a)) (dom m)"
    using assms by (auto simp: inj_on_def dom_def dest: holders_uniqueD)
  moreover have "ran m = (\<lambda>a. the (m a)) ` dom m"
    by (force simp: ran_def dom_def)
  ultimately show ?thesis by (simp add: card_image)
qed

subsection \<open>What each operation does\<close>

lemma wp_AllocateIP:
  "wp (AllocateIP v) Q s =
     (case allocated s v of
        Some ip \<Rightarrow> Q (Some ip) s
      | None \<Rightarrow> (case available s of
                  [] \<Rightarrow> Q None s
                | ip # rest \<Rightarrow>
                    Q (Some ip) (s\<lparr>available := rest, allocated := (allocated s)(v \<mapsto> ip)\<rparr>)))"
  by (simp add: AllocateIP_def split: option.splits list.splits)

lemma wp_ReleaseIP:
  "wp (ReleaseIP v) Q s =
     (case allocated s v of
        None \<Rightarrow> Q () s
      | Some ip \<Rightarrow> Q () (s\<lparr>allocated := (allocated s)(v := None), available := available s @ [ip]\<rparr>))"
  by (simp add: ReleaseIP_def split: option.splits)

lemma ipam_inv_New: "ipam_inv NewIPAM"
  by (simp add: ipam_inv_def NewIPAM_def holders_unique_def)

lemma ipam_inv_alloc:
  assumes inv: "ipam_inv s" and fresh: "allocated s v = None" and avail: "available s = ip # rest"
  shows "ipam_inv (s\<lparr>available := rest, allocated := (allocated s)(v \<mapsto> ip)\<rparr>)"
proof -
  note I = ipam_invD [OF inv]
  have "ip \<notin> ran (allocated s)" using I(3) avail by auto
  then have "holders_unique ((allocated s)(v \<mapsto> ip))"
    by (rule holders_unique_upd [OF I(2)])
  then show ?thesis using I avail fresh
    by (auto simp: ipam_inv_def)
qed

lemma ipam_inv_release:
  assumes inv: "ipam_inv s" and held: "allocated s v = Some ip"
  shows "ipam_inv (s\<lparr>allocated := (allocated s)(v := None), available := available s @ [ip]\<rparr>)"
proof -
  note I = ipam_invD [OF inv]
  have "ip \<in> ran (allocated s)" using held by (rule ranI)
  then show ?thesis using I held
    by (auto simp: ipam_inv_def ran_delete_unique holders_unique_delete)
qed

lemma AllocateIP_inv [pres_intros]: "pres ipam_inv (AllocateIP vmID)"
  by (auto simp: pres_iff_wp wp_AllocateIP ipam_inv_alloc split: option.splits list.splits)

lemma ReleaseIP_inv [pres_intros]: "pres ipam_inv (ReleaseIP vmID)"
  by (auto simp: pres_iff_wp wp_ReleaseIP ipam_inv_release split: option.splits)

lemma LoadAllocations_inv:
  assumes "set (map snd as) \<subseteq> set pool" and "distinct (map fst as)" and "distinct (map snd as)"
  shows "wp (LoadAllocations as) (\<lambda>_ s'. ipam_inv s' \<and> allocated s' = map_of as) s"
proof -
  have ran: "ran (map_of as) = set (map snd as)"
    using assms(2) by (simp add: ran_distinct)
  have "holders_unique (map_of as)"
    unfolding holders_unique_def
  proof (intro allI impI)
    fix a b ip assume "map_of as a = Some ip" and "map_of as b = Some ip"
    then have "(a, ip) \<in> set as" and "(b, ip) \<in> set as" by (auto dest: map_of_SomeD)
    with assms(3) show "a = b" by (metis distinct_map inj_onD prod.inject snd_conv)
  qed
  with ran assms(1) show ?thesis
    by (auto simp: LoadAllocations_def ipam_inv_def)
qed

subsection \<open>The address pool as an interface\<close>

text \<open>
  What the API server relies on when it asks for addresses: an invariant that both calls keep, one
  holder per address, and a frame law for every other machine. The client lemmas are about whole
  histories of calls.
\<close>

datatype pool_call = Allocate string | Release string

locale address_pool =
  fixes inv :: "'p \<Rightarrow> bool"
    and held :: "'p \<Rightarrow> string \<rightharpoonup> string"
    and alloc :: "string \<Rightarrow> ('p, string option) comp"
    and release :: "string \<Rightarrow> ('p, unit) comp"
  assumes alloc_inv: "pres inv (alloc v)"
    and release_inv: "pres inv (release v)"
    and one_holder: "inv p \<Longrightarrow> held p a = Some ip \<Longrightarrow> held p b = Some ip \<Longrightarrow> a = b"
    and alloc_result: "wp (alloc v) (\<lambda>r p'. r = held p' v) p"
    and alloc_keeps: "held p v = Some ip \<Longrightarrow> wp (alloc v) (\<lambda>r p'. held p' = held p) p"
    and alloc_frame: "w \<noteq> v \<Longrightarrow> wp (alloc v) (\<lambda>_ p'. held p' w = held p w) p"
    and release_frame: "w \<noteq> v \<Longrightarrow> wp (release v) (\<lambda>_ p'. held p' w = held p w) p"
    and release_frees: "wp (release v) (\<lambda>_ p'. held p' v = None) p"
begin

primrec pool_step :: "pool_call \<Rightarrow> 'p \<Rightarrow> 'p" where
  "pool_step (Allocate v) p = snd (run_state (alloc v) p)"
| "pool_step (Release v) p = snd (run_state (release v) p)"

lemma pool_step_inv: "inv p \<Longrightarrow> inv (pool_step c p)"
  by (cases c) (auto intro: presD alloc_inv release_inv)

lemma history_inv: "inv p \<Longrightarrow> inv (fold pool_step cs p)"
  by (induction cs arbitrary: p) (auto intro: pool_step_inv)

lemma pool_step_keeps:
  assumes "c \<noteq> Release v" and "held p v = Some ip"
  shows "held (pool_step c p) v = Some ip"
proof (cases c)
  case (Allocate w)
  then show ?thesis
    using alloc_keeps [OF assms(2)] alloc_frame [of v w p] assms(2)
    by (cases "v = w") (auto simp: wp_iff_run)
next
  case (Release w)
  then show ?thesis using release_frame [of v w p] assms by (auto simp: wp_iff_run)
qed

lemma history_keeps:
  "Release v \<notin> set cs \<Longrightarrow> held p v = Some ip \<Longrightarrow> held (fold pool_step cs p) v = Some ip"
proof (induction cs arbitrary: p)
  case (Cons c cs)
  then have "held (pool_step c p) v = Some ip" by (intro pool_step_keeps) auto
  with Cons show ?case by simp
qed simp

text \<open>No later call can hand an address in use to somebody else.\<close>

lemma history_no_theft:
  assumes "inv p" and "held p v = Some ip" and "Release v \<notin> set cs"
    and "held (fold pool_step cs p) w = Some ip"
  shows "w = v"
  using assms history_inv [OF assms(1)] history_keeps [OF assms(3,2)] one_holder by blast

end

interpretation ipam: address_pool ipam_inv allocated AllocateIP ReleaseIP
proof (unfold_locales)
  show "pres ipam_inv (AllocateIP v)" for v by (rule AllocateIP_inv)
  show "pres ipam_inv (ReleaseIP v)" for v by (rule ReleaseIP_inv)
  show "a = b" if "ipam_inv p" "allocated p a = Some ip" "allocated p b = Some ip" for p a b ip
    using that ipam_invD(2) holders_uniqueD by blast
  show "wp (AllocateIP v) (\<lambda>r p'. r = allocated p' v) p" for v p
    by (simp add: wp_AllocateIP split: option.splits list.splits)
  show "wp (AllocateIP v) (\<lambda>r p'. allocated p' = allocated p) p"
    if "allocated p v = Some ip" for p v ip
    using that by (simp add: wp_AllocateIP)
  show "wp (AllocateIP v) (\<lambda>_ p'. allocated p' w = allocated p w) p" if "w \<noteq> v" for v w p
    using that by (simp add: wp_AllocateIP split: option.splits list.splits)
  show "wp (ReleaseIP v) (\<lambda>_ p'. allocated p' w = allocated p w) p" if "w \<noteq> v" for v w p
    using that by (simp add: wp_ReleaseIP split: option.splits)
  show "wp (ReleaseIP v) (\<lambda>_ p'. allocated p' v = None) p" for v p
    by (simp add: wp_ReleaseIP split: option.splits)
qed

subsection \<open>Correctness of the pool\<close>

definition ipam_call :: "pool_call \<Rightarrow> IPAM \<Rightarrow> IPAM" where
  "ipam_call c s = (case c of Allocate v \<Rightarrow> snd (run_state (AllocateIP v) s)
                            | Release v \<Rightarrow> snd (run_state (ReleaseIP v) s))"

lemma ipam_call_step: "ipam_call = ipam.pool_step"
  by (intro ext) (simp add: ipam_call_def split: pool_call.splits)

text \<open>From the fresh pool, whatever sequence of allocations and releases is served: the free
  list has no duplicates, free and held addresses are disjoint and together are exactly the 245
  addresses of the range, and the two counters add up to 245.\<close>

theorem ipam_partition:
  "ipam_inv (fold ipam_call cs NewIPAM)
   \<and> GetAvailableCount (fold ipam_call cs NewIPAM) + GetAllocatedCount (fold ipam_call cs NewIPAM) = 245"
proof -
  define s where "s = fold ipam_call cs NewIPAM"
  have inv: "ipam_inv s"
    unfolding s_def ipam_call_step by (rule ipam.history_inv [OF ipam_inv_New])
  note I = ipam_invD [OF inv]
  have "finite (ran (allocated s))"
    using I(4) by (metis List.finite_set finite_Un)
  then have "card (set (available s) \<union> ran (allocated s))
             = card (set (available s)) + card (ran (allocated s))"
    by (intro card_Un_disjoint) (simp_all add: I(3))
  then have "length (available s) + card (dom (allocated s)) = 245"
    using I by (simp add: distinct_card holders_unique_card card_pool)
  with inv show ?thesis by (simp add: GetAvailableCount_def GetAllocatedCount_def flip: s_def)
qed

text \<open>C28. An address handed to a machine is never handed to another one before the first machine
  releases it, whatever calls are served in between.\<close>

theorem ipam_no_address_theft:
  assumes "ipam_inv s" and "GetAllocatedIP s v = Some ip" and "Release v \<notin> set cs"
    and "GetAllocatedIP (fold ipam_call cs s) w = Some ip"
  shows "w = v"
  using assms ipam.history_no_theft unfolding GetAllocatedIP_def ipam_call_step by blast

theorem ipam_no_address_theft_witness:
  "let s = fold ipam_call [Allocate ''a'', Allocate ''b''] NewIPAM;
       t = fold ipam_call [Release ''a'', Allocate ''c''] s
   in ipam_inv s \<and> GetAllocatedIP s ''b'' = Some (pool_addr 11)
      \<and> GetAllocatedIP t ''b'' = Some (pool_addr 11)
      \<and> [w \<leftarrow> [''a'', ''b'', ''c'']. GetAllocatedIP t w = Some (pool_addr 11)] = [''b'']"
proof -
  let ?s = "fold ipam_call [Allocate ''a'', Allocate ''b''] NewIPAM"
  let ?cs = "[Release ''a'', Allocate ''c'']"
  let ?t = "fold ipam_call ?cs ?s"
  have pool: "pool = pool_addr 10 # pool_addr 11 # map pool_addr [12..<255]"
    by (simp add: pool_def upt_conv_Cons)
  have inv: "ipam_inv ?s"
    unfolding ipam_call_step by (rule ipam.history_inv [OF ipam_inv_New])
  have s: "GetAllocatedIP ?s ''b'' = Some (pool_addr 11)"
    by (simp add: ipam_call_def AllocateIP_def NewIPAM_def pool GetAllocatedIP_def)
  have t: "GetAllocatedIP ?t ''b'' = Some (pool_addr 11)"
    by (simp add: ipam_call_def AllocateIP_def ReleaseIP_def NewIPAM_def pool GetAllocatedIP_def)
  have "w = ''b''" if "GetAllocatedIP ?t w = Some (pool_addr 11)" for w
    using ipam_no_address_theft [OF inv s _ that] by simp
  then have "[w \<leftarrow> [''a'', ''b'', ''c'']. GetAllocatedIP ?t w = Some (pool_addr 11)] = [''b'']"
    using t by auto
  with inv s t show ?thesis unfolding Let_def by blast
qed

text \<open>Allocation in full: a machine that holds an address gets the same one and nothing
  changes; otherwise the first free address is given and recorded; the error return happens
  exactly when the machine holds none and all 245 addresses are held.\<close>

theorem AllocateIP_behaviour:
  assumes "ipam_inv s"
  shows "run_state (AllocateIP v) s =
           (case allocated s v of
              Some ip \<Rightarrow> (Some ip, s)
            | None \<Rightarrow> (case available s of
                        [] \<Rightarrow> (None, s)
                      | ip # rest \<Rightarrow>
                          (Some ip, \<lparr>allocated = (allocated s)(v \<mapsto> ip), available = rest\<rparr>)))
         \<and> (fst (run_state (AllocateIP v) s) = None \<longleftrightarrow>
              allocated s v = None \<and> ran (allocated s) = set pool)"
proof -
  have "available s = [] \<longleftrightarrow> ran (allocated s) = set pool"
    using ipam_invD [OF assms] by (cases "available s") auto
  then show ?thesis
    by (auto simp: AllocateIP_def split: option.splits list.splits)
qed

theorem AllocateIP_behaviour_witness:
  "ipam_inv NewIPAM \<and> fst (run_state (AllocateIP ''vm'') NewIPAM) = Some (pool_addr 10)"
  using AllocateIP_behaviour [OF ipam_inv_New, of "''vm''"] ipam_inv_New
  by (simp add: NewIPAM_def pool_def upt_conv_Cons)

text \<open>Reloading after a restart: for entries with distinct machines and distinct addresses of
  the range, the rebuilt state satisfies the invariant, restores exactly these allocations, and
  offers exactly the remaining addresses in ascending order.\<close>

theorem LoadAllocations_restores:
  assumes "set (map snd as) \<subseteq> set pool" and "distinct (map fst as)" and "distinct (map snd as)"
  shows "wp (LoadAllocations as)
           (\<lambda>_ s'. ipam_inv s' \<and> allocated s' = map_of as
                   \<and> available s' = filter (\<lambda>ip. ip \<notin> ran (map_of as)) pool) s"
  using LoadAllocations_inv [OF assms(1-3), of s] assms(2)
  by (auto simp: LoadAllocations_def ran_distinct)

theorem LoadAllocations_restores_witness:
  "let s' = snd (run_state (LoadAllocations [(''a'', pool_addr 20)]) NewIPAM)
   in ipam_inv s' \<and> allocated s' ''a'' = Some (pool_addr 20)"
proof -
  have "pool_addr 20 \<in> set pool" by (simp add: pool_def)
  then show ?thesis
    using LoadAllocations_restores [of "[(''a'', pool_addr 20)]" NewIPAM]
    by (simp add: Let_def wp_iff_run)
qed

end
