(* ===== verification/Storage_DB.thy ===== *)
theory Storage_DB
  imports Ipam
begin

section \<open>The database (internal/storage)\<close>

text \<open>
  The daemon keeps its records in SQLite. The state here is the content of the tables of
  \<open>schema.go\<close>, each a list of rows in insertion order; the methods of \<open>db.go\<close> are the effect of
  their SQL statements on it. The engine itself is outside the repository: any statement may fail
  without effect, decided by the parameter \<open>sql_fault\<close>, a computation of the outside world. The
  columns that the statements do not mention are not stored: owner, group and SPIFFE id of a
  machine are dropped by \<open>CreateVM\<close> and read back empty. Encoding to JSON columns and back is the
  identity on the model's values.

  The whole state of the daemon, \<open>world\<close>, is defined here too, because every method runs on it: the
  tables, the address manager and the state of everything outside the process.
\<close>

subsection \<open>Tables\<close>

record CachedLayer =
  cl_Digest :: string
  cl_Name :: string
  cl_Version :: string
  cl_Type :: string
  cl_SourceURL :: string
  cl_LocalPath :: string
  cl_SizeBytes :: int
  cl_FetchedAt :: timestamp
  cl_LastUsedAt :: timestamp
  cl_MetadataJSON :: string

record DB =
  db_vms :: "VM list"
  db_snapshots :: "Snapshot list"
  db_images :: "Image list"
  db_jobs :: "ImagePullJob list"
  db_layers :: "CachedLayer list"

definition empty_DB :: DB where
  "empty_DB = \<lparr>db_vms = [], db_snapshots = [], db_images = [], db_jobs = [], db_layers = []\<rparr>"

record 'h world =
  w_db :: DB
  w_ipam :: IPAM
  w_host :: 'h

text \<open>What the storage layer needs from outside: whether a statement fails, and the clock.\<close>

record 'h sql_env =
  sql_fault :: "('h, bool) comp"
  time_now :: "('h, timestamp) comp"

definition on_host :: "('h, 'a) comp \<Rightarrow> ('h world, 'a) comp" where
  "on_host m = zoom w_host (\<lambda>h. w_host_update (\<lambda>_. h)) m"

definition on_ipam :: "(IPAM, 'a) comp \<Rightarrow> ('h world, 'a) comp" where
  "on_ipam m = zoom w_ipam (\<lambda>i. w_ipam_update (\<lambda>_. i)) m"

text \<open>One SQL statement: it fails without effect, or reads and changes the tables.\<close>

definition sql :: "('h, 'z) sql_env_scheme \<Rightarrow> (DB \<Rightarrow> 'a \<times> DB) \<Rightarrow> ('h world, 'a option) comp" where
  "sql E f = do {
     fault \<leftarrow> on_host (sql_fault E);
     if fault then State_Monad.return None
     else do {
       w \<leftarrow> State_Monad.get;
       State_Monad.set (w\<lparr>w_db := snd (f (w_db w))\<rparr>);
       State_Monad.return (Some (fst (f (w_db w)))) }
   }"

definition query :: "('h, 'z) sql_env_scheme \<Rightarrow> (DB \<Rightarrow> 'a) \<Rightarrow> ('h world, 'a option) comp" where
  "query E f = sql E (\<lambda>d. (f d, d))"

definition statement :: "('h, 'z) sql_env_scheme \<Rightarrow> (DB \<Rightarrow> bool \<times> DB) \<Rightarrow> ('h world, bool) comp" where
  "statement E f = do { r \<leftarrow> sql E f; State_Monad.return (r = Some True) }"

subsection \<open>Machines\<close>

text \<open>The columns of a machine's row.\<close>

definition vm_row :: "VM \<Rightarrow> VM" where
  "vm_row vm = vm\<lparr>vm_LockedBy := None, vm_LockedAt := None, vm_OwnerUserID := [], vm_GroupID := [], vm_SpiffeID := []\<rparr>"

definition insert_vm :: "VM \<Rightarrow> DB \<Rightarrow> bool \<times> DB" where
  "insert_vm vm d =
     (if list_ex (\<lambda>r. vm_ID r = vm_ID vm \<or> vm_Name r = vm_Name vm) (db_vms d) then (False, d)
      else (True, d\<lparr>db_vms := db_vms d @ [vm_row vm]\<rparr>))"

definition CreateVM :: "('h, 'z) sql_env_scheme \<Rightarrow> VM \<Rightarrow> ('h world, bool) comp" where
  "CreateVM E vm = statement E (insert_vm vm)"

definition find_vm :: "string \<Rightarrow> DB \<Rightarrow> VM option" where
  "find_vm idOrName d = find (\<lambda>r. vm_ID r = idOrName \<or> vm_Name r = idOrName) (db_vms d)"

text \<open>\<open>None\<close> is an error, \<open>Some None\<close> no such machine.\<close>

definition GetVM :: "('h, 'z) sql_env_scheme \<Rightarrow> string \<Rightarrow> ('h world, VM option option) comp" where
  "GetVM E idOrName = query E (find_vm idOrName)"

definition ListVMs :: "('h, 'z) sql_env_scheme \<Rightarrow> string \<Rightarrow> ('h world, VM list option) comp" where
  "ListVMs E stateFilter = query E (\<lambda>d. sort_key (\<lambda>r. - vm_CreatedAt r)
     (if stateFilter = [] then db_vms d
      else filter (\<lambda>r. vm_state_string (vm_State r) = stateFilter) (db_vms d)))"

definition update_vm :: "VM \<Rightarrow> DB \<Rightarrow> DB" where
  "update_vm vm d = d\<lparr>db_vms := map (\<lambda>r. if vm_ID r = vm_ID vm
       then r\<lparr>vm_State := vm_State vm, vm_Config := vm_Config vm, vm_Runtime := vm_Runtime vm,
              vm_UpdatedAt := vm_UpdatedAt vm\<rparr> else r) (db_vms d)\<rparr>"

text \<open>The argument's time stamp is overwritten, so the changed machine is part of the result.\<close>

definition UpdateVM :: "('h, 'z) sql_env_scheme \<Rightarrow> VM \<Rightarrow> ('h world, bool \<times> VM) comp" where
  "UpdateVM E vm = do {
     now \<leftarrow> on_host (time_now E);
     let vm' = vm\<lparr>vm_UpdatedAt := now\<rparr>;
     ok \<leftarrow> statement E (\<lambda>d. (True, update_vm vm' d));
     State_Monad.return (ok, vm')
   }"

text \<open>The deletion of a machine takes its snapshot records along, as the foreign key says (\<open>ON DELETE CASCADE\<close>). SQLite enforces foreign keys only on
  a connection on which the pragma was run, and \<open>New\<close> runs it once, on one connection of the pool: this is what happens while the pool
  needs no second connection, which is so when statements come one after the other.\<close>

definition delete_vm :: "string \<Rightarrow> DB \<Rightarrow> DB" where
  "delete_vm i d =
     (if list_ex (\<lambda>r. vm_ID r = i) (db_vms d)
      then d\<lparr>db_vms := filter (\<lambda>r. vm_ID r \<noteq> i) (db_vms d),
             db_snapshots := filter (\<lambda>s. sn_VMID s \<noteq> i) (db_snapshots d)\<rparr>
      else d)"

definition DeleteVM :: "('h, 'z) sql_env_scheme \<Rightarrow> string \<Rightarrow> ('h world, bool) comp" where
  "DeleteVM E i = statement E (\<lambda>d. (True, delete_vm i d))"

subsection \<open>Locks\<close>

definition lock_timeout :: timestamp where
  "lock_timeout = 5 * 60 * 1000000000"

definition lockable :: "timestamp \<Rightarrow> VM \<Rightarrow> bool" where
  "lockable threshold r \<longleftrightarrow>
     vm_LockedBy r = None \<or> (case vm_LockedAt r of None \<Rightarrow> False | Some t \<Rightarrow> t < threshold)"

definition lock_vm :: "string \<Rightarrow> string \<Rightarrow> timestamp \<Rightarrow> timestamp \<Rightarrow> DB \<Rightarrow> bool \<times> DB" where
  "lock_vm vmID operation now threshold d =
     (let hit = (\<lambda>r. vm_ID r = vmID \<and> lockable threshold r)
      in (list_ex hit (db_vms d),
          d\<lparr>db_vms := map (\<lambda>r. if hit r then r\<lparr>vm_LockedBy := Some operation, vm_LockedAt := Some now\<rparr> else r)
             (db_vms d)\<rparr>))"

definition AcquireLock :: "('h, 'z) sql_env_scheme \<Rightarrow> string \<Rightarrow> string \<Rightarrow> ('h world, bool) comp" where
  "AcquireLock E vmID operation = do {
     now \<leftarrow> on_host (time_now E);
     now2 \<leftarrow> on_host (time_now E);
     statement E (lock_vm vmID operation now (now2 - lock_timeout))
   }"

definition unlock_vm :: "string \<Rightarrow> DB \<Rightarrow> DB" where
  "unlock_vm vmID d = d\<lparr>db_vms := map (\<lambda>r. if vm_ID r = vmID
       then r\<lparr>vm_LockedBy := None, vm_LockedAt := None\<rparr> else r) (db_vms d)\<rparr>"

definition ReleaseLock :: "('h, 'z) sql_env_scheme \<Rightarrow> string \<Rightarrow> ('h world, bool) comp" where
  "ReleaseLock E vmID = statement E (\<lambda>d. (True, unlock_vm vmID d))"

subsection \<open>Snapshots\<close>

text \<open>The foreign key demands that the machine exists.\<close>

definition insert_snapshot :: "Snapshot \<Rightarrow> DB \<Rightarrow> bool \<times> DB" where
  "insert_snapshot s d =
     (if list_ex (\<lambda>r. sn_ID r = sn_ID s) (db_snapshots d) \<or> \<not> list_ex (\<lambda>r. vm_ID r = sn_VMID s) (db_vms d)
      then (False, d)
      else (True, d\<lparr>db_snapshots := db_snapshots d @ [s]\<rparr>))"

definition CreateSnapshot :: "('h, 'z) sql_env_scheme \<Rightarrow> Snapshot \<Rightarrow> ('h world, bool) comp" where
  "CreateSnapshot E s = statement E (insert_snapshot s)"

definition GetSnapshot :: "('h, 'z) sql_env_scheme \<Rightarrow> string \<Rightarrow> ('h world, Snapshot option option) comp" where
  "GetSnapshot E i = query E (\<lambda>d. find (\<lambda>s. sn_ID s = i) (db_snapshots d))"

definition ListSnapshots :: "('h, 'z) sql_env_scheme \<Rightarrow> string \<Rightarrow> ('h world, Snapshot list option) comp" where
  "ListSnapshots E vmID = query E (\<lambda>d. sort_key (\<lambda>s. - sn_CreatedAt s)
     (filter (\<lambda>s. sn_VMID s = vmID) (db_snapshots d)))"

definition delete_snapshot :: "string \<Rightarrow> DB \<Rightarrow> DB" where
  "delete_snapshot i d = d\<lparr>db_snapshots := filter (\<lambda>s. sn_ID s \<noteq> i) (db_snapshots d)\<rparr>"

definition DeleteSnapshot :: "('h, 'z) sql_env_scheme \<Rightarrow> string \<Rightarrow> ('h world, bool) comp" where
  "DeleteSnapshot E i = statement E (\<lambda>d. (True, delete_snapshot i d))"

subsection \<open>Images\<close>

definition insert_image :: "Image \<Rightarrow> DB \<Rightarrow> bool \<times> DB" where
  "insert_image im d =
     (if list_ex (\<lambda>r. im_Digest r = im_Digest im) (db_images d) then (False, d)
      else (True, d\<lparr>db_images := db_images d @ [im]\<rparr>))"

definition CreateImage :: "('h, 'z) sql_env_scheme \<Rightarrow> Image \<Rightarrow> ('h world, bool) comp" where
  "CreateImage E im = statement E (insert_image im)"

definition upsert_image :: "Image \<Rightarrow> DB \<Rightarrow> DB" where
  "upsert_image im d = d\<lparr>db_images :=
     (if list_ex (\<lambda>r. im_Digest r = im_Digest im) (db_images d)
      then map (\<lambda>r. if im_Digest r = im_Digest im then im else r) (db_images d)
      else db_images d @ [im])\<rparr>"

definition UpsertImage :: "('h, 'z) sql_env_scheme \<Rightarrow> Image \<Rightarrow> ('h world, bool) comp" where
  "UpsertImage E im = statement E (\<lambda>d. (True, upsert_image im d))"

definition find_image :: "string \<Rightarrow> DB \<Rightarrow> Image option" where
  "find_image digest d = find (\<lambda>r. im_Digest r = digest) (db_images d)"

definition GetImage :: "('h, 'z) sql_env_scheme \<Rightarrow> string \<Rightarrow> ('h world, Image option option) comp" where
  "GetImage E digest = query E (find_image digest)"

definition find_image_by_tag :: "string \<Rightarrow> DB \<Rightarrow> Image option" where
  "find_image_by_tag tag d = find (\<lambda>r. tag \<in> set (im_Tags r)) (db_images d)"

definition GetImageByTag :: "('h, 'z) sql_env_scheme \<Rightarrow> string \<Rightarrow> ('h world, Image option option) comp" where
  "GetImageByTag E tag = query E (find_image_by_tag tag)"

definition ListImages :: "('h, 'z) sql_env_scheme \<Rightarrow> ('h world, Image list option) comp" where
  "ListImages E = query E (\<lambda>d. sort_key (\<lambda>r. - im_PulledAt r) (db_images d))"

definition delete_image :: "string \<Rightarrow> DB \<Rightarrow> DB" where
  "delete_image digest d = d\<lparr>db_images := filter (\<lambda>r. im_Digest r \<noteq> digest) (db_images d)\<rparr>"

definition DeleteImage :: "('h, 'z) sql_env_scheme \<Rightarrow> string \<Rightarrow> ('h world, bool) comp" where
  "DeleteImage E digest = statement E (\<lambda>d. (True, delete_image digest d))"

subsection \<open>Pull jobs\<close>

definition insert_job :: "ImagePullJob \<Rightarrow> DB \<Rightarrow> bool \<times> DB" where
  "insert_job j d =
     (if list_ex (\<lambda>r. pj_ID r = pj_ID j) (db_jobs d) then (False, d)
      else (True, d\<lparr>db_jobs := db_jobs d @ [j]\<rparr>))"

definition CreatePullJob :: "('h, 'z) sql_env_scheme \<Rightarrow> ImagePullJob \<Rightarrow> ('h world, bool) comp" where
  "CreatePullJob E j = statement E (insert_job j)"

definition GetPullJob :: "('h, 'z) sql_env_scheme \<Rightarrow> string \<Rightarrow> ('h world, ImagePullJob option option) comp" where
  "GetPullJob E i = query E (\<lambda>d. find (\<lambda>r. pj_ID r = i) (db_jobs d))"

definition update_job :: "ImagePullJob \<Rightarrow> DB \<Rightarrow> DB" where
  "update_job j d = d\<lparr>db_jobs := map (\<lambda>r. if pj_ID r = pj_ID j
       then r\<lparr>pj_State := pj_State j, pj_Progress := pj_Progress j, pj_Error := pj_Error j,
              pj_ResultDigest := pj_ResultDigest j, pj_CompletedAt := pj_CompletedAt j\<rparr> else r) (db_jobs d)\<rparr>"

definition UpdatePullJob :: "('h, 'z) sql_env_scheme \<Rightarrow> ImagePullJob \<Rightarrow> ('h world, bool) comp" where
  "UpdatePullJob E j = statement E (\<lambda>d. (True, update_job j d))"

subsection \<open>The layer cache\<close>

definition put_layer :: "CachedLayer \<Rightarrow> DB \<Rightarrow> DB" where
  "put_layer l d = d\<lparr>db_layers :=
     (if list_ex (\<lambda>r. cl_Digest r = cl_Digest l) (db_layers d)
      then map (\<lambda>r. if cl_Digest r = cl_Digest l then l else r) (db_layers d)
      else db_layers d @ [l])\<rparr>"

definition PutCachedLayer :: "('h, 'z) sql_env_scheme \<Rightarrow> CachedLayer \<Rightarrow> ('h world, bool) comp" where
  "PutCachedLayer E l = statement E (\<lambda>d. (True, put_layer l d))"

definition find_layer :: "string \<Rightarrow> DB \<Rightarrow> CachedLayer option" where
  "find_layer digest d = find (\<lambda>r. cl_Digest r = digest) (db_layers d)"

definition GetCachedLayer :: "('h, 'z) sql_env_scheme \<Rightarrow> string \<Rightarrow> ('h world, CachedLayer option option) comp" where
  "GetCachedLayer E digest = query E (find_layer digest)"

definition CachedLayerExists :: "('h, 'z) sql_env_scheme \<Rightarrow> string \<Rightarrow> ('h world, bool option) comp" where
  "CachedLayerExists E digest = query E (\<lambda>d. 0 < length (filter (\<lambda>r. cl_Digest r = digest) (db_layers d)))"

definition touch_layer :: "string \<Rightarrow> timestamp \<Rightarrow> DB \<Rightarrow> DB" where
  "touch_layer digest t d = d\<lparr>db_layers := map (\<lambda>r. if cl_Digest r = digest
       then r\<lparr>cl_LastUsedAt := t\<rparr> else r) (db_layers d)\<rparr>"

definition TouchCachedLayer :: "('h, 'z) sql_env_scheme \<Rightarrow> string \<Rightarrow> timestamp \<Rightarrow> ('h world, bool) comp" where
  "TouchCachedLayer E digest t = statement E (\<lambda>d. (True, touch_layer digest t d))"

text \<open>The two totals of \<open>GetCachedLayerStats\<close>.\<close>

definition layer_totals :: "DB \<Rightarrow> nat \<times> int" where
  "layer_totals d = (length (db_layers d), sum_list (map cl_SizeBytes (db_layers d)))"

text \<open>The instant of the oldest access, the current time when the cache is empty.\<close>

definition GetCachedLayerStats :: "('h, 'z) sql_env_scheme \<Rightarrow> ('h world, (nat \<times> int \<times> timestamp) option) comp" where
  "GetCachedLayerStats E = do {
     r \<leftarrow> query E (\<lambda>d. (layer_totals d, map cl_LastUsedAt (db_layers d)));
     case r of
       None \<Rightarrow> State_Monad.return None
     | Some ((n, b), stamps) \<Rightarrow>
         if stamps = [] then do { now \<leftarrow> on_host (time_now E); State_Monad.return (Some (n, b, now)) }
         else State_Monad.return (Some (n, b, Min (set stamps)))
   }"

definition oldest_layers :: "DB \<Rightarrow> CachedLayer list" where
  "oldest_layers d = sort_key cl_LastUsedAt (db_layers d)"

definition GetOldestCachedLayers :: "('h, 'z) sql_env_scheme \<Rightarrow> int \<Rightarrow> ('h world, CachedLayer list option) comp" where
  "GetOldestCachedLayers E limit = query E (\<lambda>d.
     if limit > 0 then take (nat limit) (oldest_layers d) else oldest_layers d)"

definition delete_layer :: "string \<Rightarrow> DB \<Rightarrow> DB" where
  "delete_layer digest d = d\<lparr>db_layers := filter (\<lambda>r. cl_Digest r \<noteq> digest) (db_layers d)\<rparr>"

definition DeleteCachedLayer :: "('h, 'z) sql_env_scheme \<Rightarrow> string \<Rightarrow> ('h world, bool) comp" where
  "DeleteCachedLayer E digest = statement E (\<lambda>d. (True, delete_layer digest d))"

subsection \<open>The table constraints\<close>

text \<open>Primary keys, the unique name and the foreign key of \<open>schema.go\<close>.\<close>

definition db_inv :: "DB \<Rightarrow> bool" where
  "db_inv d \<longleftrightarrow>
     distinct (map vm_ID (db_vms d)) \<and> distinct (map vm_Name (db_vms d))
     \<and> distinct (map sn_ID (db_snapshots d))
     \<and> (\<forall>s \<in> set (db_snapshots d). \<exists>r \<in> set (db_vms d). vm_ID r = sn_VMID s)
     \<and> distinct (map im_Digest (db_images d))
     \<and> distinct (map pj_ID (db_jobs d))
     \<and> distinct (map cl_Digest (db_layers d))"

lemma db_inv_empty: "db_inv empty_DB"
  by (simp add: db_inv_def empty_DB_def)

lemma map_if_keep: "(\<And>r. k (f r) = k r) \<Longrightarrow> map k (map (\<lambda>r. if P r then f r else r) xs) = map k xs"
  by (induction xs) auto

lemma ids_update [simp]:
  "map vm_ID (db_vms (update_vm vm d)) = map vm_ID (db_vms d)"
  "map vm_Name (db_vms (update_vm vm d)) = map vm_Name (db_vms d)"
  "map vm_ID (db_vms (unlock_vm i d)) = map vm_ID (db_vms d)"
  "map vm_Name (db_vms (unlock_vm i d)) = map vm_Name (db_vms d)"
  "map vm_ID (db_vms (snd (lock_vm i opn t1 t2 d))) = map vm_ID (db_vms d)"
  "map vm_Name (db_vms (snd (lock_vm i opn t1 t2 d))) = map vm_Name (db_vms d)"
  by (simp_all add: update_vm_def unlock_vm_def lock_vm_def Let_def)

lemma other_tables [simp]:
  "db_snapshots (update_vm vm d) = db_snapshots d" "db_images (update_vm vm d) = db_images d"
  "db_jobs (update_vm vm d) = db_jobs d" "db_layers (update_vm vm d) = db_layers d"
  "db_snapshots (unlock_vm i d) = db_snapshots d" "db_images (unlock_vm i d) = db_images d"
  "db_jobs (unlock_vm i d) = db_jobs d" "db_layers (unlock_vm i d) = db_layers d"
  "db_snapshots (snd (lock_vm i opn t1 t2 d)) = db_snapshots d"
  "db_images (snd (lock_vm i opn t1 t2 d)) = db_images d"
  "db_jobs (snd (lock_vm i opn t1 t2 d)) = db_jobs d"
  "db_layers (snd (lock_vm i opn t1 t2 d)) = db_layers d"
  by (simp_all add: update_vm_def unlock_vm_def lock_vm_def Let_def)

lemma db_inv_same_keys:
  assumes "db_inv d" and "map vm_ID (db_vms d') = map vm_ID (db_vms d)"
    and "map vm_Name (db_vms d') = map vm_Name (db_vms d)"
    and "db_snapshots d' = db_snapshots d" and "db_images d' = db_images d"
    and "db_jobs d' = db_jobs d" and "db_layers d' = db_layers d"
  shows "db_inv d'"
proof -
  have "vm_ID ` set (db_vms d') = vm_ID ` set (db_vms d)"
    using assms(2) by (metis set_map)
  then have "(\<exists>r \<in> set (db_vms d'). vm_ID r = i) \<longleftrightarrow> (\<exists>r \<in> set (db_vms d). vm_ID r = i)" for i
    by (metis (mono_tags, lifting) imageE imageI)
  with assms show ?thesis by (simp add: db_inv_def)
qed

lemma db_inv_update [simp]: "db_inv d \<Longrightarrow> db_inv (update_vm vm d)"
  by (rule db_inv_same_keys) simp_all

lemma db_inv_unlock [simp]: "db_inv d \<Longrightarrow> db_inv (unlock_vm i d)"
  by (rule db_inv_same_keys) simp_all

lemma db_inv_lock [simp]: "db_inv d \<Longrightarrow> db_inv (snd (lock_vm i opn t1 t2 d))"
  by (rule db_inv_same_keys) simp_all

lemma db_inv_insert_vm [simp]: "db_inv d \<Longrightarrow> db_inv (snd (insert_vm vm d))"
  by (auto simp: db_inv_def insert_vm_def list_ex_iff vm_row_def)

lemma db_inv_delete_vm [simp]: "db_inv d \<Longrightarrow> db_inv (delete_vm i d)"
  by (auto simp: db_inv_def delete_vm_def distinct_map_filter_subset) metis

lemma db_inv_insert_snapshot [simp]: "db_inv d \<Longrightarrow> db_inv (snd (insert_snapshot s d))"
  by (auto simp: db_inv_def insert_snapshot_def list_ex_iff)

lemma db_inv_delete_snapshot [simp]: "db_inv d \<Longrightarrow> db_inv (delete_snapshot i d)"
  by (auto simp: db_inv_def delete_snapshot_def distinct_map_filter_subset)

lemma db_inv_insert_image [simp]: "db_inv d \<Longrightarrow> db_inv (snd (insert_image im d))"
  by (auto simp: db_inv_def insert_image_def list_ex_iff)

lemma map_replace_key:
  "map k (map (\<lambda>r. if k r = k x then x else r) xs) = map k xs"
  by (induction xs) auto

lemma db_inv_upsert_image [simp]: "db_inv d \<Longrightarrow> db_inv (upsert_image im d)"
  by (auto simp: db_inv_def upsert_image_def list_ex_iff comp_def intro!: distinct_map_filter_subset
      simp: map_replace_key [where k = im_Digest, unfolded map_map comp_def])

lemma db_inv_delete_image [simp]: "db_inv d \<Longrightarrow> db_inv (delete_image i d)"
  by (auto simp: db_inv_def delete_image_def distinct_map_filter_subset)

lemma db_inv_insert_job [simp]: "db_inv d \<Longrightarrow> db_inv (snd (insert_job j d))"
  by (auto simp: db_inv_def insert_job_def list_ex_iff)

lemma db_inv_update_job [simp]: "db_inv d \<Longrightarrow> db_inv (update_job j d)"
  by (simp add: db_inv_def update_job_def map_if_keep [unfolded map_map])

lemma db_inv_put_layer [simp]: "db_inv d \<Longrightarrow> db_inv (put_layer l d)"
  by (auto simp: db_inv_def put_layer_def list_ex_iff
      simp: map_replace_key [where k = cl_Digest, unfolded map_map comp_def] comp_def)

lemma db_inv_touch_layer [simp]: "db_inv d \<Longrightarrow> db_inv (touch_layer i t d)"
  by (simp add: db_inv_def touch_layer_def map_if_keep [unfolded map_map])

lemma db_inv_delete_layer [simp]: "db_inv d \<Longrightarrow> db_inv (delete_layer i d)"
  by (auto simp: db_inv_def delete_layer_def distinct_map_filter_subset)

subsection \<open>Rules for computations over the world\<close>

lemma wp_on_host [simp, wp_simps]:
  "wp (on_host m) Q = (\<lambda>w. wp m (\<lambda>a h. Q a (w\<lparr>w_host := h\<rparr>)) (w_host w))"
  by (simp add: on_host_def)

lemma wp_on_ipam [simp, wp_simps]:
  "wp (on_ipam m) Q = (\<lambda>w. wp m (\<lambda>a i. Q a (w\<lparr>w_ipam := i\<rparr>)) (w_ipam w))"
  by (simp add: on_ipam_def)

text \<open>What the outside world answers and does is arbitrary.\<close>

lemma wp_hostI: "(\<And>a h. Q a (w\<lparr>w_host := h\<rparr>)) \<Longrightarrow> wp (on_host m) Q w"
  by (simp add: wp_iff_run)

lemma wp_sqlI:
  assumes "\<And>h. Q None (w\<lparr>w_host := h\<rparr>)"
    and "\<And>h. Q (Some (fst (f (w_db w)))) (w\<lparr>w_host := h, w_db := snd (f (w_db w))\<rparr>)"
  shows "wp (sql E f) Q w"
  unfolding sql_def wp_bind by (rule wp_hostI) (simp add: assms)

lemma wp_queryI:
  assumes "\<And>h. Q None (w\<lparr>w_host := h\<rparr>)" and "\<And>h. Q (Some (f (w_db w))) (w\<lparr>w_host := h\<rparr>)"
  shows "wp (query E f) Q w"
  unfolding query_def by (rule wp_sqlI) (use assms in simp_all)

lemma wp_statementI:
  assumes "\<And>h. Q False (w\<lparr>w_host := h\<rparr>)"
    and "\<And>h. Q (fst (f (w_db w))) (w\<lparr>w_host := h, w_db := snd (f (w_db w))\<rparr>)"
  shows "wp (statement E f) Q w"
  unfolding statement_def wp_bind by (rule wp_sqlI) (use assms in simp_all)

lemma wp_GetVMI:
  assumes "\<And>h. Q None (w\<lparr>w_host := h\<rparr>)"
    and "\<And>h. find_vm i (w_db w) = None \<Longrightarrow> Q (Some None) (w\<lparr>w_host := h\<rparr>)"
    and "\<And>h vm. find_vm i (w_db w) = Some vm \<Longrightarrow> Q (Some (Some vm)) (w\<lparr>w_host := h\<rparr>)"
  shows "wp (GetVM E i) Q w"
  unfolding GetVM_def by (rule wp_queryI) (use assms in \<open>cases "find_vm i (w_db w)"; simp\<close>)+

lemma wp_UpdateVMI:
  assumes "\<And>h t. Q (False, vm\<lparr>vm_UpdatedAt := t\<rparr>) (w\<lparr>w_host := h\<rparr>)"
    and "\<And>h t. Q (True, vm\<lparr>vm_UpdatedAt := t\<rparr>)
           (w\<lparr>w_host := h, w_db := update_vm (vm\<lparr>vm_UpdatedAt := t\<rparr>) (w_db w)\<rparr>)"
  shows "wp (UpdateVM E vm) Q w"
  unfolding UpdateVM_def Let_def wp_bind
  by (rule wp_hostI, rule wp_statementI) (use assms in simp_all)

text \<open>A computation that only lets the outside world move.\<close>

lemma pres_on_host [pres_intros]:
  "(\<And>h w. I w \<Longrightarrow> I (w\<lparr>w_host := h\<rparr>)) \<Longrightarrow> pres I (on_host m)"
  unfolding pres_iff_wp by (blast intro: wp_hostI)

lemma pres_query:
  "(\<And>h w. I w \<Longrightarrow> I (w\<lparr>w_host := h\<rparr>)) \<Longrightarrow> pres I (query E f)"
  unfolding pres_iff_wp by (blast intro: wp_queryI)

lemma pres_statement:
  "(\<And>h w. I w \<Longrightarrow> I (w\<lparr>w_host := h\<rparr>)) \<Longrightarrow>
   (\<And>w. I w \<Longrightarrow> I (w\<lparr>w_db := snd (f (w_db w))\<rparr>)) \<Longrightarrow> pres I (statement E f)"
  unfolding pres_iff_wp
proof (intro allI impI wp_statementI)
  fix w h
  assume host: "\<And>h w. I w \<Longrightarrow> I (w\<lparr>w_host := h\<rparr>)" and db: "\<And>w. I w \<Longrightarrow> I (w\<lparr>w_db := snd (f (w_db w))\<rparr>)"
    and "I w"
  then show "I (w\<lparr>w_host := h\<rparr>)" by blast
  show "I (w\<lparr>w_host := h, w_db := snd (f (w_db w))\<rparr>)"
    using db [OF host [OF \<open>I w\<close>, of h]] by simp
qed

subsection \<open>Finding rows\<close>

lemma find_vm_Some:
  "find_vm i d = Some vm \<Longrightarrow> vm \<in> set (db_vms d) \<and> (vm_ID vm = i \<or> vm_Name vm = i)"
  by (auto simp: find_vm_def dest: find_Some_iff)

lemma find_unique:
  assumes "distinct (map k xs)" and "x \<in> set xs"
  shows "find (\<lambda>r. k r = k x) xs = Some x"
  using assms by (induction xs) force+

text \<open>The row of a machine by its key.\<close>

definition row :: "string \<Rightarrow> DB \<Rightarrow> VM option" where
  "row i d = find (\<lambda>r. vm_ID r = i) (db_vms d)"

lemma row_Some: "row i d = Some r \<Longrightarrow> r \<in> set (db_vms d) \<and> vm_ID r = i"
  by (auto simp: row_def dest: find_Some_iff)

lemma row_find_vm: "db_inv d \<Longrightarrow> find_vm i d = Some vm \<Longrightarrow> row (vm_ID vm) d = Some vm"
  by (auto simp: row_def db_inv_def intro!: find_unique dest: find_vm_Some)

lemma find_map_if:
  assumes "\<And>r. k (f r) = k r"
  shows "find (\<lambda>r. k r = i) (map (\<lambda>r. if P r then f r else r) xs)
         = map_option (\<lambda>r. if P r then f r else r) (find (\<lambda>r. k r = i) xs)"
  using assms by (induction xs) auto

lemma row_update_vm:
  "row i (update_vm vm d) = (if i = vm_ID vm then map_option (\<lambda>r. r\<lparr>vm_State := vm_State vm,
     vm_Config := vm_Config vm, vm_Runtime := vm_Runtime vm, vm_UpdatedAt := vm_UpdatedAt vm\<rparr>) (row i d) else row i d)"
proof -
  have "row i (update_vm vm d) = map_option (\<lambda>r. if vm_ID r = vm_ID vm then r\<lparr>vm_State := vm_State vm,
     vm_Config := vm_Config vm, vm_Runtime := vm_Runtime vm, vm_UpdatedAt := vm_UpdatedAt vm\<rparr> else r) (row i d)"
    by (simp add: row_def update_vm_def find_map_if)
  then show ?thesis by (cases "row i d") (auto dest: row_Some)
qed

lemma row_unlock_vm:
  "row i (unlock_vm j d) = (if i = j then map_option (\<lambda>r. r\<lparr>vm_LockedBy := None, vm_LockedAt := None\<rparr>) (row i d) else row i d)"
proof -
  have "row i (unlock_vm j d) = map_option (\<lambda>r. if vm_ID r = j then r\<lparr>vm_LockedBy := None, vm_LockedAt := None\<rparr> else r) (row i d)"
    by (simp add: row_def unlock_vm_def find_map_if)
  then show ?thesis by (cases "row i d") (auto dest: row_Some)
qed

lemma row_lock_vm:
  "row i (snd (lock_vm j opn t1 t2 d)) = map_option (\<lambda>r. if vm_ID r = j \<and> lockable t2 r
     then r\<lparr>vm_LockedBy := Some opn, vm_LockedAt := Some t1\<rparr> else r) (row i d)"
  by (simp add: row_def lock_vm_def Let_def find_map_if)

lemma fst_lock_vm:
  assumes "db_inv d" and "row j d = Some r"
  shows "fst (lock_vm j opn t1 t2 d) = lockable t2 r"
proof -
  have "distinct (map vm_ID (db_vms d))" using assms(1) by (simp add: db_inv_def)
  moreover have "r \<in> set (db_vms d)" "vm_ID r = j" using row_Some [OF assms(2)] by auto
  ultimately show ?thesis
    by (auto simp: lock_vm_def Let_def list_ex_iff) (metis inj_onD distinct_map)
qed

lemmas row_simps = row_update_vm row_unlock_vm row_lock_vm

end
