(* ===== verification/Config.thy ===== *)
theory Config
  imports Types
begin

section \<open>Daemon configuration (internal/config)\<close>

text \<open>
  The configuration structs and \<open>Validate\<close>. Fields that no modelled code reads (file modes, log
  rotation, registry credentials) are left out; parsing YAML is not modelled. \<open>Validate\<close> writes
  defaults into its receiver, so it returns the changed configuration with the error. The name of
  the host operating system (\<open>runtime.GOOS\<close>) is an argument.
\<close>

record SnapshotStoreConfig =
  ss_Backend :: string
  ss_Path :: string
  ss_Compression :: string
  ss_Parallelism :: int

record AppleContainerRuntimeConfig =
  ac_BinaryPath :: string
  ac_AutoStart :: bool
  ac_DefaultCommand :: string

record RuntimeConfig =
  rc_Driver :: string
  rc_AppleContainer :: AppleContainerRuntimeConfig

record AuthConfig =
  au_Enabled :: bool
  au_TLSCertFile :: string
  au_TLSKeyFile :: string
  au_ClientCAFile :: string

record SPIREConfig =
  sp_Enabled :: bool
  sp_Required :: bool
  sp_ServerSocket :: string
  sp_TrustDomain :: string
  sp_ParentID :: string
  sp_WorkloadType :: string
  sp_DefaultTTL :: int
  sp_VsockCID :: "32 word"
  sp_VsockPort :: "32 word"
  sp_AgentSocket :: string
  sp_ContainerName :: string

record APIConfig =
  ap_Socket :: string
  ap_TCPBind :: string

record StorageConfig =
  st_DataDir :: string
  st_Database :: string

record FirecrackerConfig =
  fc_BinaryPath :: string
  fc_KernelPath :: string
  fc_ExecSSHKeyPath :: string
  fc_ExecSSHUser :: string
  fc_ExecSSHVerifyHostKey :: bool

record LimitsConfig =
  lm_MaxVMs :: int
  lm_MaxTotalMemoryMiB :: int
  lm_MaxVCPUsPerVM :: int
  lm_MaxMemoryPerVMMiB :: int
  lm_MaxSnapshotStorageGiB :: int

record HostNetworkConfig =
  hn_Setup :: bool

record Config =
  cf_API :: APIConfig
  cf_Storage :: StorageConfig
  cf_Runtime :: RuntimeConfig
  cf_Firecracker :: FirecrackerConfig
  cf_Limits :: LimitsConfig
  cf_Network :: HostNetworkConfig
  cf_SPIRE :: SPIREConfig
  cf_Auth :: AuthConfig
  cf_SnapshotStore :: SnapshotStoreConfig

datatype config_error =
    CfgDataDir | CfgDatabase | CfgDriver | CfgFirecrackerBinary | CfgMaxVMs | CfgMaxMemory
  | CfgSPIRERequired | CfgSnapshotPath | CfgSnapshotBackend | CfgSnapshotCompression
  | CfgTLSCert | CfgTLSKey | CfgClientCA

definition DefaultConfig :: Config where
  "DefaultConfig = \<lparr>
     cf_API = \<lparr>ap_Socket = ''/var/run/nanofused.sock'', ap_TCPBind = []\<rparr>,
     cf_Storage = \<lparr>st_DataDir = ''/var/lib/nanofuse'', st_Database = ''/var/lib/nanofuse/nanofuse.db''\<rparr>,
     cf_Runtime = \<lparr>rc_Driver = ''auto'',
       rc_AppleContainer = \<lparr>ac_BinaryPath = ''/usr/local/bin/container'', ac_AutoStart = True,
         ac_DefaultCommand = ''sleep infinity''\<rparr>\<rparr>,
     cf_Firecracker = \<lparr>fc_BinaryPath = ''/usr/local/bin/firecracker'', fc_KernelPath = [],
       fc_ExecSSHKeyPath = [], fc_ExecSSHUser = [], fc_ExecSSHVerifyHostKey = False\<rparr>,
     cf_Limits = \<lparr>lm_MaxVMs = 50, lm_MaxTotalMemoryMiB = 32768, lm_MaxVCPUsPerVM = 8,
       lm_MaxMemoryPerVMMiB = 8192, lm_MaxSnapshotStorageGiB = 100\<rparr>,
     cf_Network = \<lparr>hn_Setup = True\<rparr>,
     cf_SPIRE = \<lparr>sp_Enabled = False, sp_Required = False,
       sp_ServerSocket = ''/tmp/spire-server/private/api.sock'', sp_TrustDomain = ''poley.dev'',
       sp_ParentID = ''spiffe://poley.dev/agent/local'', sp_WorkloadType = ''microvm'',
       sp_DefaultTTL = 3600, sp_VsockCID = 0, sp_VsockPort = 8307,
       sp_AgentSocket = ''/run/spire/sockets/agent.sock'', sp_ContainerName = ''spire-server''\<rparr>,
     cf_Auth = \<lparr>au_Enabled = False, au_TLSCertFile = [], au_TLSKeyFile = [], au_ClientCAFile = []\<rparr>,
     cf_SnapshotStore = \<lparr>ss_Backend = [], ss_Path = [], ss_Compression = [], ss_Parallelism = 0\<rparr>\<rparr>"

subsection \<open>Validation\<close>

definition runtimeDriverForHost :: "string \<Rightarrow> string \<Rightarrow> string option" where
  "runtimeDriverForHost driver0 goos =
     (let driver = (if driver0 = [] then ''auto'' else driver0)
      in if driver = ''auto'' then
           (if goos = ''darwin'' then Some ''apple_container''
            else if goos = ''linux'' then Some ''firecracker''
            else None)
         else if driver = ''firecracker'' then
           (if goos \<noteq> ''linux'' then None else Some ''firecracker'')
         else if driver = ''apple_container'' then
           (if goos \<noteq> ''darwin'' then None else Some ''apple_container'')
         else None)"

definition validateRuntime :: "string \<Rightarrow> Config \<Rightarrow> Config \<times> config_error option" where
  "validateRuntime goos c =
     (let c1 = (if rc_Driver (cf_Runtime c) = [] then c\<lparr>cf_Runtime := (cf_Runtime c)\<lparr>rc_Driver := ''auto''\<rparr>\<rparr> else c)
      in case runtimeDriverForHost (rc_Driver (cf_Runtime c1)) goos of
           None \<Rightarrow> (c1, Some CfgDriver)
         | Some driver \<Rightarrow>
             if driver = ''firecracker'' \<and> fc_BinaryPath (cf_Firecracker c1) = [] then (c1, Some CfgFirecrackerBinary)
             else if driver = ''apple_container'' then
               let ac = rc_AppleContainer (cf_Runtime c1);
                   ac1 = (if ac_BinaryPath ac = [] then ac\<lparr>ac_BinaryPath := ''/usr/local/bin/container''\<rparr> else ac);
                   ac2 = (if ac_DefaultCommand ac1 = [] then ac1\<lparr>ac_DefaultCommand := ''sleep infinity''\<rparr> else ac1)
               in (c1\<lparr>cf_Runtime := (cf_Runtime c1)\<lparr>rc_AppleContainer := ac2\<rparr>\<rparr>, None)
             else (c1, None))"

definition validateSPIRE :: "Config \<Rightarrow> config_error option" where
  "validateSPIRE c = (if sp_Required (cf_SPIRE c) \<and> \<not> sp_Enabled (cf_SPIRE c) then Some CfgSPIRERequired else None)"

definition SnapshotBackendDisabled :: string where "SnapshotBackendDisabled = []"
definition SnapshotBackendFilesystem :: string where "SnapshotBackendFilesystem = ''filesystem''"

definition validateSnapshotStore :: "Config \<Rightarrow> config_error option" where
  "validateSnapshotStore c =
     (let ss = cf_SnapshotStore c
      in if ss_Backend ss = SnapshotBackendDisabled then None
         else if ss_Backend ss \<noteq> SnapshotBackendFilesystem then Some CfgSnapshotBackend
         else if ss_Path ss = [] then Some CfgSnapshotPath
         else if ss_Compression ss \<noteq> [] \<and> ss_Compression ss \<noteq> ''zstd'' then Some CfgSnapshotCompression
         else None)"

definition validateAuth :: "Config \<Rightarrow> config_error option" where
  "validateAuth c =
     (let au = cf_Auth c
      in if \<not> au_Enabled au \<or> ap_TCPBind (cf_API c) = [] then None
         else if au_TLSCertFile au = [] then Some CfgTLSCert
         else if au_TLSKeyFile au = [] then Some CfgTLSKey
         else if au_ClientCAFile au = [] then Some CfgClientCA
         else None)"

definition Validate :: "string \<Rightarrow> Config \<Rightarrow> Config \<times> config_error option" where
  "Validate goos c =
     (if st_DataDir (cf_Storage c) = [] then (c, Some CfgDataDir)
      else if st_Database (cf_Storage c) = [] then (c, Some CfgDatabase)
      else case validateRuntime goos c of
        (c1, Some e) \<Rightarrow> (c1, Some e)
      | (c1, None) \<Rightarrow>
          if lm_MaxVMs (cf_Limits c1) \<le> 0 then (c1, Some CfgMaxVMs)
          else if lm_MaxTotalMemoryMiB (cf_Limits c1) \<le> 0 then (c1, Some CfgMaxMemory)
          else case validateSPIRE c1 of
            Some e \<Rightarrow> (c1, Some e)
          | None \<Rightarrow> (case validateSnapshotStore c1 of
              Some e \<Rightarrow> (c1, Some e)
            | None \<Rightarrow> (c1, validateAuth c1)))"

text \<open>\<open>selectedRuntimeDriver\<close> of \<open>internal/api/server.go\<close>.\<close>

definition selectedRuntimeDriver :: "string \<Rightarrow> Config \<Rightarrow> string" where
  "selectedRuntimeDriver goos c =
     (let driver = rc_Driver (cf_Runtime c)
      in if driver = ''auto'' \<or> driver = [] then
           (if goos = ''darwin'' then ''apple_container'' else ''firecracker'')
         else driver)"

subsection \<open>Properties\<close>

lemma validateRuntime_None:
  assumes "validateRuntime goos c = (c1, None)"
  shows "runtimeDriverForHost (rc_Driver (cf_Runtime c1)) goos = Some (selectedRuntimeDriver goos c1)
       \<and> (selectedRuntimeDriver goos c1 = ''firecracker'' \<longrightarrow> fc_BinaryPath (cf_Firecracker c1) \<noteq> [])
       \<and> (selectedRuntimeDriver goos c1 = ''apple_container'' \<longrightarrow> ac_BinaryPath (rc_AppleContainer (cf_Runtime c1)) \<noteq> [])
       \<and> c1 = c\<lparr>cf_Runtime := cf_Runtime c1\<rparr>"
  using assms
  by (auto simp: validateRuntime_def runtimeDriverForHost_def selectedRuntimeDriver_def Let_def
      split: if_splits option.splits)

text \<open>A configuration that passes \<open>Validate\<close> selects, at run time, exactly the driver that
  validation found for the host; that driver has its binary; a mandatory SPIRE identity implies that
  SPIRE is on; an authenticated TCP listener has certificate, key and client CA; and the snapshot
  tier, when on, has a path. Nothing but the runtime section was changed.\<close>

theorem Validate_sound:
  assumes "Validate goos c = (c1, None)"
  shows "selectedRuntimeDriver goos c1 \<in> {''firecracker'', ''apple_container''}
       \<and> runtimeDriverForHost (rc_Driver (cf_Runtime c1)) goos = Some (selectedRuntimeDriver goos c1)
       \<and> (selectedRuntimeDriver goos c1 = ''firecracker'' \<longrightarrow> goos = ''linux'' \<and> fc_BinaryPath (cf_Firecracker c1) \<noteq> [])
       \<and> (sp_Required (cf_SPIRE c1) \<longrightarrow> sp_Enabled (cf_SPIRE c1))
       \<and> (au_Enabled (cf_Auth c1) \<and> ap_TCPBind (cf_API c1) \<noteq> [] \<longrightarrow>
            au_TLSCertFile (cf_Auth c1) \<noteq> [] \<and> au_TLSKeyFile (cf_Auth c1) \<noteq> [] \<and> au_ClientCAFile (cf_Auth c1) \<noteq> [])
       \<and> (ss_Backend (cf_SnapshotStore c1) \<noteq> [] \<longrightarrow> ss_Path (cf_SnapshotStore c1) \<noteq> [])
       \<and> 0 < lm_MaxVMs (cf_Limits c1)
       \<and> c1 = c\<lparr>cf_Runtime := cf_Runtime c1\<rparr>"
proof -
  obtain runtime: "validateRuntime goos c = (c1, None)"
    and limits: "0 < lm_MaxVMs (cf_Limits c1)"
    and sub: "validateSPIRE c1 = None" "validateSnapshotStore c1 = None" "validateAuth c1 = None"
    using assms by (auto simp: Validate_def split: if_splits option.splits prod.splits)
  note r = validateRuntime_None [OF runtime]
  then have "selectedRuntimeDriver goos c1 \<in> {''firecracker'', ''apple_container''}"
    and "selectedRuntimeDriver goos c1 = ''firecracker'' \<longrightarrow> goos = ''linux''"
    by (auto simp: runtimeDriverForHost_def Let_def split: if_splits)
  moreover have "sp_Required (cf_SPIRE c1) \<longrightarrow> sp_Enabled (cf_SPIRE c1)"
    using sub(1) by (auto simp: validateSPIRE_def split: if_splits)
  moreover have "ss_Backend (cf_SnapshotStore c1) \<noteq> [] \<longrightarrow> ss_Path (cf_SnapshotStore c1) \<noteq> []"
    using sub(2) by (auto simp: validateSnapshotStore_def SnapshotBackendDisabled_def Let_def split: if_splits)
  moreover have "au_Enabled (cf_Auth c1) \<and> ap_TCPBind (cf_API c1) \<noteq> [] \<longrightarrow>
      au_TLSCertFile (cf_Auth c1) \<noteq> [] \<and> au_TLSKeyFile (cf_Auth c1) \<noteq> [] \<and> au_ClientCAFile (cf_Auth c1) \<noteq> []"
    using sub(3) by (auto simp: validateAuth_def Let_def split: if_splits)
  ultimately show ?thesis using r limits by blast
qed

theorem Validate_sound_witness:
  "snd (Validate ''linux'' DefaultConfig) = None
   \<and> selectedRuntimeDriver ''linux'' (fst (Validate ''linux'' DefaultConfig)) \<in> {''firecracker'', ''apple_container''}"
proof -
  have ok: "snd (Validate ''linux'' DefaultConfig) = None" by code_simp
  then have "Validate ''linux'' DefaultConfig = (fst (Validate ''linux'' DefaultConfig), None)"
    by (simp add: prod_eq_iff)
  from Validate_sound [OF this] ok show ?thesis by blast
qed

end
