(* ===== verification/Netfilter.thy ===== *)
theory Netfilter
  imports Types
begin

section \<open>The host firewall as an interface\<close>

text \<open>
  The daemon changes packet filtering by running \<open>iptables\<close>, \<open>sysctl\<close>, \<open>modprobe\<close> and \<open>ip\<close>.
  These programs are not part of the repository: a command runner is a parameter of everything that
  uses them. This theory states, as a locale, the documented behaviour the daemon relies on: what
  the rules of a chain are after a successful command, and that a failed one leaves them alone.
  A table is given by the arguments that select it, so the filter table is the empty list. The
  reference firewall at the end of the theory shows that the laws can hold together.
\<close>

type_synonym 'h runner = "string list \<Rightarrow> ('h, bool) comp"
type_synonym rule_spec = "string list"
type_synonym placed_rule = "string list \<times> string \<times> rule_spec"
type_synonym ruleset = "string list \<Rightarrow> string \<Rightarrow> rule_spec list"

definition nat_table :: "string list" where
  "nat_table = [''-t'', ''nat'']"

definition iptables :: "string list \<Rightarrow> string \<Rightarrow> string \<Rightarrow> string list \<Rightarrow> string list" where
  "iptables tb opt chain args = [''iptables''] @ tb @ [opt, chain] @ args"

definition set_chain :: "ruleset \<Rightarrow> string list \<Rightarrow> string \<Rightarrow> rule_spec list \<Rightarrow> ruleset" where
  "set_chain R tb c rs = R(tb := (R tb)(c := rs))"

lemma set_chain_same [simp]: "set_chain R tb c rs tb c = rs"
  by (simp add: set_chain_def)

lemma set_chain_other [simp]: "tb \<noteq> tb' \<or> c \<noteq> c' \<Longrightarrow> set_chain R tb c rs tb' c' = R tb' c'"
  by (auto simp: set_chain_def)

lemma set_chain_twice [simp]: "set_chain (set_chain R tb c rs) tb c rs' = set_chain R tb c rs'"
  by (simp add: set_chain_def)

lemma set_chain_id [simp]: "set_chain R tb c (R tb c) = R"
  by (simp add: set_chain_def)

locale netfilter =
  fixes run :: "'h runner" and rules :: "'h \<Rightarrow> ruleset"
  assumes flush: "tb \<in> {[], nat_table} \<Longrightarrow> wp (run (iptables tb ''-F'' c []))
      (\<lambda>ok h'. rules h' = (if ok then set_chain (rules h) tb c [] else rules h)) h"
    and append: "tb \<in> {[], nat_table} \<Longrightarrow> wp (run (iptables tb ''-A'' c spec))
      (\<lambda>ok h'. rules h' = (if ok then set_chain (rules h) tb c (rules h tb c @ [spec]) else rules h)) h"
    and insert_top: "tb \<in> {[], nat_table} \<Longrightarrow> wp (run (iptables tb ''-I'' c (''1'' # spec)))
      (\<lambda>ok h'. rules h' = (if ok then set_chain (rules h) tb c (spec # rules h tb c) else rules h)) h"
    and delete: "tb \<in> {[], nat_table} \<Longrightarrow> wp (run (iptables tb ''-D'' c spec))
      (\<lambda>ok h'. rules h' = (if ok then set_chain (rules h) tb c (remove1 spec (rules h tb c)) else rules h)
               \<and> (ok \<longrightarrow> spec \<in> set (rules h tb c))) h"
    and check: "tb \<in> {[], nat_table} \<Longrightarrow> wp (run (iptables tb ''-C'' c spec))
      (\<lambda>ok h'. rules h' = rules h \<and> (ok \<longrightarrow> spec \<in> set (rules h tb c))) h"
    and new_chain: "wp (run (iptables [] ''-N'' c []))
      (\<lambda>ok h'. rules h' = (if ok then set_chain (rules h) [] c [] else rules h)) h"
    and delete_chain: "wp (run (iptables [] ''-X'' c []))
      (\<lambda>ok h'. rules h' = (if ok then set_chain (rules h) [] c [] else rules h)) h"
    and other: "cmd \<noteq> [] \<Longrightarrow> hd cmd \<noteq> ''iptables'' \<Longrightarrow> wp (run cmd) (\<lambda>ok h'. rules h' = rules h) h"
begin

text \<open>The same laws as rules to step over one command.\<close>

lemma wp_flush:
  assumes "tb \<in> {[], nat_table}"
    and "\<And>ok h'. rules h' = (if ok then set_chain (rules h) tb c [] else rules h) \<Longrightarrow> Q ok h'"
  shows "wp (run (iptables tb ''-F'' c [])) Q h"
  using flush [OF assms(1)] assms(2) by (rule wp_mono)

lemma wp_append:
  assumes "tb \<in> {[], nat_table}"
    and "\<And>ok h'. rules h' = (if ok then set_chain (rules h) tb c (rules h tb c @ [spec]) else rules h) \<Longrightarrow> Q ok h'"
  shows "wp (run (iptables tb ''-A'' c spec)) Q h"
  using append [OF assms(1)] assms(2) by (rule wp_mono)

lemma wp_insert_top:
  assumes "tb \<in> {[], nat_table}"
    and "\<And>ok h'. rules h' = (if ok then set_chain (rules h) tb c (spec # rules h tb c) else rules h) \<Longrightarrow> Q ok h'"
  shows "wp (run (iptables tb ''-I'' c (''1'' # spec))) Q h"
  using insert_top [OF assms(1)] assms(2) by (rule wp_mono)

lemma wp_delete:
  assumes "tb \<in> {[], nat_table}"
    and "\<And>ok h'. rules h' = (if ok then set_chain (rules h) tb c (remove1 spec (rules h tb c)) else rules h)
               \<Longrightarrow> (ok \<Longrightarrow> spec \<in> set (rules h tb c)) \<Longrightarrow> Q ok h'"
  shows "wp (run (iptables tb ''-D'' c spec)) Q h"
  by (rule wp_mono [OF delete [OF assms(1)]]) (blast intro: assms(2))

lemma wp_check:
  assumes "tb \<in> {[], nat_table}"
    and "\<And>ok h'. rules h' = rules h \<Longrightarrow> (ok \<Longrightarrow> spec \<in> set (rules h tb c)) \<Longrightarrow> Q ok h'"
  shows "wp (run (iptables tb ''-C'' c spec)) Q h"
  by (rule wp_mono [OF check [OF assms(1)]]) (blast intro: assms(2))

lemma wp_new_chain:
  assumes "\<And>ok h'. rules h' = (if ok then set_chain (rules h) [] c [] else rules h) \<Longrightarrow> Q ok h'"
  shows "wp (run (iptables [] ''-N'' c [])) Q h"
  using new_chain assms by (rule wp_mono)

lemma wp_delete_chain:
  assumes "\<And>ok h'. rules h' = (if ok then set_chain (rules h) [] c [] else rules h) \<Longrightarrow> Q ok h'"
  shows "wp (run (iptables [] ''-X'' c [])) Q h"
  using delete_chain assms by (rule wp_mono)

lemma wp_other:
  assumes "cmd \<noteq> []" and "hd cmd \<noteq> ''iptables''"
    and "\<And>ok h'. rules h' = rules h \<Longrightarrow> Q ok h'"
  shows "wp (run cmd) Q h"
  using other [OF assms(1,2)] assms(3) by (rule wp_mono)

text \<open>\<open>present h x\<close>: the rule is there. \<open>same_but own R h\<close>: every rule that is not in
  \<open>own\<close> is where it was in \<open>R\<close>, in the same order.\<close>

definition present :: "'h \<Rightarrow> placed_rule \<Rightarrow> bool" where
  "present h x = (case x of (tb, c, s) \<Rightarrow> s \<in> set (rules h tb c))"

definition same_but :: "placed_rule set \<Rightarrow> ruleset \<Rightarrow> 'h \<Rightarrow> bool" where
  "same_but own R h \<longleftrightarrow>
     (\<forall>tb c. filter (\<lambda>s. (tb, c, s) \<notin> own) (rules h tb c) = filter (\<lambda>s. (tb, c, s) \<notin> own) (R tb c))"

lemma present_set_chain:
  "rules h' = set_chain (rules h) tb c xs \<Longrightarrow>
   present h' (tb', c', s) = (if tb' = tb \<and> c' = c then s \<in> set xs else present h (tb', c', s))"
  by (auto simp: present_def)

lemma same_but_refl: "same_but own (rules h) h"
  by (simp add: same_but_def)

lemma same_but_set_chain:
  assumes "same_but own R h" and "rules h' = set_chain (rules h) tb c xs"
    and "filter (\<lambda>s. (tb, c, s) \<notin> own) xs = filter (\<lambda>s. (tb, c, s) \<notin> own) (rules h tb c)"
  shows "same_but own R h'"
  unfolding same_but_def
proof (intro allI)
  fix tb' c'
  show "filter (\<lambda>s. (tb', c', s) \<notin> own) (rules h' tb' c') = filter (\<lambda>s. (tb', c', s) \<notin> own) (R tb' c')"
    using assms by (cases "tb' = tb \<and> c' = c") (auto simp: same_but_def)
qed

lemma same_but_restored:
  assumes "same_but own R h" and "\<And>s. (tb, c, s) \<in> own \<Longrightarrow> s \<notin> set (R tb c) \<and> s \<notin> set (rules h tb c)"
  shows "rules h tb c = R tb c"
proof -
  have "filter (\<lambda>s. (tb, c, s) \<notin> own) xs = xs" if "xs = R tb c \<or> xs = rules h tb c" for xs
    using assms(2) that by (intro filter_True) metis
  from this [of "R tb c"] this [of "rules h tb c"] show ?thesis
    using assms(1) unfolding same_but_def by (metis (no_types))
qed

lemma same_but_same: "same_but own R h \<Longrightarrow> rules h' = rules h \<Longrightarrow> same_but own R h'"
  by (simp add: same_but_def)

lemma filter_remove1_other: "\<not> P x \<Longrightarrow> filter P (remove1 x xs) = filter P xs"
  by (induction xs) auto

lemma same_but_pres:
  assumes "(tb, c, spec) \<in> own" and "tb \<in> {[], nat_table}"
  shows "pres (same_but own R) (run (iptables tb ''-C'' c spec))"
    and "pres (same_but own R) (run (iptables tb ''-A'' c spec))"
    and "pres (same_but own R) (run (iptables tb ''-I'' c (''1'' # spec)))"
    and "pres (same_but own R) (run (iptables tb ''-D'' c spec))"
proof -
  have keep: "same_but own R h'"
    if "same_but own R h" "rules h' = (if ok then set_chain (rules h) tb c xs else rules h)"
      "filter (\<lambda>s. (tb, c, s) \<notin> own) xs = filter (\<lambda>s. (tb, c, s) \<notin> own) (rules h tb c)" for h h' ok xs
    using that by (cases ok) (auto intro: same_but_set_chain same_but_same)
  show "pres (same_but own R) (run (iptables tb ''-C'' c spec))"
    unfolding pres_iff_wp by (auto intro!: wp_check assms(2) intro: same_but_same)
  show "pres (same_but own R) (run (iptables tb ''-A'' c spec))"
    unfolding pres_iff_wp by (intro allI impI wp_append assms(2)) (erule keep, assumption, use assms(1) in simp)
  show "pres (same_but own R) (run (iptables tb ''-I'' c (''1'' # spec)))"
    unfolding pres_iff_wp by (intro allI impI wp_insert_top assms(2)) (erule keep, assumption, use assms(1) in simp)
  show "pres (same_but own R) (run (iptables tb ''-D'' c spec))"
    unfolding pres_iff_wp
    by (intro allI impI wp_delete assms(2)) (erule keep, assumption, use assms(1) in \<open>simp add: filter_remove1_other\<close>)
qed

end

text \<open>A host on which checking and deleting never fail without reason: \<open>iptables -C\<close> and
  \<open>iptables -D\<close> succeed when the rule is there.\<close>

locale reliable_netfilter = netfilter run rules
  for run :: "'h runner" and rules :: "'h \<Rightarrow> ruleset" +
  assumes check_present: "tb \<in> {[], nat_table} \<Longrightarrow> spec \<in> set (rules h tb c) \<Longrightarrow>
      wp (run (iptables tb ''-C'' c spec)) (\<lambda>ok _. ok) h"
    and delete_present: "tb \<in> {[], nat_table} \<Longrightarrow> spec \<in> set (rules h tb c) \<Longrightarrow>
      wp (run (iptables tb ''-D'' c spec)) (\<lambda>ok _. ok) h"
begin

lemma wp_check_iff:
  assumes "tb \<in> {[], nat_table}"
    and "\<And>ok h'. rules h' = rules h \<Longrightarrow> ok = (spec \<in> set (rules h tb c)) \<Longrightarrow> Q ok h'"
  shows "wp (run (iptables tb ''-C'' c spec)) Q h"
proof (cases "spec \<in> set (rules h tb c)")
  case True
  from check_present [OF assms(1) True] check [OF assms(1), of c spec h]
  have "wp (run (iptables tb ''-C'' c spec)) (\<lambda>ok h'. ok \<and> rules h' = rules h) h"
    by (simp add: wp_iff_run)
  then show ?thesis by (rule wp_mono) (use assms(2) True in auto)
next
  case False
  then show ?thesis using assms by (auto intro!: wp_check)
qed

lemma wp_delete_iff:
  assumes "tb \<in> {[], nat_table}"
    and "\<And>ok h'. rules h' = set_chain (rules h) tb c (remove1 spec (rules h tb c)) \<Longrightarrow> Q ok h'"
  shows "wp (run (iptables tb ''-D'' c spec)) Q h"
proof (cases "spec \<in> set (rules h tb c)")
  case True
  from delete_present [OF assms(1) True] delete [OF assms(1), of c spec h]
  have "wp (run (iptables tb ''-D'' c spec))
      (\<lambda>ok h'. rules h' = set_chain (rules h) tb c (remove1 spec (rules h tb c))) h"
    by (simp add: wp_iff_run)
  then show ?thesis by (rule wp_mono) (rule assms(2))
next
  case False
  then have "rules h' = rules h \<Longrightarrow> rules h' = set_chain (rules h) tb c (remove1 spec (rules h tb c))" for h'
    by (simp add: remove1_idem)
  with False show ?thesis using assms by (auto intro!: wp_delete)
qed

end

subsection \<open>A reference firewall\<close>

text \<open>Tables of chains that exist or not; an unknown command succeeds without effect.\<close>

type_synonym fw = "((string list \<times> string) \<times> rule_spec list) list"

definition fw_put :: "string list \<Rightarrow> string \<Rightarrow> rule_spec list option \<Rightarrow> fw \<Rightarrow> fw" where
  "fw_put tb c rs w =
     (let rest = filter (\<lambda>e. fst e \<noteq> (tb, c)) w in case rs of None \<Rightarrow> rest | Some xs \<Rightarrow> ((tb, c), xs) # rest)"

definition fw_chain :: "string list \<Rightarrow> string \<Rightarrow> string \<Rightarrow> string list \<Rightarrow> fw \<Rightarrow> bool \<times> fw" where
  "fw_chain tb opt c args w =
     (case map_of w (tb, c) of
        None \<Rightarrow> if opt = ''-N'' then (True, fw_put tb c (Some []) w) else (False, w)
      | Some rs \<Rightarrow>
          if opt = ''-F'' then (True, fw_put tb c (Some []) w)
          else if opt = ''-A'' then (True, fw_put tb c (Some (rs @ [args])) w)
          else if opt = ''-I'' then (True, fw_put tb c (Some (tl args # rs)) w)
          else if opt = ''-D'' then (if args \<in> set rs then (True, fw_put tb c (Some (remove1 args rs)) w) else (False, w))
          else if opt = ''-C'' then (args \<in> set rs, w)
          else if opt = ''-X'' then (if rs = [] then (True, fw_put tb c None w) else (False, w))
          else (False, w))"

definition fw_run :: "fw runner" where
  "fw_run cmd = State (\<lambda>w.
     if cmd = [] \<or> hd cmd \<noteq> ''iptables'' then (True, w)
     else if take 2 (tl cmd) = nat_table
     then (case drop 3 cmd of opt # c # args \<Rightarrow> fw_chain nat_table opt c args w | _ \<Rightarrow> (False, w))
     else (case tl cmd of opt # c # args \<Rightarrow> fw_chain [] opt c args w | _ \<Rightarrow> (False, w)))"

definition fw_rules :: "fw \<Rightarrow> ruleset" where
  "fw_rules w tb c = (case map_of w (tb, c) of None \<Rightarrow> [] | Some rs \<Rightarrow> rs)"

lemma fw_run_iptables:
  assumes "tb \<in> {[], nat_table}" and "opt \<noteq> ''-t''"
  shows "run_state (fw_run (iptables tb opt c args)) w = fw_chain tb opt c args w"
  using assms by (auto simp: fw_run_def iptables_def nat_table_def)

lemma map_of_fw_put: "map_of (fw_put tb c rs w) k = (if k = (tb, c) then rs else map_of w k)"
  by (induction w) (auto simp: fw_put_def Let_def split: option.splits)

lemma fw_rules_put [simp]:
  "fw_rules (fw_put tb c (Some rs) w) = set_chain (fw_rules w) tb c rs"
  "fw_rules (fw_put tb c None w) = set_chain (fw_rules w) tb c []"
  by (intro ext, simp add: fw_rules_def set_chain_def map_of_fw_put)+

lemma fw_rules_get:
  "map_of w (tb, c) = Some rs \<Longrightarrow> fw_rules w tb c = rs" "map_of w (tb, c) = None \<Longrightarrow> fw_rules w tb c = []"
  by (simp_all add: fw_rules_def)

interpretation ref_fw: netfilter fw_run fw_rules
proof (unfold_locales, goal_cases)
  case (1 tb c h) then show ?case
    by (simp add: wp_def fw_run_iptables) (simp add: fw_chain_def split: option.splits)
next
  case (2 tb c spec h) then show ?case
    by (simp add: wp_def fw_run_iptables) (simp add: fw_chain_def fw_rules_get split: option.splits)
next
  case (3 tb c spec h) then show ?case
    by (simp add: wp_def fw_run_iptables) (simp add: fw_chain_def fw_rules_get split: option.splits)
next
  case (4 tb c spec h) then show ?case
    by (simp add: wp_def fw_run_iptables) (simp add: fw_chain_def fw_rules_get split: option.splits)
next
  case (5 tb c spec h) then show ?case
    by (simp add: wp_def fw_run_iptables) (simp add: fw_chain_def fw_rules_get split: option.splits)
next
  case (6 c h) then show ?case
    by (simp add: wp_def fw_run_iptables) (simp add: fw_chain_def fw_rules_get split: option.splits)
next
  case (7 c h) then show ?case
    by (simp add: wp_def fw_run_iptables) (simp add: fw_chain_def fw_rules_get split: option.splits)
next
  case (8 cmd h) then show ?case by (simp add: wp_def fw_run_def)
qed

interpretation ref_fw: reliable_netfilter fw_run fw_rules
proof (unfold_locales, goal_cases)
  case (1 tb spec h c) then show ?case
    by (cases "map_of h (tb, c)") (simp_all add: wp_def fw_run_iptables, simp_all add: fw_chain_def fw_rules_def)
next
  case (2 tb spec h c) then show ?case
    by (cases "map_of h (tb, c)") (simp_all add: wp_def fw_run_iptables, simp_all add: fw_chain_def fw_rules_def)
qed

end
