(* ===== verification/Go_Net.thy ===== *)
theory Go_Net
  imports Prelude
begin

section \<open>Textual IP addresses (the packages net and netip)\<close>

text \<open>
  \<open>net.ParseIP\<close> and \<open>net.ParseCIDR\<close> as far as the sources use them: which texts they accept,
  and the four octets of a dotted IPv4 text. The scanners follow the loops of the standard library.
\<close>

definition is_digit :: "char \<Rightarrow> bool" where
  "is_digit c \<longleftrightarrow> 48 \<le> (of_char c :: nat) \<and> (of_char c :: nat) \<le> 57"

definition digit_val :: "char \<Rightarrow> nat" where
  "digit_val c = of_char c - 48"

definition is_hex :: "char \<Rightarrow> bool" where
  "is_hex c \<longleftrightarrow> (let n = of_char c :: nat in 48 \<le> n \<and> n \<le> 57 \<or> 97 \<le> n \<and> n \<le> 102 \<or> 65 \<le> n \<and> n \<le> 70)"

text \<open>The octet loop: position of the current octet, its value, its number of digits.\<close>

fun ipv4_fields :: "nat \<Rightarrow> nat \<Rightarrow> nat \<Rightarrow> string \<Rightarrow> nat list option" where
  "ipv4_fields pos v digLen [] = (if pos < 3 then None else Some [v])"
| "ipv4_fields pos v digLen (c # s) =
     (if is_digit c then
        (if digLen = 1 \<and> v = 0 then None
         else if v * 10 + digit_val c > 255 then None
         else ipv4_fields pos (v * 10 + digit_val c) (Suc digLen) s)
      else if c = CHR ''.'' then
        (if digLen = 0 \<or> s = [] then None
         else if pos = 3 then None
         else map_option (Cons v) (ipv4_fields (Suc pos) 0 0 s))
      else None)"

definition parse_ipv4 :: "string \<Rightarrow> nat list option" where
  "parse_ipv4 s = ipv4_fields 0 0 0 s"

text \<open>The group loop of the IPv6 scanner. \<open>i\<close> counts bytes of the address, \<open>ell\<close> says whether the
  ellipsis has been seen; the fuel is the number of groups, of which there are at most eight.\<close>

fun ipv6_groups :: "nat \<Rightarrow> nat \<Rightarrow> bool \<Rightarrow> string \<Rightarrow> bool" where
  "ipv6_groups 0 i ell s = (s = [] \<and> \<not> ell)"
| "ipv6_groups (Suc n) i ell s =
     (let off = length (takeWhile is_hex s); rest = drop off s
      in if off = 0 \<or> 4 < off then False
         else if rest \<noteq> [] \<and> hd rest = CHR ''.'' then
           (\<not> (\<not> ell \<and> i \<noteq> 12) \<and> i + 4 \<le> 16 \<and> parse_ipv4 s \<noteq> None
            \<and> (if i + 4 < 16 then ell else \<not> ell))
         else if rest = [] then (if i + 2 < 16 then ell else \<not> ell)
         else if hd rest \<noteq> CHR '':'' \<or> tl rest = [] then False
         else let s1 = tl rest
              in if hd s1 = CHR '':'' then
                   (if ell then False
                    else if tl s1 = [] then i + 2 < 16
                    else ipv6_groups n (i + 2) True (tl s1))
                 else ipv6_groups n (i + 2) ell s1)"

definition parse_ipv6_ok :: "string \<Rightarrow> bool" where
  "parse_ipv6_ok s =
     (if has_prefix s ''::'' then drop 2 s = [] \<or> ipv6_groups 8 0 True (drop 2 s)
      else ipv6_groups 8 0 False s)"

text \<open>\<open>ParseIP\<close> looks for the first dot or colon to choose the family; a text with a zone is
  refused by \<open>ParseIP\<close>, and \<open>%\<close> is no character of either scanner.\<close>

datatype ip_family = IPv4 | IPv6

definition parse_addr :: "string \<Rightarrow> ip_family option" where
  "parse_addr s =
     (case dropWhile (\<lambda>c. c \<noteq> CHR ''.'' \<and> c \<noteq> CHR '':'' \<and> c \<noteq> CHR ''%'') s of
        [] \<Rightarrow> None
      | c # _ \<Rightarrow>
          if c = CHR ''.'' then (if parse_ipv4 s \<noteq> None then Some IPv4 else None)
          else if c = CHR '':'' then (if parse_ipv6_ok s then Some IPv6 else None)
          else None)"

definition ParseIP :: "string \<Rightarrow> bool" where
  "ParseIP s \<longleftrightarrow> parse_addr s \<noteq> None"

definition bit_len :: "ip_family \<Rightarrow> nat" where
  "bit_len f = (case f of IPv4 \<Rightarrow> 32 | IPv6 \<Rightarrow> 128)"

definition ParseCIDR :: "string \<Rightarrow> bool" where
  "ParseCIDR s =
     (let addr = takeWhile (\<lambda>c. c \<noteq> CHR ''/'') s; rest = dropWhile (\<lambda>c. c \<noteq> CHR ''/'') s
      in case rest of
           [] \<Rightarrow> False
         | _ # width \<Rightarrow>
             (case parse_addr addr of
                None \<Rightarrow> False
              | Some f \<Rightarrow> width \<noteq> [] \<and> list_all is_digit width \<and> digits_value width \<le> bit_len f))"

subsection \<open>Rendered octets are read back\<close>

lemma is_digit_digit: "(a::nat) < 10 \<Longrightarrow> is_digit (char_of (48 + a) :: char)"
  by (simp add: is_digit_def of_char_digit)

lemma digit_val_digit: "a < 10 \<Longrightarrow> digit_val (char_of (48 + a) :: char) = a"
  by (simp add: digit_val_def of_char_digit)

text \<open>Reading the digits of an octet: at most three digits, no leading zero.\<close>

lemma ipv4_fields_digits:
  assumes "n < 256"
  shows "ipv4_fields pos 0 0 (nat_digits n @ s)
         = ipv4_fields pos n (length (nat_digits n)) s"
proof -
  have one: "ipv4_fields pos 0 0 (nat_digits a @ s) = ipv4_fields pos a 1 s" if "a < 10" for a s
    using that by (simp add: nat_digits.simps is_digit_digit digit_val_digit)
  have len1: "length (nat_digits a) = 1" if "a < 10" for a
    using that by (simp add: nat_digits.simps)
  show ?thesis
  proof (cases "n < 10")
    case True
    then show ?thesis using one len1 by simp
  next
    case ge10: False
    define m where "m = n div 10"
    have split: "nat_digits n = nat_digits m @ [char_of (48 + n mod 10)]"
      using ge10 by (subst nat_digits.simps) (simp add: m_def)
    have n: "n = m * 10 + n mod 10" and "0 < m" and "m < 26"
      using assms ge10 by (auto simp: m_def)
    have step: "ipv4_fields pos m k (char_of (48 + n mod 10) # s) = ipv4_fields pos n (Suc k) s" for k
      using \<open>0 < m\<close> n assms by (simp add: is_digit_digit digit_val_digit)
    show ?thesis
    proof (cases "m < 10")
      case True
      then show ?thesis using one [of m] step [of 1] len1 [of m] by (simp add: split)
    next
      case False
      define q where "q = m div 10"
      have split2: "nat_digits m = nat_digits q @ [char_of (48 + m mod 10)]"
        using False by (subst nat_digits.simps) (simp add: q_def)
      have m: "m = q * 10 + m mod 10" and "0 < q" and "q < 10"
        using \<open>m < 26\<close> False by (auto simp: q_def)
      have step2: "ipv4_fields pos q 1 (char_of (48 + m mod 10) # t) = ipv4_fields pos m 2 t" for t
        using \<open>0 < q\<close> m \<open>m < 26\<close> by (simp add: is_digit_digit digit_val_digit numeral_2_eq_2)
      show ?thesis
        using one [OF \<open>q < 10\<close>] step2 step [of 2] len1 [OF \<open>q < 10\<close>]
        by (simp add: split split2 numeral_3_eq_3)
    qed
  qed
qed

lemma parse_ipv4_render:
  assumes "a < 256" "b < 256" "c < 256" "d < 256"
  shows "parse_ipv4 (nat_digits a @ ''.'' @ nat_digits b @ ''.'' @ nat_digits c @ ''.'' @ nat_digits d)
         = Some [a, b, c, d]"
proof -
  have dot: "\<not> is_digit CHR ''.''" by (simp add: is_digit_def)
  have end_d: "ipv4_fields 3 0 0 (nat_digits d) = Some [d]"
    using ipv4_fields_digits [OF assms(4), of 3 "[]"] by simp
  show ?thesis
    using ipv4_fields_digits [OF assms(1)] ipv4_fields_digits [OF assms(2)] ipv4_fields_digits [OF assms(3)]
    by (simp add: parse_ipv4_def dot end_d flip: numeral_3_eq_3)
qed

end
