(* ===== verification/Egress.thy ===== *)
theory Egress
  imports Netfilter Go_Net
begin

section \<open>Per-machine egress policy (internal/network/egress.go)\<close>

text \<open>
  The daemon drives the host firewall by running commands. The Go code takes them through an
  interface \<open>commandRunner\<close>; here the runner is a parameter: a function from an argument vector
  to a computation over an arbitrary host state that says whether the command succeeded. Nothing
  about the commands is assumed in the definitions. The hash that names the chains is a parameter
  too. Results are \<open>None\<close> for Go's nil error.

  Two kinds of theorems follow: about the exact sequence of commands (for every behaviour of the
  host), and about the resulting rules and packet verdicts, where the documented behaviour of
  \<open>iptables\<close> is the interface \<open>netfilter\<close>.
\<close>

datatype egress_error =
    EgressBadDefaultAction | EgressProxyOnlyRequiresProxy
  | EgressBadProxyIP | EgressBadProxyPort | EgressBadProxyProtocol
  | EgressBadRuleCIDR nat | EgressBadRulePort nat | EgressBadRuleProtocol nat
  | EgressMissingIds | EgressNetfilter | EgressFlush | EgressJump
  | EgressAllowRule | EgressAccept | EgressDrop

definition BridgeName :: string where "BridgeName = ''nanofuse0''"

subsection \<open>Validation\<close>

definition normalizedProtocol :: "string \<Rightarrow> string" where
  "normalizedProtocol protocol = (if protocol = [] then ''tcp'' else to_lower protocol)"

definition egressDefaultAction :: "EgressPolicy option \<Rightarrow> string" where
  "egressDefaultAction policy =
     (case policy of
        None \<Rightarrow> ''deny''
      | Some p \<Rightarrow> if ep_DefaultAction p = [] then ''deny'' else to_lower (ep_DefaultAction p))"

definition validateEgressDestination :: "string \<Rightarrow> bool" where
  "validateEgressDestination destination =
     (if destination = [] then False
      else if ParseIP destination then True
      else ParseCIDR destination)"

definition validateEgressPort :: "int \<Rightarrow> bool" where
  "validateEgressPort port \<longleftrightarrow> \<not> (port < 1 \<or> port > 65535)"

definition validateEgressProtocol :: "string \<Rightarrow> bool" where
  "validateEgressProtocol protocol \<longleftrightarrow> protocol = ''tcp'' \<or> protocol = ''udp''"

fun validate_rules :: "nat \<Rightarrow> EgressRule list \<Rightarrow> egress_error option" where
  "validate_rules i [] = None"
| "validate_rules i (r # rs) =
     (if \<not> validateEgressDestination (er_CIDR r) then Some (EgressBadRuleCIDR i)
      else if \<not> validateEgressPort (er_Port r) then Some (EgressBadRulePort i)
      else if \<not> validateEgressProtocol (er_Protocol r) then Some (EgressBadRuleProtocol i)
      else validate_rules (Suc i) rs)"

definition validateEgressPolicy :: "EgressPolicy \<Rightarrow> egress_error option" where
  "validateEgressPolicy p =
     (let action = egressDefaultAction (Some p)
      in if action \<noteq> ''deny'' \<and> action \<noteq> ''allow'' then Some EgressBadDefaultAction
         else if ep_ProxyOnly p \<and> ep_Proxy p = None then Some EgressProxyOnlyRequiresProxy
         else case ep_Proxy p of
           None \<Rightarrow> validate_rules 0 (ep_AllowRules p)
         | Some px \<Rightarrow>
             if \<not> validateEgressDestination (px_IP px) then Some EgressBadProxyIP
             else if \<not> validateEgressPort (px_Port px) then Some EgressBadProxyPort
             else if \<not> validateEgressProtocol (normalizedProtocol (px_Protocol px)) then Some EgressBadProxyProtocol
             else validate_rules 0 (ep_AllowRules p))"

subsection \<open>Commands\<close>

definition egressChainName :: "(string \<Rightarrow> string) \<Rightarrow> string \<Rightarrow> string" where
  "egressChainName hash vmID = ''NF-EG-'' @ take 16 (hash vmID)"

definition egressJumpRuleArgs :: "string \<Rightarrow> string \<Rightarrow> string \<Rightarrow> string list list" where
  "egressJumpRuleArgs chain tapDevice vmIP =
     [[''-i'', BridgeName, ''-s'', vmIP, ''-j'', chain]]
     @ (if tapDevice \<noteq> []
        then [[''-m'', ''physdev'', ''--physdev-in'', tapDevice, ''-s'', vmIP, ''-j'', chain]] else [])"

definition enableBridgeNetfilter :: "'h runner \<Rightarrow> ('h, bool) comp" where
  "enableBridgeNetfilter run = do {
     _ \<leftarrow> run [''modprobe'', ''br_netfilter''];
     run [''sysctl'', ''-w'', ''net.bridge.bridge-nf-call-iptables=1'']
   }"

fun install_jumps :: "'h runner \<Rightarrow> string list list \<Rightarrow> ('h, bool) comp" where
  "install_jumps run [] = State_Monad.return True"
| "install_jumps run (args # rest) = do {
     _ \<leftarrow> run (iptables [] ''-D'' ''FORWARD'' args);
     ok \<leftarrow> run (iptables [] ''-I'' ''FORWARD'' (''1'' # args));
     if ok then install_jumps run rest else State_Monad.return False
   }"

definition installEgressJumpRules :: "'h runner \<Rightarrow> string \<Rightarrow> string \<Rightarrow> string \<Rightarrow> ('h, bool) comp" where
  "installEgressJumpRules run chain tapDevice vmIP =
     install_jumps run (egressJumpRuleArgs chain tapDevice vmIP)"

definition allow_rule_args :: "string \<Rightarrow> string \<Rightarrow> int \<Rightarrow> string list" where
  "allow_rule_args protocol destination port =
     [''-p'', normalizedProtocol protocol, ''-d'', destination, ''--dport'', itoa port, ''-j'', ''ACCEPT'']"

definition appendAllowRule :: "'h runner \<Rightarrow> string \<Rightarrow> string \<Rightarrow> string \<Rightarrow> int \<Rightarrow> ('h, bool) comp" where
  "appendAllowRule run chain protocol destination port =
     run (iptables [] ''-A'' chain (allow_rule_args protocol destination port))"

fun append_allow_rules :: "'h runner \<Rightarrow> string \<Rightarrow> (string \<times> string \<times> int) list \<Rightarrow> ('h, bool) comp" where
  "append_allow_rules run chain [] = State_Monad.return True"
| "append_allow_rules run chain ((pr, dst, port) # rest) = do {
     ok \<leftarrow> appendAllowRule run chain pr dst port;
     if ok then append_allow_rules run chain rest else State_Monad.return False
   }"

fun delete_jumps :: "'h runner \<Rightarrow> string list list \<Rightarrow> bool \<Rightarrow> ('h, bool) comp" where
  "delete_jumps run [] good = State_Monad.return good"
| "delete_jumps run (args # rest) good = do {
     ok \<leftarrow> run (iptables [] ''-D'' ''FORWARD'' args);
     delete_jumps run rest (good \<and> ok)
   }"

text \<open>\<open>cleanupEgressPolicy\<close> goes on after a failing command and reports the last error.\<close>

definition cleanupEgressPolicy ::
  "'h runner \<Rightarrow> (string \<Rightarrow> string) \<Rightarrow> string \<Rightarrow> string \<Rightarrow> string \<Rightarrow> ('h, bool) comp" where
  "cleanupEgressPolicy run hash vmID tapDevice vmIP =
     (if vmID = [] then State_Monad.return True
      else let chain = egressChainName hash vmID in do {
        good1 \<leftarrow> delete_jumps run (egressJumpRuleArgs chain tapDevice vmIP) True;
        good2 \<leftarrow> run (iptables [] ''-F'' chain []);
        good3 \<leftarrow> run (iptables [] ''-X'' chain []);
        State_Monad.return (good1 \<and> good2 \<and> good3)
      })"

text \<open>The destinations that \<open>setupEgressPolicy\<close> opens, in the order of its code: name service on
  the gateway, the proxy, then the listed rules unless only the proxy is allowed.\<close>

definition dns_rules :: "string \<Rightarrow> EgressPolicy \<Rightarrow> (string \<times> string \<times> int) list" where
  "dns_rules gateway p = (if ep_AllowDNS p then [(''udp'', gateway, 53), (''tcp'', gateway, 53)] else [])"

definition proxy_rules :: "EgressPolicy \<Rightarrow> (string \<times> string \<times> int) list" where
  "proxy_rules p = (case ep_Proxy p of None \<Rightarrow> []
                    | Some px \<Rightarrow> [(normalizedProtocol (px_Protocol px), px_IP px, px_Port px)])"

definition listed_rules :: "EgressPolicy \<Rightarrow> (string \<times> string \<times> int) list" where
  "listed_rules p = (if ep_ProxyOnly p then []
                     else map (\<lambda>r. (er_Protocol r, er_CIDR r, er_Port r)) (ep_AllowRules p))"

definition egress_after_flush ::
  "'h runner \<Rightarrow> (string \<Rightarrow> string) \<Rightarrow> string \<Rightarrow> string \<Rightarrow> string \<Rightarrow> string \<Rightarrow> EgressPolicy
   \<Rightarrow> ('h, egress_error option) comp" where
  "egress_after_flush run hash vmID tapDevice vmIP gateway p =
     (let chain = egressChainName hash vmID;
          give_up = (\<lambda>e. do {
            _ \<leftarrow> cleanupEgressPolicy run hash vmID tapDevice vmIP;
            State_Monad.return (Some e) })
      in do {
        jumps \<leftarrow> installEgressJumpRules run chain tapDevice vmIP;
        if \<not> jumps then give_up EgressJump else do {
        dns \<leftarrow> append_allow_rules run chain (dns_rules gateway p);
        if \<not> dns then give_up EgressAllowRule else do {
        proxy \<leftarrow> append_allow_rules run chain (proxy_rules p);
        if \<not> proxy then give_up EgressAllowRule else do {
        rules \<leftarrow> append_allow_rules run chain (listed_rules p);
        if \<not> rules then give_up EgressAllowRule
        else if egressDefaultAction (Some p) = ''allow'' then do {
          ok \<leftarrow> run (iptables [] ''-A'' chain [''-j'', ''ACCEPT'']);
          if \<not> ok then give_up EgressAccept else State_Monad.return None }
        else do {
          ok \<leftarrow> run (iptables [] ''-A'' chain [''-j'', ''DROP'']);
          if \<not> ok then give_up EgressDrop else State_Monad.return None }}}}})"

definition setupEgressPolicy ::
  "'h runner \<Rightarrow> (string \<Rightarrow> string) \<Rightarrow> string \<Rightarrow> string \<Rightarrow> string \<Rightarrow> string \<Rightarrow> EgressPolicy option
   \<Rightarrow> ('h, egress_error option) comp" where
  "setupEgressPolicy run hash vmID tapDevice vmIP gateway policy =
     (case policy of
        None \<Rightarrow> State_Monad.return None
      | Some p \<Rightarrow>
          if \<not> ep_Enabled p then State_Monad.return None
          else case validateEgressPolicy p of
            Some e \<Rightarrow> State_Monad.return (Some e)
          | None \<Rightarrow>
              if vmID = [] \<or> vmIP = [] then State_Monad.return (Some EgressMissingIds)
              else let chain = egressChainName hash vmID
              in do {
                nf \<leftarrow> enableBridgeNetfilter run;
                if \<not> nf then State_Monad.return (Some EgressNetfilter) else do {
                _ \<leftarrow> run (iptables [] ''-N'' chain []);
                flushed \<leftarrow> run (iptables [] ''-F'' chain []);
                if \<not> flushed then State_Monad.return (Some EgressFlush)
                else egress_after_flush run hash vmID tapDevice vmIP gateway p }})"

subsection \<open>The rules after a successful setup\<close>

text \<open>The specification: what the chain of a machine must hold, in order.\<close>

definition allowed_destinations :: "string \<Rightarrow> EgressPolicy \<Rightarrow> (string \<times> string \<times> int) list" where
  "allowed_destinations gateway p = dns_rules gateway p @ proxy_rules p @ listed_rules p"

definition allow_spec :: "string \<times> string \<times> int \<Rightarrow> rule_spec" where
  "allow_spec r = (case r of (pr, dst, port) \<Rightarrow> allow_rule_args pr dst port)"

definition default_spec :: "EgressPolicy \<Rightarrow> rule_spec" where
  "default_spec p = [''-j'', if egressDefaultAction (Some p) = ''allow'' then ''ACCEPT'' else ''DROP'']"

definition egress_chain_spec :: "string \<Rightarrow> EgressPolicy \<Rightarrow> rule_spec list" where
  "egress_chain_spec gateway p = map allow_spec (allowed_destinations gateway p) @ [default_spec p]"

lemma allow_spec_tuple [simp]: "allow_spec (pr, dst, port) = allow_rule_args pr dst port"
  by (simp add: allow_spec_def)

lemma chain_not_FORWARD [simp]: "egressChainName hash vmID \<noteq> ''FORWARD''"
  by (simp add: egressChainName_def)

context netfilter
begin

lemma append_allow_rules_rules:
  "wp (append_allow_rules run c rs)
     (\<lambda>ok h'. ok \<longrightarrow> rules h' = set_chain (rules h) [] c (rules h [] c @ map allow_spec rs)) h"
proof (induction rs arbitrary: h)
  case (Cons r rs)
  obtain pr dst port where r: "r = (pr, dst, port)" by (cases r)
  show ?case
    unfolding r append_allow_rules.simps appendAllowRule_def wp_bind
  proof (rule wp_append; simp)
    fix ok h'
    assume "rules h' = (if ok then set_chain (rules h) [] c (rules h [] c @ [allow_rule_args pr dst port]) else rules h)"
    then show "ok \<longrightarrow> wp (append_allow_rules run c rs)
        (\<lambda>ok h'. ok \<longrightarrow> rules h' = set_chain (rules h) [] c (rules h [] c @ allow_rule_args pr dst port # map allow_spec rs)) h'"
      using Cons.IH [of h'] by (auto elim!: wp_mono)
  qed
qed simp

lemma install_jumps_rules:
  assumes "rules h [] ''FORWARD'' = upper @ rest" and "distinct js" and "set js \<inter> set upper = {}"
  shows "wp (install_jumps run js)
     (\<lambda>ok h'. ok \<longrightarrow> (\<forall>c. c \<noteq> ''FORWARD'' \<longrightarrow> rules h' [] c = rules h [] c)
                    \<and> (\<exists>rest. rules h' [] ''FORWARD'' = rev js @ upper @ rest)) h"
  using assms
proof (induction js arbitrary: h upper rest)
  case (Cons j js)
  show ?case
    unfolding install_jumps.simps wp_bind
  proof (rule wp_delete, simp, rule wp_insert_top, simp, simp, intro impI)
    fix ok1 h1 ok2 h2
    assume h1: "rules h1 = (if ok1 then set_chain (rules h) [] ''FORWARD'' (remove1 j (rules h [] ''FORWARD'')) else rules h)"
      and h2: "rules h2 = (if ok2 then set_chain (rules h1) [] ''FORWARD'' (j # rules h1 [] ''FORWARD'') else rules h1)"
      and ok2
    have frame: "rules h2 [] c = rules h [] c" if "c \<noteq> ''FORWARD''" for c
      using h1 h2 \<open>ok2\<close> that by auto
    have "rules h1 [] ''FORWARD'' = upper @ (if ok1 then remove1 j rest else rest)"
      using h1 Cons.prems by (auto simp: remove1_append)
    then have top2: "rules h2 [] ''FORWARD'' = (j # upper) @ (if ok1 then remove1 j rest else rest)"
      using h2 \<open>ok2\<close> by simp
    have "distinct js" "set js \<inter> set (j # upper) = {}" using Cons.prems by auto
    from Cons.IH [OF top2 this] show "wp (install_jumps run js)
        (\<lambda>ok h'. ok \<longrightarrow> (\<forall>c. c \<noteq> ''FORWARD'' \<longrightarrow> rules h' [] c = rules h [] c)
                       \<and> (\<exists>rest. rules h' [] ''FORWARD'' = rev js @ j # upper @ rest)) h2"
      using frame by (auto elim!: wp_mono)
  qed
qed simp

text \<open>A successful setup of an enabled policy leaves the machine's chain exactly as specified and
  puts the jumps to it at the top of \<open>FORWARD\<close>.\<close>

lemma setupEgressPolicy_rules:
  assumes "ep_Enabled p"
  shows "wp (setupEgressPolicy run hash vmID tap vmIP gw (Some p))
     (\<lambda>r h'. r = None \<longrightarrow>
        rules h' [] (egressChainName hash vmID) = egress_chain_spec gw p
        \<and> (\<exists>rest. rules h' [] ''FORWARD'' = rev (egressJumpRuleArgs (egressChainName hash vmID) tap vmIP) @ rest)) h"
proof (cases "validateEgressPolicy p = None \<and> vmID \<noteq> [] \<and> vmIP \<noteq> []")
  case False
  then show ?thesis using assms
    by (auto simp: setupEgressPolicy_def split: option.splits)
next
  case True
  let ?c = "egressChainName hash vmID"
  let ?js = "egressJumpRuleArgs ?c tap vmIP"
  let ?fwd = "\<lambda>h. \<exists>rest. rules h [] ''FORWARD'' = rev ?js @ rest"
  let ?post = "\<lambda>r h'. r = None \<longrightarrow> rules h' [] ?c = egress_chain_spec gw p \<and> ?fwd h'"
  have js: "distinct ?js" by (simp add: egressJumpRuleArgs_def)
  have give_up: "wp (State_Monad.bind m (\<lambda>_. State_Monad.return (Some e))) ?post h"
    for m :: "('h, bool) comp" and e h
    by (simp add: wp_def split: prod.splits)
  have rules_step: "wp (do { ok \<leftarrow> append_allow_rules run ?c rs; if \<not> ok then fail else go }) ?post h"
    if "\<And>h. wp fail ?post h" and "?fwd h"
      and "\<And>h'. rules h' [] ?c = rules h [] ?c @ map allow_spec rs \<Longrightarrow> ?fwd h' \<Longrightarrow> wp go ?post h'"
    for fail go :: "('h, egress_error option) comp" and rs h
    unfolding wp_bind by (rule wp_mono [OF append_allow_rules_rules]) (use that in auto)
  have last_step: "wp (do { ok \<leftarrow> run (iptables [] ''-A'' ?c spec); if \<not> ok then fail else State_Monad.return None }) ?post h"
    if "\<And>h. wp fail ?post h" and "rules h [] ?c = map allow_spec (allowed_destinations gw p)"
      and "spec = default_spec p" and "?fwd h"
    for fail :: "('h, egress_error option) comp" and spec h
    unfolding wp_bind by (rule wp_append) (use that in \<open>auto simp: egress_chain_spec_def\<close>)
  have jump_step: "wp (do { ok \<leftarrow> install_jumps run ?js; if \<not> ok then fail else go }) ?post h"
    if "\<And>h. wp fail ?post h" and "rules h [] ?c = []"
      and "\<And>h. rules h [] ?c = [] \<Longrightarrow> ?fwd h \<Longrightarrow> wp go ?post h"
    for fail go :: "('h, egress_error option) comp" and h
    unfolding wp_bind by (rule wp_mono [OF install_jumps_rules [OF append_Nil [symmetric] js]]) (use that in auto)
  have start: "wp (do { nf \<leftarrow> enableBridgeNetfilter run;
      if \<not> nf then State_Monad.return (Some EgressNetfilter) else do {
        _ \<leftarrow> run (iptables [] ''-N'' ?c []);
        flushed \<leftarrow> run (iptables [] ''-F'' ?c []);
        if \<not> flushed then State_Monad.return (Some EgressFlush) else go }}) ?post h"
    if "\<And>h. rules h [] ?c = [] \<Longrightarrow> wp go ?post h" for go h
    using that by (auto simp: enableBridgeNetfilter_def intro!: wp_other wp_new_chain wp_flush)
  have cond: "wp (if b then m else n) ?post h" if "b \<Longrightarrow> wp m ?post h" and "\<not> b \<Longrightarrow> wp n ?post h"
    for b h and m n :: "('h, egress_error option) comp"
    using that by simp
  from True assms have code: "setupEgressPolicy run hash vmID tap vmIP gw (Some p) = (do {
      nf \<leftarrow> enableBridgeNetfilter run;
      if \<not> nf then State_Monad.return (Some EgressNetfilter) else do {
        _ \<leftarrow> run (iptables [] ''-N'' ?c []);
        flushed \<leftarrow> run (iptables [] ''-F'' ?c []);
        if \<not> flushed then State_Monad.return (Some EgressFlush)
        else egress_after_flush run hash vmID tap vmIP gw p }})"
    by (simp add: setupEgressPolicy_def Let_def)
  show ?thesis
    unfolding code egress_after_flush_def Let_def installEgressJumpRules_def
    by (intro start jump_step rules_step cond last_step give_up; (assumption)?)
       (simp_all add: allowed_destinations_def default_spec_def)
qed

text \<open>Whatever happens, the only rules touched are those of the machine's own chain and its own
  jumps in \<open>FORWARD\<close>: \<open>outside R c js h\<close> says that the rest is as in \<open>R\<close>.\<close>

definition outside :: "ruleset \<Rightarrow> string \<Rightarrow> rule_spec list \<Rightarrow> 'h \<Rightarrow> bool" where
  "outside R c js h \<longleftrightarrow>
     (\<forall>tb c'. (tb \<noteq> [] \<or> c' \<notin> {c, ''FORWARD''}) \<longrightarrow> rules h tb c' = R tb c')
     \<and> filter (\<lambda>r. r \<notin> set js) (rules h [] ''FORWARD'') = filter (\<lambda>r. r \<notin> set js) (R [] ''FORWARD'')"

lemma outside_other: "cmd \<noteq> [] \<Longrightarrow> hd cmd \<noteq> ''iptables'' \<Longrightarrow> pres (outside R c js) (run cmd)"
  by (auto simp: pres_iff_wp outside_def intro!: wp_other)

lemma outside_own_chain:
  assumes "c \<noteq> ''FORWARD''"
  shows "pres (outside R c js) (run (iptables [] ''-F'' c []))"
    and "pres (outside R c js) (run (iptables [] ''-N'' c []))"
    and "pres (outside R c js) (run (iptables [] ''-X'' c []))"
    and "pres (outside R c js) (run (iptables [] ''-A'' c spec))"
  using assms
  by (auto simp: pres_iff_wp outside_def intro!: wp_flush wp_new_chain wp_delete_chain wp_append)

lemma outside_jump:
  assumes "c \<noteq> ''FORWARD''" and "j \<in> set js"
  shows "pres (outside R c js) (run (iptables [] ''-D'' ''FORWARD'' j))"
    and "pres (outside R c js) (run (iptables [] ''-I'' ''FORWARD'' (''1'' # j)))"
  using assms
  by (auto simp: pres_iff_wp outside_def filter_remove1_other intro!: wp_delete wp_insert_top)

lemma outside_append_allow_rules:
  "c \<noteq> ''FORWARD'' \<Longrightarrow> pres (outside R c js) (append_allow_rules run c rs)"
proof (induction rs)
  case (Cons r rs)
  obtain pr dst port where "r = (pr, dst, port)" by (cases r)
  with Cons show ?case
    by (simp add: appendAllowRule_def pres_intros outside_own_chain)
qed (simp add: pres_intros)

lemma outside_install_jumps:
  "c \<noteq> ''FORWARD'' \<Longrightarrow> set js' \<subseteq> set js \<Longrightarrow> pres (outside R c js) (install_jumps run js')"
  by (induction js') (auto intro!: pres_intros outside_jump)

lemma outside_delete_jumps:
  "c \<noteq> ''FORWARD'' \<Longrightarrow> set js' \<subseteq> set js \<Longrightarrow> pres (outside R c js) (delete_jumps run js' good)"
  by (induction js' arbitrary: good) (auto intro!: pres_intros outside_jump)

lemma outside_cleanup:
  "pres (outside R (egressChainName hash vmID) (egressJumpRuleArgs (egressChainName hash vmID) tap vmIP))
     (cleanupEgressPolicy run hash vmID tap vmIP)"
  by (auto simp: cleanupEgressPolicy_def Let_def
      intro!: pres_intros outside_delete_jumps outside_own_chain)

lemma outside_setup:
  "pres (outside R (egressChainName hash vmID) (egressJumpRuleArgs (egressChainName hash vmID) tap vmIP))
     (setupEgressPolicy run hash vmID tap vmIP gw policy)"
  by (auto simp: setupEgressPolicy_def egress_after_flush_def enableBridgeNetfilter_def
        installEgressJumpRules_def Let_def
      intro!: pres_intros outside_install_jumps outside_append_allow_rules outside_own_chain
        outside_cleanup outside_other)

lemma outside_refl: "outside (rules h) c js h"
  by (simp add: outside_def)

end

subsection \<open>What packets the chain lets through\<close>

text \<open>Verdicts of the two shapes of rules the code emits, for a packet given by protocol,
  destination and destination port; \<open>in_dest\<close> decides whether an address is covered by the text
  after \<open>-d\<close>. The first matching rule decides.\<close>

definition rule_verdict :: "(string \<Rightarrow> 'a \<Rightarrow> bool) \<Rightarrow> rule_spec \<Rightarrow> string \<times> 'a \<times> int \<Rightarrow> string option" where
  "rule_verdict in_dest r pk =
     (if length r = 8 \<and> r ! 0 = ''-p'' \<and> r ! 2 = ''-d'' \<and> r ! 4 = ''--dport'' \<and> r ! 6 = ''-j''
      then if r ! 1 = fst pk \<and> in_dest (r ! 3) (fst (snd pk)) \<and> r ! 5 = itoa (snd (snd pk))
           then Some (r ! 7) else None
      else if length r = 2 \<and> r ! 0 = ''-j'' then Some (r ! 1)
      else None)"

fun chain_verdict :: "(string \<Rightarrow> 'a \<Rightarrow> bool) \<Rightarrow> rule_spec list \<Rightarrow> string \<times> 'a \<times> int \<Rightarrow> string option" where
  "chain_verdict in_dest [] pk = None"
| "chain_verdict in_dest (r # rs) pk =
     (case rule_verdict in_dest r pk of Some v \<Rightarrow> Some v | None \<Rightarrow> chain_verdict in_dest rs pk)"

definition opens :: "(string \<Rightarrow> 'a \<Rightarrow> bool) \<Rightarrow> string \<times> 'a \<times> int \<Rightarrow> string \<times> string \<times> int \<Rightarrow> bool" where
  "opens in_dest pk r = (case (pk, r) of ((proto, addr, dport), (pr, dst, port)) \<Rightarrow>
     normalizedProtocol pr = proto \<and> in_dest dst addr \<and> port = dport)"

lemma rule_verdict_allow:
  "rule_verdict in_dest (allow_rule_args pr dst port) pk
   = (if opens in_dest pk (pr, dst, port) then Some ''ACCEPT'' else None)"
  by (auto simp: rule_verdict_def allow_rule_args_def opens_def itoa_inj split: prod.splits)

lemma rule_verdict_default: "rule_verdict in_dest [''-j'', t] pk = Some t"
  by (simp add: rule_verdict_def)

lemma chain_verdict_allow:
  "chain_verdict in_dest (map allow_spec rs @ rest) pk
   = (if \<exists>r \<in> set rs. opens in_dest pk r then Some ''ACCEPT'' else chain_verdict in_dest rest pk)"
  by (induction rs) (auto simp: rule_verdict_allow)

lemma egress_chain_verdict:
  "chain_verdict in_dest (egress_chain_spec gw p) pk =
     Some (if (\<exists>r \<in> set (allowed_destinations gw p). opens in_dest pk r)
              \<or> egressDefaultAction (Some p) = ''allow''
           then ''ACCEPT'' else ''DROP'')"
  by (simp add: egress_chain_spec_def chain_verdict_allow default_spec_def rule_verdict_default)

subsection \<open>Properties\<close>

text \<open>C29. Enforcement. On a host whose \<open>iptables\<close> obeys the interface \<open>netfilter\<close>, when
  \<open>setupEgressPolicy\<close> reports success for an enabled policy, the two jumps that send the
  machine's traffic to its chain are the first rules of \<open>FORWARD\<close>, and the chain accepts a packet
  exactly when one of the opened destinations (name service on the gateway if allowed, the proxy,
  the listed rules unless only the proxy is allowed) covers it or the default action is
  \<open>allow\<close>; every other packet is dropped. No packet falls through to later rules.\<close>

theorem egress_policy_enforced:
  assumes "netfilter run rules" and "ep_Enabled p"
    and "run_state (setupEgressPolicy run hash vmID tap vmIP gw (Some p)) h = (None, h')"
  shows "(\<exists>rest. rules h' [] ''FORWARD''
             = rev (egressJumpRuleArgs (egressChainName hash vmID) tap vmIP) @ rest)
       \<and> chain_verdict in_dest (rules h' [] (egressChainName hash vmID)) pk =
           Some (if (\<exists>r \<in> set (dns_rules gw p @ proxy_rules p @ listed_rules p). opens in_dest pk r)
                    \<or> egressDefaultAction (Some p) = ''allow''
                 then ''ACCEPT'' else ''DROP'')"
  using netfilter.setupEgressPolicy_rules [OF assms(1,2), of hash vmID tap vmIP gw h]
    wp_run [OF assms(3)] egress_chain_verdict [of in_dest gw p pk]
  by (simp add: allowed_destinations_def)

definition demo_policy :: EgressPolicy where
  "demo_policy = \<lparr>ep_Enabled = True, ep_DefaultAction = ''Deny'', ep_AllowDNS = True, ep_ProxyOnly = False,
     ep_Proxy = None,
     ep_AllowRules = [\<lparr>er_CIDR = ''10.0.0.0/8'', er_Protocol = ''tcp'', er_Port = 443, er_Description = []\<rparr>]\<rparr>"

definition demo_fw :: fw where
  "demo_fw = [(([], ''FORWARD''), [[''-j'', ''ACCEPT'']])]"

definition demo_setup :: "(egress_error option) \<times> fw" where
  "demo_setup = run_state (setupEgressPolicy fw_run id ''vm1'' ''tap1'' ''172.16.0.10'' ''172.16.0.1'' (Some demo_policy)) demo_fw"

lemma demo_setup_ok: "fst demo_setup = None"
  by code_simp

theorem egress_policy_enforced_witness:
  "fst demo_setup = None
   \<and> chain_verdict (=) (fw_rules (snd demo_setup) [] ''NF-EG-vm1'') (''tcp'', ''10.0.0.0/8'', 443) = Some ''ACCEPT''
   \<and> chain_verdict (=) (fw_rules (snd demo_setup) [] ''NF-EG-vm1'') (''tcp'', ''10.0.0.0/8'', 80) = Some ''DROP''"
proof -
  have enabled: "ep_Enabled demo_policy" by (simp add: demo_policy_def)
  have run: "run_state (setupEgressPolicy fw_run id ''vm1'' ''tap1'' ''172.16.0.10'' ''172.16.0.1'' (Some demo_policy)) demo_fw
             = (None, snd demo_setup)"
    using demo_setup_ok by (simp add: demo_setup_def prod_eq_iff)
  note enforced = egress_policy_enforced [OF ref_fw.netfilter_axioms enabled run, of "(=)"]
  have names: "egressChainName id ''vm1'' = ''NF-EG-vm1''" by code_simp
  have "\<exists>r \<in> set (dns_rules ''172.16.0.1'' demo_policy @ proxy_rules demo_policy @ listed_rules demo_policy).
          opens (=) (''tcp'', ''10.0.0.0/8'', 443) r"
    and "\<not> (\<exists>r \<in> set (dns_rules ''172.16.0.1'' demo_policy @ proxy_rules demo_policy @ listed_rules demo_policy).
          opens (=) (''tcp'', ''10.0.0.0/8'', 80) r)"
    and "egressDefaultAction (Some demo_policy) \<noteq> ''allow''"
    by code_simp+
  then show ?thesis
    using enforced [of "(''tcp'', ''10.0.0.0/8'', 443)"] enforced [of "(''tcp'', ''10.0.0.0/8'', 80)"] demo_setup_ok
    by (simp add: names)
qed

text \<open>Isolation. Setting up or removing the policy of one machine, whether it succeeds or
  fails half way, changes no rule outside the chain of this machine and its own jumps: every other
  chain of every table is untouched, and the other rules of \<open>FORWARD\<close> stay, in their order.\<close>

theorem egress_policy_isolated:
  assumes "netfilter run rules"
    and "m = setupEgressPolicy run hash vmID tap vmIP gw policy
         \<or> m = do { _ \<leftarrow> cleanupEgressPolicy run hash vmID tap vmIP; State_Monad.return None }"
    and "js = egressJumpRuleArgs (egressChainName hash vmID) tap vmIP"
    and "run_state m h = (r, h')"
    and "tb \<noteq> [] \<or> c \<notin> {egressChainName hash vmID, ''FORWARD''}"
  shows "rules h' tb c = rules h tb c
       \<and> filter (\<lambda>x. x \<notin> set js) (rules h' [] ''FORWARD'') = filter (\<lambda>x. x \<notin> set js) (rules h [] ''FORWARD'')"
proof -
  have "pres (netfilter.outside rules (rules h) (egressChainName hash vmID) js) m"
    using assms(2,3) netfilter.outside_setup [OF assms(1)] netfilter.outside_cleanup [OF assms(1)]
    by (auto intro!: pres_intros)
  from presD [OF this netfilter.outside_refl [OF assms(1)]] show ?thesis
    using assms(4,5) by (auto simp: netfilter.outside_def [OF assms(1)])
qed

theorem egress_policy_isolated_witness:
  "fw_rules (snd demo_setup) nat_table ''POSTROUTING'' = fw_rules demo_fw nat_table ''POSTROUTING''
   \<and> filter (\<lambda>x. x \<notin> set (egressJumpRuleArgs (egressChainName id ''vm1'') ''tap1'' ''172.16.0.10''))
       (fw_rules (snd demo_setup) [] ''FORWARD'') = [[''-j'', ''ACCEPT'']]"
proof -
  have "run_state (setupEgressPolicy fw_run id ''vm1'' ''tap1'' ''172.16.0.10'' ''172.16.0.1'' (Some demo_policy)) demo_fw
        = (fst demo_setup, snd demo_setup)"
    by (simp add: demo_setup_def)
  from egress_policy_isolated [OF ref_fw.netfilter_axioms disjI1 [OF refl] refl this,
      of nat_table "''POSTROUTING''"]
  show ?thesis by (simp add: nat_table_def egressJumpRuleArgs_def demo_fw_def fw_rules_def)
qed

lemma validate_rules_None:
  "validate_rules i rs = None \<longleftrightarrow>
     (\<forall>r \<in> set rs. validateEgressDestination (er_CIDR r) \<and> validateEgressPort (er_Port r)
        \<and> validateEgressProtocol (er_Protocol r))"
  by (induction rs arbitrary: i) auto

lemma validateEgressPolicy_None:
  "validateEgressPolicy p = None \<longleftrightarrow>
     egressDefaultAction (Some p) \<in> {''deny'', ''allow''}
     \<and> (ep_ProxyOnly p \<longrightarrow> ep_Proxy p \<noteq> None)
     \<and> (\<forall>px. ep_Proxy p = Some px \<longrightarrow> validateEgressDestination (px_IP px) \<and> validateEgressPort (px_Port px)
           \<and> validateEgressProtocol (normalizedProtocol (px_Protocol px)))
     \<and> validate_rules 0 (ep_AllowRules p) = None"
  by (auto simp: validateEgressPolicy_def Let_def split: option.splits)

definition entry_ok :: "string \<times> string \<times> int \<Rightarrow> bool" where
  "entry_ok e = (case e of (pr, dst, port) \<Rightarrow>
     (ParseIP dst \<or> ParseCIDR dst) \<and> 1 \<le> port \<and> port \<le> 65535 \<and> pr \<in> {''tcp'', ''udp''})"

lemma validate_entry_ok:
  "validateEgressDestination dst \<Longrightarrow> validateEgressPort port \<Longrightarrow> validateEgressProtocol pr \<Longrightarrow> entry_ok (pr, dst, port)"
  by (auto simp: validateEgressDestination_def validateEgressPort_def validateEgressProtocol_def entry_ok_def
      split: if_splits)

text \<open>A disabled policy and an invalid one run no command at all, and an accepted policy has
  only well-formed entries: every opened destination is an address or a network, every port is
  between 1 and 65535, every protocol is \<open>tcp\<close> or \<open>udp\<close>.\<close>

theorem setupEgressPolicy_guards:
  "(\<not> ep_Enabled p \<longrightarrow> setupEgressPolicy run hash vmID tap vmIP gw (Some p) = State_Monad.return None)
   \<and> (ep_Enabled p \<and> validateEgressPolicy p = Some e
        \<longrightarrow> setupEgressPolicy run hash vmID tap vmIP gw (Some p) = State_Monad.return (Some e))
   \<and> (validateEgressPolicy p = None \<longrightarrow>
        (\<forall>r \<in> set (proxy_rules p @ listed_rules p). entry_ok r)
        \<and> (ep_ProxyOnly p \<longrightarrow> proxy_rules p \<noteq> []))"
proof (intro conjI impI)
  assume "\<not> ep_Enabled p"
  then show "setupEgressPolicy run hash vmID tap vmIP gw (Some p) = State_Monad.return None"
    by (simp add: setupEgressPolicy_def)
next
  assume "ep_Enabled p \<and> validateEgressPolicy p = Some e"
  then show "setupEgressPolicy run hash vmID tap vmIP gw (Some p) = State_Monad.return (Some e)"
    by (simp add: setupEgressPolicy_def)
next
  assume "validateEgressPolicy p = None"
  then show "\<forall>r \<in> set (proxy_rules p @ listed_rules p). entry_ok r"
    by (auto simp: validateEgressPolicy_None validate_rules_None proxy_rules_def listed_rules_def
        intro!: validate_entry_ok split: option.splits if_splits)
next
  assume "validateEgressPolicy p = None" and "ep_ProxyOnly p"
  then show "proxy_rules p \<noteq> []"
    by (auto simp: validateEgressPolicy_None proxy_rules_def)
qed

definition demo_bad_policy :: EgressPolicy where
  "demo_bad_policy = demo_policy\<lparr>ep_DefaultAction := ''x''\<rparr>"

theorem setupEgressPolicy_guards_witness:
  "list_all entry_ok (proxy_rules demo_policy @ listed_rules demo_policy)
   \<and> setupEgressPolicy fw_run id ''vm1'' [] ''172.16.0.10'' ''172.16.0.1'' (Some demo_bad_policy)
     = State_Monad.return (Some EgressBadDefaultAction)"
proof -
  note guards = setupEgressPolicy_guards [of _ fw_run id "''vm1''" "[]" "''172.16.0.10''" "''172.16.0.1''"
      EgressBadDefaultAction]
  have "validateEgressPolicy demo_policy = None"
    and "ep_Enabled demo_bad_policy \<and> validateEgressPolicy demo_bad_policy = Some EgressBadDefaultAction"
    by code_simp+
  then show ?thesis
    using guards [of demo_policy] guards [of demo_bad_policy]
    by (elim conjE) (simp add: list_all_iff)
qed

text \<open>A policy may combine \<open>proxy_only\<close> with the default action \<open>allow\<close>: it is accepted, and
  every packet passes.\<close>

lemma proxy_only_default_allow_opens_all:
  assumes "egressDefaultAction (Some p) = ''allow''"
  shows "chain_verdict in_dest (egress_chain_spec gw p) pk = Some ''ACCEPT''"
  using assms by (simp add: egress_chain_verdict)

end
