(* ===== verification/Port_Forward.thy ===== *)
theory Port_Forward
  imports Netfilter
begin

section \<open>Port forwarding (internal/network/portforward.go)\<close>

text \<open>
  Each forward stands for five firewall rules: two address translations, an accepting rule and two
  source translations. The operations are the command sequences of the source over an arbitrary
  command runner; \<open>None\<close> is Go's nil error.
\<close>

datatype pf_error =
    PfBadHostPort | PfBadVMPort | PfBadProtocol
  | PfPrerouting | PfOutput | PfForward | PfMasquerade | PfSnat

definition ValidatePortForward :: "PortForward \<Rightarrow> pf_error option" where
  "ValidatePortForward pf =
     (if pf_HostPort pf < 1 \<or> pf_HostPort pf > 65535 then Some PfBadHostPort
      else if pf_VMPort pf < 1 \<or> pf_VMPort pf > 65535 then Some PfBadVMPort
      else if pf_Protocol pf \<noteq> ''tcp'' \<and> pf_Protocol pf \<noteq> ''udp'' then Some PfBadProtocol
      else None)"

subsection \<open>The five rules\<close>

definition destination :: "string \<Rightarrow> PortForward \<Rightarrow> string" where
  "destination vmIP pf = vmIP @ '':'' @ itoa (pf_VMPort pf)"

definition prerouting_args :: "string \<Rightarrow> PortForward \<Rightarrow> rule_spec" where
  "prerouting_args vmIP pf = [''-p'', pf_Protocol pf, ''--dport'', itoa (pf_HostPort pf),
     ''-j'', ''DNAT'', ''--to-destination'', destination vmIP pf]"

definition output_args :: "string \<Rightarrow> PortForward \<Rightarrow> rule_spec" where
  "output_args vmIP pf = [''-d'', ''127.0.0.1''] @ prerouting_args vmIP pf"

definition to_vm_args :: "string \<Rightarrow> PortForward \<Rightarrow> rule_spec" where
  "to_vm_args vmIP pf = [''-p'', pf_Protocol pf, ''-d'', vmIP, ''--dport'', itoa (pf_VMPort pf)]"

definition forward_args :: "string \<Rightarrow> PortForward \<Rightarrow> rule_spec" where
  "forward_args vmIP pf = to_vm_args vmIP pf @ [''-j'', ''ACCEPT'']"

definition masquerade_args :: "string \<Rightarrow> PortForward \<Rightarrow> rule_spec" where
  "masquerade_args vmIP pf = to_vm_args vmIP pf @ [''-j'', ''MASQUERADE'']"

definition snat_args :: "string \<Rightarrow> PortForward \<Rightarrow> rule_spec" where
  "snat_args vmIP pf = [''-o'', ''nanofuse0''] @ to_vm_args vmIP pf @ [''-j'', ''SNAT'', ''--to-source'', ''172.16.0.1'']"

subsection \<open>Operations\<close>

text \<open>The pattern \<open>-C\<close>, then \<open>-A\<close> or \<open>-I\<close> if the rule is missing.\<close>

definition ensure_rule :: "'h runner \<Rightarrow> bool \<Rightarrow> string list \<Rightarrow> string \<Rightarrow> rule_spec \<Rightarrow> ('h, bool) comp" where
  "ensure_rule run first tb c spec = do {
     there \<leftarrow> run (iptables tb ''-C'' c spec);
     if there then State_Monad.return True
     else if first then run (iptables tb ''-I'' c (''1'' # spec))
     else run (iptables tb ''-A'' c spec)
   }"

definition addPortForwardRule :: "'h runner \<Rightarrow> string \<Rightarrow> PortForward \<Rightarrow> ('h, pf_error option) comp" where
  "addPortForwardRule run vmIP pf =
     (let pre = prerouting_args vmIP pf; out = output_args vmIP pf; fwd = forward_args vmIP pf;
          masq = masquerade_args vmIP pf; snat = snat_args vmIP pf
      in do {
        there \<leftarrow> run (iptables nat_table ''-C'' ''PREROUTING'' pre);
        if there then State_Monad.return None else do {
        ok1 \<leftarrow> run (iptables nat_table ''-I'' ''PREROUTING'' (''1'' # pre));
        if \<not> ok1 then State_Monad.return (Some PfPrerouting) else do {
        ok2 \<leftarrow> ensure_rule run True nat_table ''OUTPUT'' out;
        if \<not> ok2 then do {
          _ \<leftarrow> run (iptables nat_table ''-D'' ''PREROUTING'' pre);
          State_Monad.return (Some PfOutput) } else do {
        ok3 \<leftarrow> ensure_rule run False [] ''FORWARD'' fwd;
        if \<not> ok3 then do {
          _ \<leftarrow> run (iptables nat_table ''-D'' ''PREROUTING'' pre);
          _ \<leftarrow> run (iptables nat_table ''-D'' ''OUTPUT'' out);
          State_Monad.return (Some PfForward) } else do {
        ok4 \<leftarrow> ensure_rule run False nat_table ''POSTROUTING'' masq;
        if \<not> ok4 then do {
          _ \<leftarrow> run (iptables nat_table ''-D'' ''PREROUTING'' pre);
          _ \<leftarrow> run (iptables nat_table ''-D'' ''OUTPUT'' out);
          _ \<leftarrow> run (iptables [] ''-D'' ''FORWARD'' fwd);
          State_Monad.return (Some PfMasquerade) } else do {
        ok5 \<leftarrow> ensure_rule run False nat_table ''POSTROUTING'' snat;
        if \<not> ok5 then do {
          _ \<leftarrow> run (iptables nat_table ''-D'' ''PREROUTING'' pre);
          _ \<leftarrow> run (iptables nat_table ''-D'' ''OUTPUT'' out);
          _ \<leftarrow> run (iptables [] ''-D'' ''FORWARD'' fwd);
          _ \<leftarrow> run (iptables nat_table ''-D'' ''POSTROUTING'' masq);
          State_Monad.return (Some PfSnat) } else
        State_Monad.return None }}}}}})"

text \<open>The \<open>FORWARD\<close> rule stays: the source leaves it for other forwards.\<close>

definition removePortForwardRule :: "'h runner \<Rightarrow> string \<Rightarrow> PortForward \<Rightarrow> ('h, unit) comp" where
  "removePortForwardRule run vmIP pf = do {
     _ \<leftarrow> run (iptables nat_table ''-D'' ''PREROUTING'' (prerouting_args vmIP pf));
     _ \<leftarrow> run (iptables nat_table ''-D'' ''OUTPUT'' (output_args vmIP pf));
     _ \<leftarrow> run (iptables nat_table ''-D'' ''POSTROUTING'' (masquerade_args vmIP pf));
     _ \<leftarrow> run (iptables nat_table ''-D'' ''POSTROUTING'' (snat_args vmIP pf));
     State_Monad.return ()
   }"

fun CleanupPortForwards :: "'h runner \<Rightarrow> string \<Rightarrow> PortForward list \<Rightarrow> ('h, unit) comp" where
  "CleanupPortForwards run vmIP [] = State_Monad.return ()"
| "CleanupPortForwards run vmIP (pf # rest) = do {
     _ \<leftarrow> removePortForwardRule run vmIP pf;
     CleanupPortForwards run vmIP rest
   }"

fun setup_forwards :: "'h runner \<Rightarrow> string \<Rightarrow> PortForward list \<Rightarrow> PortForward list \<Rightarrow> ('h, pf_error option) comp" where
  "setup_forwards run vmIP all [] = State_Monad.return None"
| "setup_forwards run vmIP all (pf # rest) =
     (case ValidatePortForward pf of
        Some e \<Rightarrow> State_Monad.return (Some e)
      | None \<Rightarrow> do {
          r \<leftarrow> addPortForwardRule run vmIP pf;
          case r of
            Some e \<Rightarrow> do { _ \<leftarrow> CleanupPortForwards run vmIP all; State_Monad.return (Some e) }
          | None \<Rightarrow> setup_forwards run vmIP all rest
        })"

definition SetupPortForwards :: "'h runner \<Rightarrow> string \<Rightarrow> PortForward list \<Rightarrow> ('h, pf_error option) comp" where
  "SetupPortForwards run vmIP portForwards = setup_forwards run vmIP portForwards portForwards"

subsection \<open>Where the rules of a forward are\<close>

definition pre_rule :: "string \<Rightarrow> PortForward \<Rightarrow> placed_rule" where
  "pre_rule vmIP pf = (nat_table, ''PREROUTING'', prerouting_args vmIP pf)"

definition nat_rules :: "string \<Rightarrow> PortForward \<Rightarrow> placed_rule set" where
  "nat_rules vmIP pf = {pre_rule vmIP pf,
     (nat_table, ''OUTPUT'', output_args vmIP pf),
     (nat_table, ''POSTROUTING'', masquerade_args vmIP pf),
     (nat_table, ''POSTROUTING'', snat_args vmIP pf)}"

definition pf_rules :: "string \<Rightarrow> PortForward \<Rightarrow> placed_rule set" where
  "pf_rules vmIP pf = insert ([], ''FORWARD'', forward_args vmIP pf) (nat_rules vmIP pf)"

lemma nat_table_neq [simp]: "nat_table \<noteq> []" "[] \<noteq> nat_table"
  by (simp_all add: nat_table_def)

lemma pre_rule_inj: "pre_rule vmIP pf = pre_rule vmIP pf' \<Longrightarrow> pf_rules vmIP pf = pf_rules vmIP pf'"
  by (simp add: pre_rule_def prerouting_args_def destination_def itoa_inj pf_rules_def nat_rules_def
      output_args_def forward_args_def masquerade_args_def snat_args_def to_vm_args_def)

lemma pre_rule_mem:
  "pre_rule vmIP pf \<in> pf_rules vmIP pf' \<Longrightarrow> pre_rule vmIP pf = pre_rule vmIP pf' \<and> pf_rules vmIP pf = pf_rules vmIP pf'"
  using pre_rule_inj [of vmIP pf pf'] by (auto simp: pf_rules_def nat_rules_def pre_rule_def)

context netfilter
begin

text \<open>\<open>grows h h' x\<close>: nothing is lost and at most \<open>x\<close> is new.\<close>

definition grows :: "'h \<Rightarrow> 'h \<Rightarrow> placed_rule set \<Rightarrow> bool" where
  "grows h h' own \<longleftrightarrow> (\<forall>x. present h x \<longrightarrow> present h' x) \<and> (\<forall>x. present h' x \<longrightarrow> present h x \<or> x \<in> own)"

lemma grows_same: "rules h' = rules h \<Longrightarrow> grows h h' own"
  by (auto simp: grows_def present_def)

lemma grows_trans: "grows h h1 own \<Longrightarrow> grows h1 h2 own \<Longrightarrow> grows h h2 own"
  unfolding grows_def by blast

lemma grows_present: "grows h h' own \<Longrightarrow> present h x \<Longrightarrow> present h' x"
  unfolding grows_def by blast

lemma grows_set_chain:
  assumes "rules h' = set_chain (rules h) tb c xs" and "set xs = insert spec (set (rules h tb c))"
    and "(tb, c, spec) \<in> own"
  shows "grows h h' own \<and> present h' (tb, c, spec)"
proof -
  have iff: "present h' x \<longleftrightarrow> present h x \<or> x = (tb, c, spec)" for x
    using assms(1,2) by (cases x) (auto simp: present_def set_chain_def split: if_splits)
  then show ?thesis using assms(3) by (auto simp: grows_def)
qed

lemma wp_insert_grows:
  assumes "tb \<in> {[], nat_table}" and "(tb, c, spec) \<in> own"
    and "\<And>ok h'. grows h h' own \<Longrightarrow> (ok \<Longrightarrow> present h' (tb, c, spec)) \<Longrightarrow> Q ok h'"
  shows "wp (run (iptables tb ''-I'' c (''1'' # spec))) Q h"
proof (rule wp_insert_top [OF assms(1)])
  fix ok h'
  assume "rules h' = (if ok then set_chain (rules h) tb c (spec # rules h tb c) else rules h)"
  then show "Q ok h'"
    using grows_set_chain [OF _ _ assms(2), of h' h "spec # rules h tb c"]
    by (intro assms(3); cases ok) (auto intro: grows_same)
qed

lemma wp_append_grows:
  assumes "tb \<in> {[], nat_table}" and "(tb, c, spec) \<in> own"
    and "\<And>ok h'. grows h h' own \<Longrightarrow> (ok \<Longrightarrow> present h' (tb, c, spec)) \<Longrightarrow> Q ok h'"
  shows "wp (run (iptables tb ''-A'' c spec)) Q h"
proof (rule wp_append [OF assms(1)])
  fix ok h'
  assume "rules h' = (if ok then set_chain (rules h) tb c (rules h tb c @ [spec]) else rules h)"
  then show "Q ok h'"
    using grows_set_chain [OF _ _ assms(2), of h' h "rules h tb c @ [spec]"]
    by (intro assms(3); cases ok) (auto intro: grows_same)
qed

lemma wp_ensure_rule:
  assumes "tb \<in> {[], nat_table}" and "(tb, c, spec) \<in> own"
    and "\<And>ok h'. grows h h' own \<Longrightarrow> (ok \<Longrightarrow> present h' (tb, c, spec)) \<Longrightarrow> Q ok h'"
  shows "wp (ensure_rule run first tb c spec) Q h"
  unfolding ensure_rule_def wp_bind
proof (rule wp_check [OF assms(1)])
  fix ok h'
  assume h': "rules h' = rules h" and there: "ok \<Longrightarrow> spec \<in> set (rules h tb c)"
  have "Q True h'" if ok
    using h' there that by (intro assms(3) grows_same) (simp_all add: present_def)
  then show "wp (if ok then State_Monad.return True
        else if first then run (iptables tb ''-I'' c (''1'' # spec)) else run (iptables tb ''-A'' c spec)) Q h'"
    using assms grows_trans [OF grows_same [OF h']]
    by (auto intro!: wp_insert_grows wp_append_grows)
qed

lemma wp_ensure_got:
  assumes "grows h0 h own \<and> (\<forall>x \<in> S. present h x)" and "tb \<in> {[], nat_table}" and "(tb, c, spec) \<in> own"
    and "\<And>h'. wp fail Q h'"
    and "\<And>h'. grows h0 h' own \<and> (\<forall>x \<in> insert (tb, c, spec) S. present h' x) \<Longrightarrow> wp go Q h'"
  shows "wp (do { ok \<leftarrow> ensure_rule run first tb c spec; if \<not> ok then fail else go }) Q h"
  unfolding wp_bind
proof (rule wp_ensure_rule [OF assms(2,3)])
  fix ok h' assume *: "grows h h' own" "ok \<Longrightarrow> present h' (tb, c, spec)"
  with assms(1) have "ok \<Longrightarrow> grows h0 h' own \<and> (\<forall>x \<in> insert (tb, c, spec) S. present h' x)"
    by (blast intro: grows_trans grows_present)
  then show "wp (if \<not> ok then fail else go) Q h'" using assms(4,5) by simp
qed

lemma addPortForwardRule_installs:
  "wp (addPortForwardRule run vmIP pf) (\<lambda>r h'. r = None \<longrightarrow>
      grows h h' (pf_rules vmIP pf)
      \<and> (present h (pre_rule vmIP pf) \<or> (\<forall>x \<in> pf_rules vmIP pf. present h' x))) h"
  (is "wp _ ?post h")
proof -
  let ?own = "pf_rules vmIP pf"
  note own = pf_rules_def nat_rules_def pre_rule_def
  have check_step: "wp (do { there \<leftarrow> run (iptables nat_table ''-C'' ''PREROUTING'' (prerouting_args vmIP pf));
      if there then State_Monad.return None else go }) ?post h"
    if "\<And>h1. rules h1 = rules h \<Longrightarrow> wp go ?post h1" for go
    unfolding wp_bind
    by (rule wp_check) (use that in \<open>auto simp: pre_rule_def present_def intro: grows_same\<close>)
  have insert_step: "wp (do { ok \<leftarrow> run (iptables nat_table ''-I'' ''PREROUTING'' (''1'' # prerouting_args vmIP pf));
      if \<not> ok then State_Monad.return (Some PfPrerouting) else go }) ?post h1"
    if "rules h1 = rules h"
      and "\<And>h'. grows h h' ?own \<and> (\<forall>x \<in> {pre_rule vmIP pf}. present h' x) \<Longrightarrow> wp go ?post h'"
    for go h1
    unfolding wp_bind
    by (rule wp_insert_grows [where own = ?own])
       (use that grows_trans [OF grows_same [OF that(1)]] in \<open>auto simp: own\<close>)
  show ?thesis
    unfolding addPortForwardRule_def Let_def
    apply (rule check_step, erule insert_step)
    apply (erule wp_ensure_got [where ?h0.0 = h and own = ?own], simp, simp add: own, simp)+
    apply (simp add: own)
    done
qed

lemma setup_forwards_installs:
  "wp (setup_forwards run vmIP all pfs) (\<lambda>r h'. r = None \<longrightarrow>
      (\<forall>x. present h x \<longrightarrow> present h' x)
      \<and> (\<forall>pf \<in> set pfs. present h (pre_rule vmIP pf) \<or> (\<forall>x \<in> pf_rules vmIP pf. present h' x))) h"
proof (induction pfs arbitrary: h)
  case (Cons pf pfs)
  show ?case
  proof (cases "ValidatePortForward pf")
    case None
    show ?thesis
      unfolding setup_forwards.simps None option.case wp_bind
    proof (rule wp_mono [OF addPortForwardRule_installs])
      fix r :: "pf_error option" and h1
      assume r: "r = None \<longrightarrow> grows h h1 (pf_rules vmIP pf)
        \<and> (present h (pre_rule vmIP pf) \<or> (\<forall>x \<in> pf_rules vmIP pf. present h1 x))"
      have later: "present h (pre_rule vmIP pf') \<or> (\<forall>x \<in> pf_rules vmIP pf'. present h1 x)"
        if "present h1 (pre_rule vmIP pf')" and "r = None" for pf'
      proof (cases "pre_rule vmIP pf' \<in> pf_rules vmIP pf")
        case True
        from pre_rule_mem [OF this] r that(2) show ?thesis by simp
      next
        case False
        with r that show ?thesis unfolding grows_def by blast
      qed
      show "wp (case r of None \<Rightarrow> setup_forwards run vmIP all pfs
              | Some e \<Rightarrow> do { _ \<leftarrow> CleanupPortForwards run vmIP all; State_Monad.return (Some e) })
           (\<lambda>r h'. r = None \<longrightarrow> (\<forall>x. present h x \<longrightarrow> present h' x)
              \<and> (\<forall>pf \<in> set (pf # pfs). present h (pre_rule vmIP pf) \<or> (\<forall>x \<in> pf_rules vmIP pf. present h' x))) h1"
      proof (cases r)
        case None
        show ?thesis unfolding None option.case
        proof (rule wp_mono [OF Cons.IH [of h1]])
          fix r2 h2
          assume *: "r2 = None \<longrightarrow> (\<forall>x. present h1 x \<longrightarrow> present h2 x)
            \<and> (\<forall>pf \<in> set pfs. present h1 (pre_rule vmIP pf) \<or> (\<forall>x \<in> pf_rules vmIP pf. present h2 x))"
          show "r2 = None \<longrightarrow> (\<forall>x. present h x \<longrightarrow> present h2 x)
            \<and> (\<forall>pf \<in> set (pf # pfs). present h (pre_rule vmIP pf) \<or> (\<forall>x \<in> pf_rules vmIP pf. present h2 x))"
            using * r None later unfolding grows_def by (simp only: set_simps) blast
        qed
      qed simp
    qed
  qed simp
qed simp

lemma same_but_ensure:
  "(tb, c, spec) \<in> own \<Longrightarrow> tb \<in> {[], nat_table} \<Longrightarrow> pres (same_but own R) (ensure_rule run first tb c spec)"
  unfolding ensure_rule_def by (intro pres_intros same_but_pres)

lemma same_but_add:
  assumes "pf_rules vmIP pf \<subseteq> own"
  shows "pres (same_but own R) (addPortForwardRule run vmIP pf)"
  unfolding addPortForwardRule_def Let_def
  by (intro pres_intros same_but_pres same_but_ensure)
     (use assms in \<open>auto simp: pf_rules_def nat_rules_def pre_rule_def\<close>)

lemma same_but_cleanup:
  assumes "\<And>pf. pf \<in> set pfs \<Longrightarrow> pf_rules vmIP pf \<subseteq> own"
  shows "pres (same_but own R) (CleanupPortForwards run vmIP pfs)"
  using assms
proof (induction pfs)
  case (Cons pf pfs)
  from Cons.prems [of pf] have "pres (same_but own R) (removePortForwardRule run vmIP pf)"
    unfolding removePortForwardRule_def
    by (intro pres_intros same_but_pres) (auto simp: pf_rules_def nat_rules_def pre_rule_def)
  with Cons show ?case by (auto intro!: pres_intros)
qed (simp add: pres_return)

lemma same_but_setup:
  assumes "\<And>pf. pf \<in> set all \<Longrightarrow> pf_rules vmIP pf \<subseteq> own" and "set pfs \<subseteq> set all"
  shows "pres (same_but own R) (setup_forwards run vmIP all pfs)"
  using assms
proof (induction pfs)
  case (Cons pf pfs)
  then show ?case
    by (auto intro!: pres_intros same_but_add same_but_cleanup)
qed (simp add: pres_return)

end

subsection \<open>Cleaning up after a setup\<close>

context reliable_netfilter
begin

definition once :: "placed_rule set \<Rightarrow> 'h \<Rightarrow> bool" where
  "once own h \<longleftrightarrow> (\<forall>tb c s. (tb, c, s) \<in> own \<longrightarrow> count_list (rules h tb c) s \<le> 1)"

lemma once_set_chain:
  assumes "once own h" and "rules h' = set_chain (rules h) tb c xs"
    and "\<And>s. (tb, c, s) \<in> own \<Longrightarrow> count_list xs s \<le> 1"
  shows "once own h'"
  using assms by (auto simp: once_def set_chain_def)

lemma count_list_remove1: "count_list (remove1 x xs) s = (if s = x then count_list xs s - 1 else count_list xs s)"
  by (induction xs) auto

lemma wp_delete_once:
  assumes "once own h" and "tb \<in> {[], nat_table}"
    and "\<And>ok h'. once own h' \<Longrightarrow> ((tb, c, spec) \<in> own \<Longrightarrow> \<not> present h' (tb, c, spec)) \<Longrightarrow>
          (\<And>x. present h' x \<Longrightarrow> present h x) \<Longrightarrow> Q ok h'"
  shows "wp (run (iptables tb ''-D'' c spec)) Q h"
proof (rule wp_delete_iff [OF assms(2)])
  fix ok h'
  assume h': "rules h' = set_chain (rules h) tb c (remove1 spec (rules h tb c))"
  have cnt: "count_list (rules h tb c) s \<le> 1" if "(tb, c, s) \<in> own" for s
    using assms(1) that by (simp add: once_def)
  show "Q ok h'"
  proof (rule assms(3))
    show "once own h'"
      by (rule once_set_chain [OF assms(1) h']) (use cnt in \<open>auto simp: count_list_remove1 intro: diff_le_self le_trans\<close>)
    show "\<not> present h' (tb, c, spec)" if "(tb, c, spec) \<in> own"
    proof -
      have "count_list (remove1 spec (rules h tb c)) spec = 0"
        using cnt [OF that] by (simp add: count_list_remove1)
      then have "spec \<notin> set (remove1 spec (rules h tb c))" by (simp only: count_list_0_iff not_False_eq_True)
      then show ?thesis using h' by (simp add: present_def)
    qed
    show "present h x" if "present h' x" for x
      using that h' by (cases x) (auto simp: present_def set_chain_def split: if_splits dest: set_remove1_subset [THEN subsetD])
  qed
qed

lemma once_delete: "tb \<in> {[], nat_table} \<Longrightarrow> pres (once own) (run (iptables tb ''-D'' c spec))"
  unfolding pres_iff_wp by (blast intro: wp_delete_once)

lemma once_insert:
  assumes "tb \<in> {[], nat_table}" and "once own h" and "spec \<notin> set (rules h tb c)"
  shows "wp (run (iptables tb ''-I'' c (''1'' # spec))) (\<lambda>_. once own) h"
    and "wp (run (iptables tb ''-A'' c spec)) (\<lambda>_. once own) h"
proof -
  have absent: "count_list (rules h tb c) spec = 0"
    using assms(3) by (simp add: count_list_0_iff)
  have grown: "once own h'"
    if "rules h' = (if ok then set_chain (rules h) tb c xs else rules h)"
      and "xs = spec # rules h tb c \<or> xs = rules h tb c @ [spec]" for ok h' xs
  proof (cases ok)
    case True
    show ?thesis
      by (rule once_set_chain [OF assms(2)])
         (use that True absent assms(2) in \<open>auto simp: once_def\<close>)
  qed (use that assms(2) in \<open>simp add: once_def\<close>)
  show "wp (run (iptables tb ''-I'' c (''1'' # spec))) (\<lambda>_. once own) h"
    using assms(1) by (rule wp_insert_top) (erule grown, simp)
  show "wp (run (iptables tb ''-A'' c spec)) (\<lambda>_. once own) h"
    using assms(1) by (rule wp_append) (erule grown, simp)
qed

lemma once_same: "once own h \<Longrightarrow> rules h' = rules h \<Longrightarrow> once own h'"
  by (simp add: once_def)

lemma once_ensure:
  assumes "tb \<in> {[], nat_table}"
  shows "pres (once own) (ensure_rule run first tb c spec)"
  unfolding pres_iff_wp ensure_rule_def wp_bind
proof (intro allI impI wp_check_iff [OF assms])
  fix h ok h'
  assume "once own h" and h': "rules h' = rules h" and ok: "ok = (spec \<in> set (rules h tb c))"
  then have "once own h'" by (blast intro: once_same)
  then show "wp (if ok then State_Monad.return True else if first then run (iptables tb ''-I'' c (''1'' # spec))
      else run (iptables tb ''-A'' c spec)) (\<lambda>_. once own) h'"
    using ok h' once_insert [OF assms] by simp
qed

lemma once_check_insert:
  assumes "pres (once own) go"
  shows "pres (once own) (do {
      there \<leftarrow> run (iptables nat_table ''-C'' c spec);
      if there then State_Monad.return None else do {
      ok \<leftarrow> run (iptables nat_table ''-I'' c (''1'' # spec));
      if \<not> ok then State_Monad.return (Some e) else go }})"
  unfolding pres_iff_wp wp_bind
proof (intro allI impI wp_check_iff)
  fix h there h'
  assume "once own h" and h': "rules h' = rules h" and there: "there = (spec \<in> set (rules h nat_table c))"
  then have "once own h'" by (blast intro: once_same)
  moreover have "wp (run (iptables nat_table ''-I'' c (''1'' # spec)))
      (\<lambda>ok. wp (if \<not> ok then State_Monad.return (Some e) else go) (\<lambda>_. once own)) h'" if "\<not> there"
    by (rule wp_mono [OF once_insert(1) [OF _ \<open>once own h'\<close>]])
       (use that there h' assms in \<open>auto intro: pres_wp\<close>)
  ultimately show "wp (if there then State_Monad.return None else do {
      ok \<leftarrow> run (iptables nat_table ''-I'' c (''1'' # spec));
      if \<not> ok then State_Monad.return (Some e) else go }) (\<lambda>_. once own) h'" by simp
qed simp

lemma once_add: "pres (once own) (addPortForwardRule run vmIP pf)"
  unfolding addPortForwardRule_def Let_def
  by (intro once_check_insert pres_intros once_ensure once_delete) simp_all

lemma once_cleanup: "pres (once own) (CleanupPortForwards run vmIP pfs)"
  by (induction pfs) (auto simp: removePortForwardRule_def intro!: pres_intros once_delete)

lemma once_setup: "pres (once own) (setup_forwards run vmIP all pfs)"
  by (induction pfs) (auto intro!: pres_intros once_add once_cleanup)

lemma removePortForwardRule_removes:
  assumes "once own h" and "nat_rules vmIP pf \<subseteq> own"
  shows "wp (removePortForwardRule run vmIP pf)
     (\<lambda>_ h'. once own h' \<and> (\<forall>x. present h' x \<longrightarrow> present h x) \<and> (\<forall>x \<in> nat_rules vmIP pf. \<not> present h' x)) h"
proof -
  have step: "wp (do { _ \<leftarrow> run (iptables nat_table ''-D'' c spec); go }) Q h1"
    if "once own h1 \<and> (\<forall>x. present h1 x \<longrightarrow> present h x) \<and> (\<forall>x \<in> S. \<not> present h1 x)"
      and "(nat_table, c, spec) \<in> own"
      and "\<And>h'. once own h' \<and> (\<forall>x. present h' x \<longrightarrow> present h x) \<and> (\<forall>x \<in> insert (nat_table, c, spec) S. \<not> present h' x) \<Longrightarrow> wp go Q h'"
    for c spec S h1 Q and go :: "('h, unit) comp"
    unfolding wp_bind
    by (rule wp_delete_once [of own]) (use that in blast)+
  have start: "once own h \<and> (\<forall>x. present h x \<longrightarrow> present h x) \<and> (\<forall>x \<in> {}. \<not> present h x)"
    using assms(1) by simp
  show ?thesis
    unfolding removePortForwardRule_def
    apply (rule step [OF start], use assms(2) in \<open>simp add: nat_rules_def pre_rule_def\<close>)
    apply (erule step, use assms(2) in \<open>simp add: nat_rules_def pre_rule_def\<close>)+
    apply (simp add: nat_rules_def pre_rule_def)
    done
qed

lemma CleanupPortForwards_removes:
  assumes "once own h" and "\<And>pf. pf \<in> set pfs \<Longrightarrow> nat_rules vmIP pf \<subseteq> own"
  shows "wp (CleanupPortForwards run vmIP pfs)
     (\<lambda>_ h'. (\<forall>x. present h' x \<longrightarrow> present h x) \<and> (\<forall>pf \<in> set pfs. \<forall>x \<in> nat_rules vmIP pf. \<not> present h' x)) h"
  using assms
proof (induction pfs arbitrary: h)
  case (Cons pf pfs)
  have "nat_rules vmIP pf \<subseteq> own" and later: "\<And>pf. pf \<in> set pfs \<Longrightarrow> nat_rules vmIP pf \<subseteq> own"
    using Cons.prems(2) by auto
  note first = removePortForwardRule_removes [OF Cons.prems(1) this(1)]
  show ?case
    unfolding CleanupPortForwards.simps wp_bind
    by (rule wp_mono [OF first]) (rule wp_mono [OF Cons.IH [OF _ later]], auto)
qed simp

end

subsection \<open>Properties\<close>

text \<open>A successful \<open>SetupPortForwards\<close> loses no rule of the host, and every forward whose
  \<open>PREROUTING\<close> rule was not there before has all of its five rules afterwards. Every forward was
  valid.\<close>

theorem SetupPortForwards_installs:
  assumes "netfilter run rules"
    and "run_state (SetupPortForwards run vmIP pfs) h = (None, h')"
    and "pf \<in> set pfs" and "prerouting_args vmIP pf \<notin> set (rules h nat_table ''PREROUTING'')"
  shows "prerouting_args vmIP pf \<in> set (rules h' nat_table ''PREROUTING'')
       \<and> output_args vmIP pf \<in> set (rules h' nat_table ''OUTPUT'')
       \<and> forward_args vmIP pf \<in> set (rules h' [] ''FORWARD'')
       \<and> {masquerade_args vmIP pf, snat_args vmIP pf} \<subseteq> set (rules h' nat_table ''POSTROUTING'')
       \<and> set (rules h tb c) \<subseteq> set (rules h' tb c)"
proof -
  note present = netfilter.present_def [OF assms(1)]
  note installs = netfilter.setup_forwards_installs [OF assms(1), of vmIP pfs pfs h,
      unfolded wp_run [OF assms(2) [unfolded SetupPortForwards_def]]]
  from installs assms(3,4)
  have all: "\<forall>x \<in> pf_rules vmIP pf. netfilter.present rules h' x"
    and mono: "\<forall>x. netfilter.present rules h x \<longrightarrow> netfilter.present rules h' x"
    by (auto simp: present pre_rule_def)
  from mono have "set (rules h tb c) \<subseteq> set (rules h' tb c)"
    by (simp add: present split_paired_all) blast
  with all show ?thesis by (simp add: present pf_rules_def nat_rules_def pre_rule_def)
qed

definition demo_forwards :: "PortForward list" where
  "demo_forwards = [\<lparr>pf_HostPort = 80, pf_VMPort = 8, pf_Protocol = ''tcp''\<rparr>,
     \<lparr>pf_HostPort = 81, pf_VMPort = 8, pf_Protocol = ''tcp''\<rparr>]"

definition demo_nat :: fw where
  "demo_nat = [((nat_table, ''PREROUTING''), [[''-j'', ''DOCKER'']]), ((nat_table, ''OUTPUT''), []),
     ((nat_table, ''POSTROUTING''), []), (([], ''FORWARD''), [])]"

definition demo_forwarded :: "pf_error option \<times> fw" where
  "demo_forwarded = run_state (SetupPortForwards fw_run ''172.16.0.10'' demo_forwards) demo_nat"

lemma demo_forwarded_ok: "fst demo_forwarded = None"
  by code_simp

theorem SetupPortForwards_installs_witness:
  "fst demo_forwarded = None
   \<and> output_args ''172.16.0.10'' (hd demo_forwards) \<in> set (fw_rules (snd demo_forwarded) nat_table ''OUTPUT'')"
proof -
  have run: "run_state (SetupPortForwards fw_run ''172.16.0.10'' demo_forwards) demo_nat = (None, snd demo_forwarded)"
    using demo_forwarded_ok by (simp add: demo_forwarded_def prod_eq_iff)
  have "hd demo_forwards \<in> set demo_forwards"
    and "prerouting_args ''172.16.0.10'' (hd demo_forwards) \<notin> set (fw_rules demo_nat nat_table ''PREROUTING'')"
    by (simp_all add: demo_forwards_def demo_nat_def fw_rules_def prerouting_args_def)
  from SetupPortForwards_installs [OF ref_fw.netfilter_axioms, OF run, OF this, of "[]" "''FORWARD''"]
  show ?thesis using demo_forwarded_ok by simp
qed

text \<open>C30. Removing the forwards after a successful setup restores the whole translation table
  exactly, rule by rule and in order, on a host where \<open>iptables -C\<close> and \<open>iptables -D\<close> succeed for
  a rule that is there, when none of the translation rules was there before. In the filter table
  only the accepting rules of the forwards may remain.\<close>

theorem port_forward_round_trip:
  assumes "reliable_netfilter run rules"
    and "\<And>pf tb c s. pf \<in> set pfs \<Longrightarrow> (tb, c, s) \<in> nat_rules vmIP pf \<Longrightarrow> s \<notin> set (rules h tb c)"
    and "run_state (SetupPortForwards run vmIP pfs) h = (None, h1)"
    and "run_state (CleanupPortForwards run vmIP pfs) h1 = (u, h2)"
  shows "rules h2 nat_table c = rules h nat_table c
       \<and> filter (\<lambda>s. s \<notin> forward_args vmIP ` set pfs) (rules h2 [] c)
         = filter (\<lambda>s. s \<notin> forward_args vmIP ` set pfs) (rules h [] c)"
proof -
  let ?own = "\<Union>pf \<in> set pfs. pf_rules vmIP pf"
  let ?nat = "\<Union>pf \<in> set pfs. nat_rules vmIP pf"
  note nf = reliable_netfilter.axioms(1) [OF assms(1)]
  note present = netfilter.present_def [OF nf]
  have run1: "run_state (setup_forwards run vmIP pfs pfs) h = (None, h1)"
    using assms(3) by (simp add: SetupPortForwards_def)
  have absent: "s \<notin> set (rules h tb c)" if "(tb, c, s) \<in> ?nat" for tb c s
    using assms(2) that by blast
  have sub: "\<And>pf. pf \<in> set pfs \<Longrightarrow> pf_rules vmIP pf \<subseteq> ?own" by blast
  have "netfilter.same_but rules ?own (rules h) h1"
    using presD [OF netfilter.same_but_setup [OF nf sub subset_refl] netfilter.same_but_refl [OF nf], of pfs h] run1
    by simp
  from presD [OF netfilter.same_but_cleanup [OF nf, of pfs, OF sub] this] assms(4)
  have same: "netfilter.same_but rules ?own (rules h) h2" by simp
  have "reliable_netfilter.once rules ?nat h"
    using absent by (auto simp: reliable_netfilter.once_def [OF assms(1)] count_list_0_iff [THEN iffD2])
  from presD [OF reliable_netfilter.once_setup [OF assms(1), of ?nat vmIP pfs pfs] this] run1
  have once1: "reliable_netfilter.once rules ?nat h1" by simp
  have gone: "s \<notin> set (rules h2 tb c)" if "(tb, c, s) \<in> ?nat" for tb c s
  proof -
    note rm = reliable_netfilter.CleanupPortForwards_removes [OF assms(1) once1, of pfs vmIP]
    have "\<forall>pf \<in> set pfs. \<forall>x \<in> nat_rules vmIP pf. \<not> netfilter.present rules h2 x"
      using rm unfolding wp_run [OF assms(4)] by blast
    with that show ?thesis by (auto simp: present)
  qed
  have in_nat: "(nat_table, c, s) \<in> ?nat" if "(nat_table, c, s) \<in> ?own" for s
    using that by (auto simp: pf_rules_def)
  have nat: "rules h2 nat_table c = rules h nat_table c"
    by (rule netfilter.same_but_restored [OF nf same]) (drule in_nat, intro conjI absent gone)
  have in_filter: "([], c, s) \<in> ?own \<longleftrightarrow> c = ''FORWARD'' \<and> s \<in> forward_args vmIP ` set pfs" for s
    by (auto simp: pf_rules_def nat_rules_def pre_rule_def)
  have "filter (\<lambda>s. ([], c, s) \<notin> ?own) (rules h2 [] c) = filter (\<lambda>s. ([], c, s) \<notin> ?own) (rules h [] c)"
    using same by (simp add: netfilter.same_but_def [OF nf])
  then have "filter (\<lambda>s. s \<notin> forward_args vmIP ` set pfs) (rules h2 [] c)
      = filter (\<lambda>s. s \<notin> forward_args vmIP ` set pfs) (rules h [] c)"
    unfolding in_filter by (cases "c = ''FORWARD''") simp_all
  with nat show ?thesis ..
qed

definition demo_cleaned :: fw where
  "demo_cleaned = snd (run_state (CleanupPortForwards fw_run ''172.16.0.10'' demo_forwards) (snd demo_forwarded))"

theorem port_forward_round_trip_witness:
  "fst demo_forwarded = None
   \<and> fw_rules (snd demo_forwarded) nat_table ''POSTROUTING'' \<noteq> fw_rules demo_nat nat_table ''POSTROUTING''
   \<and> fw_rules demo_cleaned nat_table ''POSTROUTING'' = fw_rules demo_nat nat_table ''POSTROUTING''"
proof -
  have installed: "run_state (SetupPortForwards fw_run ''172.16.0.10'' demo_forwards) demo_nat = (None, snd demo_forwarded)"
    using demo_forwarded_ok by (simp add: demo_forwarded_def prod_eq_iff)
  have cleanup: "run_state (CleanupPortForwards fw_run ''172.16.0.10'' demo_forwards) (snd demo_forwarded)
      = (fst (run_state (CleanupPortForwards fw_run ''172.16.0.10'' demo_forwards) (snd demo_forwarded)), demo_cleaned)"
    unfolding demo_cleaned_def by (rule surjective_pairing)
  have absent: "s \<notin> set (fw_rules demo_nat tb c)" if "pf \<in> set demo_forwards" "(tb, c, s) \<in> nat_rules ''172.16.0.10'' pf" for pf tb c s
    using that by (auto simp: nat_rules_def pre_rule_def demo_nat_def fw_rules_def prerouting_args_def)
  have "fw_rules demo_cleaned nat_table ''POSTROUTING'' = fw_rules demo_nat nat_table ''POSTROUTING''"
    by (rule port_forward_round_trip [THEN conjunct1, OF ref_fw.reliable_netfilter_axioms _ installed cleanup])
       (rule absent)
  moreover have "fw_rules (snd demo_forwarded) nat_table ''POSTROUTING'' \<noteq> fw_rules demo_nat nat_table ''POSTROUTING''"
    by code_simp
  ultimately show ?thesis using demo_forwarded_ok by blast
qed

text \<open>A forward that fails validation after earlier ones were installed leaves their rules behind:
  only a failing command triggers the cleanup.\<close>

lemma setup_forwards_snoc_invalid:
  assumes "ValidatePortForward pf = Some e"
    and "run_state (setup_forwards run vmIP a1 pfs) h = (None, h1)"
  shows "run_state (setup_forwards run vmIP a2 (pfs @ [pf])) h = (Some e, h1)"
  using assms(2)
  by (induction pfs arbitrary: h) (auto simp: assms(1) split: option.splits prod.splits)

lemma SetupPortForwards_invalid_leaves_rules:
  assumes "ValidatePortForward pf = Some e"
    and "run_state (SetupPortForwards run vmIP pfs) h = (None, h1)"
  shows "run_state (SetupPortForwards run vmIP (pfs @ [pf])) h = (Some e, h1)"
  using assms unfolding SetupPortForwards_def by (rule setup_forwards_snoc_invalid)

end
