(* ===== verification/Host_Net.thy ===== *)
theory Host_Net
  imports Egress Port_Forward
begin

section \<open>Bridge, address translation, TAP devices, MAC addresses\<close>

text \<open>
  \<open>bridge.go\<close>, \<open>nat.go\<close>, \<open>tap.go\<close> and \<open>helpers.go\<close> of \<open>internal/network\<close>. Commands whose output
  is read go through a runner that also returns the captured output; \<open>quiet\<close> forgets it.
\<close>

type_synonym 'h xrunner = "string list \<Rightarrow> ('h, bool \<times> string) comp"

definition quiet :: "'h xrunner \<Rightarrow> 'h runner" where
  "quiet xrun cmd = do { r \<leftarrow> xrun cmd; State_Monad.return (fst r) }"

subsection \<open>TAP devices (tap.go)\<close>

definition CreateTAPDevice :: "'h runner \<Rightarrow> string \<Rightarrow> ('h, bool) comp" where
  "CreateTAPDevice run name = do {
     ok \<leftarrow> run [''ip'', ''tuntap'', ''add'', name, ''mode'', ''tap''];
     if \<not> ok then State_Monad.return False else do {
     up \<leftarrow> run [''ip'', ''link'', ''set'', name, ''up''];
     if \<not> up then do {
       _ \<leftarrow> run [''ip'', ''link'', ''delete'', name];
       State_Monad.return False }
     else State_Monad.return True }}"

definition AttachTAPToBridge :: "'h runner \<Rightarrow> string \<Rightarrow> string \<Rightarrow> ('h, bool) comp" where
  "AttachTAPToBridge run tapName bridgeName = run [''ip'', ''link'', ''set'', tapName, ''master'', bridgeName]"

definition DeleteTAPDevice :: "'h runner \<Rightarrow> string \<Rightarrow> ('h, bool) comp" where
  "DeleteTAPDevice run name = run [''ip'', ''link'', ''delete'', name]"

definition TAPDeviceExists :: "'h runner \<Rightarrow> string \<Rightarrow> ('h, bool) comp" where
  "TAPDeviceExists run name = run [''ip'', ''link'', ''show'', name]"

subsection \<open>The bridge (bridge.go)\<close>

definition BridgeIP :: string where "BridgeIP = ''172.16.0.1/24''"
definition BridgeGateway :: string where "BridgeGateway = ''172.16.0.1''"
definition NetworkCIDR :: string where "NetworkCIDR = ''172.16.0.0/24''"

datatype bridge_error = BridgeCreate | BridgeAddr | BridgeUp | BridgeRoute

definition BridgeExists :: "'h runner \<Rightarrow> ('h, bool) comp" where
  "BridgeExists run = run [''ip'', ''link'', ''show'', BridgeName]"

definition ensureBridgeRoute :: "'h xrunner \<Rightarrow> ('h, bool) comp" where
  "ensureBridgeRoute xrun = do {
     r \<leftarrow> xrun [''ip'', ''route'', ''show'', NetworkCIDR, ''dev'', BridgeName];
     if snd r \<noteq> [] then State_Monad.return True else do {
     ok \<leftarrow> quiet xrun [''ip'', ''route'', ''add'', NetworkCIDR, ''dev'', BridgeName];
     if ok then State_Monad.return True else do {
     r2 \<leftarrow> xrun [''ip'', ''route'', ''show'', NetworkCIDR, ''dev'', BridgeName];
     State_Monad.return (snd r2 \<noteq> []) }}}"

definition SetupBridge :: "'h xrunner \<Rightarrow> ('h, bridge_error option) comp" where
  "SetupBridge xrun = (let run = quiet xrun;
      give_up = (\<lambda>e. do { _ \<leftarrow> run [''ip'', ''link'', ''delete'', BridgeName]; State_Monad.return (Some e) })
    in do {
     exists \<leftarrow> BridgeExists run;
     if exists then State_Monad.return None else do {
     created \<leftarrow> run [''ip'', ''link'', ''add'', BridgeName, ''type'', ''bridge''];
     if \<not> created then State_Monad.return (Some BridgeCreate) else do {
     addr \<leftarrow> run [''ip'', ''addr'', ''add'', BridgeIP, ''dev'', BridgeName];
     if \<not> addr then give_up BridgeAddr else do {
     up \<leftarrow> run [''ip'', ''link'', ''set'', BridgeName, ''up''];
     if \<not> up then give_up BridgeUp else do {
     route \<leftarrow> ensureBridgeRoute xrun;
     if \<not> route then give_up BridgeRoute else State_Monad.return None }}}}})"

definition DeleteBridge :: "'h runner \<Rightarrow> ('h, bool) comp" where
  "DeleteBridge run = do {
     exists \<leftarrow> BridgeExists run;
     if \<not> exists then State_Monad.return True
     else run [''ip'', ''link'', ''delete'', BridgeName] }"

subsection \<open>Address translation (nat.go)\<close>

definition benign_failure :: "string \<Rightarrow> bool" where
  "benign_failure errMsg \<longleftrightarrow> contains errMsg ''already exists'' \<or> contains errMsg ''duplicate''"

text \<open>The pattern of \<open>addNATRule\<close> and \<open>addForwardRuleIdempotent\<close>: check, append, accept a
  failure that says the rule exists, check again.\<close>

definition idempotent_append :: "'h xrunner \<Rightarrow> string list \<Rightarrow> string \<Rightarrow> rule_spec \<Rightarrow> ('h, bool) comp" where
  "idempotent_append xrun tb c spec = do {
     there \<leftarrow> quiet xrun (iptables tb ''-C'' c spec);
     if there then State_Monad.return True else do {
     r \<leftarrow> xrun (iptables tb ''-A'' c spec);
     if fst r then State_Monad.return True
     else if benign_failure (trim_space (snd r)) then State_Monad.return True
     else quiet xrun (iptables tb ''-C'' c spec) }}"

definition nat_rule_args :: "string \<Rightarrow> rule_spec" where
  "nat_rule_args primaryInterface = [''-s'', NetworkCIDR, ''-o'', primaryInterface, ''-j'', ''MASQUERADE'']"

definition forward_rule_args :: "string \<Rightarrow> string \<Rightarrow> string \<Rightarrow> rule_spec" where
  "forward_rule_args inIface outIface conn =
     [''-i'', inIface, ''-o'', outIface] @ (if conn \<noteq> [] then [''-m'', ''state'', ''--state'', conn] else [])
     @ [''-j'', ''ACCEPT'']"

definition enableIPForwarding :: "'h runner \<Rightarrow> ('h, bool) comp" where
  "enableIPForwarding run = run [''sysctl'', ''-w'', ''net.ipv4.ip_forward=1'']"

definition addNATRule :: "'h xrunner \<Rightarrow> string \<Rightarrow> ('h, bool) comp" where
  "addNATRule xrun primaryInterface = idempotent_append xrun nat_table ''POSTROUTING'' (nat_rule_args primaryInterface)"

definition addForwardRuleIdempotent :: "'h xrunner \<Rightarrow> string \<Rightarrow> string \<Rightarrow> string \<Rightarrow> ('h, bool) comp" where
  "addForwardRuleIdempotent xrun inIface outIface conn =
     idempotent_append xrun [] ''FORWARD'' (forward_rule_args inIface outIface conn)"

definition addForwardRules :: "'h xrunner \<Rightarrow> string \<Rightarrow> ('h, bool) comp" where
  "addForwardRules xrun primaryInterface = do {
     ok \<leftarrow> addForwardRuleIdempotent xrun BridgeName primaryInterface [];
     if \<not> ok then State_Monad.return False
     else addForwardRuleIdempotent xrun primaryInterface BridgeName ''RELATED,ESTABLISHED'' }"

definition SetupNAT :: "'h xrunner \<Rightarrow> string \<Rightarrow> ('h, bool) comp" where
  "SetupNAT xrun primaryInterface = do {
     ok1 \<leftarrow> enableIPForwarding (quiet xrun);
     if \<not> ok1 then State_Monad.return False else do {
     ok2 \<leftarrow> addNATRule xrun primaryInterface;
     if \<not> ok2 then State_Monad.return False
     else addForwardRules xrun primaryInterface }}"

definition CleanupNAT :: "'h runner \<Rightarrow> string \<Rightarrow> ('h, unit) comp" where
  "CleanupNAT run primaryInterface = do {
     _ \<leftarrow> run (iptables nat_table ''-D'' ''POSTROUTING'' (nat_rule_args primaryInterface));
     _ \<leftarrow> run (iptables [] ''-D'' ''FORWARD'' (forward_rule_args BridgeName primaryInterface []));
     _ \<leftarrow> run (iptables [] ''-D'' ''FORWARD'' (forward_rule_args primaryInterface BridgeName ''RELATED,ESTABLISHED''));
     State_Monad.return () }"

definition CheckIPForwardingEnabled :: "'h xrunner \<Rightarrow> ('h, bool) comp" where
  "CheckIPForwardingEnabled xrun = do {
     r \<leftarrow> xrun [''sysctl'', ''net.ipv4.ip_forward''];
     State_Monad.return (fst r \<and> contains (snd r) ''net.ipv4.ip_forward = 1'') }"

text \<open>\<open>strings.Fields\<close> and the search for the word after \<open>dev\<close>.\<close>

function fields :: "string \<Rightarrow> string list" where
  "fields s = (let t = dropWhile is_space s
               in if t = [] then []
                  else takeWhile (\<lambda>c. \<not> is_space c) t # fields (dropWhile (\<lambda>c. \<not> is_space c) t))"
  by pat_completeness auto
termination
proof (relation "measure length")
  fix s t :: string
  assume t: "t = dropWhile is_space s" and ne: "t \<noteq> []"
  then have "\<not> is_space (hd t)" by (simp add: hd_dropWhile)
  with ne have "length (dropWhile (\<lambda>c. \<not> is_space c) t) < length t"
    by (cases t) (simp_all add: le_imp_less_Suc length_dropWhile_le)
  also have "length t \<le> length s" using t by (simp add: length_dropWhile_le)
  finally show "(dropWhile (\<lambda>c. \<not> is_space c) t, s) \<in> measure length" by simp
qed simp

declare fields.simps [simp del]

fun word_after_dev :: "string list \<Rightarrow> string option" where
  "word_after_dev (f # g # rest) = (if f = ''dev'' then Some g else word_after_dev (g # rest))"
| "word_after_dev _ = None"

definition commonInterfaces :: "string list" where
  "commonInterfaces = [''eth0'', ''ens3'', ''enp0s3'', ''ens33'', ''wlan0'', ''wlp2s0'']"

fun first_existing :: "'h runner \<Rightarrow> string list \<Rightarrow> ('h, string option) comp" where
  "first_existing run [] = State_Monad.return None"
| "first_existing run (iface # rest) = do {
     ok \<leftarrow> run [''ip'', ''link'', ''show'', iface];
     if ok then State_Monad.return (Some iface) else first_existing run rest }"

definition GetPrimaryInterface :: "'h xrunner \<Rightarrow> ('h, string option) comp" where
  "GetPrimaryInterface xrun = do {
     r \<leftarrow> xrun [''ip'', ''route'', ''show'', ''default''];
     if \<not> fst r then State_Monad.return None
     else case word_after_dev (fields (snd r)) of
       Some iface \<Rightarrow> State_Monad.return (Some iface)
     | None \<Rightarrow> first_existing (quiet xrun) commonInterfaces }"

subsection \<open>MAC addresses (helpers.go)\<close>

definition hex_digit :: "nat \<Rightarrow> char" where
  "hex_digit n = (if n < 10 then char_of (48 + n) else char_of (55 + n))"

text \<open>The format \<open>%02X\<close> of a byte.\<close>

definition hex2 :: "8 word \<Rightarrow> string" where
  "hex2 b = [hex_digit (unat b div 16), hex_digit (unat b mod 16)]"

text \<open>The random source is a parameter: \<open>None\<close> when it fails.\<close>

definition GenerateMAC :: "(8 word \<times> 8 word \<times> 8 word) option \<Rightarrow> string option" where
  "GenerateMAC buf = (case buf of None \<Rightarrow> None
     | Some (a, b, c) \<Rightarrow> Some (''AA:FC:00:'' @ hex2 a @ '':'' @ hex2 b @ '':'' @ hex2 c))"

definition is_hex_digit :: "char \<Rightarrow> bool" where
  "is_hex_digit c \<longleftrightarrow> (let n = of_char c :: nat in
     (48 \<le> n \<and> n \<le> 57) \<or> (65 \<le> n \<and> n \<le> 70) \<or> (97 \<le> n \<and> n \<le> 102))"

fun mac_chars :: "nat \<Rightarrow> string \<Rightarrow> bool" where
  "mac_chars i [] = True"
| "mac_chars i (c # s) =
     (if i mod 3 = 2 then (if c \<noteq> CHR '':'' then False else mac_chars (Suc i) s)
      else if \<not> is_hex_digit c then False else mac_chars (Suc i) s)"

definition ValidateMAC :: "string \<Rightarrow> bool" where
  "ValidateMAC mac = (if length mac \<noteq> 17 then False else mac_chars 0 mac)"

subsection \<open>Facts\<close>

lemma is_hex_digit_hex_digit: "n < 16 \<Longrightarrow> is_hex_digit (hex_digit n)"
  by (simp add: is_hex_digit_def hex_digit_def Let_def)

lemma hex_digit_inj: "m < 16 \<Longrightarrow> n < 16 \<Longrightarrow> hex_digit m = hex_digit n \<Longrightarrow> m = n"
  by (auto simp: hex_digit_def dest!: arg_cong [where f = "of_char :: char \<Rightarrow> nat"] split: if_splits)

lemma byte_div_16: "unat (x :: 8 word) div 16 < 16"
proof -
  have "unat x < 2 ^ LENGTH(8)" by (rule unsigned_less)
  then show ?thesis by (simp add: less_mult_imp_div_less)
qed

lemma hex2_inj: "hex2 a = hex2 b \<longleftrightarrow> a = b"
proof
  assume "hex2 a = hex2 b"
  then have "unat a div 16 = unat b div 16" and "unat a mod 16 = unat b mod 16"
    by (auto simp: hex2_def byte_div_16 intro: hex_digit_inj)
  then have "unat a = unat b" by (metis div_mult_mod_eq)
  then show "a = b" by (simp add: word_unat_eq_iff)
qed simp

lemma hex2_digits: "\<exists>x y. hex2 b = [x, y] \<and> is_hex_digit x \<and> is_hex_digit y"
  by (auto simp: hex2_def byte_div_16 intro!: is_hex_digit_hex_digit)

text \<open>Every MAC address that \<open>GenerateMAC\<close> returns passes \<open>ValidateMAC\<close>, carries the prefix
  \<open>AA:FC:00\<close>, and different random bytes give different addresses.\<close>

lemma GenerateMAC_valid:
  "ValidateMAC (the (GenerateMAC (Some (a, b, c))))
   \<and> has_prefix (the (GenerateMAC (Some (a, b, c)))) ''AA:FC:00:''
   \<and> (GenerateMAC (Some (a, b, c)) = GenerateMAC (Some (a', b', c'))) = ((a, b, c) = (a', b', c'))"
proof -
  obtain x1 y1 x2 y2 x3 y3 where
    "hex2 a = [x1, y1]" "hex2 b = [x2, y2]" "hex2 c = [x3, y3]"
    and "list_all is_hex_digit [x1, y1, x2, y2, x3, y3]"
    using hex2_digits [of a] hex2_digits [of b] hex2_digits [of c] by (elim exE conjE) simp
  moreover have "is_hex_digit (CHR ''A'')" "is_hex_digit (CHR ''F'')" "is_hex_digit (CHR ''C'')" "is_hex_digit (CHR ''0'')"
    by (simp_all add: is_hex_digit_def Let_def)
  ultimately have "ValidateMAC (the (GenerateMAC (Some (a, b, c))))"
    by (simp add: ValidateMAC_def GenerateMAC_def)
  moreover have "length (hex2 z) = 2" for z by (simp add: hex2_def)
  ultimately show ?thesis
    by (auto simp: GenerateMAC_def hex2_inj has_prefix_def)
qed

subsection \<open>The rules of the translation setup\<close>

text \<open>What \<open>nat.go\<close> takes for granted about a failing \<open>iptables -A\<close>: when it says that the rule
  exists, the rule is there.\<close>

definition honest_failures :: "'h xrunner \<Rightarrow> ('h \<Rightarrow> ruleset) \<Rightarrow> bool" where
  "honest_failures xrun rules \<longleftrightarrow>
     (\<forall>tb c spec h. wp (xrun (iptables tb ''-A'' c spec))
        (\<lambda>r h'. \<not> fst r \<and> benign_failure (trim_space (snd r)) \<longrightarrow> spec \<in> set (rules h' tb c)) h)"

lemma wp_quiet: "wp (quiet xrun cmd) Q = wp (xrun cmd) (\<lambda>r. Q (fst r))"
  by (simp add: quiet_def)

definition keeps :: "ruleset \<Rightarrow> ruleset \<Rightarrow> bool" where
  "keeps R R' \<longleftrightarrow> (\<forall>tb c. set (R tb c) \<subseteq> set (R' tb c))"

lemma keeps_refl [simp]: "keeps R R"
  by (simp add: keeps_def)

lemma keeps_trans: "keeps R R' \<Longrightarrow> keeps R' R'' \<Longrightarrow> keeps R R''"
  unfolding keeps_def by blast

lemma keepsD: "keeps R R' \<Longrightarrow> s \<in> set (R tb c) \<Longrightarrow> s \<in> set (R' tb c)"
  unfolding keeps_def by blast

lemma idempotent_append_installs:
  assumes nf: "netfilter (quiet xrun) rules" and honest: "honest_failures xrun rules"
    and tb: "tb \<in> {[], nat_table}"
  shows "wp (idempotent_append xrun tb c spec)
     (\<lambda>ok h'. keeps (rules h) (rules h') \<and> (ok \<longrightarrow> spec \<in> set (rules h' tb c))) h"
proof -
  let ?sub = "\<lambda>h h'. keeps (rules h) (rules h')"
  have check: "wp (quiet xrun (iptables tb ''-C'' c spec))
      (\<lambda>ok h'. ?sub h h' \<and> (ok \<longrightarrow> spec \<in> set (rules h' tb c))) h" for h
    by (rule netfilter.wp_check [OF nf tb]) simp
  have "wp (quiet xrun (iptables tb ''-A'' c spec)) (\<lambda>ok h'. ?sub h h' \<and> (ok \<longrightarrow> spec \<in> set (rules h' tb c))) h" for h
    by (rule netfilter.wp_append [OF nf tb]) (auto simp: keeps_def set_chain_def)
  moreover have "wp (xrun (iptables tb ''-A'' c spec))
      (\<lambda>r h'. \<not> fst r \<and> benign_failure (trim_space (snd r)) \<longrightarrow> spec \<in> set (rules h' tb c)) h" for h
    using honest by (simp add: honest_failures_def)
  ultimately have app: "wp (xrun (iptables tb ''-A'' c spec))
      (\<lambda>r h'. ?sub h h' \<and> (fst r \<or> benign_failure (trim_space (snd r)) \<longrightarrow> spec \<in> set (rules h' tb c))) h" for h
    unfolding wp_quiet wp_iff_run by blast
  show ?thesis
    unfolding idempotent_append_def wp_bind
  proof (rule wp_mono [OF check])
    fix there h1
    assume h1: "?sub h h1 \<and> (there \<longrightarrow> spec \<in> set (rules h1 tb c))"
    have "wp (xrun (iptables tb ''-A'' c spec)) (\<lambda>r. wp (if fst r then State_Monad.return True
          else if benign_failure (trim_space (snd r)) then State_Monad.return True
          else quiet xrun (iptables tb ''-C'' c spec))
        (\<lambda>ok h'. ?sub h h' \<and> (ok \<longrightarrow> spec \<in> set (rules h' tb c)))) h1"
    proof (rule wp_mono [OF app])
      fix r h2
      assume "?sub h1 h2 \<and> (fst r \<or> benign_failure (trim_space (snd r)) \<longrightarrow> spec \<in> set (rules h2 tb c))"
      with h1 show "wp (if fst r then State_Monad.return True
          else if benign_failure (trim_space (snd r)) then State_Monad.return True
          else quiet xrun (iptables tb ''-C'' c spec))
        (\<lambda>ok h'. ?sub h h' \<and> (ok \<longrightarrow> spec \<in> set (rules h' tb c))) h2"
        by (auto intro!: wp_mono [OF check [of h2]] intro: keeps_trans)
    qed
    with h1 show "wp (if there then State_Monad.return True else do {
        r \<leftarrow> xrun (iptables tb ''-A'' c spec);
        if fst r then State_Monad.return True
        else if benign_failure (trim_space (snd r)) then State_Monad.return True
        else quiet xrun (iptables tb ''-C'' c spec) })
        (\<lambda>ok h'. ?sub h h' \<and> (ok \<longrightarrow> spec \<in> set (rules h' tb c))) h1"
      by simp
  qed
qed

text \<open>A successful \<open>SetupNAT\<close> has the masquerading rule and both forwarding rules in place,
  whether it found them or added them, and keeps every rule the host had.\<close>

theorem SetupNAT_installs:
  assumes nf: "netfilter (quiet xrun) rules" and honest: "honest_failures xrun rules"
    and "run_state (SetupNAT xrun iface) h = (True, h')"
  shows "nat_rule_args iface \<in> set (rules h' nat_table ''POSTROUTING'')
       \<and> forward_rule_args BridgeName iface [] \<in> set (rules h' [] ''FORWARD'')
       \<and> forward_rule_args iface BridgeName ''RELATED,ESTABLISHED'' \<in> set (rules h' [] ''FORWARD'')
       \<and> set (rules h tb c) \<subseteq> set (rules h' tb c)"
proof -
  let ?sub = "\<lambda>h h'. keeps (rules h) (rules h')"
  note step = idempotent_append_installs [OF nf honest]
  have "wp (SetupNAT xrun iface) (\<lambda>ok h'. ok \<longrightarrow> ?sub h h'
      \<and> nat_rule_args iface \<in> set (rules h' nat_table ''POSTROUTING'')
      \<and> forward_rule_args BridgeName iface [] \<in> set (rules h' [] ''FORWARD'')
      \<and> forward_rule_args iface BridgeName ''RELATED,ESTABLISHED'' \<in> set (rules h' [] ''FORWARD'')) h"
    unfolding SetupNAT_def enableIPForwarding_def addNATRule_def addForwardRules_def addForwardRuleIdempotent_def wp_bind
    by (rule netfilter.wp_other [OF nf])
       (auto intro!: wp_mono [OF step], (blast intro: keeps_trans keepsD)+)
  from this [unfolded wp_run [OF assms(3)]] show ?thesis by (simp add: keeps_def)
qed

text \<open>The reference firewall with empty output.\<close>

definition fw_xrun :: "fw xrunner" where
  "fw_xrun cmd = do { ok \<leftarrow> fw_run cmd; State_Monad.return (ok, []) }"

lemma quiet_fw_xrun: "quiet fw_xrun = fw_run"
proof
  fix cmd
  show "quiet fw_xrun cmd = fw_run cmd"
    by (rule state.expand) (simp add: quiet_def fw_xrun_def fun_eq_iff split: prod.splits)
qed

lemma honest_fw_xrun: "honest_failures fw_xrun fw_rules"
  by (simp add: honest_failures_def fw_xrun_def benign_failure_def)

definition demo_nat_host :: fw where
  "demo_nat_host = [((nat_table, ''POSTROUTING''), [nat_rule_args ''e0'']), (([], ''FORWARD''), [])]"

definition demo_nat_setup :: "bool \<times> fw" where
  "demo_nat_setup = run_state (SetupNAT fw_xrun ''e0'') demo_nat_host"

theorem SetupNAT_installs_witness:
  "fst demo_nat_setup
   \<and> forward_rule_args BridgeName ''e0'' [] \<in> set (fw_rules (snd demo_nat_setup) [] ''FORWARD'')"
proof -
  have ok: "fst demo_nat_setup" by code_simp
  then have run: "run_state (SetupNAT fw_xrun ''e0'') demo_nat_host = (True, snd demo_nat_setup)"
    by (simp add: demo_nat_setup_def prod_eq_iff)
  have "netfilter (quiet fw_xrun) fw_rules"
    unfolding quiet_fw_xrun by (rule ref_fw.netfilter_axioms)
  from SetupNAT_installs [OF this, OF honest_fw_xrun, OF run, of "[]" "''FORWARD''"] ok
  show ?thesis by simp
qed

end
