(* ===== verification/Go_Path.thy ===== *)
theory Go_Path
  imports Prelude
begin

section \<open>Slash-separated paths (the packages path and filepath)\<close>

text \<open>
  The lexical path functions of Go's standard library that the sources call, on Unix, where
  \<open>path\<close> and \<open>filepath\<close> agree: \<open>Clean\<close>, \<open>Join\<close>, \<open>Dir\<close> and \<open>Rel\<close>. A path is cut
  into components; \<open>Clean\<close> runs over them with a stack. The main facts: cleaning is idempotent,
  a cleaned absolute path has no dot components, and the containment test that the sources build
  from \<open>Rel\<close> is exactly "the components of the root are a prefix of the components of the path".
\<close>

definition dotdot :: string where "dotdot = ''..''"

definition is_abs :: "string \<Rightarrow> bool" where
  "is_abs s \<longleftrightarrow> has_prefix s ''/''"

fun clean_step :: "bool \<Rightarrow> string list \<Rightarrow> string \<Rightarrow> string list" where
  "clean_step rooted stk c =
     (if c = [] \<or> c = ''.'' then stk
      else if c = dotdot
      then (case stk of
              [] \<Rightarrow> if rooted then [] else [dotdot]
            | t # ts \<Rightarrow> if t = dotdot then dotdot # stk else ts)
      else c # stk)"

definition clean_comps :: "string \<Rightarrow> string list" where
  "clean_comps s = rev (foldl (clean_step (is_abs s)) [] (split_on CHR ''/'' s))"

definition path_clean :: "string \<Rightarrow> string" where
  "path_clean s =
     (let cs = clean_comps s
      in if is_abs s then CHR ''/'' # join ''/'' cs
         else if cs = [] then ''.'' else join ''/'' cs)"

fun path_join :: "string list \<Rightarrow> string" where
  "path_join [] = []"
| "path_join (e # es) = (if e \<noteq> [] then path_clean (join ''/'' (e # es)) else path_join es)"

definition path_dir :: "string \<Rightarrow> string" where
  "path_dir s = path_clean (rev (dropWhile (\<lambda>c. c \<noteq> CHR ''/'') (rev s)))"

definition path_base :: "string \<Rightarrow> string" where
  "path_base p = (if p = [] then ''.''
     else let q = rev (dropWhile (\<lambda>c. c = CHR ''/'') (rev p))
          in if q = [] then ''/'' else rev (takeWhile (\<lambda>c. c \<noteq> CHR ''/'') (rev q)))"

text \<open>The components of an already cleaned path, as the scanning loop of \<open>Rel\<close> sees them.\<close>

definition rel_comps :: "string \<Rightarrow> string list" where
  "rel_comps p = (if is_abs p then (if tl p = [] then [] else split_on CHR ''/'' (tl p))
                  else split_on CHR ''/'' p)"

fun strip_common :: "'a list \<Rightarrow> 'a list \<Rightarrow> 'a list \<times> 'a list" where
  "strip_common (x # xs) (y # ys) = (if x = y then strip_common xs ys else (x # xs, y # ys))"
| "strip_common xs ys = (xs, ys)"

definition path_rel :: "string \<Rightarrow> string \<Rightarrow> string option" where
  "path_rel basepath targpath =
     (let base = path_clean basepath; targ = path_clean targpath
      in if targ = base then Some ''.''
         else if is_abs base \<noteq> is_abs targ then None
         else case strip_common (if base = ''.'' then [] else rel_comps base) (rel_comps targ) of
           (b, t) \<Rightarrow>
             if b = [] then Some (join ''/'' t)
             else if t \<noteq> [] \<and> hd b = dotdot then None
             else Some (join ''/'' (replicate (length b) dotdot @ t)))"

text \<open>The containment test the sources write out around \<open>filepath.Rel\<close>.\<close>

definition within_lexical :: "string \<Rightarrow> string \<Rightarrow> bool" where
  "within_lexical base target =
     (case path_rel base target of
        None \<Rightarrow> False
      | Some rel \<Rightarrow> rel \<noteq> dotdot \<and> \<not> has_prefix rel (dotdot @ ''/''))"

subsection \<open>Cleaning\<close>

text \<open>What the stack of \<open>Clean\<close> looks like at any time: proper components without separator,
  with the parent components that cannot be resolved at the bottom of a relative path.\<close>

fun stack_ok :: "bool \<Rightarrow> string list \<Rightarrow> bool" where
  "stack_ok r [] = True"
| "stack_ok r (c # st) \<longleftrightarrow>
     c \<noteq> [] \<and> c \<noteq> ''.'' \<and> CHR ''/'' \<notin> set c
     \<and> (c = dotdot \<longrightarrow> \<not> r \<and> set st \<subseteq> {dotdot}) \<and> stack_ok r st"

lemma stack_ok_mem: "stack_ok r st \<Longrightarrow> c \<in> set st \<Longrightarrow> c \<noteq> [] \<and> c \<noteq> ''.'' \<and> CHR ''/'' \<notin> set c"
  by (induction st) auto

lemma stack_ok_rooted: "stack_ok True st \<Longrightarrow> dotdot \<notin> set st"
  by (induction st) auto

lemma stack_ok_dotdot_top: "stack_ok r (dotdot # st) \<Longrightarrow> set st \<subseteq> {dotdot} \<and> \<not> r"
  by simp

lemma dotdot_simps [simp]: "dotdot \<noteq> []" "dotdot \<noteq> ''.''" "CHR ''/'' \<notin> set dotdot"
  by (simp_all add: dotdot_def)

lemma stack_ok_step:
  "stack_ok r st \<Longrightarrow> CHR ''/'' \<notin> set c \<Longrightarrow> stack_ok r (clean_step r st c)"
  by (cases st) auto

lemma stack_ok_foldl:
  "stack_ok r st \<Longrightarrow> (\<forall>c \<in> set cs. CHR ''/'' \<notin> set c) \<Longrightarrow> stack_ok r (foldl (clean_step r) st cs)"
  by (induction cs arbitrary: st) (simp_all add: stack_ok_step del: clean_step.simps)

lemma stack_ok_clean_comps: "stack_ok (is_abs s) (rev (clean_comps s))"
  unfolding clean_comps_def rev_rev_ident
  by (rule stack_ok_foldl) (auto dest: split_on_no_sep)

lemma stack_ok_append: "stack_ok r (xs @ ys) \<Longrightarrow> stack_ok r ys"
  by (induction xs) auto

text \<open>On components that are already clean the stack machine only pushes.\<close>

lemma foldl_clean_fixed:
  "stack_ok r (rev cs @ st) \<Longrightarrow> foldl (clean_step r) st cs = rev cs @ st"
proof (induction cs arbitrary: st)
  case (Cons c cs)
  have ok: "stack_ok r (c # st)"
    using Cons.prems stack_ok_append [of r "rev cs" "c # st"] by simp
  have "clean_step r st c = c # st"
    using ok by (cases st) auto
  with Cons show ?case by simp
qed simp

lemma is_abs_Cons [simp]: "is_abs (c # s) \<longleftrightarrow> c = CHR ''/''" "\<not> is_abs []"
  by (simp_all add: is_abs_def)

lemma not_abs_comp: "c \<noteq> [] \<Longrightarrow> CHR ''/'' \<notin> set c \<Longrightarrow> \<not> is_abs (c @ s)"
  by (cases c) auto

lemma is_abs_path_clean [simp]: "is_abs (path_clean s) = is_abs s"
proof (cases "is_abs s")
  case False
  show ?thesis
  proof (cases "clean_comps s")
    case (Cons c cs)
    then have "c \<noteq> []" and "CHR ''/'' \<notin> set c"
      using stack_ok_mem [OF stack_ok_clean_comps [of s], of c] by auto
    then have "\<not> is_abs (join ''/'' (clean_comps s))"
      using not_abs_comp [of c] not_abs_comp [of c "[]"] Cons by (auto simp: join_Cons)
    with False Cons show ?thesis by (simp add: path_clean_def Let_def)
  qed (simp add: path_clean_def Let_def False)
qed (simp add: path_clean_def Let_def)

lemma clean_comps_no_sep: "\<forall>c \<in> set (clean_comps s). CHR ''/'' \<notin> set c"
  using stack_ok_mem [OF stack_ok_clean_comps [of s]] by auto

lemma split_path_clean_rel:
  "\<not> is_abs s \<Longrightarrow> clean_comps s \<noteq> [] \<Longrightarrow> split_on CHR ''/'' (path_clean s) = clean_comps s"
  using clean_comps_no_sep [of s] by (simp add: path_clean_def Let_def split_on_join)

lemma split_path_clean_abs:
  "is_abs s \<Longrightarrow> split_on CHR ''/'' (path_clean s)
      = [] # (if clean_comps s = [] then [[]] else clean_comps s)"
  using clean_comps_no_sep [of s] by (simp add: path_clean_def Let_def split_on_join)

lemma clean_comps_path_clean [simp]: "clean_comps (path_clean s) = clean_comps s"
proof -
  have fixed: "foldl (clean_step (is_abs s)) [] (clean_comps s) = rev (clean_comps s)"
    using foldl_clean_fixed [of "is_abs s" "clean_comps s" "[]"] stack_ok_clean_comps [of s] by simp
  show ?thesis
  proof (cases "is_abs s")
    case True
    then have "clean_comps (path_clean s)
               = rev (foldl (clean_step True) [] ([] # (if clean_comps s = [] then [[]] else clean_comps s)))"
      by (simp add: clean_comps_def [of "path_clean s"] split_path_clean_abs)
    with fixed True show ?thesis by auto
  next
    case False
    show ?thesis
    proof (cases "clean_comps s = []")
      case True
      then have "path_clean s = ''.''" using False by (simp add: path_clean_def)
      then show ?thesis using True by (simp add: clean_comps_def [of "''.''"])
    next
      case nonempty: False
      then show ?thesis using fixed False
        by (simp add: clean_comps_def [of "path_clean s"] split_path_clean_rel)
    qed
  qed
qed

lemma path_clean_eq_iff:
  "path_clean s = path_clean t \<longleftrightarrow> is_abs s = is_abs t \<and> clean_comps s = clean_comps t"
proof
  assume eq: "path_clean s = path_clean t"
  have "is_abs s = is_abs t" using eq is_abs_path_clean by metis
  moreover have "clean_comps s = clean_comps t" using eq clean_comps_path_clean by metis
  ultimately show "is_abs s = is_abs t \<and> clean_comps s = clean_comps t" ..
qed (simp add: path_clean_def)

lemma path_clean_idem [simp]: "path_clean (path_clean s) = path_clean s"
  by (simp add: path_clean_eq_iff)

lemma path_clean_not_Nil [simp]: "path_clean s \<noteq> []"
proof (cases "clean_comps s")
  case (Cons c cs)
  then have "c \<noteq> []" using stack_ok_mem [OF stack_ok_clean_comps [of s], of c] by auto
  with Cons show ?thesis by (simp add: path_clean_def Let_def join_Cons)
qed (simp add: path_clean_def Let_def)

lemma clean_comps_abs: "is_abs s \<Longrightarrow> c \<in> set (clean_comps s) \<Longrightarrow>
    c \<noteq> [] \<and> c \<noteq> ''.'' \<and> c \<noteq> dotdot \<and> CHR ''/'' \<notin> set c"
  using stack_ok_clean_comps [of s] stack_ok_mem [of "is_abs s" "rev (clean_comps s)" c]
    stack_ok_rooted [of "rev (clean_comps s)"] by auto

subsection \<open>Containment\<close>

lemma rel_comps_abs: "is_abs s \<Longrightarrow> rel_comps (path_clean s) = clean_comps s"
proof -
  assume abs: "is_abs s"
  have ne: "join ''/'' (clean_comps s) = [] \<longleftrightarrow> clean_comps s = []"
    using clean_comps_abs [OF abs] by (cases "clean_comps s") (auto simp: join_Cons)
  show ?thesis
    using abs ne clean_comps_no_sep [of s]
    by (auto simp: rel_comps_def path_clean_def Let_def split_on_join)
qed

lemma strip_common_Nil: "fst (strip_common xs ys) = [] \<longleftrightarrow> take (length xs) ys = xs"
  by (induction xs ys rule: strip_common.induct) auto

lemma strip_common_snd: "\<exists>zs. ys = zs @ snd (strip_common xs ys) \<and> xs = zs @ fst (strip_common xs ys)"
proof (induction xs ys rule: strip_common.induct)
  case (1 x xs y ys)
  then show ?case
  proof (cases "x = y")
    case True
    with 1 obtain zs where "ys = zs @ snd (strip_common xs ys) \<and> xs = zs @ fst (strip_common xs ys)"
      by blast
    with True show ?thesis by (intro exI [of _ "y # zs"]) simp
  qed simp
qed simp_all

lemma join_dotdot_prefix: "has_prefix (join ''/'' (dotdot # cs)) (dotdot @ ''/'') \<or> join ''/'' (dotdot # cs) = dotdot"
  by (cases cs) (simp_all add: has_prefix_iff)

lemma join_comp_prefix:
  assumes "CHR ''/'' \<notin> set c" and "c \<noteq> dotdot"
  shows "join ''/'' (c # cs) \<noteq> dotdot \<and> \<not> has_prefix (join ''/'' (c # cs)) (dotdot @ ''/'')"
proof -
  have "split_on CHR ''/'' (join ''/'' (c # cs)) = c # (if cs = [] then [] else split_on CHR ''/'' (join ''/'' cs))"
    using assms(1) by (auto simp: join_Cons split_on_append_sep split_on_single)
  then have hd: "hd (split_on CHR ''/'' (join ''/'' (c # cs))) = c" by simp
  have "hd (split_on CHR ''/'' (dotdot @ CHR ''/'' # r)) = dotdot" for r
    by (simp add: split_on_append_sep)
  moreover have "hd (split_on CHR ''/'' dotdot) = dotdot" by (simp add: split_on_single)
  ultimately show ?thesis using hd assms(2) by (auto simp: has_prefix_iff)
qed

text \<open>For an absolute root, the lexical test accepts exactly the paths whose cleaned components
  extend those of the root.\<close>

lemma within_lexical_iff:
  assumes root: "is_abs base"
  shows "within_lexical base target \<longleftrightarrow>
           is_abs target \<and> (\<exists>rest. clean_comps target = clean_comps base @ rest)"
proof (cases "is_abs target")
  case False
  with root have "path_clean target \<noteq> path_clean base" by (simp add: path_clean_eq_iff)
  with False root show ?thesis by (simp add: within_lexical_def path_rel_def)
next
  case abs: True
  show ?thesis
  proof (cases "path_clean target = path_clean base")
    case True
    with abs show ?thesis
      by (auto simp: within_lexical_def path_rel_def path_clean_eq_iff dotdot_def has_prefix_def)
  next
    case neq: False
    have nodot: "path_clean base \<noteq> ''.''" using root by (simp add: path_clean_def Let_def)
    obtain b t where bt: "strip_common (clean_comps base) (clean_comps target) = (b, t)" by fastforce
    have rel: "path_rel base target =
        (if b = [] then Some (join ''/'' t)
         else if t \<noteq> [] \<and> hd b = dotdot then None
         else Some (join ''/'' (replicate (length b) dotdot @ t)))"
      using neq nodot root abs bt by (simp add: path_rel_def Let_def rel_comps_abs)
    have pre: "b = [] \<longleftrightarrow> take (length (clean_comps base)) (clean_comps target) = clean_comps base"
      using strip_common_Nil [of "clean_comps base" "clean_comps target"] bt by simp
    obtain zs where zs: "clean_comps target = zs @ t" "clean_comps base = zs @ b"
      using strip_common_snd [of "clean_comps target" "clean_comps base"] bt by auto
    show ?thesis
    proof (cases "b = []")
      case True
      with zs neq root abs have "t \<noteq> []" by (auto simp: path_clean_eq_iff)
      then obtain c cs where t: "t = c # cs" by (cases t) auto
      with zs have "c \<in> set (clean_comps target)" by simp
      then have "CHR ''/'' \<notin> set c" "c \<noteq> dotdot" using clean_comps_abs [OF abs] by auto
      then have "within_lexical base target"
        using rel True t join_comp_prefix [of c cs] by (simp add: within_lexical_def)
      with True zs abs show ?thesis by auto
    next
      case False
      then obtain n where n: "length b = Suc n" by (cases b) auto
      have "\<not> within_lexical base target"
        using rel False n join_dotdot_prefix [of "replicate n dotdot @ t"]
        by (auto simp: within_lexical_def split: if_splits)
      with pre False show ?thesis by (auto simp: take_append)
    qed
  qed
qed

end
