(* ===== verification/Kernel_Args.thy ===== *)
theory Kernel_Args
  imports Types
begin

section \<open>Kernel command lines and bounded output (internal/api/vm_handlers.go)\<close>

text \<open>
  The pure helpers of the create and exec handlers: splitting a kernel command line into
  parameters while honouring double quotes, merging the managed network parameters into it, and
  bounding captured output. Splitting is byte-wise, which agrees with Go's rune-wise loop on valid
  UTF-8, because all the bytes it looks for are ASCII.
\<close>

subsection \<open>Splitting and merging\<close>

definition arg_space :: "char \<Rightarrow> bool" where
  "arg_space c \<longleftrightarrow> c \<in> {CHR 0x20, CHR 0x09, CHR 0x0A, CHR 0x0D}"

text \<open>The loop of \<open>splitKernelArgs\<close>: inside a quoted value or not, the parameter built so far,
  and whether one has been started.\<close>

fun split_args :: "bool \<Rightarrow> string \<Rightarrow> bool \<Rightarrow> string \<Rightarrow> string list" where
  "split_args inQuote cur started [] = (if started then [cur] else [])"
| "split_args inQuote cur started (r # s) =
     (if r = CHR 0x22 then split_args (\<not> inQuote) (cur @ [r]) True s
      else if \<not> inQuote \<and> arg_space r
      then (if started then cur # split_args inQuote [] False s
            else split_args inQuote cur started s)
      else split_args inQuote (cur @ [r]) True s)"

definition splitKernelArgs :: "string \<Rightarrow> string list" where
  "splitKernelArgs s = split_args False [] False s"

definition managedNetworkKernelArgKeys :: "string set" where
  "managedNetworkKernelArgKeys = {''ip'', ''net.ifnames'', ''biosdevname''}"

definition arg_key :: "string \<Rightarrow> string" where
  "arg_key tok = takeWhile (\<lambda>c. c \<noteq> CHR ''='') tok"

definition network_args :: "string \<Rightarrow> string \<Rightarrow> string" where
  "network_args ip gateway =
     ''ip='' @ ip @ ''::'' @ gateway @ '':255.255.255.0::eth0:off net.ifnames=0 biosdevname=0''"

definition composeNetworkKernelArgs :: "string \<Rightarrow> string \<Rightarrow> string \<Rightarrow> string" where
  "composeNetworkKernelArgs existing ip gateway =
     (let kept = filter (\<lambda>tok. arg_key tok \<notin> managedNetworkKernelArgKeys) (splitKernelArgs existing)
      in if kept = [] then network_args ip gateway
         else join '' '' kept @ '' '' @ network_args ip gateway)"

subsection \<open>Bounding captured output\<close>

definition trunc_suffix :: string where
  "trunc_suffix = [CHR 0xE2, CHR 0x80, CHR 0xA6] @ '' (truncated)''"

definition capString :: "string \<Rightarrow> nat \<Rightarrow> string" where
  "capString s mx =
     (if length s \<le> mx then s
      else if mx \<le> length trunc_suffix then take mx s
      else take (mx - length trunc_suffix) s @ trunc_suffix)"

definition truncateForError :: "string \<Rightarrow> string" where
  "truncateForError s = capString s 4096"

definition capExecOutput :: "string \<Rightarrow> string" where
  "capExecOutput s = capString s 1048576"

definition normalizeExecCommand :: "string list \<Rightarrow> string list" where
  "normalizeExecCommand command =
     (case command of
        [] \<Rightarrow> []
      | c # _ \<Rightarrow> if trim_space c = [] then [] else command)"

subsection \<open>Quotes\<close>

text \<open>Scanning a parameter: \<open>None\<close> when a blank occurs outside quotes, otherwise whether the scan
  ends inside a quoted value.\<close>

fun quote_scan :: "bool \<Rightarrow> string \<Rightarrow> bool option" where
  "quote_scan q [] = Some q"
| "quote_scan q (c # s) =
     (if c = CHR 0x22 then quote_scan (\<not> q) s
      else if \<not> q \<and> arg_space c then None else quote_scan q s)"

definition balanced_quotes :: "string \<Rightarrow> bool" where
  "balanced_quotes s \<longleftrightarrow> even (count_list s (CHR 0x22))"

definition whole_arg :: "string \<Rightarrow> bool" where
  "whole_arg t \<longleftrightarrow> t \<noteq> [] \<and> quote_scan False t = Some False"

lemma quote_scan_append:
  "quote_scan q (s @ t) = (case quote_scan q s of None \<Rightarrow> None | Some q' \<Rightarrow> quote_scan q' t)"
  by (induction s arbitrary: q) auto

lemma split_args_scan:
  "quote_scan q t = Some q' \<Longrightarrow>
   split_args q cur st (t @ s) = split_args q' (cur @ t) (st \<or> t \<noteq> []) s"
  by (induction t arbitrary: q cur st) (auto split: if_splits)

lemma split_whole_arg:
  "whole_arg t \<Longrightarrow> split_args False [] False (t @ s) = split_args False t True s"
  using split_args_scan [of False t False "[]" False s] by (simp add: whole_arg_def)

lemma split_join_whole:
  "list_all whole_arg ts \<Longrightarrow> splitKernelArgs (join '' '' ts) = ts"
proof (induction ts)
  case (Cons t ts)
  then have t: "split_args False [] False (t @ s) = split_args False t True s" for s
    by (simp add: split_whole_arg)
  show ?case
  proof (cases ts)
    case Nil
    then show ?thesis using t [of "[]"] by (simp add: splitKernelArgs_def)
  next
    case (Cons u us)
    with \<open>list_all whole_arg (t # ts)\<close> Cons.IH t [of "'' '' @ join '' '' ts"] show ?thesis
      by (simp add: splitKernelArgs_def arg_space_def)
  qed
qed (simp add: splitKernelArgs_def)

lemma split_args_whole:
  "quote_scan False cur = Some q \<Longrightarrow> st = (cur \<noteq> []) \<Longrightarrow> even (count_list s (CHR 0x22)) = (\<not> q) \<Longrightarrow>
   list_all whole_arg (split_args q cur st s)"
proof (induction q cur st s rule: split_args.induct)
  case (1 q cur st)
  then show ?case by (auto simp: whole_arg_def)
next
  case (2 q cur st r s)
  show ?case
  proof (cases "r = CHR 0x22")
    case True
    with 2 show ?thesis by (simp add: quote_scan_append)
  next
    case quote: False
    show ?thesis
    proof (cases "\<not> q \<and> arg_space r")
      case True
      with 2 quote show ?thesis by (cases st) (auto simp: whole_arg_def)
    next
      case False
      with 2 quote show ?thesis by (auto simp: quote_scan_append)
    qed
  qed
qed

lemma split_whole: "balanced_quotes s \<Longrightarrow> list_all whole_arg (splitKernelArgs s)"
  unfolding splitKernelArgs_def balanced_quotes_def by (rule split_args_whole) simp_all

text \<open>A word contains no blank and no quote: addresses are words.\<close>

definition word :: "string \<Rightarrow> bool" where
  "word t \<longleftrightarrow> (\<forall>c \<in> set t. \<not> arg_space c \<and> c \<noteq> CHR 0x22)"

lemma word_scan: "word t \<Longrightarrow> quote_scan False t = Some False"
  by (induction t) (auto simp: word_def)

lemma word_append [simp]: "word (s @ t) \<longleftrightarrow> word s \<and> word t"
  by (auto simp: word_def)

definition network_tokens :: "string \<Rightarrow> string \<Rightarrow> string list" where
  "network_tokens ip gateway =
     [''ip='' @ ip @ ''::'' @ gateway @ '':255.255.255.0::eth0:off'', ''net.ifnames=0'', ''biosdevname=0'']"

lemma network_args_join: "network_args ip gateway = join '' '' (network_tokens ip gateway)"
  by (simp add: network_args_def network_tokens_def)

lemma network_tokens_whole:
  "word ip \<Longrightarrow> word gateway \<Longrightarrow> list_all whole_arg (network_tokens ip gateway)"
proof -
  assume "word ip" "word gateway"
  then have "list_all word (network_tokens ip gateway)"
    by (auto simp: network_tokens_def word_def arg_space_def)
  then show ?thesis
    by (simp add: network_tokens_def) (simp add: whole_arg_def word_scan del: quote_scan.simps)
qed

lemma network_tokens_managed: "tok \<in> set (network_tokens ip gw) \<Longrightarrow> arg_key tok \<in> managedNetworkKernelArgKeys"
  by (auto simp: network_tokens_def arg_key_def managedNetworkKernelArgKeys_def)

abbreviation unmanaged :: "string \<Rightarrow> bool" where
  "unmanaged tok \<equiv> arg_key tok \<notin> managedNetworkKernelArgKeys"

lemma compose_join:
  "composeNetworkKernelArgs e ip gw =
     join '' '' (filter unmanaged (splitKernelArgs e) @ network_tokens ip gw)"
  by (simp add: composeNetworkKernelArgs_def Let_def network_args_join join_append network_tokens_def)

lemma split_compose:
  assumes "balanced_quotes e" and "word ip" and "word gw"
  shows "splitKernelArgs (composeNetworkKernelArgs e ip gw)
         = filter unmanaged (splitKernelArgs e) @ network_tokens ip gw"
proof -
  have "list_all whole_arg (filter unmanaged (splitKernelArgs e) @ network_tokens ip gw)"
    using split_whole [OF assms(1)] network_tokens_whole [OF assms(2,3)]
    by (auto simp: list_all_iff)
  then show ?thesis unfolding compose_join by (rule split_join_whole)
qed

subsection \<open>Correctness\<close>

text \<open>On a command line with balanced quotes, the composed line splits into exactly the caller's
  own parameters (managed keys removed, order and quoting kept) followed by the three managed
  ones, each once.\<close>

theorem composeNetworkKernelArgs_tokens:
  assumes "balanced_quotes e" and "word ip" and "word gw"
  shows "splitKernelArgs (composeNetworkKernelArgs e ip gw)
           = filter unmanaged (splitKernelArgs e)
             @ [''ip='' @ ip @ ''::'' @ gw @ '':255.255.255.0::eth0:off'', ''net.ifnames=0'', ''biosdevname=0'']
         \<and> length (filter (\<lambda>t. \<not> unmanaged t) (splitKernelArgs (composeNetworkKernelArgs e ip gw))) = 3"
proof -
  have "filter (\<lambda>t. \<not> unmanaged t) (network_tokens ip gw) = network_tokens ip gw"
    by (simp add: network_tokens_managed)
  then show ?thesis
    by (simp add: split_compose [OF assms]) (simp add: network_tokens_def)
qed

theorem composeNetworkKernelArgs_tokens_witness:
  "splitKernelArgs (composeNetworkKernelArgs ''root=/dev/vda ip=dhcp'' ''172.16.0.10'' ''172.16.0.1'')
     = [''root=/dev/vda'', ''ip=172.16.0.10::172.16.0.1:255.255.255.0::eth0:off'', ''net.ifnames=0'', ''biosdevname=0'']"
proof -
  have h: "balanced_quotes ''root=/dev/vda ip=dhcp''" "word ''172.16.0.10''" "word ''172.16.0.1''"
    by (simp_all add: balanced_quotes_def word_def arg_space_def)
  have f: "filter unmanaged (splitKernelArgs ''root=/dev/vda ip=dhcp'') = [''root=/dev/vda'']"
    by (simp add: splitKernelArgs_def arg_space_def arg_key_def managedNetworkKernelArgKeys_def)
  show ?thesis using composeNetworkKernelArgs_tokens [OF h] unfolding f by simp
qed

text \<open>Setting networking up again replaces the earlier addresses: composing twice is composing
  once with the later values.\<close>

lemma composeNetworkKernelArgs_again:
  assumes "balanced_quotes e" and "word ip" and "word gw"
  shows "composeNetworkKernelArgs (composeNetworkKernelArgs e ip gw) ip' gw'
         = composeNetworkKernelArgs e ip' gw'"
proof -
  have "filter unmanaged (network_tokens ip gw) = []"
    by (simp add: filter_empty_conv network_tokens_managed)
  then show ?thesis
    unfolding compose_join [of "composeNetworkKernelArgs e ip gw"] split_compose [OF assms]
    by (simp add: compose_join)
qed

text \<open>With an unbalanced quote in the caller's arguments the merge is defeated: the managed
  parameters end up inside the open quoted value, so the composed line has no \<open>ip=\<close> parameter at
  all, and composing again does not strip the earlier text.\<close>

lemma composeNetworkKernelArgs_unbalanced:
  "\<exists>e. let once = composeNetworkKernelArgs e ''172.16.0.10'' ''172.16.0.1''
       in filter (\<lambda>t. \<not> unmanaged t) (splitKernelArgs once) = []
          \<and> composeNetworkKernelArgs once ''172.16.0.10'' ''172.16.0.1'' \<noteq> once"
proof -
  let ?e = "''a='' @ [CHR 0x22] @ ''b''"
  let ?once = "composeNetworkKernelArgs ?e ''172.16.0.10'' ''172.16.0.1''"
  have a: "filter (\<lambda>t. \<not> unmanaged t) (splitKernelArgs ?once) = []" by code_simp
  have b: "composeNetworkKernelArgs ?once ''172.16.0.10'' ''172.16.0.1'' \<noteq> ?once" by code_simp
  from a b show ?thesis unfolding Let_def by blast
qed

text \<open>Captured output is bounded: the result never exceeds the limit, is the input itself when
  that fits, and otherwise is a prefix of the input followed by the truncation mark.\<close>

lemma capString_bounded:
  "length (capString s mx) \<le> mx
   \<and> (length s \<le> mx \<longrightarrow> capString s mx = s)
   \<and> (\<exists>n. capString s mx = take n s \<or> capString s mx = take n s @ trunc_suffix)"
proof -
  have "\<exists>n. capString s mx = take n s \<or> capString s mx = take n s @ trunc_suffix"
  proof (cases "length s \<le> mx")
    case True
    then have "capString s mx = take (length s) s" by (simp add: capString_def)
    then show ?thesis by blast
  next
    case False
    then show ?thesis by (auto simp: capString_def)
  qed
  then show ?thesis by (auto simp: capString_def)
qed

end
