(* ===== verification/Mount_Secret.thy ===== *)
theory Mount_Secret
  imports Types Go_Path
begin

section \<open>Mount and secret declarations (internal/types/mount_secret.go)\<close>

text \<open>
  Both functions run once over the operator's list, normalise each entry, check it and remember
  what they have seen. The models keep the loop, the order of the checks and the index reported
  with each error. The theorems compare them with declarative references: a per-entry validity
  predicate, a per-entry normal form, and distinctness of the normalised targets or names.
\<close>

definition MountTypeBind :: string where "MountTypeBind = ''bind''"
definition MountTypeVolume :: string where "MountTypeVolume = ''volume''"
definition MountTypeTmpfs :: string where "MountTypeTmpfs = ''tmpfs''"
definition SecretTypeEnv :: string where "SecretTypeEnv = ''env''"
definition SecretTypeFile :: string where "SecretTypeFile = ''file''"

lemmas mount_type_defs = MountTypeBind_def MountTypeVolume_def MountTypeTmpfs_def
lemmas secret_type_defs = SecretTypeEnv_def SecretTypeFile_def

subsection \<open>The loops\<close>

datatype mount_error =
    MountUnsupportedType nat string
  | MountTargetRequired nat
  | MountTargetNotAbsolute nat string
  | MountDuplicateTarget nat string
  | MountSourceRequired nat string
  | MountTmpfsSource nat

definition mount_entry :: "nat \<Rightarrow> string list \<Rightarrow> Mount \<Rightarrow> mount_error + Mount" where
  "mount_entry i seen m0 =
     (let src = trim_space (mnt_Source m0);
          trg = trim_space (mnt_Target m0);
          ty0 = to_lower (trim_space (mnt_Type m0));
          ty = (if ty0 = [] then MountTypeBind else ty0)
      in if ty \<notin> {MountTypeBind, MountTypeVolume, MountTypeTmpfs} then Inl (MountUnsupportedType i ty)
         else if trg = [] then Inl (MountTargetRequired i)
         else if \<not> has_prefix trg ''/'' then Inl (MountTargetNotAbsolute i trg)
         else let trg' = path_clean trg
              in if trg' \<in> set seen then Inl (MountDuplicateTarget i trg')
                 else if ty \<in> {MountTypeBind, MountTypeVolume} \<and> src = [] then Inl (MountSourceRequired i ty)
                 else if ty = MountTypeTmpfs \<and> src \<noteq> [] then Inl (MountTmpfsSource i)
                 else Inr (m0\<lparr>mnt_Source := src, mnt_Target := trg', mnt_Type := ty\<rparr>))"

fun mount_loop :: "nat \<Rightarrow> string list \<Rightarrow> Mount list \<Rightarrow> mount_error + Mount list" where
  "mount_loop i seen [] = Inr []"
| "mount_loop i seen (m # ms) =
     (case mount_entry i seen m of
        Inl e \<Rightarrow> Inl e
      | Inr m' \<Rightarrow>
          (case mount_loop (Suc i) (mnt_Target m' # seen) ms of
             Inl e \<Rightarrow> Inl e
           | Inr out \<Rightarrow> Inr (m' # out)))"

definition NormalizeAndValidateMounts :: "Mount list \<Rightarrow> mount_error + Mount list" where
  "NormalizeAndValidateMounts mounts = (if mounts = [] then Inr [] else mount_loop 0 [] mounts)"

datatype secret_error =
    SecretNameRequired nat
  | SecretSourceRequired nat
  | SecretDuplicateName nat string
  | SecretFileTargetRequired nat string
  | SecretFileTargetNotAbsolute nat string
  | SecretUnsupportedType nat string

definition secret_entry :: "nat \<Rightarrow> string list \<Rightarrow> SecretRef \<Rightarrow> secret_error + SecretRef" where
  "secret_entry i seen s0 =
     (let nm = trim_space (sec_Name s0);
          src = trim_space (sec_Source s0);
          ty0 = to_lower (trim_space (sec_Type s0));
          trg = trim_space (sec_Target s0);
          ty = (if ty0 = [] then SecretTypeEnv else ty0);
          s1 = s0\<lparr>sec_Name := nm, sec_Source := src, sec_Type := ty, sec_Target := trg\<rparr>
      in if nm = [] then Inl (SecretNameRequired i)
         else if src = [] then Inl (SecretSourceRequired i)
         else if nm \<in> set seen then Inl (SecretDuplicateName i nm)
         else if ty = SecretTypeEnv then Inr (if trg = [] then s1\<lparr>sec_Target := nm\<rparr> else s1)
         else if ty = SecretTypeFile then
           (if trg = [] then Inl (SecretFileTargetRequired i nm)
            else if \<not> has_prefix trg ''/'' then Inl (SecretFileTargetNotAbsolute i trg)
            else Inr (s1\<lparr>sec_Target := path_clean trg\<rparr>))
         else Inl (SecretUnsupportedType i ty))"

fun secret_loop :: "nat \<Rightarrow> string list \<Rightarrow> SecretRef list \<Rightarrow> secret_error + SecretRef list" where
  "secret_loop i seen [] = Inr []"
| "secret_loop i seen (s # ss) =
     (case secret_entry i seen s of
        Inl e \<Rightarrow> Inl e
      | Inr s' \<Rightarrow>
          (case secret_loop (Suc i) (sec_Name s' # seen) ss of
             Inl e \<Rightarrow> Inl e
           | Inr out \<Rightarrow> Inr (s' # out)))"

definition NormalizeAndValidateSecrets :: "SecretRef list \<Rightarrow> secret_error + SecretRef list" where
  "NormalizeAndValidateSecrets secrets = (if secrets = [] then Inr [] else secret_loop 0 [] secrets)"

subsection \<open>The reference for mounts\<close>

definition mount_kind :: "Mount \<Rightarrow> string" where
  "mount_kind m = (let t = to_lower (trim_space (mnt_Type m)) in if t = [] then MountTypeBind else t)"

definition mount_point :: "Mount \<Rightarrow> string" where
  "mount_point m = path_clean (trim_space (mnt_Target m))"

definition normal_mount :: "Mount \<Rightarrow> Mount" where
  "normal_mount m = m\<lparr>mnt_Source := trim_space (mnt_Source m), mnt_Target := mount_point m,
                      mnt_Type := mount_kind m\<rparr>"

definition valid_mount :: "Mount \<Rightarrow> bool" where
  "valid_mount m \<longleftrightarrow>
     is_abs (trim_space (mnt_Target m))
     \<and> (mount_kind m \<in> {MountTypeBind, MountTypeVolume} \<and> trim_space (mnt_Source m) \<noteq> []
        \<or> mount_kind m = MountTypeTmpfs \<and> trim_space (mnt_Source m) = [])"

definition mount_in_normal_form :: "Mount \<Rightarrow> bool" where
  "mount_in_normal_form m \<longleftrightarrow>
     is_abs (mnt_Target m) \<and> path_clean (mnt_Target m) = mnt_Target m
     \<and> dotdot \<notin> set (clean_comps (mnt_Target m))
     \<and> mnt_Type m \<in> {MountTypeBind, MountTypeVolume, MountTypeTmpfs}
     \<and> (mnt_Source m = [] \<longleftrightarrow> mnt_Type m = MountTypeTmpfs)"

lemma normal_mount_normal: "valid_mount m \<Longrightarrow> mount_in_normal_form (normal_mount m)"
  using clean_comps_abs [of "trim_space (mnt_Target m)" dotdot]
  by (auto simp: mount_in_normal_form_def normal_mount_def mount_point_def valid_mount_def
      mount_type_defs)

lemma mount_entry_cases:
  "(valid_mount m \<and> mount_point m \<notin> set seen \<longrightarrow> mount_entry i seen m = Inr (normal_mount m))
   \<and> (\<not> (valid_mount m \<and> mount_point m \<notin> set seen) \<longrightarrow> (\<exists>e. mount_entry i seen m = Inl e))"
  by (auto simp: mount_entry_def valid_mount_def normal_mount_def mount_point_def mount_kind_def
      Let_def is_abs_def mount_type_defs)

lemma mount_loop_spec:
  "(list_all valid_mount ms \<and> distinct (map mount_point ms) \<and> set (map mount_point ms) \<inter> set seen = {}
      \<longrightarrow> mount_loop i seen ms = Inr (map normal_mount ms))
   \<and> (\<not> (list_all valid_mount ms \<and> distinct (map mount_point ms) \<and> set (map mount_point ms) \<inter> set seen = {})
      \<longrightarrow> (\<exists>e. mount_loop i seen ms = Inl e))"
proof (induction ms arbitrary: i seen)
  case (Cons m ms)
  note entry = mount_entry_cases [of m seen i]
  have pt: "mnt_Target (normal_mount m) = mount_point m" by (simp add: normal_mount_def)
  show ?case
  proof (cases "valid_mount m \<and> mount_point m \<notin> set seen")
    case True
    with entry pt have step: "mount_loop i seen (m # ms) =
        (case mount_loop (Suc i) (mount_point m # seen) ms of Inl e \<Rightarrow> Inl e
         | Inr out \<Rightarrow> Inr (normal_mount m # out))"
      by simp
    from Cons.IH [of "mount_point m # seen" "Suc i"] True show ?thesis
      unfolding step by auto
  next
    case False
    with entry obtain e where "mount_entry i seen m = Inl e" by blast
    with False show ?thesis by auto
  qed
qed simp

subsection \<open>The reference for secrets\<close>

definition secret_kind :: "SecretRef \<Rightarrow> string" where
  "secret_kind s = (let t = to_lower (trim_space (sec_Type s)) in if t = [] then SecretTypeEnv else t)"

definition secret_name :: "SecretRef \<Rightarrow> string" where
  "secret_name s = trim_space (sec_Name s)"

definition normal_secret :: "SecretRef \<Rightarrow> SecretRef" where
  "normal_secret s =
     (let trg = trim_space (sec_Target s)
      in s\<lparr>sec_Name := secret_name s, sec_Source := trim_space (sec_Source s),
           sec_Type := secret_kind s,
           sec_Target := (if secret_kind s = SecretTypeFile then path_clean trg
                          else if trg = [] then secret_name s else trg)\<rparr>)"

definition valid_secret :: "SecretRef \<Rightarrow> bool" where
  "valid_secret s \<longleftrightarrow>
     secret_name s \<noteq> [] \<and> trim_space (sec_Source s) \<noteq> []
     \<and> (secret_kind s = SecretTypeEnv
        \<or> secret_kind s = SecretTypeFile \<and> is_abs (trim_space (sec_Target s)))"

lemma secret_entry_cases:
  "(valid_secret s \<and> secret_name s \<notin> set seen \<longrightarrow> secret_entry i seen s = Inr (normal_secret s))
   \<and> (\<not> (valid_secret s \<and> secret_name s \<notin> set seen) \<longrightarrow> (\<exists>e. secret_entry i seen s = Inl e))"
  by (auto simp: secret_entry_def valid_secret_def normal_secret_def secret_name_def secret_kind_def
      Let_def is_abs_def secret_type_defs)

lemma secret_loop_spec:
  "(list_all valid_secret ss \<and> distinct (map secret_name ss) \<and> set (map secret_name ss) \<inter> set seen = {}
      \<longrightarrow> secret_loop i seen ss = Inr (map normal_secret ss))
   \<and> (\<not> (list_all valid_secret ss \<and> distinct (map secret_name ss) \<and> set (map secret_name ss) \<inter> set seen = {})
      \<longrightarrow> (\<exists>e. secret_loop i seen ss = Inl e))"
proof (induction ss arbitrary: i seen)
  case (Cons s ss)
  note entry = secret_entry_cases [of s seen i]
  have nm: "sec_Name (normal_secret s) = secret_name s" by (simp add: normal_secret_def Let_def)
  show ?case
  proof (cases "valid_secret s \<and> secret_name s \<notin> set seen")
    case True
    with entry nm have step: "secret_loop i seen (s # ss) =
        (case secret_loop (Suc i) (secret_name s # seen) ss of Inl e \<Rightarrow> Inl e
         | Inr out \<Rightarrow> Inr (normal_secret s # out))"
      by simp
    from Cons.IH [of "secret_name s # seen" "Suc i"] True show ?thesis
      unfolding step by auto
  next
    case False
    with entry obtain e where "secret_entry i seen s = Inl e" by blast
    with False show ?thesis by auto
  qed
qed simp

subsection \<open>Correctness\<close>

text \<open>The mount check decides exactly this: every entry is valid on its own (an absolute
  target; a source for bind and volume, none for tmpfs; a known or empty type) and the cleaned
  targets are pairwise different. When it succeeds the result is the entry-wise normal form.\<close>

theorem NormalizeAndValidateMounts_spec:
  "if list_all valid_mount ms \<and> distinct (map mount_point ms)
   then NormalizeAndValidateMounts ms = Inr (map normal_mount ms)
   else (\<exists>e. NormalizeAndValidateMounts ms = Inl e)"
  using mount_loop_spec [of ms "[]" 0] by (auto simp: NormalizeAndValidateMounts_def)

text \<open>What a client of accepted mounts may rely on: targets are absolute, free of dot
  components and duplicates, and the type is one of the three with a source exactly when needed.\<close>

lemma NormalizeAndValidateMounts_sound:
  assumes "NormalizeAndValidateMounts ms = Inr out"
  shows "length out = length ms \<and> distinct (map mnt_Target out) \<and> list_all mount_in_normal_form out"
proof -
  have ok: "list_all valid_mount ms" "distinct (map mount_point ms)" "out = map normal_mount ms"
    using mount_loop_spec [of ms "[]" 0] assms
    by (auto simp: NormalizeAndValidateMounts_def split: if_splits)
  have targets: "map mnt_Target out = map mount_point ms"
    by (simp add: ok(3) normal_mount_def)
  have "distinct (map mnt_Target out)" unfolding targets by (rule ok(2))
  then show ?thesis using ok by (simp add: list_all_iff normal_mount_normal)
qed

text \<open>The secret check decides exactly this: every reference has a name and a source, is of
  type env, or of type file with an absolute target, and the trimmed names are pairwise different;
  the result is the entry-wise normal form, where an env target defaults to the name.\<close>

lemma NormalizeAndValidateSecrets_spec:
  "if list_all valid_secret ss \<and> distinct (map secret_name ss)
   then NormalizeAndValidateSecrets ss = Inr (map normal_secret ss)
   else (\<exists>e. NormalizeAndValidateSecrets ss = Inl e)"
  using secret_loop_spec [of ss "[]" 0] by (auto simp: NormalizeAndValidateSecrets_def)

end
