(* ===== verification/Server_Env.thy ===== *)
theory Server_Env
  imports Storage_DB Config Host_Net Go_Path Kernel_Args Mount_Secret
begin

section \<open>What the API server is connected to\<close>

text \<open>
  The server of \<open>internal/api\<close> works on the database, the address manager and four kinds of
  collaborators: the operating system (files, commands, clock, randomness), the runtime manager
  behind the Go interface \<open>vmm.Manager\<close>, the optional SPIRE registrar, and its configuration. The
  operating system and the two interfaces are tables of computations over an arbitrary state
  \<open>'h\<close>: whatever a theorem says of a handler holds for every behaviour of theirs. An error of
  Go's is \<open>False\<close>, \<open>None\<close> or a value of \<open>mgr_error\<close> where the handler distinguishes errors.
\<close>

subsection \<open>The operating system\<close>

datatype FileStat = StatNotExist | StatError | StatOK bool int

record 'h env = "'h sql_env" +
  env_goos :: string
  env_xrun :: "'h xrunner"
  env_sha256_hex :: "string \<Rightarrow> string"
  env_uuid :: "('h, string) comp"
  env_rand3 :: "('h, (8 word \<times> 8 word \<times> 8 word) option) comp"
  env_listen :: "string \<Rightarrow> ('h, int option) comp"
  env_time_format :: "timestamp \<Rightarrow> string"
  os_Stat :: "string \<Rightarrow> ('h, FileStat) comp"
  os_Lstat :: "string \<Rightarrow> ('h, FileStat) comp"
  os_EvalSymlinks :: "string \<Rightarrow> ('h, bool + string) comp"
  os_Abs :: "string \<Rightarrow> ('h, string option) comp"
  os_Open :: "string \<Rightarrow> ('h, bool) comp"
  os_MkdirAll :: "string \<Rightarrow> ('h, bool) comp"
  os_CreateTemp :: "string \<Rightarrow> string \<Rightarrow> ('h, string option) comp"
  os_Copy :: "string \<Rightarrow> string \<Rightarrow> ('h, bool) comp"
  os_Chmod :: "string \<Rightarrow> ('h, bool) comp"
  os_Sync :: "string \<Rightarrow> ('h, bool) comp"
  os_Close :: "string \<Rightarrow> ('h, bool) comp"
  os_Rename :: "string \<Rightarrow> string \<Rightarrow> ('h, bool) comp"
  os_Remove :: "string \<Rightarrow> ('h, bool) comp"
  os_RemoveAll :: "string \<Rightarrow> ('h, bool) comp"

abbreviation env_run :: "('h, 'z) env_scheme \<Rightarrow> 'h runner" where
  "env_run E \<equiv> quiet (env_xrun E)"

text \<open>\<open>os_EvalSymlinks\<close> returns \<open>Inr\<close> a path, or \<open>Inl\<close> whether the error is \<open>os.IsNotExist\<close>.\<close>

subsection \<open>The runtime manager (internal/vmm)\<close>

datatype mgr_error = ErrUnsupportedOperation | DeadlineExceeded | MgrFailure

text \<open>The methods receive a pointer to the machine and may change it (they fill in or clear its
  runtime record), so each returns the machine too. \<open>ImageProvider\<close> and \<open>CommandExecutor\<close> are
  optional interfaces.\<close>

record 'h Manager =
  mg_Start :: "VM \<Rightarrow> Image \<Rightarrow> ('h, mgr_error option \<times> VM) comp"
  mg_Stop :: "VM \<Rightarrow> int \<Rightarrow> ('h, mgr_error option \<times> VM) comp"
  mg_Kill :: "VM \<Rightarrow> ('h, mgr_error option \<times> VM) comp"
  mg_Delete :: "VM \<Rightarrow> ('h, mgr_error option \<times> VM) comp"
  mg_Pause :: "VM \<Rightarrow> ('h, mgr_error option \<times> VM) comp"
  mg_Resume :: "VM \<Rightarrow> ('h, mgr_error option \<times> VM) comp"
  mg_CreateSnapshot :: "VM \<Rightarrow> string \<Rightarrow> string \<Rightarrow> ('h, mgr_error option \<times> VM) comp"
  mg_LoadSnapshot :: "VM \<Rightarrow> string \<Rightarrow> string \<Rightarrow> ('h, mgr_error option \<times> VM) comp"
  mg_GetConsoleLogs :: "VM \<Rightarrow> int \<Rightarrow> ('h, string option) comp"
  mg_CleanupNetwork :: "VM \<Rightarrow> ('h, bool) comp"
  mg_ResolveImage :: "(string \<Rightarrow> ('h, Image option option) comp) option"
  mg_ListImages :: "('h, Image list option) comp option"
  mg_Exec :: "(VM \<Rightarrow> string list \<Rightarrow> int \<Rightarrow> ('h, mgr_error option \<times> VMExecResult option) comp) option"

text \<open>Only the runtime record of the machine is under the control of the manager.\<close>

definition set_runtime :: "VM \<Rightarrow> VM \<Rightarrow> VM" where
  "set_runtime vm vm' = vm\<lparr>vm_Runtime := vm_Runtime vm'\<rparr>"

definition call_mgr :: "('h, mgr_error option \<times> VM) comp \<Rightarrow> VM \<Rightarrow> ('h world, mgr_error option \<times> VM) comp" where
  "call_mgr m vm = do {
     r \<leftarrow> on_host m;
     State_Monad.return (fst r, set_runtime vm (snd r))
   }"

subsection \<open>The SPIRE registrar\<close>

record 'h spireRegistrar =
  sr_IsEnabled :: bool
  sr_ValidateIdentityParams :: "string \<Rightarrow> string \<Rightarrow> bool"
  sr_CreateVMWorkloadEntry :: "string \<Rightarrow> string \<Rightarrow> string \<Rightarrow> ('h, string option) comp"
  sr_DeleteVMWorkloadEntry :: "string \<Rightarrow> ('h, bool) comp"

record 'h Server =
  s_config :: Config
  s_env :: "'h env"
  s_runtimeManager :: "'h Manager"
  s_spireService :: "'h spireRegistrar option"

definition writeRuntimeUnsupportedError :: "mgr_error \<Rightarrow> Response option" where
  "writeRuntimeUnsupportedError e =
     (if e \<noteq> ErrUnsupportedOperation then None else Some (WriteError 501 Types.ErrUnsupportedOperation))"

abbreviation data_dir :: "'h Server \<Rightarrow> string" where
  "data_dir S \<equiv> st_DataDir (cf_Storage (s_config S))"

definition is_firecracker :: "'h Server \<Rightarrow> bool" where
  "is_firecracker S \<longleftrightarrow> selectedRuntimeDriver (env_goos (s_env S)) (s_config S) = ''firecracker''"

subsection \<open>Rules\<close>

lemma set_runtime_simps [simp]:
  "vm_ID (set_runtime vm vm') = vm_ID vm" "vm_Config (set_runtime vm vm') = vm_Config vm"
  "vm_State (set_runtime vm vm') = vm_State vm" "vm_Name (set_runtime vm vm') = vm_Name vm"
  by (simp_all add: set_runtime_def)

lemma wp_call_mgrI:
  assumes "\<And>e rt h. Q (e, vm\<lparr>vm_Runtime := rt\<rparr>) (w\<lparr>w_host := h\<rparr>)"
  shows "wp (call_mgr m vm) Q w"
  unfolding call_mgr_def wp_bind by (rule wp_hostI) (simp add: set_runtime_def assms)

lemma pres_call_mgr [pres_intros]:
  "(\<And>h w. I w \<Longrightarrow> I (w\<lparr>w_host := h\<rparr>)) \<Longrightarrow> pres I (call_mgr m vm)"
  unfolding pres_iff_wp by (blast intro: wp_call_mgrI)

end
