(* ===== verification/VM_Create.thy ===== *)
theory VM_Create
  imports Server_Env
begin

section \<open>Creating a machine (internal/api/vm_handlers.go)\<close>

text \<open>
  The helpers of the create handler in the order of the source, then \<open>handleCreateVM\<close>. A helper
  that writes a response itself returns \<open>Inl\<close> that response. The body of the request is \<open>None\<close>
  when it does not parse.
\<close>

subsection \<open>Image resolution\<close>

datatype resolve_error = ImageNotFound | ResolveFailure

definition validateAndResolveImage :: "'h Server \<Rightarrow> string \<Rightarrow> ('h world, resolve_error + Image) comp" where
  "validateAndResolveImage S imageRef = do {
     found \<leftarrow> (if has_prefix imageRef ''sha256:'' then GetImage (s_env S) imageRef
              else GetImageByTag (s_env S) imageRef);
     case found of
       None \<Rightarrow> State_Monad.return (Inl ResolveFailure)
     | Some (Some img) \<Rightarrow> State_Monad.return (Inr img)
     | Some None \<Rightarrow>
         (case mg_ResolveImage (s_runtimeManager S) of
            None \<Rightarrow> State_Monad.return (Inl ImageNotFound)
          | Some resolve \<Rightarrow> do {
              r \<leftarrow> on_host (resolve imageRef);
              case r of
                None \<Rightarrow> State_Monad.return (Inl ResolveFailure)
              | Some None \<Rightarrow> State_Monad.return (Inl ImageNotFound)
              | Some (Some img) \<Rightarrow> do {
                  ok \<leftarrow> UpsertImage (s_env S) img;
                  State_Monad.return (if ok then Inr img else Inl ResolveFailure) }})
   }"

definition resolveImageForCreate :: "'h Server \<Rightarrow> string \<Rightarrow> ('h world, Response + Image) comp" where
  "resolveImageForCreate S imageRef = do {
     r \<leftarrow> validateAndResolveImage S imageRef;
     State_Monad.return (case r of
       Inr img \<Rightarrow> Inr img
     | Inl ImageNotFound \<Rightarrow> Inl (WriteError 404 ErrImageNotFound)
     | Inl ResolveFailure \<Rightarrow> Inl (WriteError 500 ErrInternalError))
   }"

subsection \<open>Configuration\<close>

definition base_network :: NetworkConfig where
  "base_network = \<lparr>nc_Mode = ''nat'', nc_TapDevice = [], nc_MACAddress = [], nc_BridgeName = None,
     nc_IPAddress = [], nc_Gateway = [], nc_Netmask = [], nc_PortForwards = [], nc_EgressPolicy = None\<rparr>"

definition base_config :: "Image \<Rightarrow> VMConfig" where
  "base_config img = \<lparr>vc_VCPUs = 2, vc_MemoryMiB = 512, vc_KernelArgs = ''console=ttyS0 root=/dev/vda rw'',
     vc_SSHPublicKey = [], vc_Network = base_network,
     vc_Disks = (if im_RootfsPath img \<noteq> []
       then [\<lparr>dk_DriveID = ''rootfs'', dk_PathOnHost = im_RootfsPath img, dk_IsReadOnly = False, dk_IsRootDevice = True\<rparr>]
       else []),
     vc_Mounts = [], vc_Secrets = []\<rparr>"

definition override :: "'a option \<Rightarrow> 'a \<Rightarrow> 'a" where
  "override ov d = (case ov of None \<Rightarrow> d | Some x \<Rightarrow> x)"

definition override_network :: "NetworkConfigRequest \<Rightarrow> NetworkConfig \<Rightarrow> NetworkConfig" where
  "override_network r n = n\<lparr>
     nc_Mode := override (nr_Mode r) (nc_Mode n),
     nc_BridgeName := (case nr_BridgeName r of None \<Rightarrow> nc_BridgeName n | Some b \<Rightarrow> Some b),
     nc_MACAddress := override (nr_MACAddress r) (nc_MACAddress n),
     nc_PortForwards := override (nr_PortForwards r) (nc_PortForwards n),
     nc_EgressPolicy := (case nr_EgressPolicy r of None \<Rightarrow> nc_EgressPolicy n | Some p \<Rightarrow> Some p)\<rparr>"

definition buildVMConfig :: "Image \<Rightarrow> CreateVMRequest \<Rightarrow> VMConfig" where
  "buildVMConfig img req =
     (let config = base_config img
      in case cr_Config req of
           None \<Rightarrow> config
         | Some r \<Rightarrow> config\<lparr>
             vc_VCPUs := override (vr_VCPUs r) (vc_VCPUs config),
             vc_MemoryMiB := override (vr_MemoryMiB r) (vc_MemoryMiB config),
             vc_KernelArgs := (case vr_KernelArgs r of
                 Some ka \<Rightarrow> if trim_space ka \<noteq> [] then ka else vc_KernelArgs config
               | None \<Rightarrow> vc_KernelArgs config),
             vc_SSHPublicKey := override (vr_SSHPublicKey r) (vc_SSHPublicKey config),
             vc_Network := (case vr_Network r of None \<Rightarrow> vc_Network config
               | Some nr \<Rightarrow> override_network nr (vc_Network config)),
             vc_Mounts := override (vr_Mounts r) (vc_Mounts config),
             vc_Secrets := override (vr_Secrets r) (vc_Secrets config)\<rparr>)"

subsection \<open>Port forwards\<close>

datatype prep_error = HostPortAllocation | BadPortForward | DuplicateHostPort

definition availableDaemonHostPort :: "'h env \<Rightarrow> string \<Rightarrow> ('h, int option) comp" where
  "availableDaemonHostPort E protocol =
     (if protocol = ''tcp'' \<or> protocol = ''udp'' then env_listen E protocol else State_Monad.return None)"

definition normal_protocol :: "string \<Rightarrow> string" where
  "normal_protocol p = (let q = to_lower (trim_space p) in if q = [] then ''tcp'' else q)"

definition prepare_one :: "PortForward \<Rightarrow> (string \<times> int) set \<Rightarrow> prep_error + PortForward" where
  "prepare_one pf seen =
     (if ValidatePortForward pf \<noteq> None then Inl BadPortForward
      else if (pf_Protocol pf, pf_HostPort pf) \<in> seen then Inl DuplicateHostPort
      else Inr pf)"

text \<open>The key of the Go map is the text \<open>protocol/port\<close>; the pair determines it and is determined
  by it for the two valid protocols.\<close>

fun prepare_forwards :: "'h env \<Rightarrow> (string \<times> int) set \<Rightarrow> PortForward list \<Rightarrow> ('h, prep_error + PortForward list) comp" where
  "prepare_forwards E seen [] = State_Monad.return (Inr [])"
| "prepare_forwards E seen (pf0 # rest) = do {
     let pf1 = pf0\<lparr>pf_Protocol := normal_protocol (pf_Protocol pf0)\<rparr>;
     port \<leftarrow> (if pf_HostPort pf1 = 0 then availableDaemonHostPort E (pf_Protocol pf1)
              else State_Monad.return (Some (pf_HostPort pf1)));
     case port of
       None \<Rightarrow> State_Monad.return (Inl HostPortAllocation)
     | Some p \<Rightarrow>
         (case prepare_one (pf1\<lparr>pf_HostPort := p\<rparr>) seen of
            Inl e \<Rightarrow> State_Monad.return (Inl e)
          | Inr pf \<Rightarrow> do {
              r \<leftarrow> prepare_forwards E (insert (pf_Protocol pf, pf_HostPort pf) seen) rest;
              State_Monad.return (case r of Inl e \<Rightarrow> Inl e | Inr pfs \<Rightarrow> Inr (pf # pfs)) })
   }"

definition prepareVMPortForwards :: "'h env \<Rightarrow> VMConfig \<Rightarrow> ('h, prep_error + VMConfig) comp" where
  "prepareVMPortForwards E config = do {
     r \<leftarrow> prepare_forwards E {} (nc_PortForwards (vc_Network config));
     State_Monad.return (case r of
       Inl e \<Rightarrow> Inl e
     | Inr pfs \<Rightarrow> Inr (config\<lparr>vc_Network := (vc_Network config)\<lparr>nc_PortForwards := pfs\<rparr>\<rparr>))
   }"

definition writePortForwardPreparationError :: "prep_error \<Rightarrow> Response" where
  "writePortForwardPreparationError e =
     (if e = HostPortAllocation then WriteError 500 ErrInternalError else WriteError 400 ErrInvalidConfig)"

definition validateVMResourceLimits :: "'h Server \<Rightarrow> VMConfig \<Rightarrow> ('h world, bool) comp" where
  "validateVMResourceLimits S config =
     (let limits = cf_Limits (s_config S)
      in if vc_VCPUs config > lm_MaxVCPUsPerVM limits then State_Monad.return False
         else if vc_MemoryMiB config > lm_MaxMemoryPerVMMiB limits then State_Monad.return False
         else do {
           allVMs \<leftarrow> ListVMs (s_env S) [];
           case allVMs of
             None \<Rightarrow> State_Monad.return False
           | Some vms \<Rightarrow> State_Monad.return (\<not> int (length vms) \<ge> lm_MaxVMs limits) })"

definition prepareCreateVMConfig :: "'h Server \<Rightarrow> Image \<Rightarrow> CreateVMRequest \<Rightarrow> ('h world, Response + VMConfig) comp" where
  "prepareCreateVMConfig S img req = do {
     r \<leftarrow> on_host (prepareVMPortForwards (s_env S) (buildVMConfig img req));
     case r of
       Inl e \<Rightarrow> State_Monad.return (Inl (writePortForwardPreparationError e))
     | Inr config \<Rightarrow>
         (case NormalizeAndValidateMounts (vc_Mounts config) of
            Inl _ \<Rightarrow> State_Monad.return (Inl (WriteError 400 ErrInvalidConfig))
          | Inr mounts \<Rightarrow>
              (case NormalizeAndValidateSecrets (vc_Secrets config) of
                 Inl _ \<Rightarrow> State_Monad.return (Inl (WriteError 400 ErrInvalidConfig))
               | Inr secrets \<Rightarrow> do {
                   let config' = config\<lparr>vc_Mounts := mounts, vc_Secrets := secrets\<rparr>;
                   ok \<leftarrow> validateVMResourceLimits S config';
                   State_Monad.return (if ok then Inr config' else Inl (WriteError 422 ErrResourceLimitExceeded)) }))
   }"

subsection \<open>The writable root disk\<close>

definition vmStorageDir :: "string \<Rightarrow> string \<Rightarrow> string" where
  "vmStorageDir dataDir vmID = path_join [dataDir, ''vms'', vmID]"

definition vmRootfsPath :: "string \<Rightarrow> string \<Rightarrow> string" where
  "vmRootfsPath dataDir vmID = path_join [vmStorageDir dataDir vmID, ''rootfs.ext4'']"

definition copyFileAtomic :: "'h env \<Rightarrow> string \<Rightarrow> string \<Rightarrow> ('h, bool) comp" where
  "copyFileAtomic E src dst = do {
     opened \<leftarrow> os_Open E src;
     if \<not> opened then State_Monad.return False else do {
     made \<leftarrow> os_MkdirAll E (path_dir dst);
     if \<not> made then State_Monad.return False else do {
     tmp \<leftarrow> os_CreateTemp E (path_dir dst) ''.rootfs-*.tmp'';
     case tmp of
       None \<Rightarrow> State_Monad.return False
     | Some tmpPath \<Rightarrow> (let fail = do { _ \<leftarrow> os_Remove E tmpPath; State_Monad.return False };
                            close_fail = do { _ \<leftarrow> os_Close E tmpPath; fail } in do {
         copied \<leftarrow> os_Copy E src tmpPath;
         if \<not> copied then close_fail else do {
         moded \<leftarrow> os_Chmod E tmpPath;
         if \<not> moded then close_fail else do {
         synced \<leftarrow> os_Sync E tmpPath;
         if \<not> synced then close_fail else do {
         closed \<leftarrow> os_Close E tmpPath;
         if \<not> closed then fail else do {
         renamed \<leftarrow> os_Rename E tmpPath dst;
         if \<not> renamed then fail else State_Monad.return True }}}}}) }}}"

fun materialize_disks :: "'h env \<Rightarrow> string \<Rightarrow> DiskConfig list \<Rightarrow> ('h, DiskConfig list option) comp" where
  "materialize_disks E dest [] = State_Monad.return (Some [])"
| "materialize_disks E dest (disk # rest) =
     (let next = (\<lambda>d. do {
            r \<leftarrow> materialize_disks E dest rest;
            State_Monad.return (map_option (\<lambda>ds. d # ds) r) })
      in if \<not> dk_IsRootDevice disk \<or> dk_IsReadOnly disk then next disk
         else do {
           srcAbs \<leftarrow> os_Abs E (dk_PathOnHost disk);
           case srcAbs of None \<Rightarrow> State_Monad.return None | Some a \<Rightarrow> do {
           destAbs \<leftarrow> os_Abs E dest;
           case destAbs of None \<Rightarrow> State_Monad.return None | Some b \<Rightarrow>
           if a = b then next disk
           else do {
             st \<leftarrow> os_Stat E dest;
             case st of
               StatOK _ _ \<Rightarrow> next (disk\<lparr>dk_PathOnHost := dest\<rparr>)
             | StatError \<Rightarrow> State_Monad.return None
             | StatNotExist \<Rightarrow> do {
                 ok \<leftarrow> copyFileAtomic E (dk_PathOnHost disk) dest;
                 if ok then next (disk\<lparr>dk_PathOnHost := dest\<rparr>) else State_Monad.return None }}}})"

definition materializeWritableRootDisks :: "'h env \<Rightarrow> string \<Rightarrow> string \<Rightarrow> VMConfig \<Rightarrow> ('h, VMConfig option) comp" where
  "materializeWritableRootDisks E dataDir vmID config = do {
     r \<leftarrow> materialize_disks E (vmRootfsPath dataDir vmID) (vc_Disks config);
     State_Monad.return (map_option (\<lambda>ds. config\<lparr>vc_Disks := ds\<rparr>) r)
   }"

definition cleanupVMStorage :: "'h env \<Rightarrow> string \<Rightarrow> string \<Rightarrow> ('h, bool) comp" where
  "cleanupVMStorage E dataDir vmID = os_RemoveAll E (vmStorageDir dataDir vmID)"

subsection \<open>Networking\<close>

definition egress_enabled :: "VMConfig \<Rightarrow> bool" where
  "egress_enabled config = (case nc_EgressPolicy (vc_Network config) of None \<Rightarrow> False | Some p \<Rightarrow> ep_Enabled p)"

datatype net_error =
    errNetworkSetupDisabled | errRuntimeEgressPolicyUnsupported | errRuntimeNetworkModeUnsupported | NetFailure

definition configured :: "VMConfig \<Rightarrow> string \<Rightarrow> string \<Rightarrow> string \<Rightarrow> VMConfig" where
  "configured config tapName ip mac = config\<lparr>
     vc_Network := (vc_Network config)\<lparr>nc_MACAddress := mac, nc_TapDevice := tapName, nc_IPAddress := ip,
       nc_Gateway := BridgeGateway, nc_Netmask := ''255.255.255.0''\<rparr>,
     vc_KernelArgs := composeNetworkKernelArgs (vc_KernelArgs config) ip BridgeGateway\<rparr>"

definition setupVMNetworking :: "'h Server \<Rightarrow> string \<Rightarrow> VMConfig \<Rightarrow> ('h world, net_error + VMConfig) comp" where
  "setupVMNetworking S vmID config =
     (let net = vc_Network config; E = s_env S; run = env_run E in
      if \<not> is_firecracker S then State_Monad.return
        (if nc_Mode net = ''none'' then Inl errRuntimeNetworkModeUnsupported
         else if egress_enabled config then Inl errRuntimeEgressPolicyUnsupported
         else Inr config)
      else if nc_Mode net = ''none'' then State_Monad.return (Inr config)
      else if \<not> hn_Setup (cf_Network (s_config S)) then State_Monad.return (Inl errNetworkSetupDisabled)
      else do {
        alloc \<leftarrow> on_ipam (AllocateIP vmID);
        case alloc of None \<Rightarrow> State_Monad.return (Inl NetFailure) | Some ip \<Rightarrow>
        (let tapName = ''tap-'' @ take 8 vmID;
             undo = do { _ \<leftarrow> on_host (DeleteTAPDevice run tapName); on_ipam (ReleaseIP vmID) }
         in do {
           tap \<leftarrow> on_host (CreateTAPDevice run tapName);
           if \<not> tap then do { _ \<leftarrow> on_ipam (ReleaseIP vmID); State_Monad.return (Inl NetFailure) } else do {
           att \<leftarrow> on_host (AttachTAPToBridge run tapName BridgeName);
           if \<not> att then do { _ \<leftarrow> undo; State_Monad.return (Inl NetFailure) } else do {
           mac \<leftarrow> (if nc_MACAddress net \<noteq> [] then State_Monad.return (Some (nc_MACAddress net))
                   else do { buf \<leftarrow> on_host (env_rand3 E); State_Monad.return (GenerateMAC buf) });
           case mac of None \<Rightarrow> do { _ \<leftarrow> undo; State_Monad.return (Inl NetFailure) } | Some m \<Rightarrow> do {
           eg \<leftarrow> on_host (setupEgressPolicy run (env_sha256_hex E) vmID tapName ip BridgeGateway (nc_EgressPolicy net));
           if eg \<noteq> None then do { _ \<leftarrow> undo; State_Monad.return (Inl NetFailure) }
           else State_Monad.return (Inr (configured config tapName ip m)) }}}})})"

definition writeNetworkSetupError :: "net_error \<Rightarrow> Response option" where
  "writeNetworkSetupError e = (if e = NetFailure then None else Some (WriteError 400 ErrInvalidConfig))"

definition cleanupCreatedVMResources :: "'h Server \<Rightarrow> string \<Rightarrow> VMConfig \<Rightarrow> ('h world, unit) comp" where
  "cleanupCreatedVMResources S vmID config = (let net = vc_Network config; E = s_env S in do {
     _ \<leftarrow> on_host (cleanupVMStorage E (data_dir S) vmID);
     _ \<leftarrow> (if egress_enabled config
          then on_host (cleanupEgressPolicy (env_run E) (env_sha256_hex E) vmID (nc_TapDevice net) (nc_IPAddress net))
          else State_Monad.return True);
     _ \<leftarrow> (if nc_TapDevice net \<noteq> [] then on_host (DeleteTAPDevice (env_run E) (nc_TapDevice net))
          else State_Monad.return True);
     if nc_IPAddress net \<noteq> [] then on_ipam (ReleaseIP vmID) else State_Monad.return ()
   })"

subsection \<open>SPIRE identities\<close>

definition spireRequired :: "'h Server \<Rightarrow> bool" where
  "spireRequired S \<longleftrightarrow> sp_Enabled (cf_SPIRE (s_config S)) \<and> sp_Required (cf_SPIRE (s_config S))"

definition spireIdentityInputsMissing :: "CreateVMRequest \<Rightarrow> bool" where
  "spireIdentityInputsMissing req =
     (if cr_OwnerUserID req = [] \<or> cr_GroupID req = [] then True
      else cr_AutoRegisterSPIFFE req = Some False)"

definition rejectInvalidSPIRECreateInputs :: "'h Server \<Rightarrow> CreateVMRequest \<Rightarrow> Response option" where
  "rejectInvalidSPIRECreateInputs S req =
     (if \<not> spireRequired S then None
      else case s_spireService S of
        None \<Rightarrow> Some (WriteError 503 ErrServiceUnavailable)
      | Some sp \<Rightarrow>
          if spireIdentityInputsMissing req then Some (WriteError 400 ErrInvalidRequest)
          else if \<not> sr_ValidateIdentityParams sp (cr_GroupID req) (cr_OwnerUserID req)
          then Some (WriteError 400 ErrInvalidRequest)
          else None)"

text \<open>\<open>Inl\<close> is an error; \<open>Inr\<close> the id, empty when nothing was registered.\<close>

definition registerSPIREWorkload :: "'h Server \<Rightarrow> string \<Rightarrow> CreateVMRequest \<Rightarrow> ('h world, unit + string) comp" where
  "registerSPIREWorkload S vmID req =
     (let inputs = (cr_OwnerUserID req \<noteq> [] \<and> cr_GroupID req \<noteq> []);
          shouldRegister = (case cr_AutoRegisterSPIFFE req of None \<Rightarrow> inputs | Some b \<Rightarrow> b \<and> inputs)
      in case s_spireService S of
           None \<Rightarrow> State_Monad.return (Inr [])
         | Some sp \<Rightarrow>
             if \<not> shouldRegister \<or> \<not> sr_IsEnabled sp then State_Monad.return (Inr [])
             else do {
               r \<leftarrow> on_host (sr_CreateVMWorkloadEntry sp vmID (cr_GroupID req) (cr_OwnerUserID req));
               State_Monad.return (case r of None \<Rightarrow> Inl () | Some i \<Rightarrow> Inr i) })"

definition registerSPIREForCreate ::
  "'h Server \<Rightarrow> string \<Rightarrow> CreateVMRequest \<Rightarrow> VMConfig \<Rightarrow> ('h world, Response + string) comp" where
  "registerSPIREForCreate S vmID req config = do {
     r \<leftarrow> registerSPIREWorkload S vmID req;
     let spiffeID = (case r of Inl _ \<Rightarrow> [] | Inr i \<Rightarrow> i);
     if \<not> spireRequired S \<or> (\<not> isl r \<and> spiffeID \<noteq> []) then State_Monad.return (Inr spiffeID)
     else do {
       _ \<leftarrow> cleanupCreatedVMResources S vmID config;
       State_Monad.return (Inl (WriteError 503 ErrServiceUnavailable)) }
   }"

subsection \<open>The handler\<close>

definition new_vm :: "string \<Rightarrow> CreateVMRequest \<Rightarrow> Image \<Rightarrow> VMConfig \<Rightarrow> timestamp \<Rightarrow> string \<Rightarrow> VM" where
  "new_vm vmID req img config now spiffeID = \<lparr>vm_ID = vmID,
     vm_Name = (if cr_Name req = [] then vmID else cr_Name req), vm_State = StateCreated,
     vm_Image = cr_Image req, vm_ImageDigest = im_Digest img, vm_Architecture = im_Architecture img,
     vm_Config = config, vm_Runtime = None, vm_CreatedAt = now, vm_UpdatedAt = now,
     vm_LockedBy = None, vm_LockedAt = None,
     vm_OwnerUserID = cr_OwnerUserID req, vm_GroupID = cr_GroupID req, vm_SpiffeID = spiffeID\<rparr>"

definition existing_vm :: "'h Server \<Rightarrow> string \<Rightarrow> ('h world, Response option) comp" where
  "existing_vm S name =
     (if name = [] then State_Monad.return None
      else do {
        r \<leftarrow> GetVM (s_env S) name;
        State_Monad.return (case r of
          None \<Rightarrow> Some (WriteError 500 ErrInternalError)
        | Some (Some vm) \<Rightarrow> Some (writeJSON 200 (VMBody vm))
        | Some None \<Rightarrow> None) })"

definition finish_create :: "'h Server \<Rightarrow> string \<Rightarrow> CreateVMRequest \<Rightarrow> Image \<Rightarrow> VMConfig \<Rightarrow> ('h world, Response) comp" where
  "finish_create S vmID req img config = do {
     now \<leftarrow> on_host (time_now (s_env S));
     sp \<leftarrow> registerSPIREForCreate S vmID req config;
     case sp of Inl resp \<Rightarrow> State_Monad.return resp | Inr spiffeID \<Rightarrow> do {
     let vm = new_vm vmID req img config now spiffeID;
     ok \<leftarrow> CreateVM (s_env S) vm;
     if \<not> ok then do {
       _ \<leftarrow> cleanupCreatedVMResources S vmID config;
       _ \<leftarrow> (case s_spireService S of
            Some reg \<Rightarrow> if spiffeID \<noteq> [] then on_host (sr_DeleteVMWorkloadEntry reg spiffeID) else State_Monad.return True
          | None \<Rightarrow> State_Monad.return True);
       State_Monad.return (WriteError 500 ErrInternalError) }
     else State_Monad.return (writeJSON 201 (VMBody vm)) }}"

definition create_networked :: "'h Server \<Rightarrow> string \<Rightarrow> CreateVMRequest \<Rightarrow> Image \<Rightarrow> VMConfig \<Rightarrow> ('h world, Response) comp" where
  "create_networked S vmID req img config = do {
     net \<leftarrow> setupVMNetworking S vmID config;
     case net of
       Inl e \<Rightarrow> do {
         _ \<leftarrow> on_host (cleanupVMStorage (s_env S) (data_dir S) vmID);
         State_Monad.return (case writeNetworkSetupError e of
           Some resp \<Rightarrow> resp | None \<Rightarrow> WriteError 500 ErrInternalError) }
     | Inr config' \<Rightarrow> finish_create S vmID req img config' }"

definition create_resolved :: "'h Server \<Rightarrow> CreateVMRequest \<Rightarrow> Image \<Rightarrow> ('h world, Response) comp" where
  "create_resolved S req img = do {
     vmID \<leftarrow> on_host (env_uuid (s_env S));
     prepared \<leftarrow> prepareCreateVMConfig S img req;
     case prepared of Inl resp \<Rightarrow> State_Monad.return resp | Inr config0 \<Rightarrow> do {
     disks \<leftarrow> on_host (materializeWritableRootDisks (s_env S) (data_dir S) vmID config0);
     case disks of
       None \<Rightarrow> State_Monad.return (WriteError 500 ErrInternalError)
     | Some config1 \<Rightarrow> create_networked S vmID req img config1 }}"

definition handleCreateVM :: "'h Server \<Rightarrow> CreateVMRequest option \<Rightarrow> ('h world, Response) comp" where
  "handleCreateVM S body =
     (case body of None \<Rightarrow> State_Monad.return (WriteError 400 ErrInvalidRequest) | Some req \<Rightarrow>
      if cr_Image req = [] then State_Monad.return (WriteError 400 ErrInvalidRequest)
      else do {
        existing \<leftarrow> existing_vm S (cr_Name req);
        case existing of Some resp \<Rightarrow> State_Monad.return resp | None \<Rightarrow>
        case rejectInvalidSPIRECreateInputs S req of Some resp \<Rightarrow> State_Monad.return resp | None \<Rightarrow> do {
        resolved \<leftarrow> resolveImageForCreate S (cr_Image req);
        case resolved of Inl resp \<Rightarrow> State_Monad.return resp | Inr img \<Rightarrow> create_resolved S req img }})"

end
