(* ===== verification/VM_Handlers.thy ===== *)
theory VM_Handlers
  imports VM_Create
begin

section \<open>The machine handlers (internal/api/vm_handlers.go)\<close>

text \<open>
  One definition per handler of the HTTP interface and per helper that changes state. The empty id
  is rejected by every handler (the check of the \<open>ByPath\<close> wrappers). A deferred \<open>ReleaseLock\<close> is the
  last step of the locked part, \<open>locked\<close>. Parsed request bodies are arguments, \<open>None\<close> when they do
  not parse.
\<close>

definition require_id :: "string \<Rightarrow> ('h world, Response) comp \<Rightarrow> ('h world, Response) comp" where
  "require_id i k = (if i = [] then State_Monad.return (WriteError 400 ErrInvalidRequest) else k)"

definition with_vm :: "'h Server \<Rightarrow> string \<Rightarrow> (VM \<Rightarrow> ('h world, Response) comp) \<Rightarrow> ('h world, Response) comp" where
  "with_vm S vmID k = do {
     r \<leftarrow> GetVM (s_env S) vmID;
     case r of
       None \<Rightarrow> State_Monad.return (WriteError 500 ErrInternalError)
     | Some None \<Rightarrow> State_Monad.return (WriteError 404 ErrVMNotFound)
     | Some (Some vm) \<Rightarrow> k vm }"

definition locked :: "'h Server \<Rightarrow> string \<Rightarrow> string \<Rightarrow> ('h world, Response) comp \<Rightarrow> ('h world, Response) comp" where
  "locked S i operation k = do {
     ok \<leftarrow> AcquireLock (s_env S) i operation;
     if \<not> ok then State_Monad.return (WriteError 409 ErrVMLocked)
     else do {
       resp \<leftarrow> k;
       _ \<leftarrow> ReleaseLock (s_env S) i;
       State_Monad.return resp }}"

subsection \<open>Reading\<close>

text \<open>Whole seconds of a duration, cut towards zero like Go's conversion from \<open>Seconds()\<close>.\<close>

definition whole_seconds :: "int \<Rightarrow> int" where
  "whole_seconds d = (if d < 0 then - ((- d) div 1000000000) else d div 1000000000)"

definition list_item :: "timestamp \<Rightarrow> VM \<Rightarrow> VMListItem" where
  "list_item now vm = \<lparr>li_ID = vm_ID vm, li_Name = vm_Name vm, li_State = vm_State vm, li_Image = vm_Image vm,
     li_ImageDigest = vm_ImageDigest vm, li_Architecture = vm_Architecture vm, li_Config = vm_Config vm,
     li_Runtime = vm_Runtime vm, li_CreatedAt = vm_CreatedAt vm,
     li_UptimeSeconds = (if vm_State vm = StateRunning \<and> vm_Runtime vm \<noteq> None
       then Some (whole_seconds (now - vm_UpdatedAt vm)) else None),
     li_OwnerUserID = [], li_GroupID = [], li_SpiffeID = []\<rparr>"

fun list_items :: "'h env \<Rightarrow> VM list \<Rightarrow> ('h world, VMListItem list) comp" where
  "list_items E [] = State_Monad.return []"
| "list_items E (vm # vms) = do {
     now \<leftarrow> (if vm_State vm = StateRunning \<and> vm_Runtime vm \<noteq> None then on_host (time_now E) else State_Monad.return 0);
     items \<leftarrow> list_items E vms;
     State_Monad.return (list_item now vm # items) }"

definition handleListVMs :: "'h Server \<Rightarrow> string \<Rightarrow> ('h world, Response) comp" where
  "handleListVMs S stateFilter = do {
     r \<leftarrow> ListVMs (s_env S) stateFilter;
     case r of
       None \<Rightarrow> State_Monad.return (WriteError 500 ErrInternalError)
     | Some vms \<Rightarrow> do {
         items \<leftarrow> list_items (s_env S) vms;
         State_Monad.return (writeJSON 200 (VMListBody items (length items))) }}"

definition handleGetVM :: "'h Server \<Rightarrow> string \<Rightarrow> ('h world, Response) comp" where
  "handleGetVM S vmID = require_id vmID (with_vm S vmID (\<lambda>vm. State_Monad.return (writeJSON 200 (VMBody vm))))"

definition vmHasRuntimeHandle :: "VM \<Rightarrow> bool" where
  "vmHasRuntimeHandle vm = (case vm_Runtime vm of None \<Rightarrow> False
     | Some rt \<Rightarrow> rt_PID rt \<noteq> 0 \<or> rt_ExternalID rt \<noteq> [])"

subsection \<open>Deleting\<close>

definition cleanupDeletedVMResources :: "'h Server \<Rightarrow> VM \<Rightarrow> ('h world, unit) comp" where
  "cleanupDeletedVMResources S vm = (let net = vc_Network (vm_Config vm); E = s_env S in do {
     _ \<leftarrow> (if nc_PortForwards net \<noteq> [] \<and> nc_IPAddress net \<noteq> []
          then on_host (CleanupPortForwards (env_run E) (nc_IPAddress net) (nc_PortForwards net))
          else State_Monad.return ());
     _ \<leftarrow> (if egress_enabled (vm_Config vm)
          then on_host (cleanupEgressPolicy (env_run E) (env_sha256_hex E) (vm_ID vm) (nc_TapDevice net) (nc_IPAddress net))
          else State_Monad.return True);
     _ \<leftarrow> (if nc_TapDevice net \<noteq> [] then on_host (DeleteTAPDevice (env_run E) (nc_TapDevice net))
          else State_Monad.return True);
     _ \<leftarrow> (if nc_IPAddress net \<noteq> [] then on_ipam (ReleaseIP (vm_ID vm)) else State_Monad.return ());
     _ \<leftarrow> on_host (cleanupVMStorage E (data_dir S) (vm_ID vm));
     State_Monad.return ()
   })"

definition delete_locked :: "'h Server \<Rightarrow> VM \<Rightarrow> ('h world, Response) comp" where
  "delete_locked S vm = do {
     k \<leftarrow> (if (vm_State vm = StateRunning \<or> vm_State vm = StatePaused) \<and> vmHasRuntimeHandle vm
          then call_mgr (mg_Kill (s_runtimeManager S) vm) vm else State_Monad.return (None, vm));
     if fst k \<noteq> None then State_Monad.return (WriteError 500 ErrInternalError) else do {
     d \<leftarrow> call_mgr (mg_Delete (s_runtimeManager S) (snd k)) (snd k);
     if fst d \<noteq> None then State_Monad.return (WriteError 500 ErrInternalError) else do {
     let vm' = snd d;
     _ \<leftarrow> (case s_spireService S of
          Some reg \<Rightarrow> if vm_SpiffeID vm' \<noteq> [] \<and> sr_IsEnabled reg
             then on_host (sr_DeleteVMWorkloadEntry reg (vm_SpiffeID vm')) else State_Monad.return True
        | None \<Rightarrow> State_Monad.return True);
     _ \<leftarrow> cleanupDeletedVMResources S vm';
     ok \<leftarrow> DeleteVM (s_env S) (vm_ID vm');
     State_Monad.return (if ok then writeJSON 204 NoBody else WriteError 500 ErrInternalError) }}}"

definition handleDeleteVM :: "'h Server \<Rightarrow> string \<Rightarrow> ('h world, Response) comp" where
  "handleDeleteVM S vmID = require_id vmID (with_vm S vmID (\<lambda>vm.
     locked S (vm_ID vm) ''delete'' (delete_locked S vm)))"

subsection \<open>Starting\<close>

definition startRuntimeAndSetupNetwork :: "'h Server \<Rightarrow> VM \<Rightarrow> Image \<Rightarrow> ('h world, bool \<times> VM) comp" where
  "startRuntimeAndSetupNetwork S vm img = do {
     r \<leftarrow> call_mgr (mg_Start (s_runtimeManager S) vm img) vm;
     if fst r \<noteq> None then State_Monad.return (False, snd r)
     else (let vm1 = snd r; net = vc_Network (vm_Config vm1) in
       if is_firecracker S \<and> nc_PortForwards net \<noteq> [] then do {
         pf \<leftarrow> on_host (SetupPortForwards (env_run (s_env S)) (nc_IPAddress net) (nc_PortForwards net));
         if pf \<noteq> None then do {
           k \<leftarrow> call_mgr (mg_Kill (s_runtimeManager S) vm1) vm1;
           State_Monad.return (False, snd k) }
         else State_Monad.return (True, vm1) }
       else State_Monad.return (True, vm1)) }"

definition performVMStart :: "'h Server \<Rightarrow> VM \<Rightarrow> ('h world, bool \<times> VM) comp" where
  "performVMStart S vm0 = do {
     u \<leftarrow> UpdateVM (s_env S) (vm0\<lparr>vm_State := StateStarting\<rparr>);
     if \<not> fst u then State_Monad.return (False, snd u) else do {
     im \<leftarrow> GetImage (s_env S) (vm_ImageDigest (snd u));
     let failed = (\<lambda>vm. do {
           f \<leftarrow> UpdateVM (s_env S) (vm\<lparr>vm_State := StateFailed\<rparr>);
           State_Monad.return (False, snd f) });
     case im of
       Some (Some img) \<Rightarrow> do {
         r \<leftarrow> startRuntimeAndSetupNetwork S (snd u) img;
         if \<not> fst r then failed (snd r)
         else do {
           u2 \<leftarrow> UpdateVM (s_env S) ((snd r)\<lparr>vm_State := StateRunning\<rparr>);
           State_Monad.return (True, snd u2) }}
     | _ \<Rightarrow> failed (snd u) }}"

definition handleVMStart :: "'h Server \<Rightarrow> string \<Rightarrow> ('h world, Response) comp" where
  "handleVMStart S vmID = require_id vmID (with_vm S vmID (\<lambda>vm.
     if vm_State vm = StateRunning then State_Monad.return (writeJSON 200 (VMBody vm))
     else if vm_State vm \<noteq> StateCreated \<and> vm_State vm \<noteq> StateStopped
     then State_Monad.return (WriteError 409 ErrInvalidStateTransition)
     else locked S (vm_ID vm) ''start'' (do {
       r \<leftarrow> performVMStart S vm;
       State_Monad.return (if fst r then writeJSON 200 (VMBody (snd r)) else WriteError 500 ErrInternalError) })))"

subsection \<open>Stopping\<close>

definition stopVMAndCleanup :: "'h Server \<Rightarrow> VM \<Rightarrow> int \<Rightarrow> ('h world, bool \<times> VM) comp" where
  "stopVMAndCleanup S vm timeout = do {
     r \<leftarrow> call_mgr (mg_Stop (s_runtimeManager S) vm timeout) vm;
     if fst r \<noteq> None then State_Monad.return (False, snd r)
     else (let net = vc_Network (vm_Config (snd r)) in
       if is_firecracker S \<and> nc_PortForwards net \<noteq> [] then do {
         _ \<leftarrow> on_host (CleanupPortForwards (env_run (s_env S)) (nc_IPAddress net) (nc_PortForwards net));
         State_Monad.return (True, snd r) }
       else State_Monad.return (True, snd r)) }"

definition performVMStop :: "'h Server \<Rightarrow> VM \<Rightarrow> int \<Rightarrow> ('h world, bool \<times> VM) comp" where
  "performVMStop S vm timeout = do {
     u \<leftarrow> UpdateVM (s_env S) (vm\<lparr>vm_State := StateStopping\<rparr>);
     r \<leftarrow> stopVMAndCleanup S (snd u) timeout;
     if \<not> fst r then do {
       f \<leftarrow> UpdateVM (s_env S) ((snd r)\<lparr>vm_State := StateFailed\<rparr>);
       State_Monad.return (False, snd f) }
     else do {
       u2 \<leftarrow> UpdateVM (s_env S) ((snd r)\<lparr>vm_State := StateStopped, vm_Runtime := None\<rparr>);
       State_Monad.return (True, snd u2) }}"

definition handleVMStop :: "'h Server \<Rightarrow> string \<Rightarrow> int option option \<Rightarrow> ('h world, Response) comp" where
  "handleVMStop S vmID body = require_id vmID
     (case body of None \<Rightarrow> State_Monad.return (WriteError 400 ErrInvalidRequest) | Some timeoutSeconds \<Rightarrow>
      with_vm S vmID (\<lambda>vm.
        if vm_State vm = StateStopped then State_Monad.return (writeJSON 200 (VMBody vm))
        else if vm_State vm \<noteq> StateRunning \<and> vm_State vm \<noteq> StatePaused
        then State_Monad.return (WriteError 409 ErrInvalidStateTransition)
        else locked S (vm_ID vm) ''stop'' (do {
          r \<leftarrow> performVMStop S vm (override timeoutSeconds 30);
          State_Monad.return (if fst r then writeJSON 200 (VMBody (snd r)) else WriteError 500 ErrInternalError) })))"

definition handleVMKill :: "'h Server \<Rightarrow> string \<Rightarrow> ('h world, Response) comp" where
  "handleVMKill S vmID = require_id vmID (with_vm S vmID (\<lambda>vm. do {
     k \<leftarrow> (if vmHasRuntimeHandle vm then call_mgr (mg_Kill (s_runtimeManager S) vm) vm
          else State_Monad.return (None, vm));
     u \<leftarrow> UpdateVM (s_env S) ((snd k)\<lparr>vm_State := StateStopped, vm_Runtime := None\<rparr>);
     State_Monad.return (writeJSON 200 (VMBody (snd u))) }))"

subsection \<open>Pausing and resuming\<close>

definition runtime_error :: "mgr_error \<Rightarrow> Response" where
  "runtime_error e = (case writeRuntimeUnsupportedError e of Some resp \<Rightarrow> resp | None \<Rightarrow> WriteError 500 ErrInternalError)"

text \<open>The common shape of pausing and resuming in place: note the intermediate state, call the
  runtime, note the final state or go back.\<close>

definition transition ::
  "'h Server \<Rightarrow> VM \<Rightarrow> VMState \<Rightarrow> (VM \<Rightarrow> ('h, mgr_error option \<times> VM) comp) \<Rightarrow> VMState \<Rightarrow> VMState \<Rightarrow> ('h world, Response) comp" where
  "transition S vm during act back final = do {
     u \<leftarrow> UpdateVM (s_env S) (vm\<lparr>vm_State := during\<rparr>);
     if \<not> fst u then State_Monad.return (WriteError 500 ErrInternalError) else do {
     r \<leftarrow> call_mgr (act (snd u)) (snd u);
     case fst r of
       Some e \<Rightarrow> do {
         _ \<leftarrow> UpdateVM (s_env S) ((snd r)\<lparr>vm_State := back\<rparr>);
         State_Monad.return (runtime_error e) }
     | None \<Rightarrow> do {
         u2 \<leftarrow> UpdateVM (s_env S) ((snd r)\<lparr>vm_State := final\<rparr>);
         State_Monad.return (if fst u2 then writeJSON 200 (VMBody (snd u2)) else WriteError 500 ErrInternalError) }}}"

definition handleVMPause :: "'h Server \<Rightarrow> string \<Rightarrow> ('h world, Response) comp" where
  "handleVMPause S vmID = require_id vmID (with_vm S vmID (\<lambda>vm.
     if vm_State vm \<noteq> StateRunning then State_Monad.return (WriteError 409 ErrInvalidStateTransition)
     else locked S (vm_ID vm) ''pause''
       (transition S vm StatePausing (mg_Pause (s_runtimeManager S)) StateRunning StatePaused)))"

definition snapshots_root :: "'h Server \<Rightarrow> string" where
  "snapshots_root S = path_clean (path_join [data_dir S, ''snapshots''])"

definition snapshotFileWithinManagedRoot :: "'h Server \<Rightarrow> string \<Rightarrow> ('h, bool) comp" where
  "snapshotFileWithinManagedRoot S p =
     (let root = snapshots_root S; cleaned = path_clean p
      in if \<not> within_lexical root cleaned then State_Monad.return False
         else do {
           r1 \<leftarrow> os_EvalSymlinks (s_env S) root;
           case r1 of Inl notExist \<Rightarrow> State_Monad.return notExist | Inr realRoot \<Rightarrow> do {
           r2 \<leftarrow> os_EvalSymlinks (s_env S) (path_dir cleaned);
           case r2 of Inl notExist \<Rightarrow> State_Monad.return notExist
           | Inr realDir \<Rightarrow> State_Monad.return (realDir = realRoot \<or> within_lexical realRoot realDir) }})"

definition checkSnapshotFilePresent :: "'h Server \<Rightarrow> string \<Rightarrow> ('h, Response option) comp" where
  "checkSnapshotFilePresent S path = do {
     st \<leftarrow> os_Lstat (s_env S) path;
     State_Monad.return (case st of
       StatNotExist \<Rightarrow> Some (WriteError 404 ErrSnapshotNotFound)
     | StatError \<Rightarrow> Some (WriteError 500 ErrInternalError)
     | StatOK regular _ \<Rightarrow> if regular then None else Some (WriteError 500 ErrInternalError)) }"

definition resolveResumableSnapshot :: "'h Server \<Rightarrow> VM \<Rightarrow> string \<Rightarrow> ('h world, Response + Snapshot) comp" where
  "resolveResumableSnapshot S vm snapshotID = do {
     r \<leftarrow> GetSnapshot (s_env S) snapshotID;
     case r of
       None \<Rightarrow> State_Monad.return (Inl (WriteError 500 ErrInternalError))
     | Some None \<Rightarrow> State_Monad.return (Inl (WriteError 404 ErrSnapshotNotFound))
     | Some (Some snapshot) \<Rightarrow>
         if sn_VMID snapshot \<noteq> vm_ID vm then State_Monad.return (Inl (WriteError 400 ErrInvalidRequest))
         else do {
           in1 \<leftarrow> on_host (snapshotFileWithinManagedRoot S (sn_SnapshotFilePath snapshot));
           in2 \<leftarrow> (if in1 then on_host (snapshotFileWithinManagedRoot S (sn_MemoryFilePath snapshot)) else State_Monad.return False);
           if \<not> in1 \<or> \<not> in2 then State_Monad.return (Inl (WriteError 500 ErrInternalError))
           else do {
             p1 \<leftarrow> on_host (checkSnapshotFilePresent S (sn_SnapshotFilePath snapshot));
             case p1 of Some resp \<Rightarrow> State_Monad.return (Inl resp) | None \<Rightarrow> do {
             p2 \<leftarrow> on_host (checkSnapshotFilePresent S (sn_MemoryFilePath snapshot));
             State_Monad.return (case p2 of Some resp \<Rightarrow> Inl resp | None \<Rightarrow> Inr snapshot) }}}}"

definition ensureVMTapForResume :: "'h Server \<Rightarrow> VM \<Rightarrow> ('h, bool) comp" where
  "ensureVMTapForResume S vm = (let net = vc_Network (vm_Config vm); tap = nc_TapDevice net; run = env_run (s_env S) in
     if \<not> is_firecracker S then State_Monad.return True
     else if nc_Mode net = [] \<or> nc_Mode net = ''none'' then State_Monad.return True
     else if tap = [] then State_Monad.return True
     else do {
       exists \<leftarrow> TAPDeviceExists run tap;
       if exists then State_Monad.return True else do {
       made \<leftarrow> CreateTAPDevice run tap;
       if \<not> made then State_Monad.return False else do {
       att \<leftarrow> AttachTAPToBridge run tap BridgeName;
       if \<not> att then do { _ \<leftarrow> DeleteTAPDevice run tap; State_Monad.return False }
       else State_Monad.return True }}})"

text \<open>Go back to the previous state; if that cannot be written, to \<open>failed\<close>.\<close>

definition restore_state :: "'h Server \<Rightarrow> VM \<Rightarrow> VMState \<Rightarrow> ('h world, unit) comp" where
  "restore_state S vm prevState = do {
     u \<leftarrow> UpdateVM (s_env S) (vm\<lparr>vm_State := prevState\<rparr>);
     if fst u then State_Monad.return ()
     else do { _ \<leftarrow> UpdateVM (s_env S) ((snd u)\<lparr>vm_State := StateFailed\<rparr>); State_Monad.return () }}"

definition resume_locked :: "'h Server \<Rightarrow> VM \<Rightarrow> string \<Rightarrow> ('h world, Response) comp" where
  "resume_locked S vm snapshotID = do {
     res \<leftarrow> resolveResumableSnapshot S vm snapshotID;
     case res of Inl resp \<Rightarrow> State_Monad.return resp | Inr snapshot \<Rightarrow> do {
     tap \<leftarrow> on_host (ensureVMTapForResume S vm);
     if \<not> tap then State_Monad.return (WriteError 500 ErrInternalError) else do {
     let prevState = vm_State vm;
     u \<leftarrow> UpdateVM (s_env S) (vm\<lparr>vm_State := StateResuming\<rparr>);
     if \<not> fst u then State_Monad.return (WriteError 500 ErrInternalError) else do {
     r \<leftarrow> call_mgr (mg_LoadSnapshot (s_runtimeManager S) (snd u) (sn_SnapshotFilePath snapshot) (sn_MemoryFilePath snapshot)) (snd u);
     case fst r of
       Some e \<Rightarrow> do { _ \<leftarrow> restore_state S (snd r) prevState; State_Monad.return (runtime_error e) }
     | None \<Rightarrow> do {
         u2 \<leftarrow> UpdateVM (s_env S) ((snd r)\<lparr>vm_State := StateRunning\<rparr>);
         if fst u2 then State_Monad.return (writeJSON 200 (VMBody (snd u2)))
         else do {
           st \<leftarrow> call_mgr (mg_Stop (s_runtimeManager S) (snd u2) 5) (snd u2);
           _ \<leftarrow> restore_state S ((snd st)\<lparr>vm_Runtime := None\<rparr>) prevState;
           State_Monad.return (WriteError 500 ErrInternalError) }}}}}}"

definition resumeVMFromSnapshot :: "'h Server \<Rightarrow> VM \<Rightarrow> string \<Rightarrow> ('h world, Response) comp" where
  "resumeVMFromSnapshot S vm snapshotID =
     (if vm_State vm \<in> {StateStopped, StateCreated, StateFailed}
      then locked S (vm_ID vm) ''resume'' (resume_locked S vm snapshotID)
      else State_Monad.return (WriteError 409 ErrInvalidStateTransition))"

definition handleVMResume :: "'h Server \<Rightarrow> string \<Rightarrow> string option option \<Rightarrow> ('h world, Response) comp" where
  "handleVMResume S vmID body = require_id vmID (with_vm S vmID (\<lambda>vm.
     case body of
       None \<Rightarrow> State_Monad.return (WriteError 400 ErrInvalidRequest)
     | Some (Some snapshotID) \<Rightarrow>
         if snapshotID = [] then State_Monad.return (WriteError 400 ErrInvalidRequest)
         else resumeVMFromSnapshot S vm snapshotID
     | Some None \<Rightarrow>
         if vm_State vm \<noteq> StatePaused then State_Monad.return (WriteError 409 ErrInvalidStateTransition)
         else locked S (vm_ID vm) ''resume''
           (transition S vm StateResuming (mg_Resume (s_runtimeManager S)) StatePaused StateRunning)))"

subsection \<open>Logs and commands\<close>

text \<open>The query parameter \<open>tail\<close>: \<open>None\<close> when it is not a number.\<close>

definition handleVMLogs :: "'h Server \<Rightarrow> string \<Rightarrow> int option \<Rightarrow> ('h world, Response) comp" where
  "handleVMLogs S vmID tail = require_id vmID
     (case tail of None \<Rightarrow> State_Monad.return (WriteError 400 ErrInvalidRequest) | Some n \<Rightarrow>
      if n < 0 then State_Monad.return (WriteError 400 ErrInvalidRequest)
      else with_vm S vmID (\<lambda>vm. do {
        logs \<leftarrow> on_host (mg_GetConsoleLogs (s_runtimeManager S) vm n);
        State_Monad.return (case logs of None \<Rightarrow> WriteError 500 ErrInternalError
          | Some txt \<Rightarrow> writeJSON 200 (TextBody txt)) }))"

definition defaultExecTimeoutSeconds :: int where "defaultExecTimeoutSeconds = 30"
definition maxExecTimeoutSeconds :: int where "maxExecTimeoutSeconds = 600"

definition cap_result :: "VMExecResult \<Rightarrow> VMExecResult" where
  "cap_result r = r\<lparr>xs_Stdout := capExecOutput (xs_Stdout r), xs_Stderr := capExecOutput (xs_Stderr r)\<rparr>"

definition handleVMExec :: "'h Server \<Rightarrow> string \<Rightarrow> VMExecRequest option \<Rightarrow> ('h world, Response) comp" where
  "handleVMExec S vmID body = require_id vmID
     (case body of None \<Rightarrow> State_Monad.return (WriteError 400 ErrInvalidRequest) | Some req \<Rightarrow>
      (let command = normalizeExecCommand (xr_Command req);
           timeout = override (xr_TimeoutSeconds req) defaultExecTimeoutSeconds in
       if command = [] then State_Monad.return (WriteError 400 ErrInvalidRequest)
       else if timeout \<le> 0 \<or> timeout > maxExecTimeoutSeconds then State_Monad.return (WriteError 400 ErrInvalidRequest)
       else with_vm S vmID (\<lambda>vm.
         if vm_State vm \<noteq> StateRunning then State_Monad.return (WriteError 409 ErrInvalidStateTransition)
         else if \<not> vmHasRuntimeHandle vm then State_Monad.return (WriteError 409 ErrInvalidStateTransition)
         else case mg_Exec (s_runtimeManager S) of
           None \<Rightarrow> State_Monad.return (WriteError 501 Types.ErrUnsupportedOperation)
         | Some exec \<Rightarrow> do {
             r \<leftarrow> on_host (exec vm command timeout);
             State_Monad.return (case fst r of
               Some DeadlineExceeded \<Rightarrow> WriteError 504 ErrServiceUnavailable
             | Some e \<Rightarrow> runtime_error e
             | None \<Rightarrow> writeJSON 200 (ExecBody (map_option cap_result (snd r)))) })))"

subsection \<open>Process exit\<close>

definition cleanupVMNetwork :: "'h Server \<Rightarrow> VM \<Rightarrow> ('h world, unit) comp" where
  "cleanupVMNetwork S vm = (let net = vc_Network (vm_Config vm); E = s_env S in do {
     _ \<leftarrow> on_host (mg_CleanupNetwork (s_runtimeManager S) vm);
     _ \<leftarrow> (if nc_IPAddress net \<noteq> [] then on_ipam (ReleaseIP (vm_ID vm)) else State_Monad.return ());
     _ \<leftarrow> (if nc_PortForwards net \<noteq> []
          then on_host (CleanupPortForwards (env_run E) (nc_IPAddress net) (nc_PortForwards net))
          else State_Monad.return ());
     _ \<leftarrow> (if egress_enabled (vm_Config vm)
          then on_host (cleanupEgressPolicy (env_run E) (env_sha256_hex E) (vm_ID vm) (nc_TapDevice net) (nc_IPAddress net))
          else State_Monad.return True);
     State_Monad.return ()
   })"

text \<open>\<open>failed\<close> says that the runtime reported an error.\<close>

definition exit_state :: "int option \<Rightarrow> bool \<Rightarrow> VMState" where
  "exit_state exitCode failed =
     (if failed then (if exitCode = Some 0 then StateStopped else StateFailed) else StateStopped)"

definition handleVMProcessExit :: "'h Server \<Rightarrow> string \<Rightarrow> int option \<Rightarrow> bool \<Rightarrow> ('h world, unit) comp" where
  "handleVMProcessExit S vmID exitCode failed = do {
     r \<leftarrow> GetVM (s_env S) vmID;
     case r of
       Some (Some vm) \<Rightarrow>
         if vm_State vm = StateRunning \<or> vm_State vm = StateStarting then do {
           now \<leftarrow> on_host (time_now (s_env S));
           u \<leftarrow> UpdateVM (s_env S) (vm\<lparr>vm_State := exit_state exitCode failed, vm_UpdatedAt := now\<rparr>);
           if nc_Mode (vc_Network (vm_Config vm)) \<noteq> ''none'' then cleanupVMNetwork S (snd u)
           else State_Monad.return () }
         else State_Monad.return ()
     | _ \<Rightarrow> State_Monad.return () }"

end
