(* ===== verification/API_Handlers.thy ===== *)
theory API_Handlers
  imports VM_Handlers
begin

section \<open>Snapshots, images, pull jobs, backups, start-up (internal/api)\<close>

text \<open>
  The remaining handlers that work on the database: \<open>snapshot_handlers.go\<close>, \<open>image_handlers.go\<close>,
  \<open>backup_handlers.go\<close> and \<open>loadExistingAllocations\<close> of \<open>server.go\<close>. The upload of a snapshot to the
  object store runs in its own goroutine after the response and touches neither the tables nor the
  address manager; it is not part of the handler here.
\<close>

subsection \<open>Snapshots\<close>

definition handleListSnapshots :: "'h Server \<Rightarrow> string \<Rightarrow> ('h world, Response) comp" where
  "handleListSnapshots S vmID = require_id vmID (with_vm S vmID (\<lambda>vm. do {
     r \<leftarrow> ListSnapshots (s_env S) vmID;
     State_Monad.return (case r of
       None \<Rightarrow> WriteError 500 ErrInternalError
     | Some snaps \<Rightarrow> writeJSON 200 (SnapshotListBody snaps (length snaps))) }))"

definition stat_size :: "FileStat \<Rightarrow> int" where
  "stat_size st = (case st of StatOK _ n \<Rightarrow> n | _ \<Rightarrow> 0)"

definition snapshot_dir :: "'h Server \<Rightarrow> VM \<Rightarrow> string \<Rightarrow> string" where
  "snapshot_dir S vm snapshotID = path_join [data_dir S, ''snapshots'', vm_ID vm, snapshotID]"

definition snapshot_locked :: "'h Server \<Rightarrow> VM \<Rightarrow> string \<Rightarrow> ('h world, Response) comp" where
  "snapshot_locked S vm reqName = do {
     t \<leftarrow> on_host (time_now (s_env S));
     let snapshotID = ''snapshot-'' @ env_time_format (s_env S) t;
     let name = (if reqName = [] then snapshotID else reqName);
     let snapshotDir = snapshot_dir S vm snapshotID;
     made \<leftarrow> on_host (os_MkdirAll (s_env S) snapshotDir);
     if \<not> made then State_Monad.return (WriteError 500 ErrInternalError) else do {
     let memPath = path_join [snapshotDir, ''mem.snap''];
     let snapPath = path_join [snapshotDir, ''vm.snap''];
     r \<leftarrow> call_mgr (mg_CreateSnapshot (s_runtimeManager S) vm snapPath memPath) vm;
     case fst r of
       Some e \<Rightarrow> do {
         _ \<leftarrow> on_host (os_RemoveAll (s_env S) snapshotDir);
         State_Monad.return (runtime_error e) }
     | None \<Rightarrow> do {
         s1 \<leftarrow> on_host (os_Stat (s_env S) memPath);
         s2 \<leftarrow> on_host (os_Stat (s_env S) snapPath);
         now \<leftarrow> on_host (time_now (s_env S));
         let snapshot = \<lparr>sn_ID = snapshotID, sn_VMID = vm_ID vm, sn_Name = name, sn_MemoryFilePath = memPath,
           sn_SnapshotFilePath = snapPath, sn_SizeBytes = stat_size s1 + stat_size s2, sn_CreatedAt = now\<rparr>;
         ok \<leftarrow> CreateSnapshot (s_env S) snapshot;
         State_Monad.return (if ok then writeJSON 201 (SnapshotBody snapshot) else WriteError 500 ErrInternalError) }}}"

definition handleCreateSnapshot :: "'h Server \<Rightarrow> string \<Rightarrow> string option \<Rightarrow> ('h world, Response) comp" where
  "handleCreateSnapshot S vmID body = require_id vmID
     (case body of None \<Rightarrow> State_Monad.return (WriteError 400 ErrInvalidRequest) | Some reqName \<Rightarrow>
      with_vm S vmID (\<lambda>vm.
        if vm_State vm \<noteq> StatePaused then State_Monad.return (WriteError 409 ErrInvalidStateTransition)
        else locked S (vm_ID vm) ''snapshot'' (snapshot_locked S vm reqName)))"

definition with_snapshot :: "'h Server \<Rightarrow> string \<Rightarrow> (Snapshot \<Rightarrow> ('h world, Response) comp) \<Rightarrow> ('h world, Response) comp" where
  "with_snapshot S snapshotID k = do {
     r \<leftarrow> GetSnapshot (s_env S) snapshotID;
     case r of
       None \<Rightarrow> State_Monad.return (WriteError 500 ErrInternalError)
     | Some None \<Rightarrow> State_Monad.return (WriteError 404 ErrSnapshotNotFound)
     | Some (Some snapshot) \<Rightarrow> k snapshot }"

definition handleGetSnapshot :: "'h Server \<Rightarrow> string \<Rightarrow> ('h world, Response) comp" where
  "handleGetSnapshot S snapshotID = require_id snapshotID (with_snapshot S snapshotID
     (\<lambda>snapshot. State_Monad.return (writeJSON 200 (SnapshotBody snapshot))))"

definition snapshot_delete_locked :: "'h Server \<Rightarrow> string \<Rightarrow> Snapshot \<Rightarrow> ('h world, Response) comp" where
  "snapshot_delete_locked S snapshotID snapshot = do {
     let snapshotDir = path_clean (path_dir (sn_MemoryFilePath snapshot));
     _ \<leftarrow> (if within_lexical (snapshots_root S) snapshotDir then on_host (os_RemoveAll (s_env S) snapshotDir)
          else State_Monad.return True);
     ok \<leftarrow> DeleteSnapshot (s_env S) snapshotID;
     State_Monad.return (if ok then writeJSON 204 NoBody else WriteError 500 ErrInternalError) }"

definition handleDeleteSnapshot :: "'h Server \<Rightarrow> string \<Rightarrow> ('h world, Response) comp" where
  "handleDeleteSnapshot S snapshotID = require_id snapshotID (with_snapshot S snapshotID (\<lambda>snapshot.
     locked S (sn_VMID snapshot) ''snapshot-delete'' (snapshot_delete_locked S snapshotID snapshot)))"

subsection \<open>Images\<close>

definition merge_key :: "Image \<Rightarrow> string" where
  "merge_key im = (if im_Digest im = [] \<and> im_Tags im \<noteq> [] then hd (im_Tags im) else im_Digest im)"

fun merge_new :: "string set \<Rightarrow> Image list \<Rightarrow> Image list" where
  "merge_new seen [] = []"
| "merge_new seen (im # ims) =
     (if merge_key im \<noteq> [] \<and> merge_key im \<in> seen then merge_new seen ims
      else im # merge_new (if merge_key im \<noteq> [] then insert (merge_key im) seen else seen) ims)"

definition mergeRuntimeImages :: "Image list \<Rightarrow> Image list \<Rightarrow> Image list" where
  "mergeRuntimeImages dbImages runtimeImages =
     dbImages @ merge_new {k \<in> merge_key ` set dbImages. k \<noteq> []} runtimeImages"

definition handleImages :: "'h Server \<Rightarrow> ('h world, Response) comp" where
  "handleImages S = do {
     r \<leftarrow> ListImages (s_env S);
     case r of None \<Rightarrow> State_Monad.return (WriteError 500 ErrInternalError) | Some images \<Rightarrow> do {
     merged \<leftarrow> (case mg_ListImages (s_runtimeManager S) of
        None \<Rightarrow> State_Monad.return images
      | Some list_runtime \<Rightarrow> do {
          rt \<leftarrow> on_host list_runtime;
          State_Monad.return (case rt of None \<Rightarrow> images | Some ims \<Rightarrow> mergeRuntimeImages images ims) });
     State_Monad.return (writeJSON 200 (ImageListBody merged (length merged))) }}"

definition handleGetImage :: "'h Server \<Rightarrow> string \<Rightarrow> ('h world, Response) comp" where
  "handleGetImage S digest = require_id digest (do {
     r \<leftarrow> GetImage (s_env S) digest;
     State_Monad.return (case r of
       None \<Rightarrow> WriteError 500 ErrInternalError
     | Some None \<Rightarrow> WriteError 404 ErrImageNotFound
     | Some (Some img) \<Rightarrow> writeJSON 200 (ImageBody img)) })"

definition handleDeleteImage :: "'h Server \<Rightarrow> string \<Rightarrow> ('h world, Response) comp" where
  "handleDeleteImage S digest = require_id digest (do {
     r \<leftarrow> ListVMs (s_env S) [];
     case r of None \<Rightarrow> State_Monad.return (WriteError 500 ErrInternalError) | Some vms \<Rightarrow>
     if filter (\<lambda>vm. vm_ImageDigest vm = digest) vms \<noteq> [] then State_Monad.return (WriteError 409 ErrResourceInUse)
     else do {
       ok \<leftarrow> DeleteImage (s_env S) digest;
       State_Monad.return (if ok then writeJSON 204 NoBody else WriteError 500 ErrInternalError) }})"

subsection \<open>Pull jobs\<close>

definition handleImagePull :: "'h Server \<Rightarrow> string option \<Rightarrow> ('h world, Response \<times> string option) comp" where
  "handleImagePull S body =
     (case body of None \<Rightarrow> State_Monad.return (WriteError 400 ErrInvalidRequest, None) | Some imageRef \<Rightarrow>
      if imageRef = [] then State_Monad.return (WriteError 400 ErrInvalidRequest, None)
      else do {
        u \<leftarrow> on_host (env_uuid (s_env S));
        now \<leftarrow> on_host (time_now (s_env S));
        let jobID = ''job-'' @ u;
        let job = \<lparr>pj_ID = jobID, pj_ImageRef = imageRef, pj_State = PullJobPending, pj_Progress = None,
          pj_Error = None, pj_CreatedAt = now, pj_CompletedAt = None, pj_ResultDigest = None\<rparr>;
        ok \<leftarrow> CreatePullJob (s_env S) job;
        State_Monad.return (if ok then (writeJSON 202 (PullJobBody job), Some jobID) else (WriteError 500 ErrInternalError, None)) })"

text \<open>The second component says which job's goroutine \<open>executePullJob\<close> is started. That goroutine may
  dereference a nil pointer, which ends the process: \<open>PullPanics\<close>. The registry client is a
  parameter: it reports progress and returns an image or an error.\<close>

datatype pull_outcome = PullReturns | PullPanics

fun record_progress :: "'h env \<Rightarrow> ImagePullJob \<Rightarrow> PullProgress list \<Rightarrow> ('h world, ImagePullJob) comp" where
  "record_progress E job [] = State_Monad.return job"
| "record_progress E job (p # ps) = do {
     _ \<leftarrow> UpdatePullJob E (job\<lparr>pj_Progress := Some p\<rparr>);
     record_progress E (job\<lparr>pj_Progress := Some p\<rparr>) ps }"

definition fail_job :: "'h env \<Rightarrow> ImagePullJob \<Rightarrow> string \<Rightarrow> ('h world, pull_outcome) comp" where
  "fail_job E job msg = do {
     now \<leftarrow> on_host (time_now E);
     _ \<leftarrow> UpdatePullJob E (job\<lparr>pj_State := PullJobFailed, pj_Error := Some msg, pj_CompletedAt := Some now\<rparr>);
     State_Monad.return PullReturns }"

definition complete_job :: "'h env \<Rightarrow> ImagePullJob \<Rightarrow> Image \<Rightarrow> ('h world, pull_outcome) comp" where
  "complete_job E job img = do {
     now \<leftarrow> on_host (time_now E);
     _ \<leftarrow> UpdatePullJob E (job\<lparr>pj_State := PullJobCompleted, pj_ResultDigest := Some (im_Digest img), pj_CompletedAt := Some now\<rparr>);
     State_Monad.return PullReturns }"

definition executePullJob ::
  "'h Server \<Rightarrow> (string \<Rightarrow> ('h, PullProgress list \<times> Image option) comp) \<Rightarrow> string \<Rightarrow> string \<Rightarrow> ('h world, pull_outcome) comp" where
  "executePullJob S PullImage jobID imageRef = (let E = s_env S in do {
     r \<leftarrow> GetPullJob E jobID;
     case r of None \<Rightarrow> State_Monad.return PullReturns | Some None \<Rightarrow> State_Monad.return PullPanics | Some (Some job0) \<Rightarrow> do {
     let job = job0\<lparr>pj_State := PullJobInProgress\<rparr>;
     started \<leftarrow> UpdatePullJob E job;
     if \<not> started then State_Monad.return PullReturns
     else case mg_ResolveImage (s_runtimeManager S) of
       Some resolve \<Rightarrow> do {
         res \<leftarrow> on_host (resolve imageRef);
         case res of
           None \<Rightarrow> fail_job E job ''runtime pull failed''
         | Some None \<Rightarrow> State_Monad.return PullPanics
         | Some (Some img) \<Rightarrow> do {
             ok \<leftarrow> UpsertImage E img;
             if \<not> ok then fail_job E job ''Failed to save image'' else complete_job E job img }}
     | None \<Rightarrow> do {
         pulled \<leftarrow> on_host (PullImage imageRef);
         job' \<leftarrow> record_progress E job (fst pulled);
         case snd pulled of
           None \<Rightarrow> fail_job E job' ''pull failed''
         | Some img \<Rightarrow> do {
             ok \<leftarrow> CreateImage E img;
             if \<not> ok then fail_job E job' ''Failed to save image'' else complete_job E job' img }}}})"

definition handleImageJob :: "'h Server \<Rightarrow> string \<Rightarrow> ('h world, Response) comp" where
  "handleImageJob S jobID = require_id jobID (do {
     r \<leftarrow> GetPullJob (s_env S) jobID;
     State_Monad.return (case r of
       None \<Rightarrow> WriteError 500 ErrInternalError
     | Some None \<Rightarrow> WriteError 404 ErrImageNotFound
     | Some (Some job) \<Rightarrow> writeJSON 200 (PullJobBody job)) })"

subsection \<open>Backups\<close>

definition handleListBackups :: "'h Server \<Rightarrow> string \<Rightarrow> ('h world, Response) comp" where
  "handleListBackups S vmID = require_id vmID (with_vm S vmID (\<lambda>vm. State_Monad.return (WriteError 501 ErrInternalError)))"

definition handleCreateBackup :: "'h Server \<Rightarrow> string \<Rightarrow> ('h world, Response) comp" where
  "handleCreateBackup S vmID = require_id vmID (with_vm S vmID (\<lambda>vm.
     if vm_State vm \<noteq> StateRunning \<and> vm_State vm \<noteq> StatePaused
     then State_Monad.return (WriteError 409 ErrInvalidStateTransition)
     else State_Monad.return (WriteError 501 ErrInternalError)))"

text \<open>Getting, deleting and restoring a backup answer alike.\<close>

definition handleBackup :: "string \<Rightarrow> ('h world, Response) comp" where
  "handleBackup backupID = require_id backupID (State_Monad.return (WriteError 501 ErrInternalError))"

subsection \<open>Start-up (server.go)\<close>

text \<open>A Go map from machine ids to addresses: a later entry for the same id replaces an earlier one,
  which \<open>map_of\<close> sees first. The result says whether the daemon goes on.\<close>

definition vm_allocations :: "VM list \<Rightarrow> (string \<times> string) list" where
  "vm_allocations vms = rev (map (\<lambda>vm. (vm_ID vm, nc_IPAddress (vc_Network (vm_Config vm))))
     (filter (\<lambda>vm. nc_IPAddress (vc_Network (vm_Config vm)) \<noteq> []) vms))"

definition loadExistingAllocations :: "('h, 'z) sql_env_scheme \<Rightarrow> ('h world, bool) comp" where
  "loadExistingAllocations E = do {
     r \<leftarrow> ListVMs E [];
     case r of None \<Rightarrow> State_Monad.return False | Some vms \<Rightarrow>
     if vm_allocations vms \<noteq> [] then do {
       _ \<leftarrow> on_ipam (LoadAllocations (vm_allocations vms));
       State_Monad.return True }
     else State_Monad.return True }"

end
