(* ===== verification/Lifecycle.thy ===== *)
theory Lifecycle
  imports API_Handlers
begin

section \<open>What the machine handlers keep\<close>

text \<open>
  The handlers change the tables in few ways: they write a machine read at the beginning back, with
  another state and runtime record, and they set and clear its lock. The locale \<open>row_invariant\<close> names
  what an invariant of the world must allow: moves of the outside world, writing back a machine
  \<open>vm\<close> with \<open>W vm\<close>, and locking ids with \<open>L\<close>. Inside it, each handler is shown once to keep the
  invariant; later interpretations give the state machine, the isolation of machines from each other
  and the invariants of the daemon.
\<close>

definition like :: "VM \<Rightarrow> VM \<Rightarrow> bool" where
  "like vm vm' \<longleftrightarrow> vm_ID vm' = vm_ID vm \<and> vm_Config vm' = vm_Config vm"

definition based :: "VM \<Rightarrow> 'h world \<Rightarrow> bool" where
  "based vm w \<longleftrightarrow> (\<exists>r \<in> set (db_vms (w_db w)). like vm r)"

lemma like_refl [simp]: "like vm vm"
  by (simp add: like_def)

lemma like_updates [simp]:
  "like vm (x\<lparr>vm_State := s\<rparr>) = like vm x" "like vm (x\<lparr>vm_Runtime := rt\<rparr>) = like vm x"
  "like vm (x\<lparr>vm_UpdatedAt := t\<rparr>) = like vm x" "like vm (x\<lparr>vm_LockedBy := lb, vm_LockedAt := la\<rparr>) = like vm x"
  "like vm (set_runtime x y) = like vm x"
  by (simp_all add: like_def set_runtime_def)

lemma based_host [simp]: "based vm (w\<lparr>w_host := h\<rparr>) = based vm w"
  by (simp add: based_def)

lemma based_like: "like vm vm' \<Longrightarrow> based vm w = based vm' w"
  by (simp add: based_def like_def)

lemma based_map:
  assumes "based vm w" and "\<And>r. like vm r \<Longrightarrow> like vm (f r)"
    and "db_vms (w_db w') = map f (db_vms (w_db w))"
  shows "based vm w'"
  using assms unfolding based_def by (metis image_eqI set_map)

lemma based_update: "based vm w \<Longrightarrow> like vm vm' \<Longrightarrow> based vm (w\<lparr>w_db := update_vm vm' (w_db w)\<rparr>)"
  by (rule based_map [where f = "\<lambda>r. if vm_ID r = vm_ID vm' then r\<lparr>vm_State := vm_State vm',
       vm_Config := vm_Config vm', vm_Runtime := vm_Runtime vm', vm_UpdatedAt := vm_UpdatedAt vm'\<rparr> else r"])
     (simp_all add: like_def update_vm_def)

lemma based_lock: "based vm w \<Longrightarrow> based vm (w\<lparr>w_db := snd (lock_vm i opn t1 t2 (w_db w))\<rparr>)"
  by (rule based_map [where f = "\<lambda>r. if vm_ID r = i \<and> lockable t2 r
       then r\<lparr>vm_LockedBy := Some opn, vm_LockedAt := Some t1\<rparr> else r"])
     (simp_all add: like_def lock_vm_def Let_def)

lemma based_unlock: "based vm w \<Longrightarrow> based vm (w\<lparr>w_db := unlock_vm i (w_db w)\<rparr>)"
  by (rule based_map [where f = "\<lambda>r. if vm_ID r = i then r\<lparr>vm_LockedBy := None, vm_LockedAt := None\<rparr> else r"])
     (simp_all add: like_def unlock_vm_def)

locale row_invariant =
  fixes I :: "'h world \<Rightarrow> bool" and W :: "VM \<Rightarrow> bool" and L :: "string \<Rightarrow> bool"
  assumes host: "I w \<Longrightarrow> I (w\<lparr>w_host := h\<rparr>)"
    and update: "I w \<Longrightarrow> based vm w \<Longrightarrow> W vm \<Longrightarrow> I (w\<lparr>w_db := update_vm vm (w_db w)\<rparr>)"
    and lock: "I w \<Longrightarrow> L i \<Longrightarrow> I (w\<lparr>w_db := snd (lock_vm i opn t1 t2 (w_db w))\<rparr>)"
    and unlock: "I w \<Longrightarrow> L i \<Longrightarrow> I (w\<lparr>w_db := unlock_vm i (w_db w)\<rparr>)"
begin

definition J :: "VM \<Rightarrow> 'h world \<Rightarrow> bool" where
  "J vm w \<longleftrightarrow> I w \<and> based vm w"

lemma J_host: "J vm w \<Longrightarrow> J vm (w\<lparr>w_host := h\<rparr>)"
  by (simp add: J_def host)

lemma query_keeps: "pres I (query E f)" "pres (J vm) (query E f)"
  by (rule pres_query; simp add: host J_host)+

lemma on_host_keeps: "pres I (on_host m)" "pres (J vm) (on_host m)"
  by (rule pres_on_host; simp add: host J_host)+

lemma call_mgr_keeps [triple_intros]: "like vm vm' \<Longrightarrow> triple (J vm) (\<lambda>r. like vm (snd r)) (call_mgr m vm')"
  by (intro tripleI wp_call_mgrI) (simp add: J_host)

lemma UpdateVM_keeps [triple_intros]:
  assumes "like vm vm'" and "\<And>t. W (vm'\<lparr>vm_UpdatedAt := t\<rparr>)"
  shows "triple (J vm) (\<lambda>r. like vm (snd r)) (UpdateVM E vm')"
proof (intro tripleI wp_UpdateVMI)
  fix w h t assume J: "J vm w"
  then show "J vm (w\<lparr>w_host := h\<rparr>) \<and> like vm (snd (False, vm'\<lparr>vm_UpdatedAt := t\<rparr>))"
    using assms(1) by (simp add: J_host)
  let ?w = "w\<lparr>w_host := h\<rparr>"
  have lk: "like vm (vm'\<lparr>vm_UpdatedAt := t\<rparr>)" using assms(1) by simp
  have "I ?w" "based vm ?w" using J by (simp_all add: J_def host)
  then have "J vm (?w\<lparr>w_db := update_vm (vm'\<lparr>vm_UpdatedAt := t\<rparr>) (w_db ?w)\<rparr>)"
    unfolding J_def using update [of ?w "vm'\<lparr>vm_UpdatedAt := t\<rparr>"] assms(2) based_update [OF _ lk, of ?w]
      based_like [OF lk, of ?w] by blast
  then show "J vm (w\<lparr>w_host := h, w_db := update_vm (vm'\<lparr>vm_UpdatedAt := t\<rparr>) (w_db w)\<rparr>)
      \<and> like vm (snd (True, vm'\<lparr>vm_UpdatedAt := t\<rparr>))"
    using lk by simp
qed

lemma statement_keeps:
  assumes "\<And>w. J vm w \<Longrightarrow> J vm (w\<lparr>w_db := snd (f (w_db w))\<rparr>)"
  shows "pres (J vm) (statement E f)"
  by (rule pres_statement) (simp_all add: J_host assms)

lemma AcquireLock_keeps: "L i \<Longrightarrow> pres (J vm) (AcquireLock E i opn)"
  unfolding AcquireLock_def
  by (intro pres_bind on_host_keeps statement_keeps) (simp add: J_def lock based_lock)

lemma ReleaseLock_keeps: "L i \<Longrightarrow> pres (J vm) (ReleaseLock E i)"
  unfolding ReleaseLock_def
  by (intro statement_keeps) (simp add: J_def unlock based_unlock)

lemma locked_keeps: "L i \<Longrightarrow> pres (J vm) k \<Longrightarrow> pres (J vm) (locked S i opn k)"
  unfolding locked_def by (intro pres_intros AcquireLock_keeps ReleaseLock_keeps)

lemma GetVM_then:
  assumes "I w" and "pres I (k None)" and "pres I (k (Some None))"
    and "\<And>vm w'. find_vm idn (w_db w) = Some vm \<Longrightarrow> J vm w' \<Longrightarrow> wp (k (Some (Some vm))) (\<lambda>_. I) w'"
  shows "wp (do { r \<leftarrow> GetVM E idn; k r }) (\<lambda>_. I) w"
proof (intro wp_bindI wp_GetVMI)
  fix h vm
  assume vm: "find_vm idn (w_db w) = Some vm"
  have "J vm (w\<lparr>w_host := h\<rparr>)"
    using assms(1) host find_vm_Some [OF vm] by (auto simp: J_def based_def intro!: bexI [of _ vm])
  with assms(4) [OF vm] show "wp (k (Some (Some vm))) (\<lambda>_. I) (w\<lparr>w_host := h\<rparr>)" .
qed (use assms(1-3) host in \<open>auto intro: pres_wp\<close>)

lemma with_vm_keeps:
  assumes "I w" and "\<And>vm. find_vm idn (w_db w) = Some vm \<Longrightarrow> pres (J vm) (k vm)"
  shows "wp (with_vm S idn k) (\<lambda>_. I) w"
  unfolding with_vm_def
proof (rule GetVM_then [OF assms(1)], simp_all add: pres_return)
  fix vm w' assume *: "find_vm idn (w_db w) = Some vm" "J vm w'"
  show "wp (k vm) (\<lambda>_. I) w'"
    by (rule pres_wp [OF assms(2) [OF *(1)] *(2)]) (simp add: J_def)
qed

lemma require_id_keeps: "I w \<Longrightarrow> wp k (\<lambda>_. I) w \<Longrightarrow> wp (require_id i k) (\<lambda>_. I) w"
  by (simp add: require_id_def)

lemma reading_vm_keeps: "(\<And>vm. pres I (k vm)) \<Longrightarrow> pres I (with_vm S idn k)"
  unfolding with_vm_def GetVM_def by (intro pres_intros query_keeps)

lemma reading_id_keeps: "pres I k \<Longrightarrow> pres I (require_id i k)"
  by (simp add: require_id_def pres_return)

subsection \<open>The handlers\<close>

lemma startRuntime_keeps:
  "like vm vm' \<Longrightarrow> triple (J vm) (\<lambda>r. like vm (snd r)) (startRuntimeAndSetupNetwork S vm' img)"
  unfolding startRuntimeAndSetupNetwork_def Let_def
  by (rule triple_bind [OF call_mgr_keeps]; (intro triple_intros triple_bind_pres on_host_keeps
      triple_bind [OF call_mgr_keeps])?; simp)

lemma performVMStart_keeps:
  assumes "\<And>vm'. like vm vm' \<Longrightarrow> vm_State vm' \<in> {StateStarting, StateRunning, StateFailed} \<Longrightarrow> W vm'"
  shows "pres (J vm) (performVMStart S vm)"
proof -
  have upd: "triple (J vm) (\<lambda>r. like vm (snd r)) (UpdateVM E (vm'\<lparr>vm_State := s\<rparr>))"
    if "like vm vm'" "s \<in> {StateStarting, StateRunning, StateFailed}" for vm' s E
    using that by (intro UpdateVM_keeps assms) auto
  show ?thesis
    unfolding performVMStart_def Let_def GetImage_def
    by (rule pres_bind_triple [OF upd]; (intro pres_intros query_keeps pres_bind_triple [OF upd]
        pres_bind_triple [OF startRuntime_keeps])?; simp)
qed

lemma handleVMStart_keeps:
  assumes "I w" and "\<And>vm. find_vm idn (w_db w) = Some vm \<Longrightarrow> L (vm_ID vm)"
    and "\<And>vm vm'. find_vm idn (w_db w) = Some vm \<Longrightarrow> vm_State vm \<in> {StateCreated, StateStopped} \<Longrightarrow>
           like vm vm' \<Longrightarrow> vm_State vm' \<in> {StateStarting, StateRunning, StateFailed} \<Longrightarrow> W vm'"
  shows "wp (handleVMStart S idn) (\<lambda>_. I) w"
  unfolding handleVMStart_def
proof (intro require_id_keeps wp_optionI wp_returnI with_vm_keeps pres_intros locked_keeps performVMStart_keeps)
  fix vm vm'
  assume *: "find_vm idn (w_db w) = Some vm" "\<not> (vm_State vm \<noteq> StateCreated \<and> vm_State vm \<noteq> StateStopped)"
    "like vm vm'" "vm_State vm' \<in> {StateStarting, StateRunning, StateFailed}"
  then show "W vm'" by (intro assms(3) [of vm]) auto
qed (use assms(1,2) in blast)+

lemma stopVMAndCleanup_keeps:
  "like vm vm' \<Longrightarrow> triple (J vm) (\<lambda>r. like vm (snd r)) (stopVMAndCleanup S vm' timeout)"
  unfolding stopVMAndCleanup_def Let_def
  by (rule triple_bind [OF call_mgr_keeps]; (intro triple_intros triple_bind_pres on_host_keeps)?; simp)

lemma performVMStop_keeps:
  assumes "\<And>vm'. like vm vm' \<Longrightarrow> vm_State vm' \<in> {StateStopping, StateStopped, StateFailed} \<Longrightarrow> W vm'"
  shows "pres (J vm) (performVMStop S vm timeout)"
proof -
  have upd: "triple (J vm) (\<lambda>r. like vm (snd r)) (UpdateVM E vm')"
    if "like vm vm'" "vm_State vm' \<in> {StateStopping, StateStopped, StateFailed}" for vm' E
    using that by (intro UpdateVM_keeps assms) auto
  show ?thesis
    unfolding performVMStop_def
    by (rule pres_bind_triple [OF upd]; (intro pres_intros pres_bind_triple [OF stopVMAndCleanup_keeps]
        pres_bind_triple [OF upd])?; simp)
qed

lemma handleVMStop_keeps:
  assumes "I w" and "\<And>vm. find_vm idn (w_db w) = Some vm \<Longrightarrow> L (vm_ID vm)"
    and "\<And>vm vm'. find_vm idn (w_db w) = Some vm \<Longrightarrow> vm_State vm \<in> {StateRunning, StatePaused} \<Longrightarrow>
           like vm vm' \<Longrightarrow> vm_State vm' \<in> {StateStopping, StateStopped, StateFailed} \<Longrightarrow> W vm'"
  shows "wp (handleVMStop S idn body) (\<lambda>_. I) w"
  unfolding handleVMStop_def
proof (intro require_id_keeps wp_optionI wp_returnI with_vm_keeps pres_intros locked_keeps performVMStop_keeps)
  fix y vm vm'
  assume *: "find_vm idn (w_db w) = Some vm" "\<not> (vm_State vm \<noteq> StateRunning \<and> vm_State vm \<noteq> StatePaused)"
    "like vm vm'" "vm_State vm' \<in> {StateStopping, StateStopped, StateFailed}"
  then show "W vm'" by (intro assms(3) [of vm]) auto
qed (use assms(1,2) in blast)+

lemma handleVMKill_keeps:
  assumes "I w" and "\<And>vm vm'. find_vm idn (w_db w) = Some vm \<Longrightarrow> like vm vm' \<Longrightarrow> vm_State vm' = StateStopped \<Longrightarrow> W vm'"
  shows "wp (handleVMKill S idn) (\<lambda>_. I) w"
  unfolding handleVMKill_def
proof (intro require_id_keeps with_vm_keeps assms(1))
  fix vm assume vm: "find_vm idn (w_db w) = Some vm"
  have upd: "triple (J vm) (\<lambda>r. like vm (snd r)) (UpdateVM E vm')"
    if "like vm vm'" "vm_State vm' = StateStopped" for vm' E
    using that vm by (intro UpdateVM_keeps assms(2)) auto
  have kill: "triple (J vm) (\<lambda>r. like vm (snd r)) (if vmHasRuntimeHandle vm
      then call_mgr (mg_Kill (s_runtimeManager S) vm) vm else State_Monad.return (None, vm))"
    by (intro triple_intros) simp_all
  show "pres (J vm) (do {
     k \<leftarrow> (if vmHasRuntimeHandle vm then call_mgr (mg_Kill (s_runtimeManager S) vm) vm else State_Monad.return (None, vm));
     u \<leftarrow> UpdateVM (s_env S) ((snd k)\<lparr>vm_State := StateStopped, vm_Runtime := None\<rparr>);
     State_Monad.return (writeJSON 200 (VMBody (snd u))) })"
    by (rule pres_bind_triple [OF kill], rule pres_bind_triple [OF upd]) (simp_all add: pres_return)
qed

lemma transition_keeps:
  assumes "\<And>vm'. like vm vm' \<Longrightarrow> vm_State vm' \<in> {during, back, final} \<Longrightarrow> W vm'"
  shows "pres (J vm) (transition S vm during act back final)"
proof -
  have upd: "triple (J vm) (\<lambda>r. like vm (snd r)) (UpdateVM E vm')"
    if "like vm vm'" "vm_State vm' \<in> {during, back, final}" for vm' E
    using that by (intro UpdateVM_keeps assms) auto
  show ?thesis
    unfolding transition_def
    by (rule pres_bind_triple [OF upd]; (intro pres_intros pres_bind_triple [OF call_mgr_keeps]
        pres_bind_triple [OF upd])?; simp)
qed

lemma handleVMPause_keeps:
  assumes "I w" and "\<And>vm. find_vm idn (w_db w) = Some vm \<Longrightarrow> L (vm_ID vm)"
    and "\<And>vm vm'. find_vm idn (w_db w) = Some vm \<Longrightarrow> vm_State vm = StateRunning \<Longrightarrow>
           like vm vm' \<Longrightarrow> vm_State vm' \<in> {StatePausing, StateRunning, StatePaused} \<Longrightarrow> W vm'"
  shows "wp (handleVMPause S idn) (\<lambda>_. I) w"
  unfolding handleVMPause_def
proof (intro require_id_keeps wp_optionI wp_returnI with_vm_keeps pres_intros locked_keeps transition_keeps)
  fix vm vm'
  assume *: "find_vm idn (w_db w) = Some vm" "\<not> vm_State vm \<noteq> StateRunning"
    "like vm vm'" "vm_State vm' \<in> {StatePausing, StateRunning, StatePaused}"
  then show "W vm'" by (intro assms(3) [of vm]) auto
qed (use assms(1,2) in blast)+

lemma resolveResumable_keeps: "pres (J vm) (resolveResumableSnapshot S vm' sid)"
  unfolding resolveResumableSnapshot_def GetSnapshot_def
  by (intro pres_intros query_keeps on_host_keeps)

lemma resume_locked_keeps:
  assumes "\<And>vm'. like vm vm' \<Longrightarrow> vm_State vm' \<in> {StateResuming, StateRunning, StateFailed, vm_State vm} \<Longrightarrow> W vm'"
  shows "pres (J vm) (resume_locked S vm sid)"
proof -
  have upd: "triple (J vm) (\<lambda>r. like vm (snd r)) (UpdateVM E vm')"
    if "like vm vm'" "vm_State vm' \<in> {StateResuming, StateRunning, StateFailed, vm_State vm}" for vm' E
    using that by (intro UpdateVM_keeps assms) auto
  have restore: "pres (J vm) (restore_state S vm' (vm_State vm))" if "like vm vm'" for vm'
    unfolding restore_state_def
    by (rule pres_bind_triple [OF upd]; (intro pres_intros pres_bind_triple [OF upd])?; simp add: that)
  show ?thesis
    unfolding resume_locked_def Let_def
    by (intro pres_intros resolveResumable_keeps on_host_keeps pres_bind_triple [OF upd]
        pres_bind_triple [OF call_mgr_keeps]; (intro pres_bind restore)?; simp add: pres_return)
qed

lemma handleVMResume_keeps:
  assumes "I w" and "\<And>vm. find_vm idn (w_db w) = Some vm \<Longrightarrow> L (vm_ID vm)"
    and "\<And>vm vm'. find_vm idn (w_db w) = Some vm \<Longrightarrow> body = Some None \<Longrightarrow> vm_State vm = StatePaused \<Longrightarrow>
           like vm vm' \<Longrightarrow> vm_State vm' \<in> {StateResuming, StatePaused, StateRunning} \<Longrightarrow> W vm'"
    and "\<And>vm vm' sid. find_vm idn (w_db w) = Some vm \<Longrightarrow> body = Some (Some sid) \<Longrightarrow>
           vm_State vm \<in> {StateStopped, StateCreated, StateFailed} \<Longrightarrow> like vm vm' \<Longrightarrow>
           vm_State vm' \<in> {StateResuming, StateRunning, StateFailed, vm_State vm} \<Longrightarrow> W vm'"
  shows "wp (handleVMResume S idn body) (\<lambda>_. I) w"
  unfolding handleVMResume_def resumeVMFromSnapshot_def
proof (intro require_id_keeps wp_optionI wp_returnI with_vm_keeps pres_intros locked_keeps transition_keeps resume_locked_keeps)
  fix vm y vm'
  assume *: "find_vm idn (w_db w) = Some vm" "body = Some y" "y = None" "\<not> vm_State vm \<noteq> StatePaused"
    "like vm vm'" "vm_State vm' \<in> {StateResuming, StatePaused, StateRunning}"
  then show "W vm'" by (intro assms(3) [of vm]) auto
next
  fix vm y sid vm'
  assume *: "find_vm idn (w_db w) = Some vm" "body = Some y" "y = Some sid"
    "vm_State vm \<in> {StateStopped, StateCreated, StateFailed}"
    "like vm vm'" "vm_State vm' \<in> {StateResuming, StateRunning, StateFailed, vm_State vm}"
  then show "W vm'" by (intro assms(4) [of vm]) auto
qed (use assms(1,2) in blast)+

lemma reading_keeps:
  "pres I (handleListVMs S flt)" "pres I (handleGetVM S idn)" "pres I (handleVMLogs S idn tail_opt)"
  "pres I (handleVMExec S idn xr)" "pres I (handleListSnapshots S idn)" "pres I (handleGetSnapshot S sid)"
  "pres I (handleImages S)" "pres I (handleGetImage S dg)" "pres I (handleImageJob S jid)"
  "pres I (handleListBackups S idn)" "pres I (handleCreateBackup S idn)" "pres I (handleBackup bid)"
proof -
  note keeps = reading_id_keeps reading_vm_keeps query_keeps on_host_keeps
  have items: "pres I (list_items E vms)" for E vms
    by (induction E vms rule: list_items.induct) (auto intro!: pres_intros on_host_keeps)
  show "pres I (handleListVMs S flt)"
    unfolding handleListVMs_def ListVMs_def by (intro pres_intros keeps items)
  show "pres I (handleGetVM S idn)" "pres I (handleListBackups S idn)" "pres I (handleCreateBackup S idn)"
    unfolding handleGetVM_def handleListBackups_def handleCreateBackup_def by (intro pres_intros keeps)+
  show "pres I (handleVMLogs S idn tail_opt)" "pres I (handleVMExec S idn xr)"
    unfolding handleVMLogs_def handleVMExec_def Let_def by (intro pres_intros keeps)+
  show "pres I (handleListSnapshots S idn)"
    unfolding handleListSnapshots_def ListSnapshots_def by (intro pres_intros keeps)
  show "pres I (handleGetSnapshot S sid)"
    unfolding handleGetSnapshot_def with_snapshot_def GetSnapshot_def by (intro pres_intros keeps)
  show "pres I (handleImages S)" "pres I (handleGetImage S dg)" "pres I (handleImageJob S jid)"
    unfolding handleImages_def handleGetImage_def handleImageJob_def ListImages_def GetImage_def GetPullJob_def
    by (intro pres_intros keeps)+
  show "pres I (handleBackup bid)"
    unfolding handleBackup_def by (intro pres_intros keeps)
qed

end

section \<open>Invariants of the whole daemon\<close>

text \<open>An invariant for the handlers that work on the other tables as well.\<close>

definition image_unused :: "string \<Rightarrow> DB \<Rightarrow> bool" where
  "image_unused digest d \<longleftrightarrow> (\<forall>r \<in> set (db_vms d). vm_ImageDigest r \<noteq> digest)"

locale tables_invariant = row_invariant I W L
  for I :: "'h world \<Rightarrow> bool" and W :: "VM \<Rightarrow> bool" and L :: "string \<Rightarrow> bool" +
  assumes insert_snapshot: "I w \<Longrightarrow> I (w\<lparr>w_db := snd (insert_snapshot sn (w_db w))\<rparr>)"
    and delete_snapshot: "I w \<Longrightarrow> I (w\<lparr>w_db := delete_snapshot i (w_db w)\<rparr>)"
    and insert_image: "I w \<Longrightarrow> I (w\<lparr>w_db := snd (insert_image im (w_db w))\<rparr>)"
    and upsert_image: "I w \<Longrightarrow> I (w\<lparr>w_db := upsert_image im (w_db w)\<rparr>)"
    and delete_image: "I w \<Longrightarrow> image_unused i (w_db w) \<Longrightarrow> I (w\<lparr>w_db := delete_image i (w_db w)\<rparr>)"
    and insert_job: "I w \<Longrightarrow> I (w\<lparr>w_db := snd (insert_job j (w_db w))\<rparr>)"
    and update_job: "I w \<Longrightarrow> I (w\<lparr>w_db := update_job j (w_db w)\<rparr>)"
begin

lemma pres_I_statement:
  "(\<And>w. I w \<Longrightarrow> I (w\<lparr>w_db := snd (f (w_db w))\<rparr>)) \<Longrightarrow> pres I (statement E f)"
  by (rule pres_statement) (simp_all add: host)

lemma locked_I: "L i \<Longrightarrow> pres I k \<Longrightarrow> pres I (locked S i opn k)"
proof -
  assume "L i"
  then have "pres I (AcquireLock E i opn)" for E :: "('h, 'z) sql_env_scheme"
    unfolding AcquireLock_def by (intro pres_intros on_host_keeps pres_I_statement) (simp add: lock)
  moreover have "pres I (ReleaseLock E i)" for E :: "('h, 'z) sql_env_scheme"
    unfolding ReleaseLock_def using \<open>L i\<close> by (intro pres_I_statement) (simp add: unlock)
  ultimately show "pres I k \<Longrightarrow> pres I (locked S i opn k)"
    unfolding locked_def by (intro pres_intros)
qed

text \<open>A handler that works on the machine it finds, inside the invariant alone.\<close>

lemma with_vm_I:
  assumes "I w" and "\<And>vm. find_vm idn (w_db w) = Some vm \<Longrightarrow> pres I (k vm)"
  shows "wp (with_vm S idn k) (\<lambda>_. I) w"
  unfolding with_vm_def
proof (rule GetVM_then [OF assms(1)], simp_all add: pres_return)
  fix vm w' assume *: "find_vm idn (w_db w) = Some vm" "J vm w'"
  then show "wp (k vm) (\<lambda>_. I) w'" by (intro pres_wp [OF assms(2) [OF *(1)]]) (simp_all add: J_def)
qed

lemma call_mgr_I: "pres I (call_mgr m vm)"
  by (rule pres_call_mgr) (rule host)

lemma call_mgr_id: "triple I (\<lambda>r. vm_ID (snd r) = vm_ID vm) (call_mgr m vm)"
  by (intro tripleI wp_call_mgrI) (simp add: host)

lemma J_I: "J vm w \<Longrightarrow> I w"
  by (simp add: J_def)

lemma pull_job_keeps: "pres I (CreatePullJob E job)" "pres I (UpdatePullJob E job)"
  unfolding CreatePullJob_def UpdatePullJob_def
  by (intro pres_I_statement; simp add: insert_job update_job)+

lemma image_write_keeps: "pres I (CreateImage E im)" "pres I (UpsertImage E im)"
  unfolding CreateImage_def UpsertImage_def
  by (intro pres_I_statement; simp add: insert_image upsert_image)+

lemma executePullJob_keeps: "pres I (executePullJob S pull jid ref)"
proof -
  have progress: "pres I (record_progress E job ps)" for E job ps
    by (induction E job ps rule: record_progress.induct) (auto intro!: pres_intros pull_job_keeps)
  show ?thesis
    unfolding executePullJob_def fail_job_def complete_job_def GetPullJob_def Let_def
    by (intro pres_intros query_keeps on_host_keeps pull_job_keeps image_write_keeps progress)
qed

lemma handleImagePull_keeps: "pres I (handleImagePull S body)"
  unfolding handleImagePull_def Let_def by (intro pres_intros on_host_keeps pull_job_keeps)

lemma handleDeleteImage_keeps: "pres I (handleDeleteImage S digest)"
  unfolding handleDeleteImage_def
proof (rule reading_id_keeps, unfold pres_iff_wp wp_bind ListVMs_def, intro allI impI wp_queryI, goal_cases)
  case (1 w h) then show ?case by (simp add: host)
next
  case (2 w h)
  show ?case using 2
    by (auto simp: filter_sort host DeleteImage_def filter_empty_conv image_unused_def delete_image
        intro!: wp_statementI delete_image [of "w\<lparr>w_host := ha\<rparr>" for ha, simplified])
qed

lemma handleCreateSnapshot_keeps:
  assumes "I w" and "\<And>vm. find_vm idn (w_db w) = Some vm \<Longrightarrow> L (vm_ID vm)"
  shows "wp (handleCreateSnapshot S idn body) (\<lambda>_. I) w"
proof -
  have "pres I (CreateSnapshot E sn)" for E :: "('h, 'z) sql_env_scheme" and sn
    unfolding CreateSnapshot_def by (intro pres_I_statement) (simp add: insert_snapshot)
  then have "pres I (snapshot_locked S vm name)" for vm name
    unfolding snapshot_locked_def Let_def by (intro pres_intros call_mgr_I on_host_keeps)
  then show ?thesis
    unfolding handleCreateSnapshot_def
    by (intro require_id_keeps wp_optionI wp_returnI with_vm_I pres_intros locked_I) (use assms in blast)+
qed

lemma handleDeleteSnapshot_keeps:
  assumes "I w" and "\<And>sn. find (\<lambda>s. sn_ID s = sid) (db_snapshots (w_db w)) = Some sn \<Longrightarrow> L (sn_VMID sn)"
  shows "wp (handleDeleteSnapshot S sid) (\<lambda>_. I) w"
proof -
  have del: "pres I (DeleteSnapshot E i)" for E :: "('h, 'z) sql_env_scheme" and i
    unfolding DeleteSnapshot_def by (intro pres_I_statement) (simp add: delete_snapshot)
  have work: "pres I (locked S i opn (snapshot_delete_locked S sid sn))" if "L i" for i opn sn
    unfolding snapshot_delete_locked_def Let_def by (intro locked_I that pres_intros on_host_keeps del)
  show ?thesis
    unfolding handleDeleteSnapshot_def with_snapshot_def GetSnapshot_def
    by (intro require_id_keeps wp_intros wp_queryI; (rule pres_wp [OF work [OF assms(2)]])?; simp add: assms(1) host)
qed

end

text \<open>For process exits and deletions the invariant must also survive the release of an address and
  the deletion of machines with \<open>D\<close>.\<close>

locale daemon_invariant = tables_invariant I W L
  for I :: "'h world \<Rightarrow> bool" and W :: "VM \<Rightarrow> bool" and L :: "string \<Rightarrow> bool" +
  fixes D :: "string \<Rightarrow> bool"
  assumes release: "I w \<Longrightarrow> I (w\<lparr>w_ipam := snd (run_state (ReleaseIP i) (w_ipam w))\<rparr>)"
    and delete_vm: "I w \<Longrightarrow> D i \<Longrightarrow> I (w\<lparr>w_db := delete_vm i (w_db w)\<rparr>)"
begin

lemma ReleaseIP_keeps: "pres I (on_ipam (ReleaseIP i))"
  using release by (simp add: pres_iff_wp wp_iff_run)

lemma cleanup_keeps:
  "pres I (cleanupDeletedVMResources S vm)" "pres I (cleanupVMNetwork S vm)" "pres I (cleanupCreatedVMResources S i c)"
  unfolding cleanupDeletedVMResources_def cleanupVMNetwork_def cleanupCreatedVMResources_def Let_def
  by (intro pres_intros on_host_keeps ReleaseIP_keeps)+

lemma delete_locked_keeps:
  assumes "D (vm_ID vm)"
  shows "pres I (delete_locked S vm)"
proof -
  have del: "pres I (DeleteVM E i)" if "D i" for E :: "('h, 'z) sql_env_scheme" and i
    unfolding DeleteVM_def using that by (intro pres_I_statement) (simp add: delete_vm)
  have kill: "triple I (\<lambda>r. vm_ID (snd r) = vm_ID vm) (if b then call_mgr m vm else State_Monad.return (None, vm))" for b m
    by (intro triple_if call_mgr_id triple_return) simp
  show ?thesis
    unfolding delete_locked_def Let_def
    by (rule pres_bind_triple [OF kill], intro pres_if pres_return, rule pres_bind_triple [OF call_mgr_id])
       (intro pres_intros on_host_keeps cleanup_keeps del; simp add: assms)
qed

lemma handleDeleteVM_keeps:
  assumes "I w" and "\<And>vm. find_vm idn (w_db w) = Some vm \<Longrightarrow> L (vm_ID vm) \<and> D (vm_ID vm)"
  shows "wp (handleDeleteVM S idn) (\<lambda>_. I) w"
  unfolding handleDeleteVM_def
  by (intro require_id_keeps with_vm_I locked_I delete_locked_keeps) (use assms in blast)+

lemma exit_update_keeps:
  assumes "J vm w" and "\<And>vm'. like vm vm' \<Longrightarrow> vm_State vm' = st \<Longrightarrow> W vm'"
  shows "wp (do {
      now \<leftarrow> on_host (time_now (s_env S));
      u \<leftarrow> UpdateVM (s_env S) (vm\<lparr>vm_State := st, vm_UpdatedAt := now\<rparr>);
      if b then cleanupVMNetwork S (snd u) else State_Monad.return () }) (\<lambda>_. I) w"
proof -
  have upd: "triple (J vm) (\<lambda>r. like vm (snd r)) (UpdateVM (s_env S) (vm\<lparr>vm_State := st, vm_UpdatedAt := now\<rparr>))" for now
    by (rule UpdateVM_keeps) (simp_all add: assms(2))
  have fin: "wp (if b then cleanupVMNetwork S (snd u) else State_Monad.return ()) (\<lambda>_. I) w" if "J vm w" for u w
    using that by (auto simp: J_I intro: pres_wp [OF cleanup_keeps(2)])
  show ?thesis
    unfolding wp_bind
    by (rule pres_wp [OF on_host_keeps(2) assms(1)], rule triple_wp [OF upd], assumption, rule fin)
qed

lemma handleVMProcessExit_keeps:
  assumes "I w" and "\<And>vm vm'. find_vm idn (w_db w) = Some vm \<Longrightarrow> vm_State vm \<in> {StateRunning, StateStarting} \<Longrightarrow>
    like vm vm' \<Longrightarrow> vm_State vm' = exit_state code failed \<Longrightarrow> W vm'"
  shows "wp (handleVMProcessExit S idn code failed) (\<lambda>_. I) w"
  unfolding handleVMProcessExit_def
proof (rule GetVM_then [OF assms(1)]; simp only: option.case pres_return wp_if)
  fix vm w'
  assume *: "find_vm idn (w_db w) = Some vm" "J vm w'"
  show "(if vm_State vm = StateRunning \<or> vm_State vm = StateStarting
      then wp (do {
        now \<leftarrow> on_host (time_now (s_env S));
        u \<leftarrow> UpdateVM (s_env S) (vm\<lparr>vm_State := exit_state code failed, vm_UpdatedAt := now\<rparr>);
        if nc_Mode (vc_Network (vm_Config vm)) \<noteq> ''none'' then cleanupVMNetwork S (snd u) else State_Monad.return () }) (\<lambda>_. I)
      else wp (State_Monad.return ()) (\<lambda>_. I)) w'"
    using exit_update_keeps [OF *(2), of "exit_state code failed"] assms(2) [OF *(1)] *(2) by (auto simp only: wp_return J_I split: if_splits)
qed

end

end
