(* ===== verification/Daemon.thy ===== *)
theory Daemon
  imports Lifecycle
begin

section \<open>The daemon as a whole\<close>

text \<open>
  The invariant of the running daemon: the table constraints, the partition of the address pool,
  every machine's image is present, the configured limits hold for every machine and for their
  number, and every machine's port forwards are valid and do not collide. Every request and every
  process exit keeps it, so it holds in every reachable state. Handlers run one after the other here:
  the interleaving of the locked parts of two handlers is the subject of a later section.
\<close>

definition forwards_ok :: "PortForward list \<Rightarrow> bool" where
  "forwards_ok pfs \<longleftrightarrow> list_all (\<lambda>pf. ValidatePortForward pf = None) pfs
     \<and> distinct (map (\<lambda>pf. (pf_Protocol pf, pf_HostPort pf)) pfs)"

definition config_ok :: "LimitsConfig \<Rightarrow> VMConfig \<Rightarrow> bool" where
  "config_ok limits c \<longleftrightarrow> vc_VCPUs c \<le> lm_MaxVCPUsPerVM limits \<and> vc_MemoryMiB c \<le> lm_MaxMemoryPerVMMiB limits
     \<and> forwards_ok (nc_PortForwards (vc_Network c))"

definition tables_ok :: "LimitsConfig \<Rightarrow> DB \<Rightarrow> bool" where
  "tables_ok limits d \<longleftrightarrow> db_inv d
     \<and> (\<forall>r \<in> set (db_vms d). vm_ImageDigest r \<in> im_Digest ` set (db_images d))
     \<and> (\<forall>r \<in> set (db_vms d). config_ok limits (vm_Config r))
     \<and> int (length (db_vms d)) \<le> lm_MaxVMs limits"

definition daemon_inv :: "LimitsConfig \<Rightarrow> 'h world \<Rightarrow> bool" where
  "daemon_inv limits w \<longleftrightarrow> tables_ok limits (w_db w) \<and> ipam_inv (w_ipam w)"

abbreviation limits_of :: "'h Server \<Rightarrow> LimitsConfig" where
  "limits_of S \<equiv> cf_Limits (s_config S)"

subsection \<open>Every handler but creation\<close>

lemma tables_okD:
  assumes "tables_ok limits d"
  shows "db_inv d" and "r \<in> set (db_vms d) \<Longrightarrow> config_ok limits (vm_Config r)"
  using assms by (simp_all add: tables_ok_def)

lemma tables_ok_map:
  assumes "tables_ok limits d" and "db_inv d'" and "db_vms d' = map f (db_vms d)"
    and "\<And>r. r \<in> set (db_vms d) \<Longrightarrow> vm_ImageDigest (f r) = vm_ImageDigest r \<and> config_ok limits (vm_Config (f r))"
    and "im_Digest ` set (db_images d) \<subseteq> im_Digest ` set (db_images d')"
  shows "tables_ok limits d'"
  using assms by (auto simp: tables_ok_def)

lemma tables_ok_update:
  assumes "tables_ok limits d" and "config_ok limits (vm_Config vm)"
  shows "tables_ok limits (update_vm vm d)"
  by (rule tables_ok_map [OF assms(1), where f = "\<lambda>r. if vm_ID r = vm_ID vm then r\<lparr>vm_State := vm_State vm,
       vm_Config := vm_Config vm, vm_Runtime := vm_Runtime vm, vm_UpdatedAt := vm_UpdatedAt vm\<rparr> else r"])
     (simp_all add: tables_okD [OF assms(1)] assms(2), simp add: update_vm_def)

lemma tables_ok_lock:
  assumes "tables_ok limits d"
  shows "tables_ok limits (snd (lock_vm i opn t1 t2 d))"
  by (rule tables_ok_map [OF assms, where f = "\<lambda>r. if vm_ID r = i \<and> lockable t2 r
       then r\<lparr>vm_LockedBy := Some opn, vm_LockedAt := Some t1\<rparr> else r"])
     (simp_all add: tables_okD [OF assms], simp add: lock_vm_def Let_def)

lemma tables_ok_unlock:
  assumes "tables_ok limits d"
  shows "tables_ok limits (unlock_vm i d)"
  by (rule tables_ok_map [OF assms, where f = "\<lambda>r. if vm_ID r = i
       then r\<lparr>vm_LockedBy := None, vm_LockedAt := None\<rparr> else r"])
     (simp_all add: tables_okD [OF assms], simp add: unlock_vm_def)

lemma tables_ok_same_vms:
  "tables_ok limits d \<Longrightarrow> db_inv d' \<Longrightarrow> db_vms d' = db_vms d \<Longrightarrow>
   im_Digest ` set (db_images d) \<subseteq> im_Digest ` set (db_images d') \<Longrightarrow> tables_ok limits d'"
  by (auto simp: tables_ok_def)

lemma tables_ok_delete_vm:
  assumes "tables_ok limits d"
  shows "tables_ok limits (delete_vm i d)"
proof -
  have "int (length (filter (\<lambda>r. vm_ID r \<noteq> i) (db_vms d))) \<le> lm_MaxVMs limits"
    using assms unfolding tables_ok_def by (meson length_filter_le of_nat_mono order_trans)
  moreover have "db_inv (delete_vm i d)" using assms by (simp add: tables_ok_def)
  moreover have "db_vms (delete_vm i d) = filter (\<lambda>r. vm_ID r \<noteq> i) (db_vms d)"
    and "db_images (delete_vm i d) = db_images d"
    by (auto simp: delete_vm_def list_ex_iff intro: filter_True [symmetric])
  ultimately show ?thesis using assms by (simp add: tables_ok_def)
qed

lemma upsert_images: "im_Digest ` set (db_images d) \<subseteq> im_Digest ` set (db_images (upsert_image im d))"
proof -
  have "im_Digest ` set xs \<subseteq> im_Digest ` set (map (\<lambda>r. if im_Digest r = im_Digest im then im else r) xs)" for xs
    by (induction xs) auto
  then show ?thesis by (auto simp: upsert_image_def)
qed

lemma tables_ok_others:
  assumes "tables_ok limits d"
  shows "tables_ok limits (snd (insert_snapshot sn d))" and "tables_ok limits (delete_snapshot i d)"
    and "tables_ok limits (snd (insert_image im d))" and "tables_ok limits (upsert_image im d)"
    and "tables_ok limits (snd (insert_job j d))" and "tables_ok limits (update_job j d)"
proof -
  note same = tables_ok_same_vms [OF assms]
  note inv = tables_okD(1) [OF assms]
  show "tables_ok limits (snd (insert_snapshot sn d))"
    by (rule same) (simp_all add: inv, simp_all add: insert_snapshot_def)
  show "tables_ok limits (delete_snapshot i d)"
    by (rule same) (simp_all add: inv, simp_all add: delete_snapshot_def)
  show "tables_ok limits (snd (insert_image im d))"
    by (rule same) (simp_all add: inv, auto simp: insert_image_def)
  show "tables_ok limits (snd (insert_job j d))"
    by (rule same) (simp_all add: inv, simp_all add: insert_job_def)
  show "tables_ok limits (update_job j d)"
    by (rule same) (simp_all add: inv, simp_all add: update_job_def)
  show "tables_ok limits (upsert_image im d)"
    by (rule same) (simp_all add: inv upsert_images, simp add: upsert_image_def)
qed

lemma tables_ok_delete_image:
  assumes "tables_ok limits d" and "image_unused i d"
  shows "tables_ok limits (delete_image i d)"
proof -
  have "im_Digest ` set (db_images (delete_image i d)) = im_Digest ` set (db_images d) - {i}"
    by (auto simp: delete_image_def)
  moreover have "db_vms (delete_image i d) = db_vms d" by (simp add: delete_image_def)
  ultimately show ?thesis using assms by (auto simp: tables_ok_def image_unused_def)
qed

lemma ipam_inv_ReleaseIP: "ipam_inv i \<Longrightarrow> ipam_inv (snd (run_state (ReleaseIP v) i))"
  using ReleaseIP_inv by (rule presD)

lemma based_config_ok:
  "tables_ok limits (w_db w) \<Longrightarrow> based vm w \<Longrightarrow> config_ok limits (vm_Config vm)"
  by (auto simp: based_def like_def tables_ok_def)

interpretation daemon: daemon_invariant "daemon_inv limits" "\<lambda>_. True" "\<lambda>_. True" "\<lambda>_. True" for limits
  by unfold_locales
     (auto simp: daemon_inv_def tables_ok_update tables_ok_lock tables_ok_unlock tables_ok_delete_vm
       tables_ok_others tables_ok_delete_image ipam_inv_ReleaseIP based_config_ok)

end
