(* ===== verification/Demo.thy ===== *)
theory Demo
  imports API_Handlers
begin

section \<open>A concrete server\<close>

text \<open>
  A server on which the theorems about the handlers are instantiated: Linux with Firecracker, an
  outside world that is a counter (each reading of the clock and each identifier moves it), commands
  and files that always succeed, and a runtime manager that starts machines as process 7.
\<close>

definition tick :: "(nat, nat) comp" where
  "tick = do { n \<leftarrow> State_Monad.get; State_Monad.set (Suc n); State_Monad.return n }"

definition demo_host :: "bool \<Rightarrow> nat env" where
  "demo_host works = \<lparr>sql_fault = State_Monad.return False, time_now = do { n \<leftarrow> tick; State_Monad.return (int n) },
     env_goos = ''linux'', env_xrun = (\<lambda>_. State_Monad.return (works, [])), env_sha256_hex = id,
     env_uuid = do { n \<leftarrow> tick; State_Monad.return (''vm'' @ nat_digits n) },
     env_rand3 = State_Monad.return (Some (1, 2, 3)), env_listen = (\<lambda>_. State_Monad.return (Some 8080)),
     env_time_format = (\<lambda>t. itoa t),
     os_Stat = (\<lambda>_. State_Monad.return StatNotExist), os_Lstat = (\<lambda>_. State_Monad.return (StatOK True 1)),
     os_EvalSymlinks = (\<lambda>p. State_Monad.return (Inr p)), os_Abs = (\<lambda>p. State_Monad.return (Some p)),
     os_Open = (\<lambda>_. State_Monad.return True), os_MkdirAll = (\<lambda>_. State_Monad.return True),
     os_CreateTemp = (\<lambda>d p. State_Monad.return (Some (d @ ''/t''))), os_Copy = (\<lambda>_ _. State_Monad.return True),
     os_Chmod = (\<lambda>_. State_Monad.return True), os_Sync = (\<lambda>_. State_Monad.return True),
     os_Close = (\<lambda>_. State_Monad.return True), os_Rename = (\<lambda>_ _. State_Monad.return True),
     os_Remove = (\<lambda>_. State_Monad.return True), os_RemoveAll = (\<lambda>_. State_Monad.return True)\<rparr>"

definition demo_runtime :: VMRuntime where
  "demo_runtime = \<lparr>rt_PID = 7, rt_Driver = ''firecracker'', rt_ExternalID = [], rt_SocketPath = ''/run/vm.sock'',
     rt_ConsolePath = ''/run/vm.log'', rt_NetworkInfo = None\<rparr>"

definition demo_image :: Image where
  "demo_image = \<lparr>im_Digest = ''sha256:aa'', im_Tags = [''base''], im_Architecture = ''amd64'', im_SizeBytes = 1,
     im_KernelVersion = [], im_RootfsPath = ''/img/rootfs'', im_KernelPath = ''/img/kernel'', im_PulledAt = 0\<rparr>"

definition demo_manager :: "nat Manager" where
  "demo_manager = (let ok = (\<lambda>vm. State_Monad.return (None, vm)) in
    \<lparr>mg_Start = (\<lambda>vm img. ok (vm\<lparr>vm_Runtime := Some demo_runtime\<rparr>)), mg_Stop = (\<lambda>vm t. ok vm),
     mg_Kill = ok, mg_Delete = ok, mg_Pause = ok, mg_Resume = ok,
     mg_CreateSnapshot = (\<lambda>vm a b. ok vm), mg_LoadSnapshot = (\<lambda>vm a b. ok vm),
     mg_GetConsoleLogs = (\<lambda>vm n. State_Monad.return (Some [])), mg_CleanupNetwork = (\<lambda>vm. State_Monad.return True),
     mg_ResolveImage = Some (\<lambda>ref. State_Monad.return (Some (Some demo_image))),
     mg_ListImages = None, mg_Exec = None\<rparr>)"

text \<open>The argument says whether commands succeed.\<close>

definition demo_on :: "bool \<Rightarrow> nat Server" where
  "demo_on works = \<lparr>s_config = DefaultConfig, s_env = demo_host works, s_runtimeManager = demo_manager, s_spireService = None\<rparr>"

abbreviation demo_server :: "nat Server" where
  "demo_server \<equiv> demo_on True"

definition demo_request :: CreateVMRequest where
  "demo_request = \<lparr>cr_Name = ''web'', cr_Image = ''base'', cr_Config = None, cr_OwnerUserID = [], cr_GroupID = [],
     cr_AutoRegisterSPIFFE = None\<rparr>"

definition demo_world :: "nat world" where
  "demo_world = \<lparr>w_db = empty_DB, w_ipam = NewIPAM, w_host = 0\<rparr>"

definition demo_pull :: "string \<Rightarrow> (nat, PullProgress list \<times> Image option) comp" where
  "demo_pull ref = State_Monad.return ([], Some demo_image)"

subsection \<open>Evaluation\<close>

text \<open>Running a handler on this server is rewriting with the weakest preconditions; the rules below
  give the parts of the server.\<close>

lemma demo_server_simps [simp]:
  "s_config (demo_on b) = DefaultConfig" "s_env (demo_on b) = demo_host b"
  "s_runtimeManager (demo_on b) = demo_manager" "s_spireService (demo_on b) = None"
  by (simp_all add: demo_on_def)

lemma demo_env_simps [simp]:
  "sql_fault (demo_host b) = State_Monad.return False" "env_run (demo_host b) cmd = State_Monad.return b"
  "env_goos (demo_host b) = ''linux''"
  "env_rand3 (demo_host b) = State_Monad.return (Some (1, 2, 3))" "env_time_format (demo_host b) t = itoa t"
  "os_Stat (demo_host b) p = State_Monad.return StatNotExist" "os_Lstat (demo_host b) p = State_Monad.return (StatOK True 1)"
  "os_EvalSymlinks (demo_host b) p = State_Monad.return (Inr p)" "os_Abs (demo_host b) p = State_Monad.return (Some p)"
  "os_Open (demo_host b) p = State_Monad.return True" "os_MkdirAll (demo_host b) p = State_Monad.return True"
  "os_CreateTemp (demo_host b) d p = State_Monad.return (Some (d @ ''/t''))" "os_Copy (demo_host b) p q = State_Monad.return True"
  "os_Chmod (demo_host b) p = State_Monad.return True" "os_Sync (demo_host b) p = State_Monad.return True"
  "os_Close (demo_host b) p = State_Monad.return True" "os_Rename (demo_host b) p q = State_Monad.return True"
  "os_Remove (demo_host b) p = State_Monad.return True" "os_RemoveAll (demo_host b) p = State_Monad.return True"
  by (simp_all add: demo_host_def quiet_def)

lemma demo_clock [simp]:
  "wp (time_now (demo_host b)) Q n = Q (int n) (Suc n)" "wp (env_uuid (demo_host b)) Q' n = Q' (''vm'' @ nat_digits n) (Suc n)"
  by (simp_all add: demo_host_def tick_def)

lemma demo_manager_simps [simp]:
  "mg_Start demo_manager vm img = State_Monad.return (None, vm\<lparr>vm_Runtime := Some demo_runtime\<rparr>)"
  "mg_Stop demo_manager vm t = State_Monad.return (None, vm)" "mg_Kill demo_manager vm = State_Monad.return (None, vm)"
  "mg_Delete demo_manager vm = State_Monad.return (None, vm)" "mg_Pause demo_manager vm = State_Monad.return (None, vm)"
  "mg_Resume demo_manager vm = State_Monad.return (None, vm)"
  "mg_CreateSnapshot demo_manager vm a b = State_Monad.return (None, vm)"
  "mg_LoadSnapshot demo_manager vm a b = State_Monad.return (None, vm)"
  "mg_CleanupNetwork demo_manager vm = State_Monad.return True"
  "mg_ResolveImage demo_manager = Some (\<lambda>ref. State_Monad.return (Some (Some demo_image)))"
  by (simp_all add: demo_manager_def Let_def)

lemma demo_world_simps [simp]: "w_db demo_world = empty_DB" "w_ipam demo_world = NewIPAM" "w_host demo_world = 0"
  by (simp_all add: demo_world_def)

lemma empty_DB_simps [simp]: "db_vms empty_DB = []" "db_images empty_DB = []" "db_snapshots empty_DB = []" "db_jobs empty_DB = []"
  by (simp_all add: empty_DB_def)

lemma NewIPAM_simps: "allocated NewIPAM = Map.empty" "available NewIPAM = pool_addr 10 # tl pool"
  by (simp_all add: NewIPAM_def pool_def upt_conv_Cons)

lemma demo_driver [simp]: "is_firecracker (demo_on b)"
  unfolding is_firecracker_def demo_server_simps demo_env_simps by code_simp

lemmas sql_defs = GetVM_def query_def sql_def statement_def ListVMs_def GetImage_def GetImageByTag_def UpsertImage_def
  CreateVM_def UpdateVM_def AcquireLock_def ReleaseLock_def DeleteVM_def GetSnapshot_def CreateSnapshot_def

lemma wp_sql_demo [simp]:
  "wp (sql (demo_host b) f) Q w = Q (Some (fst (f (w_db w)))) (w\<lparr>w_db := snd (f (w_db w))\<rparr>)"
  "wp (query (demo_host b) g) Q' w = Q' (Some (g (w_db w))) w"
  "wp (statement (demo_host b) h) Q'' w = Q'' (fst (h (w_db w))) (w\<lparr>w_db := snd (h (w_db w))\<rparr>)"
  by (simp_all add: sql_def query_def statement_def)

subsection \<open>A created machine\<close>

definition demo_imaged :: "nat world" where
  "demo_imaged = demo_world\<lparr>w_db := empty_DB\<lparr>db_images := [demo_image]\<rparr>\<rparr>"

lemma demo_imaged_host [simp]: "w_host demo_imaged = 0"
  by (simp add: demo_imaged_def)

lemma demo_request_simps [simp]:
  "cr_Image demo_request = ''base''" "cr_Name demo_request = ''web''" "cr_Config demo_request = None"
  "cr_OwnerUserID demo_request = []" "cr_GroupID demo_request = []" "cr_AutoRegisterSPIFFE demo_request = None"
  by (simp_all add: demo_request_def)

lemma demo_existing: "wp (existing_vm (demo_on b) ''web'') Q demo_world = Q None demo_world"
  by (simp add: existing_vm_def GetVM_def find_vm_def)

lemma demo_resolved: "wp (resolveImageForCreate (demo_on b) ''base'') Q demo_world = Q (Inr demo_image) demo_imaged"
  by (simp add: resolveImageForCreate_def validateAndResolveImage_def has_prefix_def GetImageByTag_def
      find_image_by_tag_def UpsertImage_def upsert_image_def demo_imaged_def)

lemma base_config_simps [simp]:
  "vc_Network (base_config img) = base_network" "vc_VCPUs (base_config img) = 2" "vc_MemoryMiB (base_config img) = 512"
  "vc_Mounts (base_config img) = []" "vc_Secrets (base_config img) = []"
  "nc_PortForwards base_network = []" "nc_Mode base_network = ''nat''" "nc_MACAddress base_network = []"
  "nc_EgressPolicy base_network = None"
  by (simp_all add: base_config_def base_network_def)

lemma base_config_same [simp]:
  "(base_config img)\<lparr>vc_Network := base_network\<lparr>nc_PortForwards := []\<rparr>, vc_Mounts := [], vc_Secrets := []\<rparr> = base_config img"
  by (simp add: base_config_def base_network_def)

lemma demo_limits [simp]:
  "lm_MaxVMs (cf_Limits DefaultConfig) = 50" "lm_MaxVCPUsPerVM (cf_Limits DefaultConfig) = 8"
  "lm_MaxMemoryPerVMMiB (cf_Limits DefaultConfig) = 8192"
  "hn_Setup (cf_Network DefaultConfig)"  "sp_Enabled (cf_SPIRE DefaultConfig) = False"
  by (simp_all add: DefaultConfig_def)

lemma demo_prepared:
  "wp (prepareCreateVMConfig (demo_on b) demo_image demo_request) Q (demo_imaged\<lparr>w_host := n\<rparr>)
   = Q (Inr (base_config demo_image)) (demo_imaged\<lparr>w_host := n\<rparr>)"
  by (simp add: prepareCreateVMConfig_def prepareVMPortForwards_def buildVMConfig_def Let_def
      NormalizeAndValidateMounts_def NormalizeAndValidateSecrets_def validateVMResourceLimits_def ListVMs_def demo_imaged_def)

definition demo_config :: VMConfig where
  "demo_config = (let c = base_config demo_image in
     configured (c\<lparr>vc_Disks := map (\<lambda>d. d\<lparr>dk_PathOnHost := vmRootfsPath (st_DataDir (cf_Storage DefaultConfig)) ''vm0''\<rparr>) (vc_Disks c)\<rparr>)
       ''tap-vm0'' (pool_addr 10) (the (GenerateMAC (Some (1, 2, 3)))))"

definition demo_vm :: VM where
  "demo_vm = new_vm ''vm0'' demo_request demo_image demo_config 1 []"

definition demo_created :: "nat world" where
  "demo_created = \<lparr>w_db = empty_DB\<lparr>db_images := [demo_image], db_vms := [vm_row demo_vm]\<rparr>,
     w_ipam = NewIPAM\<lparr>available := tl pool, allocated := [''vm0'' \<mapsto> pool_addr 10]\<rparr>, w_host = 2\<rparr>"

lemma demo_disk_path: "vmRootfsPath (st_DataDir (cf_Storage DefaultConfig)) ''vm0'' = ''/var/lib/nanofuse/vms/vm0/rootfs.ext4''"
  by code_simp

lemma nat_digits_0 [simp]: "nat_digits 0 = ''0''"
  by code_simp

lemma demo_disks:
  "wp (materializeWritableRootDisks (demo_host b) (st_DataDir (cf_Storage DefaultConfig)) ''vm0'' (base_config demo_image)) Q n =
   Q (Some ((base_config demo_image)\<lparr>vc_Disks := map (\<lambda>d. d\<lparr>dk_PathOnHost := vmRootfsPath (st_DataDir (cf_Storage DefaultConfig)) ''vm0''\<rparr>)
     (vc_Disks (base_config demo_image))\<rparr>)) n"
  unfolding materializeWritableRootDisks_def demo_disk_path
  by (simp add: base_config_def demo_image_def copyFileAtomic_def Let_def)

lemma demo_networked:
  "wp (setupVMNetworking demo_server ''vm0'' ((base_config demo_image)\<lparr>vc_Disks := ds\<rparr>)) Q (demo_imaged\<lparr>w_host := Suc 0\<rparr>) =
   Q (Inr (configured ((base_config demo_image)\<lparr>vc_Disks := ds\<rparr>) ''tap-vm0'' (pool_addr 10) (the (GenerateMAC (Some (1, 2, 3))))))
     (demo_imaged\<lparr>w_host := Suc 0, w_ipam := NewIPAM\<lparr>available := tl pool, allocated := [''vm0'' \<mapsto> pool_addr 10]\<rparr>\<rparr>)"
  by (simp add: setupVMNetworking_def Let_def wp_AllocateIP NewIPAM_simps demo_imaged_def
      CreateTAPDevice_def AttachTAPToBridge_def setupEgressPolicy_def GenerateMAC_def)

lemma demo_create: "run_state (handleCreateVM demo_server (Some demo_request)) demo_world = (writeJSON 201 (VMBody demo_vm), demo_created)"
proof -
  have "wp (handleCreateVM demo_server (Some demo_request)) (\<lambda>r w. r = writeJSON 201 (VMBody demo_vm) \<and> w = demo_created) demo_world"
    by (simp add: handleCreateVM_def demo_existing demo_resolved rejectInvalidSPIRECreateInputs_def create_resolved_def
      spireRequired_def demo_prepared demo_disks create_networked_def demo_networked finish_create_def
      registerSPIREForCreate_def registerSPIREWorkload_def CreateVM_def Let_def)
       (simp add: Let_def insert_vm_def demo_vm_def demo_config_def demo_created_def demo_imaged_def demo_world_def)
  then show ?thesis by (simp add: wp_iff_run prod_eq_iff)
qed

text \<open>With failing commands the request is answered 500 after an address was taken.\<close>

definition demo_refused :: "nat world" where
  "demo_refused = demo_imaged\<lparr>w_host := 1, w_ipam := NewIPAM\<lparr>available := tl pool @ [pool_addr 10]\<rparr>\<rparr>"

lemma demo_create_refused:
  "run_state (handleCreateVM (demo_on False) (Some demo_request)) demo_world = (WriteError 500 ErrInternalError, demo_refused)"
proof -
  have net: "wp (setupVMNetworking (demo_on False) ''vm0'' ((base_config demo_image)\<lparr>vc_Disks := ds\<rparr>)) Q (demo_imaged\<lparr>w_host := Suc 0\<rparr>) =
   Q (Inl NetFailure) demo_refused" for ds Q
    by (simp add: setupVMNetworking_def Let_def wp_AllocateIP wp_ReleaseIP NewIPAM_simps demo_imaged_def demo_refused_def CreateTAPDevice_def)
       (simp add: NewIPAM_def)
  have "wp (handleCreateVM (demo_on False) (Some demo_request)) (\<lambda>r w. r = WriteError 500 ErrInternalError \<and> w = demo_refused) demo_world"
    by (simp add: handleCreateVM_def demo_existing demo_resolved rejectInvalidSPIRECreateInputs_def create_resolved_def
        spireRequired_def demo_prepared demo_disks create_networked_def net cleanupVMStorage_def writeNetworkSetupError_def)
  then show ?thesis by (simp add: wp_iff_run prod_eq_iff)
qed

lemma demo_config_simps [simp]:
  "nc_IPAddress (vc_Network demo_config) = pool_addr 10" "nc_Mode (vc_Network demo_config) = ''nat''"
  "nc_PortForwards (vc_Network demo_config) = []" "nc_EgressPolicy (vc_Network demo_config) = None"
  "nc_TapDevice (vc_Network demo_config) = ''tap-vm0''" "vc_VCPUs demo_config = 2" "vc_MemoryMiB demo_config = 512"
  by (simp_all add: demo_config_def configured_def Let_def)

definition demo_row :: VM where
  "demo_row = vm_row demo_vm"

lemma demo_row_simps [simp]:
  "vm_ID demo_row = ''vm0''" "vm_Name demo_row = ''web''" "vm_State demo_row = StateCreated"
  "vm_ImageDigest demo_row = ''sha256:aa''" "vm_Config demo_row = demo_config" "vm_Runtime demo_row = None"
  "vm_LockedBy demo_row = None" "vm_LockedAt demo_row = None" "vm_UpdatedAt demo_row = 1" "vm_SpiffeID demo_row = []"
  by (simp_all add: demo_row_def vm_row_def demo_vm_def new_vm_def demo_image_def)

lemma demo_created_simps [simp]:
  "db_vms (w_db demo_created) = [demo_row]" "db_images (w_db demo_created) = [demo_image]" "db_snapshots (w_db demo_created) = []"
  "w_host demo_created = 2" "allocated (w_ipam demo_created) = [''vm0'' \<mapsto> pool_addr 10]"
  by (simp_all add: demo_created_def demo_row_def)

definition demo_running :: "nat world" where
  "demo_running = demo_created\<lparr>w_db := (w_db demo_created)\<lparr>db_vms :=
     [demo_row\<lparr>vm_State := StateRunning, vm_Runtime := Some demo_runtime, vm_UpdatedAt := 5\<rparr>]\<rparr>, w_host := 6\<rparr>"

lemma demo_digest [simp]: "im_Digest demo_image = ''sha256:aa''"
  by (simp add: demo_image_def)

lemma demo_start:
  "run_state (handleVMStart demo_server ''web'') demo_created =
     (writeJSON 200 (VMBody (demo_row\<lparr>vm_State := StateRunning, vm_Runtime := Some demo_runtime, vm_UpdatedAt := 5\<rparr>)), demo_running)"
proof -
  have "wp (handleVMStart demo_server ''web'') (\<lambda>r w. r = writeJSON 200 (VMBody (demo_row\<lparr>vm_State := StateRunning,
      vm_Runtime := Some demo_runtime, vm_UpdatedAt := 5\<rparr>)) \<and> w = demo_running) demo_created"
    by (simp add: handleVMStart_def require_id_def with_vm_def locked_def performVMStart_def startRuntimeAndSetupNetwork_def
        GetVM_def find_vm_def AcquireLock_def ReleaseLock_def lock_vm_def unlock_vm_def UpdateVM_def update_vm_def
        GetImage_def find_image_def call_mgr_def set_runtime_def Let_def lockable_def)
       (simp add: demo_running_def)
  then show ?thesis by (simp add: wp_iff_run prod_eq_iff)
qed

end
