(* ===== verification/Creation.thy ===== *)
theory Creation
  imports Daemon Demo
begin

section \<open>What creating a machine does\<close>

text \<open>
  The create handler goes through the stages of \<open>vm_handlers.go\<close>: resolve the image, prepare and
  check the configuration, copy the root disk, set up networking, register an identity, insert the
  row; each failure undoes what came before. The lemmas follow the stages. The tables and the address
  manager are pinned between the stages (\<open>pinned\<close>), so a stage is described by its result alone.
\<close>

subsection \<open>Computations outside the process\<close>

definition yields :: "('a \<Rightarrow> bool) \<Rightarrow> ('s, 'a) comp \<Rightarrow> bool" where
  "yields R m \<longleftrightarrow> (\<forall>s. wp m (\<lambda>a _. R a) s)"

lemma yields_return: "R x \<Longrightarrow> yields R (State_Monad.return x)"
  by (simp add: yields_def)

lemma yields_bind: "yields R m \<Longrightarrow> (\<And>a. R a \<Longrightarrow> yields R' (f a)) \<Longrightarrow> yields R' (State_Monad.bind m f)"
  unfolding yields_def wp_bind by (intro allI, rule wp_mono [where P = "\<lambda>a _. R a"]) simp_all

lemma yields_bind_any: "(\<And>a. yields R' (f a)) \<Longrightarrow> yields R' (State_Monad.bind m f)"
  by (rule yields_bind [where R = "\<lambda>_. True"]) (simp_all add: yields_def)

lemma yields_mono: "yields R m \<Longrightarrow> (\<And>a. R a \<Longrightarrow> R' a) \<Longrightarrow> yields R' m"
  unfolding yields_def by (blast intro: wp_mono)

lemma wp_host_yields:
  assumes "yields R m" and "\<And>a h. R a \<Longrightarrow> Q a (w\<lparr>w_host := h\<rparr>)"
  shows "wp (on_host m) Q w"
  unfolding wp_on_host using assms by (auto simp: yields_def intro: wp_mono)

definition pinned :: "DB \<Rightarrow> IPAM \<Rightarrow> 'h world \<Rightarrow> bool" where
  "pinned d i w \<longleftrightarrow> w_db w = d \<and> w_ipam w = i"

lemma pinned_host [simp]: "pinned d i (w\<lparr>w_host := h\<rparr>) = pinned d i w"
  by (simp add: pinned_def)

lemma pinned_on_host: "pres (pinned d i) (on_host m)"
  by (rule pres_on_host) simp

lemma triple_on_host: "yields R m \<Longrightarrow> triple (pinned d i) R (on_host m)"
  by (rule tripleI, erule wp_host_yields) simp

subsection \<open>Port forwards\<close>

definition forwards_new :: "(string \<times> int) set \<Rightarrow> PortForward list \<Rightarrow> bool" where
  "forwards_new seen pfs \<longleftrightarrow> forwards_ok pfs \<and> (\<lambda>pf. (pf_Protocol pf, pf_HostPort pf)) ` set pfs \<inter> seen = {}"

lemma prepare_forwards_ok:
  "yields (\<lambda>r. case r of Inl _ \<Rightarrow> True | Inr out \<Rightarrow> forwards_new seen out \<and> length out = length pfs)
     (prepare_forwards E seen pfs)"
proof (induction pfs arbitrary: seen)
  case Nil
  show ?case by (simp add: yields_def forwards_new_def forwards_ok_def)
next
  case (Cons pf0 pfs)
  have step: "yields (\<lambda>r. case r of Inl _ \<Rightarrow> True | Inr out \<Rightarrow> forwards_new seen out \<and> length out = length (pf0 # pfs))
     (case prepare_one pf seen of
        Inl e \<Rightarrow> State_Monad.return (Inl e)
      | Inr pf \<Rightarrow> do {
          r \<leftarrow> prepare_forwards E (insert (pf_Protocol pf, pf_HostPort pf) seen) pfs;
          State_Monad.return (case r of Inl e \<Rightarrow> Inl e | Inr pfs \<Rightarrow> Inr (pf # pfs)) })" for pf
  proof (cases "prepare_one pf seen")
    case (Inr pf')
    then have "pf' = pf" "ValidatePortForward pf = None" "(pf_Protocol pf, pf_HostPort pf) \<notin> seen"
      by (auto simp: prepare_one_def split: if_splits)
    then show ?thesis unfolding Inr sum.case
      by (intro yields_bind [OF Cons.IH] yields_return)
         (auto simp: forwards_new_def forwards_ok_def split: sum.splits)
  qed (simp add: yields_def)
  show ?case
    unfolding prepare_forwards.simps Let_def
    by (intro yields_bind_any, split option.split) (simp add: step yields_return)
qed

subsection \<open>The image\<close>

definition has_image :: "Image \<Rightarrow> 'h world \<Rightarrow> bool" where
  "has_image img w \<longleftrightarrow> im_Digest img \<in> im_Digest ` set (db_images (w_db w))"

text \<open>The machines, the address manager and the invariant stay; the image is in its table.\<close>

definition same_machines :: "LimitsConfig \<Rightarrow> VM list \<Rightarrow> IPAM \<Rightarrow> 'h world \<Rightarrow> bool" where
  "same_machines limits vs i w \<longleftrightarrow> daemon_inv limits w \<and> db_vms (w_db w) = vs \<and> w_ipam w = i"

lemma same_machines_host [simp]: "same_machines limits vs i (w\<lparr>w_host := h\<rparr>) = same_machines limits vs i w"
  by (simp add: same_machines_def daemon_inv_def)

lemma find_image_has:
  "find_image dg (w_db w) = Some img \<Longrightarrow> has_image img w"
  "find_image_by_tag dg (w_db w) = Some img \<Longrightarrow> has_image img w"
  by (auto simp: find_image_def find_image_by_tag_def has_image_def dest: find_Some_iff)

lemma has_image_upsert: "has_image img (w\<lparr>w_host := h, w_db := upsert_image img (w_db w)\<rparr>)"
  by (force simp: has_image_def upsert_image_def list_ex_iff)

lemma same_machines_upsert:
  "same_machines limits vs i w \<Longrightarrow> same_machines limits vs i (w\<lparr>w_host := h, w_db := upsert_image img (w_db w)\<rparr>)"
  by (auto simp: same_machines_def daemon_inv_def tables_ok_others) (simp_all add: upsert_image_def)

lemma resolve_keeps:
  assumes "same_machines limits vs i w"
    and "\<And>resp w'. rs_Status resp \<noteq> 201 \<Longrightarrow> same_machines limits vs i w' \<Longrightarrow> Q (Inl resp) w'"
    and "\<And>img w'. has_image img w' \<Longrightarrow> same_machines limits vs i w' \<Longrightarrow> Q (Inr img) w'"
  shows "wp (resolveImageForCreate S ref) Q w"
proof -
  have host: "has_image img (w'\<lparr>w_host := h\<rparr>) = has_image img w'" for img h and w' :: "'a world"
    by (simp add: has_image_def)
  have fail: "Q (Inl (WriteError 404 ErrImageNotFound)) w'" "Q (Inl (WriteError 500 ErrInternalError)) w'"
    if "same_machines limits vs i w'" for w' using that assms(2) by auto
  show ?thesis
    unfolding resolveImageForCreate_def validateAndResolveImage_def GetImage_def GetImageByTag_def wp_bind wp_if
    using assms(1)
    by (auto intro!: wp_queryI wp_hostI wp_statementI fail assms(3) simp: UpsertImage_def host find_image_has
        has_image_upsert same_machines_upsert
        simp del: wp_on_host split: option.splits)
qed

subsection \<open>The configuration\<close>

definition prepared :: "LimitsConfig \<Rightarrow> DB \<Rightarrow> VMConfig \<Rightarrow> bool" where
  "prepared limits d c \<longleftrightarrow> config_ok limits c \<and> nc_IPAddress (vc_Network c) = []
     \<and> int (length (db_vms d)) < lm_MaxVMs limits"

lemma buildVMConfig_ip: "nc_IPAddress (vc_Network (buildVMConfig img req)) = []"
  by (simp add: buildVMConfig_def base_config_def base_network_def override_network_def Let_def split: option.split)

lemma forwards_prepared:
  "yields (\<lambda>r. case r of Inl _ \<Rightarrow> True
     | Inr c \<Rightarrow> forwards_ok (nc_PortForwards (vc_Network c)) \<and> nc_IPAddress (vc_Network c) = nc_IPAddress (vc_Network config))
     (prepareVMPortForwards E config)"
  unfolding prepareVMPortForwards_def
  by (rule yields_bind [OF prepare_forwards_ok]) (auto simp: forwards_new_def intro!: yields_return split: sum.splits)

lemma limits_checked:
  "triple (pinned d i) (\<lambda>ok. ok \<longrightarrow> vc_VCPUs c \<le> lm_MaxVCPUsPerVM (limits_of S)
     \<and> vc_MemoryMiB c \<le> lm_MaxMemoryPerVMMiB (limits_of S) \<and> int (length (db_vms d)) < lm_MaxVMs (limits_of S))
     (validateVMResourceLimits S c)"
  unfolding validateVMResourceLimits_def ListVMs_def Let_def
  by (rule tripleI) (auto simp: pinned_def intro!: wp_queryI)

lemma config_prepared:
  "triple (pinned d i) (\<lambda>r. case r of Inl resp \<Rightarrow> rs_Status resp \<noteq> 201 | Inr c \<Rightarrow> prepared (limits_of S) d c)
     (prepareCreateVMConfig S img req)"
  unfolding prepareCreateVMConfig_def
proof (rule triple_bind [OF triple_on_host [OF forwards_prepared]], goal_cases)
  case (1 r)
  then show ?case
    by (cases r)
       (auto simp: writePortForwardPreparationError_def prepared_def config_ok_def buildVMConfig_ip Let_def
         intro!: triple_return triple_bind [OF limits_checked] split: sum.splits if_splits)
qed

definition same_resources :: "VMConfig \<Rightarrow> VMConfig \<Rightarrow> bool" where
  "same_resources c c' \<longleftrightarrow> vc_VCPUs c' = vc_VCPUs c \<and> vc_MemoryMiB c' = vc_MemoryMiB c
     \<and> nc_PortForwards (vc_Network c') = nc_PortForwards (vc_Network c)"

lemma config_ok_same: "config_ok limits c \<Longrightarrow> same_resources c c' \<Longrightarrow> config_ok limits c'"
  by (simp add: config_ok_def same_resources_def)

lemma disks_materialized:
  "yields (\<lambda>r. case r of None \<Rightarrow> True | Some c' \<Rightarrow> same_resources c c' \<and> vc_Network c' = vc_Network c)
     (materializeWritableRootDisks E dir i c)"
  unfolding materializeWritableRootDisks_def
  by (intro yields_bind_any yields_return) (auto simp: same_resources_def split: option.splits)

subsection \<open>The address\<close>

text \<open>What allocating for \<open>v\<close> and giving kept do to the address manager; with the id new, exactly.\<close>

definition grabbed :: "IPAM \<Rightarrow> string \<Rightarrow> string \<Rightarrow> IPAM \<Rightarrow> bool" where
  "grabbed i v ip i' \<longleftrightarrow> ipam_inv i' \<and> ip \<noteq> [] \<and> allocated i' v = Some ip
     \<and> (allocated i v = None \<longrightarrow> allocated i' = (allocated i)(v \<mapsto> ip))"

definition restored :: "IPAM \<Rightarrow> string \<Rightarrow> IPAM \<Rightarrow> bool" where
  "restored i v i' \<longleftrightarrow> ipam_inv i' \<and> (allocated i v = None \<longrightarrow> allocated i' = allocated i)"

definition holds_address :: "IPAM \<Rightarrow> string \<Rightarrow> VMConfig \<Rightarrow> IPAM \<Rightarrow> bool" where
  "holds_address i v c i' \<longleftrightarrow>
     (let ip = nc_IPAddress (vc_Network c) in if ip = [] then restored i v i' else grabbed i v ip i')"

lemma restored_refl: "ipam_inv i \<Longrightarrow> restored i v i"
  by (simp add: restored_def)

lemma pool_not_Nil: "ip \<in> set pool \<Longrightarrow> ip \<noteq> []"
  by (auto simp: pool_def pool_addr_def)

lemma held_not_Nil: "ipam_inv i \<Longrightarrow> allocated i v = Some ip \<Longrightarrow> ip \<noteq> []"
  using pool_not_Nil unfolding ipam_inv_def ran_def by blast

lemma wp_AllocateI:
  assumes "ipam_inv (w_ipam w)" and "Q None w"
    and "\<And>ip i'. grabbed (w_ipam w) v ip i' \<Longrightarrow> Q (Some ip) (w\<lparr>w_ipam := i'\<rparr>)"
  shows "wp (on_ipam (AllocateIP v)) Q w"
proof (cases "allocated (w_ipam w) v")
  case (Some ip)
  then have "grabbed (w_ipam w) v ip (w_ipam w)"
    using assms(1) held_not_Nil by (auto simp: grabbed_def)
  with Some assms(3) show ?thesis by (fastforce simp: wp_AllocateIP)
next
  case None
  show ?thesis
  proof (cases "available (w_ipam w)")
    case Nil
    with None assms(2) show ?thesis by (simp add: wp_AllocateIP)
  next
    case (Cons ip rest)
    let ?i = "(w_ipam w)\<lparr>available := rest, allocated := (allocated (w_ipam w))(v \<mapsto> ip)\<rparr>"
    have inv: "ipam_inv ?i" using ipam_inv_alloc [OF assms(1) None Cons] .
    have "grabbed (w_ipam w) v ip ?i" using inv held_not_Nil [OF inv, of v ip] by (simp add: grabbed_def)
    with assms(3) show ?thesis by (simp add: wp_AllocateIP None Cons)
  qed
qed

lemma wp_ReleaseI:
  assumes "grabbed i v ip (w_ipam w)" and "\<And>i'. restored i v i' \<Longrightarrow> Q () (w\<lparr>w_ipam := i'\<rparr>)"
  shows "wp (on_ipam (ReleaseIP v)) Q w"
proof -
  have g: "ipam_inv (w_ipam w)" "allocated (w_ipam w) v = Some ip"
    "allocated i v = None \<longrightarrow> allocated (w_ipam w) = (allocated i)(v \<mapsto> ip)"
    using assms(1) by (simp_all add: grabbed_def)
  let ?i = "(w_ipam w)\<lparr>allocated := (allocated (w_ipam w))(v := None), available := available (w_ipam w) @ [ip]\<rparr>"
  have "restored i v ?i"
    using ipam_inv_release [OF g(1,2)] g(3) by (auto simp: restored_def)
  with assms(2) g(2) show ?thesis by (simp add: wp_ReleaseIP)
qed

lemma networking_set_up:
  assumes "pinned d i w" and inv: "ipam_inv i" and no_ip: "nc_IPAddress (vc_Network c) = []"
    and failed: "\<And>e w'. w_db w' = d \<Longrightarrow> restored i v (w_ipam w') \<Longrightarrow> Q (Inl e) w'"
    and up: "\<And>c' w'. w_db w' = d \<Longrightarrow> holds_address i v c' (w_ipam w') \<Longrightarrow> same_resources c c' \<Longrightarrow> Q (Inr c') w'"
  shows "wp (setupVMNetworking S v c) Q w"
proof -
  have w: "w_db w = d" "w_ipam w = i" using assms(1) by (simp_all add: pinned_def)
  have unchanged: "Q (Inl e) w" "Q (Inr c) w" for e
    using w inv no_ip by (auto intro!: failed up simp: restored_refl holds_address_def same_resources_def)
  let ?w = "\<lambda>i' h. w\<lparr>w_ipam := i', w_host := h\<rparr>"
  have up': "Q (Inr (configured c tap ip m)) (?w i' h)" if "grabbed i v ip i'" for tap ip m i' h
    using that w by (intro up) (auto simp: holds_address_def configured_def same_resources_def grabbed_def)
  have undo: "wp (on_ipam (ReleaseIP v)) (\<lambda>_. Q (Inl e)) (?w i' h)" if "grabbed i v ip i'" for e ip i' h
    by (rule wp_ReleaseI [where i = i and ip = ip]) (use that w in \<open>simp_all add: failed\<close>)
  show ?thesis
    unfolding setupVMNetworking_def Let_def
    by (intro wp_intros wp_AllocateI wp_hostI; simp add: w inv unchanged del: wp_on_ipam)
       (rule up' undo; simp)+
qed

subsection \<open>Identity, row and rollback\<close>

lemma created_cleaned_up:
  assumes "w_db w = d" and "holds_address i v c (w_ipam w)"
    and "\<And>w'. w_db w' = d \<Longrightarrow> restored i v (w_ipam w') \<Longrightarrow> Q () w'"
  shows "wp (cleanupCreatedVMResources S v c) Q w"
proof (cases "nc_IPAddress (vc_Network c) = []")
  case True
  with assms show ?thesis
    unfolding cleanupCreatedVMResources_def Let_def
    by (intro wp_intros wp_hostI) (simp_all add: holds_address_def)
next
  case False
  with assms show ?thesis
    unfolding cleanupCreatedVMResources_def Let_def
    by (intro wp_intros wp_hostI wp_ReleaseI [where i = i and ip = "nc_IPAddress (vc_Network c)"])
       (simp_all add: holds_address_def)
qed

lemma identity_registered:
  assumes "w_db w = d" and "holds_address i v c (w_ipam w)"
    and refused: "\<And>resp w'. rs_Status resp \<noteq> 201 \<Longrightarrow> w_db w' = d \<Longrightarrow> restored i v (w_ipam w') \<Longrightarrow> Q (Inl resp) w'"
    and granted: "\<And>sid w'. (spireRequired S \<Longrightarrow> sid \<noteq> []) \<Longrightarrow> w_db w' = d \<Longrightarrow> holds_address i v c (w_ipam w') \<Longrightarrow> Q (Inr sid) w'"
  shows "wp (registerSPIREForCreate S v req c) Q w"
proof -
  have finish: "wp (if \<not> spireRequired S \<or> \<not> isl r \<and> sid \<noteq> [] then State_Monad.return (Inr sid)
     else do { _ \<leftarrow> cleanupCreatedVMResources S v c; State_Monad.return (Inl (WriteError 503 ErrServiceUnavailable)) }) Q w'"
    if "w_db w' = d" "holds_address i v c (w_ipam w')" for r :: "unit + string" and sid w'
    using that by (intro wp_intros created_cleaned_up [where d = d and i = i]) (auto intro: refused granted)
  let ?G = "\<lambda>w'. w_db w' = d \<and> holds_address i v c (w_ipam w')"
  have "pres ?G (registerSPIREWorkload S v req)"
    unfolding registerSPIREWorkload_def Let_def by (intro pres_intros) simp_all
  then show ?thesis
    unfolding registerSPIREForCreate_def Let_def wp_bind
    by (rule pres_wp) (use finish assms(1,2) in \<open>simp_all add: wp_bind\<close>)
qed

definition inserted :: "'h Server \<Rightarrow> DB \<Rightarrow> IPAM \<Rightarrow> string \<Rightarrow> CreateVMRequest \<Rightarrow> Image \<Rightarrow> VMConfig \<Rightarrow> VM \<Rightarrow> 'h world \<Rightarrow> bool" where
  "inserted S d i v req img c vm w \<longleftrightarrow> (\<exists>now sid. vm = new_vm v req img c now sid \<and> (spireRequired S \<longrightarrow> sid \<noteq> []))
     \<and> insert_vm vm d = (True, w_db w) \<and> holds_address i v c (w_ipam w)"

lemma creation_finished:
  assumes "w_db w = d" and "holds_address i v c (w_ipam w)"
    and refused: "\<And>resp w'. rs_Status resp \<noteq> 201 \<Longrightarrow> w_db w' = d \<Longrightarrow> restored i v (w_ipam w') \<Longrightarrow> Q resp w'"
    and accepted: "\<And>vm w'. inserted S d i v req img c vm w' \<Longrightarrow> Q (writeJSON 201 (VMBody vm)) w'"
  shows "wp (finish_create S v req img c) Q w"
proof -
  have insert: "wp (do {
       ok \<leftarrow> CreateVM (s_env S) vm;
       if \<not> ok then do {
         _ \<leftarrow> cleanupCreatedVMResources S v c;
         _ \<leftarrow> (case s_spireService S of
              Some reg \<Rightarrow> if sid \<noteq> [] then on_host (sr_DeleteVMWorkloadEntry reg sid) else State_Monad.return True
            | None \<Rightarrow> State_Monad.return True);
         State_Monad.return (WriteError 500 ErrInternalError) }
       else State_Monad.return (writeJSON 201 (VMBody vm)) }) Q w'"
    if w': "w_db w' = d" "holds_address i v c (w_ipam w')" and vm: "vm = new_vm v req img c now sid" "spireRequired S \<longrightarrow> sid \<noteq> []"
    for w' vm now sid
  proof -
    have undo: "wp (do {
         _ \<leftarrow> cleanupCreatedVMResources S v c;
         _ \<leftarrow> (case s_spireService S of
              Some reg \<Rightarrow> if sid \<noteq> [] then on_host (sr_DeleteVMWorkloadEntry reg sid) else State_Monad.return True
            | None \<Rightarrow> State_Monad.return True);
         State_Monad.return (WriteError 500 ErrInternalError) }) Q w''"
      if "w_db w'' = d" "holds_address i v c (w_ipam w'')" for w''
      using that by (intro wp_intros wp_hostI created_cleaned_up [where d = d and i = i]) (auto intro!: refused)
    show ?thesis
      unfolding CreateVM_def wp_bind
      by (rule wp_statementI; (intro wp_ifI)?; (rule undo)?; (intro wp_returnI accepted)?)
         (use w' vm in \<open>auto simp: insert_vm_def inserted_def split: if_splits\<close>)
  qed
  show ?thesis
    unfolding finish_create_def Let_def
    by (intro wp_intros wp_hostI identity_registered [where d = d and i = i] insert)
       (simp_all add: assms(1,2) refused)
qed

subsection \<open>The handler\<close>

lemma existing_checked:
  assumes "\<And>h. Q None (w\<lparr>w_host := h\<rparr>)" and "Q None w"
    and "\<And>resp h. rs_Status resp \<noteq> 201 \<Longrightarrow> Q (Some resp) (w\<lparr>w_host := h\<rparr>)"
  shows "wp (existing_vm S name) Q w"
  unfolding existing_vm_def by (intro wp_intros wp_GetVMI) (simp_all add: assms)

lemma reject_status: "rejectInvalidSPIRECreateInputs S req = Some resp \<Longrightarrow> rs_Status resp \<noteq> 201"
  by (auto simp: rejectInvalidSPIRECreateInputs_def split: if_splits option.splits)

lemma network_error_status:
  "rs_Status (case writeNetworkSetupError e of Some resp \<Rightarrow> resp | None \<Rightarrow> WriteError 500 ErrInternalError) \<noteq> 201"
  by (simp add: writeNetworkSetupError_def)

lemma tables_ok_insert:
  assumes "tables_ok limits d" and "insert_vm vm d = (True, d')" and "config_ok limits (vm_Config vm)"
    and "vm_ImageDigest vm \<in> im_Digest ` set (db_images d)" and "int (length (db_vms d)) < lm_MaxVMs limits"
  shows "tables_ok limits d'" and "db_vms d' = db_vms d @ [vm_row vm]"
proof -
  have d': "d' = d\<lparr>db_vms := db_vms d @ [vm_row vm]\<rparr>"
    using assms(2) by (auto simp: insert_vm_def split: if_splits)
  then show "db_vms d' = db_vms d @ [vm_row vm]" by simp
  have "db_inv d'" using db_inv_insert_vm [OF tables_okD(1) [OF assms(1)], of vm] assms(2) by simp
  then show "tables_ok limits d'" using assms by (auto simp: tables_ok_def d' vm_row_def)
qed

text \<open>The stage after the image: from a world with tables \<open>d\<close> and addresses \<open>i\<close>.\<close>

definition accepted_create :: "'h Server \<Rightarrow> VM list \<Rightarrow> IPAM \<Rightarrow> string \<Rightarrow> CreateVMRequest \<Rightarrow> VM \<Rightarrow> 'h world \<Rightarrow> bool" where
  "accepted_create S vs i v req vm w \<longleftrightarrow> daemon_inv (limits_of S) w
     \<and> (\<exists>img c now sid. vm = new_vm v req img c now sid \<and> (spireRequired S \<longrightarrow> sid \<noteq> [])
          \<and> config_ok (limits_of S) c \<and> has_image img w)
     \<and> list_all (\<lambda>r. vm_ID r \<noteq> vm_ID vm \<and> vm_Name r \<noteq> vm_Name vm) vs
     \<and> db_vms (w_db w) = vs @ [vm_row vm] \<and> holds_address i v (vm_Config vm) (w_ipam w)"

definition refused_create :: "'h Server \<Rightarrow> VM list \<Rightarrow> IPAM \<Rightarrow> string \<Rightarrow> 'h world \<Rightarrow> bool" where
  "refused_create S vs i v w \<longleftrightarrow>
     daemon_inv (limits_of S) w \<and> db_vms (w_db w) = vs \<and> restored i v (w_ipam w)"

lemma inserted_accepted:
  assumes d: "tables_ok (limits_of S) d" and "im_Digest img \<in> im_Digest ` set (db_images d)"
    and "prepared (limits_of S) d c0" and "same_resources c0 c" and ins: "inserted S d i v req img c vm w"
  shows "accepted_create S (db_vms d) i v req vm w"
proof -
  obtain now sid where vm: "vm = new_vm v req img c now sid" "spireRequired S \<longrightarrow> sid \<noteq> []"
    and row: "insert_vm vm d = (True, w_db w)" and addr: "holds_address i v c (w_ipam w)"
    using ins by (auto simp: inserted_def)
  have c: "config_ok (limits_of S) c" and room: "int (length (db_vms d)) < lm_MaxVMs (limits_of S)"
    using assms(3,4) by (auto simp: prepared_def intro: config_ok_same)
  have vmc: "vm_Config vm = c" "vm_ImageDigest vm = im_Digest img" by (simp_all add: vm new_vm_def)
  note t = tables_ok_insert [OF d row, unfolded vmc, OF c assms(2) room]
  have "ipam_inv (w_ipam w)"
    using addr by (auto simp: holds_address_def restored_def grabbed_def Let_def split: if_splits)
  moreover have "db_images (w_db w) = db_images d"
    and "list_all (\<lambda>r. vm_ID r \<noteq> vm_ID vm \<and> vm_Name r \<noteq> vm_Name vm) (db_vms d)"
    using row by (auto simp: insert_vm_def list_ex_iff list_all_iff split: if_splits dest!: sym [of _ "w_db w"])
  ultimately show ?thesis
    using t vm c addr assms(2) vmc
    by (auto simp: accepted_create_def daemon_inv_def has_image_def intro!: exI [of _ img] exI [of _ c])
qed

lemma wp_create_networked:
  assumes d: "tables_ok (limits_of S) d" "ipam_inv i" "im_Digest img \<in> im_Digest ` set (db_images d)" "pinned d i w"
    and c: "prepared (limits_of S) d c0" "same_resources c0 c" "vc_Network c = vc_Network c0"
    and refused: "\<And>resp w'. rs_Status resp \<noteq> 201 \<Longrightarrow> refused_create S (db_vms d) i v w' \<Longrightarrow> Q resp w'"
    and accepted: "\<And>vm w'. accepted_create S (db_vms d) i v req vm w' \<Longrightarrow> Q (writeJSON 201 (VMBody vm)) w'"
  shows "wp (create_networked S v req img c) Q w"
proof -
  have undone: "refused_create S (db_vms d) i v w'" if "w_db w' = d" "restored i v (w_ipam w')" for w' :: "'a world"
    using that d by (simp add: refused_create_def daemon_inv_def restored_def)
  have trans: "same_resources c0 b" if "same_resources c b" for b
    using that c(2) by (simp add: same_resources_def)
  show ?thesis
    unfolding create_networked_def
  proof (rule wp_bindI, rule networking_set_up [OF d(4,2)], goal_cases)
    case 1 then show ?case using c by (simp add: prepared_def)
  next
    case (2 e w')
    then show ?case unfolding sum.case
      by (intro wp_intros wp_hostI refused [OF network_error_status] undone) simp_all
  next
    case (3 c' w')
    show ?case unfolding sum.case
      by (rule creation_finished [OF 3(1,2)], rule refused, assumption, erule undone, assumption)
         (intro accepted inserted_accepted [OF d(1,3) c(1) trans [OF 3(3)]])
  qed
qed

lemma wp_create_resolved:
  assumes w: "same_machines (limits_of S) vs i w" "has_image img w" and uuid: "yields U (env_uuid (s_env S))"
    and early: "\<And>resp w'. rs_Status resp \<noteq> 201 \<Longrightarrow> same_machines (limits_of S) vs i w' \<Longrightarrow> Q resp w'"
    and refused: "\<And>resp v w'. rs_Status resp \<noteq> 201 \<Longrightarrow> U v \<Longrightarrow> refused_create S vs i v w' \<Longrightarrow> Q resp w'"
    and accepted: "\<And>v vm w'. U v \<Longrightarrow> accepted_create S vs i v req vm w' \<Longrightarrow> Q (writeJSON 201 (VMBody vm)) w'"
  shows "wp (create_resolved S req img) Q w"
proof -
  define d where "d = w_db w"
  have d: "tables_ok (limits_of S) d" "ipam_inv i" "im_Digest img \<in> im_Digest ` set (db_images d)" "pinned d i w"
    and vs: "db_vms d = vs"
    using w by (auto simp: same_machines_def daemon_inv_def d_def pinned_def has_image_def)
  have kept: "same_machines (limits_of S) vs i w'" if "pinned d i w'" for w' :: "'a world"
    using that d vs by (simp add: same_machines_def daemon_inv_def pinned_def)
  show ?thesis
    unfolding create_resolved_def wp_bind
  proof (rule wp_host_yields [OF uuid], rule triple_wp [OF config_prepared [of d i]], goal_cases)
    case (1 v h) then show ?case using d(4) by simp
  next
    case (2 v h r w2)
    show ?case
    proof (cases r)
      case (Inl resp)
      then show ?thesis using 2 by (auto intro: early kept)
    next
      case (Inr c0)
      then have c0: "prepared (limits_of S) d c0" and w2: "pinned d i w2" using 2 by simp_all
      have net: "wp (create_networked S v req img c) Q w3"
        if "pinned d i w3" "same_resources c0 c" "vc_Network c = vc_Network c0" for c w3
        by (rule wp_create_networked [OF d(1-3) that(1) c0 that(2,3)])
           (use 2 vs in \<open>auto intro: refused accepted\<close>)
      show ?thesis
        unfolding Inr sum.case wp_bind
        by (rule wp_host_yields [OF disks_materialized], rule wp_optionI)
           (use w2 in \<open>auto intro!: early kept net\<close>)
    qed
  qed
qed

lemma wp_handleCreateVM:
  assumes inv: "daemon_inv (limits_of S) w" and uuid: "yields U (env_uuid (s_env S))"
    and early: "\<And>resp w'. rs_Status resp \<noteq> 201 \<Longrightarrow> same_machines (limits_of S) (db_vms (w_db w)) (w_ipam w) w' \<Longrightarrow> Q resp w'"
    and refused: "\<And>resp v w'. rs_Status resp \<noteq> 201 \<Longrightarrow> U v \<Longrightarrow> refused_create S (db_vms (w_db w)) (w_ipam w) v w' \<Longrightarrow> Q resp w'"
    and accepted: "\<And>req v vm w'. body = Some req \<Longrightarrow> U v \<Longrightarrow>
      accepted_create S (db_vms (w_db w)) (w_ipam w) v req vm w' \<Longrightarrow> Q (writeJSON 201 (VMBody vm)) w'"
  shows "wp (handleCreateVM S body) Q w"
proof (cases body)
  case (Some req)
  let ?same = "same_machines (limits_of S) (db_vms (w_db w)) (w_ipam w)"
  have same: "?same w" using inv by (simp add: same_machines_def)
  have rest: "wp (create_resolved S req img) Q w'" if "?same w'" "has_image img w'" for img w'
    by (rule wp_create_resolved [OF that uuid]) (simp_all add: early refused accepted Some)
  have resolve: "wp (resolveImageForCreate S ref) (\<lambda>r. wp (case r of Inl resp \<Rightarrow> State_Monad.return resp
      | Inr img \<Rightarrow> create_resolved S req img) Q) w'" if "?same w'" for ref w'
    by (rule resolve_keeps [OF that]) (simp_all add: early rest)
  show ?thesis
    unfolding handleCreateVM_def Some option.case
    by (intro wp_ifI wp_returnI wp_bindI existing_checked; (intro wp_optionI wp_returnI wp_bindI resolve)?)
       (auto intro!: early dest: reject_status simp: same)
qed (simp add: handleCreateVM_def early same_machines_def inv)

lemma handleCreateVM_keeps: "pres (daemon_inv (limits_of S)) (handleCreateVM S body)"
  unfolding pres_iff_wp
  by (intro allI impI, erule wp_handleCreateVM [where U = "\<lambda>_. True"])
     (simp_all add: yields_def same_machines_def refused_create_def accepted_create_def)

end
