(* ===== verification/System.thy ===== *)
theory System
  imports Creation
begin

section \<open>The daemon as a transition system\<close>

text \<open>
  The requests that \<open>setupHTTPRouter\<close> of \<open>server.go\<close> registers, one constructor per route with the
  path parameter and the decoded body, and the two internal events: a runtime process ends, and the
  goroutine of a pull job runs. \<open>serve\<close> is the dispatch. Matching of paths and methods belongs to
  \<open>net/http\<close>; the status page, the health, capability and recording routes do not touch the tables and
  are left out. One request runs to its end before the next one starts.
\<close>

datatype api_call =
    CallListVMs string | CallCreateVM "CreateVMRequest option" | CallGetVM string | CallDeleteVM string
  | CallVMStart string | CallVMStop string "int option option" | CallVMKill string | CallVMPause string
  | CallVMResume string "string option option" | CallVMLogs string "int option" | CallVMExec string "VMExecRequest option"
  | CallListSnapshots string | CallCreateSnapshot string "string option"
  | CallListBackups string | CallCreateBackup string
  | CallImages | CallImagePull "string option" | CallImageJob string | CallGetImage string | CallDeleteImage string
  | CallGetSnapshot string | CallDeleteSnapshot string | CallBackup string
  | ProcessExit string "int option" bool | PullJob string string

type_synonym 'h registry_client = "string \<Rightarrow> ('h, PullProgress list \<times> Image option) comp"

definition answer :: "('s, 'a) comp \<Rightarrow> ('s, 'a option) comp" where
  "answer m = do { r \<leftarrow> m; State_Monad.return (Some r) }"

definition silent :: "('s, 'b) comp \<Rightarrow> ('s, 'a option) comp" where
  "silent m = do { _ \<leftarrow> m; State_Monad.return None }"

fun serve :: "'h Server \<Rightarrow> 'h registry_client \<Rightarrow> api_call \<Rightarrow> ('h world, Response option) comp" where
  "serve S pull (CallListVMs flt) = answer (handleListVMs S flt)"
| "serve S pull (CallCreateVM body) = answer (handleCreateVM S body)"
| "serve S pull (CallGetVM i) = answer (handleGetVM S i)"
| "serve S pull (CallDeleteVM i) = answer (handleDeleteVM S i)"
| "serve S pull (CallVMStart i) = answer (handleVMStart S i)"
| "serve S pull (CallVMStop i body) = answer (handleVMStop S i body)"
| "serve S pull (CallVMKill i) = answer (handleVMKill S i)"
| "serve S pull (CallVMPause i) = answer (handleVMPause S i)"
| "serve S pull (CallVMResume i body) = answer (handleVMResume S i body)"
| "serve S pull (CallVMLogs i lines) = answer (handleVMLogs S i lines)"
| "serve S pull (CallVMExec i body) = answer (handleVMExec S i body)"
| "serve S pull (CallListSnapshots i) = answer (handleListSnapshots S i)"
| "serve S pull (CallCreateSnapshot i body) = answer (handleCreateSnapshot S i body)"
| "serve S pull (CallListBackups i) = answer (handleListBackups S i)"
| "serve S pull (CallCreateBackup i) = answer (handleCreateBackup S i)"
| "serve S pull CallImages = answer (handleImages S)"
| "serve S pull (CallImagePull body) = do { r \<leftarrow> handleImagePull S body; State_Monad.return (Some (fst r)) }"
| "serve S pull (CallImageJob i) = answer (handleImageJob S i)"
| "serve S pull (CallGetImage i) = answer (handleGetImage S i)"
| "serve S pull (CallDeleteImage i) = answer (handleDeleteImage S i)"
| "serve S pull (CallGetSnapshot i) = answer (handleGetSnapshot S i)"
| "serve S pull (CallDeleteSnapshot i) = answer (handleDeleteSnapshot S i)"
| "serve S pull (CallBackup i) = answer (handleBackup i)"
| "serve S pull (ProcessExit i code failed) = silent (handleVMProcessExit S i code failed)"
| "serve S pull (PullJob i ref) = silent (executePullJob S pull i ref)"

text \<open>A daemon on an empty database, and what requests, events and the outside world make of it.\<close>

inductive reachable :: "'h Server \<Rightarrow> 'h registry_client \<Rightarrow> 'h world \<Rightarrow> bool" for S pull where
  start: "reachable S pull \<lparr>w_db = empty_DB, w_ipam = NewIPAM, w_host = h\<rparr>"
| request: "reachable S pull w \<Longrightarrow> run_state (serve S pull c) w = (resp, w') \<Longrightarrow> reachable S pull w'"
| outside: "reachable S pull w \<Longrightarrow> reachable S pull (w\<lparr>w_host := h\<rparr>)"

subsection \<open>The invariant of the daemon\<close>

lemma answer_keeps: "wp m (\<lambda>_. I) w \<Longrightarrow> wp (answer m) (\<lambda>_. I) w" "wp m' (\<lambda>_. I) w \<Longrightarrow> wp (silent m') (\<lambda>_. I) w"
  by (simp_all add: answer_def silent_def)

lemma pres_D: "pres I m \<Longrightarrow> I w \<Longrightarrow> wp m (\<lambda>_. I) w"
  by (simp add: pres_iff_wp)

text \<open>The calls other than creation, for any invariant that allows what they do to the machine they
  address.\<close>

fun addressee :: "api_call \<Rightarrow> string option" where
  "addressee (CallDeleteVM i) = Some i"
| "addressee (CallVMStart i) = Some i"
| "addressee (CallVMStop i body) = Some i"
| "addressee (CallVMKill i) = Some i"
| "addressee (CallVMPause i) = Some i"
| "addressee (CallVMResume i body) = Some i"
| "addressee (CallCreateSnapshot i body) = Some i"
| "addressee (ProcessExit i code failed) = Some i"
| "addressee c = None"

text \<open>The states a call may leave its machine in, by the state it finds.\<close>

fun allowed :: "api_call \<Rightarrow> VMState \<Rightarrow> VMState set" where
  "allowed (CallVMStart i) s =
     (if s \<in> {StateCreated, StateStopped} then {s, StateStarting, StateRunning, StateFailed} else {s})"
| "allowed (CallVMStop i body) s =
     (if s \<in> {StateRunning, StatePaused} then {s, StateStopping, StateStopped, StateFailed} else {s})"
| "allowed (CallVMKill i) s = {s, StateStopped}"
| "allowed (CallVMPause i) s = (if s = StateRunning then {StateRunning, StatePausing, StatePaused} else {s})"
| "allowed (CallVMResume i body) s =
     (if body = Some None \<and> s = StatePaused then {StatePaused, StateResuming, StateRunning}
      else if (\<exists>sid. body = Some (Some sid)) \<and> s \<in> {StateStopped, StateCreated, StateFailed}
      then {s, StateResuming, StateRunning, StateFailed} else {s})"
| "allowed (ProcessExit i code failed) s =
     (if s \<in> {StateRunning, StateStarting} then {s, exit_state code failed} else {s})"
| "allowed c s = {s}"

lemma allowed_refl: "s \<in> allowed c s"
  by (cases c) auto

text \<open>The calls that neither create nor delete machines nor release addresses.\<close>

fun steady :: "api_call \<Rightarrow> bool" where
  "steady (CallCreateVM body) = False"
| "steady (CallDeleteVM i) = False"
| "steady (ProcessExit i code failed) = False"
| "steady c = True"

context tables_invariant
begin

lemma serve_steady_keeps:
  assumes "steady c" and I: "I w"
    and L: "\<And>idn vm. addressee c = Some idn \<Longrightarrow> find_vm idn (w_db w) = Some vm \<Longrightarrow> L (vm_ID vm)"
    and S: "\<And>sid sn. c = CallDeleteSnapshot sid \<Longrightarrow>
      find (\<lambda>s. sn_ID s = sid) (db_snapshots (w_db w)) = Some sn \<Longrightarrow> L (sn_VMID sn)"
    and W: "\<And>idn vm vm'. addressee c = Some idn \<Longrightarrow> find_vm idn (w_db w) = Some vm \<Longrightarrow> like vm vm' \<Longrightarrow>
      vm_State vm' \<in> allowed c (vm_State vm) \<Longrightarrow> W vm'"
  shows "wp (serve S pull c) (\<lambda>_. I) w"
proof (cases c)
  case (CallImagePull body)
  then show ?thesis using pres_D [OF handleImagePull_keeps I] by simp
next
  case (CallVMStart i)
  show ?thesis unfolding CallVMStart serve.simps
    by (intro answer_keeps handleVMStart_keeps) (use I L W CallVMStart in auto)
next
  case (CallVMStop i body)
  show ?thesis unfolding CallVMStop serve.simps
    by (intro answer_keeps handleVMStop_keeps) (use I L W CallVMStop in auto)
next
  case (CallVMKill i)
  show ?thesis unfolding CallVMKill serve.simps
    by (intro answer_keeps handleVMKill_keeps) (use I L W CallVMKill in auto)
next
  case (CallVMPause i)
  show ?thesis unfolding CallVMPause serve.simps
    by (intro answer_keeps handleVMPause_keeps) (use I L W CallVMPause in auto)
next
  case (CallVMResume i body)
  show ?thesis unfolding CallVMResume serve.simps
    by (intro answer_keeps handleVMResume_keeps) (use I L W CallVMResume in auto)
next
  case (CallCreateSnapshot i body)
  then show ?thesis using I L by (auto intro!: answer_keeps handleCreateSnapshot_keeps)
next
  case (CallDeleteSnapshot i)
  then show ?thesis using I S by (auto intro!: answer_keeps handleDeleteSnapshot_keeps)
qed (use assms(1) in \<open>simp_all add: answer_keeps pres_D [where I = I and w = w] I reading_keeps
      handleDeleteImage_keeps executePullJob_keeps\<close>)

end

context daemon_invariant
begin

lemma serve_keeps:
  assumes create: "\<And>body. c \<noteq> CallCreateVM body" and I: "I w"
    and L: "\<And>idn vm. addressee c = Some idn \<Longrightarrow> find_vm idn (w_db w) = Some vm \<Longrightarrow> L (vm_ID vm)"
    and D: "\<And>idn vm. c = CallDeleteVM idn \<Longrightarrow> find_vm idn (w_db w) = Some vm \<Longrightarrow> D (vm_ID vm)"
    and S: "\<And>sid sn. c = CallDeleteSnapshot sid \<Longrightarrow>
      find (\<lambda>s. sn_ID s = sid) (db_snapshots (w_db w)) = Some sn \<Longrightarrow> L (sn_VMID sn)"
    and W: "\<And>idn vm vm'. addressee c = Some idn \<Longrightarrow> find_vm idn (w_db w) = Some vm \<Longrightarrow> like vm vm' \<Longrightarrow>
      vm_State vm' \<in> allowed c (vm_State vm) \<Longrightarrow> W vm'"
  shows "wp (serve S pull c) (\<lambda>_. I) w"
proof (cases "steady c")
  case True
  then show ?thesis by (rule serve_steady_keeps [OF _ I L S W])
next
  case False
  then consider (del) i where "c = CallDeleteVM i" | (exit) i code failed where "c = ProcessExit i code failed"
    using create by (cases c) auto
  then show ?thesis
  proof cases
    case del
    then show ?thesis using I L D by (auto intro!: answer_keeps handleDeleteVM_keeps)
  next
    case exit
    show ?thesis unfolding exit serve.simps
      by (intro answer_keeps handleVMProcessExit_keeps) (use I W exit in auto)
  qed
qed

end

lemma serve_keeps_daemon_inv:
  assumes "daemon_inv (limits_of S) w"
  shows "wp (serve S pull c) (\<lambda>_. daemon_inv (limits_of S)) w"
proof (cases "\<exists>body. c = CallCreateVM body")
  case True
  then show ?thesis by (auto intro!: answer_keeps pres_D [OF handleCreateVM_keeps assms])
next
  case False
  then show ?thesis by (intro daemon.serve_keeps assms) auto
qed

lemma daemon_inv_start: "0 \<le> lm_MaxVMs limits \<Longrightarrow> daemon_inv limits \<lparr>w_db = empty_DB, w_ipam = NewIPAM, w_host = h\<rparr>"
  using db_inv_empty ipam_inv_New by (simp add: daemon_inv_def tables_ok_def empty_DB_def)

lemma reachable_daemon_inv:
  assumes "reachable S pull w" and "0 \<le> lm_MaxVMs (limits_of S)"
  shows "daemon_inv (limits_of S) w"
  using assms(1)
proof induction
  case (start h) show ?case using assms(2) by (rule daemon_inv_start)
next
  case (request w c resp w')
  then show ?case using serve_keeps_daemon_inv [of S w pull c] by (simp add: wp_iff_run)
next
  case (outside w h) show ?case using outside.IH by (rule daemon.host)
qed

subsection \<open>One machine through a call\<close>

text \<open>What no call changes in a machine's row.\<close>

definition same_machine :: "VM \<Rightarrow> VM \<Rightarrow> bool" where
  "same_machine r r' \<longleftrightarrow> vm_ID r' = vm_ID r \<and> vm_Name r' = vm_Name r \<and> vm_Image r' = vm_Image r
     \<and> vm_ImageDigest r' = vm_ImageDigest r \<and> vm_Architecture r' = vm_Architecture r
     \<and> vm_Config r' = vm_Config r \<and> vm_CreatedAt r' = vm_CreatedAt r"

definition machine_at :: "string \<Rightarrow> VM \<Rightarrow> VMState set \<Rightarrow> 'h world \<Rightarrow> bool" where
  "machine_at i r A w \<longleftrightarrow> db_inv (w_db w)
     \<and> (\<exists>r'. row i (w_db w) = Some r' \<and> same_machine r r' \<and> vm_State r' \<in> A)"

lemma row_other_tables [simp]:
  "row i (snd (insert_snapshot sn d)) = row i d" "row i (delete_snapshot j d) = row i d"
  "row i (snd (insert_image im d)) = row i d" "row i (upsert_image im d) = row i d" "row i (delete_image j d) = row i d"
  "row i (snd (insert_job jb d)) = row i d" "row i (update_job jb d) = row i d"
  by (simp_all add: row_def insert_snapshot_def delete_snapshot_def insert_image_def upsert_image_def
      delete_image_def insert_job_def update_job_def)

lemma row_delete_vm: "row i (delete_vm j d) = (if i = j then None else row i d)"
proof -
  have "find (\<lambda>r. vm_ID r = i) (filter (\<lambda>r. vm_ID r \<noteq> j) xs) = (if i = j then None else find (\<lambda>r. vm_ID r = i) xs)" for xs
    by (induction xs) auto
  then show ?thesis by (auto simp: row_def delete_vm_def list_ex_iff find_None_iff)
qed

lemma row_based:
  assumes "db_inv (w_db w)" and "based vm w" and "row (vm_ID vm) (w_db w) = Some r"
  shows "vm_Config r = vm_Config vm"
proof -
  obtain r' where r': "r' \<in> set (db_vms (w_db w))" "vm_ID r' = vm_ID vm" "vm_Config r' = vm_Config vm"
    using assms(2) by (auto simp: based_def like_def)
  have "distinct (map vm_ID (db_vms (w_db w)))" using assms(1) by (simp add: db_inv_def)
  then have "row (vm_ID r') (w_db w) = Some r'" unfolding row_def using r'(1) by (rule find_unique)
  with assms(3) r' show ?thesis by simp
qed

lemma machine_at_update:
  assumes "machine_at i r A w" and "based vm w" and "vm_ID vm = i \<longrightarrow> vm_State vm \<in> A"
  shows "machine_at i r A (w\<lparr>w_db := update_vm vm (w_db w)\<rparr>)"
  using assms row_based [OF _ assms(2)] by (auto simp: machine_at_def row_update_vm same_machine_def)

lemma machine_at_lock:
  assumes "machine_at i r A w"
  shows "machine_at i r A (w\<lparr>w_db := snd (lock_vm j opn t1 t2 (w_db w))\<rparr>)"
proof -
  obtain r' where r': "row i (w_db w) = Some r'" "same_machine r r'" "vm_State r' \<in> A"
    using assms by (auto simp: machine_at_def)
  show ?thesis
    using assms r' by (cases "vm_ID r' = j \<and> lockable t2 r'") (auto simp: machine_at_def row_lock_vm same_machine_def)
qed

interpretation machine: daemon_invariant "machine_at i r A" "\<lambda>vm. vm_ID vm = i \<longrightarrow> vm_State vm \<in> A"
    "\<lambda>_. True" "\<lambda>j. j \<noteq> i" for i r A
proof (unfold_locales, goal_cases)
  case (2 w vm) then show ?case by (rule machine_at_update)
next
  case (3 w j opn t1 t2) show ?case using 3(1) by (rule machine_at_lock)
qed (auto simp: machine_at_def row_simps row_delete_vm same_machine_def)

text \<open>The row of a machine that a call does not address, to the last column.\<close>

definition row_at :: "string \<Rightarrow> VM \<Rightarrow> 'h world \<Rightarrow> bool" where
  "row_at i r w \<longleftrightarrow> db_inv (w_db w) \<and> row i (w_db w) = Some r"

interpretation untouched: daemon_invariant "row_at i r" "\<lambda>vm. vm_ID vm \<noteq> i" "\<lambda>j. j \<noteq> i" "\<lambda>j. j \<noteq> i" for i r
  by unfold_locales (auto simp: row_at_def row_simps row_delete_vm dest: row_Some)

lemma allowed_cases: "allowed c s = (if addressee c = None then {s} else allowed c s)"
  by (cases c) auto

definition addresses :: "api_call \<Rightarrow> DB \<Rightarrow> string \<Rightarrow> bool" where
  "addresses c d i \<longleftrightarrow> (\<exists>idn vm. addressee c = Some idn \<and> find_vm idn d = Some vm \<and> vm_ID vm = i)
     \<or> (\<exists>sid sn. c = CallDeleteSnapshot sid \<and> find (\<lambda>s. sn_ID s = sid) (db_snapshots d) = Some sn \<and> sn_VMID sn = i)"

lemma create_keeps_row:
  assumes "daemon_inv (limits_of S) w" and "row i (w_db w) = Some r"
  shows "wp (handleCreateVM S body) (\<lambda>_ w'. row i (w_db w') = Some r) w"
proof -
  have "find P xs = Some r \<Longrightarrow> find P (xs @ ys) = Some r" for P xs ys
    by (induction xs) (auto split: if_splits)
  then show ?thesis
    by (intro wp_handleCreateVM [OF assms(1), where U = "\<lambda>_. True"])
       (use assms(2) in \<open>auto simp: yields_def same_machines_def refused_create_def accepted_create_def row_def\<close>)
qed

lemma unaddressed_row:
  assumes "daemon_inv (limits_of S) w" and "row i (w_db w) = Some r" and "\<not> addresses c (w_db w) i"
  shows "wp (serve S pull c) (\<lambda>_ w'. row i (w_db w') = Some r) w"
proof (cases "\<exists>body. c = CallCreateVM body")
  case True
  then show ?thesis using create_keeps_row [OF assms(1,2)] by (auto simp: answer_def)
next
  case False
  have "row_at i r w" using assms(1,2) by (simp add: row_at_def daemon_inv_def tables_ok_def)
  then have "wp (serve S pull c) (\<lambda>_. row_at i r) w"
    by (intro untouched.serve_keeps) (use assms(3) False in \<open>auto simp: addresses_def like_def\<close>)
  then show ?thesis by (rule wp_mono) (simp add: row_at_def)
qed

lemma addressed_row:
  assumes "daemon_inv (limits_of S) w" and "row i (w_db w) = Some r" and "\<And>idn. c \<noteq> CallDeleteVM idn"
  shows "wp (serve S pull c) (\<lambda>_. machine_at i r (allowed c (vm_State r))) w"
proof (cases "\<exists>body. c = CallCreateVM body")
  case True
  have "wp (serve S pull c) (\<lambda>_ w'. daemon_inv (limits_of S) w' \<and> row i (w_db w') = Some r) w"
    unfolding wp_conj using serve_keeps_daemon_inv [OF assms(1)] create_keeps_row [OF assms(1,2)] True
    by (auto simp: answer_def)
  then show ?thesis
    by (rule wp_mono) (auto simp: machine_at_def same_machine_def daemon_inv_def tables_ok_def allowed_refl)
next
  case False
  have db: "db_inv (w_db w)" using assms(1) by (simp add: daemon_inv_def tables_ok_def)
  then have "machine_at i r (allowed c (vm_State r)) w"
    using assms(2) by (simp add: machine_at_def same_machine_def allowed_refl)
  then show ?thesis
    by (intro machine.serve_keeps)
       (use False assms(2,3) row_find_vm [OF db] in \<open>auto simp: like_def\<close>)
qed

subsection \<open>Concrete runs\<close>

lemma demo_reachable:
  "reachable demo_server demo_pull demo_world" "reachable demo_server demo_pull demo_created"
  "reachable demo_server demo_pull demo_running"
proof -
  show 0: "reachable demo_server demo_pull demo_world"
    using reachable.start [of demo_server demo_pull 0] by (simp add: demo_world_def)
  have "run_state (serve demo_server demo_pull (CallCreateVM (Some demo_request))) demo_world
      = (Some (writeJSON 201 (VMBody demo_vm)), demo_created)"
    by (simp add: answer_def demo_create)
  with 0 show 1: "reachable demo_server demo_pull demo_created" by (rule reachable.request)
  show "reachable demo_server demo_pull demo_running"
    by (rule reachable.request [OF 1, of "CallVMStart ''web''"]) (simp add: answer_def demo_start)
qed

lemma demo_max [simp]: "lm_MaxVMs (limits_of demo_server) = 50"
  by simp

section \<open>What holds of every run\<close>

text \<open>C1. In every state that a daemon started on an empty database can reach, by any requests,
  process exits and pull jobs, with any behaviour of the operating system, the database engine, the runtime
  and the registry: machine ids, machine names, snapshot ids, image digests and job ids are unique; every
  snapshot's machine and every machine's image exist; no machine exceeds the configured limits and
  there are at most \<open>MaxVMs\<close> of them; every machine's port forwards are valid and do not collide; and
  free and held addresses partition the pool.\<close>

theorem reachable_invariant:
  assumes "reachable S pull w" and "0 \<le> lm_MaxVMs (limits_of S)"
  shows "let d = w_db w in
     distinct (map vm_ID (db_vms d)) \<and> distinct (map vm_Name (db_vms d)) \<and> distinct (map sn_ID (db_snapshots d))
     \<and> distinct (map im_Digest (db_images d)) \<and> distinct (map pj_ID (db_jobs d))
     \<and> sn_VMID ` set (db_snapshots d) \<subseteq> vm_ID ` set (db_vms d)
     \<and> vm_ImageDigest ` set (db_vms d) \<subseteq> im_Digest ` set (db_images d)
     \<and> int (length (db_vms d)) \<le> lm_MaxVMs (limits_of S)
     \<and> list_all (\<lambda>r. vc_VCPUs (vm_Config r) \<le> lm_MaxVCPUsPerVM (limits_of S)
          \<and> vc_MemoryMiB (vm_Config r) \<le> lm_MaxMemoryPerVMMiB (limits_of S)
          \<and> forwards_ok (nc_PortForwards (vc_Network (vm_Config r)))) (db_vms d)
     \<and> ipam_inv (w_ipam w)"
proof -
  have inv: "tables_ok (limits_of S) (w_db w)" "ipam_inv (w_ipam w)"
    using reachable_daemon_inv [OF assms] by (simp_all add: daemon_inv_def)
  then have "sn_VMID ` set (db_snapshots (w_db w)) \<subseteq> vm_ID ` set (db_vms (w_db w))"
    by (force simp: tables_ok_def db_inv_def)
  with inv show ?thesis
    by (simp add: tables_ok_def db_inv_def config_ok_def list_all_iff Let_def image_subset_iff)
qed

theorem reachable_invariant_witness:
  "length (db_vms (w_db demo_running)) = 1 \<and> distinct (map vm_ID (db_vms (w_db demo_running))) \<and> ipam_inv (w_ipam demo_running)"
  using reachable_invariant [OF demo_reachable(3)] by (simp add: Let_def) (simp add: demo_running_def)

text \<open>C2. The life cycle of a machine. A request that does not address a machine leaves its row exactly as
  it is. A request that does, other than deletion, keeps its id, name, image and configuration and
  leaves it in one of the states that the table \<open>allowed\<close> lists for this request and the state
  before: for example, only a created or stopped machine is started, only a running one is
  paused.\<close>

theorem machine_lifecycle:
  assumes "reachable S pull w" and "0 \<le> lm_MaxVMs (limits_of S)" and "row i (w_db w) = Some r"
    and "run_state (serve S pull c) w = (resp, w')"
  shows "(if addresses c (w_db w) i then (\<exists>idn. c = CallDeleteVM idn)
            \<or> (\<exists>r'. row i (w_db w') = Some r' \<and> same_machine r r' \<and> vm_State r' \<in> allowed c (vm_State r))
          else row i (w_db w') = Some r)"
proof -
  note inv = reachable_daemon_inv [OF assms(1,2)]
  show ?thesis
    using unaddressed_row [OF inv assms(3), of c pull] addressed_row [OF inv assms(3), of c pull] assms(4)
    by (auto simp: wp_iff_run machine_at_def)
qed

theorem machine_lifecycle_witness:
  "\<exists>r'. row ''vm0'' (w_db (snd (run_state (serve demo_server demo_pull (CallVMPause ''web'')) demo_running))) = Some r'
     \<and> vm_State r' \<in> {StateRunning, StatePausing, StatePaused} \<and> vm_Config r' = demo_config"
proof -
  let ?r = "demo_row\<lparr>vm_State := StateRunning, vm_Runtime := Some demo_runtime, vm_UpdatedAt := 5\<rparr>"
  let ?run = "run_state (serve demo_server demo_pull (CallVMPause ''web'')) demo_running"
  have r: "row ''vm0'' (w_db demo_running) = Some ?r" and adr: "addresses (CallVMPause ''web'') (w_db demo_running) ''vm0''"
    by (simp_all add: demo_running_def row_def addresses_def find_vm_def)
  have "\<exists>r'. row ''vm0'' (w_db (snd ?run)) = Some r' \<and> same_machine ?r r' \<and> vm_State r' \<in> allowed (CallVMPause ''web'') (vm_State ?r)"
    using machine_lifecycle [OF demo_reachable(3) _ r prod.collapse [symmetric], of "CallVMPause ''web''"] adr by simp
  then show ?thesis by (auto simp: same_machine_def)
qed





end
