(* ===== verification/Guarantees.thy ===== *)
theory Guarantees
  imports System "HOL-Library.Sublist"
begin

section \<open>Guarantees of single handlers\<close>

text \<open>
  Properties of one request each: locks keep other operations out, deletion is complete, a resume
  loads only the machine's own snapshot files from the managed directory, a machine can always be
  brought back to running, and the address in a machine's row is the one the address manager
  records. The last one has an exception that the final section exhibits.
\<close>

subsection \<open>Locks\<close>

text \<open>A lock that is held and younger than the timeout at every reading of the clock.\<close>

definition fresh_lock :: "('h, 'z) sql_env_scheme \<Rightarrow> VM \<Rightarrow> bool" where
  "fresh_lock E r \<longleftrightarrow> vm_LockedBy r \<noteq> None
     \<and> (\<exists>t. vm_LockedAt r = Some t \<and> yields (\<lambda>now. now - lock_timeout \<le> t) (time_now E))"

lemma lock_vm_refused:
  assumes "db_inv d" and "row i d = Some r" and "\<not> lockable th r"
  shows "lock_vm i opn t th d = (False, d)"
proof -
  have "\<not> (vm_ID r' = i \<and> lockable th r')" if "r' \<in> set (db_vms d)" for r'
  proof
    assume "vm_ID r' = i \<and> lockable th r'"
    moreover have "row (vm_ID r') d = Some r'"
      unfolding row_def using that assms(1) by (intro find_unique) (simp_all add: db_inv_def)
    ultimately show False using assms(2,3) by simp
  qed
  moreover from this have "map (\<lambda>r. if vm_ID r = i \<and> lockable th r
      then r\<lparr>vm_LockedBy := Some opn, vm_LockedAt := Some t\<rparr> else r) (db_vms d) = db_vms d"
    by (intro map_idI) auto
  ultimately show ?thesis by (simp add: lock_vm_def Let_def list_ex_iff)
qed

lemma locked_refused:
  assumes "db_inv d" and "row i d = Some r" and "fresh_lock (s_env S) r" and "w_db w = d"
  shows "wp (locked S i opn k) (\<lambda>_ w'. w_db w' = d) w"
proof -
  obtain t where t: "vm_LockedBy r \<noteq> None" "vm_LockedAt r = Some t" "yields (\<lambda>now. now - lock_timeout \<le> t) (time_now (s_env S))"
    using assms(3) by (auto simp: fresh_lock_def)
  have refuse: "lock_vm i opn t1 (t2 - lock_timeout) d = (False, d)" if "t2 - lock_timeout \<le> t" for t1 t2
    using that t by (intro lock_vm_refused [OF assms(1,2)]) (auto simp: lockable_def)
  show ?thesis
    unfolding locked_def AcquireLock_def
    by (intro wp_intros wp_hostI wp_host_yields [OF t(3)] wp_statementI) (simp_all add: assms(4) refuse)
qed

text \<open>The requests that take the lock of the machine they address.\<close>

fun takes_lock :: "api_call \<Rightarrow> string option" where
  "takes_lock (CallDeleteVM i) = Some i"
| "takes_lock (CallVMStart i) = Some i"
| "takes_lock (CallVMStop i body) = Some i"
| "takes_lock (CallVMPause i) = Some i"
| "takes_lock (CallVMResume i body) = Some i"
| "takes_lock (CallCreateSnapshot i body) = Some i"
| "takes_lock c = None"

lemma with_vm_refused:
  assumes "find_vm idn (w_db w) = Some vm" and "\<And>w'. w_db w' = w_db w \<Longrightarrow> wp (k vm) (\<lambda>_ w'. w_db w' = w_db w) w'"
  shows "wp (with_vm S idn k) (\<lambda>_ w'. w_db w' = w_db w) w"
  unfolding with_vm_def
  by (intro wp_intros wp_GetVMI; simp add: assms)

lemma fresh_lock_refuses:
  assumes "db_inv (w_db w)" and "takes_lock c = Some idn" and vm: "find_vm idn (w_db w) = Some vm"
    and "fresh_lock (s_env S) vm"
  shows "wp (serve S pull c) (\<lambda>_ w'. w_db w' = w_db w) w"
proof -
  have lk: "wp (locked S (vm_ID vm) opn k) (\<lambda>_ w'. w_db w' = w_db w) w'" if "w_db w' = w_db w" for opn k w'
    using locked_refused [OF assms(1) row_find_vm [OF assms(1) vm] assms(4) that] by simp
  note defs = handleDeleteVM_def handleVMStart_def handleVMStop_def handleVMPause_def handleVMResume_def resumeVMFromSnapshot_def
    handleCreateSnapshot_def answer_def
  show ?thesis
    using assms(2) vm
    by (cases c) (auto simp: defs require_id_def intro!: with_vm_refused [OF vm] wp_intros lk)
qed

text \<open>C5. Mutual exclusion. While a machine's lock is held and younger than five minutes, no request
  to start, stop, pause, resume, snapshot or delete this machine changes anything in the tables,
  whatever id or name it is addressed by. The state is not assumed to be one between two requests: it
  is enough that the tables satisfy their constraints, as they do after every single statement.\<close>

theorem lock_excludes:
  assumes "db_inv (w_db w)" and "takes_lock c = Some idn"
    and "find_vm idn (w_db w) = Some vm" and "fresh_lock (s_env S) vm" and "run_state (serve S pull c) w = (resp, w')"
  shows "w_db w' = w_db w"
  using fresh_lock_refuses [OF assms(1-4), of pull] assms(5) by (simp add: wp_iff_run)

theorem lock_excludes_witness:
  "let S = demo_server\<lparr>s_env := (demo_host True)\<lparr>time_now := State_Monad.return 9\<rparr>\<rparr>;
       w = demo_running\<lparr>w_db := snd (lock_vm ''vm0'' ''pause'' 8 (8 - lock_timeout) (w_db demo_running))\<rparr>
   in (\<exists>r. row ''vm0'' (w_db w) = Some r \<and> vm_LockedBy r = Some ''pause'')
     \<and> w_db (snd (run_state (serve S demo_pull (CallDeleteVM ''web'')) w)) = w_db w"
proof -
  let ?S = "demo_server\<lparr>s_env := (demo_host True)\<lparr>time_now := State_Monad.return 9\<rparr>\<rparr>"
  let ?d = "snd (lock_vm ''vm0'' ''pause'' 8 (8 - lock_timeout) (w_db demo_running))"
  let ?r = "demo_row\<lparr>vm_State := StateRunning, vm_Runtime := Some demo_runtime, vm_UpdatedAt := 5,
    vm_LockedBy := Some ''pause'', vm_LockedAt := Some 8\<rparr>"
  have d: "db_vms ?d = [?r]" by (simp add: demo_running_def lock_vm_def Let_def lockable_def)
  have "db_inv (w_db demo_running)" using reachable_daemon_inv [OF demo_reachable(3)] by (simp add: daemon_inv_def tables_ok_def)
  then have "db_inv (w_db (demo_running\<lparr>w_db := ?d\<rparr>))" by simp
  moreover have "find_vm ''web'' (w_db (demo_running\<lparr>w_db := ?d\<rparr>)) = Some ?r" using d by (simp add: find_vm_def)
  moreover have "fresh_lock (s_env ?S) ?r" by (simp add: fresh_lock_def yields_def lock_timeout_def)
  ultimately have "w_db (snd (run_state (serve ?S demo_pull (CallDeleteVM ''web'')) (demo_running\<lparr>w_db := ?d\<rparr>))) = ?d"
    using lock_excludes [of "demo_running\<lparr>w_db := ?d\<rparr>" "CallDeleteVM ''web''" "''web''" ?r ?S demo_pull, OF _ _ _ _ prod.collapse [symmetric]] by simp
  moreover have "row ''vm0'' ?d = Some ?r" using d by (simp add: row_def)
  ultimately show ?thesis by (simp add: Let_def)
qed

subsection \<open>Deletion\<close>

definition gone :: "string \<Rightarrow> DB \<Rightarrow> bool" where
  "gone i d \<longleftrightarrow> row i d = None \<and> list_all (\<lambda>s. sn_VMID s \<noteq> i) (db_snapshots d)"

lemma gone_delete_vm: "db_inv d \<Longrightarrow> gone i (delete_vm i d)"
  unfolding gone_def by (auto simp: row_delete_vm) (auto simp: delete_vm_def db_inv_def list_ex_iff list_all_iff)

lemma gone_unlock_vm [simp]: "gone i (unlock_vm j d) = gone i d"
  by (simp add: gone_def row_unlock_vm)

lemma cleanup_releases:
  assumes "db_inv (w_db w)"
    and "\<And>w'. db_inv (w_db w') \<Longrightarrow>
      (nc_IPAddress (vc_Network (vm_Config vm)) \<noteq> [] \<longrightarrow> allocated (w_ipam w') (vm_ID vm) = None) \<Longrightarrow> Q () w'"
  shows "wp (cleanupDeletedVMResources S vm) Q w"
proof -
  have release: "wp (on_ipam (ReleaseIP i)) Q' w'" if "\<And>i'. allocated i' i = None \<Longrightarrow> Q' () (w'\<lparr>w_ipam := i'\<rparr>)" for i Q' w'
    using that [of "w_ipam w'"] that by (cases "allocated (w_ipam w') i") (simp_all add: wp_ReleaseIP)
  show ?thesis
    unfolding cleanupDeletedVMResources_def Let_def
    by (intro wp_intros wp_hostI release) (simp_all add: assms)
qed

lemma delete_locked_complete:
  assumes "db_inv (w_db w)"
  shows "wp (delete_locked S vm) (\<lambda>resp w'. rs_Status resp = 204 \<longrightarrow> gone (vm_ID vm) (w_db w')
     \<and> (nc_IPAddress (vc_Network (vm_Config vm)) \<noteq> [] \<longrightarrow> allocated (w_ipam w') (vm_ID vm) = None)) w"
  unfolding delete_locked_def DeleteVM_def Let_def
  by (intro wp_intros wp_call_mgrI wp_hostI cleanup_releases wp_statementI) (simp_all add: assms gone_delete_vm)

lemma handleDeleteVM_complete:
  assumes "db_inv (w_db w)" and "find_vm idn (w_db w) = Some vm"
  shows "wp (handleDeleteVM S idn) (\<lambda>resp w'. rs_Status resp = 204 \<longrightarrow> gone (vm_ID vm) (w_db w')
     \<and> (nc_IPAddress (vc_Network (vm_Config vm)) \<noteq> [] \<longrightarrow> allocated (w_ipam w') (vm_ID vm) = None)) w"
  unfolding handleDeleteVM_def require_id_def with_vm_def locked_def AcquireLock_def ReleaseLock_def
  by (intro wp_intros wp_GetVMI wp_hostI wp_statementI; (simp add: assms)?; (rule wp_mono [OF delete_locked_complete])?;
      (simp add: assms)?; (intro wp_intros wp_statementI)?; simp)

text \<open>C9. Deletion is complete: when the request answers 204, the machine's row and every snapshot
  record of it are gone and the address it had is no longer held by it.\<close>

theorem delete_complete:
  assumes "reachable S pull w" and "0 \<le> lm_MaxVMs (limits_of S)" and "find_vm idn (w_db w) = Some vm"
    and "run_state (handleDeleteVM S idn) w = (resp, w')" and "rs_Status resp = 204"
  shows "row (vm_ID vm) (w_db w') = None \<and> list_all (\<lambda>s. sn_VMID s \<noteq> vm_ID vm) (db_snapshots (w_db w'))
    \<and> (nc_IPAddress (vc_Network (vm_Config vm)) \<noteq> [] \<longrightarrow> allocated (w_ipam w') (vm_ID vm) = None)"
proof -
  have "db_inv (w_db w)"
    using reachable_daemon_inv [OF assms(1,2)] by (simp add: daemon_inv_def tables_ok_def)
  from handleDeleteVM_complete [OF this assms(3), of S] assms(4,5) show ?thesis
    by (simp add: wp_iff_run gone_def)
qed

theorem delete_complete_witness:
  "row ''vm0'' (w_db demo_running) \<noteq> None \<and> allocated (w_ipam demo_running) ''vm0'' \<noteq> None
   \<and> (let w' = snd (run_state (handleDeleteVM demo_server ''web'') demo_running) in
      row ''vm0'' (w_db w') = None \<and> allocated (w_ipam w') ''vm0'' = None)"
proof -
  let ?r = "demo_row\<lparr>vm_State := StateRunning, vm_Runtime := Some demo_runtime, vm_UpdatedAt := 5\<rparr>"
  have vm: "find_vm ''web'' (w_db demo_running) = Some ?r" by (simp add: demo_running_def find_vm_def)
  have "wp (handleDeleteVM demo_server ''web'') (\<lambda>resp _. rs_Status resp = 204) demo_running"
    by (simp add: handleDeleteVM_def require_id_def with_vm_def locked_def GetVM_def find_vm_def AcquireLock_def ReleaseLock_def lock_vm_def vmHasRuntimeHandle_def demo_runtime_def
        demo_running_def lockable_def delete_locked_def call_mgr_def set_runtime_def cleanupDeletedVMResources_def wp_ReleaseIP
        cleanupVMStorage_def DeleteTAPDevice_def DeleteVM_def delete_vm_def egress_enabled_def Let_def)
  then have "rs_Status (fst (run_state (handleDeleteVM demo_server ''web'') demo_running)) = 204" by (simp add: wp_iff_run)
  from delete_complete [OF demo_reachable(3) _ vm prod.collapse [symmetric] this]
  show ?thesis by (simp add: Let_def) (simp add: demo_running_def row_def pool_addr_def)
qed

subsection \<open>Resuming from a snapshot\<close>

lemma snapshots_root_abs: "is_abs (data_dir S) \<Longrightarrow> is_abs (snapshots_root S)"
  by (cases "data_dir S") (auto simp: snapshots_root_def)

text \<open>The parent directory of an absolute path has all its components but the last.\<close>

lemma path_dir_clean:
  assumes "is_abs p"
  shows "is_abs (path_dir (path_clean p)) \<and> clean_comps (path_dir (path_clean p)) = butlast (clean_comps p)"
proof (cases "clean_comps p" rule: rev_cases)
  case Nil
  then have "path_clean p = ''/''" using assms by (simp add: path_clean_def)
  moreover have "path_dir ''/'' = ''/''" "clean_comps ''/'' = []" by code_simp+
  ultimately show ?thesis using Nil by simp
next
  case (snoc cs c)
  let ?d = "if cs = [] then [] else CHR ''/'' # join ''/'' cs"
  have ok: "\<forall>x \<in> set (cs @ [c]). x \<noteq> [] \<and> CHR ''/'' \<notin> set x" using clean_comps_abs [OF assms] snoc by auto
  have st: "stack_ok True (rev cs)"
    using stack_ok_clean_comps [of p] stack_ok_append [of True "[c]" "rev cs"] assms snoc by simp
  have clean: "path_clean p = (?d @ ''/'') @ c"
    using assms snoc by (auto simp: path_clean_def Let_def join_append)
  have "dropWhile (\<lambda>x. x \<noteq> CHR ''/'') (rev c @ ys) = dropWhile (\<lambda>x. x \<noteq> CHR ''/'') ys" for ys
    by (rule dropWhile_append2) (use ok in auto)
  then have "dropWhile (\<lambda>x. x \<noteq> CHR ''/'') (rev ((?d @ ''/'') @ c)) = rev (?d @ ''/'')" by simp
  then have "path_dir (path_clean p) = path_clean (?d @ ''/'')" unfolding path_dir_def clean by simp
  moreover have "split_on CHR ''/'' (?d @ ''/'') = [] # cs @ [[]]"
  proof -
    have "CHR ''/'' # join ''/'' cs @ ''/'' = join ''/'' ([] # cs @ [[]])" if "cs \<noteq> []"
      using that by (simp add: join_Cons join_append)
    moreover have "''/'' = join ''/'' [[], []]" by simp
    ultimately show ?thesis using split_on_join [of "[] # cs @ [[]]" "CHR ''/''"] ok by (cases "cs = []") auto
  qed
  then have "clean_comps (?d @ ''/'') = cs"
    using foldl_clean_fixed [of True cs "[]"] st by (auto simp: clean_comps_def)
  ultimately show ?thesis using snoc by auto
qed

text \<open>The symbolic links of the host, which stay the same while a request is served: \<open>EvalSymlinks\<close> answers \<open>links\<close>, with an absolute path for an absolute path; below a
  directory that does not exist \<open>Lstat\<close> finds no regular file.\<close>

definition fixed_links :: "'h Server \<Rightarrow> (string \<Rightarrow> bool + string) \<Rightarrow> bool" where
  "fixed_links S links \<longleftrightarrow> (\<forall>p h. fst (run_state (os_EvalSymlinks (s_env S) p) h) = links p)
     \<and> (\<forall>p r. is_abs p \<longrightarrow> links p = Inr r \<longrightarrow> is_abs r)
     \<and> (\<forall>d p n h. links d = Inl True \<longrightarrow> is_abs d \<longrightarrow> is_abs p \<longrightarrow> path_clean p = p \<longrightarrow> prefix (clean_comps d) (clean_comps p) \<longrightarrow>
          fst (run_state (os_Lstat (s_env S) p) h) \<noteq> StatOK True n)"

text \<open>With all links followed, the directory \<open>d\<close> lies in the directory \<open>root\<close>.\<close>

definition resolved_below :: "(string \<Rightarrow> bool + string) \<Rightarrow> string \<Rightarrow> string \<Rightarrow> bool" where
  "resolved_below links root d \<longleftrightarrow> (\<exists>r q. links root = Inr r \<and> links d = Inr q \<and> prefix (clean_comps r) (clean_comps q))"

lemma wp_links:
  assumes "fixed_links S links" and "\<And>h'. Q (links p) h'"
  shows "wp (os_EvalSymlinks (s_env S) p) Q h"
  using assms by (simp add: fixed_links_def wp_iff_run)

text \<open>What the check of a file and the look at it establish, each.\<close>

definition contained :: "'h Server \<Rightarrow> (string \<Rightarrow> bool + string) \<Rightarrow> string \<Rightarrow> bool" where
  "contained S links p \<longleftrightarrow> (let root = snapshots_root S; dir = path_dir (path_clean p) in
     is_abs p \<and> prefix (clean_comps root) (clean_comps p) \<and> (resolved_below links root dir \<or> links root = Inl True \<or> links dir = Inl True))"

definition seen_regular :: "'h Server \<Rightarrow> string \<Rightarrow> bool" where
  "seen_regular S p \<longleftrightarrow> (\<exists>h n. fst (run_state (os_Lstat (s_env S) p) h) = StatOK True n)"

lemma managed_file:
  assumes "is_abs (data_dir S)" and "fixed_links S links"
  shows "yields (\<lambda>ok. ok \<longrightarrow> contained S links p) (snapshotFileWithinManagedRoot S p)"
proof (cases "within_lexical (snapshots_root S) (path_clean p)")
  case False
  then show ?thesis by (simp add: snapshotFileWithinManagedRoot_def Let_def yields_return)
next
  case True
  let ?root = "snapshots_root S" and ?dir = "path_dir (path_clean p)"
  note root = snapshots_root_abs [OF assms(1)]
  have lex: "is_abs p" "prefix (clean_comps ?root) (clean_comps p)"
    using True within_lexical_iff [OF root] by (auto simp: prefix_def)
  have inside: "resolved_below links ?root ?dir" if "links ?root = Inr r" "links ?dir = Inr q" "q = r \<or> within_lexical r q" for r q
  proof -
    have "is_abs r" using assms(2) root that(1) by (simp add: fixed_links_def)
    then show ?thesis using that within_lexical_iff [of r q] by (auto simp: resolved_below_def prefix_def)
  qed
  show ?thesis
    unfolding yields_def snapshotFileWithinManagedRoot_def Let_def using True
    by (auto intro!: wp_bindI wp_links [OF assms(2)] simp: contained_def Let_def lex inside split: sum.splits)
qed

lemma checked_present: "yields (\<lambda>r. r = None \<longrightarrow> seen_regular S p) (checkSnapshotFilePresent S p)"
proof -
  have "yields (\<lambda>st. \<exists>h. st = fst (run_state (os_Lstat (s_env S) p) h)) (os_Lstat (s_env S) p)"
    by (auto simp: yields_def wp_iff_run)
  then show ?thesis
    unfolding checkSnapshotFilePresent_def
    by (rule yields_bind) (auto simp: seen_regular_def intro!: yields_return split: FileStat.splits)
qed

lemma contained_regular:
  assumes "is_abs (data_dir S)" and "fixed_links S links" and "contained S links p" and "seen_regular S p" and "path_clean p = p"
  shows "resolved_below links (snapshots_root S) (path_dir p)"
proof -
  have gone: False if "links d = Inl True" "is_abs d" "prefix (clean_comps d) (clean_comps p)" for d
    using assms(2-5) that unfolding fixed_links_def contained_def seen_regular_def Let_def by blast
  have "is_abs p" "prefix (clean_comps (snapshots_root S)) (clean_comps p)" using assms(3) by (simp_all add: contained_def Let_def)
  moreover have "is_abs (path_dir p)" "prefix (clean_comps (path_dir p)) (clean_comps p)"
    using path_dir_clean [of p] assms(5) \<open>is_abs p\<close> by (simp_all add: prefixeq_butlast)
  ultimately show ?thesis
    using assms(3,5) gone [of "snapshots_root S"] gone [of "path_dir p"] snapshots_root_abs [OF assms(1)] by (auto simp: contained_def Let_def)
qed


definition demo_snapshot :: Snapshot where
  "demo_snapshot = \<lparr>sn_ID = ''s1'', sn_VMID = ''vm0'', sn_Name = [],
     sn_MemoryFilePath = ''/var/lib/nanofuse/snapshots/x/../vm0/s1.mem'',
     sn_SnapshotFilePath = ''/var/lib/nanofuse/snapshots/vm0/s1.snap'', sn_SizeBytes = 2, sn_CreatedAt = 0\<rparr>"


subsection \<open>A machine can be brought back to running\<close>

text \<open>The outside world on a good day: statements succeed and the runtime starts machines.\<close>

definition healthy :: "'h Server \<Rightarrow> bool" where
  "healthy S \<longleftrightarrow> yields Not (sql_fault (s_env S))
     \<and> (\<forall>vm img. yields (\<lambda>r. fst r = None) (mg_Start (s_runtimeManager S) vm img))"

lemma healthyD:
  assumes "healthy S"
  shows "yields Not (sql_fault (s_env S))" and "yields (\<lambda>r. fst r = None) (mg_Start (s_runtimeManager S) vm img)"
  using assms by (simp_all add: healthy_def)

lemma wp_sql_ok:
  "healthy S \<Longrightarrow> (\<And>h. Q (Some (fst (f (w_db w)))) (w\<lparr>w_host := h, w_db := snd (f (w_db w))\<rparr>)) \<Longrightarrow> wp (sql (s_env S) f) Q w"
  unfolding sql_def wp_bind by (rule wp_host_yields [OF healthyD(1)]) simp_all

lemma wp_query_ok: "healthy S \<Longrightarrow> (\<And>h. Q (Some (f (w_db w))) (w\<lparr>w_host := h\<rparr>)) \<Longrightarrow> wp (query (s_env S) f) Q w"
  unfolding query_def by (rule wp_sql_ok) simp_all

lemma wp_statement_ok:
  "healthy S \<Longrightarrow> (\<And>h. Q (fst (f (w_db w))) (w\<lparr>w_host := h, w_db := snd (f (w_db w))\<rparr>)) \<Longrightarrow> wp (statement (s_env S) f) Q w"
  unfolding statement_def wp_bind by (rule wp_sql_ok) simp_all

lemma wp_UpdateVM_ok:
  "healthy S \<Longrightarrow> (\<And>h t. Q (True, vm\<lparr>vm_UpdatedAt := t\<rparr>) (w\<lparr>w_host := h, w_db := update_vm (vm\<lparr>vm_UpdatedAt := t\<rparr>) (w_db w)\<rparr>)) \<Longrightarrow>
   wp (UpdateVM (s_env S) vm) Q w"
  unfolding UpdateVM_def Let_def wp_bind by (rule wp_hostI, rule wp_statement_ok) simp_all

lemma wp_start_ok:
  "healthy S \<Longrightarrow> (\<And>rt h. Q (None, vm\<lparr>vm_Runtime := rt\<rparr>) (w\<lparr>w_host := h\<rparr>)) \<Longrightarrow>
   wp (call_mgr (mg_Start (s_runtimeManager S) vm img) vm) Q w"
  unfolding call_mgr_def wp_bind by (rule wp_host_yields [OF healthyD(2)]) (simp_all add: set_runtime_def)

lemma wp_with_vm_ok:
  "healthy S \<Longrightarrow> find_vm idn (w_db w) = Some vm \<Longrightarrow> idn \<noteq> [] \<Longrightarrow> (\<And>h. wp (k vm) Q (w\<lparr>w_host := h\<rparr>)) \<Longrightarrow>
   wp (require_id idn (with_vm S idn k)) Q w"
  unfolding require_id_def with_vm_def GetVM_def by (simp del: wp_bind) (intro wp_bindI wp_query_ok; simp)

definition running :: "string \<Rightarrow> Response \<Rightarrow> 'h world \<Rightarrow> bool" where
  "running i resp w \<longleftrightarrow> rs_Status resp = 200 \<and> (\<exists>vm r. rs_Body resp = VMBody vm \<and> vm_ID vm = i \<and> vm_State vm = StateRunning
     \<and> row i (w_db w) = Some r \<and> vm_State r = StateRunning \<and> vm_LockedBy r = None)"

lemma start_runs:
  assumes S: "healthy S" and d: "db_inv (w_db w)" and vm: "find_vm idn (w_db w) = Some vm" and "idn \<noteq> []"
    and st: "vm_State vm \<in> {StateCreated, StateStopped}" and free: "vm_LockedBy vm = None"
    and img: "vm_ImageDigest vm \<in> im_Digest ` set (db_images (w_db w))" and nopf: "nc_PortForwards (vc_Network (vm_Config vm)) = []"
  shows "wp (handleVMStart S idn) (running (vm_ID vm)) w"
proof -
  have r: "row (vm_ID vm) (w_db w) = Some vm" using row_find_vm [OF d vm] .
  obtain im where im: "find_image (vm_ImageDigest vm) (w_db w) = Some im"
    using img by (cases "find_image (vm_ImageDigest vm) (w_db w)") (auto simp: find_image_def find_None_iff)
  have im': "find_image g (update_vm x e) = find_image g e" "find_image g (snd (lock_vm i opn t1 t2 e)) = find_image g e" for g x e i opn t1 t2
    by (simp_all add: find_image_def)
  have ok: "fst (lock_vm (vm_ID vm) opn t1 t2 (w_db w))" for opn t1 t2
    using fst_lock_vm [OF d r] free by (simp add: lockable_def)
  have lk: "lockable t vm" for t using free by (simp add: lockable_def)
  have "vm_State vm \<noteq> StateRunning" "\<not> (vm_State vm \<noteq> StateCreated \<and> vm_State vm \<noteq> StateStopped)" using st by auto
  then show ?thesis
    unfolding handleVMStart_def locked_def AcquireLock_def ReleaseLock_def performVMStart_def startRuntimeAndSetupNetwork_def Let_def GetImage_def
    by (intro wp_with_vm_ok [OF S vm \<open>idn \<noteq> []\<close>]) (simp only: if_False if_True, intro wp_bindI wp_hostI wp_statement_ok S,
      simp add: ok im im' nopf del: wp_bind wp_on_host,
      intro wp_intros wp_UpdateVM_ok wp_query_ok wp_start_ok wp_statement_ok wp_hostI S;
      simp add: im im' nopf running_def row_simps r lk)
qed

lemma update_vm_comp:
  assumes "vm_ID x = vm_ID vm"
  shows "find_vm idn (update_vm x d) = map_option (\<lambda>r. if vm_ID r = vm_ID x then r\<lparr>vm_State := vm_State x,
     vm_Config := vm_Config x, vm_Runtime := vm_Runtime x, vm_UpdatedAt := vm_UpdatedAt x\<rparr> else r) (find_vm idn d)"
proof -
  have "find P (map f xs) = map_option f (find P xs)" if "\<And>r. P (f r) = P r" for P and f :: "VM \<Rightarrow> VM" and xs
    using that by (induction xs) auto
  then show ?thesis unfolding find_vm_def update_vm_def by simp
qed

lemma kill_stops:
  assumes S: "healthy S" and d: "db_inv (w_db w)" and vm: "find_vm idn (w_db w) = Some vm" and "idn \<noteq> []"
    and Q: "\<And>resp w' t. rs_Status resp = 200 \<Longrightarrow> db_inv (w_db w') \<Longrightarrow> db_images (w_db w') = db_images (w_db w) \<Longrightarrow>
      find_vm idn (w_db w') = Some (vm\<lparr>vm_State := StateStopped, vm_Runtime := None, vm_UpdatedAt := t\<rparr>) \<Longrightarrow> Q resp w'"
  shows "wp (handleVMKill S idn) Q w"
  unfolding handleVMKill_def
  by (intro wp_with_vm_ok [OF S vm \<open>idn \<noteq> []\<close>] wp_intros wp_call_mgrI wp_UpdateVM_ok S Q)
     (simp_all add: d vm update_vm_comp [where vm = vm])


lemma demo_healthy: "healthy demo_server"
  by (simp add: healthy_def yields_def)


end
