(* ===== verification/Addresses.thy ===== *)
theory Addresses
  imports Guarantees
begin

section \<open>Addresses in the table and in the address manager\<close>

text \<open>
  A networked machine's address is recorded twice: in its row and in the address manager. All requests
  keep the two in step, with the exception of a runtime process that exits on its own; and a restart of the daemon
  rebuilds the address manager from the rows.
\<close>

abbreviation vm_ip :: "VM \<Rightarrow> string" where
  "vm_ip r \<equiv> nc_IPAddress (vc_Network (vm_Config r))"

definition addresses_agree :: "VM list \<Rightarrow> IPAM \<Rightarrow> bool" where
  "addresses_agree vs i \<longleftrightarrow> list_all (\<lambda>r. vm_ip r = [] \<or> allocated i (vm_ID r) = Some (vm_ip r)) vs"

definition agree :: "'h world \<Rightarrow> bool" where
  "agree w \<longleftrightarrow> db_inv (w_db w) \<and> addresses_agree (db_vms (w_db w)) (w_ipam w)"

lemma agree_map:
  assumes "agree w" and "db_inv d'" and "db_vms d' = map f (db_vms (w_db w))"
    and "\<And>r. r \<in> set (db_vms (w_db w)) \<Longrightarrow> vm_ID (f r) = vm_ID r \<and> vm_Config (f r) = vm_Config r"
  shows "agree (w\<lparr>w_db := d'\<rparr>)"
  using assms by (simp add: agree_def addresses_agree_def list_all_iff)

lemma agree_same:
  "agree w \<Longrightarrow> db_inv d' \<Longrightarrow> db_vms d' = db_vms (w_db w) \<Longrightarrow> agree (w\<lparr>w_db := d'\<rparr>)"
  by (simp add: agree_def)

lemma agree_update:
  assumes "agree w" and "based vm w"
  shows "agree (w\<lparr>w_db := update_vm vm (w_db w)\<rparr>)"
proof (rule agree_map [OF assms(1), where f = "\<lambda>r. if vm_ID r = vm_ID vm then r\<lparr>vm_State := vm_State vm,
      vm_Config := vm_Config vm, vm_Runtime := vm_Runtime vm, vm_UpdatedAt := vm_UpdatedAt vm\<rparr> else r"])
  show "db_inv (update_vm vm (w_db w))" using assms(1) by (simp add: agree_def)
  fix r assume r: "r \<in> set (db_vms (w_db w))"
  have "row (vm_ID r) (w_db w) = Some r"
    unfolding row_def using assms(1) r by (intro find_unique) (simp_all add: agree_def db_inv_def)
  then show "vm_ID (if vm_ID r = vm_ID vm then r\<lparr>vm_State := vm_State vm, vm_Config := vm_Config vm,
        vm_Runtime := vm_Runtime vm, vm_UpdatedAt := vm_UpdatedAt vm\<rparr> else r) = vm_ID r
      \<and> vm_Config (if vm_ID r = vm_ID vm then r\<lparr>vm_State := vm_State vm, vm_Config := vm_Config vm,
        vm_Runtime := vm_Runtime vm, vm_UpdatedAt := vm_UpdatedAt vm\<rparr> else r) = vm_Config r"
    using row_based [OF _ assms(2), of r] assms(1) by (auto simp: agree_def)
qed (simp add: update_vm_def)

lemma agree_lock: "agree w \<Longrightarrow> agree (w\<lparr>w_db := snd (lock_vm i opn t1 t2 (w_db w))\<rparr>)"
  by (rule agree_map [where f = "\<lambda>r. if vm_ID r = i \<and> lockable t2 r
       then r\<lparr>vm_LockedBy := Some opn, vm_LockedAt := Some t1\<rparr> else r"]) (simp_all add: agree_def, simp add: lock_vm_def Let_def)

lemma agree_unlock: "agree w \<Longrightarrow> agree (w\<lparr>w_db := unlock_vm i (w_db w)\<rparr>)"
  by (rule agree_map [where f = "\<lambda>r. if vm_ID r = i then r\<lparr>vm_LockedBy := None, vm_LockedAt := None\<rparr> else r"])
     (simp_all add: agree_def, simp add: unlock_vm_def)

lemma agree_others:
  assumes "agree w"
  shows "agree (w\<lparr>w_db := snd (insert_snapshot sn (w_db w))\<rparr>)" and "agree (w\<lparr>w_db := delete_snapshot i (w_db w)\<rparr>)"
    and "agree (w\<lparr>w_db := snd (insert_image im (w_db w))\<rparr>)" and "agree (w\<lparr>w_db := upsert_image im (w_db w)\<rparr>)"
    and "agree (w\<lparr>w_db := delete_image i (w_db w)\<rparr>)" and "agree (w\<lparr>w_db := snd (insert_job j (w_db w))\<rparr>)"
    and "agree (w\<lparr>w_db := update_job j (w_db w)\<rparr>)"
proof -
  have d: "db_inv (w_db w)" using assms by (simp add: agree_def)
  note same = agree_same [OF assms]
  show "agree (w\<lparr>w_db := snd (insert_snapshot sn (w_db w))\<rparr>)" by (rule same) (simp_all add: d, simp add: insert_snapshot_def)
  show "agree (w\<lparr>w_db := delete_snapshot i (w_db w)\<rparr>)" by (rule same) (simp_all add: d, simp add: delete_snapshot_def)
  show "agree (w\<lparr>w_db := snd (insert_image im (w_db w))\<rparr>)" by (rule same) (simp_all add: d, simp add: insert_image_def)
  show "agree (w\<lparr>w_db := upsert_image im (w_db w)\<rparr>)" by (rule same) (simp_all add: d, simp add: upsert_image_def)
  show "agree (w\<lparr>w_db := delete_image i (w_db w)\<rparr>)" by (rule same) (simp_all add: d, simp add: delete_image_def)
  show "agree (w\<lparr>w_db := snd (insert_job j (w_db w))\<rparr>)" by (rule same) (simp_all add: d, simp add: insert_job_def)
  show "agree (w\<lparr>w_db := update_job j (w_db w)\<rparr>)" by (rule same) (simp_all add: d, simp add: update_job_def)
qed

interpretation recorded: tables_invariant agree "\<lambda>_. True" "\<lambda>_. True"
  by unfold_locales (simp_all add: agree_update agree_lock agree_unlock agree_others, simp add: agree_def)

subsection \<open>Creation and deletion\<close>

lemma create_agrees:
  assumes "daemon_inv (limits_of S) w" and "agree w" and "yields (\<lambda>v. allocated (w_ipam w) v = None) (env_uuid (s_env S))"
  shows "wp (handleCreateVM S body) (\<lambda>_. agree) w"
proof (rule wp_handleCreateVM [OF assms(1,3)], goal_cases)
  case (1 resp w') then show ?case using assms(2) by (simp add: same_machines_def daemon_inv_def tables_ok_def agree_def)
next
  case (2 resp v w')
  then show ?case using assms(2) by (simp add: refused_create_def restored_def daemon_inv_def tables_ok_def agree_def addresses_agree_def)
next
  case (3 req v vm w')
  then obtain img c now sid where vm: "vm = new_vm v req img c now sid" and new: "list_all (\<lambda>r. vm_ID r \<noteq> v) (db_vms (w_db w))"
    and rows: "db_vms (w_db w') = db_vms (w_db w) @ [vm_row vm]" and db: "db_inv (w_db w')"
    and addr: "allocated (w_ipam w') = (if vm_ip vm = [] then allocated (w_ipam w) else (allocated (w_ipam w))(v \<mapsto> vm_ip vm))"
    unfolding accepted_create_def holds_address_def restored_def grabbed_def daemon_inv_def tables_ok_def Let_def
    by (auto simp: new_vm_def list_all_iff split: if_splits)
  have "vm_ID (vm_row vm) = v" "vm_ip (vm_row vm) = vm_ip vm" by (simp_all add: vm vm_row_def new_vm_def)
  with assms(2) new rows db addr show ?case by (auto simp: agree_def addresses_agree_def list_all_iff)
qed

text \<open>In step except for machine \<open>i\<close>.\<close>

definition agree_but :: "string \<Rightarrow> 'h world \<Rightarrow> bool" where
  "agree_but i w \<longleftrightarrow> db_inv (w_db w) \<and> addresses_agree (filter (\<lambda>r. vm_ID r \<noteq> i) (db_vms (w_db w))) (w_ipam w)"

lemma agree_agree_but: "agree w \<Longrightarrow> agree_but i w"
  by (auto simp: agree_def agree_but_def addresses_agree_def list_all_iff)

lemma agree_but_delete: "agree_but i w \<Longrightarrow> agree (w\<lparr>w_db := delete_vm i (w_db w)\<rparr>)"
  by (auto simp: agree_but_def agree_def) (auto simp: delete_vm_def addresses_agree_def list_all_iff list_ex_iff split: if_splits)

lemma cleanup_agree_but: "pres (agree_but (vm_ID vm)) (cleanupDeletedVMResources S vm)"
proof -
  have "pres (agree_but i) (on_ipam (ReleaseIP i))" for i
    by (auto simp: pres_iff_wp wp_ReleaseIP agree_but_def addresses_agree_def list_all_iff split: option.split)
  then show ?thesis
    unfolding cleanupDeletedVMResources_def Let_def by (intro pres_intros) (simp_all add: agree_but_def)
qed

lemma delete_locked_agrees:
  assumes "agree_but (vm_ID vm) w"
  shows "wp (delete_locked S vm) (\<lambda>resp w'. rs_Status resp = 204 \<longrightarrow> agree w') w"
proof -
  have host: "agree_but i (w\<lparr>w_host := h\<rparr>) = agree_but i w" for i h and w :: "'a world" by (simp add: agree_but_def)
  have fin: "wp (DeleteVM (s_env S) i) (\<lambda>ok w'. rs_Status (if ok then writeJSON 204 NoBody
      else WriteError 500 ErrInternalError) = 204 \<longrightarrow> agree w') w" if "agree_but i w" for i w
    unfolding DeleteVM_def
    by (intro wp_statementI) (use agree_but_delete [of i "w\<lparr>w_host := h\<rparr>" for h] that host in auto)
  show ?thesis
    unfolding delete_locked_def Let_def
    by (intro wp_bindI wp_ifI wp_returnI wp_call_mgrI wp_optionI wp_hostI; (rule pres_wp [OF cleanup_agree_but])?)
       (simp_all add: host assms fin)
qed

lemma delete_agrees:
  assumes "agree w"
  shows "wp (handleDeleteVM S idn) (\<lambda>resp w'. rs_Status resp = 204 \<longrightarrow> agree w') w"
proof -
  have host: "agree (w\<lparr>w_host := h\<rparr>) = agree w" for h and w :: "'a world" by (simp add: agree_def)
  have rel: "wp (ReleaseLock (s_env S) i) (\<lambda>_ w'. rs_Status resp = 204 \<longrightarrow> agree w') w"
    if "rs_Status resp = 204 \<longrightarrow> agree w" for i resp w
    unfolding ReleaseLock_def
    by (intro wp_statementI) (use agree_unlock [of "w\<lparr>w_host := h\<rparr>" for h] that host in auto)
  have work: "wp (delete_locked S vm) (\<lambda>resp. wp (ReleaseLock (s_env S) i) (\<lambda>_ w'. rs_Status resp = 204 \<longrightarrow> agree w')) w" if "agree w" for vm i w
    by (rule wp_mono [OF delete_locked_agrees [OF agree_agree_but [OF that]]]) (rule rel)
  have lock: "agree (w'\<lparr>w_host := h, w_db := snd (lock_vm i opn t1 t2 (w_db w'))\<rparr>)" if "agree w'" for h i opn t1 t2 and w' :: "'a world"
    using agree_lock [of "w'\<lparr>w_host := h\<rparr>" i opn t1 t2] that host by simp
  show ?thesis
    unfolding handleDeleteVM_def require_id_def with_vm_def locked_def AcquireLock_def
    by (intro wp_ifI wp_returnI wp_bindI wp_GetVMI wp_optionI wp_hostI wp_statementI)
       (simp_all add: host assms lock work)
qed

lemma agree_distinct:
  assumes "agree w" and "ipam_inv (w_ipam w)"
  shows "distinct (filter (\<lambda>ip. ip \<noteq> []) (map vm_ip (db_vms (w_db w))))"
proof -
  have "distinct (filter (\<lambda>ip. ip \<noteq> []) (map vm_ip vs))"
    if "distinct (map vm_ID vs)" "addresses_agree vs (w_ipam w)" for vs
    using that
  proof (induction vs)
    case (Cons r vs)
    have "vm_ip r' \<noteq> vm_ip r" if "vm_ip r \<noteq> []" "r' \<in> set vs" for r'
    proof
      assume "vm_ip r' = vm_ip r"
      with Cons.prems(2) that have "allocated (w_ipam w) (vm_ID r) = Some (vm_ip r)" "allocated (w_ipam w) (vm_ID r') = Some (vm_ip r)"
        by (auto simp: addresses_agree_def list_all_iff)
      then have "vm_ID r = vm_ID r'" using holders_uniqueD [OF ipam_invD(2) [OF assms(2)]] by blast
      with Cons.prems(1) that show False by auto
    qed
    then have "vm_ip r \<noteq> [] \<longrightarrow> vm_ip r \<notin> vm_ip ` set vs" by force
    with Cons show ?case by (simp add: addresses_agree_def)
  qed simp
  with assms(1) show ?thesis by (simp add: agree_def db_inv_def)
qed


lemma demo_agrees: "addresses_agree (db_vms (w_db demo_created)) (w_ipam demo_created)"
  "addresses_agree (db_vms (w_db demo_running)) (w_ipam demo_running)"
  by (simp_all add: addresses_agree_def demo_running_def)


subsection \<open>Restart\<close>

lemma allocations_of_rows:
  assumes "agree w" and "ipam_inv (w_ipam w)" and "set vs = set (db_vms (w_db w))" and "distinct vs"
  shows "distinct (map fst (vm_allocations vs))" and "distinct (map snd (vm_allocations vs))"
    and "set (map snd (vm_allocations vs)) \<subseteq> set pool"
    and "map_of (vm_allocations vs) i = Some ip \<longleftrightarrow> (\<exists>r \<in> set (db_vms (w_db w)). vm_ID r = i \<and> vm_ip r = ip \<and> ip \<noteq> [])"
proof -
  let ?f = "filter (\<lambda>r. vm_ip r \<noteq> [])"
  have ids: "inj_on vm_ID (set (db_vms (w_db w)))" using assms(1) by (simp add: agree_def db_inv_def distinct_map)
  have ips: "inj_on vm_ip (set (?f (db_vms (w_db w))))"
    using agree_distinct [OF assms(1,2)] by (simp add: filter_map comp_def distinct_map)
  show d: "distinct (map fst (vm_allocations vs))"
    unfolding vm_allocations_def rev_map [symmetric] map_map distinct_rev comp_def fst_conv distinct_map
    using assms(3,4) ids by (auto simp: rev_map [symmetric] intro: inj_on_subset)
  show "distinct (map snd (vm_allocations vs))"
    unfolding vm_allocations_def rev_map [symmetric] map_map distinct_rev comp_def snd_conv distinct_map
    using assms(3,4) ips by (auto intro: inj_on_subset)
  have "vm_ip r \<in> set pool" if "r \<in> set (db_vms (w_db w))" "vm_ip r \<noteq> []" for r
  proof -
    have "allocated (w_ipam w) (vm_ID r) = Some (vm_ip r)"
      using assms(1) that by (auto simp: agree_def addresses_agree_def list_all_iff)
    then have "vm_ip r \<in> ran (allocated (w_ipam w))" by (rule ranI)
    then show ?thesis using ipam_invD(4) [OF assms(2)] by blast
  qed
  then show "set (map snd (vm_allocations vs)) \<subseteq> set pool"
    using assms(3) by (auto simp: vm_allocations_def)
  show "map_of (vm_allocations vs) i = Some ip \<longleftrightarrow> (\<exists>r \<in> set (db_vms (w_db w)). vm_ID r = i \<and> vm_ip r = ip \<and> ip \<noteq> [])"
    using map_of_eq_Some_iff [OF d] assms(3) by (auto simp: vm_allocations_def)
qed

text \<open>C7. After a restart the address manager is rebuilt from the rows: exactly the machines that have an
  address hold it, free and held addresses partition the pool, and the tables are untouched, when
  the two were in step before.\<close>

theorem restart_restores:
  assumes "reachable S pull w" and "0 \<le> lm_MaxVMs (limits_of S)" and "addresses_agree (db_vms (w_db w)) (w_ipam w)"
    and "run_state (loadExistingAllocations (s_env S)) (w\<lparr>w_ipam := NewIPAM\<rparr>) = (True, w')"
  shows "w_db w' = w_db w \<and> ipam_inv (w_ipam w')
    \<and> (\<forall>i ip. allocated (w_ipam w') i = Some ip \<longleftrightarrow> (\<exists>r \<in> set (db_vms (w_db w)). vm_ID r = i \<and> vm_ip r = ip \<and> ip \<noteq> []))"
proof -
  have inv: "agree w" "ipam_inv (w_ipam w)"
    using reachable_daemon_inv [OF assms(1,2)] assms(3) by (simp_all add: agree_def daemon_inv_def tables_ok_def)
  let ?vs = "sort_key (\<lambda>r. - vm_CreatedAt r) (db_vms (w_db w))"
  have vs: "set ?vs = set (db_vms (w_db w))" "distinct ?vs"
    using inv(1) by (simp_all add: agree_def db_inv_def distinct_map)
  note alloc = allocations_of_rows [OF inv vs]
  have "wp (LoadAllocations (vm_allocations ?vs)) (\<lambda>_ s'. ipam_inv s' \<and> allocated s' = map_of (vm_allocations ?vs)) s" for s
    by (rule LoadAllocations_inv [OF alloc(3,1,2)])
  then have load: "wp (LoadAllocations (vm_allocations ?vs)) (\<lambda>_ s'. P s') s"
    if "\<And>s'. ipam_inv s' \<Longrightarrow> allocated s' = map_of (vm_allocations ?vs) \<Longrightarrow> P s'" for P s
    using that by (blast intro: wp_mono)
  have "wp (loadExistingAllocations (s_env S)) (\<lambda>ok w'. ok \<longrightarrow> w_db w' = w_db w \<and> ipam_inv (w_ipam w')
      \<and> allocated (w_ipam w') = map_of (vm_allocations ?vs)) (w\<lparr>w_ipam := NewIPAM\<rparr>)"
    unfolding loadExistingAllocations_def ListVMs_def
    by (intro wp_intros wp_queryI) (auto simp: ipam_inv_New NewIPAM_simps intro!: load)
  with assms(4) show ?thesis using alloc(4) by (simp add: wp_iff_run)
qed

theorem restart_restores_witness:
  "let w' = snd (run_state (loadExistingAllocations (s_env demo_server)) (demo_running\<lparr>w_ipam := NewIPAM\<rparr>)) in
   ipam_inv (w_ipam w') \<and> allocated (w_ipam w') ''vm0'' = Some (pool_addr 10)"
proof -
  let ?run = "run_state (loadExistingAllocations (s_env demo_server)) (demo_running\<lparr>w_ipam := NewIPAM\<rparr>)"
  have "wp (loadExistingAllocations (s_env demo_server)) (\<lambda>ok _. ok) (demo_running\<lparr>w_ipam := NewIPAM\<rparr>)"
    by (simp add: loadExistingAllocations_def ListVMs_def wp_trivial)
  then have "fst ?run" by (simp add: wp_iff_run)
  then have "?run = (True, snd ?run)" by (simp add: prod_eq_iff)
  from restart_restores [OF demo_reachable(3) _ demo_agrees(2) this] show ?thesis
    by (simp add: Let_def) (simp add: demo_running_def pool_addr_def)
qed

subsection \<open>A process that exits\<close>

text \<open>C11. When the runtime process of a running networked machine ends, its address goes back to the free
  addresses while its row keeps it: the next machine may be given the address this machine will
  use when it is started again.\<close>

theorem exit_frees_recorded_address:
  assumes "reachable S pull w" and "0 \<le> lm_MaxVMs (limits_of S)" and "addresses_agree (db_vms (w_db w)) (w_ipam w)"
    and "healthy S" and "find_vm idn (w_db w) = Some vm" and "vm_State vm = StateRunning"
    and "nc_Mode (vc_Network (vm_Config vm)) \<noteq> ''none''" and "vm_ip vm \<noteq> []"
    and "run_state (handleVMProcessExit S idn code failed) w = (u, w')"
  shows "vm_ip vm \<in> set (available (w_ipam w')) \<and> allocated (w_ipam w') (vm_ID vm) = None
    \<and> (\<exists>r. row (vm_ID vm) (w_db w') = Some r \<and> vm_ip r = vm_ip vm)"
proof -
  note inv = reachable_daemon_inv [OF assms(1,2)]
  have d: "db_inv (w_db w)" using inv by (simp add: daemon_inv_def tables_ok_def)
  have held: "allocated (w_ipam w) (vm_ID vm) = Some (vm_ip vm)"
    using assms(3,8) find_vm_Some [OF assms(5)] by (auto simp: addresses_agree_def list_all_iff)
  let ?freed = "\<lambda>w'. vm_ip vm \<in> set (available (w_ipam w')) \<and> allocated (w_ipam w') (vm_ID vm) = None"
  have release: "wp (on_ipam (ReleaseIP i)) Q w0" if "allocated (w_ipam w0) i = Some ip"
    and "\<And>i'. ip \<in> set (available i') \<Longrightarrow> allocated i' i = None \<Longrightarrow> Q () (w0\<lparr>w_ipam := i'\<rparr>)" for i ip Q w0
    using that by (simp add: wp_ReleaseIP)
  have net: "wp (cleanupVMNetwork S vm') (\<lambda>_. ?freed) w''" if "vm_ID vm' = vm_ID vm" "vm_Config vm' = vm_Config vm" "w_ipam w'' = w_ipam w" for vm' w''
    unfolding cleanupVMNetwork_def Let_def that using held that(3) assms(8)
    by (intro wp_intros wp_hostI release) simp_all
  have "wp (handleVMProcessExit S idn code failed) (\<lambda>_. ?freed) w"
    unfolding handleVMProcessExit_def GetVM_def
    by (intro wp_intros wp_query_ok [OF assms(4)]; simp add: assms(5-7) del: wp_bind wp_on_host)
       (intro wp_bindI wp_hostI wp_UpdateVM_ok [OF assms(4)] net; simp)
  moreover have "\<exists>r. row (vm_ID vm) (w_db w') = Some r \<and> vm_ip r = vm_ip vm"
    using addressed_row [OF inv row_find_vm [OF d assms(5)], of "ProcessExit idn code failed" pull] assms(9)
    by (auto simp: wp_iff_run silent_def machine_at_def same_machine_def split: prod.splits)
  ultimately show ?thesis using assms(9) by (simp add: wp_iff_run)
qed

theorem exit_frees_recorded_address_witness:
  "let w' = snd (run_state (handleVMProcessExit demo_server ''vm0'' (Some 1) True) demo_running) in
   pool_addr 10 \<in> set (available (w_ipam w')) \<and> (\<exists>r. row ''vm0'' (w_db w') = Some r \<and> vm_ip r = pool_addr 10)"
proof -
  let ?r = "demo_row\<lparr>vm_State := StateRunning, vm_Runtime := Some demo_runtime, vm_UpdatedAt := 5\<rparr>"
  have vm: "find_vm ''vm0'' (w_db demo_running) = Some ?r" by (simp add: demo_running_def find_vm_def)
  show ?thesis
    using exit_frees_recorded_address [OF demo_reachable(3) _ demo_agrees(2) demo_healthy vm _ _ _ prod.collapse [symmetric]]
    by (simp add: Let_def pool_addr_def)
qed

end
