(* ===== verification/File_System.thy ===== *)
theory File_System
  imports Go_Path "HOL-Library.Finite_Map" "HOL-Library.Char_ord" "HOL-Library.List_Lexorder"
begin

section \<open>A file system whose operations may fail\<close>

text \<open>
  The functions of the package \<open>os\<close> that move file contents around, for the components whose
  correctness depends on them. The state has the contents of the regular files, each under its location
  (the components of its absolute path, there are no symbolic links), and a host from which everything is
  drawn that the program does not decide: whether an operation fails, how far a failing one came, the random part of
  a temporary name, the time. Every operation can fail at any time. The ends of a run that is cut off by a crash
  are among the ends of the runs in which, from some point on, every operation fails: so what is shown of
  all ends holds after a crash too.
\<close>

type_synonym location = "string list"

record 'h disk =
  dk_files :: "(location, string) fmap"
  dk_host :: 'h

record 'h os =
  of_fault :: "('h, bool) comp"
  of_count :: "('h, nat) comp"
  of_kept :: "('h, location \<Rightarrow> bool) comp"
  of_random :: "('h, nat) comp"
  of_now :: "('h, int) comp"
  of_cwd :: string

text \<open>The data a reader delivers, and whether it ends properly or with an error.\<close>

type_synonym reader = "string \<times> bool"

definition draw :: "('h, 'a) comp \<Rightarrow> ('h disk, 'a) comp" where
  "draw m = zoom dk_host (\<lambda>h w. w\<lparr>dk_host := h\<rparr>) m"

definition attempt :: "'h os \<Rightarrow> ('h disk, bool) comp" where
  "attempt E = do { bad \<leftarrow> draw (of_fault E); State_Monad.return (\<not> bad) }"

definition locate :: "'h os \<Rightarrow> string \<Rightarrow> location" where
  "locate E p = clean_comps (if is_abs p then p else of_cwd E @ ''/'' @ p)"

definition below :: "location \<Rightarrow> location \<Rightarrow> bool" where
  "below d l \<longleftrightarrow> length d < length l \<and> take (length d) l = d"

definition put_file :: "location \<Rightarrow> string \<Rightarrow> ('h disk, unit) comp" where
  "put_file l x = State_Monad.update (\<lambda>w. w\<lparr>dk_files := fmupd l x (dk_files w)\<rparr>)"

definition file_at :: "location \<Rightarrow> ('h disk, string option) comp" where
  "file_at l = do { w \<leftarrow> State_Monad.get; State_Monad.return (fmlookup (dk_files w) l) }"

text \<open>Something is at a location: a file, or a directory that is not empty. Empty directories are not recorded; where
  one matters the host lets the operation fail.\<close>

definition occupied :: "(location, string) fmap \<Rightarrow> location \<Rightarrow> bool" where
  "occupied F l \<longleftrightarrow> fmlookup F l \<noteq> None \<or> fBex (fmdom F) (below l)"

text \<open>\<open>os.Open\<close> and reading to the end: \<open>Inl True\<close> says that there is no such file.\<close>

definition f_open :: "'h os \<Rightarrow> string \<Rightarrow> ('h disk, bool + reader) comp" where
  "f_open E p = do {
     ok \<leftarrow> attempt E;
     if \<not> ok then State_Monad.return (Inl False) else do {
     c \<leftarrow> file_at (locate E p);
     case c of None \<Rightarrow> State_Monad.return (Inl True) | Some x \<Rightarrow> do {
     whole \<leftarrow> attempt E;
     if whole then State_Monad.return (Inr (x, True))
     else do { k \<leftarrow> draw (of_count E); State_Monad.return (Inr (take k x, False)) }}}}"

text \<open>\<open>io.Copy\<close> into a file that is open for writing.\<close>

definition f_copy :: "'h os \<Rightarrow> string \<Rightarrow> reader \<Rightarrow> ('h disk, bool) comp" where
  "f_copy E p r = do {
     ok \<leftarrow> attempt E;
     if ok then do { _ \<leftarrow> put_file (locate E p) (fst r); State_Monad.return (snd r) }
     else do { k \<leftarrow> draw (of_count E); _ \<leftarrow> put_file (locate E p) (take k (fst r)); State_Monad.return False }}"

text \<open>\<open>os.Create\<close> makes an empty file, or empties the one that is there. A directory is not recorded: making one
  succeeds or fails.\<close>

definition f_create :: "'h os \<Rightarrow> string \<Rightarrow> ('h disk, bool) comp" where
  "f_create E p = do {
     ok \<leftarrow> attempt E;
     if ok then do { _ \<leftarrow> put_file (locate E p) []; State_Monad.return True } else State_Monad.return False }"

text \<open>\<open>os.WriteFile\<close>.\<close>

definition f_write_file :: "'h os \<Rightarrow> string \<Rightarrow> string \<Rightarrow> ('h disk, bool) comp" where
  "f_write_file E p x = do {
     made \<leftarrow> f_create E p;
     if \<not> made then State_Monad.return False else f_copy E p (x, True) }"

text \<open>A file opened with \<open>O_CREATE\<close> and \<open>O_APPEND\<close>, and a write to it. What is written to a file that was removed meanwhile is lost.\<close>

definition f_open_append :: "'h os \<Rightarrow> string \<Rightarrow> ('h disk, bool) comp" where
  "f_open_append E p = do {
     ok \<leftarrow> attempt E;
     if \<not> ok then State_Monad.return False else do {
     c \<leftarrow> file_at (locate E p);
     _ \<leftarrow> (if c = None then put_file (locate E p) [] else State_Monad.return ());
     State_Monad.return True }}"

definition f_append :: "'h os \<Rightarrow> string \<Rightarrow> string \<Rightarrow> ('h disk, bool) comp" where
  "f_append E p x = do {
     ok \<leftarrow> attempt E;
     k \<leftarrow> (if ok then State_Monad.return (length x) else draw (of_count E));
     c \<leftarrow> file_at (locate E p);
     _ \<leftarrow> (case c of None \<Rightarrow> State_Monad.return () | Some y \<Rightarrow> put_file (locate E p) (y @ take k x));
     State_Monad.return ok }"

definition f_mkdir_all :: "'h os \<Rightarrow> string \<Rightarrow> ('h disk, bool) comp" where
  "f_mkdir_all E p = attempt E"

text \<open>\<open>os.CreateTemp\<close> draws names until one is unused, and gives up after 10000 attempts.\<close>

definition temp_path :: "string \<Rightarrow> string \<Rightarrow> nat \<Rightarrow> string" where
  "temp_path dir prefix k = dir @ ''/'' @ prefix @ nat_digits k"

function temp_name :: "'h os \<Rightarrow> string \<Rightarrow> string \<Rightarrow> int \<Rightarrow> ('h disk, string option) comp" where
  "temp_name E dir prefix n =
     (if n \<le> 0 then State_Monad.return None else do {
        k \<leftarrow> draw (of_random E);
        c \<leftarrow> file_at (locate E (temp_path dir prefix k));
        if c = None then State_Monad.return (Some (temp_path dir prefix k)) else temp_name E dir prefix (n - 1) })"
  by pat_completeness auto
termination by (relation "measure (\<lambda>(_, _, _, n). nat n)") auto

declare temp_name.simps [simp del]

definition f_create_temp :: "'h os \<Rightarrow> string \<Rightarrow> string \<Rightarrow> ('h disk, string option) comp" where
  "f_create_temp E dir prefix = do {
     ok \<leftarrow> attempt E;
     if \<not> ok then State_Monad.return None else do {
     t \<leftarrow> temp_name E dir prefix 10000;
     case t of None \<Rightarrow> State_Monad.return None
     | Some p \<Rightarrow> do { _ \<leftarrow> put_file (locate E p) []; State_Monad.return (Some p) }}}"

definition f_mkdir_temp :: "'h os \<Rightarrow> string \<Rightarrow> string \<Rightarrow> ('h disk, string option) comp" where
  "f_mkdir_temp E dir prefix = do {
     ok \<leftarrow> attempt E;
     if \<not> ok then State_Monad.return None else do {
     k \<leftarrow> draw (of_random E);
     State_Monad.return (Some (temp_path dir prefix k)) }}"

definition f_rename :: "'h os \<Rightarrow> string \<Rightarrow> string \<Rightarrow> ('h disk, bool) comp" where
  "f_rename E p q = do {
     ok \<leftarrow> attempt E;
     c \<leftarrow> file_at (locate E p);
     w \<leftarrow> State_Monad.get;
     case c of
       Some x \<Rightarrow> if ok \<and> \<not> fBex (fmdom (dk_files w)) (below (locate E q)) then do {
           _ \<leftarrow> State_Monad.update (\<lambda>w. w\<lparr>dk_files := fmupd (locate E q) x (fmdrop (locate E p) (dk_files w))\<rparr>);
           State_Monad.return True }
         else State_Monad.return False
     | None \<Rightarrow> State_Monad.return False }"

definition f_remove :: "'h os \<Rightarrow> string \<Rightarrow> ('h disk, bool) comp" where
  "f_remove E p = do {
     ok \<leftarrow> attempt E;
     if ok then do {
       c \<leftarrow> file_at (locate E p);
       _ \<leftarrow> State_Monad.update (\<lambda>w. w\<lparr>dk_files := fmdrop (locate E p) (dk_files w)\<rparr>);
       State_Monad.return (c \<noteq> None) }
     else State_Monad.return False }"

definition remaining :: "location \<Rightarrow> (location \<Rightarrow> bool) \<Rightarrow> location \<Rightarrow> bool" where
  "remaining d kept l \<longleftrightarrow> l \<noteq> d \<and> \<not> below d l \<or> kept l"

definition f_remove_all :: "'h os \<Rightarrow> string \<Rightarrow> ('h disk, bool) comp" where
  "f_remove_all E p = do {
     ok \<leftarrow> attempt E;
     kept \<leftarrow> (if ok then State_Monad.return (\<lambda>_. False) else draw (of_kept E));
     _ \<leftarrow> State_Monad.update (\<lambda>w. w\<lparr>dk_files :=
            fmfilter (remaining (locate E p) kept) (dk_files w)\<rparr>);
     State_Monad.return ok }"

text \<open>\<open>os.Lstat\<close>: \<open>None\<close> is an error, else whether the file exists.\<close>

definition f_lstat :: "'h os \<Rightarrow> string \<Rightarrow> ('h disk, bool option) comp" where
  "f_lstat E p = do {
     ok \<leftarrow> attempt E;
     if \<not> ok then State_Monad.return None else do {
     w \<leftarrow> State_Monad.get;
     State_Monad.return (Some (occupied (dk_files w) (locate E p))) }}"

subsection \<open>One rule per operation\<close>

text \<open>The host is left open in all of them: what matters is what became of the files.\<close>

named_theorems file_intros \<open>rules for the operations of the file system\<close>

lemma wp_drawI [file_intros]: "(\<And>a w'. dk_files w' = dk_files w \<Longrightarrow> Q a w') \<Longrightarrow> wp (draw m) Q w"
  by (simp add: draw_def wp_iff_run)

lemma wp_attemptI [file_intros]: "(\<And>ok w'. dk_files w' = dk_files w \<Longrightarrow> Q ok w') \<Longrightarrow> wp (attempt E) Q w"
  unfolding attempt_def by (intro wp_intros wp_drawI) simp

lemma wp_getI [file_intros]: "Q w w \<Longrightarrow> wp State_Monad.get Q w"
  by simp

lemma wp_file_at [simp]: "wp (file_at l) Q w = Q (fmlookup (dk_files w) l) w"
  by (simp add: file_at_def)

lemma wp_put_file [simp]: "wp (put_file l x) Q w = Q () (w\<lparr>dk_files := fmupd l x (dk_files w)\<rparr>)"
  by (simp add: put_file_def)

lemma wp_file_atI [file_intros]: "Q (fmlookup (dk_files w) l) w \<Longrightarrow> wp (file_at l) Q w"
  by simp

lemma wp_put_fileI [file_intros]:
  "(\<And>w'. dk_files w' = fmupd l x (dk_files w) \<Longrightarrow> Q () w') \<Longrightarrow> wp (put_file l x) Q w"
  by simp

lemma wp_f_openI [file_intros]:
  assumes "\<And>w' missing. dk_files w' = dk_files w \<Longrightarrow> missing \<longrightarrow> fmlookup (dk_files w) (locate E p) = None \<Longrightarrow> Q (Inl missing) w'"
    and "\<And>w' y x ok. dk_files w' = dk_files w \<Longrightarrow> fmlookup (dk_files w) (locate E p) = Some y \<Longrightarrow> ok \<longrightarrow> x = y \<Longrightarrow> Q (Inr (x, ok)) w'"
  shows "wp (f_open E p) Q w"
  unfolding f_open_def by (intro wp_intros file_intros assms) simp_all

lemma wp_f_copyI [file_intros]:
  assumes "\<And>w' y. dk_files w' = fmupd (locate E p) y (dk_files w) \<Longrightarrow> Q False w'"
    and "\<And>w'. snd r \<Longrightarrow> dk_files w' = fmupd (locate E p) (fst r) (dk_files w) \<Longrightarrow> Q True w'"
  shows "wp (f_copy E p r) Q w"
  unfolding f_copy_def by (cases "snd r"; intro wp_intros file_intros) (simp_all add: assms)

lemma wp_f_createI [file_intros]:
  assumes "\<And>w'. dk_files w' = dk_files w \<Longrightarrow> Q False w'"
    and "\<And>w'. dk_files w' = fmupd (locate E p) [] (dk_files w) \<Longrightarrow> Q True w'"
  shows "wp (f_create E p) Q w"
  unfolding f_create_def by (intro wp_intros file_intros) (simp_all add: assms)

lemma wp_f_write_fileI [file_intros]:
  assumes "\<And>w'. dk_files w' = dk_files w \<Longrightarrow> Q False w'"
    and "\<And>w' y. dk_files w' = fmupd (locate E p) y (dk_files w) \<Longrightarrow> Q False w'"
    and "\<And>w'. dk_files w' = fmupd (locate E p) x (dk_files w) \<Longrightarrow> Q True w'"
  shows "wp (f_write_file E p x) Q w"
  unfolding f_write_file_def wp_bind
  by (rule wp_f_createI; simp add: assms(1); rule wp_f_copyI; simp add: assms(2,3))

lemma wp_f_open_appendI [file_intros]:
  assumes "\<And>w'. dk_files w' = dk_files w \<Longrightarrow> Q False w'"
    and "\<And>w' y. dk_files w' = dk_files w \<Longrightarrow> fmlookup (dk_files w) (locate E p) = Some y \<Longrightarrow> Q True w'"
    and "\<And>w'. dk_files w' = fmupd (locate E p) [] (dk_files w) \<Longrightarrow> fmlookup (dk_files w) (locate E p) = None \<Longrightarrow> Q True w'"
  shows "wp (f_open_append E p) Q w"
  unfolding f_open_append_def by (intro wp_intros file_intros) (auto simp: assms)

lemma wp_f_appendI [file_intros]:
  assumes "\<And>w' k. fmlookup (dk_files w) (locate E p) = None \<Longrightarrow> dk_files w' = dk_files w \<Longrightarrow> Q k w'"
    and "\<And>w' y k. fmlookup (dk_files w) (locate E p) = Some y \<Longrightarrow> dk_files w' = fmupd (locate E p) (y @ take k x) (dk_files w) \<Longrightarrow> Q False w'"
    and "\<And>w' y. fmlookup (dk_files w) (locate E p) = Some y \<Longrightarrow> dk_files w' = fmupd (locate E p) (y @ x) (dk_files w) \<Longrightarrow> Q True w'"
  shows "wp (f_append E p x) Q w"
  unfolding f_append_def
  by (intro wp_intros file_intros; (simp split: option.split)?) (auto simp: assms)

lemma wp_f_mkdir_allI [file_intros]:
  "(\<And>ok w'. dk_files w' = dk_files w \<Longrightarrow> Q ok w') \<Longrightarrow> wp (f_mkdir_all E p) Q w"
  unfolding f_mkdir_all_def by (rule wp_attemptI)

lemma wp_temp_nameI:
  assumes "\<And>w'. dk_files w' = dk_files w \<Longrightarrow> Q None w'"
    and "\<And>w' k. dk_files w' = dk_files w \<Longrightarrow> fmlookup (dk_files w) (locate E (temp_path dir prefix k)) = None \<Longrightarrow>
       Q (Some (temp_path dir prefix k)) w'"
  shows "wp (temp_name E dir prefix n) Q w"
  using assms
proof (induction E dir prefix n arbitrary: w rule: temp_name.induct)
  case (1 E dir prefix n)
  show ?case
    unfolding temp_name.simps [of E dir prefix n] by (intro wp_intros file_intros "1.IH") (simp_all add: "1.prems")
qed

lemma wp_f_create_tempI [file_intros]:
  assumes "\<And>w'. dk_files w' = dk_files w \<Longrightarrow> Q None w'"
    and "\<And>w' k. fmlookup (dk_files w) (locate E (temp_path dir prefix k)) = None \<Longrightarrow>
       dk_files w' = fmupd (locate E (temp_path dir prefix k)) [] (dk_files w) \<Longrightarrow>
       Q (Some (temp_path dir prefix k)) w'"
  shows "wp (f_create_temp E dir prefix) Q w"
proof -
  have "wp (temp_name E dir prefix 10000) (\<lambda>t. wp (case t of None \<Rightarrow> State_Monad.return None
      | Some p \<Rightarrow> do { _ \<leftarrow> put_file (locate E p) []; State_Monad.return (Some p) }) Q) w'" if "dk_files w' = dk_files w" for w'
    by (rule wp_temp_nameI) (simp_all add: that assms)
  then show ?thesis
    unfolding f_create_temp_def by (intro wp_intros wp_attemptI) (simp_all add: assms)
qed

lemma wp_f_mkdir_tempI [file_intros]:
  assumes "\<And>w'. dk_files w' = dk_files w \<Longrightarrow> Q None w'"
    and "\<And>w' k. dk_files w' = dk_files w \<Longrightarrow> Q (Some (temp_path dir prefix k)) w'"
  shows "wp (f_mkdir_temp E dir prefix) Q w"
  unfolding f_mkdir_temp_def by (intro wp_intros file_intros) (simp_all add: assms)

lemma wp_f_renameI [file_intros]:
  assumes "\<And>w'. dk_files w' = dk_files w \<Longrightarrow> Q False w'"
    and "\<And>w' x. fmlookup (dk_files w) (locate E p) = Some x \<Longrightarrow>
       dk_files w' = fmupd (locate E q) x (fmdrop (locate E p) (dk_files w)) \<Longrightarrow> Q True w'"
  shows "wp (f_rename E p q) Q w"
  unfolding f_rename_def by (intro wp_intros file_intros) (simp_all add: assms)

lemma wp_f_removeI [file_intros]:
  assumes "\<And>w'. dk_files w' = dk_files w \<Longrightarrow> Q False w'"
    and "\<And>w' ok. dk_files w' = fmdrop (locate E p) (dk_files w) \<Longrightarrow> Q ok w'"
  shows "wp (f_remove E p) Q w"
  unfolding f_remove_def by (intro wp_intros file_intros) (simp_all add: assms)

lemma wp_f_remove_allI [file_intros]:
  assumes "\<And>w' ok kept. dk_files w' = fmfilter (remaining (locate E p) kept) (dk_files w) \<Longrightarrow> Q ok w'"
  shows "wp (f_remove_all E p) Q w"
proof -
  have "Q ok (w'\<lparr>dk_files := fmfilter (remaining (locate E p) kept) (dk_files w')\<rparr>)" if "dk_files w' = dk_files w" for ok kept w'
    by (rule assms [of _ kept]) (subst that [symmetric], simp)
  then show ?thesis
    unfolding f_remove_all_def by (intro wp_intros file_intros) simp_all
qed

lemma wp_f_lstatI [file_intros]:
  assumes "\<And>w'. dk_files w' = dk_files w \<Longrightarrow> Q None w'"
    and "\<And>w'. dk_files w' = dk_files w \<Longrightarrow> Q (Some (occupied (dk_files w) (locate E p))) w'"
  shows "wp (f_lstat E p) Q w"
  unfolding f_lstat_def using assms by (intro wp_intros file_intros) auto

subsection \<open>Locations\<close>

text \<open>A component that stays one component: not empty, no dots, no separator.\<close>

definition segment :: "string \<Rightarrow> bool" where
  "segment c \<longleftrightarrow> c \<noteq> [] \<and> c \<noteq> ''.'' \<and> c \<noteq> dotdot \<and> CHR ''/'' \<notin> set c"

lemma split_on_append: "split_on d (s @ d # t) = split_on d s @ split_on d t"
  by (induction s) (auto simp: tl_append2 split: list.split)

lemma clean_comps_segment:
  assumes "s \<noteq> []" and "segment c"
  shows "clean_comps (s @ ''/'' @ c) = clean_comps s @ [c]"
proof -
  have "is_abs (s @ ''/'' @ c) = is_abs s" using assms(1) by (cases s) auto
  moreover have "split_on CHR ''/'' (s @ ''/'' @ c) = split_on CHR ''/'' s @ [c]"
    using assms(2) by (simp add: split_on_append split_on_single segment_def)
  ultimately show ?thesis using assms(2) by (simp add: clean_comps_def segment_def)
qed

lemma locate_segment:
  assumes "d \<noteq> []" and "segment c"
  shows "locate E (d @ ''/'' @ c) = locate E d @ [c]"
proof -
  have "is_abs (d @ ''/'' @ c) = is_abs d" using assms(1) by (cases d) auto
  then show ?thesis
    using clean_comps_segment [OF assms] clean_comps_segment [of "of_cwd E @ ''/'' @ d" c] assms
    by (simp add: locate_def)
qed

lemma locate_clean: "d \<noteq> [] \<Longrightarrow> is_abs (of_cwd E) \<Longrightarrow> is_abs d \<Longrightarrow> locate E (path_clean d) = locate E d"
  by (simp add: locate_def)

lemma locate_join:
  assumes "is_abs d" and "segment c"
  shows "locate E (path_join [d, c]) = locate E d @ [c]"
proof -
  have "d \<noteq> []" using assms(1) by auto
  then have "is_abs (d @ ''/'' @ c)" using assms(1) by (cases d) auto
  then show ?thesis
    using clean_comps_segment [OF \<open>d \<noteq> []\<close> assms(2)] assms \<open>d \<noteq> []\<close> by (simp add: locate_def)
qed

lemma below_simps [simp]: "below d (d @ [c])" "\<not> below d d" "below d (d @ c # cs)" "below (d @ [c]) (d @ c # c' # cs)"
  by (simp_all add: below_def)

lemma segment_long: "CHR ''/'' \<notin> set s \<Longrightarrow> 2 < length s \<Longrightarrow> segment s"
  by (auto simp: segment_def dotdot_def)

lemma digits_no_slash: "CHR ''/'' \<notin> set (nat_digits n)"
  using nat_digits_chars [of "CHR ''/''" n] by auto

end
