(* ===== verification/Blob_Store.thy ===== *)
theory Blob_Store
  imports File_System
begin

section \<open>The object backend (snapshotstore/blob.go)\<close>

text \<open>
  The interface \<open>Blob\<close> as a record of operations, the file system backend \<open>FSBlob\<close>, and the contract
  between them as the locale \<open>blob\<close>: what the snapshot store may rely on, proved for
  the file system backend by the interpretation at the end.
\<close>

record 'h Blob =
  bl_Put :: "string \<Rightarrow> reader \<Rightarrow> ('h disk, bool) comp"
  bl_Get :: "string \<Rightarrow> ('h disk, bool + reader) comp"
  bl_List :: "string \<Rightarrow> ('h disk, string list option) comp"
  bl_Exists :: "string \<Rightarrow> ('h disk, bool option) comp"

subsection \<open>The file system backend\<close>

definition NewFSBlob :: "'h os \<Rightarrow> string \<Rightarrow> ('h disk, string option) comp" where
  "NewFSBlob E dir =
     (if dir = [] then State_Monad.return None else do {
        ok \<leftarrow> attempt E;
        State_Monad.return (if ok then Some (path_clean (if is_abs dir then dir else of_cwd E @ ''/'' @ dir)) else None) })"

definition keyPath :: "string \<Rightarrow> string \<Rightarrow> string option" where
  "keyPath root key =
     (if key = [] then None else
      let rooted = path_clean (CHR ''/'' # key);
          rel = (if has_prefix rooted ''/'' then tl rooted else rooted);
          full = path_join [root, rel]
      in case path_rel root full of
           None \<Rightarrow> None
         | Some check \<Rightarrow> if check = dotdot \<or> has_prefix check (dotdot @ ''/'') then None else Some full)"

definition fsyncDir :: "'h os \<Rightarrow> ('h disk, bool) comp" where
  "fsyncDir E = do {
     opened \<leftarrow> attempt E;
     if \<not> opened then State_Monad.return False else do {
     synced \<leftarrow> attempt E;
     if \<not> synced then do { _ \<leftarrow> attempt E; State_Monad.return False } else attempt E }}"

text \<open>The deferred clean-up of a \<open>Put\<close> that did not commit.\<close>

definition abandon :: "'h os \<Rightarrow> string \<Rightarrow> ('h disk, bool) comp" where
  "abandon E tmp = do { _ \<leftarrow> attempt E; _ \<leftarrow> f_remove E tmp; State_Monad.return False }"

definition fs_commit :: "'h os \<Rightarrow> string \<Rightarrow> string \<Rightarrow> reader \<Rightarrow> ('h disk, bool) comp" where
  "fs_commit E path tmp r = do {
     written \<leftarrow> f_copy E tmp r;
     if \<not> written then abandon E tmp else do {
     synced \<leftarrow> attempt E;
     if \<not> synced then abandon E tmp else do {
     closed \<leftarrow> attempt E;
     if \<not> closed then abandon E tmp else do {
     renamed \<leftarrow> f_rename E tmp path;
     if \<not> renamed then abandon E tmp else do {
     durable \<leftarrow> fsyncDir E;
     if durable then State_Monad.return True
     else do { _ \<leftarrow> f_remove E path; State_Monad.return False }}}}}}"

definition fs_Put :: "'h os \<Rightarrow> string \<Rightarrow> string \<Rightarrow> reader \<Rightarrow> ('h disk, bool) comp" where
  "fs_Put E root key r = do {
     live \<leftarrow> attempt E;
     if \<not> live then State_Monad.return False else
     case keyPath root key of None \<Rightarrow> State_Monad.return False | Some path \<Rightarrow> do {
     made \<leftarrow> attempt E;
     if \<not> made then State_Monad.return False else do {
     t \<leftarrow> f_create_temp E (path_dir path) (''.tmp-'' @ path_base path @ ''-'');
     case t of None \<Rightarrow> State_Monad.return False | Some tmp \<Rightarrow> fs_commit E path tmp r }}}"

definition fs_Get :: "'h os \<Rightarrow> string \<Rightarrow> string \<Rightarrow> ('h disk, bool + reader) comp" where
  "fs_Get E root key = do {
     live \<leftarrow> attempt E;
     if \<not> live then State_Monad.return (Inl False) else
     case keyPath root key of None \<Rightarrow> State_Monad.return (Inl False) | Some path \<Rightarrow> f_open E path }"

text \<open>\<open>filepath.WalkDir\<close> visits the files of a directory in the order of their components.\<close>

definition fs_List :: "'h os \<Rightarrow> string \<Rightarrow> string \<Rightarrow> ('h disk, string list option) comp" where
  "fs_List E root prefix = do {
     live \<leftarrow> attempt E;
     walked \<leftarrow> attempt E;
     w \<leftarrow> State_Monad.get;
     State_Monad.return (if \<not> live \<or> \<not> walked then None else
       Some (filter (\<lambda>k. has_prefix k prefix)
         (map (\<lambda>l. join ''/'' (drop (length (locate E root)) l))
           (filter (\<lambda>l. below (locate E root) l \<and> \<not> has_prefix (last l) ''.tmp-'')
             (sorted_list_of_fset (fmdom (dk_files w))))))) }"

definition fs_Exists :: "'h os \<Rightarrow> string \<Rightarrow> string \<Rightarrow> ('h disk, bool option) comp" where
  "fs_Exists E root key = do {
     live \<leftarrow> attempt E;
     if \<not> live then State_Monad.return None else
     case keyPath root key of None \<Rightarrow> State_Monad.return None | Some path \<Rightarrow> f_lstat E path }"

definition FSBlob :: "'h os \<Rightarrow> string \<Rightarrow> 'h Blob" where
  "FSBlob E root = \<lparr>bl_Put = fs_Put E root, bl_Get = fs_Get E root, bl_List = fs_List E root, bl_Exists = fs_Exists E root\<rparr>"

subsection \<open>The contract\<close>

text \<open>The keys the store uses: a directory and a name that is the commit marker or a compressed file.\<close>

definition object_key :: "string \<Rightarrow> bool" where
  "object_key k \<longleftrightarrow> (\<exists>i n. k = i @ ''/'' @ n \<and> segment i \<and> segment n \<and> (n = ''manifest.json'' \<or> has_suffix n ''.zst''))"

definition same_objects :: "('h disk \<Rightarrow> string \<Rightarrow> string option) \<Rightarrow> string set \<Rightarrow> 'h disk \<Rightarrow> 'h disk \<Rightarrow> bool" where
  "same_objects objs K w w' \<longleftrightarrow> (\<forall>k. object_key k \<and> k \<notin> K \<longrightarrow> objs w' k = objs w k)"

definition same_files :: "(location \<Rightarrow> bool) \<Rightarrow> 'h disk \<Rightarrow> 'h disk \<Rightarrow> bool" where
  "same_files P w w' \<longleftrightarrow> (\<forall>l. P l \<longrightarrow> fmlookup (dk_files w') l = fmlookup (dk_files w) l)"

text \<open>\<open>objs\<close> is what the backend holds, \<open>owned\<close> the files in which it holds it. Storing replaces one object and
  nothing else when it succeeds; when it fails the object is as before, or gone, or, if it was
  delivered completely, the new one: never a part of it. Reading returns the object.\<close>

locale blob =
  fixes B :: "'h Blob" and objs :: "'h disk \<Rightarrow> string \<Rightarrow> string option" and owned :: "location \<Rightarrow> bool"
  assumes objs_owned: "object_key k \<Longrightarrow> same_files owned w w' \<Longrightarrow> objs w' k = objs w k"
    and Put_law: "object_key k \<Longrightarrow>
      (\<And>w'. same_objects objs {k} w w' \<Longrightarrow> same_files (\<lambda>l. \<not> owned l) w w' \<Longrightarrow> snd r \<Longrightarrow> objs w' k = Some (fst r) \<Longrightarrow> Q True w') \<Longrightarrow>
      (\<And>w'. same_objects objs {k} w w' \<Longrightarrow> same_files (\<lambda>l. \<not> owned l) w w' \<Longrightarrow>
         objs w' k = objs w k \<or> objs w' k = None \<or> snd r \<and> objs w' k = Some (fst r) \<Longrightarrow> Q False w') \<Longrightarrow>
      wp (bl_Put B k r) Q w"
    and Get_law: "object_key k \<Longrightarrow>
      (\<And>w' missing. dk_files w' = dk_files w \<Longrightarrow> missing \<longrightarrow> objs w k = None \<Longrightarrow> R (Inl missing) w') \<Longrightarrow>
      (\<And>w' x y ok. dk_files w' = dk_files w \<Longrightarrow> objs w k = Some y \<Longrightarrow> ok \<longrightarrow> x = y \<Longrightarrow> R (Inr (x, ok)) w') \<Longrightarrow>
      wp (bl_Get B k) R w"

subsection \<open>The file system backend keeps the contract\<close>

definition fs_objs :: "'h os \<Rightarrow> string \<Rightarrow> 'h disk \<Rightarrow> string \<Rightarrow> string option" where
  "fs_objs E root w k = fmlookup (dk_files w) (locate E root @ split_on CHR ''/'' k)"

definition fs_owned :: "'h os \<Rightarrow> string \<Rightarrow> location \<Rightarrow> bool" where
  "fs_owned E root l \<longleftrightarrow> below (locate E root) l"

lemma clean_comps_pair:
  assumes "segment i" and "segment n"
  shows "clean_comps (CHR ''/'' # i @ CHR ''/'' # n) = [i, n]"
proof -
  have "clean_comps ''/'' = []" by (simp add: clean_comps_def)
  then have "clean_comps (CHR ''/'' # i) = [i]"
    using clean_comps_segment [of "''/''" i]  assms(1) by (simp add: clean_comps_def segment_def split_on_single)
  then show ?thesis using clean_comps_segment [of "CHR ''/'' # i" n] assms(2) by simp
qed

text \<open>The path of an object: its directory and its name are those of the key.\<close>

lemma path_dir_base:
  assumes "CHR ''/'' \<notin> set n" and "n \<noteq> []"
  shows "path_dir (d @ ''/'' @ n) = path_clean (d @ ''/'')" and "path_base (d @ ''/'' @ n) = n"
proof -
  have n: "\<forall>c \<in> set (rev n). c \<noteq> CHR ''/''" using assms(1) by auto
  then have "dropWhile (\<lambda>c. c \<noteq> CHR ''/'') (rev n @ CHR ''/'' # rev d) = CHR ''/'' # rev d"
    by (subst dropWhile_append2) auto
  then show "path_dir (d @ ''/'' @ n) = path_clean (d @ ''/'')"
    by (simp add: path_dir_def)
  have "last n \<noteq> CHR ''/''" using assms by (metis last_in_set)
  then have "dropWhile (\<lambda>c. c = CHR ''/'') (rev (d @ ''/'' @ n)) = rev (d @ ''/'' @ n)"
    using assms(2) by (intro dropWhile_hd_eq) (simp add: hd_append hd_rev)
  then have "path_base (d @ ''/'' @ n) = rev (takeWhile (\<lambda>c. c \<noteq> CHR ''/'') (rev n @ CHR ''/'' # rev d))"
    by (simp add: path_base_def Let_def)
  moreover have "takeWhile (\<lambda>c. c \<noteq> CHR ''/'') (rev n @ CHR ''/'' # rev d) = rev n"
    using n by (subst takeWhile_append2) auto
  ultimately show "path_base (d @ ''/'' @ n) = n" by simp
qed

lemma clean_comps_slash: "d \<noteq> [] \<Longrightarrow> clean_comps (d @ ''/'') = clean_comps d"
  by (cases d) (simp_all add: clean_comps_def split_on_append [of _ "c # d" "[]" for c d, simplified])

lemma is_abs_append: "is_abs s \<Longrightarrow> is_abs (s @ t)"
  by (cases s) auto

lemma keyPath_key:
  assumes "is_abs root" and "segment i" and "segment n"
  obtains p where "keyPath root (i @ ''/'' @ n) = Some p" and "locate E p = locate E root @ [i, n]"
    and "locate E (path_dir p) = locate E root @ [i]" and "path_dir p \<noteq> []" and "path_base p = n"
proof -
  let ?d = "path_clean (root @ ''/'' @ i)"
  have root: "root \<noteq> []" "is_abs (root @ s)" for s using assms(1) by (cases root; simp)+
  have ci: "clean_comps (root @ ''/'' @ i) = clean_comps root @ [i]" by (rule clean_comps_segment [OF root(1) assms(2)])
  have cn: "clean_comps (root @ ''/'' @ i @ ''/'' @ n) = clean_comps root @ [i, n]"
    using clean_comps_segment [of "root @ ''/'' @ i" n] assms(3) ci root(1) by simp
  have ne: "join ''/'' (clean_comps root @ [i]) \<noteq> []" using assms(2) by (auto simp: join_append segment_def)
  have full: "path_join [root, i @ ''/'' @ n] = ?d @ ''/'' @ n"
    using cn ci root assms(1) by (simp add: path_clean_def Let_def join_append)
  have "path_clean (CHR ''/'' # i @ CHR ''/'' # n) = CHR ''/'' # i @ ''/'' @ n"
    by (simp add: path_clean_def Let_def clean_comps_pair [OF assms(2,3)])
  then have kp: "keyPath root (i @ ''/'' @ n) = (if within_lexical root (?d @ ''/'' @ n) then Some (?d @ ''/'' @ n) else None)"
    unfolding keyPath_def within_lexical_def Let_def by (simp add: full [simplified] split: option.split)
  have cd: "clean_comps ?d = clean_comps root @ [i]" "is_abs ?d" using ci root by simp_all
  have app: "is_abs (?d @ s)" for s using cd(2) by (rule is_abs_append)
  have cp: "clean_comps (?d @ ''/'' @ n) = clean_comps root @ [i, n]"
    using clean_comps_segment [of ?d n] assms(3) cd(1) by simp
  have "within_lexical root (?d @ ''/'' @ n)" unfolding within_lexical_iff [OF assms(1)] using cp app by blast
  then have "keyPath root (i @ ''/'' @ n) = Some (?d @ ''/'' @ n)" using kp by simp
  moreover have "path_dir (?d @ ''/'' @ n) = path_clean (?d @ ''/'')" "path_base (?d @ ''/'' @ n) = n"
    using path_dir_base [of n ?d] assms(3) by (simp_all add: segment_def)
  moreover have "clean_comps (?d @ ''/'') = clean_comps root @ [i]"
    using cd(1) clean_comps_slash [of ?d] by simp
  moreover have "locate E (?d @ s) = clean_comps (?d @ s)" "locate E (path_clean (?d @ s)) = clean_comps (?d @ s)" for s
    using app [of s] by (simp_all add: locate_def)
  ultimately show ?thesis using that [of "?d @ ''/'' @ n"] cp assms(1) by (simp add: locate_def)
qed

text \<open>The temporary file of an object is in its directory and is no object itself.\<close>

lemma temp_no_object:
  assumes "segment n" and "d \<noteq> []"
  shows "locate E (temp_path d (''.tmp-'' @ n @ ''-'') k) = locate E d @ [''.tmp-'' @ n @ ''-'' @ nat_digits k]"
    and "\<not> (m = ''manifest.json'' \<or> has_suffix m ''.zst'') \<or> m \<noteq> ''.tmp-'' @ n @ ''-'' @ nat_digits k"
proof -
  have "segment (''.tmp-'' @ n @ ''-'' @ nat_digits k)"
    using assms(1) digits_no_slash [of k] by (intro segment_long) (simp_all add: segment_def)
  then show "locate E (temp_path d (''.tmp-'' @ n @ ''-'') k) = locate E d @ [''.tmp-'' @ n @ ''-'' @ nat_digits k]"
    unfolding temp_path_def using locate_segment [OF assms(2)] by simp
  have "last (nat_digits k) \<noteq> CHR ''t''"
    using nat_digits_chars [of "last (nat_digits k)" k] by (auto dest: arg_cong [where f = "of_char :: char \<Rightarrow> nat"])
  then have "\<not> has_suffix (''.tmp-'' @ n @ ''-'' @ nat_digits k) ''.zst''"
    by (auto simp: has_suffix_iff) (metis last_appendR last.simps append_is_Nil_conv list.distinct(1) nat_digits_not_Nil last_ConsR)
  then show "\<not> (m = ''manifest.json'' \<or> has_suffix m ''.zst'') \<or> m \<noteq> ''.tmp-'' @ n @ ''-'' @ nat_digits k" by auto
qed

text \<open>What a \<open>Put\<close> may change: the object and one temporary file next to it.\<close>

definition touched :: "'h os \<Rightarrow> string \<Rightarrow> string \<Rightarrow> string \<Rightarrow> 'h disk \<Rightarrow> 'h disk \<Rightarrow> bool" where
  "touched E root i n w w' \<longleftrightarrow> (\<exists>k. \<forall>l. l \<noteq> locate E root @ [i, n] \<and> l \<noteq> locate E root @ [i, ''.tmp-'' @ n @ ''-'' @ nat_digits k]
      \<longrightarrow> fmlookup (dk_files w') l = fmlookup (dk_files w) l)"

text \<open>The part of the files that a \<open>Put\<close> may change is its object, at \<open>L\<close>, and the temporary file, at \<open>T\<close>.\<close>

lemma wp_fs_commit:
  assumes "locate E tmp = T" and "locate E path = L" and "T \<noteq> L"
    and yes: "\<And>w'. snd r \<Longrightarrow> fmlookup (dk_files w') L = Some (fst r) \<Longrightarrow>
        (\<And>l. l \<noteq> L \<Longrightarrow> l \<noteq> T \<Longrightarrow> fmlookup (dk_files w') l = fmlookup (dk_files w) l) \<Longrightarrow> Q True w'"
    and no: "\<And>w'. fmlookup (dk_files w') L = fmlookup (dk_files w) L \<or> fmlookup (dk_files w') L = None
          \<or> snd r \<and> fmlookup (dk_files w') L = Some (fst r) \<Longrightarrow>
        (\<And>l. l \<noteq> L \<Longrightarrow> l \<noteq> T \<Longrightarrow> fmlookup (dk_files w') l = fmlookup (dk_files w) l) \<Longrightarrow> Q False w'"
  shows "wp (fs_commit E path tmp r) Q w"
  unfolding fs_commit_def abandon_def fsyncDir_def
  by (intro wp_intros file_intros; (simp; fail)?; (rule yes | rule no); simp add: assms(1-3))

lemma wp_fs_Put:
  assumes "is_abs root" and "segment i" and "segment n"
    and yes: "\<And>w'. touched E root i n w w' \<Longrightarrow> snd r \<Longrightarrow> fmlookup (dk_files w') (locate E root @ [i, n]) = Some (fst r) \<Longrightarrow> Q True w'"
    and no: "\<And>w'. touched E root i n w w' \<Longrightarrow>
        fmlookup (dk_files w') (locate E root @ [i, n]) = fmlookup (dk_files w) (locate E root @ [i, n])
        \<or> fmlookup (dk_files w') (locate E root @ [i, n]) = None
        \<or> snd r \<and> fmlookup (dk_files w') (locate E root @ [i, n]) = Some (fst r) \<Longrightarrow> Q False w'"
  shows "wp (fs_Put E root (i @ ''/'' @ n) r) Q w"
proof -
  obtain p where p: "keyPath root (i @ ''/'' @ n) = Some p" "locate E p = locate E root @ [i, n]"
    "locate E (path_dir p) = locate E root @ [i]" "path_dir p \<noteq> []" "path_base p = n"
    using keyPath_key [OF assms(1-3)] .
  let ?T = "\<lambda>k. locate E root @ [i, ''.tmp-'' @ n @ ''-'' @ nat_digits k]"
  have T: "locate E (temp_path (path_dir p) (''.tmp-'' @ path_base p @ ''-'') k) = ?T k" for k
    unfolding p(5) temp_no_object(1) [OF assms(3) p(4)] p(3) by simp
  have neq: "?T k \<noteq> locate E root @ [i, n]" for k
    by (auto dest: arg_cong [where f = length])
  have commit: "wp (fs_commit E p (temp_path (path_dir p) (''.tmp-'' @ path_base p @ ''-'') k) r) Q w'"
    if "dk_files w' = fmupd (?T k) [] (dk_files w)" for w' k
    by (rule wp_fs_commit [OF T p(2) neq])
       (use neq [of k] in \<open>auto simp: that touched_def intro!: yes no exI [of _ k]\<close>)
  have none: "Q False w'" if "dk_files w' = dk_files w" for w'
    by (rule no) (simp_all add: that touched_def)
  show ?thesis
    unfolding fs_Put_def p(1) option.case
    by (intro wp_bindI wp_ifI wp_returnI wp_attemptI wp_f_create_tempI) (simp_all add: none commit [simplified] T [simplified] del: wp_bind)
qed

lemma object_keyE:
  assumes "object_key k"
  obtains i n where "k = i @ ''/'' @ n" and "segment i" and "segment n" and "n = ''manifest.json'' \<or> has_suffix n ''.zst''"
    and "split_on CHR ''/'' k = [i, n]"
proof -
  obtain i n where k: "k = i @ ''/'' @ n" "segment i" "segment n" "n = ''manifest.json'' \<or> has_suffix n ''.zst''"
    using assms by (auto simp: object_key_def)
  then have "split_on CHR ''/'' k = [i, n]" by (simp add: split_on_append_sep split_on_single segment_def)
  with k show ?thesis by (rule that)
qed

lemma touched_same:
  assumes "touched E root i n w w'" and "segment i" and "segment n"
  shows "same_objects (fs_objs E root) {i @ ''/'' @ n} w w'" and "same_files (\<lambda>l. \<not> fs_owned E root l) w w'"
proof -
  obtain t where t: "fmlookup (dk_files w') l = fmlookup (dk_files w) l"
    if "l \<noteq> locate E root @ [i, n]" "l \<noteq> locate E root @ [i, ''.tmp-'' @ n @ ''-'' @ nat_digits t]" for l
    using assms(1) unfolding touched_def by blast
  show "same_objects (fs_objs E root) {i @ ''/'' @ n} w w'"
    unfolding same_objects_def fs_objs_def
  proof (intro allI impI t)
    fix k' assume k': "object_key k' \<and> k' \<notin> {i @ ''/'' @ n}"
    then obtain j m where j: "k' = j @ ''/'' @ m" "m = ''manifest.json'' \<or> has_suffix m ''.zst''" "split_on CHR ''/'' k' = [j, m]"
      by (blast elim: object_keyE)
    show "locate E root @ split_on CHR ''/'' k' \<noteq> locate E root @ [i, n]" using k' j by auto
    have "m \<noteq> ''.tmp-'' @ n @ ''-'' @ nat_digits t" using temp_no_object(2) [OF assms(3), of "''x''"] j(2) by blast
    then show "locate E root @ split_on CHR ''/'' k' \<noteq> locate E root @ [i, ''.tmp-'' @ n @ ''-'' @ nat_digits t]"
      using j(3) by simp
  qed
  show "same_files (\<lambda>l. \<not> fs_owned E root l) w w'"
    unfolding same_files_def fs_owned_def by (auto intro!: t)
qed

text \<open>The root of a backend is absolute: \<open>NewFSBlob\<close> makes it so.\<close>

lemma NewFSBlob_absolute: "is_abs (of_cwd E) \<Longrightarrow> wp (NewFSBlob E dir) (\<lambda>r _. \<forall>root. r = Some root \<longrightarrow> is_abs root) w"
  unfolding NewFSBlob_def by (intro wp_intros file_intros) (auto intro: is_abs_append)

lemma blob_FSBlob:
  assumes "is_abs root"
  shows "blob (FSBlob E root) (fs_objs E root) (fs_owned E root)"
proof
  fix k :: string and w w' :: "'a disk"
  assume k: "object_key k"
  then obtain i n where i: "k = i @ ''/'' @ n" "segment i" "segment n" "split_on CHR ''/'' k = [i, n]" by (rule object_keyE)
  then have loc: "fs_objs E root v k = fmlookup (dk_files v) (locate E root @ [i, n])" for v by (simp add: fs_objs_def)
  obtain p where p: "keyPath root (i @ ''/'' @ n) = Some p" "locate E p = locate E root @ [i, n]"
    using keyPath_key [OF assms i(2,3)] .
  note same = touched_same [OF _ i(2,3), folded i(1)]
  show "fs_objs E root w' k = fs_objs E root w k" if "same_files (fs_owned E root) w w'"
    using that loc by (simp add: same_files_def fs_owned_def)
  show "wp (bl_Put (FSBlob E root) k r) Q w"
    if yes: "\<And>w'. same_objects (fs_objs E root) {k} w w' \<Longrightarrow> same_files (\<lambda>l. \<not> fs_owned E root l) w w' \<Longrightarrow> snd r \<Longrightarrow>
          fs_objs E root w' k = Some (fst r) \<Longrightarrow> Q True w'"
      and no: "\<And>w'. same_objects (fs_objs E root) {k} w w' \<Longrightarrow> same_files (\<lambda>l. \<not> fs_owned E root l) w w' \<Longrightarrow>
         fs_objs E root w' k = fs_objs E root w k \<or> fs_objs E root w' k = None \<or> snd r \<and> fs_objs E root w' k = Some (fst r) \<Longrightarrow> Q False w'"
    for r Q
    unfolding FSBlob_def Blob.select_convs i(1)
    by (rule wp_fs_Put [OF assms i(2,3)])
       (use same in \<open>auto simp: loc intro!: yes no\<close>)
  show "wp (bl_Get (FSBlob E root) k) R w"
    if no: "\<And>w' missing. dk_files w' = dk_files w \<Longrightarrow> missing \<longrightarrow> fs_objs E root w k = None \<Longrightarrow> R (Inl missing) w'"
      and yes: "\<And>w' x y ok. dk_files w' = dk_files w \<Longrightarrow> fs_objs E root w k = Some y \<Longrightarrow> ok \<longrightarrow> x = y \<Longrightarrow> R (Inr (x, ok)) w'" for R
    unfolding FSBlob_def Blob.select_convs fs_Get_def i(1) p(1) option.case
    by (intro wp_bindI wp_ifI wp_returnI wp_attemptI wp_f_openI; (rule no; simp add: loc p(2); fail)?) (metis yes loc p(2))
qed

interpretation fsb: blob "FSBlob E (CHR ''/'' # r)" "fs_objs E (CHR ''/'' # r)" "fs_owned E (CHR ''/'' # r)" for E r
  by (rule blob_FSBlob) simp

end
