(* ===== verification/Snapshot_Store.thy ===== *)
theory Snapshot_Store
  imports Blob_Store
begin

section \<open>The snapshot store (snapshotstore/manifest.go, store.go)\<close>

text \<open>
  Snapshots are stored as compressed objects together with a manifest that is written last and serves as the commit
  marker. The contracts: whatever fails, a snapshot that can be seen is complete; what was put is
  what is got; and a restore checks everything it reads, never leaves its directory and never
  overwrites a file.

  The codecs are parameters: zstd compression, which comes from a package outside the repository, SHA-256 and the JSON
  encoding of manifests. The uploads and downloads of one snapshot run in parallel in the code; they touch
  different objects and files, and are run one after the other here. When one fails the others see a cancelled
  context or not; here the host decides for each operation whether it fails.
\<close>

subsection \<open>Manifests (manifest.go)\<close>

datatype store_error = ErrManifestNotFound | ErrUnsupportedManifestVersion | ErrDigestMismatch | ErrSizeMismatch
  | ErrUnsafeName | ErrInvalidSnapshotID | ErrManifestIDMismatch | ErrDuplicateFileName | ErrFileSizeTooLarge
  | ErrEmptyManifest | ErrManifestTooLarge | ErrUnsupportedCompression | ErrNegativeFileSize | ErrObjectNotFound
  | StoreFailure

record RuntimeVersions =
  rv_Firecracker :: string
  rv_Kernel :: string
  rv_Nanofuse :: string
  rv_SnapshotAPI :: string

record FileEntry =
  fe_Name :: string
  fe_Role :: string
  fe_Key :: string
  fe_Size :: int
  fe_CompressedSize :: int
  fe_Digest :: string

record Manifest =
  mf_SchemaVersion :: int
  mf_SnapshotID :: string
  mf_CreatedAt :: int
  mf_Compression :: string
  mf_Runtime :: RuntimeVersions
  mf_Files :: "FileEntry list"

record SourceFile =
  sf_Name :: string
  sf_Role :: string
  sf_Path :: string

definition ManifestSchemaVersion :: int where "ManifestSchemaVersion = 1"
definition manifestObject :: string where "manifestObject = ''manifest.json''"
definition CompressionZstd :: string where "CompressionZstd = ''zstd''"
definition maxFileSize :: int where "maxFileSize = 2 ^ 40"
definition maxManifestBytes :: nat where "maxManifestBytes = 8 * 2 ^ 20"

definition unsafe_segment :: "string \<Rightarrow> bool" where
  "unsafe_segment s \<longleftrightarrow> s = [] \<or> s = ''.'' \<or> s = ''..'' \<or> contains_any s [CHR ''/'', CHR 0x5C] \<or> contains s ''..''"

definition validateName :: "string \<Rightarrow> store_error option" where
  "validateName name = (if unsafe_segment name \<or> name = manifestObject then Some ErrUnsafeName else None)"

definition validateSnapshotID :: "string \<Rightarrow> store_error option" where
  "validateSnapshotID i = (if unsafe_segment i then Some ErrInvalidSnapshotID else None)"

fun validate_files :: "string list \<Rightarrow> FileEntry list \<Rightarrow> store_error option" where
  "validate_files seen [] = None"
| "validate_files seen (fe # fes) =
     (case validateName (fe_Name fe) of Some e \<Rightarrow> Some e | None \<Rightarrow>
      if fe_Size fe < 0 then Some ErrNegativeFileSize
      else if fe_Size fe > maxFileSize then Some ErrFileSizeTooLarge
      else if fe_Name fe \<in> set seen then Some ErrDuplicateFileName
      else validate_files (fe_Name fe # seen) fes)"

definition validateManifestFiles :: "FileEntry list \<Rightarrow> store_error option" where
  "validateManifestFiles fes = (if fes = [] then Some ErrEmptyManifest else validate_files [] fes)"

subsection \<open>The store (store.go)\<close>

record codec =
  cd_SpeedBetterCompression :: int
  cd_compress :: "int \<Rightarrow> string \<Rightarrow> string"
  cd_decompress :: "string \<Rightarrow> reader"
  cd_sha256 :: "string \<Rightarrow> string"
  cd_marshal :: "Manifest \<Rightarrow> string option"
  cd_unmarshal :: "string \<Rightarrow> Manifest option"

record 'h TieredStore =
  ts_blob :: "'h Blob"
  ts_parallelism :: int
  ts_level :: int

definition NewTieredStore :: "codec \<Rightarrow> 'h Blob \<Rightarrow> int \<Rightarrow> int \<Rightarrow> 'h TieredStore" where
  "NewTieredStore C b parallelism level = \<lparr>ts_blob = b, ts_parallelism = (if parallelism \<le> 0 then 4 else parallelism),
     ts_level = (if level = 0 then cd_SpeedBetterCompression C else level)\<rparr>"

definition objectKey :: "string \<Rightarrow> string \<Rightarrow> string" where
  "objectKey i name = i @ ''/'' @ name"

fun put_names :: "string list \<Rightarrow> SourceFile list \<Rightarrow> store_error option" where
  "put_names seen [] = None"
| "put_names seen (f # fs) =
     (case validateName (sf_Name f) of Some e \<Rightarrow> Some e | None \<Rightarrow>
      if sf_Name f \<in> set seen then Some ErrDuplicateFileName else put_names (sf_Name f # seen) fs)"

definition file_entry :: "codec \<Rightarrow> int \<Rightarrow> string \<Rightarrow> SourceFile \<Rightarrow> string \<Rightarrow> FileEntry" where
  "file_entry C level i sf x = \<lparr>fe_Name = sf_Name sf, fe_Role = sf_Role sf, fe_Key = objectKey i (sf_Name sf @ ''.zst''),
     fe_Size = int (length x), fe_CompressedSize = int (length (cd_compress C level x)), fe_Digest = cd_sha256 C x\<rparr>"

definition putFile :: "'h os \<Rightarrow> codec \<Rightarrow> 'h TieredStore \<Rightarrow> string \<Rightarrow> SourceFile \<Rightarrow> ('h disk, store_error + FileEntry) comp" where
  "putFile E C s i sf = do {
     src \<leftarrow> f_open E (sf_Path sf);
     case src of Inl _ \<Rightarrow> State_Monad.return (Inl StoreFailure) | Inr r \<Rightarrow> do {
     enc \<leftarrow> attempt E;
     if \<not> enc then State_Monad.return (Inl StoreFailure) else do {
     ok \<leftarrow> bl_Put (ts_blob s) (objectKey i (sf_Name sf @ ''.zst'')) (cd_compress C (ts_level s) (fst r), snd r);
     State_Monad.return (if \<not> ok \<or> \<not> snd r then Inl StoreFailure
       else Inr (file_entry C (ts_level s) i sf (fst r))) }}}"

fun put_files :: "'h os \<Rightarrow> codec \<Rightarrow> 'h TieredStore \<Rightarrow> string \<Rightarrow> SourceFile list \<Rightarrow> ('h disk, store_error + FileEntry list) comp" where
  "put_files E C s i [] = State_Monad.return (Inr [])"
| "put_files E C s i (f # fs) = do {
     r \<leftarrow> putFile E C s i f;
     rs \<leftarrow> put_files E C s i fs;
     State_Monad.return (case r of Inl e \<Rightarrow> Inl e | Inr fe \<Rightarrow> (case rs of Inl e \<Rightarrow> Inl e | Inr fes \<Rightarrow> Inr (fe # fes))) }"

definition store_Put ::
  "'h os \<Rightarrow> codec \<Rightarrow> 'h TieredStore \<Rightarrow> string \<Rightarrow> SourceFile list \<Rightarrow> RuntimeVersions \<Rightarrow> ('h disk, store_error + Manifest) comp" where
  "store_Put E C s i files rt =
     (case validateSnapshotID i of Some e \<Rightarrow> State_Monad.return (Inl e) | None \<Rightarrow>
      if files = [] then State_Monad.return (Inl StoreFailure) else
      case put_names [] files of Some e \<Rightarrow> State_Monad.return (Inl e) | None \<Rightarrow> do {
      r \<leftarrow> put_files E C s i files;
      case r of Inl e \<Rightarrow> State_Monad.return (Inl e) | Inr entries \<Rightarrow> do {
      now \<leftarrow> draw (of_now E);
      let m = \<lparr>mf_SchemaVersion = ManifestSchemaVersion, mf_SnapshotID = i, mf_CreatedAt = now,
               mf_Compression = CompressionZstd, mf_Runtime = rt, mf_Files = entries\<rparr>;
      case cd_marshal C m of None \<Rightarrow> State_Monad.return (Inl StoreFailure) | Some data \<Rightarrow>
      if length data > maxManifestBytes then State_Monad.return (Inl ErrManifestTooLarge) else do {
      ok \<leftarrow> bl_Put (ts_blob s) (objectKey i manifestObject) (data, True);
      State_Monad.return (if ok then Inr m else Inl StoreFailure) }}})"

text \<open>The checks on a manifest that was read, and the keys made canonical.\<close>

definition check_manifest :: "codec \<Rightarrow> string \<Rightarrow> string \<Rightarrow> store_error + Manifest" where
  "check_manifest C i data =
     (case cd_unmarshal C data of None \<Rightarrow> Inl StoreFailure | Some m \<Rightarrow>
      if mf_SchemaVersion m < 1 \<or> mf_SchemaVersion m > ManifestSchemaVersion then Inl ErrUnsupportedManifestVersion
      else if mf_Compression m \<noteq> CompressionZstd then Inl ErrUnsupportedCompression
      else if mf_SnapshotID m \<noteq> i then Inl ErrManifestIDMismatch
      else case validateManifestFiles (mf_Files m) of Some e \<Rightarrow> Inl e | None \<Rightarrow>
      Inr (m\<lparr>mf_Files := map (\<lambda>fe. fe\<lparr>fe_Key := objectKey i (fe_Name fe @ ''.zst'')\<rparr>) (mf_Files m)\<rparr>))"

text \<open>Reading at most \<open>n\<close> bytes: a reader that delivers more ends properly there.\<close>

definition limit_reader :: "nat \<Rightarrow> reader \<Rightarrow> reader" where
  "limit_reader n r = (take n (fst r), n \<le> length (fst r) \<or> snd r)"

definition store_Manifest :: "codec \<Rightarrow> 'h TieredStore \<Rightarrow> string \<Rightarrow> ('h disk, store_error + Manifest) comp" where
  "store_Manifest C s i =
     (case validateSnapshotID i of Some e \<Rightarrow> State_Monad.return (Inl e) | None \<Rightarrow> do {
      g \<leftarrow> bl_Get (ts_blob s) (objectKey i manifestObject);
      State_Monad.return (case g of
        Inl missing \<Rightarrow> Inl (if missing then ErrManifestNotFound else StoreFailure)
      | Inr r \<Rightarrow>
          let (data, ok) = limit_reader (maxManifestBytes + 1) r
          in if \<not> ok then Inl StoreFailure
             else if length data > maxManifestBytes then Inl ErrManifestTooLarge
             else check_manifest C i data) })"

definition store_List :: "'h TieredStore \<Rightarrow> ('h disk, string list option) comp" where
  "store_List s = do {
     keys \<leftarrow> bl_List (ts_blob s) [];
     State_Monad.return (map_option (\<lambda>ks.
       sort (filter (\<lambda>i. validateSnapshotID i = None)
         (map (\<lambda>k. take (length k - length (CHR ''/'' # manifestObject)) k)
           (filter (\<lambda>k. has_suffix k (CHR ''/'' # manifestObject)) ks)))) keys) }"

text \<open>Writing the decompressed data to the temporary file, checking it, and moving it in place.\<close>

definition write_checked :: "'h os \<Rightarrow> codec \<Rightarrow> string \<Rightarrow> FileEntry \<Rightarrow> string \<Rightarrow> reader \<Rightarrow> ('h disk, store_error option) comp" where
  "write_checked E C dir fe tmp limited =
     (let failed = (\<lambda>e. do { _ \<leftarrow> abandon E tmp; State_Monad.return (Some e) }) in do {
      copied \<leftarrow> f_copy E tmp limited;
      if \<not> copied then failed StoreFailure
      else if int (length (fst limited)) \<noteq> fe_Size fe then failed ErrSizeMismatch
      else if cd_sha256 C (fst limited) \<noteq> fe_Digest fe then failed ErrDigestMismatch
      else do {
      synced \<leftarrow> attempt E;
      if \<not> synced then failed StoreFailure else do {
      closed \<leftarrow> attempt E;
      if \<not> closed then failed StoreFailure else do {
      renamed \<leftarrow> f_rename E tmp (path_join [dir, fe_Name fe]);
      if \<not> renamed then failed StoreFailure else State_Monad.return None }}}})"

definition getFile :: "'h os \<Rightarrow> codec \<Rightarrow> 'h TieredStore \<Rightarrow> string \<Rightarrow> string \<Rightarrow> FileEntry \<Rightarrow> ('h disk, store_error option) comp" where
  "getFile E C s i dir fe =
     (case validateName (fe_Name fe) of Some e \<Rightarrow> State_Monad.return (Some e) | None \<Rightarrow> do {
      g \<leftarrow> bl_Get (ts_blob s) (objectKey i (fe_Name fe @ ''.zst''));
      case g of Inl missing \<Rightarrow> State_Monad.return (Some (if missing then ErrObjectNotFound else StoreFailure)) | Inr r \<Rightarrow> do {
      dec \<leftarrow> attempt E;
      if \<not> dec then State_Monad.return (Some StoreFailure) else do {
      t \<leftarrow> f_create_temp E dir (''.tmp-'' @ fe_Name fe @ ''-'');
      case t of None \<Rightarrow> State_Monad.return (Some StoreFailure) | Some tmp \<Rightarrow>
        let plain = cd_decompress C (fst r)
        in write_checked E C dir fe tmp (limit_reader (nat (fe_Size fe + 1)) (fst plain, snd plain \<and> snd r)) }}})"

fun get_files :: "'h os \<Rightarrow> codec \<Rightarrow> 'h TieredStore \<Rightarrow> string \<Rightarrow> string \<Rightarrow> FileEntry list \<Rightarrow> ('h disk, store_error option) comp" where
  "get_files E C s i dir [] = State_Monad.return None"
| "get_files E C s i dir (fe # fes) = do {
     e \<leftarrow> getFile E C s i dir fe;
     es \<leftarrow> get_files E C s i dir fes;
     State_Monad.return (if e = None then es else e) }"

fun roll_back :: "'h os \<Rightarrow> string \<Rightarrow> string list \<Rightarrow> ('h disk, unit) comp" where
  "roll_back E dir [] = State_Monad.return ()"
| "roll_back E dir (n # ns) = do { _ \<leftarrow> f_remove E (path_join [dir, n]); roll_back E dir ns }"

fun promote :: "'h os \<Rightarrow> string \<Rightarrow> string \<Rightarrow> string list \<Rightarrow> string list \<Rightarrow> ('h disk, bool) comp" where
  "promote E staging dest promoted [] = State_Monad.return True"
| "promote E staging dest promoted (n # ns) = do {
     st \<leftarrow> f_lstat E (path_join [dest, n]);
     if st \<noteq> Some False then do { _ \<leftarrow> roll_back E dest promoted; State_Monad.return False } else do {
     ok \<leftarrow> f_rename E (path_join [staging, n]) (path_join [dest, n]);
     if \<not> ok then do { _ \<leftarrow> roll_back E dest promoted; State_Monad.return False }
     else promote E staging dest (promoted @ [n]) ns }}"

definition promoteRestored :: "'h os \<Rightarrow> string \<Rightarrow> string \<Rightarrow> FileEntry list \<Rightarrow> ('h disk, bool) comp" where
  "promoteRestored E staging dest fes = promote E staging dest [] (map fe_Name fes)"

definition store_Get :: "'h os \<Rightarrow> codec \<Rightarrow> 'h TieredStore \<Rightarrow> string \<Rightarrow> string \<Rightarrow> ('h disk, store_error + Manifest) comp" where
  "store_Get E C s i dest =
     (case validateSnapshotID i of Some e \<Rightarrow> State_Monad.return (Inl e) | None \<Rightarrow>
      if dest = [] then State_Monad.return (Inl StoreFailure) else do {
      r \<leftarrow> store_Manifest C s i;
      case r of Inl e \<Rightarrow> State_Monad.return (Inl e) | Inr m \<Rightarrow> do {
      made \<leftarrow> attempt E;
      if \<not> made then State_Monad.return (Inl StoreFailure) else do {
      t \<leftarrow> f_mkdir_temp E dest ''.restore-'';
      case t of None \<Rightarrow> State_Monad.return (Inl StoreFailure) | Some staging \<Rightarrow> do {
      e \<leftarrow> get_files E C s i staging (mf_Files m);
      res \<leftarrow> (case e of Some x \<Rightarrow> State_Monad.return (Inl x) | None \<Rightarrow> do {
        ok \<leftarrow> promoteRestored E staging dest (mf_Files m);
        State_Monad.return (if ok then Inr m else Inl StoreFailure) });
      _ \<leftarrow> f_remove_all E staging;
      State_Monad.return res }}}})"

subsection \<open>Names and keys\<close>

definition ascii :: "string \<Rightarrow> bool" where
  "ascii s \<longleftrightarrow> list_all (\<lambda>c. of_char c < (128 :: nat)) s"

definition ascii_manifest :: "Manifest \<Rightarrow> bool" where
  "ascii_manifest m \<longleftrightarrow> ascii (mf_SnapshotID m) \<and> ascii (mf_Compression m)
     \<and> ascii (rv_Firecracker (mf_Runtime m)) \<and> ascii (rv_Kernel (mf_Runtime m))
     \<and> ascii (rv_Nanofuse (mf_Runtime m)) \<and> ascii (rv_SnapshotAPI (mf_Runtime m))
     \<and> list_all (\<lambda>fe. ascii (fe_Name fe) \<and> ascii (fe_Role fe) \<and> ascii (fe_Key fe) \<and> ascii (fe_Digest fe)) (mf_Files m)"

text \<open>What is assumed of the codecs: decompression inverts compression, and decoding inverts encoding for manifests
  whose strings are ASCII (JSON replaces bytes that are not UTF-8). Nothing is assumed of other
  input, nor that digests are unique.\<close>

definition codec_ok :: "codec \<Rightarrow> bool" where
  "codec_ok C \<longleftrightarrow> (\<forall>l x. cd_decompress C (cd_compress C l x) = (x, True))
     \<and> (\<forall>m d. ascii_manifest m \<longrightarrow> cd_marshal C m = Some d \<longrightarrow> cd_unmarshal C d = Some m)
     \<and> (\<forall>x. ascii (cd_sha256 C x))"

lemma safe_segment: "\<not> unsafe_segment s \<Longrightarrow> segment s"
  by (auto simp: unsafe_segment_def segment_def dotdot_def contains_any_iff)

lemma valid_id: "validateSnapshotID i = None \<longleftrightarrow> \<not> unsafe_segment i"
  by (simp add: validateSnapshotID_def)

lemma valid_name: "validateName n = None \<longleftrightarrow> \<not> unsafe_segment n \<and> n \<noteq> manifestObject"
  by (simp add: validateName_def)

lemma manifest_segment: "segment manifestObject"
  by (simp add: segment_def manifestObject_def dotdot_def)

lemma zst_segment: "segment n \<Longrightarrow> segment (n @ ''.zst'')"
  by (rule segment_long) (auto simp: segment_def)

lemma object_keys:
  assumes "segment i"
  shows "object_key (objectKey i manifestObject)" and "segment n \<Longrightarrow> object_key (objectKey i (n @ ''.zst''))"
  using assms manifest_segment zst_segment [of n] unfolding object_key_def objectKey_def
  by (auto simp: manifestObject_def has_suffix_iff)

lemma objectKey_inj:
  assumes "segment i" and "segment j"
  shows "objectKey i m = objectKey j n \<longleftrightarrow> i = j \<and> m = n"
proof
  assume eq: "objectKey i m = objectKey j n"
  have "split_on CHR ''/'' (objectKey a b) = a # split_on CHR ''/'' b" if "segment a" for a b
    using that by (simp add: objectKey_def split_on_append_sep segment_def)
  then have "i = j" using eq assms by (metis list.sel(1))
  then show "i = j \<and> m = n" using eq by (simp add: objectKey_def)
qed simp

lemma zst_not_manifest: "n @ ''.zst'' \<noteq> manifestObject"
  by (simp add: manifestObject_def)

lemma put_names_None:
  "put_names seen fs = None \<longleftrightarrow> list_all (\<lambda>f. validateName (sf_Name f) = None) fs
     \<and> distinct (map sf_Name fs) \<and> set (map sf_Name fs) \<inter> set seen = {}"
  by (induction fs arbitrary: seen) (auto split: option.split)

lemma validate_files_None:
  "validate_files seen fes = None \<longleftrightarrow>
     list_all (\<lambda>fe. validateName (fe_Name fe) = None \<and> 0 \<le> fe_Size fe \<and> fe_Size fe \<le> maxFileSize) fes
     \<and> distinct (map fe_Name fes) \<and> set (map fe_Name fes) \<inter> set seen = {}"
  by (induction fes arbitrary: seen) (auto split: option.split)

text \<open>A manifest that passes the checks: safe and distinct names, sizes in range, canonical keys.\<close>

definition manifest_ok :: "string \<Rightarrow> Manifest \<Rightarrow> bool" where
  "manifest_ok i m \<longleftrightarrow> mf_SnapshotID m = i \<and> mf_SchemaVersion m = ManifestSchemaVersion \<and> mf_Compression m = CompressionZstd
     \<and> mf_Files m \<noteq> [] \<and> distinct (map fe_Name (mf_Files m))
     \<and> list_all (\<lambda>fe. validateName (fe_Name fe) = None \<and> 0 \<le> fe_Size fe \<and> fe_Size fe \<le> maxFileSize
          \<and> fe_Key fe = objectKey i (fe_Name fe @ ''.zst'')) (mf_Files m)"

lemma check_manifest_ok: "check_manifest C i d = Inr m \<Longrightarrow> manifest_ok i m"
  by (auto simp: check_manifest_def manifest_ok_def validateManifestFiles_def validate_files_None list_all_iff ManifestSchemaVersion_def
      comp_def split: if_splits option.splits)

lemma manifest_ok_segment: "manifest_ok i m \<Longrightarrow> fe \<in> set (mf_Files m) \<Longrightarrow> segment (fe_Name fe)"
  by (simp add: manifest_ok_def list_all_iff valid_name safe_segment)

subsection \<open>Storing\<close>

definition file_keys :: "string \<Rightarrow> string list \<Rightarrow> string set" where
  "file_keys i ns = (\<lambda>n. objectKey i (n @ ''.zst'')) ` set ns"

lemma file_keys_simps [simp]:
  "file_keys i [] = {}" "file_keys i (n # ns) = insert (objectKey i (n @ ''.zst'')) (file_keys i ns)"
  by (simp_all add: file_keys_def)

lemma file_keys_iff:
  assumes "segment i" and "segment j"
  shows "objectKey j (n @ ''.zst'') \<in> file_keys i ns \<longleftrightarrow> i = j \<and> n \<in> set ns" and "objectKey j manifestObject \<notin> file_keys i ns"
  using objectKey_inj [OF assms(2,1)] zst_not_manifest by (auto simp: file_keys_def) metis

text \<open>A file of the snapshot is there: the object decompresses to data of the recorded size and digest.\<close>

definition present_file :: "codec \<Rightarrow> (string \<Rightarrow> string option) \<Rightarrow> string \<Rightarrow> FileEntry \<Rightarrow> bool" where
  "present_file C objs i fe \<longleftrightarrow> (\<exists>z x. objs (objectKey i (fe_Name fe @ ''.zst'')) = Some z \<and> cd_decompress C z = (x, True)
     \<and> int (length x) = fe_Size fe \<and> cd_sha256 C x = fe_Digest fe)"

text \<open>A snapshot that can be seen is complete.\<close>

definition complete :: "codec \<Rightarrow> (string \<Rightarrow> string option) \<Rightarrow> string \<Rightarrow> bool" where
  "complete C objs i \<longleftrightarrow> (\<forall>d m. objs (objectKey i manifestObject) = Some d \<longrightarrow> check_manifest C i d = Inr m \<longrightarrow>
     list_all (present_file C objs i) (mf_Files m))"

definition new_manifest :: "codec \<Rightarrow> int \<Rightarrow> string \<Rightarrow> SourceFile list \<Rightarrow> RuntimeVersions \<Rightarrow> (SourceFile \<Rightarrow> string) \<Rightarrow> int \<Rightarrow> Manifest" where
  "new_manifest C level i fs rt g now = \<lparr>mf_SchemaVersion = ManifestSchemaVersion, mf_SnapshotID = i, mf_CreatedAt = now,
     mf_Compression = CompressionZstd, mf_Runtime = rt, mf_Files = map (\<lambda>f. file_entry C level i f (g f)) fs\<rparr>"

text \<open>The snapshot of the files with contents \<open>g\<close> is stored under the manifest \<open>m\<close>.\<close>

definition stored :: "codec \<Rightarrow> int \<Rightarrow> (string \<Rightarrow> string option) \<Rightarrow> string \<Rightarrow> SourceFile list \<Rightarrow> RuntimeVersions \<Rightarrow>
    (SourceFile \<Rightarrow> string) \<Rightarrow> Manifest \<Rightarrow> bool" where
  "stored C level objs i fs rt g m \<longleftrightarrow>
     (\<exists>now. m = new_manifest C level i fs rt g now)
     \<and> (\<exists>d. cd_marshal C m = Some d \<and> length d \<le> maxManifestBytes \<and> objs (objectKey i manifestObject) = Some d)
     \<and> list_all (\<lambda>f. objs (objectKey i (sf_Name f @ ''.zst'')) = Some (cd_compress C level (g f))) fs"

context blob
begin

lemma same_objects_refl: "same_objects objs K w w"
  by (simp add: same_objects_def)

lemma same_objects_trans: "same_objects objs K w w' \<Longrightarrow> same_objects objs L w' w'' \<Longrightarrow> same_objects objs (K \<union> L) w w''"
  by (simp add: same_objects_def)

lemma same_files_trans: "same_files P w w' \<Longrightarrow> same_files P w' w'' \<Longrightarrow> same_files P w w''"
  by (simp add: same_files_def)

lemma same_files_eq: "dk_files w' = dk_files w \<Longrightarrow> same_files P w w'"
  by (simp add: same_files_def)

lemma objs_eq: "object_key k \<Longrightarrow> dk_files w' = dk_files w \<Longrightarrow> objs w' k = objs w k"
  by (rule objs_owned) (simp_all add: same_files_def)

lemma same_objects_eq: "dk_files w' = dk_files w \<Longrightarrow> same_objects objs K w w'"
  by (auto simp: same_objects_def intro: objs_eq)

lemma wp_putFile:
  assumes i: "segment i" and n: "segment (sf_Name sf)"
    and no: "\<And>e w'. same_objects objs (file_keys i [sf_Name sf]) w w' \<Longrightarrow> same_files (\<lambda>l. \<not> owned l) w w' \<Longrightarrow> Q (Inl e) w'"
    and yes: "\<And>x w'. same_objects objs (file_keys i [sf_Name sf]) w w' \<Longrightarrow> same_files (\<lambda>l. \<not> owned l) w w' \<Longrightarrow>
       fmlookup (dk_files w) (locate E (sf_Path sf)) = Some x \<Longrightarrow>
       objs w' (objectKey i (sf_Name sf @ ''.zst'')) = Some (cd_compress C (ts_level s) x) \<Longrightarrow>
       Q (Inr (file_entry C (ts_level s) i sf x)) w'"
    and s: "ts_blob s = B"
  shows "wp (putFile E C s i sf) Q w"
proof -
  let ?k = "objectKey i (sf_Name sf @ ''.zst'')"
  have k: "object_key ?k" by (rule object_keys(2) [OF i n])
  have no': "Q (Inl e) w'" if "dk_files w' = dk_files w" for e w'
    using that by (intro no same_objects_eq same_files_eq)
  have step: "same_objects objs K w w'" "same_files P w w'" if "dk_files v = dk_files w" "same_objects objs K v w'" "same_files P v w'" for K P v w'
    using same_objects_trans [OF same_objects_eq [OF that(1), of K] that(2)] same_files_trans [OF same_files_eq [OF that(1)] that(3)] by simp_all
  have put: "wp (bl_Put B ?k (cd_compress C (ts_level s) x, ok)) (\<lambda>stored. Q (if \<not> stored \<or> \<not> ok then Inl StoreFailure
      else Inr (file_entry C (ts_level s) i sf x))) v"
    if v: "dk_files v = dk_files w" and y: "fmlookup (dk_files w) (locate E (sf_Path sf)) = Some y" "ok \<longrightarrow> x = y" for v x y ok
  proof (rule Put_law [OF k], goal_cases)
    case (1 w')
    then show ?case using y step [OF v 1(1,2)] by (simp add: yes)
  next
    case (2 w')
    then show ?case using step [OF v 2(1,2)] by (simp add: no)
  qed
  show ?thesis
    unfolding putFile_def s
    by (intro wp_bindI wp_f_openI; simp add: no' del: wp_bind)
       (intro wp_bindI wp_attemptI wp_ifI; (simp add: no'; fail | simp only: fst_conv snd_conv wp_return, rule put, simp, assumption, assumption))
qed

lemma wp_put_files:
  assumes "segment i" and "list_all (\<lambda>f. segment (sf_Name f)) fs" and "distinct (map sf_Name fs)" and s: "ts_blob s = B"
    and "\<And>e w'. same_objects objs (file_keys i (map sf_Name fs)) w w' \<Longrightarrow> same_files (\<lambda>l. \<not> owned l) w w' \<Longrightarrow> Q (Inl e) w'"
    and "\<And>g w'. same_objects objs (file_keys i (map sf_Name fs)) w w' \<Longrightarrow> same_files (\<lambda>l. \<not> owned l) w w' \<Longrightarrow>
       (\<And>f. f \<in> set fs \<Longrightarrow> objs w' (objectKey i (sf_Name f @ ''.zst'')) = Some (cd_compress C (ts_level s) (g f))) \<Longrightarrow>
       (\<And>f. f \<in> set fs \<Longrightarrow> \<not> owned (locate E (sf_Path f)) \<Longrightarrow> fmlookup (dk_files w) (locate E (sf_Path f)) = Some (g f)) \<Longrightarrow>
       Q (Inr (map (\<lambda>f. file_entry C (ts_level s) i f (g f)) fs)) w'"
  shows "wp (put_files E C s i fs) Q w"
  using assms(2,3,5,6)
proof (induction fs arbitrary: w Q)
  case Nil
  then show ?case by (simp add: same_objects_refl same_files_eq)
next
  case (Cons f fs)
  have f: "segment (sf_Name f)" and fs: "list_all (\<lambda>f. segment (sf_Name f)) fs" "distinct (map sf_Name fs)"
    and new: "sf_Name f \<notin> set (map sf_Name fs)"
    using Cons.prems(1,2) by auto
  let ?k = "\<lambda>f. objectKey i (sf_Name f @ ''.zst'')"
  have fresh: "?k f \<notin> file_keys i (map sf_Name fs)" using file_keys_iff(1) [OF assms(1,1)] new by blast
  let ?rest = "\<lambda>r. wp (put_files E C s i fs) (\<lambda>rs. Q (case r of Inl e \<Rightarrow> Inl e
      | Inr fe \<Rightarrow> (case rs of Inl e \<Rightarrow> Inl e | Inr fes \<Rightarrow> Inr (fe # fes))))"
  have tr: "same_objects objs (file_keys i (map sf_Name (f # fs))) w w''" "same_files (\<lambda>l. \<not> owned l) w w''"
    if "same_objects objs (file_keys i [sf_Name f]) w w'" "same_objects objs (file_keys i (map sf_Name fs)) w' w''"
      "same_files (\<lambda>l. \<not> owned l) w w'" "same_files (\<lambda>l. \<not> owned l) w' w''" for w' w''
    using same_objects_trans [OF that(1,2)] same_files_trans [OF that(3,4)] by simp_all
  have failed: "?rest (Inl e) w'" if "same_objects objs (file_keys i [sf_Name f]) w w'" "same_files (\<lambda>l. \<not> owned l) w w'" for e w'
    by (rule Cons.IH [OF fs]; simp; rule Cons.prems(3); rule tr [OF that(1) _ that(2)]; assumption)
  have stored: "?rest (Inr (file_entry C (ts_level s) i f x)) w'"
    if w': "same_objects objs (file_keys i [sf_Name f]) w w'" "same_files (\<lambda>l. \<not> owned l) w w'"
      and x: "fmlookup (dk_files w) (locate E (sf_Path f)) = Some x" "objs w' (?k f) = Some (cd_compress C (ts_level s) x)" for x w'
  proof (rule Cons.IH [OF fs], goal_cases)
    case (1 e w'')
    then show ?case by simp (rule Cons.prems(3); rule tr [OF w'(1) _ w'(2)]; assumption)
  next
    case (2 w'' g)
    note same = tr [OF w'(1) 2(1) w'(2) 2(2)]
    have "f \<notin> set fs" using new by auto
    then have upd: "map (\<lambda>h. file_entry C (ts_level s) i h ((g(f := x)) h)) (f # fs)
        = file_entry C (ts_level s) i f x # map (\<lambda>h. file_entry C (ts_level s) i h (g h)) fs"
      by (auto simp: fun_upd_def)
    have kept: "objs w'' (?k f) = Some (cd_compress C (ts_level s) x)"
      using 2(1) fresh x(2) object_keys(2) [OF assms(1) f] by (simp add: same_objects_def)
    have src: "fmlookup (dk_files w) (locate E (sf_Path h)) = Some (g h)" if "h \<in> set fs" "\<not> owned (locate E (sf_Path h))" for h
      using 2(4) [OF that] w'(2) that(2) by (simp add: same_files_def)
    have "Q (Inr (map (\<lambda>h. file_entry C (ts_level s) i h ((g(f := x)) h)) (f # fs))) w''"
      by (rule Cons.prems(4) [OF same]) (use kept x(1) 2(3) src in auto)
    then show ?case unfolding upd by simp
  qed
  show ?case
    unfolding put_files.simps
    by (intro wp_bindI wp_putFile [OF assms(1) f _ _ s]; simp only: wp_bind wp_return) (rule failed stored; assumption)+
qed

text \<open>All files are stored, the marker is as it was.\<close>

definition uploaded :: "'h os \<Rightarrow> codec \<Rightarrow> int \<Rightarrow> string \<Rightarrow> SourceFile list \<Rightarrow> (SourceFile \<Rightarrow> string) \<Rightarrow> 'h disk \<Rightarrow> 'h disk \<Rightarrow> bool" where
  "uploaded E C level i fs g w v \<longleftrightarrow>
     same_objects objs (file_keys i (map sf_Name fs)) w v \<and> same_files (\<lambda>l. \<not> owned l) w v
     \<and> (\<forall>f \<in> set fs. objs v (objectKey i (sf_Name f @ ''.zst'')) = Some (cd_compress C level (g f))
          \<and> (\<not> owned (locate E (sf_Path f)) \<longrightarrow> fmlookup (dk_files w) (locate E (sf_Path f)) = Some (g f)))"

lemma uploaded_eq:
  assumes "uploaded E C level i fs g w v" and "dk_files v' = dk_files v" and "segment i" and "list_all (\<lambda>f. segment (sf_Name f)) fs"
  shows "uploaded E C level i fs g w v'"
proof -
  have "objs v' (objectKey i (sf_Name f @ ''.zst'')) = objs v (objectKey i (sf_Name f @ ''.zst''))" if "f \<in> set fs" for f
    using assms(3,4) that by (intro objs_eq [OF object_keys(2) assms(2)]) (simp_all add: list_all_iff)
  then show ?thesis
    using assms(1) same_objects_trans [OF _ same_objects_eq [OF assms(2), of "{}"]] same_files_trans [OF _ same_files_eq [OF assms(2)]]
    unfolding uploaded_def by (metis sup_bot_right)
qed

lemma stored_uploaded:
  assumes "uploaded E C level i fs g w v" and "same_objects objs {objectKey i manifestObject} v w'"
    and "segment i" and "list_all (\<lambda>f. segment (sf_Name f)) fs"
    and "cd_marshal C (new_manifest C level i fs rt g now) = Some d" and "length d \<le> maxManifestBytes" and "objs w' (objectKey i manifestObject) = Some d"
  shows "stored C level (objs w') i fs rt g (new_manifest C level i fs rt g now)"
proof -
  have "objs w' (objectKey i (sf_Name f @ ''.zst'')) = Some (cd_compress C level (g f))" if "f \<in> set fs" for f
    using assms(1,2,4) that object_keys(2) [OF assms(3), of "sf_Name f"] objectKey_inj [OF assms(3,3)] zst_not_manifest
    by (simp add: uploaded_def same_objects_def list_all_iff)
  then show ?thesis using assms(5-7) by (auto simp: stored_def list_all_iff)
qed

text \<open>Writing the marker: whatever happens, the snapshot is either as visible as before or stored completely.\<close>

lemma wp_commit:
  assumes up: "uploaded E C level i fs g w v" and i: "segment i" and fs: "list_all (\<lambda>f. segment (sf_Name f)) fs"
    and d: "cd_marshal C (new_manifest C level i fs rt g now) = Some d" "length d \<le> maxManifestBytes"
    and no: "\<And>w'. same_objects objs (insert (objectKey i manifestObject) (file_keys i (map sf_Name fs))) w w' \<Longrightarrow>
       same_files (\<lambda>l. \<not> owned l) w w' \<Longrightarrow>
       objs w' (objectKey i manifestObject) = objs w (objectKey i manifestObject) \<or> objs w' (objectKey i manifestObject) = None \<Longrightarrow> Q False w'"
    and yes: "\<And>ok w'. same_objects objs (insert (objectKey i manifestObject) (file_keys i (map sf_Name fs))) w w' \<Longrightarrow>
       same_files (\<lambda>l. \<not> owned l) w w' \<Longrightarrow> stored C level (objs w') i fs rt g (new_manifest C level i fs rt g now) \<Longrightarrow> Q ok w'"
  shows "wp (bl_Put B (objectKey i manifestObject) (d, True)) Q v"
proof -
  let ?k = "objectKey i manifestObject"
  have k: "object_key ?k" by (rule object_keys(1) [OF i])
  have v: "same_objects objs (file_keys i (map sf_Name fs)) w v" "same_files (\<lambda>l. \<not> owned l) w v" using up by (simp_all add: uploaded_def)
  have mark: "objs v ?k = objs w ?k" using v(1) k file_keys_iff(2) [OF i i] by (simp add: same_objects_def)
  have same: "same_objects objs (insert ?k (file_keys i (map sf_Name fs))) w w'" "same_files (\<lambda>l. \<not> owned l) w w'"
    if "same_objects objs {?k} v w'" "same_files (\<lambda>l. \<not> owned l) v w'" for w'
    using same_objects_trans [OF v(1) that(1)] same_files_trans [OF v(2) that(2)] by simp_all
  show ?thesis
  proof (rule Put_law [OF k], goal_cases)
    case (1 w')
    then show ?case using yes [OF same [OF 1(1,2)] stored_uploaded [OF up 1(1) i fs d]] by simp
  next
    case (2 w')
    then consider "objs w' ?k = objs w ?k \<or> objs w' ?k = None" | "objs w' ?k = Some d" using mark by auto
    then show ?case
      using no [OF same [OF 2(1,2)]] yes [OF same [OF 2(1,2)] stored_uploaded [OF up 2(1) i fs d]] by cases blast+
  qed
qed

lemma wp_store_Put:
  assumes s: "ts_blob s = B"
    and no: "\<And>e w'. same_objects objs (insert (objectKey i manifestObject) (file_keys i (map sf_Name fs))) w w' \<Longrightarrow>
       same_files (\<lambda>l. \<not> owned l) w w' \<Longrightarrow>
       objs w' (objectKey i manifestObject) = objs w (objectKey i manifestObject) \<or> objs w' (objectKey i manifestObject) = None \<Longrightarrow> Q (Inl e) w'"
    and yes: "\<And>r m g w'. same_objects objs (insert (objectKey i manifestObject) (file_keys i (map sf_Name fs))) w w' \<Longrightarrow>
       same_files (\<lambda>l. \<not> owned l) w w' \<Longrightarrow> validateSnapshotID i = None \<Longrightarrow> put_names [] fs = None \<Longrightarrow>
       stored C (ts_level s) (objs w') i fs rt g m \<Longrightarrow>
       (\<And>f. f \<in> set fs \<Longrightarrow> \<not> owned (locate E (sf_Path f)) \<Longrightarrow> fmlookup (dk_files w) (locate E (sf_Path f)) = Some (g f)) \<Longrightarrow>
       r = Inr m \<or> r = Inl StoreFailure \<Longrightarrow> Q r w'"
  shows "wp (store_Put E C s i fs rt) Q w"
proof (cases "validateSnapshotID i = None \<and> fs \<noteq> [] \<and> put_names [] fs = None")
  case False
  have "Q (Inl e) w" for e by (rule no) (simp_all add: same_objects_refl same_files_eq)
  with False show ?thesis by (auto simp: store_Put_def split: option.split)
next
  case True
  then have i: "segment i" and fs: "list_all (\<lambda>f. segment (sf_Name f)) fs" "distinct (map sf_Name fs)"
    by (auto simp: valid_id valid_name put_names_None list_all_iff intro: safe_segment)
  have no': "Q (Inl e) w'" if "same_objects objs (file_keys i (map sf_Name fs)) w w'" "same_files (\<lambda>l. \<not> owned l) w w'" for e w'
    by (rule no) (use that object_keys(1) [OF i] file_keys_iff(2) [OF i i] in \<open>auto simp: same_objects_def\<close>)
  let ?commit = "\<lambda>m d. do { ok \<leftarrow> bl_Put B (objectKey i manifestObject) (d, True); State_Monad.return (if ok then Inr m else Inl StoreFailure) }"
  have commit: "wp (?commit (new_manifest C (ts_level s) i fs rt g now) d) Q v"
    if up: "uploaded E C (ts_level s) i fs g w v" and d: "cd_marshal C (new_manifest C (ts_level s) i fs rt g now) = Some d" "length d \<le> maxManifestBytes"
    for g v now d
    unfolding wp_bind wp_return
  proof (rule wp_commit [OF up i fs(1) d], goal_cases)
    case (1 w') then show ?case by (simp add: no)
  next
    case (2 ok w')
    show ?case by (rule yes [OF 2(1,2) _ _ 2(3)]) (use True up in \<open>auto simp: uploaded_def\<close>)
  qed
  let ?finish = "\<lambda>entries. do {
      now \<leftarrow> draw (of_now E);
      let m = \<lparr>mf_SchemaVersion = ManifestSchemaVersion, mf_SnapshotID = i, mf_CreatedAt = now,
               mf_Compression = CompressionZstd, mf_Runtime = rt, mf_Files = entries\<rparr>;
      case cd_marshal C m of None \<Rightarrow> State_Monad.return (Inl StoreFailure) | Some data \<Rightarrow>
      if length data > maxManifestBytes then State_Monad.return (Inl ErrManifestTooLarge) else ?commit m data }"
  have finish: "wp (?finish (map (\<lambda>f. file_entry C (ts_level s) i f (g f)) fs)) Q v" if "uploaded E C (ts_level s) i fs g w v" for g v
    unfolding Let_def new_manifest_def [symmetric]
  proof (intro wp_bindI wp_drawI, goal_cases)
    case (1 now v')
    note up = uploaded_eq [OF that 1 i fs(1)]
    then have "same_objects objs (file_keys i (map sf_Name fs)) w v'" "same_files (\<lambda>l. \<not> owned l) w v'" by (simp_all add: uploaded_def)
    then show ?case
      by (intro wp_optionI wp_ifI; (simp only: wp_return, rule no'; assumption)?) (rule commit [OF up]; simp)
  qed
  have "wp (put_files E C s i fs) (\<lambda>r. wp (case r of Inl e \<Rightarrow> State_Monad.return (Inl e) | Inr entries \<Rightarrow> ?finish entries) Q) w"
    by (rule wp_put_files [OF i fs s]; simp only: sum.case wp_return; (rule no'; assumption)?) (rule finish; simp add: uploaded_def)
  then show ?thesis unfolding store_Put_def s using True by (simp del: wp_bind add: wp_bindI)
qed

text \<open>What is stored is complete, and snapshots whose objects are untouched stay so.\<close>

lemma stored_complete:
  assumes C: "codec_ok C" and m: "ascii_manifest m" and st: "stored C level ob i fs rt g m"
  shows "complete C ob i"
  unfolding complete_def
proof (intro allI impI)
  fix d m' assume "ob (objectKey i manifestObject) = Some d" and ck: "check_manifest C i d = Inr m'"
  then have "cd_marshal C m = Some d" using st by (auto simp: stored_def)
  then have "cd_unmarshal C d = Some m" using C m by (simp add: codec_ok_def)
  then have m': "mf_Files m' = map (\<lambda>fe. fe\<lparr>fe_Key := objectKey i (fe_Name fe @ ''.zst'')\<rparr>) (mf_Files m)"
    using ck by (auto simp: check_manifest_def split: if_splits option.splits)
  have "present_file C ob i (file_entry C level i f (g f))" if "f \<in> set fs" for f
    using st C that unfolding present_file_def stored_def codec_ok_def by (auto simp: file_entry_def list_all_iff)
  then have "list_all (present_file C ob i) (mf_Files m)" using st by (auto simp: stored_def new_manifest_def list_all_iff)
  then show "list_all (present_file C ob i) (mf_Files m')" by (simp add: m' list_all_iff present_file_def)
qed

lemma complete_other:
  assumes "same_objects objs K w w'" and "validateSnapshotID j = None" and "complete C (objs w) j"
    and "\<And>n. objectKey j n \<notin> K"
  shows "complete C (objs w') j"
proof -
  have j: "segment j" using assms(2) by (simp add: valid_id safe_segment)
  have eq: "objs w' (objectKey j n) = objs w (objectKey j n)" if "object_key (objectKey j n)" for n
    using assms(1,4) that by (simp add: same_objects_def)
  have names: "segment (fe_Name fe)" if "check_manifest C j d = Inr m" "fe \<in> set (mf_Files m)" for d m fe
    using manifest_ok_segment [OF check_manifest_ok] that by blast
  show ?thesis
    using assms(3) unfolding complete_def present_file_def list_all_iff
    by (metis eq names object_keys(1) [OF j] object_keys(2) [OF j])
qed

lemma put_keeps_complete:
  assumes s: "ts_blob s = B" and C: "codec_ok C"
    and ok: "\<forall>j. validateSnapshotID j = None \<longrightarrow> complete C (objs w) j" and new: "objs w (objectKey i manifestObject) = None"
    and m: "\<And>now g. ascii_manifest (new_manifest C (ts_level s) i fs rt g now)"
  shows "wp (store_Put E C s i fs rt) (\<lambda>_ w'. \<forall>j. validateSnapshotID j = None \<longrightarrow> complete C (objs w') j) w"
proof (cases "validateSnapshotID i = None")
  case False
  then show ?thesis using ok by (auto simp: store_Put_def)
next
  case True
  then have i: "segment i" by (simp add: valid_id safe_segment)
  let ?K = "insert (objectKey i manifestObject) (file_keys i (map sf_Name fs))"
  have other: "complete C (objs w') j" if "same_objects objs ?K w w'" "validateSnapshotID j = None" "j \<noteq> i" for j w'
  proof -
    have "segment j" using that(2) by (simp add: valid_id safe_segment)
    then have "objectKey j n \<notin> ?K" for n using objectKey_inj [of j i] i that(3) by (auto simp: file_keys_def)
    then show ?thesis using complete_other [OF that(1,2)] ok that(2) by blast
  qed
  show ?thesis
  proof (rule wp_store_Put [OF s], goal_cases)
    case (1 e w')
    then have "complete C (objs w') i" using new by (simp add: complete_def)
    with other [OF 1(1)] show ?case by metis
  next
    case (2 r m g w')
    then have "complete C (objs w') i" using m by (intro stored_complete [OF C]) (auto simp: stored_def)
    with other [OF 2(1)] show ?case by metis
  qed
qed

end

end
