(* ===== verification/Snapshot_Restore.thy ===== *)
theory Snapshot_Restore
  imports Snapshot_Store
begin

section \<open>Restoring snapshots\<close>

text \<open>
  Facts about \<open>Get\<close> of the snapshot store, and the properties of the store as a whole. The manifest and the objects
  are not trusted here: what \<open>Get\<close> returns was checked, whatever the backend holds.
\<close>

declare path_join.simps [simp del]

definition good_file :: "codec \<Rightarrow> (string \<Rightarrow> string option) \<Rightarrow> string \<Rightarrow> FileEntry \<Rightarrow> string \<Rightarrow> bool" where
  "good_file C ob i fe x \<longleftrightarrow> (\<exists>z. ob (objectKey i (fe_Name fe @ ''.zst'')) = Some z \<and> cd_decompress C z = (x, True))
     \<and> int (length x) = fe_Size fe \<and> cd_sha256 C x = fe_Digest fe"

text \<open>Only files below \<open>D\<close> change, and of those that exist only \<open>l\<close>.\<close>

definition works_in :: "location \<Rightarrow> location set \<Rightarrow> 'h disk \<Rightarrow> 'h disk \<Rightarrow> bool" where
  "works_in D L w w' \<longleftrightarrow> same_files (\<lambda>l. \<not> below D l) w w'
     \<and> (\<forall>l. l \<notin> L \<longrightarrow> fmlookup (dk_files w) l \<noteq> None \<longrightarrow> fmlookup (dk_files w') l = fmlookup (dk_files w) l)"

lemma works_in_eq: "dk_files w' = dk_files w \<Longrightarrow> works_in D L w w'"
  by (simp add: works_in_def same_files_def)

lemma works_in_trans: "works_in D L w w' \<Longrightarrow> works_in D L' w' w'' \<Longrightarrow> works_in D (L \<union> L') w w''"
  by (auto simp: works_in_def same_files_def)

lemma works_in_touch:
  assumes "fmlookup (dk_files w) T = None" and "below D T" and "\<And>l. l \<in> L \<Longrightarrow> below D l"
    and "\<And>l. l \<noteq> T \<Longrightarrow> l \<notin> L \<Longrightarrow> fmlookup (dk_files w') l = fmlookup (dk_files w) l"
  shows "works_in D L w w'"
  unfolding works_in_def same_files_def using assms by metis

lemma limit_reader_exact:
  assumes "int (length (fst (limit_reader (nat (n + 1)) r))) = n" and "snd (limit_reader (nat (n + 1)) r)"
  shows "limit_reader (nat (n + 1)) r = r" and "snd r"
  using assms by (auto simp: limit_reader_def prod_eq_iff min_def split: if_splits)

lemma wp_write_checked:
  assumes "is_abs dir" and "segment (fe_Name fe)" and T: "locate E tmp = T" and n: "T \<noteq> locate E dir @ [fe_Name fe]"
    and no: "\<And>e w'. (\<And>l. l \<noteq> T \<Longrightarrow> fmlookup (dk_files w') l = fmlookup (dk_files w) l) \<Longrightarrow> Q (Some e) w'"
    and yes: "\<And>w'. (\<And>l. l \<noteq> T \<Longrightarrow> l \<noteq> locate E dir @ [fe_Name fe] \<Longrightarrow> fmlookup (dk_files w') l = fmlookup (dk_files w) l) \<Longrightarrow>
       fmlookup (dk_files w') (locate E dir @ [fe_Name fe]) = Some (fst r) \<Longrightarrow> snd r \<Longrightarrow>
       int (length (fst r)) = fe_Size fe \<Longrightarrow> cd_sha256 C (fst r) = fe_Digest fe \<Longrightarrow> Q None w'"
  shows "wp (write_checked E C dir fe tmp r) Q w"
  unfolding write_checked_def Let_def abandon_def
  by (intro wp_intros file_intros; (simp; fail)?; (rule no | rule yes); simp add: T n n [symmetric] locate_join [OF assms(1,2)])

subsection \<open>Promotion\<close>

lemma wp_roll_back:
  assumes "is_abs dest" and "list_all segment ps"
    and "\<And>w'. (\<And>l. l \<notin> (\<lambda>p. locate E dest @ [p]) ` set ps \<Longrightarrow> fmlookup (dk_files w') l = fmlookup (dk_files w) l) \<Longrightarrow> Q () w'"
  shows "wp (roll_back E dest ps) Q w"
  using assms(2,3)
proof (induction ps arbitrary: w)
  case (Cons p ps)
  have "wp (roll_back E dest ps) Q w'" if "\<And>l. l \<noteq> locate E dest @ [p] \<Longrightarrow> fmlookup (dk_files w') l = fmlookup (dk_files w) l" for w'
    using Cons.prems(1) that by (intro Cons.IH) (auto intro!: Cons.prems(2))
  moreover have "locate E (path_join [dest, p]) = locate E dest @ [p]" using Cons.prems(1) by (simp add: locate_join [OF assms(1)])
  ultimately show ?case unfolding roll_back.simps by (intro wp_bindI wp_f_removeI) simp_all
qed simp

text \<open>\<open>w0\<close> is the state before the restore, \<open>D\<close> the staging directory in \<open>X\<close>, and \<open>h\<close> the contents.\<close>

definition promoting :: "location \<Rightarrow> location \<Rightarrow> 'h disk \<Rightarrow> (string \<Rightarrow> string) \<Rightarrow> string list \<Rightarrow> 'h disk \<Rightarrow> bool" where
  "promoting X D w0 h ps w \<longleftrightarrow>
     (\<forall>l. \<not> below D l \<and> l \<notin> (\<lambda>p. X @ [p]) ` set ps \<longrightarrow> fmlookup (dk_files w) l = fmlookup (dk_files w0) l)
     \<and> (\<forall>p \<in> set ps. fmlookup (dk_files w0) (X @ [p]) = None \<and> fmlookup (dk_files w) (X @ [p]) = Some (h p) \<and> X @ [p] \<noteq> D)"

text \<open>No file that was there is changed or lost, and at most the files named are new.\<close>

definition spared :: "location \<Rightarrow> location \<Rightarrow> 'h disk \<Rightarrow> string list \<Rightarrow> 'h disk \<Rightarrow> bool" where
  "spared X D w0 ns w \<longleftrightarrow> (\<forall>l. \<not> below D l \<and> (fmlookup (dk_files w0) l \<noteq> None \<or> l \<notin> (\<lambda>p. X @ [p]) ` set ns)
     \<longrightarrow> fmlookup (dk_files w) l = fmlookup (dk_files w0) l)"

lemma promoting_spared:
  assumes "promoting X D w0 h ps w" and "\<And>l. l \<notin> (\<lambda>p. X @ [p]) ` set ps \<Longrightarrow> fmlookup (dk_files w') l = fmlookup (dk_files w) l"
  shows "spared X D w0 (ps @ ns) w'"
  unfolding spared_def
proof (intro allI impI)
  fix l assume l: "\<not> below D l \<and> (fmlookup (dk_files w0) l \<noteq> None \<or> l \<notin> (\<lambda>p. X @ [p]) ` set (ps @ ns))"
  then have "l \<notin> (\<lambda>p. X @ [p]) ` set ps" using assms(1) unfolding promoting_def by auto
  then show "fmlookup (dk_files w') l = fmlookup (dk_files w0) l" using assms l unfolding promoting_def by metis
qed

lemma wp_promote:
  assumes dest: "is_abs dest" "locate E dest = X" and st: "is_abs staging" "locate E staging = D" "D = X @ [r]"
    and "list_all segment (ps @ ns)" and "distinct (ps @ ns)" and "promoting X D w0 h ps w"
    and "\<And>n. n \<in> set ns \<Longrightarrow> fmlookup (dk_files w) (D @ [n]) = Some (h n)"
    and no: "\<And>w'. spared X D w0 (ps @ ns) w' \<Longrightarrow> Q False w'"
    and yes: "\<And>w'. promoting X D w0 h (ps @ ns) w' \<Longrightarrow> Q True w'"
  shows "wp (promote E staging dest ps ns) Q w"
  using assms(6-11)
proof (induction ns arbitrary: ps w)
  case (Cons n ns)
  have n: "locate E (path_join [dest, n]) = X @ [n]" "locate E (path_join [staging, n]) = D @ [n]"
    using Cons.prems(1) dest(2) st(2) by (simp_all add: locate_join [OF dest(1)] locate_join [OF st(1)])
  have undo: "wp (roll_back E dest ps) (\<lambda>_. Q False) w'" if "dk_files w' = dk_files w" for w'
    by (rule wp_roll_back [OF dest(1)])
       (use Cons.prems(1) in simp, rule Cons.prems(5), rule promoting_spared [OF Cons.prems(3)], simp add: dest(2) that)
  have next_file: "wp (promote E staging dest (ps @ [n]) ns) Q w'"
    if free: "\<not> occupied (dk_files w) (X @ [n])" and w': "dk_files w' = fmupd (X @ [n]) (h n) (fmdrop (D @ [n]) (dk_files w))" for w'
  proof (rule Cons.IH)
    have "D @ [n] |\<in>| fmdom (dk_files w)" using Cons.prems(4) [of n] by (simp add: fmdomI)
    moreover have "below D (D @ [n])" by simp
    ultimately have XD: "X @ [n] \<noteq> D" using free unfolding occupied_def by blast
    have np: "n \<notin> set ps" using Cons.prems(2) by simp
    have "\<not> below D (X @ [n])" "X @ [n] \<notin> (\<lambda>p. X @ [p]) ` set ps" using np by (auto simp: st(3) below_def)
    then have "fmlookup (dk_files w0) (X @ [n]) = fmlookup (dk_files w) (X @ [n])" using Cons.prems(3) unfolding promoting_def by metis
    then have "fmlookup (dk_files w0) (X @ [n]) = None" using free by (simp add: occupied_def)
    then show "promoting X D w0 h (ps @ [n]) w'"
      using Cons.prems(3) np XD unfolding promoting_def w' by (auto simp: st(3))
    show "fmlookup (dk_files w') (D @ [m]) = Some (h m)" if "m \<in> set ns" for m
      using Cons.prems(2,4) that by (auto simp: w' st(3))
  qed (use Cons.prems in simp_all)
  show ?case
    unfolding promote.simps
    by (intro wp_bindI wp_ifI wp_returnI wp_f_lstatI wp_f_renameI; (simp add: undo; fail)?)
       (rule next_file, simp add: n del: path_join.simps, use Cons.prems(4) n in simp)
qed simp

subsection \<open>What a restore does\<close>

text \<open>\<open>restored_to\<close>: every file of the manifest is new in the directory \<open>X\<close> and holds what the object of the file decompresses to,
  of the recorded size and digest; no other file outside the staging directories changed.\<close>

definition staging_dir :: "location \<Rightarrow> location \<Rightarrow> bool" where
  "staging_dir X l \<longleftrightarrow> (\<exists>k. l = X @ [''.restore-'' @ nat_digits k] \<or> below (X @ [''.restore-'' @ nat_digits k]) l)"

definition restored_to :: "location \<Rightarrow> codec \<Rightarrow> (string \<Rightarrow> string option) \<Rightarrow> Manifest \<Rightarrow> 'h disk \<Rightarrow> 'h disk \<Rightarrow> bool" where
  "restored_to X C ob m w w' \<longleftrightarrow>
     list_all (\<lambda>fe. fmlookup (dk_files w) (X @ [fe_Name fe]) = None
       \<and> (\<exists>x. fmlookup (dk_files w') (X @ [fe_Name fe]) = Some x \<and> good_file C ob (mf_SnapshotID m) fe x)) (mf_Files m)
     \<and> (\<forall>l. \<not> staging_dir X l \<and> l \<notin> (\<lambda>fe. X @ [fe_Name fe]) ` set (mf_Files m) \<longrightarrow>
          fmlookup (dk_files w') l = fmlookup (dk_files w) l)"

definition untouched :: "location \<Rightarrow> 'h disk \<Rightarrow> 'h disk \<Rightarrow> bool" where
  "untouched X w w' \<longleftrightarrow> (\<forall>l. \<not> staging_dir X l \<and> fmlookup (dk_files w) l \<noteq> None \<longrightarrow> fmlookup (dk_files w') l = fmlookup (dk_files w) l)"

lemma lookup_remaining:
  assumes "F' = fmfilter (remaining D kept) F" and "l \<noteq> D" and "\<not> below D l"
  shows "fmlookup F' l = fmlookup F l"
  using assms by (simp add: remaining_def)

lemma staging_dir_not:
  assumes "\<not> staging_dir X l" and "D = X @ [''.restore-'' @ nat_digits k]"
  shows "l \<noteq> D" and "\<not> below D l"
  using assms unfolding staging_dir_def by blast+

lemma untouched_removed:
  assumes "spared X D w0 ns w" and "D = X @ [''.restore-'' @ nat_digits k]" and "dk_files w' = fmfilter (remaining D kept) (dk_files w)"
  shows "untouched X w0 w'"
  unfolding untouched_def
proof (intro allI impI)
  fix l assume l: "\<not> staging_dir X l \<and> fmlookup (dk_files w0) l \<noteq> None"
  then have "l \<noteq> D" "\<not> below D l" using staging_dir_not [OF _ assms(2)] by blast+
  then show "fmlookup (dk_files w') l = fmlookup (dk_files w0) l"
    using lookup_remaining [OF assms(3)] assms(1) l unfolding spared_def by metis
qed

lemma restored_removed:
  assumes "promoting X D w0 h (map fe_Name (mf_Files m)) w" and "D = X @ [''.restore-'' @ nat_digits k]"
    and "dk_files w' = fmfilter (remaining D kept) (dk_files w)"
    and "\<And>fe. fe \<in> set (mf_Files m) \<Longrightarrow> good_file C ob (mf_SnapshotID m) fe (h (fe_Name fe))"
  shows "restored_to X C ob m w0 w'"
proof -
  note keep = lookup_remaining [OF assms(3)]
  have "fmlookup (dk_files w0) (X @ [fe_Name fe]) = None \<and> fmlookup (dk_files w') (X @ [fe_Name fe]) = Some (h (fe_Name fe))"
    if "fe \<in> set (mf_Files m)" for fe
  proof -
    have "X @ [fe_Name fe] \<noteq> D" "\<not> below D (X @ [fe_Name fe])" using assms(1,2) that by (auto simp: promoting_def below_def)
    with keep show ?thesis using assms(1) that by (simp add: promoting_def)
  qed
  moreover have "fmlookup (dk_files w') l = fmlookup (dk_files w0) l"
    if "\<not> staging_dir X l" "l \<notin> (\<lambda>fe. X @ [fe_Name fe]) ` set (mf_Files m)" for l
    using keep [OF staging_dir_not [OF that(1) assms(2)]] staging_dir_not(2) [OF that(1) assms(2)] assms(1) that(2)
    by (simp add: promoting_def image_image)
  ultimately show ?thesis using assms(4) by (auto simp: restored_to_def list_all_iff)
qed

context blob
begin

lemma wp_getFile:
  assumes s: "ts_blob s = B" and i: "segment i" and dir: "is_abs dir"
    and no: "\<And>e w'. works_in (locate E dir) {} w w' \<Longrightarrow> Q (Some e) w'"
    and yes: "\<And>x w'. works_in (locate E dir) {locate E dir @ [fe_Name fe]} w w' \<Longrightarrow> validateName (fe_Name fe) = None \<Longrightarrow>
       fmlookup (dk_files w') (locate E dir @ [fe_Name fe]) = Some x \<Longrightarrow> good_file C (objs w) i fe x \<Longrightarrow> Q None w'"
  shows "wp (getFile E C s i dir fe) Q w"
proof (cases "validateName (fe_Name fe)")
  case (Some e)
  then show ?thesis by (simp add: getFile_def no works_in_eq)
next
  case None
  then have n: "segment (fe_Name fe)" by (simp add: valid_name safe_segment)
  have dne: "dir \<noteq> []" using dir by auto
  let ?D = "locate E dir" and ?n = "fe_Name fe" and ?k = "objectKey i (fe_Name fe @ ''.zst'')"
  let ?T = "\<lambda>k. ?D @ [''.tmp-'' @ ?n @ ''-'' @ nat_digits k]"
  let ?r = "\<lambda>x ok. limit_reader (nat (fe_Size fe + 1)) (fst (cd_decompress C x), snd (cd_decompress C x) \<and> ok)"
  have T: "locate E (temp_path dir (''.tmp-'' @ ?n @ ''-'') k) = ?T k" for k
    by (rule temp_no_object(1) [OF n dne])
  have neq: "?T k \<noteq> ?D @ [?n]" for k by (auto dest: arg_cong [where f = length])
  have check: "wp (write_checked E C dir fe (temp_path dir (''.tmp-'' @ ?n @ ''-'') k) (?r x ok)) Q v"
    if z: "objs w ?k = Some z" "ok \<longrightarrow> x = z" and v: "fmlookup (dk_files w) (?T k) = None" "dk_files v = fmupd (?T k) [] (dk_files w)" for x ok z k v
  proof (rule wp_write_checked [OF dir n T neq], goal_cases)
    case (1 e w')
    then show ?case using v by (intro no works_in_touch [OF v(1)]) simp_all
  next
    case (2 w')
    have y: "fst (?r x ok) = fst (cd_decompress C x)" "snd (cd_decompress C x)" ok
      using limit_reader_exact [OF 2(4,3)] by simp_all
    have "good_file C (objs w) i fe (fst (?r x ok))"
      using 2(4,5) z y(2,3) unfolding good_file_def y(1) by (auto simp: prod_eq_iff)
    moreover have "works_in ?D {?D @ [?n]} w w'" using 2(1) v by (intro works_in_touch [OF v(1)]) auto
    ultimately show ?case using yes None 2(2) by blast
  qed
  have temp: "wp (f_create_temp E dir (''.tmp-'' @ ?n @ ''-'')) (\<lambda>t. wp (case t of None \<Rightarrow> State_Monad.return (Some StoreFailure) | Some tmp \<Rightarrow>
      write_checked E C dir fe tmp (?r x ok)) Q) v" if "objs w ?k = Some z" "ok \<longrightarrow> x = z" "dk_files v = dk_files w" for x ok z v
  proof (rule wp_f_create_tempI, unfold option.case wp_return, goal_cases)
    case (1 w')
    then show ?case using that(3) by (simp add: no works_in_eq)
  next
    case (2 w' k)
    then show ?case unfolding T that(3) by (rule check [OF that(1,2)])
  qed
  have "wp (bl_Get B ?k) (\<lambda>g. wp (case g of Inl missing \<Rightarrow> State_Monad.return (Some (if missing then ErrObjectNotFound else StoreFailure))
      | Inr r \<Rightarrow> do {
      dec \<leftarrow> attempt E;
      if \<not> dec then State_Monad.return (Some StoreFailure) else do {
      t \<leftarrow> f_create_temp E dir (''.tmp-'' @ ?n @ ''-'');
      case t of None \<Rightarrow> State_Monad.return (Some StoreFailure) | Some tmp \<Rightarrow> write_checked E C dir fe tmp (?r (fst r) (snd r)) }}) Q) w"
  proof (rule Get_law [OF object_keys(2) [OF i n]], goal_cases)
    case (1 w' missing)
    then show ?case by (simp add: no works_in_eq)
  next
    case (2 w' x z ok)
    show ?case
      unfolding sum.case fst_conv snd_conv
      by (intro wp_bindI wp_attemptI wp_ifI wp_returnI) (simp add: no works_in_eq 2, rule temp [OF 2(2,3)], simp add: 2)
  qed
  then show ?thesis unfolding getFile_def s None by (simp only: option.case wp_bind Let_def)
qed

text \<open>The files of a manifest, one after the other. The objects stay as they are because nothing outside \<open>dir\<close> changes.\<close>

lemma works_in_objs:
  assumes "works_in D L w w'" and "\<And>l. below D l \<Longrightarrow> \<not> owned l" and "object_key k"
  shows "objs w' k = objs w k"
  using assms by (intro objs_owned) (auto simp: works_in_def same_files_def)

lemma wp_get_files:
  assumes s: "ts_blob s = B" and i: "segment i" and dir: "is_abs dir" and apart: "\<And>l. below (locate E dir) l \<Longrightarrow> \<not> owned l"
    and "distinct (map fe_Name fes)" and "list_all (\<lambda>fe. segment (fe_Name fe)) fes"
    and "\<And>e w' L. works_in (locate E dir) L w w' \<Longrightarrow> Q (Some e) w'"
    and "\<And>h w'. works_in (locate E dir) ((\<lambda>fe. locate E dir @ [fe_Name fe]) ` set fes) w w' \<Longrightarrow>
       (\<And>fe. fe \<in> set fes \<Longrightarrow> fmlookup (dk_files w') (locate E dir @ [fe_Name fe]) = Some (h fe) \<and> good_file C (objs w) i fe (h fe)) \<Longrightarrow>
       Q None w'"
  shows "wp (get_files E C s i dir fes) Q w"
  using assms(5-8)
proof (induction fes arbitrary: w Q)
  case Nil
  then show ?case by (simp add: works_in_eq)
next
  case (Cons fe fes)
  let ?D = "locate E dir"
  have bad: "wp (get_files E C s i dir fes) (\<lambda>es. Q (Some e)) w'" if "works_in ?D L w w'" for e L w'
    using Cons.prems(1,2) by (intro Cons.IH; simp) (blast intro: Cons.prems(3) works_in_trans [OF that])+
  have good: "wp (get_files E C s i dir fes) Q w'" if fe: "works_in ?D {?D @ [fe_Name fe]} w w'" "validateName (fe_Name fe) = None"
    "fmlookup (dk_files w') (?D @ [fe_Name fe]) = Some x" "good_file C (objs w) i fe x" for x w'
  proof (rule Cons.IH, goal_cases)
    case 1 then show ?case using Cons.prems(1) by simp
  next
    case 2 then show ?case using Cons.prems(2) by simp
  next
    case (3 e w'' L) then show ?case by (rule Cons.prems(3) [OF works_in_trans [OF fe(1)]])
  next
    case (4 w'' h)
    have "fe \<notin> set fes" "?D @ [fe_Name fe] \<notin> (\<lambda>fe. ?D @ [fe_Name fe]) ` set fes" using Cons.prems(1) by auto
    then have keep: "fmlookup (dk_files w'') (?D @ [fe_Name fe]) = Some x" using 4(1) fe(3) by (simp add: works_in_def)
    have rest: "good_file C (objs w) i f (h f)" if "f \<in> set fes" for f
    proof -
      have "object_key (objectKey i (fe_Name f @ ''.zst''))"
        using Cons.prems(2) that by (intro object_keys(2) [OF i]) (simp add: list_all_iff)
      then show ?thesis using 4(2) [OF that] works_in_objs [OF fe(1) apart] by (simp add: good_file_def)
    qed
    show ?case
      by (rule Cons.prems(4) [where h = "h(fe := x)"])
         (use works_in_trans [OF fe(1) 4(1)] keep fe(4) 4(2) rest \<open>fe \<notin> set fes\<close> in auto)
  qed
  show ?case
    unfolding get_files.simps
    by (rule wp_bindI, rule wp_getFile [OF s i dir]; simp only: wp_bind wp_return; simp add: bad good)
qed

lemma wp_store_Manifest:
  assumes s: "ts_blob s = B" and no: "\<And>e w'. dk_files w' = dk_files w \<Longrightarrow> Q (Inl e) w'"
    and yes: "\<And>m d w'. dk_files w' = dk_files w \<Longrightarrow> objs w (objectKey i manifestObject) = Some d \<Longrightarrow> check_manifest C i d = Inr m \<Longrightarrow>
       Q (Inr m) w'"
  shows "wp (store_Manifest C s i) Q w"
proof (cases "validateSnapshotID i")
  case (Some e)
  then show ?thesis by (simp add: store_Manifest_def no)
next
  case None
  then have i: "segment i" by (simp add: valid_id safe_segment)
  have read: "(x, ok) = limit_reader (maxManifestBytes + 1) r \<Longrightarrow> ok \<Longrightarrow> length x \<le> maxManifestBytes \<Longrightarrow> x = fst r \<and> snd r" for x ok r
    by (auto simp: limit_reader_def)
  have "wp (bl_Get B (objectKey i manifestObject)) (\<lambda>g. Q (case g of
        Inl missing \<Rightarrow> Inl (if missing then ErrManifestNotFound else StoreFailure)
      | Inr r \<Rightarrow> let (data, ok) = limit_reader (maxManifestBytes + 1) r
          in if \<not> ok then Inl StoreFailure
             else if length data > maxManifestBytes then Inl ErrManifestTooLarge
             else check_manifest C i data)) w"
  proof (rule Get_law [OF object_keys(1) [OF i]], goal_cases)
    case (1 w' missing) then show ?case by (simp add: no)
  next
    case (2 w' x d ok)
    obtain y k where y: "(y, k) = limit_reader (maxManifestBytes + 1) (x, ok)" by (metis surj_pair)
    show ?case
      unfolding sum.case Let_def y [symmetric] prod.case
      using read [OF y] 2(3) yes [OF 2(1,2)] no [OF 2(1)] by (cases "check_manifest C i y") auto
  qed
  then show ?thesis by (simp add: store_Manifest_def None s)
qed

text \<open>Download into the staging directory, promotion, removal of the staging directory.\<close>

lemma wp_restore:
  assumes s: "ts_blob s = B" and dest: "is_abs dest" and apart: "\<And>l. below (locate E dest) l \<Longrightarrow> \<not> owned l"
    and i: "segment i" and m: "manifest_ok i m" and v: "dk_files v = dk_files w" and staging: "staging = temp_path dest ''.restore-'' k"
    and no: "\<And>e w'. untouched (locate E dest) w w' \<Longrightarrow> Q (Inl e) w'"
    and yes: "\<And>w'. restored_to (locate E dest) C (objs w) m w w' \<Longrightarrow> Q (Inr m) w'"
  shows "wp (do {
      e \<leftarrow> get_files E C s i staging (mf_Files m);
      res \<leftarrow> (case e of Some x \<Rightarrow> State_Monad.return (Inl x) | None \<Rightarrow> do {
        ok \<leftarrow> promoteRestored E staging dest (mf_Files m);
        State_Monad.return (if ok then Inr m else Inl StoreFailure) });
      _ \<leftarrow> f_remove_all E staging;
      State_Monad.return res }) Q v"
proof -
  let ?X = "locate E dest" and ?D = "locate E dest @ [''.restore-'' @ nat_digits k]"
  have dne: "dest \<noteq> []" using dest by auto
  have seg: "segment (''.restore-'' @ nat_digits k)" using digits_no_slash [of k] by (intro segment_long) simp_all
  have st: "is_abs staging" "locate E staging = ?D"
    unfolding staging temp_path_def using is_abs_append [OF dest] locate_segment [OF dne seg] by simp_all
  have low: "below ?X l" if "below ?D l" for l using that by (auto simp: below_def take_Suc_conv_app_nth dest: arg_cong [where f = butlast])
  have names: "distinct (map fe_Name (mf_Files m))" "list_all segment (map fe_Name (mf_Files m))"
    using m manifest_ok_segment [OF m] by (auto simp: manifest_ok_def list_all_iff)
  have objs: "objs v k = objs w k" if "object_key k" for k using objs_eq [OF that v] .
  have remove: "wp (f_remove_all E staging) (\<lambda>_. Q (Inl e)) w2" if "spared ?X ?D w ns w2" for e ns w2
    by (rule wp_f_remove_allI, rule no, rule untouched_removed [OF that refl]) (simp add: st(2))
  have drop: "wp (f_remove_all E staging) (\<lambda>_. Q (Inr m)) w2"
    if "promoting ?X ?D w h (map fe_Name (mf_Files m)) w2" "\<And>fe. fe \<in> set (mf_Files m) \<Longrightarrow> good_file C (objs w) (mf_SnapshotID m) fe (h (fe_Name fe))" for h w2
    by (rule wp_f_remove_allI, rule yes, rule restored_removed [OF that(1) refl _ that(2)]) (simp_all add: st(2))
  have outside: "fmlookup (dk_files w1) l = fmlookup (dk_files w) l" if "works_in ?D L v w1" "\<not> below ?D l" for L w1 l
    using that v by (simp add: works_in_def same_files_def)
  show ?thesis
  proof (rule wp_bindI, rule wp_get_files [OF s i st(1) _ names(1)], goal_cases)
    case (1 l) then show ?case using apart low by (simp add: st(2))
  next
    case 2 then show ?case using names(2) by (simp add: list_all_iff)
  next
    case (3 e w1 L)
    then have "spared ?X ?D w [] w1" using outside by (auto simp: spared_def st(2))
    then show ?case unfolding option.case wp_bind wp_return by (rule remove)
  next
    case (4 h w1)
    let ?h = "\<lambda>n. the (fmlookup (dk_files w1) (?D @ [n]))"
    have good: "good_file C (objs w) (mf_SnapshotID m) fe (?h (fe_Name fe))" if "fe \<in> set (mf_Files m)" for fe
      using 4(2) [OF that] objs [OF object_keys(2) [OF i manifest_ok_segment [OF m that]]] m
      by (simp add: good_file_def st(2) manifest_ok_def)
    have there: "fmlookup (dk_files w1) (?D @ [fe_Name fe]) = Some (?h (fe_Name fe))" if "fe \<in> set (mf_Files m)" for fe
      using 4(2) [OF that] by (simp add: st(2))
    show ?case
      unfolding option.case wp_bind wp_return promoteRestored_def
    proof (rule wp_promote [OF dest refl st refl, where h = ?h and ?w0.0 = w], goal_cases)
      case 3 then show ?case using outside [OF 4(1) [unfolded st(2)]] by (simp add: promoting_def)
    next
      case (4 n) then show ?case using there by auto
    qed (use names good in \<open>auto intro: remove drop\<close>)
  qed
qed

lemma wp_store_Get:
  assumes s: "ts_blob s = B" and dest: "is_abs dest" and apart: "\<And>l. below (locate E dest) l \<Longrightarrow> \<not> owned l"
    and no: "\<And>e w'. untouched (locate E dest) w w' \<Longrightarrow> Q (Inl e) w'"
    and yes: "\<And>m d w'. objs w (objectKey i manifestObject) = Some d \<Longrightarrow> check_manifest C i d = Inr m \<Longrightarrow>
       restored_to (locate E dest) C (objs w) m w w' \<Longrightarrow> Q (Inr m) w'"
  shows "wp (store_Get E C s i dest) Q w"
proof (cases "validateSnapshotID i")
  case (Some e)
  then show ?thesis by (simp add: store_Get_def no untouched_def)
next
  case None
  then have i: "segment i" by (simp add: valid_id safe_segment)
  have same: "Q (Inl e) w'" if "dk_files w' = dk_files w" for e w' using that by (intro no) (simp add: untouched_def)
  have dne: "dest \<noteq> []" using dest by auto
  show ?thesis
    unfolding store_Get_def None option.case if_not_P [OF dne]
  proof (rule wp_bindI, rule wp_store_Manifest [OF s], unfold sum.case, goal_cases)
    case (1 e w') then show ?case by (simp add: same)
  next
    case (2 m d w')
    note restore = wp_restore [OF s dest apart i check_manifest_ok [OF 2(3)] _ refl no yes [OF 2(2,3)], where w = w]
    show ?case
    proof (intro wp_bindI wp_attemptI wp_ifI wp_returnI wp_f_mkdir_tempI, goal_cases)
      case (3 ok w1 w2 k)
      then have v: "dk_files w2 = dk_files w" using \<open>dk_files w' = dk_files w\<close> by simp
      show ?case unfolding option.case by (intro restore) (simp_all add: v)
    qed (simp_all add: same 2(1))
  qed
qed

end

section \<open>Properties of the snapshot store\<close>

text \<open>A restore directory and the root of the backend are apart: neither contains the other.\<close>

definition apart :: "location \<Rightarrow> location \<Rightarrow> bool" where
  "apart a b \<longleftrightarrow> take (length a) b \<noteq> a \<and> take (length b) a \<noteq> b"

lemma apart_below:
  assumes "apart a b" and "below a l"
  shows "\<not> below b l"
proof
  assume "below b l"
  then have ab: "take (length a) l = a" "take (length b) l = b" using assms(2) by (auto simp: below_def)
  show False
  proof (cases "length a \<le> length b")
    case True
    then have "take (length a) b = a" using ab by (metis take_take min.absorb1)
    then show ?thesis using assms(1) by (simp add: apart_def)
  next
    case False
    then have "take (length b) a = b" using ab by (metis take_take min.absorb1 nat_le_linear)
    then show ?thesis using assms(1) by (simp add: apart_def)
  qed
qed

abbreviation fs_store :: "'h os \<Rightarrow> codec \<Rightarrow> string \<Rightarrow> int \<Rightarrow> int \<Rightarrow> 'h TieredStore" where
  "fs_store E C root p level \<equiv> NewTieredStore C (FSBlob E root) p level"

lemma ts_blob_New [simp]: "ts_blob (NewTieredStore C b p l) = b"
  by (simp add: NewTieredStore_def)

definition ascii_source :: "string \<Rightarrow> RuntimeVersions \<Rightarrow> SourceFile list \<Rightarrow> bool" where
  "ascii_source i rt fs \<longleftrightarrow> ascii i \<and> ascii (rv_Firecracker rt) \<and> ascii (rv_Kernel rt) \<and> ascii (rv_Nanofuse rt) \<and> ascii (rv_SnapshotAPI rt)
     \<and> list_all (\<lambda>f. ascii (sf_Name f) \<and> ascii (sf_Role f)) fs"

lemma ascii_append [simp]: "ascii (a @ b) \<longleftrightarrow> ascii a \<and> ascii b"
  by (simp add: ascii_def)

lemma ascii_new_manifest:
  assumes "codec_ok C" and "ascii_source i rt fs"
  shows "ascii_manifest (new_manifest C level i fs rt g now)"
proof -
  have "ascii CompressionZstd" "ascii ''/''" "ascii ''.zst''" by (simp_all add: ascii_def CompressionZstd_def)
  then show ?thesis
    using assms by (auto simp: ascii_manifest_def new_manifest_def file_entry_def objectKey_def ascii_source_def codec_ok_def list_all_iff simp del: append.simps)
qed

text \<open>C25. Commit ordering. Storing a snapshot under an identifier that has no manifest yet keeps every snapshot that can be seen complete: a manifest that passes the checks
  lists only files whose objects are there and decompress to data of the recorded size and digest. This holds wherever the request
  fails, also when the clean-up after the failure fails, and hence after a crash at any point; other
  snapshots keep all their objects.\<close>

theorem put_keeps_snapshots_complete:
  assumes "is_abs root" and "codec_ok C" and "ascii_source i rt fs"
    and "\<forall>j. validateSnapshotID j = None \<longrightarrow> complete C (fs_objs E root w) j"
    and "fs_objs E root w (objectKey i manifestObject) = None"
    and "run_state (store_Put E C (fs_store E C root p level) i fs rt) w = (r, w')"
  shows "\<forall>j. validateSnapshotID j = None \<longrightarrow> complete C (fs_objs E root w') j"
proof -
  obtain q where root: "root = CHR ''/'' # q" using assms(1) by (cases root) auto
  have "wp (store_Put E C (fs_store E C root p level) i fs rt)
      (\<lambda>_ w'. \<forall>j. validateSnapshotID j = None \<longrightarrow> complete C (fs_objs E root w') j) w"
    unfolding root by (rule fsb.put_keeps_complete) (use assms(2-5) ascii_new_manifest [OF assms(2,3)] in \<open>simp_all add: root\<close>)
  with assms(6) show ?thesis by (simp add: wp_iff_run)
qed

text \<open>C26. Round trip. What was stored is what is restored: after a successful \<open>Put\<close> and a successful \<open>Get\<close>, the same manifest comes
  back and every file in the restore directory holds exactly the bytes its source had.\<close>

theorem put_get_round_trip:
  assumes "is_abs root" and "is_abs dest" and "apart (locate E dest) (locate E root)" and "codec_ok C" and "ascii_source i rt fs"
    and "list_all (\<lambda>f. \<not> below (locate E root) (locate E (sf_Path f))) fs"
    and "run_state (store_Put E C (fs_store E C root p level) i fs rt) w = (Inr m, w1)"
    and "run_state (store_Get E C (fs_store E C root p level) i dest) w1 = (Inr m', w2)"
  shows "m' = m \<and> list_all (\<lambda>f. \<exists>x. fmlookup (dk_files w) (locate E (sf_Path f)) = Some x
     \<and> fmlookup (dk_files w2) (locate E dest @ [sf_Name f]) = Some x) fs"
proof -
  let ?s = "fs_store E C root p level" and ?X = "locate E dest"
  obtain q where root: "root = CHR ''/'' # q" using assms(1) by (cases root) auto
  have "wp (store_Put E C ?s i fs rt) (\<lambda>r w1. \<forall>m. r = Inr m \<longrightarrow> (\<exists>g. stored C (ts_level ?s) (fs_objs E root w1) i fs rt g m
      \<and> (\<forall>f \<in> set fs. fmlookup (dk_files w) (locate E (sf_Path f)) = Some (g f)))) w"
    unfolding root by (rule fsb.wp_store_Put) (use assms(6) in \<open>auto simp: root fs_owned_def list_all_iff\<close>)
  then obtain g where g: "stored C (ts_level ?s) (fs_objs E root w1) i fs rt g m"
    "\<And>f. f \<in> set fs \<Longrightarrow> fmlookup (dk_files w) (locate E (sf_Path f)) = Some (g f)"
    using assms(7) by (auto simp: wp_iff_run)
  have "wp (store_Get E C ?s i dest) (\<lambda>r w2. \<forall>m'. r = Inr m' \<longrightarrow> (\<exists>d. fs_objs E root w1 (objectKey i manifestObject) = Some d
      \<and> check_manifest C i d = Inr m' \<and> restored_to ?X C (fs_objs E root w1) m' w1 w2)) w1"
    unfolding root by (rule fsb.wp_store_Get [OF _ assms(2)]) (use apart_below [OF assms(3)] in \<open>auto simp: root fs_owned_def\<close>)
  then obtain d where d: "fs_objs E root w1 (objectKey i manifestObject) = Some d" "check_manifest C i d = Inr m'"
    and r: "restored_to ?X C (fs_objs E root w1) m' w1 w2"
    using assms(8) by (auto simp: wp_iff_run)
  have "cd_marshal C m = Some d" "ascii_manifest m" using g(1) d(1) ascii_new_manifest [OF assms(4,5)] by (auto simp: stored_def)
  then have "cd_unmarshal C d = Some m" using assms(4) by (simp add: codec_ok_def)
  then have "m' = m\<lparr>mf_Files := map (\<lambda>fe. fe\<lparr>fe_Key := objectKey i (fe_Name fe @ ''.zst'')\<rparr>) (mf_Files m)\<rparr>"
    using d(2) by (auto simp: check_manifest_def split: if_splits option.splits)
  moreover have "map (\<lambda>fe. fe\<lparr>fe_Key := objectKey i (fe_Name fe @ ''.zst'')\<rparr>) (mf_Files m) = mf_Files m"
    using g(1) by (auto simp: stored_def new_manifest_def file_entry_def)
  ultimately have m': "m' = m" by simp
  have "fmlookup (dk_files w2) (?X @ [sf_Name f]) = Some (g f)" if "f \<in> set fs" for f
  proof -
    let ?fe = "file_entry C (ts_level ?s) i f (g f)"
    have fe: "?fe \<in> set (mf_Files m')" "mf_SnapshotID m' = i" "fe_Name ?fe = sf_Name f"
      and z: "fs_objs E root w1 (objectKey i (sf_Name f @ ''.zst'')) = Some (cd_compress C (ts_level ?s) (g f))"
      using g(1) that unfolding m' by (auto simp: stored_def new_manifest_def list_all_iff file_entry_def)
    obtain x where x: "fmlookup (dk_files w2) (?X @ [sf_Name f]) = Some x" "good_file C (fs_objs E root w1) i ?fe x"
      using r fe unfolding restored_to_def list_all_iff by metis
    have "cd_decompress C (cd_compress C (ts_level ?s) (g f)) = (g f, True)" using assms(4) by (simp add: codec_ok_def)
    then have "x = g f" using x(2) z unfolding good_file_def fe(3) by simp
    then show ?thesis using x(1) by simp
  qed
  with g(2) m' show ?thesis by (simp add: list_all_iff)
qed

text \<open>C27. A restore trusts nothing it reads. Whatever the backend holds: when \<open>Get\<close> succeeds, every file of the manifest was absent from the
  directory before, is there now under its plain name, and has the recorded size and digest, and no other file outside the
  directories \<open>.restore-*\<close> changed; when it fails, no file that existed outside them changed or vanished.\<close>

theorem get_checks_everything:
  assumes "is_abs root" and "is_abs dest" and "apart (locate E dest) (locate E root)"
    and "run_state (store_Get E C (fs_store E C root p level) i dest) w = (r, w')"
  shows "case r of Inr m \<Rightarrow> manifest_ok i m \<and> restored_to (locate E dest) C (fs_objs E root w) m w w'
                 | Inl _ \<Rightarrow> untouched (locate E dest) w w'"
proof -
  obtain q where root: "root = CHR ''/'' # q" using assms(1) by (cases root) auto
  have "wp (store_Get E C (fs_store E C root p level) i dest) (\<lambda>r w'. case r of
      Inr m \<Rightarrow> manifest_ok i m \<and> restored_to (locate E dest) C (fs_objs E root w) m w w' | Inl _ \<Rightarrow> untouched (locate E dest) w w') w"
    unfolding root by (rule fsb.wp_store_Get [OF _ assms(2)])
      (use apart_below [OF assms(3)] in \<open>auto simp: root fs_owned_def check_manifest_ok\<close>)
  with assms(4) show ?thesis by (simp add: wp_iff_run)
qed

end
