(* ===== verification/Snapshot_Demo.thy ===== *)
theory Snapshot_Demo
  imports Snapshot_Restore
begin

section \<open>A snapshot stored and restored\<close>

text \<open>
  The snapshot store at work on a host where nothing fails: one file is stored below \<open>/blobs\<close> and restored below \<open>/out\<close>. The
  codecs are simple functions that satisfy what is assumed of them. The properties of the store are
  applied to this run.
\<close>

definition demo_os :: "nat os" where
  "demo_os = \<lparr>of_fault = State_Monad.return False, of_count = State_Monad.return 0, of_kept = State_Monad.return (\<lambda>_. False),
     of_random = State (\<lambda>n. (n, Suc n)), of_now = State_Monad.return 7, of_cwd = ''/''\<rparr>"

definition demo_versions :: RuntimeVersions where
  "demo_versions = \<lparr>rv_Firecracker = ''1'', rv_Kernel = ''6'', rv_Nanofuse = ''0'', rv_SnapshotAPI = ''1''\<rparr>"

definition demo_source :: SourceFile where
  "demo_source = \<lparr>sf_Name = ''mem'', sf_Role = ''memory'', sf_Path = ''/src/mem''\<rparr>"

definition demo_disk :: "nat disk" where
  "demo_disk = \<lparr>dk_files = fmupd [''src'', ''mem''] ''abc'' fmempty, dk_host = 0\<rparr>"

definition demo_manifest :: Manifest where
  "demo_manifest = \<lparr>mf_SchemaVersion = 1, mf_SnapshotID = ''s1'', mf_CreatedAt = 7, mf_Compression = ''zstd'', mf_Runtime = demo_versions,
     mf_Files = [\<lparr>fe_Name = ''mem'', fe_Role = ''memory'', fe_Key = ''s1/mem.zst'', fe_Size = 3, fe_CompressedSize = 4, fe_Digest = ''3''\<rparr>]\<rparr>"

definition demo_codec :: codec where
  "demo_codec = \<lparr>cd_SpeedBetterCompression = 3, cd_compress = (\<lambda>l x. CHR ''z'' # x), cd_decompress = (\<lambda>z. (tl z, True)),
     cd_sha256 = (\<lambda>x. nat_digits (length x)),
     cd_marshal = (\<lambda>m. if m = demo_manifest then Some ''m'' else None), cd_unmarshal = (\<lambda>d. if d = ''m'' then Some demo_manifest else None)\<rparr>"

abbreviation demo_store :: "nat TieredStore" where
  "demo_store \<equiv> fs_store demo_os demo_codec ''/blobs'' 0 0"

lemma demo_os_simps [simp]:
  "wp (attempt demo_os) Q w = Q True w" "wp (draw (of_now demo_os)) R w = R 7 w"
  "wp (draw (of_random demo_os)) P w = P (dk_host w) (w\<lparr>dk_host := Suc (dk_host w)\<rparr>)"
  by (simp_all add: attempt_def draw_def demo_os_def wp_def)

lemma demo_codec_simps [simp]:
  "cd_compress demo_codec l x = CHR ''z'' # x" "cd_decompress demo_codec z = (tl z, True)" "cd_sha256 demo_codec x = nat_digits (length x)"
  "cd_marshal demo_codec m = (if m = demo_manifest then Some ''m'' else None)"
  "cd_unmarshal demo_codec d = (if d = ''m'' then Some demo_manifest else None)"
  by (simp_all add: demo_codec_def)

lemma demo_paths [simp]:
  "keyPath ''/blobs'' ''s1/mem.zst'' = Some ''/blobs/s1/mem.zst''" "keyPath ''/blobs'' ''s1/manifest.json'' = Some ''/blobs/s1/manifest.json''"
  "path_dir ''/blobs/s1/mem.zst'' = ''/blobs/s1''" "path_base ''/blobs/s1/mem.zst'' = ''mem.zst''"
  "path_dir ''/blobs/s1/manifest.json'' = ''/blobs/s1''" "path_base ''/blobs/s1/manifest.json'' = ''manifest.json''"
  "locate demo_os ''/blobs/s1/mem.zst'' = [''blobs'', ''s1'', ''mem.zst'']"
  "locate demo_os ''/blobs/s1/manifest.json'' = [''blobs'', ''s1'', ''manifest.json'']"
  "locate demo_os ''/src/mem'' = [''src'', ''mem'']"
  "locate demo_os (temp_path ''/blobs/s1'' ''.tmp-mem.zst-'' 0) = [''blobs'', ''s1'', ''.tmp-mem.zst-0'']"
  "locate demo_os (temp_path ''/blobs/s1'' ''.tmp-manifest.json-'' (Suc 0)) = [''blobs'', ''s1'', ''.tmp-manifest.json-1'']"
  by code_simp+

definition demo_stored :: "nat disk" where
  "demo_stored = \<lparr>dk_files = fmupd [''blobs'', ''s1'', ''manifest.json''] ''m'' (fmupd [''blobs'', ''s1'', ''mem.zst''] ''zabc'' (dk_files demo_disk)), dk_host = Suc (Suc 0)\<rparr>"

lemma demo_temp [simp]:
  "fmlookup (dk_files w) (locate demo_os (temp_path d p (dk_host w))) = None \<Longrightarrow>
   wp (f_create_temp demo_os d p) Q w = Q (Some (temp_path d p (dk_host w)))
     (w\<lparr>dk_host := Suc (dk_host w), dk_files := fmupd (locate demo_os (temp_path d p (dk_host w))) [] (dk_files w)\<rparr>)"
  unfolding f_create_temp_def by (simp add: temp_name.simps [of _ _ _ 10000])

lemma demo_commit:
  assumes "locate demo_os t = T" "locate demo_os p = L" "T \<noteq> L" "\<not> fBex (fmdom (dk_files w)) (below L)" "\<not> below L T"
  shows "wp (fs_commit demo_os p t (x, True)) Q w = Q True (w\<lparr>dk_files := fmupd L x (fmdrop T (dk_files w))\<rparr>)"
  using assms unfolding fs_commit_def fsyncDir_def f_copy_def f_rename_def by (simp add: fmdrop_fmupd_same)

lemma demo_digit [simp]: "nat_digits (Suc (Suc (Suc 0))) = ''3''" "nat_digits 3 = ''3''"
  by code_simp+

lemma demo_source_simps [simp]: "sf_Name demo_source = ''mem''" "sf_Path demo_source = ''/src/mem''" "sf_Role demo_source = ''memory''"
  by (simp_all add: demo_source_def)

lemma demo_fs_Put:
  assumes "keyPath ''/blobs'' k = Some p" and "locate demo_os p = L" and "path_dir p = d" and "path_base p = b"
    and "locate demo_os (temp_path d (''.tmp-'' @ b @ ''-'') (dk_host w)) = T"
    and "T \<noteq> L" and "\<not> fBex (fmdom (dk_files w)) (below L)" and "\<not> below L T" and "fmlookup (dk_files w) T = None"
  shows "wp (fs_Put demo_os ''/blobs'' k (x, True)) Q w = Q True (w\<lparr>dk_host := Suc (dk_host w), dk_files := fmupd L x (dk_files w)\<rparr>)"
proof -
  have "fmdrop T (dk_files w) = dk_files w" using assms(9) by (intro fmap_ext) simp
  then show ?thesis
    using assms unfolding fs_Put_def by (simp add: demo_commit [OF assms(5) [simplified] assms(2)] fmdrop_fmupd_same)
qed

lemma demo_put: "run_state (store_Put demo_os demo_codec demo_store ''s1'' [demo_source] demo_versions) demo_disk = (Inr demo_manifest, demo_stored)"
proof -
  have v: "validateSnapshotID ''s1'' = None" "put_names [] [demo_source] = None" by code_simp+
  have k: "objectKey ''s1'' ''mem.zst'' = ''s1/mem.zst''" "objectKey ''s1'' manifestObject = ''s1/manifest.json''"
    by (simp_all add: objectKey_def manifestObject_def)
  have put: "bl_Put (ts_blob demo_store) = fs_Put demo_os ''/blobs''" by (simp add: FSBlob_def)
  let ?w = "demo_disk\<lparr>dk_host := Suc 0, dk_files := fmupd [''blobs'', ''s1'', ''mem.zst''] ''zabc'' (dk_files demo_disk)\<rparr>"
  have 1: "wp (fs_Put demo_os ''/blobs'' ''s1/mem.zst'' (''zabc'', True)) Q demo_disk = Q True ?w" for Q
    using demo_fs_Put [OF demo_paths(1,7,3,4), of demo_disk "[''blobs'', ''s1'', ''.tmp-mem.zst-0'']"] by (simp add: demo_disk_def below_def)
  have 2: "wp (fs_Put demo_os ''/blobs'' ''s1/manifest.json'' (''m'', True)) Q ?w = Q True demo_stored" for Q
    using demo_fs_Put [OF demo_paths(2,8,5,6), of ?w "[''blobs'', ''s1'', ''.tmp-manifest.json-1'']"]
    by (simp add: demo_disk_def below_def demo_stored_def)
  have src: "fmlookup (dk_files demo_disk) [''src'', ''mem''] = Some ''abc''" by (simp add: demo_disk_def)
  have m: "\<lparr>mf_SchemaVersion = ManifestSchemaVersion, mf_SnapshotID = ''s1'', mf_CreatedAt = 7, mf_Compression = CompressionZstd,
      mf_Runtime = demo_versions, mf_Files = [file_entry demo_codec l ''s1'' demo_source ''abc'']\<rparr> = demo_manifest" for l
    by (simp add: demo_manifest_def file_entry_def ManifestSchemaVersion_def CompressionZstd_def k)
  have "wp (store_Put demo_os demo_codec demo_store ''s1'' [demo_source] demo_versions) (\<lambda>r w. r = Inr demo_manifest \<and> w = demo_stored) demo_disk"
    unfolding store_Put_def v option.case put put_files.simps putFile_def f_open_def k
    by (simp add: 1 2 m k src maxManifestBytes_def Let_def del: ts_blob_New) 
  then show ?thesis by (simp add: wp_iff_run prod_eq_iff)
qed

abbreviation demo_staging :: string where
  "demo_staging \<equiv> temp_path ''/out'' ''.restore-'' (Suc (Suc 0))"

lemma demo_out_paths [simp]:
  "locate demo_os demo_staging = [''out'', ''.restore-2'']"
  "locate demo_os (temp_path demo_staging ''.tmp-mem-'' (Suc (Suc (Suc 0)))) = [''out'', ''.restore-2'', ''.tmp-mem-3'']"
  "locate demo_os (path_join [demo_staging, ''mem'']) = [''out'', ''.restore-2'', ''mem'']"
  "locate demo_os (path_join [''/out'', ''mem'']) = [''out'', ''mem'']"
  "locate demo_os ''/out'' = [''out'']" "locate demo_os ''/blobs'' = [''blobs'']"
  by code_simp+

definition demo_restored :: "nat disk" where
  "demo_restored = \<lparr>dk_files = fmupd [''out'', ''mem''] ''abc'' (dk_files demo_stored), dk_host = Suc (Suc (Suc (Suc 0)))\<rparr>"

lemma demo_manifest_simps [simp]: "mf_Files demo_manifest = [\<lparr>fe_Name = ''mem'', fe_Role = ''memory'', fe_Key = ''s1/mem.zst'', fe_Size = 3,
    fe_CompressedSize = 4, fe_Digest = ''3''\<rparr>]" "mf_SnapshotID demo_manifest = ''s1''"
  by (simp_all add: demo_manifest_def)

lemma demo_Manifest: "wp (store_Manifest demo_codec demo_store ''s1'') Q demo_stored = Q (Inr demo_manifest) demo_stored"
proof -
  have v: "validateSnapshotID ''s1'' = None" "validateManifestFiles (mf_Files demo_manifest) = None" by code_simp+
  have "check_manifest demo_codec ''s1'' ''m'' = Inr demo_manifest"
    by (simp add: check_manifest_def v [simplified] ManifestSchemaVersion_def CompressionZstd_def objectKey_def) (simp add: demo_manifest_def ManifestSchemaVersion_def)
  then show ?thesis
    by (simp add: store_Manifest_def v FSBlob_def fs_Get_def f_open_def objectKey_def manifestObject_def demo_stored_def limit_reader_def maxManifestBytes_def)
qed

definition demo_staged :: "nat disk" where
  "demo_staged = \<lparr>dk_files = fmupd [''out'', ''.restore-2'', ''mem''] ''abc'' (dk_files demo_stored), dk_host = Suc (Suc (Suc (Suc 0)))\<rparr>"

lemma demo_getFile:
  "wp (getFile demo_os demo_codec demo_store ''s1'' demo_staging \<lparr>fe_Name = ''mem'', fe_Role = ''memory'', fe_Key = ''s1/mem.zst'', fe_Size = 3,
    fe_CompressedSize = 4, fe_Digest = ''3''\<rparr>) Q (demo_stored\<lparr>dk_host := Suc (Suc (Suc 0))\<rparr>) = Q None demo_staged"
proof -
  have v: "validateName ''mem'' = None" by code_simp
  show ?thesis
    by (simp add: getFile_def v FSBlob_def fs_Get_def f_open_def objectKey_def write_checked_def f_copy_def
       limit_reader_def Let_def demo_stored_def demo_disk_def f_rename_def below_def demo_staged_def fmdrop_fmupd)
qed

lemma demo_get: "run_state (store_Get demo_os demo_codec demo_store ''s1'' ''/out'') demo_stored = (Inr demo_manifest, demo_restored)"
proof -
  have v: "validateSnapshotID ''s1'' = None" by code_simp
  have host: "dk_host demo_stored = Suc (Suc 0)" by (simp add: demo_stored_def)
  have files: "fmfilter (remaining [''out'', ''.restore-2''] (\<lambda>_. False)) (dk_files demo_restored) = dk_files demo_restored"
    by (simp add: demo_restored_def demo_stored_def demo_disk_def remaining_def below_def cong del: fmfilter_cong)
  have "wp (promoteRestored demo_os demo_staging ''/out'' (mf_Files demo_manifest)) Q demo_staged = Q True demo_restored" for Q
    by (simp add: promoteRestored_def f_lstat_def f_rename_def occupied_def below_def demo_staged_def demo_stored_def demo_disk_def demo_restored_def fmdrop_fmupd)
  then have "wp (store_Get demo_os demo_codec demo_store ''s1'' ''/out'') (\<lambda>r w. r = Inr demo_manifest \<and> w = demo_restored) demo_stored"
    by (simp add: store_Get_def v demo_Manifest f_mkdir_temp_def host demo_getFile f_remove_all_def files)
  then show ?thesis by (simp add: wp_iff_run prod_eq_iff)
qed

lemma demo_codec_ok: "codec_ok demo_codec"
proof -
  have "ascii (nat_digits n)" for n using nat_digits_chars [of _ n] by (fastforce simp: ascii_def list_all_iff)
  then show ?thesis by (simp add: codec_ok_def)
qed

theorem put_get_round_trip_witness:
  "fmlookup (dk_files demo_disk) [''src'', ''mem''] = Some ''abc'' \<and> fmlookup (dk_files demo_restored) [''out'', ''mem''] = Some ''abc''"
proof -
  have "apart (locate demo_os ''/out'') (locate demo_os ''/blobs'')" "ascii_source ''s1'' demo_versions [demo_source]" by code_simp+
  then show ?thesis
    using put_get_round_trip [OF _ _ _ demo_codec_ok _ _ demo_put demo_get] by (simp add: below_def demo_disk_def)
qed

theorem put_keeps_snapshots_complete_witness:
  "complete demo_codec (fs_objs demo_os ''/blobs'' demo_stored) ''s1'' \<and> fs_objs demo_os ''/blobs'' demo_stored ''s1/manifest.json'' = Some ''m''"
proof -
  have none: "fs_objs demo_os ''/blobs'' demo_disk k = None" for k by (simp add: fs_objs_def demo_disk_def)
  then have "\<forall>j. validateSnapshotID j = None \<longrightarrow> complete demo_codec (fs_objs demo_os ''/blobs'' demo_disk) j"
    by (simp add: complete_def)
  moreover have "ascii_source ''s1'' demo_versions [demo_source]" "validateSnapshotID ''s1'' = None" by code_simp+
  ultimately show ?thesis
    using put_keeps_snapshots_complete [OF _ demo_codec_ok _ _ none demo_put] by (simp add: fs_objs_def demo_stored_def)
qed

theorem get_checks_everything_witness:
  "restored_to [''out''] demo_codec (fs_objs demo_os ''/blobs'' demo_stored) demo_manifest demo_stored demo_restored"
proof -
  have "apart (locate demo_os ''/out'') (locate demo_os ''/blobs'')" by code_simp
  then show ?thesis using get_checks_everything [OF _ _ _ demo_get] by simp
qed

end
