(* ===== verification/Layer_Manifest.thy ===== *)
theory Layer_Manifest
  imports File_System "HOL-Library.Multiset"
begin

section \<open>Image manifests and the order of layers (internal/layerbuild)\<close>

text \<open>
  The front end of the image builder: \<open>types.go\<close> (the manifest's structures and their \<open>Validate\<close> methods)
  and \<open>manifest.go\<close> (parsing, validation, evaluation of the layers' conditions and the
  topological sort \<open>ResolveDependencies\<close>). A layer type is a string, as in the source. The values
  of a layer's \<open>config\<close> are never looked at: their type is a parameter. The decoder of YAML is a library, hence
  an argument of \<open>ParseManifest\<close>. The two regular expressions are written as the scanners they denote. Go maps
  that a loop counts in are finite maps, so that the sorting loop has a measure.
\<close>

subsection \<open>Structures (types.go)\<close>

record KernelConfig =
  kc_Version :: string
  kc_Source :: string
  kc_SHA256 :: string
  kc_Cmdline :: string

record OutputConfig =
  oc_Path :: string
  oc_Format :: string
  oc_SizeMB :: int
  oc_Compression :: string

record 'v LayerReference =
  lr_Name :: string
  lr_Type :: string
  lr_Source :: string
  lr_SHA256 :: string
  lr_Condition :: string
  lr_Required :: bool
  lr_Dependencies :: "string list"
  lr_Config :: "string \<rightharpoonup> 'v"

record 'v ImageManifest =
  im_Version :: string
  im_Name :: string
  im_Description :: string
  im_Kernel :: KernelConfig
  im_Layers :: "'v LayerReference list"
  im_Output :: OutputConfig

record FileEntry =
  fe_Path :: string
  fe_Mode :: string
  fe_Owner :: string
  fe_Group :: string

record SystemdConfig =
  sc_Enable :: "string list"
  sc_Mask :: "string list"

record 'v ConfigOption =
  co_Type :: string
  co_Default :: 'v
  co_Description :: string
  co_Required :: bool

record 'v LayerPackage =
  lp_Name :: string
  lp_Version :: string
  lp_Description :: string
  lp_Type :: string
  lp_Size :: int
  lp_SHA256 :: string
  lp_RootFS :: string
  lp_Dependencies :: "string list"
  lp_Provides :: "string list"
  lp_Files :: "FileEntry list"
  lp_Systemd :: "SystemdConfig option"
  lp_ConfigSchema :: "string \<rightharpoonup> 'v ConfigOption"
  lp_Metadata :: "string \<rightharpoonup> string"

definition LayerTypeBase :: string where "LayerTypeBase = ''base''"
definition LayerTypeRuntime :: string where "LayerTypeRuntime = ''runtime''"
definition LayerTypeFeature :: string where "LayerTypeFeature = ''feature''"
definition LayerTypeApplication :: string where "LayerTypeApplication = ''application''"

definition IsValid :: "string \<Rightarrow> bool" where
  "IsValid lt \<longleftrightarrow> lt \<in> {LayerTypeBase, LayerTypeRuntime, LayerTypeFeature, LayerTypeApplication}"

datatype SourceType = SourceTypeLocal | SourceTypeDocker | SourceTypeRegistry | SourceTypeURL

subsection \<open>The structural checks (types.go)\<close>

datatype invalid =
    Required string
  | SHA256Length nat
  | SHA256Digits
  | InvalidLayerType string
  | UnsupportedFormat string
  | NotPositive int
  | NoLayers
  | InLayer nat invalid

definition is_hex :: "char \<Rightarrow> bool" where
  "is_hex c \<longleftrightarrow> (let n = of_char c :: nat in
     48 \<le> n \<and> n \<le> 57 \<or> 97 \<le> n \<and> n \<le> 102 \<or> 65 \<le> n \<and> n \<le> 70)"

text \<open>\<open>hex.DecodeString\<close> accepts the strings of an even number of hexadecimal digits.\<close>

definition validateSHA256 :: "string \<Rightarrow> bool \<Rightarrow> invalid option" where
  "validateSHA256 sha required =
     (if sha = [] then if required then Some (Required ''SHA256'') else None
      else if length sha \<noteq> 64 then Some (SHA256Length (length sha))
      else if \<not> (even (length sha) \<and> list_all is_hex sha) then Some SHA256Digits
      else None)"

definition LayerType_Validate :: "string \<Rightarrow> invalid option" where
  "LayerType_Validate lt = (if IsValid lt then None else Some (InvalidLayerType lt))"

definition KernelConfig_Validate :: "KernelConfig \<Rightarrow> invalid option" where
  "KernelConfig_Validate k =
     (if kc_Version k = [] then Some (Required ''kernel version'')
      else if kc_Source k = [] then Some (Required ''kernel source'')
      else validateSHA256 (kc_SHA256 k) True)"

definition validOutputFormats :: "string list" where
  "validOutputFormats = [''ext4'', ''squashfs'', ''tar'']"

definition OutputConfig_Validate :: "OutputConfig \<Rightarrow> invalid option" where
  "OutputConfig_Validate oc =
     (if oc_Path oc = [] then Some (Required ''output path'')
      else if oc_Format oc = [] then Some (Required ''output format'')
      else if to_lower (oc_Format oc) \<notin> set validOutputFormats then Some (UnsupportedFormat (oc_Format oc))
      else None)"

definition LayerReference_Validate :: "'v LayerReference \<Rightarrow> invalid option" where
  "LayerReference_Validate l =
     (if lr_Name l = [] then Some (Required ''layer name'')
      else case LayerType_Validate (lr_Type l) of Some e \<Rightarrow> Some e
      | None \<Rightarrow> if lr_Source l = [] then Some (Required ''layer source'') else validateSHA256 (lr_SHA256 l) False)"

definition LayerPackage_Validate :: "'v LayerPackage \<Rightarrow> invalid option" where
  "LayerPackage_Validate p =
     (if lp_Name p = [] then Some (Required ''layer package name'')
      else if lp_Version p = [] then Some (Required ''layer package version'')
      else case LayerType_Validate (lp_Type p) of Some e \<Rightarrow> Some e
      | None \<Rightarrow> if lp_Size p \<le> 0 then Some (NotPositive (lp_Size p))
        else case validateSHA256 (lp_SHA256 p) True of Some e \<Rightarrow> Some e
        | None \<Rightarrow> if lp_RootFS p = [] then Some (Required ''layer package rootfs path'') else None)"

fun validate_layers :: "nat \<Rightarrow> 'v LayerReference list \<Rightarrow> invalid option" where
  "validate_layers i [] = None"
| "validate_layers i (l # ls) =
     (case LayerReference_Validate l of Some e \<Rightarrow> Some (InLayer i e) | None \<Rightarrow> validate_layers (Suc i) ls)"

definition ImageManifest_Validate :: "'v ImageManifest \<Rightarrow> invalid option" where
  "ImageManifest_Validate m =
     (if im_Version m = [] then Some (Required ''manifest version'')
      else if im_Name m = [] then Some (Required ''manifest name'')
      else case KernelConfig_Validate (im_Kernel m) of Some e \<Rightarrow> Some e
      | None \<Rightarrow> if im_Layers m = [] then Some NoLayers
        else case validate_layers 0 (im_Layers m) of Some e \<Rightarrow> Some e
        | None \<Rightarrow> OutputConfig_Validate (im_Output m))"

subsection \<open>Reading a manifest (manifest.go)\<close>

definition DefaultOutputConfig :: OutputConfig where
  "DefaultOutputConfig = \<lparr>oc_Path = ''./build'', oc_Format = ''ext4'', oc_SizeMB = 2048, oc_Compression = ''none''\<rparr>"

definition apply_defaults :: "OutputConfig \<Rightarrow> OutputConfig" where
  "apply_defaults oc = \<lparr>
     oc_Path = (if oc_Path oc = [] then oc_Path DefaultOutputConfig else oc_Path oc),
     oc_Format = (if oc_Format oc = [] then oc_Format DefaultOutputConfig else oc_Format oc),
     oc_SizeMB = (if oc_SizeMB oc = 0 then oc_SizeMB DefaultOutputConfig else oc_SizeMB oc),
     oc_Compression = (if oc_Compression oc = [] then oc_Compression DefaultOutputConfig else oc_Compression oc)\<rparr>"

datatype parse_error = ReadFailed | ParseFailed

definition ParseManifest :: "'h os \<Rightarrow> (string \<Rightarrow> 'v ImageManifest option) \<Rightarrow> string
    \<Rightarrow> ('h disk, parse_error + 'v ImageManifest) comp" where
  "ParseManifest E unmarshal path = do {
     r \<leftarrow> f_open E path;
     State_Monad.return (case r of Inl _ \<Rightarrow> Inl ReadFailed
       | Inr (data, complete) \<Rightarrow>
           if \<not> complete then Inl ReadFailed
           else case unmarshal data of None \<Rightarrow> Inl ParseFailed
           | Some m \<Rightarrow> Inr (m\<lparr>im_Output := apply_defaults (im_Output m)\<rparr>)) }"

subsection \<open>Validation (manifest.go)\<close>

definition ParseSourceType :: "string \<Rightarrow> SourceType option" where
  "ParseSourceType source =
     (if source = [] then None
      else if has_prefix source ''docker://'' then Some SourceTypeDocker
      else if has_prefix source ''registry://'' then Some SourceTypeRegistry
      else if has_prefix source ''local://'' then Some SourceTypeLocal
      else if has_prefix source ''url://'' then Some SourceTypeURL
      else None)"

definition isRemoteSource :: "SourceType \<Rightarrow> bool" where
  "isRemoteSource st \<longleftrightarrow> st = SourceTypeRegistry \<or> st = SourceTypeURL"

definition name_char :: "char \<Rightarrow> bool" where
  "name_char c \<longleftrightarrow> (let n = of_char c :: nat in 97 \<le> n \<and> n \<le> 122 \<or> 48 \<le> n \<and> n \<le> 57)"

text \<open>The expression \<open>^[a-z0-9]([a-z0-9-]*[a-z0-9])?$\<close>.\<close>

definition namePattern :: "string \<Rightarrow> bool" where
  "namePattern s \<longleftrightarrow> s \<noteq> [] \<and> name_char (hd s) \<and> name_char (last s)
     \<and> list_all (\<lambda>c. name_char c \<or> c = CHR ''-'') s"

record ValidationError =
  ve_Field :: string
  ve_Message :: string

definition problem :: "string \<Rightarrow> string \<Rightarrow> ValidationError list" where
  "problem field message = [\<lparr>ve_Field = field, ve_Message = message\<rparr>]"

definition validateKernel :: "KernelConfig \<Rightarrow> ValidationError list" where
  "validateKernel k =
     (if kc_Version k = [] then problem ''kernel.version'' ''is required'' else [])
     @ (if kc_Source k = [] then problem ''kernel.source'' ''is required'' else [])
     @ (if kc_Cmdline k = [] then problem ''kernel.cmdline'' ''is required'' else [])"

definition layer_prefix :: "nat \<Rightarrow> string" where
  "layer_prefix i = ''layers['' @ nat_digits i @ '']''"

definition validateLayer :: "'v LayerReference \<Rightarrow> nat \<Rightarrow> ValidationError list" where
  "validateLayer l i =
     (if lr_Name l = [] then problem (layer_prefix i @ ''.name'') ''is required'' else [])
     @ (if lr_Type l = [] then problem (layer_prefix i @ ''.type'') ''is required''
        else if \<not> IsValid (lr_Type l) then problem (layer_prefix i @ ''.type'')
          (''invalid type '' @ [CHR 0x27] @ lr_Type l @ [CHR 0x27] @ '', must be one of: base, runtime, feature, application'')
        else [])
     @ (if lr_Source l = [] then problem (layer_prefix i @ ''.source'') ''is required''
        else case ParseSourceType (lr_Source l) of
          None \<Rightarrow> problem (layer_prefix i @ ''.source'') ''must start with docker://, registry://, local://, or url://''
        | Some st \<Rightarrow> if isRemoteSource st \<and> lr_SHA256 l = []
            then problem (layer_prefix i @ ''.sha256'') ''is required for remote sources (registry://, url://)'' else [])"

text \<open>The error is the list of all problems, in the order of the source.\<close>

definition ValidateManifest :: "'v ImageManifest \<Rightarrow> ValidationError list" where
  "ValidateManifest m =
     (if im_Version m = [] then problem ''version'' ''is required''
      else if im_Version m \<noteq> ''1.0'' then problem ''version''
        (''must be '' @ [CHR 0x27] @ ''1.0'' @ [CHR 0x27] @ '', got '' @ [CHR 0x27] @ im_Version m @ [CHR 0x27])
      else [])
     @ (if im_Name m = [] then problem ''name'' ''is required''
        else if \<not> namePattern (im_Name m) then problem ''name''
          ''must be lowercase alphanumeric with hyphens, cannot start/end with hyphen''
        else [])
     @ validateKernel (im_Kernel m)
     @ (if im_Layers m = [] then problem ''layers'' ''at least one layer is required'' else [])
     @ concat (map (\<lambda>(i, l). validateLayer l i) (enumerate 0 (im_Layers m)))"

subsection \<open>Conditions (manifest.go)\<close>

type_synonym environment = "string \<rightharpoonup> string"

definition is_upper :: "char \<Rightarrow> bool" where
  "is_upper c \<longleftrightarrow> (let n = of_char c :: nat in 65 \<le> n \<and> n \<le> 90) \<or> c = CHR ''_''"

definition var_char :: "char \<Rightarrow> bool" where
  "var_char c \<longleftrightarrow> is_upper c \<or> (let n = of_char c :: nat in 48 \<le> n \<and> n \<le> 57)"

text \<open>The expression \<open>\${([A-Z_][A-Z0-9_]*)(?::-([^}]*))?}\<close>: a match at the start of a string, with its two
  groups, and the leftmost match.\<close>

definition match_here :: "string \<Rightarrow> (string \<times> string) option" where
  "match_here s =
     (if \<not> has_prefix s ''${'' then None
      else let body = drop 2 s; name = takeWhile var_char body; rest = dropWhile var_char body in
        if name = [] \<or> \<not> is_upper (hd name) then None
        else if rest \<noteq> [] \<and> hd rest = CHR ''}'' then Some (name, [])
        else if \<not> has_prefix rest '':-'' then None
        else let dflt = takeWhile (\<lambda>c. c \<noteq> CHR ''}'') (drop 2 rest) in
          if length dflt = length (drop 2 rest) then None else Some (name, dflt))"

fun conditionPattern :: "string \<Rightarrow> (string \<times> string) option" where
  "conditionPattern [] = None"
| "conditionPattern (c # s) = (case match_here (c # s) of Some m \<Rightarrow> Some m | None \<Rightarrow> conditionPattern s)"

definition evaluateCondition :: "string \<Rightarrow> environment \<Rightarrow> string" where
  "evaluateCondition condition env =
     (case conditionPattern condition of
        None \<Rightarrow> condition
      | Some (name, dflt) \<Rightarrow> (case env name of Some v \<Rightarrow> v | None \<Rightarrow> dflt))"

definition isTruthy :: "string \<Rightarrow> bool" where
  "isTruthy v \<longleftrightarrow> to_lower (trim_space v) \<in> {''true'', ''1'', ''yes'', ''on''}"

definition shouldIncludeLayer :: "'v LayerReference \<Rightarrow> environment \<Rightarrow> bool" where
  "shouldIncludeLayer l env =
     (if lr_Required l then True else if lr_Condition l = [] then True
      else isTruthy (evaluateCondition (lr_Condition l) env))"

definition EvaluateConditions :: "'v ImageManifest \<Rightarrow> environment \<Rightarrow> 'v LayerReference list" where
  "EvaluateConditions m env = filter (\<lambda>l. shouldIncludeLayer l env) (im_Layers m)"

subsection \<open>Dependency order (manifest.go)\<close>

datatype resolve_error =
    DependsOnItself string
  | NotInLayerList string string
  | CircularDependency
  | NilLayer

text \<open>The table of layers by name: a later layer replaces an earlier one of the same name.\<close>

definition layer_map :: "'v LayerReference list \<Rightarrow> string \<rightharpoonup> 'v LayerReference" where
  "layer_map layers = foldl (\<lambda>m l. m(lr_Name l \<mapsto> l)) Map.empty layers"

fun check_dependencies :: "(string \<rightharpoonup> 'v LayerReference) \<Rightarrow> string \<Rightarrow> string list \<Rightarrow> resolve_error option" where
  "check_dependencies m name [] = None"
| "check_dependencies m name (d # ds) =
     (if d = name then Some (DependsOnItself name)
      else if m d = None then Some (NotInLayerList name d)
      else check_dependencies m name ds)"

fun check_layers :: "(string \<rightharpoonup> 'v LayerReference) \<Rightarrow> 'v LayerReference list \<Rightarrow> resolve_error option" where
  "check_layers m [] = None"
| "check_layers m (l # ls) =
     (case check_dependencies m (lr_Name l) (lr_Dependencies l) of Some e \<Rightarrow> Some e | None \<Rightarrow> check_layers m ls)"

text \<open>Reading a missing key of a counter map gives 0.\<close>

definition degree :: "(string, int) fmap \<Rightarrow> string \<Rightarrow> int" where
  "degree D n = (case fmlookup D n of Some k \<Rightarrow> k | None \<Rightarrow> 0)"

type_synonym edges = "(string, int) fmap \<times> (string \<Rightarrow> string list)"

fun add_edges :: "string \<Rightarrow> string list \<Rightarrow> edges \<Rightarrow> edges" where
  "add_edges n [] e = e"
| "add_edges n (d # ds) (D, dependents) =
     add_edges n ds (fmupd n (degree D n + 1) D, dependents(d := dependents d @ [n]))"

fun count_edges :: "'v LayerReference list \<Rightarrow> edges \<Rightarrow> edges" where
  "count_edges [] e = e"
| "count_edges (l # ls) (D, dependents) =
     count_edges ls (add_edges (lr_Name l) (lr_Dependencies l)
       (if fmlookup D (lr_Name l) = None then fmupd (lr_Name l) 0 D else D, dependents))"

fun release_dependents :: "string list \<Rightarrow> (string, int) fmap \<Rightarrow> string list \<Rightarrow> (string, int) fmap \<times> string list" where
  "release_dependents [] D queue = (D, queue)"
| "release_dependents (d # ds) D queue =
     release_dependents ds (fmupd d (degree D d - 1) D) (if degree D d - 1 = 0 then queue @ [d] else queue)"

text \<open>The sorting loop ends because a name enters the queue only when its count falls to zero: the names in the queue
  and the names with a positive count together become fewer in every round.\<close>

definition pending :: "(string, int) fmap \<Rightarrow> string list \<Rightarrow> nat" where
  "pending D queue = length queue + card {n. 0 < degree D n}"

lemma finite_positive [simp]: "finite {n. 0 < degree D n}"
  by (rule finite_subset [of _ "fset (fmdom D)"])
    (auto simp: degree_def fmdomI split: option.splits)

lemma degree_fmupd [simp]: "degree (fmupd n k D) m = (if m = n then k else degree D m)"
  by (simp add: degree_def)

lemma pending_step: "pending (fmupd d (degree D d - 1) D) (if degree D d - 1 = 0 then queue @ [d] else queue) \<le> pending D queue"
proof (cases "degree D d = 1")
  case True
  then have "{n. 0 < degree D n} = insert d {n. 0 < (if n = d then 0 else degree D n)}" by auto
  moreover have "finite {n. 0 < (if n = d then 0 else degree D n)}"
    by (rule finite_subset [OF _ finite_positive [of D]]) auto
  ultimately show ?thesis using True by (simp add: pending_def)
next
  case False
  then have "card {n. 0 < (if n = d then degree D d - 1 else degree D n)} \<le> card {n. 0 < degree D n}"
    by (intro card_mono finite_positive) auto
  with False show ?thesis by (simp add: pending_def)
qed

lemma pending_release: "pending (fst (release_dependents ds D queue)) (snd (release_dependents ds D queue)) \<le> pending D queue"
proof (induction ds D queue rule: release_dependents.induct)
  case (2 d ds D queue)
  then show ?case using pending_step [of d D queue] by simp
qed simp

function sort_layers :: "(string \<rightharpoonup> 'v LayerReference) \<Rightarrow> (string \<Rightarrow> string list) \<Rightarrow> (string, int) fmap \<Rightarrow> string list
    \<Rightarrow> 'v LayerReference list \<Rightarrow> 'v LayerReference list option" where
  "sort_layers m dependents D [] sorted_layers = Some sorted_layers"
| "sort_layers m dependents D (name # queue) sorted_layers =
     (case m name of
        None \<Rightarrow> None
      | Some l \<Rightarrow> sort_layers m dependents (fst (release_dependents (dependents name) D queue))
          (snd (release_dependents (dependents name) D queue)) (sorted_layers @ [l]))"
  by pat_completeness auto
termination
proof (relation "measure (\<lambda>(_, _, D, queue, _). pending D queue)")
  fix m :: "string \<rightharpoonup> 'v LayerReference" and dependents D name queue sorted_layers l
  have "pending (fst (release_dependents (dependents name) D queue)) (snd (release_dependents (dependents name) D queue))
      < pending D (name # queue)"
    using pending_release [of "dependents name" D queue] by (simp add: pending_def)
  then show "((m, dependents, fst (release_dependents (dependents name) D queue),
      snd (release_dependents (dependents name) D queue), sorted_layers @ [l]), m, dependents, D, name # queue, sorted_layers)
    \<in> measure (\<lambda>(_, _, D, queue, _). pending D queue)" by simp
qed simp

definition ResolveDependencies :: "'v LayerReference list \<Rightarrow> resolve_error + 'v LayerReference list" where
  "ResolveDependencies layers =
     (if layers = [] then Inr []
      else let m = layer_map layers in
        case check_layers m layers of Some e \<Rightarrow> Inl e
        | None \<Rightarrow> (case count_edges layers (fmempty, \<lambda>_. []) of (D, dependents) \<Rightarrow>
            case sort_layers m dependents D (filter (\<lambda>n. degree D n = 0) (map lr_Name layers)) [] of
              None \<Rightarrow> Inl NilLayer
            | Some out \<Rightarrow> if length out \<noteq> length layers then Inl CircularDependency else Inr out))"

end
