(* ===== verification/Layer_Cache.thy ===== *)
theory Layer_Cache
  imports Storage_DB Layer_Manifest
begin

section \<open>The layer cache (internal/layerbuild/cache.go)\<close>

text \<open>
  Fetched layers are kept as files of a directory, with a row in the table of layers each. The cache runs on its own
  database: the state is a \<open>world\<close> whose outside is the file system of \<open>File_System\<close>. Every method holds the
  cache's mutex, except that \<open>CheckAndEvict\<close> takes it twice; methods run one after the other here. \<open>Get\<close> updates the access time in a
  goroutine that waits for the mutex; it runs at the end of \<open>Get\<close> here. The JSON encoding of the metadata
  is a parameter. A result is \<open>Inl\<close> an error.
\<close>

type_synonym 'h cache_world = "'h disk world"

record 'v json =
  js_marshal :: "'v LayerPackage \<Rightarrow> string option"
  js_unmarshal :: "string \<Rightarrow> 'v LayerPackage option"

record layerCache =
  lc_cacheDir :: string
  lc_sizeLimit :: int

text \<open>The struct \<open>CachedLayer\<close> of \<open>types.go\<close>; \<^typ>\<open>CachedLayer\<close> is its row in the database.\<close>

record 'v layer_entry =
  le_Digest :: string
  le_Name :: string
  le_Version :: string
  le_Type :: string
  le_SourceURL :: string
  le_LocalPath :: string
  le_SizeBytes :: int
  le_FetchedAt :: timestamp
  le_LastUsedAt :: timestamp
  le_Metadata :: "'v LayerPackage option"
  le_Files :: "FileEntry list"

record CacheStats =
  cs_TotalLayers :: nat
  cs_TotalBytes :: int
  cs_OldestAccess :: timestamp

datatype cache_error =
    DatabaseFailed
  | InvalidType string
  | MetadataFailed
  | OpenFailed
  | CreateFailed
  | CopyFailed
  | StoreFailed

text \<open>The faults and the clock of the database are those of the operating system.\<close>

definition sql_of :: "'h os \<Rightarrow> 'h disk sql_env" where
  "sql_of E = \<lparr>sql_fault = draw (of_fault E), time_now = draw (of_now E)\<rparr>"

subsection \<open>Operations\<close>

definition Touch :: "'h os \<Rightarrow> string \<Rightarrow> ('h cache_world, bool) comp" where
  "Touch E digest = do {
     now \<leftarrow> on_host (draw (of_now E));
     TouchCachedLayer (sql_of E) digest now }"

definition row_metadata :: "'v json \<Rightarrow> string \<Rightarrow> 'v LayerPackage option option" where
  "row_metadata J s = (if s = [] then Some None else case js_unmarshal J s of None \<Rightarrow> None | Some p \<Rightarrow> Some (Some p))"

definition Get :: "'h os \<Rightarrow> 'v json \<Rightarrow> string \<Rightarrow> ('h cache_world, cache_error + 'v layer_entry option) comp" where
  "Get E J digest = do {
     r \<leftarrow> GetCachedLayer (sql_of E) digest;
     case r of
       None \<Rightarrow> State_Monad.return (Inl DatabaseFailed)
     | Some None \<Rightarrow> State_Monad.return (Inr None)
     | Some (Some rw) \<Rightarrow>
         if \<not> IsValid (cl_Type rw) then State_Monad.return (Inl (InvalidType (cl_Type rw)))
         else (case row_metadata J (cl_MetadataJSON rw) of
             None \<Rightarrow> State_Monad.return (Inl MetadataFailed)
           | Some metadata \<Rightarrow> do {
               _ \<leftarrow> Touch E digest;
               State_Monad.return (Inr (Some \<lparr>le_Digest = digest, le_Name = cl_Name rw, le_Version = cl_Version rw,
                 le_Type = cl_Type rw, le_SourceURL = cl_SourceURL rw, le_LocalPath = cl_LocalPath rw,
                 le_SizeBytes = cl_SizeBytes rw, le_FetchedAt = cl_FetchedAt rw, le_LastUsedAt = cl_LastUsedAt rw,
                 le_Metadata = metadata, le_Files = []\<rparr>)) }) }"

definition cached_path :: "layerCache \<Rightarrow> string \<Rightarrow> string" where
  "cached_path C digest = path_join [lc_cacheDir C, digest @ ''.tar.gz'']"

definition opened :: "bool + reader \<Rightarrow> reader" where
  "opened r = (case r of Inl _ \<Rightarrow> ([], False) | Inr x \<Rightarrow> x)"

text \<open>Copying the tarball into the cache. The source is opened, then the target is created, then the source is read. The
  result is the size of the layer.\<close>

definition copy_tarball :: "'h os \<Rightarrow> string \<Rightarrow> 'v layer_entry \<Rightarrow> ('h cache_world, cache_error + int) comp" where
  "copy_tarball E cachedPath layer = do {
     src \<leftarrow> on_host (f_open E (le_LocalPath layer));
     if isl src then State_Monad.return (Inl OpenFailed) else do {
     dst \<leftarrow> on_host (f_create E cachedPath);
     if \<not> dst then State_Monad.return (Inl CreateFailed) else do {
     r \<leftarrow> on_host (f_open E (le_LocalPath layer));
     copied \<leftarrow> on_host (f_copy E cachedPath (opened r));
     if \<not> copied then do {
       _ \<leftarrow> on_host (f_remove E cachedPath);
       State_Monad.return (Inl CopyFailed) }
     else State_Monad.return (Inr (if le_SizeBytes layer = 0 then int (length (fst (opened r))) else le_SizeBytes layer)) }}}"

definition layer_row :: "'v layer_entry \<Rightarrow> string \<Rightarrow> int \<Rightarrow> string \<Rightarrow> CachedLayer" where
  "layer_row layer cachedPath n metadataJSON = \<lparr>cl_Digest = le_Digest layer, cl_Name = le_Name layer,
     cl_Version = le_Version layer, cl_Type = le_Type layer, cl_SourceURL = le_SourceURL layer,
     cl_LocalPath = cachedPath, cl_SizeBytes = n, cl_FetchedAt = le_FetchedAt layer,
     cl_LastUsedAt = le_LastUsedAt layer, cl_MetadataJSON = metadataJSON\<rparr>"

definition marshal_metadata :: "'v json \<Rightarrow> 'v LayerPackage option \<Rightarrow> string option" where
  "marshal_metadata J metadata = (case metadata of None \<Rightarrow> Some [] | Some p \<Rightarrow> js_marshal J p)"

definition Put :: "'h os \<Rightarrow> 'v json \<Rightarrow> layerCache \<Rightarrow> 'v layer_entry \<Rightarrow> ('h cache_world, cache_error option) comp" where
  "Put E J C layer =
     (if \<not> IsValid (le_Type layer) then State_Monad.return (Some (InvalidType (le_Type layer)))
      else case marshal_metadata J (le_Metadata layer) of
        None \<Rightarrow> State_Monad.return (Some MetadataFailed)
      | Some metadataJSON \<Rightarrow> do {
          let cachedPath = cached_path C (le_Digest layer);
          sized \<leftarrow> (if le_LocalPath layer \<noteq> cachedPath then copy_tarball E cachedPath layer
                   else State_Monad.return (Inr (le_SizeBytes layer)));
          case sized of
            Inl e \<Rightarrow> State_Monad.return (Some e)
          | Inr n \<Rightarrow> do {
              ok \<leftarrow> PutCachedLayer (sql_of E) (layer_row layer cachedPath n metadataJSON);
              if ok then State_Monad.return None
              else do { _ \<leftarrow> on_host (f_remove E cachedPath); State_Monad.return (Some StoreFailed) } }})"

definition Exists :: "'h os \<Rightarrow> string \<Rightarrow> ('h cache_world, bool option) comp" where
  "Exists E digest = CachedLayerExists (sql_of E) digest"

text \<open>Layers are evicted until the target is met; the flag tells whether a statement failed.\<close>

fun evict_layers :: "'h os \<Rightarrow> int \<Rightarrow> int \<Rightarrow> CachedLayer list \<Rightarrow> ('h cache_world, int \<times> bool) comp" where
  "evict_layers E target freed [] = State_Monad.return (freed, True)"
| "evict_layers E target freed (l # ls) =
     (if target \<le> freed then State_Monad.return (freed, True)
      else do {
        ok \<leftarrow> DeleteCachedLayer (sql_of E) (cl_Digest l);
        if \<not> ok then State_Monad.return (freed, False) else do {
        _ \<leftarrow> on_host (f_remove E (cl_LocalPath l));
        evict_layers E target (freed + cl_SizeBytes l) ls }})"

definition Evict :: "'h os \<Rightarrow> int \<Rightarrow> ('h cache_world, int \<times> bool) comp" where
  "Evict E target = do {
     r \<leftarrow> GetOldestCachedLayers (sql_of E) 0;
     case r of None \<Rightarrow> State_Monad.return (0, False) | Some layers \<Rightarrow> evict_layers E target 0 layers }"

definition Stats :: "'h os \<Rightarrow> ('h cache_world, CacheStats option) comp" where
  "Stats E = do {
     r \<leftarrow> GetCachedLayerStats (sql_of E);
     State_Monad.return (case r of None \<Rightarrow> None
       | Some (n, bytes, oldest) \<Rightarrow> Some \<lparr>cs_TotalLayers = n, cs_TotalBytes = bytes, cs_OldestAccess = oldest\<rparr>) }"

definition CheckAndEvict :: "'h os \<Rightarrow> layerCache \<Rightarrow> ('h cache_world, int \<times> bool) comp" where
  "CheckAndEvict E C = do {
     r \<leftarrow> Stats E;
     case r of
       None \<Rightarrow> State_Monad.return (0, False)
     | Some stats \<Rightarrow>
         if cs_TotalBytes stats > lc_sizeLimit C then Evict E (cs_TotalBytes stats - lc_sizeLimit C)
         else State_Monad.return (0, True) }"

subsection \<open>Rules for the operations\<close>

text \<open>Only the table of layers and the files matter; what else the operations move is left open.\<close>

definition files :: "'h cache_world \<Rightarrow> (location, string) fmap" where
  "files w = dk_files (w_host w)"

named_theorems cache_intros \<open>rules for the operations of the cache\<close>

lemma wp_on_diskI:
  assumes "wp m (\<lambda>a h. \<forall>w'. w_db w' = w_db w \<longrightarrow> w_host w' = h \<longrightarrow> Q a w') (w_host w)"
  shows "wp (on_host m) Q w"
  unfolding wp_on_host by (rule wp_mono [OF assms]) simp

lemma wp_disk_drawI [cache_intros]:
  "(\<And>a w'. w_db w' = w_db w \<Longrightarrow> files w' = files w \<Longrightarrow> Q a w') \<Longrightarrow> wp (on_host (draw m)) Q w"
  by (rule wp_on_diskI, rule wp_drawI) (simp add: files_def)

lemma wp_disk_sqlI [cache_intros]:
  assumes "\<And>w'. w_db w' = w_db w \<Longrightarrow> files w' = files w \<Longrightarrow> Q None w'"
    and "\<And>w'. w_db w' = snd (f (w_db w)) \<Longrightarrow> files w' = files w \<Longrightarrow> Q (Some (fst (f (w_db w)))) w'"
  shows "wp (sql (sql_of E) f) Q w"
  unfolding sql_def by (intro wp_intros) (use assms in \<open>auto simp: sql_of_def files_def intro!: wp_drawI\<close>)

lemma wp_disk_queryI [cache_intros]:
  assumes "\<And>w'. w_db w' = w_db w \<Longrightarrow> files w' = files w \<Longrightarrow> Q None w'"
    and "\<And>w'. w_db w' = w_db w \<Longrightarrow> files w' = files w \<Longrightarrow> Q (Some (f (w_db w))) w'"
  shows "wp (query (sql_of E) f) Q w"
  unfolding query_def by (rule wp_disk_sqlI) (use assms in simp_all)

lemma wp_disk_statementI [cache_intros]:
  assumes "\<And>w'. w_db w' = w_db w \<Longrightarrow> files w' = files w \<Longrightarrow> Q False w'"
    and "\<And>w'. w_db w' = snd (f (w_db w)) \<Longrightarrow> files w' = files w \<Longrightarrow> Q (fst (f (w_db w))) w'"
  shows "wp (statement (sql_of E) f) Q w"
  unfolding statement_def wp_bind by (rule wp_disk_sqlI) (use assms in simp_all)

lemma wp_disk_openI [cache_intros]:
  assumes "\<And>w' missing. w_db w' = w_db w \<Longrightarrow> files w' = files w \<Longrightarrow> Q (Inl missing) w'"
    and "\<And>w' y x ok. w_db w' = w_db w \<Longrightarrow> files w' = files w \<Longrightarrow> fmlookup (files w) (locate E p) = Some y \<Longrightarrow>
       ok \<longrightarrow> x = y \<Longrightarrow> Q (Inr (x, ok)) w'"
  shows "wp (on_host (f_open E p)) Q w"
  by (rule wp_on_diskI, rule wp_f_openI) (use assms in \<open>auto simp: files_def\<close>)

lemma wp_disk_createI [cache_intros]:
  assumes "\<And>w'. w_db w' = w_db w \<Longrightarrow> files w' = files w \<Longrightarrow> Q False w'"
    and "\<And>w'. w_db w' = w_db w \<Longrightarrow> files w' = fmupd (locate E p) [] (files w) \<Longrightarrow> Q True w'"
  shows "wp (on_host (f_create E p)) Q w"
  by (rule wp_on_diskI, rule wp_f_createI) (use assms in \<open>auto simp: files_def\<close>)

lemma wp_disk_copyI [cache_intros]:
  assumes "\<And>w' y. w_db w' = w_db w \<Longrightarrow> files w' = fmupd (locate E p) y (files w) \<Longrightarrow> Q False w'"
    and "\<And>w'. snd r \<Longrightarrow> w_db w' = w_db w \<Longrightarrow> files w' = fmupd (locate E p) (fst r) (files w) \<Longrightarrow> Q True w'"
  shows "wp (on_host (f_copy E p r)) Q w"
  by (rule wp_on_diskI, rule wp_f_copyI) (use assms in \<open>auto simp: files_def\<close>)

lemma wp_disk_removeI [cache_intros]:
  assumes "\<And>w'. w_db w' = w_db w \<Longrightarrow> files w' = files w \<Longrightarrow> Q False w'"
    and "\<And>w' ok. w_db w' = w_db w \<Longrightarrow> files w' = fmdrop (locate E p) (files w) \<Longrightarrow> Q ok w'"
  shows "wp (on_host (f_remove E p)) Q w"
  by (rule wp_on_diskI, rule wp_f_removeI) (use assms in \<open>auto simp: files_def\<close>)

lemma wp_TouchI [cache_intros]:
  assumes "\<And>w'. w_db w' = w_db w \<Longrightarrow> files w' = files w \<Longrightarrow> Q False w'"
    and "\<And>w' t. w_db w' = touch_layer digest t (w_db w) \<Longrightarrow> files w' = files w \<Longrightarrow> Q True w'"
  shows "wp (Touch E digest) Q w"
  unfolding Touch_def TouchCachedLayer_def by (intro wp_intros cache_intros) (use assms in simp_all)

lemma wp_copy_tarballI:
  assumes "\<And>w' e. w_db w' = w_db w \<Longrightarrow> \<forall>m. m \<noteq> locate E p \<longrightarrow> fmlookup (files w') m = fmlookup (files w) m \<Longrightarrow> Q (Inl e) w'"
    and "\<And>w' x n. w_db w' = w_db w \<Longrightarrow> files w' = fmupd (locate E p) x (files w) \<Longrightarrow>
       locate E (le_LocalPath l) \<noteq> locate E p \<longrightarrow> fmlookup (files w) (locate E (le_LocalPath l)) = Some x \<Longrightarrow>
       n = (if le_SizeBytes l = 0 then int (length x) else le_SizeBytes l) \<Longrightarrow> Q (Inr n) w'"
  shows "wp (copy_tarball E p l) Q w"
  unfolding copy_tarball_def
  by (intro wp_intros cache_intros)
    (auto simp: opened_def fmdrop_fmupd_same split: sum.splits if_splits intro: assms(1) assms(2) [OF _ _ impI])

lemma wp_PutI:
  assumes "\<And>w' e. w_db w' = w_db w \<Longrightarrow>
       \<forall>m. m \<noteq> locate E (cached_path C (le_Digest l)) \<longrightarrow> fmlookup (files w') m = fmlookup (files w) m \<Longrightarrow> Q (Some e) w'"
    and "\<And>w' n s. IsValid (le_Type l) \<Longrightarrow> marshal_metadata J (le_Metadata l) = Some s \<Longrightarrow>
       w_db w' = put_layer (layer_row l (cached_path C (le_Digest l)) n s) (w_db w) \<Longrightarrow>
       le_LocalPath l = cached_path C (le_Digest l) \<and> files w' = files w
       \<or> (\<exists>x. files w' = fmupd (locate E (cached_path C (le_Digest l))) x (files w)
            \<and> (locate E (le_LocalPath l) \<noteq> locate E (cached_path C (le_Digest l)) \<longrightarrow>
               fmlookup (files w) (locate E (le_LocalPath l)) = Some x)) \<Longrightarrow>
       le_SizeBytes l \<noteq> 0 \<longrightarrow> n = le_SizeBytes l \<Longrightarrow> Q None w'"
  shows "wp (Put E J C l) Q w"
proof (cases "marshal_metadata J (le_Metadata l)")
  case None
  then show ?thesis unfolding Put_def by (simp add: assms(1))
next
  case (Some s)
  show ?thesis
    unfolding Put_def PutCachedLayer_def Let_def Some option.case
    by (intro wp_intros wp_copy_tarballI cache_intros) (auto intro: assms(1) assms(2) [OF _ Some])
qed

subsection \<open>Eviction\<close>

definition bytes :: "CachedLayer list \<Rightarrow> int" where
  "bytes ls = sum_list (map cl_SizeBytes ls)"

definition without :: "CachedLayer list \<Rightarrow> DB \<Rightarrow> DB" where
  "without ls d = d\<lparr>db_layers := filter (\<lambda>r. cl_Digest r \<notin> cl_Digest ` set ls) (db_layers d)\<rparr>"

lemma without_Nil [simp]: "without [] d = d"
  by (simp add: without_def)

lemma without_Cons: "without ls (delete_layer (cl_Digest l) d) = without (l # ls) d"
  by (auto simp: without_def delete_layer_def intro!: arg_cong [of _ _ "\<lambda>x. d\<lparr>db_layers := x\<rparr>"] filter_cong)

lemma bytes_simps [simp]: "bytes [] = 0" "bytes (l # ls) = cl_SizeBytes l + bytes ls" "bytes (ls @ ls') = bytes ls + bytes ls'"
  by (simp_all add: bytes_def)

text \<open>The loop removes a prefix of its list, the shortest one that frees enough; files of other layers stay.\<close>

definition evicted :: "'h os \<Rightarrow> int \<Rightarrow> int \<Rightarrow> CachedLayer list \<Rightarrow> 'h cache_world \<Rightarrow> nat \<Rightarrow> int \<times> bool \<Rightarrow> 'h cache_world \<Rightarrow> bool" where
  "evicted E target freed ls w k r w' \<longleftrightarrow>
     k \<le> length ls \<and> fst r = freed + bytes (take k ls) \<and> w_db w' = without (take k ls) (w_db w)
     \<and> (\<forall>j < k. freed + bytes (take j ls) < target) \<and> (snd r \<longrightarrow> target \<le> fst r \<or> k = length ls)
     \<and> (\<forall>m. m \<notin> (\<lambda>l. locate E (cl_LocalPath l)) ` set (take k ls) \<longrightarrow> fmlookup (files w') m = fmlookup (files w) m)"

lemma evicted_same:
  "w_db w1 = w_db w \<Longrightarrow> files w1 = files w \<Longrightarrow> evicted E target freed ls w1 k r w' = evicted E target freed ls w k r w'"
  by (simp add: evicted_def)

lemma evicted_none:
  "w_db w' = w_db w \<Longrightarrow> files w' = files w \<Longrightarrow> snd r \<longrightarrow> target \<le> freed \<or> ls = [] \<Longrightarrow> fst r = freed \<Longrightarrow> evicted E target freed ls w 0 r w'"
  by (simp add: evicted_def)

lemma evicted_Cons:
  assumes "evicted E target (freed + cl_SizeBytes l) ls w1 k r w'" and "freed < target"
    and "w_db w1 = delete_layer (cl_Digest l) (w_db w)"
    and "\<forall>m. m \<noteq> locate E (cl_LocalPath l) \<longrightarrow> fmlookup (files w1) m = fmlookup (files w) m"
  shows "evicted E target freed (l # ls) w (Suc k) r w'"
proof -
  have "freed + bytes (take j (l # ls)) < target" if "j < Suc k" for j
    using that assms(1,2) by (cases j) (auto simp: evicted_def algebra_simps)
  then show ?thesis using assms by (auto simp: evicted_def without_Cons algebra_simps)
qed

lemma wp_evict_layers: "wp (evict_layers E target freed ls) (\<lambda>r w'. \<exists>k. evicted E target freed ls w k r w') w"
proof (induction ls arbitrary: freed w)
  case Nil
  show ?case by (auto intro!: exI [of _ 0] evicted_none)
next
  case (Cons l ls)
  have step: "wp (evict_layers E target (freed + cl_SizeBytes l) ls) (\<lambda>r w'. \<exists>k. evicted E target freed (l # ls) w k r w') w1"
    if "freed < target" "w_db w1 = delete_layer (cl_Digest l) (w_db w)"
      "\<forall>m. m \<noteq> locate E (cl_LocalPath l) \<longrightarrow> fmlookup (files w1) m = fmlookup (files w) m" for w1
    by (rule wp_mono [OF Cons.IH]) (use that in \<open>blast intro: evicted_Cons\<close>)
  show ?case
    unfolding evict_layers.simps DeleteCachedLayer_def
    by (intro wp_intros cache_intros) (auto intro!: step exI [of _ 0] evicted_none)
qed

lemma wp_Evict:
  "wp (Evict E target) (\<lambda>r w'. \<exists>k. evicted E target 0 (oldest_layers (w_db w)) w k r w') w"
proof -
  have "wp (evict_layers E target 0 (oldest_layers (w_db w))) (\<lambda>r w'. \<exists>k. evicted E target 0 (oldest_layers (w_db w)) w k r w') w1"
    if "w_db w1 = w_db w" "files w1 = files w" for w1
    by (rule wp_mono [OF wp_evict_layers]) (simp add: evicted_same [OF that])
  then show ?thesis
    unfolding Evict_def GetOldestCachedLayers_def
    by (intro wp_intros cache_intros) (auto intro!: exI [of _ 0] simp: evicted_def)
qed

lemma mset_without:
  assumes "distinct (map cl_Digest (db_layers d))"
  shows "mset (db_layers (without (take k (oldest_layers d)) d)) = mset (drop k (oldest_layers d))"
proof -
  let ?L = "oldest_layers d"
  let ?P = "\<lambda>r. cl_Digest r \<notin> cl_Digest ` set (take k ?L)"
  have L: "mset ?L = mset (db_layers d)" by (simp add: oldest_layers_def)
  then have "distinct (map cl_Digest (take k ?L @ drop k ?L))"
    using assms by (metis append_take_drop_id mset_eq_imp_distinct_iff mset_map)
  then have "cl_Digest ` set (take k ?L) \<inter> cl_Digest ` set (drop k ?L) = {}"
    by (metis distinct_append list.set_map map_append)
  then have "filter ?P (drop k ?L) = drop k ?L" by (auto simp: filter_id_conv)
  moreover have "filter ?P (take k ?L) = []" by (auto simp: filter_empty_conv)
  ultimately have "filter ?P ?L = drop k ?L" by (metis append_Nil append_take_drop_id filter_append)
  moreover have "mset (filter ?P (db_layers d)) = mset (filter ?P ?L)" by (simp add: L)
  ultimately show ?thesis by (simp add: without_def)
qed

lemma bytes_mset: "mset ls = mset ls' \<Longrightarrow> bytes ls = bytes ls'"
  unfolding bytes_def by (metis mset_map sum_mset_sum_list)

lemma bytes_oldest: "bytes (oldest_layers d) = bytes (db_layers d)"
  by (rule bytes_mset) (simp add: oldest_layers_def)

lemma bytes_drop: "bytes (drop k ls) = bytes ls - bytes (take k ls)"
  by (metis append_take_drop_id bytes_simps(3) add_diff_cancel_left')

lemma wp_StatsI:
  assumes "\<And>w' r. w_db w' = w_db w \<Longrightarrow> files w' = files w \<Longrightarrow>
       \<forall>st. r = Some st \<longrightarrow> cs_TotalBytes st = bytes (db_layers (w_db w)) \<Longrightarrow> Q r w'"
  shows "wp (Stats E) Q w"
  unfolding Stats_def GetCachedLayerStats_def layer_totals_def
  by (intro wp_intros cache_intros)
    (auto simp: sql_of_def files_def bytes_def intro!: wp_drawI assms split: prod.splits option.splits)

lemma wp_CheckAndEvict:
  assumes none: "\<And>w' r. w_db w' = w_db w \<Longrightarrow> files w' = files w \<Longrightarrow>
       snd r \<longrightarrow> bytes (db_layers (w_db w)) \<le> lc_sizeLimit C \<Longrightarrow> fst r = 0 \<Longrightarrow> Q r w'"
    and some: "\<And>w' r k. evicted E (bytes (db_layers (w_db w)) - lc_sizeLimit C) 0 (oldest_layers (w_db w)) w k r w' \<Longrightarrow> Q r w'"
  shows "wp (CheckAndEvict E C) Q w"
proof -
  have evict: "wp (Evict E (bytes (db_layers (w_db w)) - lc_sizeLimit C)) Q w1" if "w_db w1 = w_db w" "files w1 = files w" for w1
    by (rule wp_mono [OF wp_Evict]) (use that in \<open>auto simp: evicted_same [OF that] intro: some\<close>)
  show ?thesis
    unfolding CheckAndEvict_def wp_bind
    by (rule wp_StatsI) (auto split: option.splits intro!: none evict)
qed

subsection \<open>Rows and files\<close>

text \<open>Every row has its tarball, under the name that its digest gives.\<close>

definition has_tarball :: "'h os \<Rightarrow> layerCache \<Rightarrow> (location, string) fmap \<Rightarrow> CachedLayer \<Rightarrow> bool" where
  "has_tarball E C F r \<longleftrightarrow> CHR ''/'' \<notin> set (cl_Digest r) \<and> cl_LocalPath r = cached_path C (cl_Digest r)
     \<and> fmlookup F (locate E (cached_path C (cl_Digest r))) \<noteq> None"

definition backed :: "'h os \<Rightarrow> layerCache \<Rightarrow> 'h cache_world \<Rightarrow> bool" where
  "backed E C w \<longleftrightarrow> distinct (map cl_Digest (db_layers (w_db w))) \<and> list_all (has_tarball E C (files w)) (db_layers (w_db w))"

lemma locate_cached:
  assumes "is_abs (lc_cacheDir C)" and "CHR ''/'' \<notin> set digest"
  shows "locate E (cached_path C digest) = locate E (lc_cacheDir C) @ [digest @ ''.tar.gz'']"
  unfolding cached_path_def using assms by (intro locate_join segment_long) auto

lemma locate_cached_inj:
  assumes "is_abs (lc_cacheDir C)" and "CHR ''/'' \<notin> set d" and "CHR ''/'' \<notin> set d'"
  shows "locate E (cached_path C d) = locate E (cached_path C d') \<longleftrightarrow> d = d'"
  using assms by (simp add: locate_cached)

lemma backed_same: "backed E C w \<Longrightarrow> db_layers (w_db w') = db_layers (w_db w) \<Longrightarrow> files w' = files w \<Longrightarrow> backed E C w'"
  by (simp add: backed_def)

lemma has_tarball_kept:
  "has_tarball E C F r \<Longrightarrow> fmlookup F' (locate E (cached_path C (cl_Digest r))) = fmlookup F (locate E (cached_path C (cl_Digest r))) \<Longrightarrow>
   has_tarball E C F' r"
  by (simp add: has_tarball_def)

lemma backed_touch:
  assumes "backed E C w" and "w_db w' = touch_layer digest t (w_db w)" and "files w' = files w"
  shows "backed E C w'"
  using assms
  by (auto simp: backed_def touch_layer_def comp_def if_distrib [of cl_Digest] list_all_iff has_tarball_def cong: if_cong)

lemma backed_put:
  assumes "backed E C w" and slash: "CHR ''/'' \<notin> set (le_Digest l)"
    and db: "w_db w' = put_layer (layer_row l (cached_path C (le_Digest l)) n s) (w_db w)"
    and here: "fmlookup (files w') (locate E (cached_path C (le_Digest l))) \<noteq> None"
    and rest: "\<forall>m. m \<noteq> locate E (cached_path C (le_Digest l)) \<longrightarrow> fmlookup (files w') m = fmlookup (files w) m"
  shows "backed E C w'"
proof -
  let ?r = "layer_row l (cached_path C (le_Digest l)) n s"
  have old: "has_tarball E C (files w') r" if "r \<in> set (db_layers (w_db w))" for r
  proof -
    have "has_tarball E C (files w) r" using assms(1) that by (simp add: backed_def list_all_iff)
    then show ?thesis
      using here rest by (cases "locate E (cached_path C (cl_Digest r)) = locate E (cached_path C (le_Digest l))")
        (simp_all add: has_tarball_def)
  qed
  have new: "has_tarball E C (files w') ?r" using slash here by (simp add: has_tarball_def layer_row_def)
  have "set (db_layers (w_db w')) \<subseteq> insert ?r (set (db_layers (w_db w)))"
    by (auto simp: db put_layer_def)
  then have "list_all (has_tarball E C (files w')) (db_layers (w_db w'))" using old new by (auto simp: list_all_iff)
  moreover have "distinct (map cl_Digest (db_layers (w_db w')))"
    using assms(1) by (auto simp: db put_layer_def backed_def comp_def list_ex_iff if_distrib [of cl_Digest] cong: if_cong)
  ultimately show ?thesis by (simp add: backed_def)
qed

lemma backed_unrelated:
  assumes "backed E C w" and "is_abs (lc_cacheDir C)" and "CHR ''/'' \<notin> set digest"
    and "digest \<notin> cl_Digest ` set (db_layers (w_db w))" and "w_db w' = w_db w"
    and "\<forall>m. m \<noteq> locate E (cached_path C digest) \<longrightarrow> fmlookup (files w') m = fmlookup (files w) m"
  shows "backed E C w'"
proof -
  have "has_tarball E C (files w') r" if "r \<in> set (db_layers (w_db w))" for r
  proof -
    have r: "has_tarball E C (files w) r" using assms(1) that by (simp add: backed_def list_all_iff)
    then have "locate E (cached_path C (cl_Digest r)) \<noteq> locate E (cached_path C digest)"
      using assms(2-4) that by (auto simp: has_tarball_def locate_cached_inj)
    with r assms(6) show ?thesis by (blast intro: has_tarball_kept)
  qed
  then show ?thesis using assms(1,5) by (auto simp: backed_def list_all_iff)
qed

lemma backed_evicted:
  assumes "backed E C w" and "is_abs (lc_cacheDir C)" and ls: "set ls \<subseteq> set (db_layers (w_db w))"
    and e: "evicted E target freed ls w k r w'"
  shows "backed E C w'"
proof -
  have all: "has_tarball E C (files w) q" if "q \<in> set (db_layers (w_db w))" for q
    using assms(1) that by (simp add: backed_def list_all_iff)
  have left: "db_layers (w_db w') = filter (\<lambda>q. cl_Digest q \<notin> cl_Digest ` set (take k ls)) (db_layers (w_db w))"
    using e by (simp add: evicted_def without_def)
  have "has_tarball E C (files w') q" if "q \<in> set (db_layers (w_db w'))" for q
  proof -
    have q: "q \<in> set (db_layers (w_db w))" "cl_Digest q \<notin> cl_Digest ` set (take k ls)" using that left by auto
    have "locate E (cl_LocalPath l) \<noteq> locate E (cached_path C (cl_Digest q))" if l: "l \<in> set (take k ls)" for l
    proof -
      have "has_tarball E C (files w) l" using all l ls by (meson in_set_takeD subsetD)
      moreover have "cl_Digest l \<noteq> cl_Digest q" using q(2) l by (metis image_eqI)
      ultimately show ?thesis using all [OF q(1)] assms(2) by (simp add: has_tarball_def locate_cached_inj)
    qed
    then have "locate E (cached_path C (cl_Digest q)) \<notin> (\<lambda>l. locate E (cl_LocalPath l)) ` set (take k ls)" by (metis imageE)
    then have "fmlookup (files w') (locate E (cached_path C (cl_Digest q))) = fmlookup (files w) (locate E (cached_path C (cl_Digest q)))"
      using e unfolding evicted_def by blast
    with all [OF q(1)] show ?thesis by (rule has_tarball_kept)
  qed
  moreover have "distinct (map cl_Digest (db_layers (w_db w')))"
    using assms(1) left by (simp add: backed_def distinct_map_filter)
  ultimately show ?thesis by (simp add: backed_def list_all_iff)
qed

lemma find_layer_put:
  "find_layer (cl_Digest r) (put_layer r d) = Some r"
  "digest \<noteq> cl_Digest r \<Longrightarrow> find_layer digest (put_layer r d) = find_layer digest d"
proof -
  have map: "find (\<lambda>q. cl_Digest q = digest) (map (\<lambda>q. if cl_Digest q = cl_Digest r then r else q) ls)
      = (if digest = cl_Digest r then if list_ex (\<lambda>q. cl_Digest q = digest) ls then Some r else None
         else find (\<lambda>q. cl_Digest q = digest) ls)" for ls digest
    by (induction ls) auto
  have snoc: "find P (ls @ [q]) = (case find P ls of None \<Rightarrow> if P q then Some q else None | Some x \<Rightarrow> Some x)"
    for P and ls :: "CachedLayer list" and q by (induction ls) auto
  have none: "\<not> list_ex P ls \<Longrightarrow> find P ls = None" for P and ls :: "CachedLayer list" by (induction ls) auto
  show "find_layer (cl_Digest r) (put_layer r d) = Some r"
    by (simp add: find_layer_def put_layer_def map snoc none)
  show "find_layer digest (put_layer r d) = find_layer digest d" if "digest \<noteq> cl_Digest r"
    using that by (auto simp: find_layer_def put_layer_def map snoc split: option.splits)
qed

lemma wp_GetI:
  assumes "\<And>w'. Q (Inl DatabaseFailed) w'"
    and "\<And>w'. find_layer digest (w_db w) = None \<Longrightarrow> Q (Inr None) w'"
    and "\<And>w' rw. find_layer digest (w_db w) = Some rw \<Longrightarrow> \<not> IsValid (cl_Type rw) \<Longrightarrow> Q (Inl (InvalidType (cl_Type rw))) w'"
    and "\<And>w' rw. find_layer digest (w_db w) = Some rw \<Longrightarrow> row_metadata J (cl_MetadataJSON rw) = None \<Longrightarrow> Q (Inl MetadataFailed) w'"
    and "\<And>w' rw metadata. find_layer digest (w_db w) = Some rw \<Longrightarrow> IsValid (cl_Type rw) \<Longrightarrow>
       row_metadata J (cl_MetadataJSON rw) = Some metadata \<Longrightarrow>
       Q (Inr (Some \<lparr>le_Digest = digest, le_Name = cl_Name rw, le_Version = cl_Version rw, le_Type = cl_Type rw,
           le_SourceURL = cl_SourceURL rw, le_LocalPath = cl_LocalPath rw, le_SizeBytes = cl_SizeBytes rw,
           le_FetchedAt = cl_FetchedAt rw, le_LastUsedAt = cl_LastUsedAt rw, le_Metadata = metadata, le_Files = []\<rparr>)) w'"
  shows "wp (Get E J digest) Q w"
proof (cases "find_layer digest (w_db w)")
  case None
  then show ?thesis unfolding Get_def GetCachedLayer_def by (intro wp_intros cache_intros) (auto simp: assms(1,2))
next
  case (Some rw)
  show ?thesis
  proof (cases "row_metadata J (cl_MetadataJSON rw)")
    case None
    with Some show ?thesis
      unfolding Get_def GetCachedLayer_def by (intro wp_intros cache_intros) (auto simp: assms(1,3,4))
  next
    case (Some m)
    with \<open>find_layer digest (w_db w) = Some rw\<close> show ?thesis
      unfolding Get_def GetCachedLayer_def
      by (intro wp_intros cache_intros) (auto simp: assms(1,3,5) intro!: wp_TouchI)
  qed
qed

section \<open>Properties of the layer cache\<close>

datatype 'v cache_call =
    GetLayer string
  | PutLayer "'v layer_entry"
  | TouchLayer string
  | ExistsLayer string
  | EvictLayers int
  | StatsCall
  | CheckAndEvictCall

text \<open>One call of the cache, and whether it succeeded.\<close>

fun cache_run :: "'h os \<Rightarrow> 'v json \<Rightarrow> layerCache \<Rightarrow> 'v cache_call \<Rightarrow> ('h cache_world, bool) comp" where
  "cache_run E J C (GetLayer digest) = do { r \<leftarrow> Get E J digest; State_Monad.return (\<not> isl r) }"
| "cache_run E J C (PutLayer l) = do { r \<leftarrow> Put E J C l; State_Monad.return (r = None) }"
| "cache_run E J C (TouchLayer digest) = Touch E digest"
| "cache_run E J C (ExistsLayer digest) = do { r \<leftarrow> Exists E digest; State_Monad.return (r \<noteq> None) }"
| "cache_run E J C (EvictLayers target) = do { r \<leftarrow> Evict E target; State_Monad.return (snd r) }"
| "cache_run E J C StatsCall = do { r \<leftarrow> Stats E; State_Monad.return (r \<noteq> None) }"
| "cache_run E J C CheckAndEvictCall = do { r \<leftarrow> CheckAndEvict E C; State_Monad.return (snd r) }"

text \<open>The calls of \<open>Put\<close> that the invariant needs: the digest is a file name, a tarball that is
  said to be in the cache already is there, and the call does not fail half way over an existing entry.\<close>

definition proper :: "'h os \<Rightarrow> layerCache \<Rightarrow> 'h cache_world \<Rightarrow> 'v cache_call \<Rightarrow> bool \<Rightarrow> bool" where
  "proper E C w c ok \<longleftrightarrow> (case c of
     PutLayer l \<Rightarrow> CHR ''/'' \<notin> set (le_Digest l)
       \<and> (le_LocalPath l = cached_path C (le_Digest l) \<longrightarrow> fmlookup (files w) (locate E (le_LocalPath l)) \<noteq> None)
       \<and> (ok \<or> le_Digest l \<notin> cl_Digest ` set (db_layers (w_db w)))
   | _ \<Rightarrow> True)"

lemma oldest_set: "set (oldest_layers d) \<subseteq> set (db_layers d)"
  by (simp add: oldest_layers_def)

lemma wp_cache_backed:
  assumes "backed E C w" and "is_abs (lc_cacheDir C)"
  shows "wp (cache_run E J C c) (\<lambda>ok w'. proper E C w c ok \<longrightarrow> backed E C w') w"
proof (cases c)
  case (PutLayer l)
  have "backed E C w'" if "proper E C w c True" "w_db w' = put_layer (layer_row l (cached_path C (le_Digest l)) n s) (w_db w)"
      "le_LocalPath l = cached_path C (le_Digest l) \<and> files w' = files w
       \<or> (\<exists>x. files w' = fmupd (locate E (cached_path C (le_Digest l))) x (files w))" for w' n s
    by (rule backed_put [OF assms(1) _ that(2)]) (use that(1,3) in \<open>auto simp: proper_def PutLayer\<close>)
  moreover have "backed E C w'" if "proper E C w c False" "w_db w' = w_db w"
      "\<forall>m. m \<noteq> locate E (cached_path C (le_Digest l)) \<longrightarrow> fmlookup (files w') m = fmlookup (files w) m" for w'
    by (rule backed_unrelated [OF assms _ _ that(2,3)]) (use that(1) in \<open>auto simp: proper_def PutLayer\<close>)
  ultimately show ?thesis
    unfolding PutLayer cache_run.simps wp_bind by (intro wp_PutI) (auto simp: PutLayer)
next
  case (EvictLayers target)
  have "wp (Evict E target) (\<lambda>r w'. backed E C w') w"
    by (rule wp_mono [OF wp_Evict]) (use backed_evicted [OF assms oldest_set] in blast)
  then show ?thesis by (simp add: EvictLayers proper_def)
next
  case CheckAndEvictCall
  have "wp (CheckAndEvict E C) (\<lambda>r w'. backed E C w') w"
    by (rule wp_CheckAndEvict) (use backed_evicted [OF assms oldest_set] backed_same [OF assms(1)] in auto)
  then show ?thesis by (simp add: CheckAndEvictCall proper_def)
next
  case StatsCall
  then show ?thesis by (auto intro!: wp_StatsI backed_same [OF assms(1)])
next
  case (GetLayer digest)
  have "wp (Get E J digest) (\<lambda>r w'. backed E C w') w"
    unfolding Get_def GetCachedLayer_def
    by (intro wp_intros cache_intros) (auto intro: backed_same [OF assms(1)] backed_touch [OF assms(1)])
  then show ?thesis by (simp add: GetLayer proper_def)
qed (auto simp: Exists_def CachedLayerExists_def intro!: wp_intros cache_intros
    intro: backed_same [OF assms(1)] backed_touch [OF assms(1)])

text \<open>C36. After a successful \<open>CheckAndEvict\<close> the cache is within its limit. The layers that remain are all but the \<open>k\<close> least
  recently used ones, the returned number is the size of these \<open>k\<close>, and \<open>k\<close> is as small as possible: with fewer evictions
  the cache would exceed its limit.\<close>

theorem CheckAndEvict_within_limit:
  fixes w :: "'h cache_world"
  assumes "run_state (CheckAndEvict E C) w = ((freed, True), w')"
    and "distinct (map cl_Digest (db_layers (w_db w)))" and "0 \<le> lc_sizeLimit C"
  shows "bytes (db_layers (w_db w')) \<le> lc_sizeLimit C
    \<and> (\<exists>k \<le> length (db_layers (w_db w)). mset (db_layers (w_db w')) = mset (drop k (oldest_layers (w_db w)))
         \<and> freed = bytes (take k (oldest_layers (w_db w)))
         \<and> (\<forall>j < k. lc_sizeLimit C < bytes (drop j (oldest_layers (w_db w)))))"
proof -
  let ?L = "oldest_layers (w_db w)"
  define good where "good r w' \<longleftrightarrow> bytes (db_layers (w_db w')) \<le> lc_sizeLimit C
    \<and> (\<exists>k \<le> length (db_layers (w_db w)). mset (db_layers (w_db w')) = mset (drop k ?L)
         \<and> fst r = bytes (take k ?L) \<and> (\<forall>j < k. lc_sizeLimit C < bytes (drop j ?L)))" for r :: "int \<times> bool" and w' :: "'h cache_world"
  have len: "length ?L = length (db_layers (w_db w))" and mset: "mset ?L = mset (db_layers (w_db w))"
    by (simp_all add: oldest_layers_def)
  have evict: "good r w'" if e: "evicted E (bytes (db_layers (w_db w)) - lc_sizeLimit C) 0 ?L w k r w'" and "snd r" for k r w'
  proof -
    have rest: "mset (db_layers (w_db w')) = mset (drop k ?L)"
      using e mset_without [OF assms(2)] by (simp add: evicted_def)
    have "bytes (db_layers (w_db w')) = bytes ?L - fst r"
      using e bytes_mset [OF rest] bytes_drop [of k ?L] unfolding evicted_def by (metis add_0)
    moreover have "bytes (db_layers (w_db w)) - lc_sizeLimit C \<le> fst r \<or> fst r = bytes ?L"
      using e \<open>snd r\<close> by (auto simp: evicted_def)
    ultimately have "bytes (db_layers (w_db w')) \<le> lc_sizeLimit C" using assms(3) by (auto simp: bytes_oldest)
    with e rest show ?thesis by (auto simp: good_def evicted_def bytes_drop bytes_oldest len intro!: exI [of _ k])
  qed
  have "wp (CheckAndEvict E C) (\<lambda>r w'. snd r \<longrightarrow> good r w') w"
  proof (rule wp_CheckAndEvict)
    show "snd r \<longrightarrow> good r w'" if "w_db w' = w_db w" "snd r \<longrightarrow> bytes (db_layers (w_db w)) \<le> lc_sizeLimit C" "fst r = 0" for w' r
      using that by (auto simp: good_def mset intro: exI [of _ 0])
  qed (use evict in blast)
  then show ?thesis using assms(1) by (simp add: wp_def good_def)
qed

text \<open>Every row of the cache has its tarball: each call of the cache keeps this, whatever fails inside it. The one
  exception is a \<open>Put\<close> that fails half way over an entry that exists; it overwrites and removes the old tarball
  while the row stays.\<close>

theorem cache_keeps_tarballs:
  assumes "backed E C w" and "is_abs (lc_cacheDir C)" and "run_state (cache_run E J C c) w = (ok, w')" and "proper E C w c ok"
  shows "backed E C w'"
  using wp_cache_backed [OF assms(1,2), of J c] assms(3,4) by (simp add: wp_def)

text \<open>What \<open>Put\<close> stored \<open>Get\<close> returns: after a successful \<open>Put\<close> of a layer whose tarball lies elsewhere, the
  cache has a copy of the tarball's bytes, \<open>Get\<close> of the digest returns the layer with the path of the copy (or a database error), and
  all other rows and files are as before. The JSON decoder inverts the encoder.\<close>

theorem cache_put_get:
  assumes "run_state (Put E J C l) w = (None, w1)"
    and "locate E (le_LocalPath l) \<noteq> locate E (cached_path C (le_Digest l))"
    and "\<And>p s. js_marshal J p = Some s \<Longrightarrow> s \<noteq> [] \<and> js_unmarshal J s = Some p"
  shows "fmlookup (files w1) (locate E (cached_path C (le_Digest l))) = fmlookup (files w) (locate E (le_LocalPath l))
    \<and> fmlookup (files w) (locate E (le_LocalPath l)) \<noteq> None
    \<and> (\<forall>m. m = locate E (cached_path C (le_Digest l)) \<or> fmlookup (files w1) m = fmlookup (files w) m)
    \<and> (\<forall>digest. digest = le_Digest l \<or> find_layer digest (w_db w1) = find_layer digest (w_db w))
    \<and> (case fst (run_state (Get E J (le_Digest l)) w1) of
        Inl e \<Rightarrow> e = DatabaseFailed
      | Inr None \<Rightarrow> False
      | Inr (Some l') \<Rightarrow> (le_SizeBytes l = 0 \<or> le_SizeBytes l' = le_SizeBytes l)
          \<and> l' = l\<lparr>le_LocalPath := cached_path C (le_Digest l), le_SizeBytes := le_SizeBytes l', le_Files := []\<rparr>)"
proof -
  let ?P = "cached_path C (le_Digest l)"
  have "wp (Put E J C l) (\<lambda>r w'. r = None \<longrightarrow> (\<exists>n s x. IsValid (le_Type l) \<and> marshal_metadata J (le_Metadata l) = Some s
      \<and> w_db w' = put_layer (layer_row l ?P n s) (w_db w) \<and> files w' = fmupd (locate E ?P) x (files w)
      \<and> fmlookup (files w) (locate E (le_LocalPath l)) = Some x \<and> (le_SizeBytes l \<noteq> 0 \<longrightarrow> n = le_SizeBytes l))) w"
    by (rule wp_PutI) (use assms(2) in auto)
  then obtain n s x where put: "IsValid (le_Type l)" "marshal_metadata J (le_Metadata l) = Some s"
      "w_db w1 = put_layer (layer_row l ?P n s) (w_db w)" "files w1 = fmupd (locate E ?P) x (files w)"
      "fmlookup (files w) (locate E (le_LocalPath l)) = Some x" "le_SizeBytes l \<noteq> 0 \<longrightarrow> n = le_SizeBytes l"
    using assms(1) by (auto simp: wp_def)
  have digest: "cl_Digest (layer_row l ?P n s) = le_Digest l" by (simp add: layer_row_def)
  have found: "find_layer (le_Digest l) (w_db w1) = Some (layer_row l ?P n s)"
    using find_layer_put(1) [of "layer_row l ?P n s"] by (simp add: put(3) digest)
  have others: "find_layer d (w_db w1) = find_layer d (w_db w)" if "d \<noteq> le_Digest l" for d
    using that by (simp add: put(3) digest find_layer_put(2))
  have meta: "row_metadata J s = Some (le_Metadata l)"
    using put(2) assms(3) by (auto simp: marshal_metadata_def row_metadata_def split: option.splits)
  have "wp (Get E J (le_Digest l)) (\<lambda>r _. case r of Inl e \<Rightarrow> e = DatabaseFailed | Inr None \<Rightarrow> False
      | Inr (Some l') \<Rightarrow> (le_SizeBytes l = 0 \<or> le_SizeBytes l' = le_SizeBytes l)
          \<and> l' = l\<lparr>le_LocalPath := ?P, le_SizeBytes := le_SizeBytes l', le_Files := []\<rparr>) w1"
    by (rule wp_GetI) (use put(1,6) meta in \<open>auto simp: found layer_row_def\<close>)
  then show ?thesis using others put(4,5) by (auto simp: wp_def split: prod.splits)
qed

subsection \<open>A cache at work\<close>

definition cache_os :: "unit os" where
  "cache_os = \<lparr>of_fault = State_Monad.return False, of_count = State_Monad.return 0, of_kept = State_Monad.return (\<lambda>_. False),
     of_random = State_Monad.return 0, of_now = State_Monad.return 9, of_cwd = ''/''\<rparr>"

definition cache_demo :: layerCache where
  "cache_demo = \<lparr>lc_cacheDir = ''/c'', lc_sizeLimit = 5\<rparr>"

definition json_demo :: "unit json" where
  "json_demo = \<lparr>js_marshal = (\<lambda>_. None), js_unmarshal = (\<lambda>_. None)\<rparr>"

definition entry_demo :: "unit layer_entry" where
  "entry_demo = \<lparr>le_Digest = ''d'', le_Name = ''n'', le_Version = ''1'', le_Type = ''base'', le_SourceURL = ''local:///t'',
     le_LocalPath = ''/t'', le_SizeBytes = 0, le_FetchedAt = 1, le_LastUsedAt = 1, le_Metadata = None, le_Files = []\<rparr>"

definition row_demo :: "string \<Rightarrow> int \<Rightarrow> CachedLayer" where
  "row_demo digest t = \<lparr>cl_Digest = digest, cl_Name = ''n'', cl_Version = ''1'', cl_Type = ''base'', cl_SourceURL = ''local:///t'',
     cl_LocalPath = ''/c/'' @ digest @ ''.tar.gz'', cl_SizeBytes = 3, cl_FetchedAt = t, cl_LastUsedAt = t, cl_MetadataJSON = []\<rparr>"

definition world_demo :: "CachedLayer list \<Rightarrow> (location, string) fmap \<Rightarrow> unit cache_world" where
  "world_demo ls F = \<lparr>w_db = empty_DB\<lparr>db_layers := ls\<rparr>, w_ipam = NewIPAM, w_host = \<lparr>dk_files = F, dk_host = ()\<rparr>\<rparr>"

lemma cache_os_simps [simp]:
  "wp (draw (of_fault cache_os)) Q h = Q False h" "wp (draw (of_now cache_os)) R h = R 9 h" "wp (attempt cache_os) Q h = Q True h"
  by (cases h; simp add: attempt_def draw_def cache_os_def wp_def zoom_def)+

lemma sql_demo [simp]: "wp (sql (sql_of cache_os) f) Q w = Q (Some (fst (f (w_db w)))) (w\<lparr>w_db := snd (f (w_db w))\<rparr>)"
  by (simp add: sql_def sql_of_def)

lemma path_demo [simp]:
  "cached_path cache_demo ''d'' = ''/c/d.tar.gz''" "cached_path cache_demo ''a'' = ''/c/a.tar.gz''" "cached_path cache_demo ''b'' = ''/c/b.tar.gz''"
  "locate cache_os ''/c/d.tar.gz'' = [''c'', ''d.tar.gz'']" "locate cache_os ''/c/a.tar.gz'' = [''c'', ''a.tar.gz'']"
  "locate cache_os ''/c/b.tar.gz'' = [''c'', ''b.tar.gz'']" "locate cache_os ''/t'' = [''t'']"
  by (simp_all add: cached_path_def cache_demo_def) code_simp+

lemma run_wp: "run_state m s = (a, t) \<longleftrightarrow> wp m (\<lambda>r u. r = a \<and> u = t) s"
  by (auto simp: wp_def split: prod.splits)

abbreviation two_rows :: "CachedLayer list" where
  "two_rows \<equiv> [row_demo ''b'' 2, row_demo ''a'' 1]"

abbreviation two_files :: "(location, string) fmap" where
  "two_files \<equiv> fmupd [''c'', ''a.tar.gz''] ''aaa'' (fmupd [''c'', ''b.tar.gz''] ''bbb'' fmempty)"

lemma oldest_demo: "oldest_layers (empty_DB\<lparr>db_layers := two_rows\<rparr>) = [row_demo ''a'' 1, row_demo ''b'' 2]"
  by (simp add: oldest_layers_def row_demo_def)

lemma evict_demo:
  "run_state (CheckAndEvict cache_os cache_demo) (world_demo two_rows two_files)
     = ((3, True), world_demo [row_demo ''b'' 2] (fmdrop [''c'', ''a.tar.gz''] two_files))"
  unfolding run_wp CheckAndEvict_def Stats_def GetCachedLayerStats_def Evict_def GetOldestCachedLayers_def query_def
  by (simp add: world_demo_def layer_totals_def oldest_demo DeleteCachedLayer_def statement_def f_remove_def)
    (simp add: row_demo_def cache_demo_def delete_layer_def)

theorem CheckAndEvict_within_limit_witness:
  "\<exists>w freed w'. run_state (CheckAndEvict cache_os cache_demo) w = ((freed, True), w')
     \<and> freed = 3 \<and> db_layers (w_db w') = [row_demo ''b'' 2] \<and> bytes (db_layers (w_db w')) \<le> lc_sizeLimit cache_demo"
proof -
  have "bytes (db_layers (w_db (world_demo [row_demo ''b'' 2] (fmdrop [''c'', ''a.tar.gz''] two_files)))) \<le> lc_sizeLimit cache_demo"
    using CheckAndEvict_within_limit [OF evict_demo] by (simp add: world_demo_def row_demo_def cache_demo_def)
  then show ?thesis using evict_demo by (fastforce simp: world_demo_def)
qed

theorem cache_keeps_tarballs_witness:
  "backed cache_os cache_demo (world_demo two_rows two_files)
   \<and> backed cache_os cache_demo (world_demo [row_demo ''b'' 2] (fmdrop [''c'', ''a.tar.gz''] two_files))"
proof -
  have start: "backed cache_os cache_demo (world_demo two_rows two_files)"
    by (simp add: backed_def has_tarball_def world_demo_def row_demo_def files_def)
  have "run_state (cache_run cache_os json_demo cache_demo CheckAndEvictCall) (world_demo two_rows two_files)
      = (True, world_demo [row_demo ''b'' 2] (fmdrop [''c'', ''a.tar.gz''] two_files))"
    by (simp add: evict_demo)
  from cache_keeps_tarballs [OF start _ this] start show ?thesis by (simp add: proper_def cache_demo_def)
qed

lemma entry_demo_simps [simp]:
  "le_Digest entry_demo = ''d''" "le_LocalPath entry_demo = ''/t''" "le_SizeBytes entry_demo = 0" "le_Metadata entry_demo = None"
  "le_Type entry_demo = ''base''" "le_Files entry_demo = []"
  by (simp_all add: entry_demo_def)

lemma put_demo:
  "run_state (Put cache_os json_demo cache_demo entry_demo) (world_demo [] (fmupd [''t''] ''xyz'' fmempty))
     = (None, world_demo [layer_row entry_demo ''/c/d.tar.gz'' 3 []] (fmupd [''c'', ''d.tar.gz''] ''xyz'' (fmupd [''t''] ''xyz'' fmempty)))"
  unfolding run_wp Put_def copy_tarball_def PutCachedLayer_def statement_def f_open_def f_create_def f_copy_def Let_def
  by (simp add: marshal_metadata_def IsValid_def LayerTypeBase_def opened_def world_demo_def put_layer_def empty_DB_def)

theorem cache_put_get_witness:
  "\<exists>l'. fst (run_state (Get cache_os json_demo ''d'')
       (world_demo [layer_row entry_demo ''/c/d.tar.gz'' 3 []] (fmupd [''c'', ''d.tar.gz''] ''xyz'' (fmupd [''t''] ''xyz'' fmempty)))) = Inr (Some l')
     \<and> l' = entry_demo\<lparr>le_LocalPath := ''/c/d.tar.gz'', le_SizeBytes := 3\<rparr>"
proof -
  let ?w = "world_demo [layer_row entry_demo ''/c/d.tar.gz'' 3 []] (fmupd [''c'', ''d.tar.gz''] ''xyz'' (fmupd [''t''] ''xyz'' fmempty))"
  have row: "layer_row entry_demo ''/c/d.tar.gz'' 3 [] = row_demo ''d'' 1"
    by (simp add: layer_row_def entry_demo_def row_demo_def)
  have "wp (Get cache_os json_demo ''d'') (\<lambda>r _. \<exists>l'. r = Inr (Some l') \<and> le_SizeBytes l' = 3) ?w"
    unfolding Get_def GetCachedLayer_def query_def Touch_def TouchCachedLayer_def statement_def row
    by (simp add: world_demo_def find_layer_def row_demo_def IsValid_def LayerTypeBase_def row_metadata_def)
  then obtain l' where l': "fst (run_state (Get cache_os json_demo ''d'') ?w) = Inr (Some l')" "le_SizeBytes l' = 3"
    by (auto simp: wp_def split: prod.splits)
  have "locate cache_os (le_LocalPath entry_demo) \<noteq> locate cache_os (cached_path cache_demo (le_Digest entry_demo))"
    by simp
  from cache_put_get [OF put_demo this] l' show ?thesis by (simp add: json_demo_def)
qed

end
