(* ===== verification/Layer_Fetch.thy ===== *)
theory Layer_Fetch
  imports Layer_Cache
begin

section \<open>Fetched layers (internal/layerbuild/fetcher.go)\<close>

text \<open>
  Extraction of a layer's tarball, digests, and the fetchers that work on archives. The readers of gzip and tar,
  SHA-256 and the YAML decoder are libraries, hence parameters; a tar entry is its name, type and data, and
  the data may end with an error. Permission bits are not recorded. The fetcher that packs a local directory
  walks directories and is not modelled.
\<close>

subsection \<open>Archives\<close>

datatype typeflag = TypeDir | TypeReg | OtherType

record tar_entry =
  te_Name :: string
  te_Typeflag :: typeflag
  te_Data :: reader

text \<open>\<open>ar_untar\<close> gives the entries and whether the stream ends properly; \<open>ar_gunzip\<close> fails on a bad header.\<close>

record 'v archive =
  ar_gunzip :: "string \<Rightarrow> string option"
  ar_untar :: "string \<Rightarrow> tar_entry list \<times> bool"
  ar_sha256_hex :: "string \<Rightarrow> string"
  ar_unmarshal :: "string \<Rightarrow> 'v LayerPackage option"

datatype extract_error =
    OpenTarball | GzipReader | ReadEntry | AbsoluteOrParent string | Traversal string
  | MakeDirectory string | MakeFile string | WriteFile string | CloseFile string

definition max_entry_size :: nat where
  "max_entry_size = 10 * 1024 * 1024 * 1024"

text \<open>\<open>io.LimitReader\<close>: what is beyond the limit is never read.\<close>

definition limited :: "nat \<Rightarrow> reader \<Rightarrow> reader" where
  "limited n r = (take n (fst r), n \<le> length (fst r) \<or> snd r)"

definition extract_file :: "'h os \<Rightarrow> string \<Rightarrow> reader \<Rightarrow> ('h disk, extract_error option) comp" where
  "extract_file E target r = do {
     dir \<leftarrow> f_mkdir_all E (path_dir target);
     if \<not> dir then State_Monad.return (Some (MakeDirectory target)) else do {
     made \<leftarrow> f_create E target;
     if \<not> made then State_Monad.return (Some (MakeFile target)) else do {
     copied \<leftarrow> f_copy E target (limited max_entry_size r);
     closed \<leftarrow> attempt E;
     State_Monad.return (if \<not> copied then Some (WriteFile target) else if \<not> closed then Some (CloseFile target) else None) }}}"

definition extract_entry :: "'h os \<Rightarrow> string \<Rightarrow> tar_entry \<Rightarrow> ('h disk, extract_error option) comp" where
  "extract_entry E destDir e = (let cleanName = path_clean (te_Name e); target = path_join [destDir, cleanName] in
     if cleanName = ''.'' then State_Monad.return None
     else if is_abs cleanName \<or> cleanName = dotdot \<or> has_prefix cleanName (dotdot @ ''/'')
       then State_Monad.return (Some (AbsoluteOrParent (te_Name e)))
     else if \<not> has_prefix target (path_clean destDir @ ''/'') \<and> target \<noteq> path_clean destDir
       then State_Monad.return (Some (Traversal (te_Name e)))
     else case te_Typeflag e of
         TypeDir \<Rightarrow> do {
           ok \<leftarrow> f_mkdir_all E target;
           State_Monad.return (if ok then None else Some (MakeDirectory target)) }
       | TypeReg \<Rightarrow> extract_file E target (te_Data e)
       | OtherType \<Rightarrow> State_Monad.return None)"

fun extract_entries :: "'h os \<Rightarrow> string \<Rightarrow> tar_entry list \<Rightarrow> bool \<Rightarrow> ('h disk, extract_error option) comp" where
  "extract_entries E destDir [] ended = State_Monad.return (if ended then None else Some ReadEntry)"
| "extract_entries E destDir (e # es) ended = do {
     r \<leftarrow> extract_entry E destDir e;
     case r of Some err \<Rightarrow> State_Monad.return (Some err) | None \<Rightarrow> extract_entries E destDir es ended }"

definition tar_stream :: "'v archive \<Rightarrow> string \<Rightarrow> string \<Rightarrow> (tar_entry list \<times> bool) option" where
  "tar_stream A tarballPath data =
     (if has_suffix tarballPath ''.gz'' then map_option (ar_untar A) (ar_gunzip A data) else Some (ar_untar A data))"

definition extractTarball :: "'h os \<Rightarrow> 'v archive \<Rightarrow> string \<Rightarrow> string \<Rightarrow> ('h disk, extract_error option) comp" where
  "extractTarball E A tarballPath destDir = do {
     f \<leftarrow> f_open E tarballPath;
     case f of
       Inl _ \<Rightarrow> State_Monad.return (Some OpenTarball)
     | Inr (data, whole) \<Rightarrow>
         (case tar_stream A tarballPath data of
            None \<Rightarrow> State_Monad.return (Some GzipReader)
          | Some (es, ended) \<Rightarrow> extract_entries E destDir es (ended \<and> whole)) }"

subsection \<open>Digests and metadata\<close>

definition calculateDigest :: "'h os \<Rightarrow> 'v archive \<Rightarrow> string \<Rightarrow> ('h disk, (string \<times> int) option) comp" where
  "calculateDigest E A path = do {
     f \<leftarrow> f_open E path;
     State_Monad.return (case f of Inr (x, True) \<Rightarrow> Some (ar_sha256_hex A x, int (length x)) | _ \<Rightarrow> None) }"

datatype digest_error = DigestUnreadable | DigestMismatch string string

definition verifyDigest :: "'h os \<Rightarrow> 'v archive \<Rightarrow> string \<Rightarrow> string \<Rightarrow> ('h disk, digest_error option) comp" where
  "verifyDigest E A path expectedDigest =
     (if expectedDigest = [] then State_Monad.return None else do {
        d \<leftarrow> calculateDigest E A path;
        State_Monad.return (case d of None \<Rightarrow> Some DigestUnreadable
          | Some (actual, _) \<Rightarrow> if actual \<noteq> expectedDigest then Some (DigestMismatch expectedDigest actual) else None) })"

text \<open>\<open>filepath.Ext\<close>: from the last dot of the last component.\<close>

definition path_ext :: "string \<Rightarrow> string" where
  "path_ext p = (let r = takeWhile (\<lambda>c. c \<noteq> CHR ''/'') (rev p) in
     if CHR ''.'' \<in> set r then CHR ''.'' # rev (takeWhile (\<lambda>c. c \<noteq> CHR ''.'') r) else [])"

definition isTarball :: "string \<Rightarrow> bool" where
  "isTarball p \<longleftrightarrow> path_ext p = ''.tar'' \<or> path_ext p = ''.gz'' \<and> has_suffix p ''.tar.gz''"

definition readLayerMetadata :: "'h os \<Rightarrow> 'v archive \<Rightarrow> string \<Rightarrow> ('h disk, 'v LayerPackage option) comp" where
  "readLayerMetadata E A path = do {
     f \<leftarrow> f_open E path;
     State_Monad.return (case f of Inr (x, True) \<Rightarrow> ar_unmarshal A x | _ \<Rightarrow> None) }"

record 'v FetchResult =
  fr_TarballPath :: string
  fr_Digest :: string
  fr_Metadata :: "'v LayerPackage"
  fr_SizeBytes :: int

definition ToCachedLayer :: "'h os \<Rightarrow> 'v FetchResult \<Rightarrow> string \<Rightarrow> ('h disk, 'v layer_entry) comp" where
  "ToCachedLayer E r sourceURL = do {
     fetched \<leftarrow> draw (of_now E);
     used \<leftarrow> draw (of_now E);
     State_Monad.return \<lparr>le_Digest = fr_Digest r, le_Name = lp_Name (fr_Metadata r), le_Version = lp_Version (fr_Metadata r),
       le_Type = lp_Type (fr_Metadata r), le_SourceURL = sourceURL, le_LocalPath = fr_TarballPath r,
       le_SizeBytes = fr_SizeBytes r, le_FetchedAt = fetched, le_LastUsedAt = used, le_Metadata = Some (fr_Metadata r), le_Files = []\<rparr> }"

subsection \<open>Fetching\<close>

datatype fetch_error =
    InvalidSource | EmptySource | TempDirFailed | ExtractFailed extract_error | MetadataUnreadable | DigestFailed
  | CommandFailed

text \<open>Reading the metadata of a tarball: it is extracted below a fresh directory, which is removed again on every path.\<close>

definition inspect_tarball :: "'h os \<Rightarrow> 'v archive \<Rightarrow> string \<Rightarrow> string \<Rightarrow> ('h disk, fetch_error + 'v FetchResult) comp" where
  "inspect_tarball E A tempDir tarballPath = do {
     e \<leftarrow> extractTarball E A tarballPath tempDir;
     case e of
       Some err \<Rightarrow> State_Monad.return (Inl (ExtractFailed err))
     | None \<Rightarrow> do {
         metadata \<leftarrow> readLayerMetadata E A (path_join [tempDir, ''layer.yaml'']);
         case metadata of
           None \<Rightarrow> State_Monad.return (Inl MetadataUnreadable)
         | Some m \<Rightarrow> do {
             d \<leftarrow> calculateDigest E A tarballPath;
             State_Monad.return (case d of None \<Rightarrow> Inl DigestFailed
               | Some (digest, n) \<Rightarrow> Inr \<lparr>fr_TarballPath = tarballPath, fr_Digest = digest, fr_Metadata = m, fr_SizeBytes = n\<rparr>) }}}"

definition fetchFromTarball :: "'h os \<Rightarrow> 'v archive \<Rightarrow> ('h disk, string) comp \<Rightarrow> string \<Rightarrow> string
    \<Rightarrow> ('h disk, fetch_error + 'v FetchResult) comp" where
  "fetchFromTarball E A uuid workDir tarballPath = do {
     u \<leftarrow> uuid;
     let tempDir = path_join [workDir, ''extract-'' @ u];
     dir \<leftarrow> f_mkdir_all E tempDir;
     if \<not> dir then State_Monad.return (Inl TempDirFailed) else do {
     r \<leftarrow> inspect_tarball E A tempDir tarballPath;
     _ \<leftarrow> f_remove_all E tempDir;
     State_Monad.return r }}"

definition trim_prefix :: "string \<Rightarrow> string \<Rightarrow> string" where
  "trim_prefix s p = (if has_prefix s p then drop (length p) s else s)"

text \<open>The docker command is a parameter that may do anything to the files. The container is removed on every path after its
  creation; the exported tarball is kept.\<close>

definition DockerFetcher_Fetch :: "'h os \<Rightarrow> 'v archive \<Rightarrow> ('h disk, string) comp \<Rightarrow> (string list \<Rightarrow> ('h disk, bool) comp) \<Rightarrow> string \<Rightarrow> string
    \<Rightarrow> ('h disk, fetch_error + 'v layer_entry) comp" where
  "DockerFetcher_Fetch E A uuid run workDir source =
     (if \<not> has_prefix source ''docker://'' then State_Monad.return (Inl InvalidSource)
      else let imageName = trim_prefix source ''docker://'' in
      if imageName = [] then State_Monad.return (Inl EmptySource)
      else do {
        u \<leftarrow> uuid;
        let containerName = ''nanofuse-layer-'' @ u;
        created \<leftarrow> run [''docker'', ''create'', ''--name'', containerName, imageName];
        if \<not> created then State_Monad.return (Inl CommandFailed) else do {
        let tarballPath = path_join [workDir, containerName @ ''.tar''];
        exported \<leftarrow> run [''docker'', ''export'', containerName, ''-o'', tarballPath];
        r \<leftarrow> (if \<not> exported then State_Monad.return (Inl CommandFailed)
              else fetchFromTarball E A uuid workDir tarballPath);
        result \<leftarrow> (case r of Inl e \<Rightarrow> State_Monad.return (Inl e)
                   | Inr fr \<Rightarrow> do { l \<leftarrow> ToCachedLayer E fr source; State_Monad.return (Inr l) });
        _ \<leftarrow> run [''docker'', ''rm'', containerName];
        State_Monad.return result }})"

subsection \<open>Retries of the registry fetcher\<close>

text \<open>An error of the registry library: the status and the diagnostic codes when it comes from the transport, and its text. The
  library's code for too many requests is the argument \<open>tooMany\<close>.\<close>

record registry_error =
  re_Transport :: "(nat \<times> string list) option"
  re_Text :: string

definition isRateLimitError :: "string \<Rightarrow> registry_error \<Rightarrow> bool" where
  "isRateLimitError tooMany e = (case re_Transport e of None \<Rightarrow> False
     | Some (status, codes) \<Rightarrow> tooMany \<in> set codes \<or> status = 429)"

datatype registry_failure =
    AuthenticationRequired | AccessDenied | ImageNotFound | RateLimited | RegistryServerError | RegistryStatus nat
  | RegistryHostUnknown | RegistryUnreachable | RegistryTimeout | RegistryOther | RetriesExhausted

definition wrapRegistryError :: "registry_error \<Rightarrow> registry_failure" where
  "wrapRegistryError e = (case re_Transport e of
     Some (status, _) \<Rightarrow>
       if status = 401 then AuthenticationRequired else if status = 403 then AccessDenied
       else if status = 404 then ImageNotFound else if status = 429 then RateLimited
       else if status = 500 \<or> status = 502 \<or> status = 503 then RegistryServerError else RegistryStatus status
   | None \<Rightarrow>
       if contains (re_Text e) ''no such host'' then RegistryHostUnknown
       else if contains (re_Text e) ''connection refused'' then RegistryUnreachable
       else if contains (re_Text e) ''timeout'' \<or> contains (re_Text e) ''deadline exceeded'' then RegistryTimeout
       else RegistryOther)"

text \<open>The loop of \<open>fetchWithRetry\<close>. Pulling and sleeping are computations of the outside world; the doubling wraps around at 64 bits.\<close>

function retry_loop :: "string \<Rightarrow> ('h, registry_error + 'i) comp \<Rightarrow> (int \<Rightarrow> ('h, unit) comp) \<Rightarrow> int \<Rightarrow> int \<Rightarrow> int
    \<Rightarrow> ('h, registry_failure + 'i) comp" where
  "retry_loop tooMany pull sleep maxRetries attempt_no backoff =
     (if attempt_no > maxRetries then State_Monad.return (Inl RetriesExhausted)
      else do {
        _ \<leftarrow> (if attempt_no > 0 then sleep backoff else State_Monad.return ());
        r \<leftarrow> pull;
        case r of
          Inr img \<Rightarrow> State_Monad.return (Inr img)
        | Inl e \<Rightarrow> if isRateLimitError tooMany e
            then retry_loop tooMany pull sleep maxRetries (attempt_no + 1) (if attempt_no > 0 then signed_take_bit 63 (2 * backoff) else backoff)
            else State_Monad.return (Inl (wrapRegistryError e)) })"
  by pat_completeness auto
termination by (relation "measure (\<lambda>(_, _, _, m, n, _). nat (m + 1 - n))") auto

declare retry_loop.simps [simp del]

definition fetchWithRetry :: "string \<Rightarrow> ('h, registry_error + 'i) comp \<Rightarrow> (int \<Rightarrow> ('h, unit) comp) \<Rightarrow> int \<Rightarrow> int \<Rightarrow> ('h, registry_failure + 'i) comp" where
  "fetchWithRetry tooMany pull sleep maxRetries baseBackoff = retry_loop tooMany pull sleep maxRetries 0 baseBackoff"

subsection \<open>Where entries land\<close>

text \<open>Joining a cleaned relative path without leading parents appends its components.\<close>

lemma relative_comps:
  assumes "\<not> is_abs s" and "path_clean s \<noteq> dotdot" and "\<not> has_prefix (path_clean s) (dotdot @ ''/'')"
  shows "dotdot \<notin> set (clean_comps s)"
proof (cases "clean_comps s")
  case (Cons c cs)
  have ok: "stack_ok False (rev (clean_comps s))" using stack_ok_clean_comps [of s] assms(1) by simp
  have "c \<noteq> dotdot" using assms Cons join_dotdot_prefix [of cs] by (auto simp: path_clean_def Let_def)
  moreover have "stack_ok False (rev cs @ [c]) \<Longrightarrow> c \<noteq> dotdot \<Longrightarrow> dotdot \<notin> set cs"
  proof (induction cs rule: rev_induct)
    case (snoc d cs)
    then show ?case by auto
  qed simp
  ultimately show ?thesis using ok Cons by auto
qed simp

lemma foldl_clean_push:
  "(\<forall>c \<in> set cs. c \<noteq> [] \<and> c \<noteq> ''.'' \<and> c \<noteq> dotdot) \<Longrightarrow> foldl (clean_step r) st cs = rev cs @ st"
  by (induction cs arbitrary: st) auto

lemma locate_entry:
  assumes dest: "is_abs destDir" and name: "\<not> is_abs s" "path_clean s \<noteq> ''.''" "path_clean s \<noteq> dotdot"
    "\<not> has_prefix (path_clean s) (dotdot @ ''/'')"
  shows "locate E (path_join [destDir, path_clean s]) = locate E destDir @ clean_comps s" and "clean_comps s \<noteq> []"
proof -
  show ne: "clean_comps s \<noteq> []" using name(1,2) by (auto simp: path_clean_def)
  have comps: "\<forall>c \<in> set (clean_comps s). c \<noteq> [] \<and> c \<noteq> ''.'' \<and> c \<noteq> dotdot"
    using stack_ok_mem [OF stack_ok_clean_comps [of s]] relative_comps [OF name(1,3,4)] by auto
  have d: "destDir \<noteq> []" using dest by auto
  then have abs: "is_abs (destDir @ CHR ''/'' # path_clean s)" using dest by (cases destDir) auto
  have "clean_comps (destDir @ CHR ''/'' # path_clean s) = clean_comps destDir @ clean_comps s"
    unfolding clean_comps_def [of "destDir @ CHR ''/'' # path_clean s"] clean_comps_def [of destDir]
    using abs dest by (simp add: split_on_append split_path_clean_rel [OF name(1) ne] foldl_clean_push [OF comps])
  then show "locate E (path_join [destDir, path_clean s]) = locate E destDir @ clean_comps s"
    using d dest abs by (simp add: locate_def)
qed

definition unpack_entry :: "location \<Rightarrow> tar_entry \<Rightarrow> (location, string) fmap \<Rightarrow> (location, string) fmap" where
  "unpack_entry dest e F = (if te_Typeflag e = TypeReg \<and> clean_comps (te_Name e) \<noteq> []
     then fmupd (dest @ clean_comps (te_Name e)) (take max_entry_size (fst (te_Data e))) F else F)"

definition safe_entry :: "tar_entry \<Rightarrow> bool" where
  "safe_entry e \<longleftrightarrow> \<not> is_abs (te_Name e) \<and> dotdot \<notin> set (clean_comps (te_Name e))"

definition same_outside :: "location \<Rightarrow> (location, string) fmap \<Rightarrow> (location, string) fmap \<Rightarrow> bool" where
  "same_outside dest F F' \<longleftrightarrow> (\<forall>m. below dest m \<or> fmlookup F' m = fmlookup F m)"

lemma same_outside_refl [simp]: "same_outside dest F F"
  by (simp add: same_outside_def)

lemma same_outside_trans: "same_outside dest F G \<Longrightarrow> same_outside dest G H \<Longrightarrow> same_outside dest F H"
  unfolding same_outside_def by metis

lemma same_outside_upd: "cs \<noteq> [] \<Longrightarrow> same_outside dest F (fmupd (dest @ cs) x F)"
  by (cases cs) (auto simp: same_outside_def)

lemma wp_extract_file:
  assumes "locate E target = l"
  shows "wp (extract_file E target r) (\<lambda>e w'. (dk_files w' = dk_files w \<or> (\<exists>x. dk_files w' = fmupd l x (dk_files w)))
     \<and> (e = None \<longrightarrow> dk_files w' = fmupd l (take max_entry_size (fst r)) (dk_files w))) w"
  unfolding extract_file_def by (intro wp_intros file_intros) (auto simp: assms limited_def)

lemma wp_extract_entry:
  assumes dest: "is_abs destDir"
  shows "wp (extract_entry E destDir e) (\<lambda>r w'. same_outside (locate E destDir) (dk_files w) (dk_files w')
     \<and> (r = None \<longrightarrow> safe_entry e \<and> dk_files w' = unpack_entry (locate E destDir) e (dk_files w))) w"
proof -
  let ?n = "path_clean (te_Name e)" and ?d = "locate E destDir"
  consider "?n = ''.''" | "?n \<noteq> ''.''" "is_abs ?n \<or> ?n = dotdot \<or> has_prefix ?n (dotdot @ ''/'')"
    | "?n \<noteq> ''.''" "\<not> is_abs (te_Name e)" "?n \<noteq> dotdot" "\<not> has_prefix ?n (dotdot @ ''/'')" by auto
  then show ?thesis
  proof cases
    case 1
    then have "\<not> is_abs (te_Name e)" "clean_comps (te_Name e) = []"
      using is_abs_path_clean [of "te_Name e"] clean_comps_path_clean [of "te_Name e"] by (simp_all add: clean_comps_def)
    with 1 show ?thesis by (simp add: extract_entry_def Let_def unpack_entry_def safe_entry_def)
  next
    case 2
    then show ?thesis unfolding extract_entry_def Let_def by simp
  next
    case 3
    let ?t = "path_join [destDir, ?n]"
    note loc = locate_entry(1) [OF dest 3(2,1,3,4), of E] locate_entry(2) [OF dest 3(2,1,3,4)]
    have safe: "safe_entry e" using 3 relative_comps by (simp add: safe_entry_def)
    have one_file: "wp (extract_file E ?t (te_Data e)) (\<lambda>r w'. same_outside ?d (dk_files w) (dk_files w')
        \<and> (r = None \<longrightarrow> safe_entry e \<and> dk_files w' = fmupd (?d @ clean_comps (te_Name e)) (take max_entry_size (fst (te_Data e))) (dk_files w))) w"
      by (rule wp_mono [OF wp_extract_file [OF loc(1)]]) (use safe loc(2) in \<open>auto intro: same_outside_upd\<close>)
    have body: "wp (case te_Typeflag e of
          TypeDir \<Rightarrow> do { ok \<leftarrow> f_mkdir_all E ?t; State_Monad.return (if ok then None else Some (MakeDirectory ?t)) }
        | TypeReg \<Rightarrow> extract_file E ?t (te_Data e) | OtherType \<Rightarrow> State_Monad.return None)
        (\<lambda>r w'. same_outside ?d (dk_files w) (dk_files w')
          \<and> (r = None \<longrightarrow> safe_entry e \<and> dk_files w' = unpack_entry ?d e (dk_files w))) w"
      using one_file safe loc(2) by (cases "te_Typeflag e") (auto simp: unpack_entry_def intro!: wp_f_mkdir_allI)
    show ?thesis unfolding extract_entry_def Let_def using 3 body by simp
  qed
qed

definition unpack :: "location \<Rightarrow> tar_entry list \<Rightarrow> (location, string) fmap \<Rightarrow> (location, string) fmap" where
  "unpack dest es F = foldl (\<lambda>F e. unpack_entry dest e F) F es"

lemma wp_extract_entries:
  assumes "is_abs destDir"
  shows "wp (extract_entries E destDir es ended) (\<lambda>r w'. same_outside (locate E destDir) (dk_files w) (dk_files w')
     \<and> (r = None \<longrightarrow> ended \<and> list_all safe_entry es \<and> dk_files w' = unpack (locate E destDir) es (dk_files w))) w"
proof (induction es arbitrary: w)
  case (Cons e es)
  have rest: "wp (extract_entries E destDir es ended) (\<lambda>r w'. same_outside (locate E destDir) (dk_files w) (dk_files w')
     \<and> (r = None \<longrightarrow> ended \<and> list_all safe_entry es \<and> dk_files w' = unpack (locate E destDir) (e # es) (dk_files w))) w1"
    if "same_outside (locate E destDir) (dk_files w) (unpack_entry (locate E destDir) e (dk_files w))"
      "dk_files w1 = unpack_entry (locate E destDir) e (dk_files w)" for w1
    by (rule wp_mono [OF Cons.IH]) (use that in \<open>auto simp: unpack_def intro: same_outside_trans\<close>)
  show ?case
    unfolding extract_entries.simps wp_bind
    by (rule wp_mono [OF wp_extract_entry [OF assms]]) (auto split: option.splits intro!: wp_returnI rest)
qed (simp add: unpack_def)

text \<open>C35. Extracting a tarball to an absolute path, whatever the archive contains and wherever the extraction fails, touches no file outside the destination
  directory. When it succeeds, all names were relative and without parent components after cleaning, the archive was read to its
  proper end, and the files are those of the archive's regular entries, in order, each cut at ten gibibytes; links and other entries leave no file.\<close>

theorem extractTarball_confined:
  fixes w :: "'h disk"
  assumes "is_abs destDir" and "run_state (extractTarball E A tarballPath destDir) w = (r, w')"
  shows "same_outside (locate E destDir) (dk_files w) (dk_files w')
    \<and> (r \<noteq> None \<or> (\<exists>data es. fmlookup (dk_files w) (locate E tarballPath) = Some data \<and> tar_stream A tarballPath data = Some (es, True)
         \<and> list_all safe_entry es \<and> dk_files w' = unpack (locate E destDir) es (dk_files w)))"
proof -
  define good where "good r w' \<longleftrightarrow> same_outside (locate E destDir) (dk_files w) (dk_files w')
    \<and> (r = None \<longrightarrow> (\<exists>data es. fmlookup (dk_files w) (locate E tarballPath) = Some data \<and> tar_stream A tarballPath data = Some (es, True)
         \<and> list_all safe_entry es \<and> dk_files w' = unpack (locate E destDir) es (dk_files w)))"
    for r :: "extract_error option" and w' :: "'h disk"
  have entries: "wp (extract_entries E destDir es (ended \<and> whole)) good w1"
    if "dk_files w1 = dk_files w" "fmlookup (dk_files w) (locate E tarballPath) = Some y" "whole \<longrightarrow> x = y"
      "tar_stream A tarballPath x = Some (es, ended)" for w1 x y es ended whole
    by (rule wp_mono [OF wp_extract_entries [OF assms(1)]]) (use that in \<open>auto simp: good_def\<close>)
  have fail: "good (Some e) w1" if "dk_files w1 = dk_files w" for e w1 using that by (simp add: good_def)
  have "wp (extractTarball E A tarballPath destDir) good w"
    unfolding extractTarball_def wp_bind by (rule wp_f_openI) (auto split: option.splits intro: fail entries)
  then show ?thesis using assms(2) by (auto simp: wp_def good_def)
qed

definition layer_tar :: "unit archive" where
  "layer_tar = \<lparr>ar_gunzip = (\<lambda>_. None),
     ar_untar = (\<lambda>_. ([\<lparr>te_Name = ''./'', te_Typeflag = TypeDir, te_Data = ([], True)\<rparr>,
       \<lparr>te_Name = ''./rootfs//a'', te_Typeflag = TypeReg, te_Data = (''xy'', True)\<rparr>,
       \<lparr>te_Name = ''link'', te_Typeflag = OtherType, te_Data = ([], True)\<rparr>], True)),
     ar_sha256_hex = (\<lambda>x. x), ar_unmarshal = (\<lambda>_. None)\<rparr>"

lemma entry_paths [simp]:
  "path_clean ''./'' = ''.''" "path_clean ''./rootfs//a'' = ''rootfs/a''" "path_clean ''link'' = ''link''" "path_clean ''/out'' = ''/out''"
  "path_join [''/out'', ''rootfs/a''] = ''/out/rootfs/a''" "path_join [''/out'', ''link''] = ''/out/link''"
  "locate cache_os ''/out/rootfs/a'' = [''out'', ''rootfs'', ''a'']" "locate cache_os ''/t.tar'' = [''t.tar'']" "locate cache_os ''/out'' = [''out'']"
  by code_simp+

lemma extract_demo:
  "run_state (extractTarball cache_os layer_tar ''/t.tar'' ''/out'') \<lparr>dk_files = fmupd [''t.tar''] ''tar'' fmempty, dk_host = ()\<rparr>
     = (None, \<lparr>dk_files = fmupd [''out'', ''rootfs'', ''a''] ''xy'' (fmupd [''t.tar''] ''tar'' fmempty), dk_host = ()\<rparr>)"
  unfolding run_wp extractTarball_def f_open_def
  by (simp add: tar_stream_def has_suffix_def layer_tar_def extract_entry_def Let_def extract_file_def f_mkdir_all_def f_create_def f_copy_def
      limited_def max_entry_size_def dotdot_def has_prefix_def del: path_join.simps)

theorem extractTarball_confined_witness:
  "same_outside [''out''] (fmupd [''t.tar''] ''tar'' fmempty) (fmupd [''out'', ''rootfs'', ''a''] ''xy'' (fmupd [''t.tar''] ''tar'' fmempty))"
  using extractTarball_confined [OF _ extract_demo] by simp

text \<open>The retry loop pulls at most \<open>maxRetries + 1\<close> times.\<close>

lemma retry_bounded:
  assumes pull: "\<And>h. wp pull (\<lambda>_ h'. pulls h' \<le> Suc (pulls h)) h" and sleep: "\<And>d h. wp (sleep d) (\<lambda>_ h'. pulls h' = pulls h) h"
  shows "wp (retry_loop tooMany pull sleep maxRetries n backoff) (\<lambda>_ h'. pulls h' \<le> pulls h + nat (maxRetries + 1 - n)) h"
proof (induction "nat (maxRetries + 1 - n)" arbitrary: n backoff h)
  case 0
  then show ?case by (simp add: retry_loop.simps [of tooMany pull sleep maxRetries n backoff])
next
  case (Suc k)
  let ?Q = "\<lambda>_ h'. pulls h' \<le> pulls h + nat (maxRetries + 1 - n)"
  have again: "wp (retry_loop tooMany pull sleep maxRetries (n + 1) b) ?Q h1" if "pulls h1 \<le> Suc (pulls h)" for h1 b
    by (rule wp_mono [OF Suc.hyps(1) [of "n + 1"]]) (use Suc.hyps(2) that in auto)
  have body: "wp pull (\<lambda>r. wp (case r of Inr img \<Rightarrow> State_Monad.return (Inr img)
      | Inl e \<Rightarrow> if isRateLimitError tooMany e
          then retry_loop tooMany pull sleep maxRetries (n + 1) b
          else State_Monad.return (Inl (wrapRegistryError e))) ?Q) h1" if "pulls h1 = pulls h" for h1 b
    by (rule wp_mono [OF pull]) (use that Suc.hyps(2) in \<open>auto split: sum.splits intro!: again\<close>)
  have "\<not> maxRetries < n" using Suc.hyps(2) by linarith
  then show ?case
    unfolding retry_loop.simps [of tooMany pull sleep maxRetries n backoff] using body by (auto intro!: wp_mono [OF sleep])
qed

end
