(* ===== verification/Layer_Order.thy ===== *)
theory Layer_Order
  imports Layer_Manifest
begin

section \<open>The dependency order is a topological order\<close>

text \<open>
  \<open>ResolveDependencies\<close> against its declarative reference. The loop invariant \<open>sorting\<close> says which names
  are counted how often: the count of a name is the number of its dependencies that are not sorted yet, and a name
  has left the count when it is sorted or queued. At the end a name that is not sorted has a dependency
  that is not sorted either, so what is left over contains a cycle.
\<close>

subsection \<open>The reference\<close>

definition depends :: "'v LayerReference list \<Rightarrow> (string \<times> string) set" where
  "depends layers = {(n, d). \<exists>l \<in> set layers. lr_Name l = n \<and> d \<in> set (lr_Dependencies l)}"

text \<open>Every layer comes after the layers it depends on.\<close>

fun dependencies_first :: "string set \<Rightarrow> 'v LayerReference list \<Rightarrow> bool" where
  "dependencies_first seen [] = True"
| "dependencies_first seen (l # ls) =
     (set (lr_Dependencies l) \<subseteq> seen \<and> dependencies_first (insert (lr_Name l) seen) ls)"

lemma dependencies_first_snoc:
  "dependencies_first seen (ls @ [l]) \<longleftrightarrow>
     dependencies_first seen ls \<and> set (lr_Dependencies l) \<subseteq> seen \<union> lr_Name ` set ls"
  by (induction ls arbitrary: seen) auto

lemma finite_depends: "finite (depends layers)"
  by (rule finite_subset [of _ "\<Union>l \<in> set layers. {lr_Name l} \<times> set (lr_Dependencies l)"])
    (auto simp: depends_def)

subsection \<open>The tables\<close>

lemma layer_map_notin: "n \<notin> lr_Name ` set layers \<Longrightarrow> foldl (\<lambda>m l. m(lr_Name l \<mapsto> l)) m layers n = m n"
  by (induction layers arbitrary: m) auto

lemma layer_map_foldl:
  assumes "distinct (map lr_Name layers)" and "l \<in> set layers"
  shows "foldl (\<lambda>m l. m(lr_Name l \<mapsto> l)) m layers (lr_Name l) = Some l"
  using assms by (induction layers arbitrary: m) (auto simp: layer_map_notin)

lemma layer_map_Some: "distinct (map lr_Name layers) \<Longrightarrow> l \<in> set layers \<Longrightarrow> layer_map layers (lr_Name l) = Some l"
  by (simp add: layer_map_def layer_map_foldl)

lemma layer_map_None: "layer_map layers n = None \<longleftrightarrow> n \<notin> lr_Name ` set layers"
proof -
  have "foldl (\<lambda>m l. m(lr_Name l \<mapsto> l)) m layers n \<noteq> None" if "n \<in> lr_Name ` set layers \<or> m n \<noteq> None" for m
    using that by (induction layers arbitrary: m) auto
  from this [of Map.empty] show ?thesis
    using layer_map_notin [of n layers Map.empty] by (metis layer_map_def)
qed

lemma check_dependencies_cases:
  "case check_dependencies m n ds of
     None \<Rightarrow> n \<notin> set ds \<and> (\<forall>d \<in> set ds. m d \<noteq> None)
   | Some e \<Rightarrow> (e = DependsOnItself n \<and> n \<in> set ds) \<or> (\<exists>d \<in> set ds. e = NotInLayerList n d \<and> m d = None)"
  by (induction ds) (auto split: option.splits)

lemma check_layers_cases:
  "case check_layers m ls of
     None \<Rightarrow> \<forall>l \<in> set ls. lr_Name l \<notin> set (lr_Dependencies l) \<and> (\<forall>d \<in> set (lr_Dependencies l). m d \<noteq> None)
   | Some e \<Rightarrow> \<exists>l \<in> set ls. (e = DependsOnItself (lr_Name l) \<and> lr_Name l \<in> set (lr_Dependencies l))
       \<or> (\<exists>d \<in> set (lr_Dependencies l). e = NotInLayerList (lr_Name l) d \<and> m d = None)"
proof (induction ls)
  case (Cons l ls)
  show ?case
    using Cons.IH check_dependencies_cases [where m = m and n = "lr_Name l" and ds = "lr_Dependencies l"]
    by (auto split: option.splits)
qed simp

lemma degree_empty [simp]: "degree fmempty n = 0"
  by (simp add: degree_def)

lemma degree_present: "degree (if fmlookup D m = None then fmupd m 0 D else D) n = degree D n"
  by (auto simp: degree_def)

lemma add_edges_counts:
  "degree (fst (add_edges n ds e)) m = degree (fst e) m + (if m = n then int (length ds) else 0)"
  "count_list (snd (add_edges n ds e) d) m = count_list (snd e d) m + (if m = n then count_list ds d else 0)"
  by (induction n ds e rule: add_edges.induct) auto

lemma count_edges_counts:
  "degree (fst (count_edges ls e)) m
     = degree (fst e) m + (\<Sum>l \<leftarrow> ls. if lr_Name l = m then int (length (lr_Dependencies l)) else 0)"
  "count_list (snd (count_edges ls e) d) m
     = count_list (snd e d) m + (\<Sum>l \<leftarrow> ls. if lr_Name l = m then count_list (lr_Dependencies l) d else 0)"
  by (induction ls e rule: count_edges.induct) (auto simp: add_edges_counts degree_present)

lemma sum_list_absent: "k \<notin> g ` set ls \<Longrightarrow> (\<Sum>x \<leftarrow> ls. if g x = k then f x else (0::'n::comm_monoid_add)) = 0"
  by (induction ls) auto

lemma sum_list_unique:
  assumes "distinct (map g ls)" and "l \<in> set ls"
  shows "(\<Sum>x \<leftarrow> ls. if g x = g l then f x else (0::'n::comm_monoid_add)) = f l"
  using assms
proof (induction ls)
  case (Cons x ls)
  then show ?case by (cases "x = l") (auto simp: sum_list_absent image_iff)
qed simp

subsection \<open>One round of the loop\<close>

text \<open>Releasing the dependents of a name: every count falls by the number of its edges, and the names whose count
  reaches zero are appended to the queue, each once.\<close>

lemma release_counts: "degree (fst (release_dependents ds D q)) m = degree D m - int (count_list ds m)"
  by (induction ds D q rule: release_dependents.induct) auto

lemma release_queue:
  "\<exists>new. snd (release_dependents ds D q) = q @ new \<and> distinct new
     \<and> set new = {m. 0 < degree D m \<and> degree D m \<le> int (count_list ds m)}"
proof (induction ds D q rule: release_dependents.induct)
  case (2 d ds D q)
  let ?D = "fmupd d (degree D d - 1) D"
  from 2 obtain new where new: "snd (release_dependents (d # ds) D q) = (if degree D d - 1 = 0 then q @ [d] else q) @ new"
    "distinct new" "set new = {m. 0 < degree ?D m \<and> degree ?D m \<le> int (count_list ds m)}" by auto
  show ?case
  proof (cases "degree D d = 1")
    case True
    with new have "d \<notin> set new" by simp
    with new True show ?thesis by (intro exI [of _ "d # new"]) auto
  next
    case False
    with new show ?thesis by (intro exI [of _ new]) auto
  qed
qed auto

text \<open>The loop invariant. \<open>S\<close> has the names sorted so far.\<close>

definition unsorted :: "string set \<Rightarrow> 'v LayerReference \<Rightarrow> int" where
  "unsorted S l = int (length (filter (\<lambda>d. d \<notin> S) (lr_Dependencies l)))"

definition sorting :: "'v LayerReference list \<Rightarrow> (string, int) fmap \<Rightarrow> string list \<Rightarrow> 'v LayerReference list \<Rightarrow> bool" where
  "sorting layers D q out \<longleftrightarrow>
     set out \<subseteq> set layers \<and> distinct (map lr_Name out @ q)
     \<and> (\<forall>l \<in> set layers. degree D (lr_Name l) = unsorted (lr_Name ` set out) l)
     \<and> (\<forall>l \<in> set layers. degree D (lr_Name l) = 0 \<longleftrightarrow> lr_Name l \<in> lr_Name ` set out \<union> set q)
     \<and> (\<forall>n. n \<notin> lr_Name ` set layers \<longrightarrow> degree D n = 0 \<and> n \<notin> set q)
     \<and> dependencies_first {} out"

lemma unsorted_insert:
  "d \<notin> S \<Longrightarrow> unsorted (insert d S) l = unsorted S l - int (count_list (lr_Dependencies l) d)"
proof -
  assume d: "d \<notin> S"
  have "length (filter (\<lambda>x. x \<notin> S) ds) = length (filter (\<lambda>x. x \<notin> insert d S) ds) + count_list ds d" for ds
    using d by (induction ds) auto
  then show ?thesis by (simp add: unsorted_def)
qed

lemma unsorted_0: "unsorted S l = 0 \<longleftrightarrow> set (lr_Dependencies l) \<subseteq> S"
  by (auto simp: unsorted_def filter_empty_conv)

lemma unsorted_nonneg: "0 \<le> unsorted S l"
  by (simp add: unsorted_def)

lemma sorting_step:
  assumes sorting: "sorting layers D (lr_Name l # q) out" and l: "l \<in> set layers"
    and edges: "\<And>k. k \<in> set layers \<Longrightarrow> count_list ds (lr_Name k) = count_list (lr_Dependencies k) (lr_Name l)"
    and others: "\<And>n. n \<notin> lr_Name ` set layers \<Longrightarrow> count_list ds n = 0"
  shows "sorting layers (fst (release_dependents ds D q)) (snd (release_dependents ds D q)) (out @ [l])"
proof -
  let ?S = "lr_Name ` set out" and ?n = "lr_Name l"
  from sorting have out: "set out \<subseteq> set layers" and dist: "distinct (map lr_Name out @ ?n # q)"
    and deg: "\<And>k. k \<in> set layers \<Longrightarrow> degree D (lr_Name k) = unsorted ?S k"
    and zero: "\<And>k. k \<in> set layers \<Longrightarrow> degree D (lr_Name k) = 0 \<longleftrightarrow> lr_Name k \<in> ?S \<union> insert ?n (set q)"
    and alien: "\<And>n. n \<notin> lr_Name ` set layers \<Longrightarrow> degree D n = 0 \<and> n \<notin> set (?n # q)"
    and first: "dependencies_first {} out"
    by (auto simp: sorting_def)
  have fresh: "?n \<notin> ?S" using dist by auto
  obtain new where new: "snd (release_dependents ds D q) = q @ new" "distinct new"
    "set new = {m. 0 < degree D m \<and> degree D m \<le> int (count_list ds m)}" using release_queue by blast
  have late: "m \<notin> ?S \<union> insert ?n (set q)" if "m \<in> set new" for m
  proof -
    have pos: "0 < degree D m" using that new(3) by simp
    then obtain k where "k \<in> set layers" "m = lr_Name k" using alien [of m] by (metis image_iff less_irrefl)
    then show ?thesis using zero [of k] pos by simp
  qed
  have deg': "degree (fst (release_dependents ds D q)) (lr_Name k) = unsorted (insert ?n ?S) k" if "k \<in> set layers" for k
    using that fresh by (simp add: release_counts deg edges unsorted_insert)
  have zero': "degree (fst (release_dependents ds D q)) (lr_Name k) = 0 \<longleftrightarrow> lr_Name k \<in> insert ?n ?S \<union> set (q @ new)"
    if "k \<in> set layers" for k
  proof -
    have "0 \<le> degree D (lr_Name k)" and "int (count_list ds (lr_Name k)) \<le> degree D (lr_Name k)"
      using deg [OF that] deg' [OF that] unsorted_nonneg [of "insert ?n ?S" k] unsorted_nonneg [of ?S k]
      by (simp_all add: release_counts)
    then show ?thesis using zero [OF that] by (auto simp: release_counts new(3))
  qed
  have "set (lr_Dependencies l) \<subseteq> ?S" using zero [OF l] deg [OF l] by (simp add: unsorted_0)
  then have "dependencies_first {} (out @ [l])" using first by (simp add: dependencies_first_snoc)
  moreover have "distinct (map lr_Name (out @ [l]) @ q @ new)" using dist new(2) late by auto
  moreover have "degree (fst (release_dependents ds D q)) m = 0 \<and> m \<notin> set (q @ new)" if "m \<notin> lr_Name ` set layers" for m
    using that alien [OF that] new(3) by (simp add: release_counts others)
  ultimately show ?thesis
    unfolding sorting_def new(1) using out l deg' zero' by simp
qed

lemma sort_layers_sorting:
  assumes distinct: "distinct (map lr_Name layers)"
    and edges: "\<And>n k. k \<in> set layers \<Longrightarrow> count_list (dependents n) (lr_Name k) = count_list (lr_Dependencies k) n"
    and others: "\<And>n m. m \<notin> lr_Name ` set layers \<Longrightarrow> count_list (dependents n) m = 0"
    and start: "sorting layers D q out"
  shows "\<exists>result D'. sort_layers (layer_map layers) dependents D q out = Some result \<and> sorting layers D' [] result"
  using edges others start
proof (induction "layer_map layers" dependents D q out rule: sort_layers.induct)
  case (2 dependents D n q out)
  have "n \<in> lr_Name ` set layers" using "2.prems"(3) unfolding sorting_def by (metis list.set_intros(1))
  then obtain l where l: "l \<in> set layers" "n = lr_Name l" by blast
  then have m: "layer_map layers n = Some l" using distinct layer_map_Some by blast
  have "sorting layers (fst (release_dependents (dependents n) D q)) (snd (release_dependents (dependents n) D q)) (out @ [l])"
    using "2.prems" l by (intro sorting_step) auto
  from "2.hyps" [OF m "2.prems"(1,2) this] show ?case by (simp add: m)
qed auto

lemma takeWhile_shorter: "x \<in> set xs \<Longrightarrow> \<not> P x \<Longrightarrow> length (takeWhile P xs) < length xs"
  by (induction xs) auto

lemma dependencies_first_before:
  assumes "dependencies_first {} out" and "distinct (map lr_Name out)" and "(n, d) \<in> depends out"
  shows "length (takeWhile (\<lambda>l. lr_Name l \<noteq> d) out) < length (takeWhile (\<lambda>l. lr_Name l \<noteq> n) out)"
  using assms
proof (induction out rule: rev_induct)
  case (snoc l out)
  have first: "dependencies_first {} out" and deps: "set (lr_Dependencies l) \<subseteq> lr_Name ` set out"
    using snoc.prems(1) by (simp_all add: dependencies_first_snoc)
  have cut: "takeWhile (\<lambda>l. lr_Name l \<noteq> m) (out @ [l]) = takeWhile (\<lambda>l. lr_Name l \<noteq> m) out"
    if "m \<in> lr_Name ` set out" for m
    using that by (auto intro: takeWhile_append1)
  have inside: "m \<in> lr_Name ` set out" if "(k, m) \<in> depends out" for k m
  proof -
    have "dependencies_first seen out \<Longrightarrow> (k, m) \<in> depends out \<Longrightarrow> m \<in> seen \<union> lr_Name ` set out" for seen
      by (induction out arbitrary: seen) (auto simp: depends_def)
    from this [OF first that] show ?thesis by simp
  qed
  show ?case
  proof (cases "(n, d) \<in> depends out")
    case True
    then have "n \<in> lr_Name ` set out" by (auto simp: depends_def)
    with snoc.IH [OF first _ True] inside [OF True] snoc.prems(2) show ?thesis by (simp add: cut)
  next
    case False
    with snoc.prems(3) have n: "n = lr_Name l" and "d \<in> lr_Name ` set out" using deps by (auto simp: depends_def)
    then obtain k where k: "k \<in> set out" "d = lr_Name k" by blast
    have "length (takeWhile (\<lambda>l. lr_Name l \<noteq> d) out) < length out"
      using k by (intro takeWhile_shorter [of k]) auto
    moreover have "takeWhile (\<lambda>l. lr_Name l \<noteq> n) (out @ [l]) = out"
      using snoc.prems(2) n by (subst takeWhile_append2) (force simp: image_iff)+
    ultimately show ?thesis using \<open>d \<in> _\<close> by (simp add: cut)
  qed
qed (simp add: depends_def)

lemma dependencies_first_acyclic:
  assumes "dependencies_first {} out" and "distinct (map lr_Name out)"
  shows "acyclic (depends out)"
proof -
  let ?f = "\<lambda>n. length (takeWhile (\<lambda>l. lr_Name l \<noteq> n) out)"
  have "depends out \<subseteq> (measure ?f)\<inverse>" using dependencies_first_before [OF assms] by auto
  then show ?thesis by (meson acyclic_converse acyclic_subset wf_acyclic wf_measure)
qed

text \<open>What is sorted at the end is everything, unless there is a cycle.\<close>

lemma sorting_end:
  assumes "sorting layers D [] out" and "distinct (map lr_Name layers)"
    and known: "\<forall>l \<in> set layers. set (lr_Dependencies l) \<subseteq> lr_Name ` set layers"
  shows "length out = length layers \<longleftrightarrow> acyclic (depends layers)"
    and "length out = length layers \<Longrightarrow> mset out = mset layers"
proof -
  let ?S = "lr_Name ` set out"
  have out: "set out \<subseteq> set layers" "distinct (map lr_Name out)"
    and zero: "\<And>l. l \<in> set layers \<Longrightarrow> lr_Name l \<in> ?S \<longleftrightarrow> set (lr_Dependencies l) \<subseteq> ?S"
    using assms(1) by (auto simp: sorting_def simp flip: unsorted_0)
  have dl: "distinct layers" "distinct out" using assms(2) out(2) by (auto simp: distinct_map)
  show all: "mset out = mset layers" if "length out = length layers"
    using that out(1) dl by (metis card_subset_eq distinct_card finite_set set_eq_iff_mset_eq_distinct)
  show "length out = length layers \<longleftrightarrow> acyclic (depends layers)"
  proof
    assume "length out = length layers"
    then have "set out = set layers" by (metis all mset_eq_setD)
    then have "depends layers = depends out" by (simp add: depends_def)
    then show "acyclic (depends layers)"
      using assms(1) by (auto simp: sorting_def intro!: dependencies_first_acyclic)
  next
    assume "acyclic (depends layers)"
    then have wf: "wf ((depends layers)\<inverse>)" by (rule finite_acyclic_wf_converse [OF finite_depends])
    have "n \<in> lr_Name ` set layers \<Longrightarrow> n \<in> ?S" for n
      using wf
    proof (induction n)
      case (less n)
      then obtain l where l: "l \<in> set layers" "n = lr_Name l" by blast
      have "d \<in> ?S" if "d \<in> set (lr_Dependencies l)" for d
      proof (rule less(1))
        show "(d, n) \<in> (depends layers)\<inverse>" using l that by (auto simp: depends_def)
        show "d \<in> lr_Name ` set layers" using known l(1) that by blast
      qed
      then show ?case using zero [OF l(1)] l(2) by blast
    qed
    then have "lr_Name ` set layers = ?S" using out(1) by blast
    then show "length out = length layers"
      using assms(2) out(2) by (metis distinct_card length_map list.set_map)
  qed
qed

subsection \<open>ResolveDependencies\<close>

lemma counted_edges:
  assumes "count_edges layers (fmempty, \<lambda>_. []) = (D, dependents)" and "distinct (map lr_Name layers)"
  shows "l \<in> set layers \<Longrightarrow> degree D (lr_Name l) = int (length (lr_Dependencies l))"
    and "l \<in> set layers \<Longrightarrow> count_list (dependents n) (lr_Name l) = count_list (lr_Dependencies l) n"
    and "m \<notin> lr_Name ` set layers \<Longrightarrow> degree D m = 0 \<and> count_list (dependents n) m = 0"
  using count_edges_counts [of layers "(fmempty, \<lambda>_. [])"] assms
  by (simp_all add: sum_list_unique [OF assms(2)] sum_list_absent)

lemma ResolveDependencies_sorts:
  assumes "distinct (map lr_Name layers)" and "check_layers (layer_map layers) layers = None"
  shows "case ResolveDependencies layers of
      Inr out \<Rightarrow> acyclic (depends layers) \<and> mset out = mset layers \<and> dependencies_first {} out
    | Inl e \<Rightarrow> e = CircularDependency \<and> \<not> acyclic (depends layers)"
proof (cases "layers = []")
  case False
  obtain D dependents where e: "count_edges layers (fmempty, \<lambda>_. []) = (D, dependents)" by (cases "count_edges layers (fmempty, \<lambda>_. [])")
  note counts = counted_edges [OF e assms(1)]
  let ?q = "filter (\<lambda>n. degree D n = 0) (map lr_Name layers)"
  have "sorting layers D ?q []"
    using assms(1) counts(1,3) by (auto simp: sorting_def unsorted_def)
  then obtain out D' where out: "sort_layers (layer_map layers) dependents D ?q [] = Some out" "sorting layers D' [] out"
    using sort_layers_sorting [OF assms(1), of dependents D ?q "[]"] counts by blast
  have known: "\<forall>l \<in> set layers. set (lr_Dependencies l) \<subseteq> lr_Name ` set layers"
    using assms(2) check_layers_cases [where m = "layer_map layers" and ls = layers] by (auto simp: layer_map_None)
  have "dependencies_first {} out" using out(2) by (simp add: sorting_def)
  then show ?thesis
    using sorting_end [OF out(2) assms(1) known] by (simp add: ResolveDependencies_def False assms(2) e out(1))
qed (simp add: ResolveDependencies_def acyclic_def depends_def)

text \<open>The table of layers and the lists of dependents mention only names of the list, also when names repeat.\<close>

lemma layer_map_mem: "layer_map layers n = Some l \<Longrightarrow> l \<in> set layers"
proof -
  have "foldl (\<lambda>m l. m(lr_Name l \<mapsto> l)) m layers n = Some l \<Longrightarrow> m n = Some l \<or> l \<in> set layers" for m
  proof (induction layers arbitrary: m)
    case (Cons a layers)
    from Cons.IH [of "m(lr_Name a \<mapsto> a)"] Cons.prems show ?case by (auto split: if_splits)
  qed simp
  from this [of Map.empty] show "layer_map layers n = Some l \<Longrightarrow> l \<in> set layers" by (simp add: layer_map_def)
qed

lemma count_edges_names:
  assumes "count_edges layers (fmempty, \<lambda>_. []) = (D, dependents)"
  shows "set (dependents n) \<subseteq> lr_Name ` set layers"
proof
  fix m
  assume "m \<in> set (dependents n)"
  show "m \<in> lr_Name ` set layers"
  proof (rule ccontr)
    assume "m \<notin> lr_Name ` set layers"
    then have "count_list (dependents n) m = 0"
      using assms count_edges_counts(2) [of layers "(fmempty, \<lambda>_. [])" n m] by (simp add: sum_list_absent)
    with \<open>m \<in> set (dependents n)\<close> show False by (simp add: count_list_0_iff)
  qed
qed

lemma release_names: "set (snd (release_dependents ds D q)) \<subseteq> set q \<union> set ds"
  by (induction ds D q rule: release_dependents.induct) (auto split: if_splits)

lemma sort_layers_total:
  assumes "\<And>n. set (dependents n) \<subseteq> lr_Name ` set layers" and "set q \<subseteq> lr_Name ` set layers"
    and "set out \<subseteq> set layers"
  shows "\<exists>result. sort_layers (layer_map layers) dependents D q out = Some result \<and> set result \<subseteq> set layers"
  using assms
proof (induction "layer_map layers" dependents D q out rule: sort_layers.induct)
  case (2 dependents D n q out)
  then have "layer_map layers n \<noteq> None" by (simp add: layer_map_None)
  then obtain l where l: "layer_map layers n = Some l" by blast
  have "set (snd (release_dependents (dependents n) D q)) \<subseteq> lr_Name ` set layers"
    using release_names [of "dependents n" D q] "2.prems" by fastforce
  from "2.hyps" [OF l "2.prems"(1) this] show ?case using "2.prems"(3) layer_map_mem [OF l] by (simp add: l)
qed simp

section \<open>Properties of the dependency order\<close>

text \<open>C32. For layers with distinct names \<open>ResolveDependencies\<close> returns an order exactly when every dependency is
  in the list and no layer depends on itself, directly or indirectly. The order it returns has exactly the given
  layers, each after all layers it depends on. Otherwise the error names a layer that depends on itself, or a layer
  and a dependency of it that is not in the list, or reports a cycle that exists.\<close>

theorem ResolveDependencies_topological:
  assumes "distinct (map lr_Name layers)"
  shows "(isl (ResolveDependencies layers) \<longleftrightarrow>
      \<not> (Range (depends layers) \<subseteq> lr_Name ` set layers \<and> acyclic (depends layers)))
    \<and> (case ResolveDependencies layers of
        Inr out \<Rightarrow> mset out = mset layers \<and> dependencies_first {} out
      | Inl (DependsOnItself n) \<Rightarrow> (n, n) \<in> depends layers
      | Inl (NotInLayerList n d) \<Rightarrow> (n, d) \<in> depends layers \<and> d \<notin> lr_Name ` set layers
      | Inl CircularDependency \<Rightarrow> \<not> acyclic (depends layers)
      | Inl NilLayer \<Rightarrow> False)"
proof (cases "check_layers (layer_map layers) layers")
  case None
  have "Range (depends layers) \<subseteq> lr_Name ` set layers"
    using None check_layers_cases [where m = "layer_map layers" and ls = layers]
    by (auto simp: layer_map_None depends_def)
  then show ?thesis
    using ResolveDependencies_sorts [OF assms None] by (auto split: sum.splits)
next
  case (Some e)
  have loop: "(n, n) \<in> r \<Longrightarrow> \<not> acyclic r" for n and r :: "(string \<times> string) set" by (auto simp: acyclic_def)
  have result: "ResolveDependencies layers = Inl e" using Some by (auto simp: ResolveDependencies_def)
  from Some check_layers_cases [where m = "layer_map layers" and ls = layers]
  obtain l where l: "l \<in> set layers" and "(e = DependsOnItself (lr_Name l) \<and> lr_Name l \<in> set (lr_Dependencies l))
      \<or> (\<exists>d \<in> set (lr_Dependencies l). e = NotInLayerList (lr_Name l) d \<and> layer_map layers d = None)" by auto
  then consider "e = DependsOnItself (lr_Name l)" "(lr_Name l, lr_Name l) \<in> depends layers"
    | d where "e = NotInLayerList (lr_Name l) d" "(lr_Name l, d) \<in> depends layers" "d \<notin> lr_Name ` set layers"
    by (auto simp: depends_def layer_map_None)
  then show ?thesis by cases (auto simp: result dest: loop)
qed

text \<open>C33. \<open>ResolveDependencies\<close> returns for every list of layers, also with repeated names and
  repeated dependencies: the sorting loop ends and never follows a nil pointer of the table, and a successful result has as many layers
  as the list, all of them from it.\<close>

theorem ResolveDependencies_returns:
  "ResolveDependencies layers \<noteq> Inl NilLayer
   \<and> (case ResolveDependencies layers of Inl _ \<Rightarrow> True | Inr out \<Rightarrow> length out = length layers \<and> set out \<subseteq> set layers)"
proof (cases "layers = [] \<or> check_layers (layer_map layers) layers \<noteq> None")
  case True
  then show ?thesis
    using check_layers_cases [where m = "layer_map layers" and ls = layers] by (auto simp: ResolveDependencies_def)
next
  case False
  obtain D dependents where e: "count_edges layers (fmempty, \<lambda>_. []) = (D, dependents)" by (cases "count_edges layers (fmempty, \<lambda>_. [])")
  obtain out where "sort_layers (layer_map layers) dependents D (filter (\<lambda>n. degree D n = 0) (map lr_Name layers)) [] = Some out"
    "set out \<subseteq> set layers"
    using sort_layers_total [where layers = layers and q = "filter (\<lambda>n. degree D n = 0) (map lr_Name layers)"
      and dependents = dependents and out = "[]" and D = D]
      count_edges_names [OF e] by auto
  with False show ?thesis by (simp add: ResolveDependencies_def e)
qed

definition demo_layer :: "string \<Rightarrow> string list \<Rightarrow> unit LayerReference" where
  "demo_layer n ds = \<lparr>lr_Name = n, lr_Type = ''base'', lr_Source = ''local:///x'', lr_SHA256 = [], lr_Condition = [],
     lr_Required = True, lr_Dependencies = ds, lr_Config = Map.empty\<rparr>"

theorem ResolveDependencies_topological_witness:
  "ResolveDependencies [demo_layer ''app'' [''lib'', ''os''], demo_layer ''lib'' [''os''], demo_layer ''os'' []]
     = Inr [demo_layer ''os'' [], demo_layer ''lib'' [''os''], demo_layer ''app'' [''lib'', ''os'']]
   \<and> acyclic (depends [demo_layer ''app'' [''lib'', ''os''], demo_layer ''lib'' [''os''], demo_layer ''os'' []])"
proof -
  let ?ls = "[demo_layer ''app'' [''lib'', ''os''], demo_layer ''lib'' [''os''], demo_layer ''os'' []]"
  have "ResolveDependencies ?ls = Inr [demo_layer ''os'' [], demo_layer ''lib'' [''os''], demo_layer ''app'' [''lib'', ''os'']]"
    by (simp add: ResolveDependencies_def layer_map_def demo_layer_def degree_def)
  moreover have "distinct (map lr_Name ?ls)" by (simp add: demo_layer_def)
  ultimately show ?thesis using ResolveDependencies_topological [of ?ls] by simp
qed

end
