(* ===== verification/Layer_Compose.thy ===== *)
theory Layer_Compose
  imports Layer_Fetch Layer_Order
begin

section \<open>Composing an image (internal/layerbuild/composer.go, hooks.go)\<close>

text \<open>
  The builder: the manifest is validated, its active layers are put in dependency order, an empty file
  system is made and mounted, and each layer is fetched through the cache, extracted and copied, with
  its hooks and permissions. External commands (\<open>dd\<close>, \<open>mkfs.ext4\<close>, \<open>mount\<close>, \<open>tar\<close>, \<open>cp\<close>, \<open>chroot\<close>, \<open>chown\<close>) are a
  parameter that may do anything to the files; the fetchers are values of the interface \<open>LayerFetcher\<close>. File modes are not
  recorded: whether a hook is executable is decided by the outside. Progress reports and printing are left out.
\<close>

subsection \<open>Structures\<close>

text \<open>The interface \<open>LayerFetcher\<close>. An unknown source type is \<open>None\<close>.\<close>

record ('h, 'v) LayerFetcher =
  ft_Supports :: "SourceType option \<Rightarrow> bool"
  ft_Fetch :: "string \<Rightarrow> ('h disk, 'v layer_entry option) comp"

record BuildManifestLayer =
  bl_Name :: string
  bl_Version :: string
  bl_Digest :: string
  bl_Type :: string
  bl_AppliedAt :: timestamp

record BuildManifest =
  bm_Version :: string
  bm_Name :: string
  bm_BuiltAt :: timestamp
  bm_Layers :: "BuildManifestLayer list"
  bm_KernelVersion :: string
  bm_KernelCmdline :: string

record ComposeResult =
  rs_RootfsPath :: string
  rs_KernelPath :: string
  rs_ManifestPath :: string
  rs_LayersApplied :: "string list"
  rs_TotalSize :: int
  rs_BuildDuration :: int

record 'v ComposeOptions =
  op_Manifest :: "'v ImageManifest option"
  op_Env :: environment
  op_DryRun :: bool

text \<open>The composer with what it needs from outside: commands with their output, whether the process runs as root, whether the
  context was cancelled, whether a file is executable, the parser of octal modes and the JSON encoders.\<close>

record ('h, 'v) Composer =
  cp_workDir :: string
  cp_outputDir :: string
  cp_cache :: layerCache
  cp_json :: "'v json"
  cp_fetchers :: "('h, 'v) LayerFetcher list"
  cp_run :: "string list \<Rightarrow> ('h disk, bool \<times> string) comp"
  cp_is_root :: "('h disk, bool) comp"
  cp_cancelled :: "('h disk, bool) comp"
  cp_executable :: "string \<Rightarrow> ('h disk, bool) comp"
  cp_octal :: "string \<Rightarrow> bool"
  cp_marshal_layer :: "'v LayerPackage option \<Rightarrow> string option"
  cp_marshal_manifest :: "BuildManifest \<Rightarrow> string option"

datatype hook_error =
    InvalidHookPhase | HooksDirectory | HookCopy | HookPermissions | InvalidHook | HookRequiresRoot | HookFailed

datatype apply_error =
    CacheGetFailed cache_error | FetchFailed | NoFetcher | CachePutFailed cache_error | ExtractDirectory | TarFailed
  | PreInstall hook_error | CopyLayerFailed | PermissionsFailed | PostInstall hook_error | RecordFailed

datatype compose_error =
    NilManifest | BadManifest "ValidationError list" | NoActiveLayers | Unresolved resolve_error | FilesystemFailed
  | MountRequiresRoot | MountPointFailed | MountFailed | Cancelled | ApplyFailed string apply_error
  | BuildManifestFailed | ExportManifestFailed | KernelFailed

subsection \<open>Hooks (hooks.go)\<close>

definition f_exists :: "'h os \<Rightarrow> string \<Rightarrow> ('h disk, bool) comp" where
  "f_exists E p = do { r \<leftarrow> f_lstat E p; State_Monad.return (r = Some True) }"

definition f_missing :: "'h os \<Rightarrow> string \<Rightarrow> ('h disk, bool) comp" where
  "f_missing E p = do { r \<leftarrow> f_lstat E p; State_Monad.return (r = Some False) }"

definition findHookScript :: "'h os \<Rightarrow> string \<Rightarrow> string \<Rightarrow> ('h disk, string option) comp" where
  "findHookScript E layerPath hookName = do {
     a \<leftarrow> f_exists E (path_join [layerPath, ''hooks'', hookName]);
     if a then State_Monad.return (Some (path_join [layerPath, ''hooks'', hookName])) else do {
     b \<leftarrow> f_exists E (path_join [layerPath, hookName]);
     State_Monad.return (if b then Some (path_join [layerPath, hookName]) else None) }}"

text \<open>The first line must start with \<open>#!\<close>. An empty file has none, and the scanner gives up on a line that does
  not fit into 64 KiB.\<close>

definition validateHookScript :: "'h os \<Rightarrow> ('h, 'v) Composer \<Rightarrow> string \<Rightarrow> ('h disk, bool) comp" where
  "validateHookScript E P path = do {
     there \<leftarrow> f_exists E path;
     if \<not> there then State_Monad.return False else do {
     x \<leftarrow> cp_executable P path;
     if \<not> x then State_Monad.return False else do {
     r \<leftarrow> f_open E path;
     State_Monad.return (case r of Inl _ \<Rightarrow> False | Inr (s, _) \<Rightarrow> has_prefix s ''#!'' \<and> length (takeWhile (\<lambda>c. c \<noteq> CHR 0x0A) s) < 65536) }}}"

definition copyFile :: "'h os \<Rightarrow> string \<Rightarrow> string \<Rightarrow> ('h disk, bool) comp" where
  "copyFile E src dst = do {
     a \<leftarrow> f_open E src;
     if isl a then State_Monad.return False else do {
     b \<leftarrow> f_create E dst;
     if \<not> b then State_Monad.return False else do {
     r \<leftarrow> f_open E src;
     c \<leftarrow> f_copy E dst (opened r);
     if \<not> c then State_Monad.return False else do {
     st \<leftarrow> f_exists E src;
     if \<not> st then State_Monad.return False else attempt E }}}}"

text \<open>Running a hook inside the image. A timeout, a cancelled context and a failing script are all \<open>HookFailed\<close>.\<close>

definition Execute :: "'h os \<Rightarrow> ('h, 'v) Composer \<Rightarrow> bool \<Rightarrow> string \<Rightarrow> string \<Rightarrow> ('h disk, hook_error option) comp" where
  "Execute E P dryRun rootfsPath scriptPath = do {
     let fullPath = path_join [rootfsPath, scriptPath];
     gone \<leftarrow> f_missing E fullPath;
     if gone then State_Monad.return None else do {
     ok \<leftarrow> validateHookScript E P fullPath;
     if \<not> ok then State_Monad.return (Some InvalidHook)
     else if dryRun then State_Monad.return None else do {
     root \<leftarrow> cp_is_root P;
     if \<not> root then State_Monad.return (Some HookRequiresRoot) else do {
     r \<leftarrow> cp_run P [''chroot'', rootfsPath, scriptPath];
     State_Monad.return (if fst r then None else Some HookFailed) }}}}"

definition ExecuteLayerHooks :: "'h os \<Rightarrow> ('h, 'v) Composer \<Rightarrow> bool \<Rightarrow> string \<Rightarrow> string \<Rightarrow> string \<Rightarrow> string
    \<Rightarrow> ('h disk, hook_error option) comp" where
  "ExecuteLayerHooks E P dryRun rootfsPath layerPath layerName phase =
     (if phase \<noteq> ''pre-install'' \<and> phase \<noteq> ''post-install'' then State_Monad.return (Some InvalidHookPhase)
      else let hookName = phase @ ''.sh'' in do {
        hook \<leftarrow> findHookScript E layerPath hookName;
        case hook of
          None \<Rightarrow> State_Monad.return None
        | Some hookPath \<Rightarrow> do {
            let rootfsHookPath = path_join [''/hooks'', layerName, hookName];
            let full = path_join [rootfsPath, rootfsHookPath];
            dir \<leftarrow> f_mkdir_all E (path_dir full);
            if \<not> dir then State_Monad.return (Some HooksDirectory) else do {
            copied \<leftarrow> (if dryRun then State_Monad.return None else do {
              c \<leftarrow> copyFile E hookPath full;
              if \<not> c then State_Monad.return (Some HookCopy) else do {
              m \<leftarrow> attempt E;
              State_Monad.return (if m then None else Some HookPermissions) }});
            case copied of Some e \<Rightarrow> State_Monad.return (Some e) | None \<Rightarrow> Execute E P dryRun rootfsPath rootfsHookPath }}})"

subsection \<open>Steps of the composer (composer.go)\<close>

text \<open>\<open>recordLayer\<close>, \<open>writeBuildManifest\<close> and \<open>exportBuildManifest\<close> share this.\<close>

definition write_json :: "'h os \<Rightarrow> string \<Rightarrow> string option \<Rightarrow> ('h disk, bool) comp" where
  "write_json E path data = do {
     dir \<leftarrow> f_mkdir_all E (path_dir path);
     case (dir, data) of (True, Some s) \<Rightarrow> f_write_file E path s | _ \<Rightarrow> State_Monad.return False }"

definition recordLayer :: "'h os \<Rightarrow> ('h, 'v) Composer \<Rightarrow> string \<Rightarrow> 'v layer_entry \<Rightarrow> ('h disk, bool) comp" where
  "recordLayer E P path layer = write_json E path (cp_marshal_layer P (le_Metadata layer))"

definition writeBuildManifest :: "'h os \<Rightarrow> ('h, 'v) Composer \<Rightarrow> BuildManifest \<Rightarrow> string \<Rightarrow> ('h disk, bool) comp" where
  "writeBuildManifest E P m mountPoint =
     write_json E (path_join [mountPoint, ''etc'', ''nanofuse'', ''build-manifest.json'']) (cp_marshal_manifest P m)"

definition exportBuildManifest :: "'h os \<Rightarrow> ('h, 'v) Composer \<Rightarrow> BuildManifest \<Rightarrow> string \<Rightarrow> ('h disk, bool) comp" where
  "exportBuildManifest E P m path = write_json E path (cp_marshal_manifest P m)"

definition createExt4Filesystem :: "('h, 'v) Composer \<Rightarrow> string \<Rightarrow> int \<Rightarrow> ('h disk, bool) comp" where
  "createExt4Filesystem P path sizeMB = do {
     dd \<leftarrow> cp_run P [''dd'', ''if=/dev/zero'', ''of='' @ path, ''bs=1M'', ''count='' @ itoa sizeMB];
     if \<not> fst dd then State_Monad.return False else do {
     mkfs \<leftarrow> cp_run P [''mkfs.ext4'', ''-F'', path];
     State_Monad.return (fst mkfs) }}"

definition mountFilesystem :: "'h os \<Rightarrow> ('h, 'v) Composer \<Rightarrow> string \<Rightarrow> ('h disk, compose_error + string) comp" where
  "mountFilesystem E P imagePath = do {
     root \<leftarrow> cp_is_root P;
     if \<not> root then State_Monad.return (Inl MountRequiresRoot) else do {
     let mountPoint = path_join [cp_workDir P, ''mnt''];
     dir \<leftarrow> f_mkdir_all E mountPoint;
     if \<not> dir then State_Monad.return (Inl MountPointFailed) else do {
     m \<leftarrow> cp_run P [''mount'', ''-o'', ''loop'', imagePath, mountPoint];
     State_Monad.return (if fst m then Inr mountPoint else Inl MountFailed) }}}"

definition extractLayer :: "('h, 'v) Composer \<Rightarrow> string \<Rightarrow> string \<Rightarrow> ('h disk, bool) comp" where
  "extractLayer P tarPath destDir = do {
     r \<leftarrow> cp_run P [''tar'', ''-xzf'', tarPath, ''-C'', destDir];
     State_Monad.return (fst r) }"

definition copyLayerFiles :: "'h os \<Rightarrow> ('h, 'v) Composer \<Rightarrow> string \<Rightarrow> string \<Rightarrow> ('h disk, bool) comp" where
  "copyLayerFiles E P srcDir dstDir = do {
     gone \<leftarrow> f_missing E srcDir;
     if gone then State_Monad.return True else do {
     r \<leftarrow> cp_run P [''cp'', ''-a'', srcDir @ ''/.'', dstDir @ ''/''];
     State_Monad.return (fst r \<or> contains (snd r) ''overwrite'') }}"

fun applyFilePermissions :: "'h os \<Rightarrow> ('h, 'v) Composer \<Rightarrow> string \<Rightarrow> FileEntry list \<Rightarrow> ('h disk, bool) comp" where
  "applyFilePermissions E P mountPoint [] = State_Monad.return True"
| "applyFilePermissions E P mountPoint (f # fs) = do {
     let fullPath = path_join [mountPoint, fe_Path f];
     gone \<leftarrow> f_missing E fullPath;
     if gone then applyFilePermissions E P mountPoint fs else do {
     mode \<leftarrow> (if fe_Mode f = [] then State_Monad.return True
              else if \<not> cp_octal P (fe_Mode f) then State_Monad.return False else attempt E);
     if \<not> mode then State_Monad.return False else do {
     root \<leftarrow> (if fe_Owner f = [] then State_Monad.return False else cp_is_root P);
     owned \<leftarrow> (if root \<and> length (split_on CHR '':'' (fe_Owner f)) = 2
               then do { r \<leftarrow> cp_run P [''chown'', fe_Owner f, fullPath]; State_Monad.return (fst r) }
               else State_Monad.return True);
     if owned then applyFilePermissions E P mountPoint fs else State_Monad.return False }}}"

definition copyKernel :: "('h, 'v) Composer \<Rightarrow> string \<Rightarrow> string \<Rightarrow> ('h disk, bool) comp" where
  "copyKernel P source dest =
     (if ParseSourceType source \<noteq> Some SourceTypeLocal then State_Monad.return False else do {
        r \<leftarrow> cp_run P [''cp'', trim_prefix source ''local://'', dest];
        State_Monad.return (fst r) })"

subsection \<open>Applying a layer (composer.go)\<close>

text \<open>The layer from the cache, or fetched and put there. A layer without digest is looked up under its name.\<close>

definition layer_key :: "'v LayerReference \<Rightarrow> string" where
  "layer_key layer = (if lr_SHA256 layer = [] then lr_Name layer else lr_SHA256 layer)"

definition obtain_layer :: "'h os \<Rightarrow> ('h, 'v) Composer \<Rightarrow> 'v LayerReference \<Rightarrow> ('h cache_world, apply_error + 'v layer_entry) comp" where
  "obtain_layer E P layer = do {
     r \<leftarrow> Get E (cp_json P) (layer_key layer);
     case r of
       Inl e \<Rightarrow> State_Monad.return (Inl (CacheGetFailed e))
     | Inr (Some l) \<Rightarrow> State_Monad.return (Inr l)
     | Inr None \<Rightarrow>
         (case find (\<lambda>f. ft_Supports f (ParseSourceType (lr_Source layer))) (cp_fetchers P) of
            None \<Rightarrow> State_Monad.return (Inl NoFetcher)
          | Some f \<Rightarrow> do {
              fetched \<leftarrow> on_host (ft_Fetch f (lr_Source layer));
              case fetched of
                None \<Rightarrow> State_Monad.return (Inl FetchFailed)
              | Some l \<Rightarrow> do {
                  e \<leftarrow> Put E (cp_json P) (cp_cache P) l;
                  State_Monad.return (case e of Some err \<Rightarrow> Inl (CachePutFailed err) | None \<Rightarrow> Inr l) }}) }"

text \<open>What is done with the layer's files; everything but the hooks is skipped in a dry run.\<close>

definition install_layer :: "'h os \<Rightarrow> ('h, 'v) Composer \<Rightarrow> bool \<Rightarrow> string \<Rightarrow> 'v LayerReference \<Rightarrow> 'v layer_entry
    \<Rightarrow> ('h disk, apply_error option) comp" where
  "install_layer E P dryRun mountPoint layer l = do {
     let extractDir = path_join [cp_workDir P, ''extract'', lr_Name layer];
     unpacked \<leftarrow> (if dryRun then State_Monad.return None else do {
       dir \<leftarrow> f_mkdir_all E extractDir;
       if \<not> dir then State_Monad.return (Some ExtractDirectory) else do {
       ok \<leftarrow> extractLayer P (le_LocalPath l) extractDir;
       State_Monad.return (if ok then None else Some TarFailed) }});
     case unpacked of Some e \<Rightarrow> State_Monad.return (Some e) | None \<Rightarrow> do {
     pre \<leftarrow> ExecuteLayerHooks E P dryRun mountPoint extractDir (lr_Name layer) ''pre-install'';
     case pre of Some e \<Rightarrow> State_Monad.return (Some (PreInstall e)) | None \<Rightarrow> do {
     copied \<leftarrow> (if dryRun then State_Monad.return True else copyLayerFiles E P (path_join [extractDir, ''rootfs'']) mountPoint);
     if \<not> copied then State_Monad.return (Some CopyLayerFailed) else do {
     perms \<leftarrow> (case le_Metadata l of
         Some m \<Rightarrow> if lp_Files m \<noteq> [] \<and> \<not> dryRun then applyFilePermissions E P mountPoint (lp_Files m) else State_Monad.return True
       | None \<Rightarrow> State_Monad.return True);
     if \<not> perms then State_Monad.return (Some PermissionsFailed) else do {
     post \<leftarrow> ExecuteLayerHooks E P dryRun mountPoint extractDir (lr_Name layer) ''post-install'';
     case post of Some e \<Rightarrow> State_Monad.return (Some (PostInstall e)) | None \<Rightarrow> do {
     recorded \<leftarrow> (if dryRun then State_Monad.return True
       else recordLayer E P (path_join [mountPoint, ''etc'', ''nanofuse'', ''layers'', lr_Name layer @ ''.json'']) l);
     State_Monad.return (if recorded then None else Some RecordFailed) }}}}}}"

definition applyLayer :: "'h os \<Rightarrow> ('h, 'v) Composer \<Rightarrow> bool \<Rightarrow> string \<Rightarrow> 'v LayerReference
    \<Rightarrow> ('h cache_world, apply_error + BuildManifestLayer) comp" where
  "applyLayer E P dryRun mountPoint layer = do {
     got \<leftarrow> obtain_layer E P layer;
     case got of
       Inl e \<Rightarrow> State_Monad.return (Inl e)
     | Inr l \<Rightarrow> do {
         _ \<leftarrow> Touch E (layer_key layer);
         installed \<leftarrow> on_host (install_layer E P dryRun mountPoint layer l);
         case installed of
           Some e \<Rightarrow> State_Monad.return (Inl e)
         | None \<Rightarrow> do {
             now \<leftarrow> on_host (draw (of_now E));
             State_Monad.return (Inr \<lparr>bl_Name = lr_Name layer, bl_Version = le_Version l, bl_Digest = le_Digest l,
               bl_Type = lr_Type layer, bl_AppliedAt = now\<rparr>) }}}"

text \<open>The loop collects the entries of the build manifest and the names of the applied layers.\<close>

fun apply_layers :: "'h os \<Rightarrow> ('h, 'v) Composer \<Rightarrow> bool \<Rightarrow> string \<Rightarrow> 'v LayerReference list \<Rightarrow> BuildManifestLayer list \<Rightarrow> string list
    \<Rightarrow> ('h cache_world, compose_error + BuildManifestLayer list \<times> string list) comp" where
  "apply_layers E P dryRun mountPoint [] built applied = State_Monad.return (Inr (built, applied))"
| "apply_layers E P dryRun mountPoint (layer # layers) built applied = do {
     cancelled \<leftarrow> on_host (cp_cancelled P);
     if cancelled then State_Monad.return (Inl Cancelled) else do {
     r \<leftarrow> applyLayer E P dryRun mountPoint layer;
     case r of
       Inl e \<Rightarrow> State_Monad.return (Inl (ApplyFailed (lr_Name layer) e))
     | Inr b \<Rightarrow> apply_layers E P dryRun mountPoint layers (built @ [b]) (applied @ [lr_Name layer]) }}"

subsection \<open>Compose\<close>

definition file_size :: "'h os \<Rightarrow> string \<Rightarrow> ('h disk, int) comp" where
  "file_size E path = do {
     ok \<leftarrow> attempt E;
     c \<leftarrow> file_at (locate E path);
     State_Monad.return (case c of Some x \<Rightarrow> if ok then int (length x) else 0 | None \<Rightarrow> 0) }"

text \<open>The steps after the image is mounted at \<open>mountPoint\<close>.\<close>

definition build_image :: "'h os \<Rightarrow> ('h, 'v) Composer \<Rightarrow> bool \<Rightarrow> 'v ImageManifest \<Rightarrow> 'v LayerReference list \<Rightarrow> string \<Rightarrow> string \<Rightarrow> timestamp
    \<Rightarrow> ('h cache_world, compose_error + ComposeResult \<times> BuildManifest) comp" where
  "build_image E P dryRun m layers rootfsPath mountPoint started = do {
     built_at \<leftarrow> on_host (draw (of_now E));
     r \<leftarrow> apply_layers E P dryRun mountPoint layers [] [];
     case r of Inl e \<Rightarrow> State_Monad.return (Inl e) | Inr (built, applied) \<Rightarrow> do {
     let manifest = \<lparr>bm_Version = ''1.0'', bm_Name = im_Name m, bm_BuiltAt = built_at, bm_Layers = built,
       bm_KernelVersion = kc_Version (im_Kernel m), bm_KernelCmdline = kc_Cmdline (im_Kernel m)\<rparr>;
     let manifestPath = path_join [cp_outputDir P, im_Name m @ ''-build-manifest.json''];
     let kernelPath = path_join [cp_outputDir P, ''vmlinux''];
     written \<leftarrow> on_host (if dryRun then State_Monad.return True else writeBuildManifest E P manifest mountPoint);
     if \<not> written then State_Monad.return (Inl BuildManifestFailed) else do {
     exported \<leftarrow> on_host (if dryRun then State_Monad.return True else exportBuildManifest E P manifest manifestPath);
     if \<not> exported then State_Monad.return (Inl ExportManifestFailed) else do {
     kernel \<leftarrow> on_host (if dryRun then State_Monad.return True else copyKernel P (kc_Source (im_Kernel m)) kernelPath);
     if \<not> kernel then State_Monad.return (Inl KernelFailed) else do {
     total \<leftarrow> on_host (if dryRun then State_Monad.return 0 else file_size E rootfsPath);
     ended \<leftarrow> on_host (draw (of_now E));
     State_Monad.return (Inr (\<lparr>rs_RootfsPath = rootfsPath, rs_KernelPath = kernelPath, rs_ManifestPath = manifestPath,
       rs_LayersApplied = applied, rs_TotalSize = total, rs_BuildDuration = ended - started\<rparr>, manifest)) }}}}}"

definition compose_layers :: "'h os \<Rightarrow> ('h, 'v) Composer \<Rightarrow> bool \<Rightarrow> 'v ImageManifest \<Rightarrow> 'v LayerReference list \<Rightarrow> timestamp
    \<Rightarrow> ('h cache_world, compose_error + ComposeResult \<times> BuildManifest) comp" where
  "compose_layers E P dryRun m layers started = do {
     let rootfsPath = path_join [cp_outputDir P, im_Name m @ ''-rootfs.ext4''];
     if dryRun then build_image E P True m layers rootfsPath (path_join [cp_workDir P, ''mnt'']) started
     else do {
       fs \<leftarrow> on_host (createExt4Filesystem P rootfsPath (oc_SizeMB (im_Output m)));
       if \<not> fs then State_Monad.return (Inl FilesystemFailed) else do {
       mounted \<leftarrow> on_host (mountFilesystem E P rootfsPath);
       case mounted of Inl e \<Rightarrow> State_Monad.return (Inl e) | Inr mountPoint \<Rightarrow> do {
       r \<leftarrow> build_image E P False m layers rootfsPath mountPoint started;
       _ \<leftarrow> on_host (cp_run P [''umount'', mountPoint]);
       State_Monad.return r }}}}"

text \<open>The result carries the build manifest, which the code writes into the image and to the output directory.\<close>

definition Compose :: "'h os \<Rightarrow> ('h, 'v) Composer \<Rightarrow> 'v ComposeOptions \<Rightarrow> ('h cache_world, compose_error + ComposeResult \<times> BuildManifest) comp" where
  "Compose E P opts = do {
     started \<leftarrow> on_host (draw (of_now E));
     case op_Manifest opts of
       None \<Rightarrow> State_Monad.return (Inl NilManifest)
     | Some m \<Rightarrow>
         if ValidateManifest m \<noteq> [] then State_Monad.return (Inl (BadManifest (ValidateManifest m)))
         else if EvaluateConditions m (op_Env opts) = [] then State_Monad.return (Inl NoActiveLayers)
         else (case ResolveDependencies (EvaluateConditions m (op_Env opts)) of
             Inl e \<Rightarrow> State_Monad.return (Inl (Unresolved e))
           | Inr layers \<Rightarrow> compose_layers E P (op_DryRun opts) m layers started) }"

subsection \<open>What a build contains\<close>

lemma wp_anyI: "(\<And>a t. Q a t) \<Longrightarrow> wp m Q s"
  by (simp add: wp_iff_run)

lemma wp_prodI: "(\<And>a b. p = (a, b) \<Longrightarrow> wp (f a b) Q s) \<Longrightarrow> wp (case p of (a, b) \<Rightarrow> f a b) Q s"
  by (simp split: prod.split)

lemma wp_applyLayer: "wp (applyLayer E P dryRun mountPoint layer) (\<lambda>r _. case r of Inl _ \<Rightarrow> True
    | Inr b \<Rightarrow> bl_Name b = lr_Name layer \<and> bl_Type b = lr_Type layer) w"
  unfolding applyLayer_def by (intro wp_bindI wp_sumI wp_optionI wp_returnI wp_anyI) simp_all

text \<open>What a list of manifest entries and a list of names say about the layers.\<close>

definition lists_layers :: "BuildManifestLayer list \<Rightarrow> string list \<Rightarrow> 'v LayerReference list \<Rightarrow> bool" where
  "lists_layers bs names layers \<longleftrightarrow> names = map lr_Name layers
     \<and> map (\<lambda>b. (bl_Name b, bl_Type b)) bs = map (\<lambda>l. (lr_Name l, lr_Type l)) layers"

lemma lists_layers_Nil [simp]: "lists_layers [] [] []"
  by (simp add: lists_layers_def)

lemma lists_layers_snoc [simp]:
  "bl_Name b = lr_Name l \<Longrightarrow> bl_Type b = lr_Type l \<Longrightarrow> lists_layers bs ns ls \<Longrightarrow> lists_layers (bs @ [b]) (ns @ [lr_Name l]) (ls @ [l])"
  by (simp add: lists_layers_def)

lemma wp_apply_layers:
  assumes "lists_layers built applied before"
  shows "wp (apply_layers E P dryRun mountPoint layers built applied)
    (\<lambda>r _. case r of Inl _ \<Rightarrow> True | Inr (bs, names) \<Rightarrow> lists_layers bs names (before @ layers)) w"
  using assms
proof (induction layers arbitrary: built applied before w)
  case (Cons layer layers)
  let ?Q = "\<lambda>r _. case r of Inl _ \<Rightarrow> True | Inr (bs, names) \<Rightarrow> lists_layers bs names (before @ layer # layers)"
  have rest: "wp (apply_layers E P dryRun mountPoint layers (built @ [b]) (applied @ [lr_Name layer])) ?Q w1"
    if "bl_Name b = lr_Name layer" "bl_Type b = lr_Type layer" for b w1
    using Cons.IH [of "built @ [b]" "applied @ [lr_Name layer]" "before @ [layer]" w1] that Cons.prems
    unfolding append_assoc append.simps by simp
  have apply_one: "wp (applyLayer E P dryRun mountPoint layer) (\<lambda>r. wp (case r of Inl e \<Rightarrow> State_Monad.return (Inl (ApplyFailed (lr_Name layer) e))
      | Inr b \<Rightarrow> apply_layers E P dryRun mountPoint layers (built @ [b]) (applied @ [lr_Name layer])) ?Q) w1" for w1
    by (rule wp_mono [OF wp_applyLayer]) (auto split: sum.splits intro!: rest)
  show ?case unfolding apply_layers.simps by (intro wp_intros wp_hostI) (use apply_one in simp_all)
qed simp

definition names_layers :: "'v LayerReference list \<Rightarrow> compose_error + ComposeResult \<times> BuildManifest \<Rightarrow> bool" where
  "names_layers layers r \<longleftrightarrow> (case r of Inl _ \<Rightarrow> True | Inr (res, bm) \<Rightarrow> lists_layers (bm_Layers bm) (rs_LayersApplied res) layers)"

lemma wp_apply_layersI:
  assumes "\<And>bs names w2. lists_layers bs names layers \<Longrightarrow> Q (Inr (bs, names)) w2" and "\<And>e w2. Q (Inl e) w2"
  shows "wp (apply_layers E P dryRun mountPoint layers [] []) Q w"
  by (rule wp_mono [OF wp_apply_layers [of "[]" "[]" "[]"]]) (auto split: sum.splits intro: assms)

lemma wp_build_image: "wp (build_image E P dryRun m layers rootfsPath mountPoint started) (\<lambda>r _. names_layers layers r) w"
  unfolding build_image_def Let_def
  by (intro wp_bindI wp_sumI wp_prodI wp_ifI wp_returnI wp_apply_layersI wp_anyI) (simp_all add: names_layers_def)

lemma wp_build_imageI:
  "(\<And>r w2. names_layers layers r \<Longrightarrow> Q r w2) \<Longrightarrow> wp (build_image E P dryRun m layers rootfsPath mountPoint started) Q w"
  by (rule wp_mono [OF wp_build_image])

lemma wp_compose_layers: "wp (compose_layers E P dryRun m layers started) (\<lambda>r _. names_layers layers r) w"
  unfolding compose_layers_def Let_def
  by (intro wp_bindI wp_sumI wp_ifI wp_returnI wp_build_imageI wp_anyI) (simp_all add: names_layers_def)

text \<open>C34. When a build succeeds, the manifest passed validation, and the layers that were applied, in this order, are exactly the layers
  whose condition holds, each after the layers it depends on; the build manifest that is written into the image
  lists them in the same order. This is for manifests whose layers have distinct names, which the validation does not check; the order is the one in which
  the names were recorded as applied.\<close>

theorem Compose_applies_in_order:
  assumes "run_state (Compose E P opts) w = (Inr (result, built), w')" and "op_Manifest opts = Some m"
    and "distinct (map lr_Name (im_Layers m))"
  shows "ValidateManifest m = []
    \<and> (\<exists>layers. mset layers = filter_mset (\<lambda>l. shouldIncludeLayer l (op_Env opts)) (mset (im_Layers m))
        \<and> dependencies_first {} layers \<and> rs_LayersApplied result = map lr_Name layers
        \<and> map (\<lambda>b. (bl_Name b, bl_Type b)) (bm_Layers built) = map (\<lambda>l. (lr_Name l, lr_Type l)) layers)"
proof -
  let ?active = "EvaluateConditions m (op_Env opts)"
  have distinct: "distinct (map lr_Name ?active)"
    using assms(3) by (simp add: EvaluateConditions_def distinct_map_filter)
  have "wp (Compose E P opts) (\<lambda>r _. \<not> isl r \<longrightarrow> ValidateManifest m = []
      \<and> (\<exists>layers. ResolveDependencies ?active = Inr layers \<and> names_layers layers r)) w"
    unfolding Compose_def wp_bind
    by (rule wp_hostI) (auto simp: assms(2) split: sum.splits intro!: wp_mono [OF wp_compose_layers])
  then obtain layers where "ValidateManifest m = []" and layers: "ResolveDependencies ?active = Inr layers" "names_layers layers (Inr (result, built))"
    using assms(1) by (auto simp: wp_def)
  have "check_layers (layer_map ?active) ?active = None"
    using layers(1) by (auto simp: ResolveDependencies_def Let_def split: if_splits option.splits)
  then have "mset layers = mset ?active \<and> dependencies_first {} layers"
    using ResolveDependencies_sorts [OF distinct] layers(1) by simp
  with layers(2) \<open>ValidateManifest m = []\<close> show ?thesis by (auto simp: names_layers_def lists_layers_def EvaluateConditions_def)
qed

subsection \<open>A build\<close>

text \<open>A manifest with one layer from a registry, and a fetcher that delivers a layer with another digest.\<close>

definition pinned_layer :: "unit LayerReference" where
  "pinned_layer = \<lparr>lr_Name = ''os'', lr_Type = ''base'', lr_Source = ''registry://r/os:1'', lr_SHA256 = ''aa'', lr_Condition = [],
     lr_Required = True, lr_Dependencies = [], lr_Config = Map.empty\<rparr>"

definition pinned_manifest :: "unit ImageManifest" where
  "pinned_manifest = \<lparr>im_Version = ''1.0'', im_Name = ''img'', im_Description = [],
     im_Kernel = \<lparr>kc_Version = ''6'', kc_Source = ''local:///k'', kc_SHA256 = [], kc_Cmdline = ''quiet''\<rparr>,
     im_Layers = [pinned_layer], im_Output = DefaultOutputConfig\<rparr>"

definition pinned_options :: "unit ComposeOptions" where
  "pinned_options = \<lparr>op_Manifest = Some pinned_manifest, op_Env = Map.empty, op_DryRun = False\<rparr>"

definition demo_composer :: "(unit, unit) Composer" where
  "demo_composer = \<lparr>cp_workDir = ''/w'', cp_outputDir = ''/o'', cp_cache = cache_demo, cp_json = json_demo,
     cp_fetchers = [\<lparr>ft_Supports = (\<lambda>t. t = Some SourceTypeRegistry), ft_Fetch = (\<lambda>_. State_Monad.return (Some entry_demo))\<rparr>],
     cp_run = (\<lambda>_. State_Monad.return (True, [])), cp_is_root = State_Monad.return True, cp_cancelled = State_Monad.return False,
     cp_executable = (\<lambda>_. State_Monad.return True), cp_octal = (\<lambda>_. True), cp_marshal_layer = (\<lambda>_. Some ''l''),
     cp_marshal_manifest = (\<lambda>_. Some ''m'')\<rparr>"

lemma compose_paths [simp]:
  "path_join [''/o'', ''img-rootfs.ext4''] = ''/o/img-rootfs.ext4''" "path_join [''/w'', ''mnt''] = ''/w/mnt''"
  "path_join [''/w'', ''extract'', ''os''] = ''/w/extract/os''" "path_join [''/w/extract/os'', ''rootfs''] = ''/w/extract/os/rootfs''"
  "path_join [''/w/extract/os'', ''hooks'', ''pre-install.sh''] = ''/w/extract/os/hooks/pre-install.sh''"
  "path_join [''/w/extract/os'', ''pre-install.sh''] = ''/w/extract/os/pre-install.sh''"
  "path_join [''/w/extract/os'', ''hooks'', ''post-install.sh''] = ''/w/extract/os/hooks/post-install.sh''"
  "path_join [''/w/extract/os'', ''post-install.sh''] = ''/w/extract/os/post-install.sh''"
  "path_join [''/w/mnt'', ''etc'', ''nanofuse'', ''layers'', ''os.json''] = ''/w/mnt/etc/nanofuse/layers/os.json''"
  "path_join [''/w/mnt'', ''etc'', ''nanofuse'', ''build-manifest.json''] = ''/w/mnt/etc/nanofuse/build-manifest.json''"
  "path_join [''/o'', ''img-build-manifest.json''] = ''/o/img-build-manifest.json''" "path_join [''/o'', ''vmlinux''] = ''/o/vmlinux''"
  by code_simp+

lemma compose_locations [simp]:
  "locate cache_os ''/w/extract/os/hooks/pre-install.sh'' = [''w'', ''extract'', ''os'', ''hooks'', ''pre-install.sh'']"
  "locate cache_os ''/w/extract/os/pre-install.sh'' = [''w'', ''extract'', ''os'', ''pre-install.sh'']"
  "locate cache_os ''/w/extract/os/hooks/post-install.sh'' = [''w'', ''extract'', ''os'', ''hooks'', ''post-install.sh'']"
  "locate cache_os ''/w/extract/os/post-install.sh'' = [''w'', ''extract'', ''os'', ''post-install.sh'']"
  "locate cache_os ''/w/extract/os/rootfs'' = [''w'', ''extract'', ''os'', ''rootfs'']"
  "locate cache_os ''/o/img-rootfs.ext4'' = [''o'', ''img-rootfs.ext4'']"
  "locate cache_os ''/w/mnt/etc/nanofuse/layers/os.json'' = [''w'', ''mnt'', ''etc'', ''nanofuse'', ''layers'', ''os.json'']"
  "locate cache_os ''/w/mnt/etc/nanofuse/build-manifest.json'' = [''w'', ''mnt'', ''etc'', ''nanofuse'', ''build-manifest.json'']"
  "locate cache_os ''/o/img-build-manifest.json'' = [''o'', ''img-build-manifest.json'']"
  by code_simp+

lemma pinned_valid: "ValidateManifest pinned_manifest = []" "map lr_Name (EvaluateConditions pinned_manifest Map.empty) = [''os'']"
  by code_simp+

lemma pinned_active: "EvaluateConditions pinned_manifest Map.empty = [pinned_layer]"
  using pinned_valid(2) by (auto simp: EvaluateConditions_def pinned_manifest_def split: if_splits)

lemma pinned_order: "ResolveDependencies [pinned_layer] = Inr [pinned_layer]"
  by (simp add: ResolveDependencies_def layer_map_def pinned_layer_def degree_def)

lemma pinned_source: "ParseSourceType ''registry://r/os:1'' = Some SourceTypeRegistry" "ParseSourceType ''local:///k'' = Some SourceTypeLocal"
  by code_simp+

lemma put_demo_wp:
  "wp (Put cache_os json_demo cache_demo entry_demo) Q (world_demo [] (fmupd [''t''] ''xyz'' fmempty))
     = Q None (world_demo [layer_row entry_demo ''/c/d.tar.gz'' 3 []] (fmupd [''c'', ''d.tar.gz''] ''xyz'' (fmupd [''t''] ''xyz'' fmempty)))"
  using put_demo by (simp add: wp_def)

lemma get_demo: "wp (Get cache_os json_demo ''aa'') Q (world_demo [] F) = Q (Inr None) (world_demo [] F)"
  unfolding Get_def GetCachedLayer_def query_def by (simp add: world_demo_def find_layer_def)

lemma touch_demo: "wp (Touch cache_os ''aa'') Q (world_demo [layer_row entry_demo ''/c/d.tar.gz'' 3 []] F)
   = Q True (world_demo [layer_row entry_demo ''/c/d.tar.gz'' 3 []] F)"
  unfolding Touch_def TouchCachedLayer_def statement_def
  by (simp add: world_demo_def find_layer_def touch_layer_def layer_row_def entry_demo_def)

lemma obtain_pinned:
  "wp (obtain_layer cache_os demo_composer pinned_layer) Q (world_demo [] (fmupd [''t''] ''xyz'' fmempty))
    = Q (Inr entry_demo) (world_demo [layer_row entry_demo ''/c/d.tar.gz'' 3 []] (fmupd [''c'', ''d.tar.gz''] ''xyz'' (fmupd [''t''] ''xyz'' fmempty)))"
  unfolding obtain_layer_def 
  by (simp add: layer_key_def pinned_layer_def demo_composer_def pinned_source get_demo put_demo_wp)

declare path_join.simps [simp del]

lemma demo_composer_simps [simp]:
  "cp_workDir demo_composer = ''/w''" "cp_outputDir demo_composer = ''/o''" "cp_cache demo_composer = cache_demo" "cp_json demo_composer = json_demo"
  "cp_run demo_composer c = State_Monad.return (True, [])" "cp_is_root demo_composer = State_Monad.return True"
  "cp_cancelled demo_composer = State_Monad.return False" "cp_marshal_layer demo_composer m = Some ''l''"
  "cp_marshal_manifest demo_composer b = Some ''m''"
  by (simp_all add: demo_composer_def)

lemma pinned_layer_simps [simp]: "lr_Name pinned_layer = ''os''" "lr_Type pinned_layer = ''base''" "layer_key pinned_layer = ''aa''"
  by (simp_all add: pinned_layer_def layer_key_def)

lemma occupied_upd [simp]: "occupied (fmupd l x F) d \<longleftrightarrow> l = d \<or> below d l \<or> occupied F d" and occupied_empty [simp]: "\<not> occupied fmempty d"
  by (auto simp: occupied_def)

lemma install_pinned:
  "wp (install_layer cache_os demo_composer False ''/w/mnt'' pinned_layer entry_demo) Q \<lparr>dk_files = (fmupd [''c'', ''d.tar.gz''] ''xyz'' (fmupd [''t''] ''xyz'' fmempty)), dk_host = ()\<rparr>
    = Q None \<lparr>dk_files = fmupd [''w'', ''mnt'', ''etc'', ''nanofuse'', ''layers'', ''os.json''] ''l'' (fmupd [''c'', ''d.tar.gz''] ''xyz'' (fmupd [''t''] ''xyz'' fmempty)), dk_host = ()\<rparr>"
  unfolding install_layer_def extractLayer_def ExecuteLayerHooks_def copyLayerFiles_def recordLayer_def write_json_def f_write_file_def
    findHookScript_def f_exists_def f_missing_def
  by (simp add: Let_def f_mkdir_all_def f_create_def f_copy_def f_lstat_def below_def)

lemma pinned_manifest_simps [simp]:
  "im_Name pinned_manifest = ''img''" "kc_Source (im_Kernel pinned_manifest) = ''local:///k''" "im_Layers pinned_manifest = [pinned_layer]"
  by (simp_all add: pinned_manifest_def)

lemma world_demo_host [simp]:
  "w_host (world_demo rows F) = \<lparr>dk_files = F, dk_host = ()\<rparr>"
  "(world_demo rows F)\<lparr>w_host := \<lparr>dk_files = G, dk_host = u\<rparr>\<rparr> = world_demo rows G"
  by (simp_all add: world_demo_def)

lemma compose_pinned:
  "wp (Compose cache_os demo_composer pinned_options) (\<lambda>r _. \<exists>res built. r = Inr (res, built)
     \<and> map (\<lambda>b. (bl_Name b, bl_Digest b)) (bm_Layers built) = [(''os'', ''d'')]) (world_demo [] (fmupd [''t''] ''xyz'' fmempty))"
  unfolding Compose_def compose_layers_def build_image_def applyLayer_def
    createExt4Filesystem_def mountFilesystem_def writeBuildManifest_def exportBuildManifest_def write_json_def f_write_file_def copyKernel_def file_size_def
  by (simp add: pinned_options_def pinned_valid pinned_active pinned_order obtain_pinned touch_demo install_pinned Let_def
    f_mkdir_all_def f_create_def f_copy_def pinned_source file_at_def applyLayer_def)

theorem Compose_applies_in_order_witness:
  "\<exists>result built w' layers. run_state (Compose cache_os demo_composer pinned_options) (world_demo [] (fmupd [''t''] ''xyz'' fmempty)) = (Inr (result, built), w')
     \<and> mset layers = {#pinned_layer#} \<and> rs_LayersApplied result = map lr_Name layers \<and> rs_LayersApplied result = [''os'']"
proof -
  obtain result built w' where run: "run_state (Compose cache_os demo_composer pinned_options) (world_demo [] (fmupd [''t''] ''xyz'' fmempty)) = (Inr (result, built), w')"
    using compose_pinned by (auto simp: wp_def split: prod.splits)
  obtain layers where layers: "mset layers = filter_mset (\<lambda>l. shouldIncludeLayer l Map.empty) {#pinned_layer#}" "rs_LayersApplied result = map lr_Name layers"
    using Compose_applies_in_order [OF run] by (auto simp: pinned_options_def)
  have "shouldIncludeLayer pinned_layer Map.empty"
    using pinned_active by (simp add: EvaluateConditions_def split: if_splits)
  with run layers show ?thesis by auto
qed

text \<open>Nothing compares the digest in the manifest with the digest of the layer that was fetched: a manifest that pins a layer from a registry
  to the digest \<open>aa\<close> is built from a layer with digest \<open>d\<close>.\<close>

theorem Compose_ignores_digest:
  "lr_SHA256 pinned_layer = ''aa'' \<and> op_Manifest pinned_options = Some pinned_manifest \<and> im_Layers pinned_manifest = [pinned_layer]
   \<and> (\<exists>result built w'. run_state (Compose cache_os demo_composer pinned_options) (world_demo [] (fmupd [''t''] ''xyz'' fmempty)) = (Inr (result, built), w')
        \<and> map (\<lambda>b. (bl_Name b, bl_Digest b)) (bm_Layers built) = [(''os'', ''d'')])"
  using compose_pinned by (auto simp: wp_def pinned_layer_def pinned_options_def split: prod.splits)

end
