(* ===== verification/Startup.thy ===== *)
theory Startup
  imports System
begin

section \<open>Start-up and request authentication (internal/api/server.go, auth_middleware.go)\<close>

text \<open>
  How the daemon comes up and who may talk to it: \<open>startServer\<close> with the network set-up, the reloading of addresses, the
  listeners and the handler each of them gets, and the middleware that demands a verified client certificate
  with a SPIFFE identity. Parsing and printing of URLs, the TLS handshake and the certificate files
  belong to Go's library: the parsed URL and the state of the connection are data, loading of files and opening of sockets are
  computations of the outside world that may fail. Logging, session recording, the snapshot tier and the vsock proxy of the
  Firecracker driver are left out of \<open>startServer\<close>.
\<close>

subsection \<open>The identity of a client (auth_middleware.go)\<close>

record url =
  ur_Scheme :: string
  ur_User :: bool
  ur_RawQuery :: string
  ur_Fragment :: string
  ur_Host :: string
  ur_EscapedPath :: string

text \<open>The library functions \<open>url.Parse\<close> and \<open>URL.String\<close>.\<close>

record url_library =
  ul_Parse :: "string \<Rightarrow> url option"
  ul_String :: "url \<Rightarrow> string"

record certificate =
  ce_URIs :: "url option list"

text \<open>What the TLS stack reports of a connection: the certificates the client sent, leaf first, and the chains it
  verified.\<close>

record tls_state =
  tl_PeerCertificates :: "certificate list"
  tl_VerifiedChains :: "certificate list list"

record Credential =
  cr_SpiffeID :: string
  cr_Kind :: string

datatype auth_error =
    MTLSRequired | ClientCertificateRequired | VerifiedChainRequired | NoSPIFFEURI
  | InvalidURI | WrongScheme | ExtraParts | NoTrustDomain | TrustDomainPort | TrustDomainIP | NoWorkloadPath

definition validateSPIFFEID :: "url_library \<Rightarrow> string \<Rightarrow> auth_error option" where
  "validateSPIFFEID U raw =
     (case ul_Parse U raw of
        None \<Rightarrow> Some InvalidURI
      | Some u \<Rightarrow>
          if ur_Scheme u \<noteq> ''spiffe'' then Some WrongScheme
          else if ur_User u \<or> ur_RawQuery u \<noteq> [] \<or> ur_Fragment u \<noteq> [] then Some ExtraParts
          else if ur_Host u = [] then Some NoTrustDomain
          else if contains (ur_Host u) '':'' then Some TrustDomainPort
          else if ParseIP (ur_Host u) then Some TrustDomainIP
          else if ur_EscapedPath u = [] \<or> ur_EscapedPath u = ''/'' then Some NoWorkloadPath
          else None)"

fun credential_of :: "url_library \<Rightarrow> url option list \<Rightarrow> auth_error + Credential" where
  "credential_of U [] = Inl NoSPIFFEURI"
| "credential_of U (uri # uris) =
     (case uri of
        None \<Rightarrow> credential_of U uris
      | Some u \<Rightarrow>
          if ur_Scheme u \<noteq> ''spiffe'' then credential_of U uris
          else case validateSPIFFEID U (ul_String U u) of
            Some e \<Rightarrow> Inl e
          | None \<Rightarrow> Inr \<lparr>cr_SpiffeID = ul_String U u, cr_Kind = ''mtls_spiffe''\<rparr>)"

definition credentialFromTLS :: "url_library \<Rightarrow> tls_state option \<Rightarrow> auth_error + Credential" where
  "credentialFromTLS U tls =
     (case tls of
        None \<Rightarrow> Inl MTLSRequired
      | Some t \<Rightarrow>
          if tl_PeerCertificates t = [] then Inl ClientCertificateRequired
          else if tl_VerifiedChains t = [] then Inl VerifiedChainRequired
          else credential_of U (ce_URIs (hd (tl_PeerCertificates t))))"

text \<open>A handler gets the state of the connection and the request. The credential that the middleware puts into the
  request's context is read by no handler.\<close>

type_synonym 'h handler = "tls_state option \<Rightarrow> api_call \<Rightarrow> ('h world, Response option) comp"

definition writeMTLSUnauthorized :: Response where
  "writeMTLSUnauthorized = WriteError 401 ErrUnauthorized"

definition MTLSIdentityMiddleware :: "url_library \<Rightarrow> 'h handler \<Rightarrow> 'h handler" where
  "MTLSIdentityMiddleware U next_handler tls c =
     (case credentialFromTLS U tls of
        Inl _ \<Rightarrow> State_Monad.return (Some writeMTLSUnauthorized)
      | Inr _ \<Rightarrow> next_handler tls c)"

subsection \<open>Start-up (server.go)\<close>

datatype network_kind = UnixSocket | TCP

text \<open>What start-up needs from outside beyond the environment of the server.\<close>

record 'h boot =
  bt_OpenDatabase :: "string \<Rightarrow> ('h, bool) comp"
  bt_LoadKeyPair :: "string \<Rightarrow> string \<Rightarrow> ('h, bool) comp"
  bt_ReadFile :: "string \<Rightarrow> ('h, string option) comp"
  bt_AppendCertsFromPEM :: "string \<Rightarrow> bool"
  bt_Listen :: "network_kind \<Rightarrow> string \<Rightarrow> ('h, bool) comp"

datatype start_error =
    DataDirFailed | DatabaseOpenFailed | UnsupportedDriver | KernelPathFailed | BridgeSetupFailed | NATSetupFailed
  | KeyPairFailed | ClientCAFailed | SocketFailed | TCPFailed | NoListeners

definition loadClientCAPool :: "'h boot \<Rightarrow> string \<Rightarrow> ('h, bool) comp" where
  "loadClientCAPool B path = do {
     pem \<leftarrow> bt_ReadFile B path;
     State_Monad.return (case pem of None \<Rightarrow> False | Some s \<Rightarrow> bt_AppendCertsFromPEM B s) }"

text \<open>The listener requires and verifies client certificates; \<open>None\<close> is success.\<close>

definition BuildAuthTLSConfig :: "'h boot \<Rightarrow> AuthConfig \<Rightarrow> ('h, start_error option) comp" where
  "BuildAuthTLSConfig B au = do {
     cert \<leftarrow> bt_LoadKeyPair B (au_TLSCertFile au) (au_TLSKeyFile au);
     if \<not> cert then State_Monad.return (Some KeyPairFailed) else do {
     pool \<leftarrow> loadClientCAPool B (au_ClientCAFile au);
     State_Monad.return (if pool then None else Some ClientCAFailed) }}"

definition socket_listener :: "'h env \<Rightarrow> 'h boot \<Rightarrow> string \<Rightarrow> ('h, start_error + network_kind list) comp" where
  "socket_listener E B socketPath =
     (if socketPath = [] then State_Monad.return (Inr []) else do {
        st \<leftarrow> os_Stat E socketPath;
        removed \<leftarrow> (case st of StatOK _ _ \<Rightarrow> os_Remove E socketPath | _ \<Rightarrow> State_Monad.return True);
        if \<not> removed then State_Monad.return (Inl SocketFailed) else do {
        ok \<leftarrow> bt_Listen B UnixSocket socketPath;
        if \<not> ok then State_Monad.return (Inl SocketFailed) else do {
        _ \<leftarrow> os_Chmod E socketPath;
        State_Monad.return (Inr [UnixSocket]) }}})"

definition setupListeners :: "'h env \<Rightarrow> 'h boot \<Rightarrow> Config \<Rightarrow> ('h, start_error + network_kind list) comp" where
  "setupListeners E B cfg = do {
     first \<leftarrow> socket_listener E B (ap_Socket (cf_API cfg));
     case first of
       Inl e \<Rightarrow> State_Monad.return (Inl e)
     | Inr ls \<Rightarrow> do {
         second \<leftarrow> (if ap_TCPBind (cf_API cfg) = [] then State_Monad.return (Inr ls) else do {
           ok \<leftarrow> bt_Listen B TCP (ap_TCPBind (cf_API cfg));
           State_Monad.return (if ok then Inr (ls @ [TCP]) else Inl TCPFailed) });
         State_Monad.return (case second of Inl e \<Rightarrow> Inl e | Inr [] \<Rightarrow> Inl NoListeners | Inr ls' \<Rightarrow> Inr ls') }}"

definition setupNetworkInfrastructure :: "'h xrunner \<Rightarrow> ('h, start_error option) comp" where
  "setupNetworkInfrastructure xrun = do {
     bridge \<leftarrow> SetupBridge xrun;
     if bridge \<noteq> None then State_Monad.return (Some BridgeSetupFailed) else do {
     iface \<leftarrow> GetPrimaryInterface xrun;
     nat_ok \<leftarrow> SetupNAT xrun (case iface of None \<Rightarrow> ''eth0'' | Some i \<Rightarrow> i);
     State_Monad.return (if nat_ok then None else Some NATSetupFailed) }}"

definition initializeInfrastructure :: "'h env \<Rightarrow> 'h boot \<Rightarrow> Config \<Rightarrow> ('h, start_error option) comp" where
  "initializeInfrastructure E B cfg = do {
     dir \<leftarrow> os_MkdirAll E (st_DataDir (cf_Storage cfg));
     if \<not> dir then State_Monad.return (Some DataDirFailed) else do {
     db \<leftarrow> bt_OpenDatabase B (st_Database (cf_Storage cfg));
     if \<not> db then State_Monad.return (Some DatabaseOpenFailed)
     else if selectedRuntimeDriver (env_goos E) cfg \<notin> {''firecracker'', ''apple_container''}
       then State_Monad.return (Some UnsupportedDriver)
     else do {
       abs_path \<leftarrow> os_Abs E (if fc_KernelPath (cf_Firecracker cfg) = [] then path_join [st_DataDir (cf_Storage cfg), ''images'', ''vmlinux'']
                       else fc_KernelPath (cf_Firecracker cfg));
       State_Monad.return (if abs_path = None then Some KernelPathFailed else None) }}}"

text \<open>Each listener gets the handler of the routes; a TCP listener gets it behind the middleware when authentication
  is enabled.\<close>

definition listener_handler :: "url_library \<Rightarrow> Config \<Rightarrow> 'h handler \<Rightarrow> network_kind \<Rightarrow> 'h handler" where
  "listener_handler U cfg mux l =
     (if au_Enabled (cf_Auth cfg) \<and> l = TCP then MTLSIdentityMiddleware U mux else mux)"

definition setup_network :: "'h Server \<Rightarrow> ('h, start_error option) comp" where
  "setup_network S =
     (if hn_Setup (cf_Network (s_config S)) \<and> is_firecracker S then setupNetworkInfrastructure (env_xrun (s_env S))
      else State_Monad.return None)"

definition start_listeners :: "'h Server \<Rightarrow> 'h boot \<Rightarrow> url_library \<Rightarrow> 'h registry_client
    \<Rightarrow> ('h world, start_error + (network_kind \<times> 'h handler) list) comp" where
  "start_listeners S B U pull = (let cfg = s_config S; mux = (\<lambda>_. serve S pull) in do {
     tls \<leftarrow> on_host (if au_Enabled (cf_Auth cfg) \<and> ap_TCPBind (cf_API cfg) \<noteq> [] then BuildAuthTLSConfig B (cf_Auth cfg)
                     else State_Monad.return None);
     case tls of
       Some e \<Rightarrow> State_Monad.return (Inl e)
     | None \<Rightarrow> do {
         ls \<leftarrow> on_host (setupListeners (s_env S) B cfg);
         State_Monad.return (case ls of Inl e \<Rightarrow> Inl e | Inr ks \<Rightarrow> Inr (map (\<lambda>k. (k, listener_handler U cfg mux k)) ks)) }})"

definition startServer :: "'h Server \<Rightarrow> 'h boot \<Rightarrow> url_library \<Rightarrow> 'h registry_client
    \<Rightarrow> ('h world, start_error + (network_kind \<times> 'h handler) list) comp" where
  "startServer S B U pull = do {
     infra \<leftarrow> on_host (initializeInfrastructure (s_env S) B (s_config S));
     case infra of
       Some e \<Rightarrow> State_Monad.return (Inl e)
     | None \<Rightarrow> do {
         net \<leftarrow> on_host (setup_network S);
         case net of
           Some e \<Rightarrow> State_Monad.return (Inl e)
         | None \<Rightarrow> do {
             _ \<leftarrow> State_Monad.update (\<lambda>w. w\<lparr>w_ipam := NewIPAM\<rparr>);
             _ \<leftarrow> loadExistingAllocations (s_env S);
             start_listeners S B U pull }}}"

subsection \<open>Who reaches a handler\<close>

definition spiffe_identity :: "url \<Rightarrow> bool" where
  "spiffe_identity u \<longleftrightarrow> ur_Scheme u = ''spiffe'' \<and> \<not> ur_User u \<and> ur_RawQuery u = [] \<and> ur_Fragment u = []
     \<and> ur_Host u \<noteq> [] \<and> CHR '':'' \<notin> set (ur_Host u) \<and> \<not> ParseIP (ur_Host u)
     \<and> ur_EscapedPath u \<noteq> [] \<and> ur_EscapedPath u \<noteq> ''/''"

lemma contains_char: "contains s [c] \<longleftrightarrow> c \<in> set s"
  by (auto simp: contains_iff in_set_conv_decomp)

lemma validateSPIFFEID_None:
  "validateSPIFFEID U raw = None \<longleftrightarrow> (\<exists>u. ul_Parse U raw = Some u \<and> spiffe_identity u)"
  by (auto simp: validateSPIFFEID_def spiffe_identity_def contains_char split: option.splits if_splits)

text \<open>The first SPIFFE address of the certificate decides.\<close>

definition not_spiffe :: "url option \<Rightarrow> bool" where
  "not_spiffe v = (case v of None \<Rightarrow> True | Some u \<Rightarrow> ur_Scheme u \<noteq> ''spiffe'')"

lemma credential_of_Inr:
  assumes "credential_of U uris = Inr cred"
  obtains before u rest parsed where "uris = before @ Some u # rest" "ur_Scheme u = ''spiffe''" "list_all not_spiffe before"
    "ul_Parse U (ul_String U u) = Some parsed" "spiffe_identity parsed" "cr_SpiffeID cred = ul_String U u"
  using assms
proof (induction uris arbitrary: thesis)
  case (Cons uri uris)
  show ?case
  proof (cases "not_spiffe uri")
    case True
    then have "credential_of U uris = Inr cred" using Cons.prems(2) by (auto simp: not_spiffe_def split: option.splits)
    then obtain before u rest parsed where "uris = before @ Some u # rest" "ur_Scheme u = ''spiffe''" "list_all not_spiffe before"
      "ul_Parse U (ul_String U u) = Some parsed" "spiffe_identity parsed" "cr_SpiffeID cred = ul_String U u"
      using Cons.IH by metis
    with True show ?thesis by (intro Cons.prems(1) [of "uri # before" u rest parsed]) simp_all
  next
    case False
    then obtain u where u: "uri = Some u" "ur_Scheme u = ''spiffe''" by (auto simp: not_spiffe_def split: option.splits)
    then have "validateSPIFFEID U (ul_String U u) = None" "cr_SpiffeID cred = ul_String U u"
      using Cons.prems(2) by (auto split: option.splits)
    then show ?thesis using u Cons.prems(1) [of "[]" u uris] by (auto simp: validateSPIFFEID_None)
  qed
qed simp

lemma start_listeners_handlers:
  "wp (start_listeners S B U pull) (\<lambda>r _. \<forall>ls k h. r = Inr ls \<longrightarrow> (k, h) \<in> set ls \<longrightarrow>
     h = listener_handler U (s_config S) (\<lambda>_. serve S pull) k) w"
  unfolding start_listeners_def Let_def by (intro wp_intros wp_hostI) (auto split: sum.splits)

lemma startServer_handlers:
  assumes "run_state (startServer S B U pull) w = (Inr ls, w1)" and "(k, h) \<in> set ls"
  shows "h = listener_handler U (s_config S) (\<lambda>_. serve S pull) k"
proof -
  have "wp (startServer S B U pull) (\<lambda>r _. \<forall>ls k h. r = Inr ls \<longrightarrow> (k, h) \<in> set ls \<longrightarrow>
     h = listener_handler U (s_config S) (\<lambda>_. serve S pull) k) w"
    unfolding startServer_def
    by (intro wp_intros wp_hostI) (simp_all add: wp_iff_run start_listeners_handlers [unfolded wp_iff_run])
  then show ?thesis using assms by (simp add: wp_def)
qed

text \<open>C31. With authentication enabled, a request that arrives over TCP has an effect, or gets another answer than 401, only if the
  TLS stack verified the client's certificate and the first SPIFFE address in the leaf certificate is a workload identity: a trust
  domain that is a host name without port, a path, no user, query or fragment. Such a request is then served as any other.\<close>

theorem tcp_requests_authenticated:
  assumes "run_state (startServer S B U pull) w = (Inr listeners, w1)" and "au_Enabled (cf_Auth (s_config S))"
    and "(TCP, handler) \<in> set listeners" and "run_state (handler tls c) v = (resp, v')"
    and "v' \<noteq> v \<or> resp \<noteq> Some (WriteError 401 ErrUnauthorized)"
  shows "(\<exists>leaf certs chain chains before u rest parsed.
      tls = Some \<lparr>tl_PeerCertificates = leaf # certs, tl_VerifiedChains = chain # chains\<rparr>
      \<and> ce_URIs leaf = before @ Some u # rest \<and> ur_Scheme u = ''spiffe''
      \<and> list_all not_spiffe before
      \<and> ul_Parse U (ul_String U u) = Some parsed \<and> spiffe_identity parsed)
    \<and> run_state (serve S pull c) v = (resp, v')"
proof -
  have h: "handler = MTLSIdentityMiddleware U (\<lambda>_. serve S pull)"
    using startServer_handlers [OF assms(1,3)] assms(2) by (simp add: listener_handler_def)
  then obtain cred where cred: "credentialFromTLS U tls = Inr cred"
    using assms(4,5) by (cases "credentialFromTLS U tls") (auto simp: MTLSIdentityMiddleware_def writeMTLSUnauthorized_def)
  with h assms(4) have served: "run_state (serve S pull c) v = (resp, v')" by (simp add: MTLSIdentityMiddleware_def)
  obtain t where t: "tls = Some t" "tl_PeerCertificates t \<noteq> []" "tl_VerifiedChains t \<noteq> []"
      "credential_of U (ce_URIs (hd (tl_PeerCertificates t))) = Inr cred"
    using cred by (auto simp: credentialFromTLS_def split: option.splits if_splits)
  obtain before u rest parsed where uri: "ce_URIs (hd (tl_PeerCertificates t)) = before @ Some u # rest" "ur_Scheme u = ''spiffe''"
      "list_all not_spiffe before" "ul_Parse U (ul_String U u) = Some parsed" "spiffe_identity parsed"
    using credential_of_Inr [OF t(4)] by metis
  have "tls = Some \<lparr>tl_PeerCertificates = hd (tl_PeerCertificates t) # tl (tl_PeerCertificates t),
      tl_VerifiedChains = hd (tl_VerifiedChains t) # tl (tl_VerifiedChains t)\<rparr>"
    using t(1-3) by (cases t) simp
  with uri served show ?thesis by blast
qed

subsection \<open>A daemon behind mutual TLS\<close>

definition secure_server :: "nat Server" where
  "secure_server = (demo_on True)\<lparr>s_config := DefaultConfig\<lparr>
     cf_API := \<lparr>ap_Socket = [], ap_TCPBind = '':8443''\<rparr>, cf_Network := \<lparr>hn_Setup = False\<rparr>,
     cf_Auth := \<lparr>au_Enabled = True, au_TLSCertFile = ''c'', au_TLSKeyFile = ''k'', au_ClientCAFile = ''a''\<rparr>\<rparr>\<rparr>"

definition demo_boot :: "nat boot" where
  "demo_boot = \<lparr>bt_OpenDatabase = (\<lambda>_. State_Monad.return True), bt_LoadKeyPair = (\<lambda>_ _. State_Monad.return True),
     bt_ReadFile = (\<lambda>_. State_Monad.return (Some ''pem'')), bt_AppendCertsFromPEM = (\<lambda>_. True), bt_Listen = (\<lambda>_ _. State_Monad.return True)\<rparr>"

definition workload :: url where
  "workload = \<lparr>ur_Scheme = ''spiffe'', ur_User = False, ur_RawQuery = [], ur_Fragment = [], ur_Host = ''corp'', ur_EscapedPath = ''/cli''\<rparr>"

definition demo_urls :: url_library where
  "demo_urls = \<lparr>ul_Parse = (\<lambda>s. if s = ''spiffe://corp/cli'' then Some workload else None), ul_String = (\<lambda>_. ''spiffe://corp/cli'')\<rparr>"

definition client_tls :: tls_state where
  "client_tls = \<lparr>tl_PeerCertificates = [\<lparr>ce_URIs = [None, Some workload]\<rparr>], tl_VerifiedChains = [[\<lparr>ce_URIs = [None, Some workload]\<rparr>]]\<rparr>"

lemma secure_server_simps [simp]:
  "s_env secure_server = demo_host True" "au_Enabled (cf_Auth (s_config secure_server))" "ap_Socket (cf_API (s_config secure_server)) = []"
  "ap_TCPBind (cf_API (s_config secure_server)) = '':8443''" "\<not> hn_Setup (cf_Network (s_config secure_server))"
  "selectedRuntimeDriver ''linux'' (s_config secure_server) = ''firecracker''"
  by (simp_all add: secure_server_def demo_on_def) code_simp

lemma workload_identity: "spiffe_identity workload" "validateSPIFFEID demo_urls ''spiffe://corp/cli'' = None"
  by code_simp+

lemma secure_start:
  "\<exists>w1. run_state (startServer secure_server demo_boot demo_urls demo_pull) \<lparr>w_db = empty_DB, w_ipam = NewIPAM, w_host = 0\<rparr>
     = (Inr [(TCP, listener_handler demo_urls (s_config secure_server) (\<lambda>_. serve secure_server demo_pull) TCP)], w1)"
proof -
  have "wp (startServer secure_server demo_boot demo_urls demo_pull) (\<lambda>r _. r = Inr [(TCP,
      listener_handler demo_urls (s_config secure_server) (\<lambda>_. serve secure_server demo_pull) TCP)])
      \<lparr>w_db = empty_DB, w_ipam = NewIPAM, w_host = 0\<rparr>"
    unfolding startServer_def initializeInfrastructure_def setup_network_def start_listeners_def setupListeners_def socket_listener_def
      BuildAuthTLSConfig_def loadClientCAPool_def loadExistingAllocations_def ListVMs_def Let_def
    by (simp add: demo_boot_def vm_allocations_def)
  then show ?thesis unfolding wp_iff_run by (metis prod.collapse)
qed

theorem tcp_requests_authenticated_witness:
  "\<exists>handler w1. run_state (startServer secure_server demo_boot demo_urls demo_pull) \<lparr>w_db = empty_DB, w_ipam = NewIPAM, w_host = 0\<rparr>
       = (Inr [(TCP, handler)], w1)
     \<and> fst (run_state (handler None (CallBackup ''b'')) w1) = Some (WriteError 401 ErrUnauthorized)
     \<and> run_state (handler (Some client_tls) (CallBackup ''b'')) w1 = run_state (serve secure_server demo_pull (CallBackup ''b'')) w1"
proof -
  let ?h = "listener_handler demo_urls (s_config secure_server) (\<lambda>_. serve secure_server demo_pull) TCP"
  obtain w1 where start: "run_state (startServer secure_server demo_boot demo_urls demo_pull)
      \<lparr>w_db = empty_DB, w_ipam = NewIPAM, w_host = 0\<rparr> = (Inr [(TCP, ?h)], w1)" using secure_start by blast
  have h: "?h = MTLSIdentityMiddleware demo_urls (\<lambda>_. serve secure_server demo_pull)" by (simp add: listener_handler_def)
  have none: "fst (run_state (?h None (CallBackup ''b'')) w1) = Some (WriteError 401 ErrUnauthorized)"
    by (simp add: h MTLSIdentityMiddleware_def credentialFromTLS_def writeMTLSUnauthorized_def)
  have "ul_String demo_urls workload = ''spiffe://corp/cli''" "ur_Scheme workload = ''spiffe''"
    by (simp_all add: demo_urls_def workload_def)
  then have some: "run_state (?h (Some client_tls) (CallBackup ''b'')) w1 = (Some (WriteError 501 ErrInternalError), w1)"
    by (simp add: h MTLSIdentityMiddleware_def credentialFromTLS_def client_tls_def workload_identity answer_def
        handleBackup_def require_id_def)
  have "run_state (serve secure_server demo_pull (CallBackup ''b'')) w1 = (Some (WriteError 501 ErrInternalError), w1)"
    using tcp_requests_authenticated [OF start, where handler = ?h and tls = "Some client_tls" and c = "CallBackup ''b''" and v = w1] some
    by (simp add: WriteError_eq_iff)
  with start none some show ?thesis by auto
qed

end
