(* ===== verification/Recording_Events.thy ===== *)
theory Recording_Events
  imports Prelude "HOL-Library.Word" "HOL-Library.Finite_Map"
begin

section \<open>Recorded events on the wire (internal/recording/events.go)\<close>

text \<open>
  The encoding of session events that the agent in a machine sends to the host, and that the storage writes to files.
  Bytes are characters. Lengths are words of the width of their field; a conversion that is too narrow wraps. A reader is the
  data that it will deliver together with whether it then ends or fails; a writer is a computation that may fail at each
  call. Messages of errors are left out, the branches are kept.
\<close>

subsection \<open>Events\<close>

text \<open>The kinds of event as the byte that stands for them.\<close>

definition EventSessionStart :: "8 word" where "EventSessionStart = 0"
definition EventSessionEnd :: "8 word" where "EventSessionEnd = 1"
definition EventTerminalInput :: "8 word" where "EventTerminalInput = 2"
definition EventTerminalOutput :: "8 word" where "EventTerminalOutput = 3"
definition EventFileRead :: "8 word" where "EventFileRead = 4"
definition EventFileWrite :: "8 word" where "EventFileWrite = 5"
definition EventNetworkRequest :: "8 word" where "EventNetworkRequest = 6"
definition EventNetworkResponse :: "8 word" where "EventNetworkResponse = 7"
definition EventCheckpoint :: "8 word" where "EventCheckpoint = 8"

definition EventType_String :: "8 word \<Rightarrow> string" where
  "EventType_String e =
     (if e = EventSessionStart then ''SESSION_START''
      else if e = EventSessionEnd then ''SESSION_END''
      else if e = EventTerminalInput then ''TERMINAL_INPUT''
      else if e = EventTerminalOutput then ''TERMINAL_OUTPUT''
      else if e = EventFileRead then ''FILE_READ''
      else if e = EventFileWrite then ''FILE_WRITE''
      else if e = EventNetworkRequest then ''NETWORK_REQUEST''
      else if e = EventNetworkResponse then ''NETWORK_RESPONSE''
      else if e = EventCheckpoint then ''CHECKPOINT''
      else ''UNKNOWN('' @ nat_digits (unat e) @ '')'')"

text \<open>The time is in nanoseconds since the epoch.\<close>

record Event =
  ev_VMID :: string
  ev_SessionID :: string
  ev_Timestamp :: int
  ev_Type :: "8 word"
  ev_Payload :: string
  ev_Metadata :: "(string, string) fmap"

definition UUIDFieldSize :: nat where "UUIDFieldSize = 36"
definition HeaderSize :: nat where "HeaderSize = 89"
definition MaxPayloadSize :: nat where "MaxPayloadSize = 16 * 1024 * 1024"
definition MaxMetadataEntries :: nat where "MaxMetadataEntries = 100"
definition MaxMetadataKeySize :: nat where "MaxMetadataKeySize = 256"
definition MaxMetadataValueSize :: nat where "MaxMetadataValueSize = 4096"

subsection \<open>Little-endian integers\<close>

fun le_encode :: "nat \<Rightarrow> nat \<Rightarrow> string" where
  "le_encode 0 x = []"
| "le_encode (Suc n) x = char_of (x mod 256) # le_encode n (x div 256)"

fun le_value :: "string \<Rightarrow> nat" where
  "le_value [] = 0"
| "le_value (c # cs) = of_char c + 256 * le_value cs"

definition le_bytes :: "'a::len word \<Rightarrow> string" where
  "le_bytes w = le_encode (LENGTH('a) div 8) (unat w)"

lemma length_le_encode [simp]: "length (le_encode n x) = n"
  by (induction n arbitrary: x) auto

lemma le_value_encode: "le_value (le_encode n x) = x mod 256 ^ n"
proof (induction n arbitrary: x)
  case (Suc n)
  have "x mod 256 + 256 * (x div 256 mod 256 ^ n) = x mod (256 * 256 ^ n)"
    by (simp add: mod_mult2_eq)
  then show ?case by (simp add: Suc)
qed simp

lemma le_value_bytes:
  fixes w :: "'a::len word"
  assumes "LENGTH('a) = 8 * k"
  shows "le_value (le_bytes w) = unat w" and "length (le_bytes w) = k"
proof -
  have "unat w < 256 ^ k" using unsigned_less [where w = w and 'a = nat] by (simp add: assms power_mult)
  then show "le_value (le_bytes w) = unat w" by (simp add: le_bytes_def le_value_encode assms)
  show "length (le_bytes w) = k" by (simp add: le_bytes_def assms)
qed

lemma le_fields [simp]:
  "le_value (le_bytes (u :: 8 word)) = unat u" "length (le_bytes u) = 1"
  "le_value (le_bytes (h :: 16 word)) = unat h" "length (le_bytes h) = 2"
  "le_value (le_bytes (w :: 32 word)) = unat w" "length (le_bytes w) = 4"
  "le_value (le_bytes (d :: 64 word)) = unat d" "length (le_bytes d) = 8"
  using le_value_bytes [of 1 u] le_value_bytes [of 2 h] le_value_bytes [of 4 w] le_value_bytes [of 8 d] by simp_all

subsection \<open>Reading\<close>

text \<open>\<open>EndOfStream\<close> is what \<open>errors.Is\<close> finds to be \<open>io.EOF\<close>: the data ended at the border of two fields.\<close>

datatype read_error =
    EndOfStream | UnexpectedEnd | ReadFailed | InvalidLength "32 word" | PayloadTooLarge "32 word" | TooManyEntries "32 word" | StringTooLong "16 word"

type_synonym stream = "string \<times> bool"
type_synonym 'a from_stream = "stream \<Rightarrow> read_error + 'a \<times> stream"

definition and_then :: "'a from_stream \<Rightarrow> ('a \<Rightarrow> 'b from_stream) \<Rightarrow> 'b from_stream" where
  "and_then m f s = (case m s of Inl e \<Rightarrow> Inl e | Inr (x, s') \<Rightarrow> f x s')"

definition gives :: "'a \<Rightarrow> 'a from_stream" where
  "gives x s = Inr (x, s)"

definition raises :: "read_error \<Rightarrow> 'a from_stream" where
  "raises e s = Inl e"

text \<open>\<open>io.ReadFull\<close>, and \<open>binary.Read\<close> of an unsigned integer.\<close>

definition read_full :: "nat \<Rightarrow> string from_stream" where
  "read_full n s = (case s of (bs, ended) \<Rightarrow>
     if n \<le> length bs then Inr (take n bs, (drop n bs, ended))
     else Inl (if \<not> ended then ReadFailed else if bs = [] then EndOfStream else UnexpectedEnd))"

definition read_uint8 :: "8 word from_stream" where
  "read_uint8 = and_then (read_full 1) (\<lambda>b. gives (word_of_nat (le_value b)))"

definition read_uint16 :: "16 word from_stream" where
  "read_uint16 = and_then (read_full 2) (\<lambda>b. gives (word_of_nat (le_value b)))"

definition read_uint32 :: "32 word from_stream" where
  "read_uint32 = and_then (read_full 4) (\<lambda>b. gives (word_of_nat (le_value b)))"

definition read_uint64 :: "64 word from_stream" where
  "read_uint64 = and_then (read_full 8) (\<lambda>b. gives (word_of_nat (le_value b)))"

definition trimNullPadding :: "string \<Rightarrow> string" where
  "trimNullPadding b = rev (dropWhile (\<lambda>c. c = CHR 0x00) (rev b))"

definition readLengthPrefixedString :: "nat \<Rightarrow> string from_stream" where
  "readLengthPrefixedString maxLen = and_then read_uint16 (\<lambda>n.
     if unat n > maxLen then raises (StringTooLong n) else read_full (unat n))"

fun read_metadata :: "nat \<Rightarrow> (string, string) fmap \<Rightarrow> (string, string) fmap from_stream" where
  "read_metadata 0 m = gives m"
| "read_metadata (Suc n) m =
     and_then (readLengthPrefixedString MaxMetadataKeySize) (\<lambda>key.
     and_then (readLengthPrefixedString MaxMetadataValueSize) (\<lambda>value.
     read_metadata n (fmupd key value m)))"

definition ReadEvent :: "Event from_stream" where
  "ReadEvent =
     and_then read_uint32 (\<lambda>totalLen.
     if unat totalLen < HeaderSize - 4 \<or> unat totalLen > MaxPayloadSize + HeaderSize then raises (InvalidLength totalLen) else
     and_then (read_full UUIDFieldSize) (\<lambda>vmID.
     and_then (read_full UUIDFieldSize) (\<lambda>sessionID.
     and_then read_uint64 (\<lambda>timestampNs.
     and_then read_uint8 (\<lambda>eventType.
     and_then read_uint32 (\<lambda>payloadLen.
     if unat payloadLen > MaxPayloadSize then raises (PayloadTooLarge payloadLen) else
     and_then (read_full (unat payloadLen)) (\<lambda>payload.
     and_then read_uint32 (\<lambda>metadataCount.
     if unat metadataCount > MaxMetadataEntries then raises (TooManyEntries metadataCount) else
     and_then (read_metadata (unat metadataCount) fmempty) (\<lambda>metadata.
     gives \<lparr>ev_VMID = trimNullPadding vmID, ev_SessionID = trimNullPadding sessionID, ev_Timestamp = sint timestampNs,
       ev_Type = eventType, ev_Payload = payload, ev_Metadata = metadata\<rparr>)))))))))"

subsection \<open>Writing\<close>

text \<open>The metadata is a Go map: the entries come in an order that the runtime chooses. Both \<open>calculateMetadataSize\<close> and
  \<open>WriteEvent\<close> get the entries as a list; the number of entries and their size do not depend on the order.\<close>

datatype write_error = OversizedPayload nat | LongString nat | WriteFailed

type_synonym 's writer = "string \<Rightarrow> ('s, bool) comp"

fun calculateMetadataSize :: "(string \<times> string) list \<Rightarrow> nat" where
  "calculateMetadataSize [] = 0"
| "calculateMetadataSize ((key, value) # es) = 2 + length key + 2 + length value + calculateMetadataSize es"

fun write_fields :: "'s writer \<Rightarrow> string list \<Rightarrow> ('s, bool) comp" where
  "write_fields w [] = State_Monad.return True"
| "write_fields w (x # xs) = do { ok \<leftarrow> w x; if ok then write_fields w xs else State_Monad.return False }"

definition writeLengthPrefixedString :: "'s writer \<Rightarrow> string \<Rightarrow> ('s, write_error option) comp" where
  "writeLengthPrefixedString w s =
     (if length s > 65535 then State_Monad.return (Some (LongString (length s)))
      else do {
        ok \<leftarrow> write_fields w (le_bytes (word_of_nat (length s) :: 16 word) # (if s = [] then [] else [s]));
        State_Monad.return (if ok then None else Some WriteFailed) })"

fun write_metadata :: "'s writer \<Rightarrow> (string \<times> string) list \<Rightarrow> ('s, write_error option) comp" where
  "write_metadata w [] = State_Monad.return None"
| "write_metadata w ((key, value) # es) = do {
     a \<leftarrow> writeLengthPrefixedString w key;
     case a of Some e \<Rightarrow> State_Monad.return (Some e) | None \<Rightarrow> do {
     b \<leftarrow> writeLengthPrefixedString w value;
     case b of Some e \<Rightarrow> State_Monad.return (Some e) | None \<Rightarrow> write_metadata w es }}"

text \<open>A field of fixed size: \<open>copy\<close> cuts what is too long.\<close>

definition padded :: "string \<Rightarrow> string" where
  "padded s = take UUIDFieldSize (s @ replicate UUIDFieldSize (CHR 0x00))"

definition total_length :: "(string \<times> string) list \<Rightarrow> Event \<Rightarrow> nat" where
  "total_length es e = UUIDFieldSize + UUIDFieldSize + 8 + 1 + 4 + length (ev_Payload e) + 4 + calculateMetadataSize es"

definition event_fields :: "(string \<times> string) list \<Rightarrow> Event \<Rightarrow> string list" where
  "event_fields es e =
     [le_bytes (word_of_nat (total_length es e) :: 32 word), padded (ev_VMID e), padded (ev_SessionID e),
      le_bytes (word_of_int (ev_Timestamp e) :: 64 word), le_bytes (ev_Type e),
      le_bytes (word_of_nat (length (ev_Payload e)) :: 32 word)]
     @ (if ev_Payload e = [] then [] else [ev_Payload e]) @ [le_bytes (word_of_nat (length es) :: 32 word)]"

definition WriteEvent :: "'s writer \<Rightarrow> (string \<times> string) list \<Rightarrow> Event \<Rightarrow> ('s, write_error option) comp" where
  "WriteEvent w es e =
     (if length (ev_Payload e) > MaxPayloadSize then State_Monad.return (Some (OversizedPayload (length (ev_Payload e))))
      else do {
        ok \<leftarrow> write_fields w (event_fields es e);
        if \<not> ok then State_Monad.return (Some WriteFailed) else write_metadata w es })"

subsection \<open>Reading back\<close>

text \<open>A parser reads a value off the front of any stream that starts with these bytes.\<close>

definition reads :: "'a from_stream \<Rightarrow> string \<Rightarrow> 'a \<Rightarrow> bool" where
  "reads p bs x \<longleftrightarrow> (\<forall>rest ended. p (bs @ rest, ended) = Inr (x, (rest, ended)))"

lemma readsD: "reads p bs x \<Longrightarrow> p (bs @ rest, ended) = Inr (x, (rest, ended))"
  by (simp add: reads_def)

lemma reads_and_then: "reads p bs x \<Longrightarrow> reads (f x) cs y \<Longrightarrow> reads (and_then p f) (bs @ cs) y"
  by (simp add: reads_def and_then_def)

lemma reads_gives: "reads (gives x) [] x"
  by (simp add: reads_def gives_def)

lemma reads_guard: "\<not> b \<Longrightarrow> reads p bs x \<Longrightarrow> reads (if b then raises err else p) bs x"
  by simp

lemma reads_full: "length bs = n \<Longrightarrow> reads (read_full n) bs bs"
  by (simp add: reads_def read_full_def)

lemma reads_map: "reads p bs x \<Longrightarrow> g x = y \<Longrightarrow> reads (and_then p (\<lambda>b. gives (g b))) bs y"
  by (auto simp: reads_def and_then_def gives_def)

lemma reads_uints:
  "reads read_uint8 (le_bytes u) u" "reads read_uint16 (le_bytes h) h" "reads read_uint32 (le_bytes w) w" "reads read_uint64 (le_bytes d) d"
  unfolding read_uint8_def read_uint16_def read_uint32_def read_uint64_def
  by (rule reads_map, rule reads_full; simp)+

definition string_bytes :: "string \<Rightarrow> string" where
  "string_bytes s = le_bytes (word_of_nat (length s) :: 16 word) @ s"

fun metadata_bytes :: "(string \<times> string) list \<Rightarrow> string" where
  "metadata_bytes [] = []"
| "metadata_bytes ((key, value) # es) = string_bytes key @ string_bytes value @ metadata_bytes es"

definition event_bytes :: "(string \<times> string) list \<Rightarrow> Event \<Rightarrow> string" where
  "event_bytes es e = concat (event_fields es e) @ metadata_bytes es"

lemma reads_string:
  assumes "length s \<le> maxLen" and "maxLen < 65536"
  shows "reads (readLengthPrefixedString maxLen) (string_bytes s) s"
proof -
  have "unat (word_of_nat (length s) :: 16 word) = length s" using assms by (simp add: unat_of_nat take_bit_eq_mod)
  then show ?thesis
    unfolding readLengthPrefixedString_def string_bytes_def
    by (intro reads_and_then [OF reads_uints(2)]) (use assms in \<open>simp add: reads_full\<close>)
qed

text \<open>The entries within the limits of the reader.\<close>

definition small_entry :: "string \<times> string \<Rightarrow> bool" where
  "small_entry x \<longleftrightarrow> length (fst x) \<le> MaxMetadataKeySize \<and> length (snd x) \<le> MaxMetadataValueSize"

lemma reads_metadata:
  assumes "list_all small_entry es"
  shows "reads (read_metadata (length es) m) (metadata_bytes es) (foldl (\<lambda>m (k, v). fmupd k v m) m es)"
  using assms
proof (induction es arbitrary: m)
  case (Cons x es)
  obtain k v where x: "x = (k, v)" by (cases x)
  have "reads (readLengthPrefixedString MaxMetadataKeySize) (string_bytes k) k"
    "reads (readLengthPrefixedString MaxMetadataValueSize) (string_bytes v) v"
    using Cons.prems by (auto intro!: reads_string simp: x small_entry_def MaxMetadataKeySize_def MaxMetadataValueSize_def)
  then show ?case
    unfolding x length_Cons read_metadata.simps metadata_bytes.simps
    by (intro reads_and_then) (use Cons in simp_all)
qed (simp add: reads_gives)

lemma lookup_foldl:
  "distinct (map fst es) \<Longrightarrow> fmlookup (foldl (\<lambda>m (k, v). fmupd k v m) m es) k = (case map_of es k of None \<Rightarrow> fmlookup m k | r \<Rightarrow> r)"
proof (induction es arbitrary: m)
  case (Cons x es)
  have "fst x \<notin> set (map fst es)" using Cons.prems by simp
  then have "map_of es (fst x) = None" by (simp add: map_of_eq_None_iff)
  then show ?case using Cons by (cases x) (auto split: option.splits)
qed simp

text \<open>The events that survive the journey: identifiers that fit and do not end in a null byte, a time within the range of 64 bits, few and
  short entries of metadata, and at most 16 MiB of payload and metadata together.\<close>

definition plain_id :: "string \<Rightarrow> bool" where
  "plain_id s \<longleftrightarrow> length s \<le> UUIDFieldSize \<and> (s = [] \<or> last s \<noteq> CHR 0x00)"

definition sendable :: "(string \<times> string) list \<Rightarrow> Event \<Rightarrow> bool" where
  "sendable es e \<longleftrightarrow> plain_id (ev_VMID e) \<and> plain_id (ev_SessionID e) \<and> - (2 ^ 63) \<le> ev_Timestamp e \<and> ev_Timestamp e < 2 ^ 63
     \<and> length es \<le> MaxMetadataEntries \<and> list_all small_entry es
     \<and> length (ev_Payload e) + calculateMetadataSize es \<le> MaxPayloadSize"

lemma trim_padded: "plain_id s \<Longrightarrow> trimNullPadding (padded s) = s"
proof -
  assume s: "plain_id s"
  have "padded s = s @ replicate (UUIDFieldSize - length s) (CHR 0x00)"
    using s by (simp add: padded_def plain_id_def take_append)
  moreover have "dropWhile (\<lambda>c. c = CHR 0x00) (replicate n (CHR 0x00) @ rev s) = rev s" for n
    using s by (induction n) (auto simp: plain_id_def dropWhile_eq_self_iff hd_rev)
  ultimately show ?thesis by (simp add: trimNullPadding_def)
qed

lemma sint_timestamp: "- (2 ^ 63) \<le> t \<Longrightarrow> t < 2 ^ 63 \<Longrightarrow> sint (word_of_int t :: 64 word) = t"
  by (simp add: signed_of_int signed_take_bit_int_eq_self)

lemma unat_length32: "n < 2 ^ 32 \<Longrightarrow> unat (word_of_nat n :: 32 word) = n"
  by (simp add: unat_of_nat take_bit_eq_mod)

lemma reads_event:
  assumes "sendable es e" and "distinct (map fst es)" and "ev_Metadata e = fmap_of_list es"
  shows "reads ReadEvent (event_bytes es e) e"
proof -
  note limits = MaxMetadataEntries_def MaxPayloadSize_def HeaderSize_def UUIDFieldSize_def
  have size: "unat (word_of_nat (total_length es e) :: 32 word) = total_length es e" "unat (word_of_nat (length (ev_Payload e)) :: 32 word) = length (ev_Payload e)"
    "unat (word_of_nat (length es) :: 32 word) = length es"
    using assms(1) by (intro unat_length32; simp add: sendable_def total_length_def limits)+
  have entries: "reads (read_metadata (length es) fmempty) (metadata_bytes es) (ev_Metadata e)"
  proof -
    have "foldl (\<lambda>m (k, v). fmupd k v m) fmempty es = ev_Metadata e"
      by (rule fmap_ext) (simp add: lookup_foldl assms(2,3) fmlookup_of_list split: option.split)
    then show ?thesis using reads_metadata [of es fmempty] assms(1) by (simp add: sendable_def)
  qed
  have payload: "reads (read_full (length (ev_Payload e))) (concat (if ev_Payload e = [] then [] else [ev_Payload e])) (ev_Payload e)"
    by (simp add: reads_full)
  have id: "length (padded s) = UUIDFieldSize" for s by (simp add: padded_def)
  have limit: "\<not> (total_length es e < HeaderSize - 4 \<or> total_length es e > MaxPayloadSize + HeaderSize)"
    "\<not> length (ev_Payload e) > MaxPayloadSize" "\<not> length es > MaxMetadataEntries"
    using assms(1) by (auto simp: sendable_def total_length_def limits)
  have fields: "trimNullPadding (padded (ev_VMID e)) = ev_VMID e" "trimNullPadding (padded (ev_SessionID e)) = ev_SessionID e"
    "sint (word_of_int (ev_Timestamp e) :: 64 word) = ev_Timestamp e"
    using assms(1) by (simp_all add: sendable_def trim_padded sint_timestamp)
  show ?thesis
    unfolding event_bytes_def event_fields_def ReadEvent_def concat_append concat.simps append_assoc append.simps append_Nil
    apply (rule reads_and_then [OF reads_uints(3)])
    apply (subst size, subst size, rule reads_guard [OF limit(1)])
    apply (rule reads_and_then [OF reads_full [OF id]])+
    apply (rule reads_and_then [OF reads_uints(4)])
    apply (rule reads_and_then [OF reads_uints(1)])
    apply (rule reads_and_then [OF reads_uints(3)])
    apply (subst size, subst size, rule reads_guard [OF limit(2)])
    apply (rule reads_and_then [OF payload])
    apply (rule reads_and_then [OF reads_uints(3)])
    apply (subst size, subst size, rule reads_guard [OF limit(3)])
    apply (rule reads_map [OF entries])
    apply (simp add: fields)
    done
qed

subsection \<open>What a writer receives\<close>

text \<open>The promise of an \<open>io.Writer\<close>: a call appends what it is given, or fails after a part of it.\<close>

definition appends :: "string \<Rightarrow> string \<Rightarrow> bool \<Rightarrow> string \<Rightarrow> bool" where
  "appends before x ok after \<longleftrightarrow> (\<exists>p q. x = p @ q \<and> after = before @ p \<and> (ok \<longrightarrow> q = []))"

lemma appendsI: "x = p @ q \<Longrightarrow> c = b @ p \<Longrightarrow> ok \<longrightarrow> q = [] \<Longrightarrow> appends b x ok c"
  by (auto simp: appends_def)

lemma appends_True [simp]: "appends b x True c \<longleftrightarrow> c = b @ x"
  by (auto simp: appends_def)

lemma appends_nothing [simp]: "appends b x False b"
  by (simp add: appends_def)

lemma appends_partial: "appends b x ok c \<Longrightarrow> appends b (x @ y) False c"
  by (auto simp: appends_def)

lemma appends_step: "appends b x True c \<Longrightarrow> appends c y ok d \<Longrightarrow> appends b (x @ y) ok d"
  by (force simp: appends_def)

locale byte_sink =
  fixes w :: "'s writer" and inv :: "'s \<Rightarrow> bool" and written :: "'s \<Rightarrow> string"
  assumes sink: "inv s \<Longrightarrow> wp (w x) (\<lambda>ok s'. inv s' \<and> appends (written s) x ok (written s')) s"
begin

definition sinks :: "('s, write_error option) comp \<Rightarrow> string \<Rightarrow> bool" where
  "sinks m x \<longleftrightarrow> (\<forall>s. inv s \<longrightarrow> wp m (\<lambda>r s'. inv s' \<and> appends (written s) x (r = None) (written s')) s)"

lemma wp_write_fields: "inv s \<Longrightarrow> wp (write_fields w xs) (\<lambda>ok s'. inv s' \<and> appends (written s) (concat xs) ok (written s')) s"
proof (induction xs arbitrary: s)
  case (Cons x xs)
  show ?case
    unfolding write_fields.simps wp_bind concat.simps
    by (rule wp_mono [OF sink [OF Cons.prems]])
      (auto intro: appends_partial appends_step intro!: wp_mono [OF Cons.IH])
qed simp

lemma sinks_done: "sinks (State_Monad.return None) []"
  by (simp add: sinks_def)

lemma sinks_fail: "sinks (State_Monad.return (Some e)) x"
  by (simp add: sinks_def)

lemma sinks_step:
  assumes "sinks m x" and "sinks m' y"
  shows "sinks (do { r \<leftarrow> m; case r of Some e \<Rightarrow> State_Monad.return (Some e) | None \<Rightarrow> m' }) (x @ y)"
  unfolding sinks_def
proof (intro allI impI)
  fix s assume s: "inv s"
  show "wp (do { r \<leftarrow> m; case r of Some e \<Rightarrow> State_Monad.return (Some e) | None \<Rightarrow> m' })
      (\<lambda>r s'. inv s' \<and> appends (written s) (x @ y) (r = None) (written s')) s"
    unfolding wp_bind
    by (rule wp_mono [OF assms(1) [unfolded sinks_def, rule_format, OF s]])
      (auto split: option.splits intro: appends_partial appends_step intro!: wp_mono [OF assms(2) [unfolded sinks_def, rule_format]])
qed

lemma sinks_fields: "sinks (do { ok \<leftarrow> write_fields w xs; State_Monad.return (if ok then None else Some WriteFailed) }) (concat xs)"
  unfolding sinks_def wp_bind by (intro allI impI) (rule wp_mono [OF wp_write_fields]; auto)

lemma sinks_string: "sinks (writeLengthPrefixedString w x) (string_bytes x)"
proof -
  have "concat (le_bytes (word_of_nat (length x) :: 16 word) # (if x = [] then [] else [x])) = string_bytes x"
    by (simp add: string_bytes_def)
  then show ?thesis
    using sinks_fields [of "le_bytes (word_of_nat (length x) :: 16 word) # (if x = [] then [] else [x])"]
    unfolding writeLengthPrefixedString_def by (cases "length x > 65535") (simp_all only: sinks_fail if_True if_False)
qed

lemma sinks_metadata: "sinks (write_metadata w es) (metadata_bytes es)"
proof (induction es)
  case (Cons e es)
  then show ?case
    by (cases e) (simp add: sinks_step [OF sinks_string sinks_step [OF sinks_string]])
qed (simp add: sinks_done)

lemma sinks_event: "sinks (WriteEvent w es e) (event_bytes es e)"
proof -
  have "sinks (do { r \<leftarrow> do { ok \<leftarrow> write_fields w (event_fields es e); State_Monad.return (if ok then None else Some WriteFailed) };
      case r of Some e \<Rightarrow> State_Monad.return (Some e) | None \<Rightarrow> write_metadata w es }) (event_bytes es e)"
    unfolding event_bytes_def by (rule sinks_step [OF sinks_fields sinks_metadata])
  moreover have "wp (do { r \<leftarrow> do { ok \<leftarrow> write_fields w xs; State_Monad.return (if ok then None else Some WriteFailed) };
      case r of Some e \<Rightarrow> State_Monad.return (Some e) | None \<Rightarrow> m }) Q s
    = wp (do { ok \<leftarrow> write_fields w xs; if \<not> ok then State_Monad.return (Some WriteFailed) else m }) Q s" for xs m Q s
    unfolding wp_bind wp_return by (rule arg_cong [where f = "\<lambda>P. wp _ P s"]) (auto simp: fun_eq_iff)
  ultimately show ?thesis by (simp add: WriteEvent_def sinks_fail sinks_def del: wp_bind)
qed

end

text \<open>A buffer in memory never fails.\<close>

definition to_buffer :: "string writer" where
  "to_buffer x = do { _ \<leftarrow> State_Monad.update (\<lambda>b. b @ x); State_Monad.return True }"

interpretation buffer: byte_sink to_buffer "\<lambda>_. True" "\<lambda>b. b"
  by unfold_locales (simp add: to_buffer_def)

text \<open>A writer that never fails receives every event that fits.\<close>

locale sure_sink =
  fixes w :: "'s writer" and holding :: "string \<Rightarrow> 's"
  assumes sure: "wp (w x) Q (holding b) = Q True (holding (b @ x))"
begin

lemma wp_fields: "wp (write_fields w xs) Q (holding b) = Q True (holding (b @ concat xs))"
  by (induction xs arbitrary: b) (simp_all add: sure)

lemma wp_metadata:
  "list_all (\<lambda>(k, v). length k \<le> 65535 \<and> length v \<le> 65535) es \<Longrightarrow> wp (write_metadata w es) Q (holding b) = Q None (holding (b @ metadata_bytes es))"
proof (induction es arbitrary: b)
  case (Cons x es)
  have str: "wp (writeLengthPrefixedString w s) Q (holding b) = Q None (holding (b @ string_bytes s))" if "length s \<le> 65535" for s Q b
    using that by (simp add: writeLengthPrefixedString_def wp_fields string_bytes_def del: write_fields.simps)
  from Cons show ?case by (cases x) (simp add: str)
qed simp

lemma wp_event: "sendable es e \<Longrightarrow> wp (WriteEvent w es e) Q (holding b) = Q None (holding (b @ event_bytes es e))"
proof -
  assume e: "sendable es e"
  then have "list_all (\<lambda>(k, v). length k \<le> 65535 \<and> length v \<le> 65535) es"
    by (auto simp: sendable_def list_all_iff small_entry_def MaxMetadataKeySize_def MaxMetadataValueSize_def)
  then show ?thesis
    using e by (simp add: WriteEvent_def sendable_def wp_fields wp_metadata event_bytes_def)
qed

end

interpretation sure_buffer: sure_sink to_buffer "\<lambda>b. b"
  by unfold_locales (simp add: to_buffer_def)

lemma buffer_event: "sendable es e \<Longrightarrow> run_state (WriteEvent to_buffer es e) b = (None, b @ event_bytes es e)"
  using sure_buffer.wp_event [of es e "\<lambda>r b'. r = None \<and> b' = b @ event_bytes es e" b] by (auto simp: wp_def)

subsection \<open>What a reader accepts\<close>

text \<open>A parser that succeeds has taken bytes off the front of the stream, which are related to its result.\<close>

definition takes :: "'a from_stream \<Rightarrow> ('a \<Rightarrow> nat \<Rightarrow> bool) \<Rightarrow> bool" where
  "takes p R \<longleftrightarrow> (\<forall>s x s'. p s = Inr (x, s') \<longrightarrow> (\<exists>cs. s = (cs @ fst s', snd s') \<and> R x (length cs)))"

lemma takesD: "takes p R \<Longrightarrow> p s = Inr (x, s') \<Longrightarrow> \<exists>cs. s = (cs @ fst s', snd s') \<and> R x (length cs)"
  unfolding takes_def by blast

lemma takes_gives: "R x 0 \<Longrightarrow> takes (gives x) R"
  by (auto simp: takes_def gives_def)

lemma takes_raises: "takes (raises e) R"
  by (simp add: takes_def raises_def)

lemma takes_full: "(\<And>bs. length bs = n \<Longrightarrow> R bs n) \<Longrightarrow> takes (read_full n) R"
  unfolding takes_def
proof (intro allI impI)
  fix s x s' assume R: "\<And>bs. length bs = n \<Longrightarrow> R bs n" and "read_full n s = Inr (x, s')"
  then show "\<exists>cs. s = (cs @ fst s', snd s') \<and> R x (length cs)"
    by (intro exI [of _ x]) (auto simp: read_full_def split: prod.splits if_splits)
qed

lemma takes_if: "(b \<Longrightarrow> takes p R) \<Longrightarrow> (\<not> b \<Longrightarrow> takes q R) \<Longrightarrow> takes (if b then p else q) R"
  by simp

lemma takes_and_then:
  assumes "takes p R" and "\<And>x m. R x m \<Longrightarrow> takes (f x) (\<lambda>y n. S y (m + n))"
  shows "takes (and_then p f) S"
  unfolding takes_def
proof (intro allI impI)
  fix s y s'' assume "and_then p f s = Inr (y, s'')"
  then obtain x s' where p: "p s = Inr (x, s')" and f: "f x s' = Inr (y, s'')"
    by (auto simp: and_then_def split: sum.splits)
  from takesD [OF assms(1) p] obtain cs where cs: "s = (cs @ fst s', snd s')" "R x (length cs)" by auto
  from takesD [OF assms(2) [OF cs(2)] f] obtain ds where ds: "s' = (ds @ fst s'', snd s'')" "S y (length cs + length ds)" by auto
  show "\<exists>cs. s = (cs @ fst s'', snd s'') \<and> S y (length cs)"
    by (rule exI [of _ "cs @ ds"]) (use cs ds in simp)
qed

lemma takes_uint: "takes (and_then (read_full k) (\<lambda>b. gives (g b))) (\<lambda>_ n. n = k)"
  by (rule takes_and_then [where R = "\<lambda>_ n. n = k"]) (auto intro: takes_full takes_gives)

lemma takes_uints:
  "takes read_uint8 (\<lambda>_ n. n = 1)" "takes read_uint16 (\<lambda>_ n. n = 2)" "takes read_uint32 (\<lambda>_ n. n = 4)" "takes read_uint64 (\<lambda>_ n. n = 8)"
  unfolding read_uint8_def read_uint16_def read_uint32_def read_uint64_def by (rule takes_uint)+

lemma takes_string: "takes (readLengthPrefixedString m) (\<lambda>s n. n = 2 + length s \<and> length s \<le> m)"
  unfolding readLengthPrefixedString_def
  by (rule takes_and_then [OF takes_uints(2)], rule takes_if) (auto intro: takes_raises takes_full)

definition small_metadata :: "(string, string) fmap \<Rightarrow> bool" where
  "small_metadata m \<longleftrightarrow> fmpred (\<lambda>k v. small_entry (k, v)) m"

abbreviation entry_limit :: nat where
  "entry_limit \<equiv> 4 + MaxMetadataKeySize + MaxMetadataValueSize"

lemma takes_metadata:
  "small_metadata m \<Longrightarrow> takes (read_metadata k m) (\<lambda>m' n. 4 * k \<le> n \<and> n \<le> k * entry_limit
     \<and> small_metadata m' \<and> fcard (fmdom m') \<le> fcard (fmdom m) + k)"
proof (induction k arbitrary: m)
  case (Suc k)
  have card: "fcard (fmdom (fmupd key v m)) \<le> Suc (fcard (fmdom m))" for key v
    by (simp add: fcard_finsert_if)
  have rest: "takes (read_metadata k (fmupd key v m)) (\<lambda>m' n. 4 * Suc k \<le> 2 + length key + (2 + length v + n)
      \<and> 2 + length key + (2 + length v + n) \<le> Suc k * entry_limit \<and> small_metadata m' \<and> fcard (fmdom m') \<le> fcard (fmdom m) + Suc k)"
    if "length key \<le> MaxMetadataKeySize" "length v \<le> MaxMetadataValueSize" for key v
  proof -
    have "small_metadata (fmupd key v m)" using Suc.prems that by (auto simp: small_metadata_def small_entry_def)
    from Suc.IH [OF this] card [of key v] that show ?thesis unfolding takes_def by fastforce
  qed
  show ?case
    unfolding read_metadata.simps
    by (intro takes_and_then [OF takes_string]) (use rest in \<open>auto simp: add.assoc\<close>)
qed (simp add: takes_gives)

definition within_limits :: "Event \<Rightarrow> bool" where
  "within_limits e \<longleftrightarrow> plain_id (ev_VMID e) \<and> plain_id (ev_SessionID e) \<and> - (2 ^ 63) \<le> ev_Timestamp e \<and> ev_Timestamp e < 2 ^ 63
     \<and> length (ev_Payload e) \<le> MaxPayloadSize \<and> fcard (fmdom (ev_Metadata e)) \<le> MaxMetadataEntries \<and> small_metadata (ev_Metadata e)"

lemma plain_id_trim: "length b = UUIDFieldSize \<Longrightarrow> plain_id (trimNullPadding b)"
proof -
  assume b: "length b = UUIDFieldSize"
  have "length (dropWhile P (rev b)) \<le> UUIDFieldSize" for P using length_dropWhile_le [of P "rev b"] b by simp
  moreover have "hd (dropWhile (\<lambda>c. c = CHR 0x00) (rev b)) \<noteq> CHR 0x00" if "dropWhile (\<lambda>c. c = CHR 0x00) (rev b) \<noteq> []"
    using hd_dropWhile [OF that] by simp
  ultimately show ?thesis by (auto simp: plain_id_def trimNullPadding_def last_rev)
qed

lemma sint_range: "- (2 ^ 63) \<le> sint (w :: 64 word)" "sint (w :: 64 word) < 2 ^ 63"
  using sint_ge [of w] sint_lt [of w] by simp_all

lemma takes_event:
  "takes ReadEvent (\<lambda>e n. within_limits e \<and> 93 + length (ev_Payload e) \<le> n \<and> n \<le> 93 + length (ev_Payload e) + MaxMetadataEntries * entry_limit)"
proof -
  have metadata: "takes (and_then (read_metadata k fmempty) (\<lambda>m. gives \<lparr>ev_VMID = trimNullPadding v, ev_SessionID = trimNullPadding i,
      ev_Timestamp = sint (t :: 64 word), ev_Type = u, ev_Payload = p, ev_Metadata = m\<rparr>))
    (\<lambda>e n. within_limits e \<and> 93 + length (ev_Payload e) \<le> 93 + length p + n
       \<and> 93 + length p + n \<le> 93 + length (ev_Payload e) + MaxMetadataEntries * entry_limit)"
    if "k \<le> MaxMetadataEntries" "length v = UUIDFieldSize" "length i = UUIDFieldSize" "length p \<le> MaxPayloadSize" for k v i t u p
  proof (rule takes_and_then [OF takes_metadata])
    fix m n assume m: "4 * k \<le> n \<and> n \<le> k * entry_limit \<and> small_metadata m \<and> fcard (fmdom m) \<le> fcard (fmdom fmempty) + k"
    have "n \<le> MaxMetadataEntries * entry_limit" using m that(1) by (meson le_trans mult_le_mono1)
    moreover have "fcard (fmdom m) \<le> MaxMetadataEntries" using m that(1) by (simp add: fcard_fempty)
    ultimately show "takes (gives \<lparr>ev_VMID = trimNullPadding v, ev_SessionID = trimNullPadding i,
        ev_Timestamp = sint t, ev_Type = u, ev_Payload = p, ev_Metadata = m\<rparr>)
      (\<lambda>e ka. within_limits e \<and> 93 + length (ev_Payload e) \<le> 93 + length p + (n + ka)
       \<and> 93 + length p + (n + ka) \<le> 93 + length (ev_Payload e) + MaxMetadataEntries * entry_limit)"
      using m that sint_range [of t] by (intro takes_gives) (simp add: within_limits_def plain_id_trim)
  qed (simp add: small_metadata_def)
  show ?thesis
    unfolding ReadEvent_def
    apply (rule takes_and_then [OF takes_uints(3)], rule takes_if, rule takes_raises)
    apply (rule takes_and_then [OF takes_full [where R = "\<lambda>b n. length b = UUIDFieldSize \<and> n = UUIDFieldSize"]], simp)+
    apply (rule takes_and_then [OF takes_uints(4)], rule takes_and_then [OF takes_uints(1)], rule takes_and_then [OF takes_uints(3)],
        rule takes_if, rule takes_raises)
    apply (rule takes_and_then [OF takes_full [where R = "\<lambda>b n. n = length b \<and> length b \<le> MaxPayloadSize"]], simp)
    apply (rule takes_and_then [OF takes_uints(3)], rule takes_if, rule takes_raises)
    using metadata apply (simp add: UUIDFieldSize_def add.assoc)
    done
qed

text \<open>Reading to the end: the events of a stream, and why it stopped.\<close>

function read_stream :: "stream \<Rightarrow> Event list \<times> read_error" where
  "read_stream s = (case ReadEvent s of Inl e \<Rightarrow> ([], e) | Inr (e, s') \<Rightarrow> (let (es, why) = read_stream s' in (e # es, why)))"
  by pat_completeness auto
termination
  by (relation "measure (\<lambda>s. length (fst s))") (use takesD [OF takes_event] in fastforce)+

declare read_stream.simps [simp del]

lemma read_stream_Nil [simp]: "read_stream ([], True) = ([], EndOfStream)"
  by (simp add: read_stream.simps [of "([], True)"] ReadEvent_def and_then_def read_uint32_def read_full_def)

lemma read_stream_Cons: "reads ReadEvent bs e \<Longrightarrow> read_stream (bs @ rest, ended) = (case read_stream (rest, ended) of (es, why) \<Rightarrow> (e # es, why))"
  by (simp add: read_stream.simps [of "(bs @ rest, ended)"] readsD)

subsection \<open>Properties\<close>

text \<open>C37. What \<open>WriteEvent\<close> puts on the wire, \<open>ReadEvent\<close> takes off it: for an event whose identifiers, time, metadata and payload fit, in whatever order the
  map of metadata is iterated, the same event is read back, and the reader stands exactly behind it.\<close>

theorem event_round_trip:
  assumes "sendable es e" and "distinct (map fst es)" and "ev_Metadata e = fmap_of_list es"
  shows "\<exists>out. run_state (WriteEvent to_buffer es e) sent = (None, sent @ out) \<and> ReadEvent (out @ rest, ended) = Inr (e, (rest, ended))"
  using buffer_event [OF assms(1)] readsD [OF reads_event [OF assms]] by blast

definition sample_event :: Event where
  "sample_event = \<lparr>ev_VMID = ''vm-1'', ev_SessionID = ''s-1'', ev_Timestamp = 1700000000000000000, ev_Type = EventTerminalOutput, ev_Payload = ''ls'',
     ev_Metadata = fmap_of_list [(''tty'', ''0''), (''user'', ''root'')]\<rparr>"

lemma sample_sendable: "sendable [(''user'', ''root''), (''tty'', ''0'')] sample_event"
  by (simp add: sendable_def sample_event_def plain_id_def small_entry_def UUIDFieldSize_def MaxMetadataEntries_def MaxPayloadSize_def
      MaxMetadataKeySize_def MaxMetadataValueSize_def)

lemma sample_metadata: "ev_Metadata sample_event = fmap_of_list [(''user'', ''root''), (''tty'', ''0'')]"
  by (rule fmap_ext) (auto simp: sample_event_def fmlookup_of_list)

theorem event_round_trip_witness:
  "\<exists>out. run_state (WriteEvent to_buffer [(''user'', ''root''), (''tty'', ''0'')] sample_event) [] = (None, out)
     \<and> ReadEvent (out @ ''next'', True) = Inr (sample_event, (''next'', True))"
  using event_round_trip [OF sample_sendable _ sample_metadata, of "[]" "''next''" True] by simp

text \<open>Whatever bytes arrive, an event that \<open>ReadEvent\<close> returns is within all limits, and was made from a bounded number of bytes at the front of the stream:
  the header, the payload and at most 100 entries of metadata. Every event consumes at least 93 bytes.\<close>

lemma ReadEvent_bounded:
  assumes "ReadEvent s = Inr (e, s')"
  shows "within_limits e \<and> (\<exists>taken. s = (taken @ fst s', snd s') \<and> 93 + length (ev_Payload e) \<le> length taken
     \<and> length taken \<le> 93 + length (ev_Payload e) + MaxMetadataEntries * (4 + MaxMetadataKeySize + MaxMetadataValueSize))"
  using takesD [OF takes_event assms] by auto

text \<open>The writer accepts more than the reader: a key between 257 and 65535 bytes is written without an error and cannot be read.\<close>

lemma long_key_unreadable:
  assumes "MaxMetadataKeySize < length s" and "length s \<le> 65535"
  shows "wp (writeLengthPrefixedString to_buffer s) (\<lambda>r b'. r = None \<and> b' = b @ string_bytes s) b"
    and "readLengthPrefixedString MaxMetadataKeySize (string_bytes s @ rest, ended) = Inl (StringTooLong (word_of_nat (length s)))"
proof -
  show "wp (writeLengthPrefixedString to_buffer s) (\<lambda>r b'. r = None \<and> b' = b @ string_bytes s) b"
    using assms by (simp add: writeLengthPrefixedString_def sure_buffer.wp_fields string_bytes_def del: write_fields.simps)
  have "unat (word_of_nat (length s) :: 16 word) = length s" using assms by (simp add: unat_of_nat take_bit_eq_mod)
  then show "readLengthPrefixedString MaxMetadataKeySize (string_bytes s @ rest, ended) = Inl (StringTooLong (word_of_nat (length s)))"
    using assms readsD [OF reads_uints(2)] by (simp add: readLengthPrefixedString_def string_bytes_def and_then_def raises_def)
qed

end
