(* ===== verification/Recording_Storage.thy ===== *)
theory Recording_Storage
  imports Recording_Events File_System "HOL-Library.Multiset"
begin

section \<open>Recordings on disk (internal/recording/local.go)\<close>

text \<open>
  The storage of recorded sessions: a directory for each session with the stream of its events, which is compressed when
  the session is finished, and its metadata. The state has the table of active sessions beside the disk, any operation of which may fail.
  The JSON encoders, the compression, the calendar, and the orders in which Go iterates over maps are parameters. Calls run one after
  the other, each as one step. In the code the lock gives this except at two places: \<open>Write\<close> lets it go around \<open>StartSession\<close>, and \<open>Finalize\<close> while it compresses, when the
  session is still in the table but its file is closed.
\<close>

declare path_join.simps [simp del]

subsection \<open>Structures\<close>

text \<open>A time that was never set is \<open>None\<close>.\<close>

record SessionMetadata =
  sm_ID :: string
  sm_VMID :: string
  sm_StartedAt :: int
  sm_EndedAt :: "int option"
  sm_EventCount :: int
  sm_SizeBytes :: int
  sm_Status :: string
  sm_Compressed :: bool

text \<open>The open file is the path it was opened under.\<close>

record localSession =
  ls_metadata :: SessionMetadata
  ls_file :: "string option"
  ls_path :: string

record 'h LocalStorage =
  lo_sessions :: "(string, localSession) fmap"
  lo_disk :: "'h disk"

record 'h storage_env =
  se_os :: "'h os"
  se_basePath :: string
  se_retentionDays :: int
  se_marshal :: "SessionMetadata \<Rightarrow> string option"
  se_unmarshal :: "string \<Rightarrow> SessionMetadata option"
  se_compress :: "string \<Rightarrow> string"
  se_add_days :: "int \<Rightarrow> int \<Rightarrow> int"
  se_entries :: "(string, string) fmap \<Rightarrow> (string \<times> string) list"
  se_groups :: "string list \<Rightarrow> string list"

datatype storage_error =
    SessionExists | SessionDirectory | EventsFile | MetadataUnwritable | NotStarted storage_error | EventUnwritten write_error
  | SessionNotFound | CompressionFailed | MetadataUnreadable | DirectoryUnreadable | DeleteFailed

definition on_disk :: "('h disk, 'a) comp \<Rightarrow> ('h LocalStorage, 'a) comp" where
  "on_disk m = zoom lo_disk (\<lambda>d s. s\<lparr>lo_disk := d\<rparr>) m"

definition session :: "string \<Rightarrow> ('h LocalStorage, localSession option) comp" where
  "session sessionID = do { s \<leftarrow> State_Monad.get; State_Monad.return (fmlookup (lo_sessions s) sessionID) }"

definition put_session :: "string \<Rightarrow> localSession \<Rightarrow> ('h LocalStorage, unit) comp" where
  "put_session sessionID l = State_Monad.update (\<lambda>s. s\<lparr>lo_sessions := fmupd sessionID l (lo_sessions s)\<rparr>)"

definition drop_session :: "string \<Rightarrow> ('h LocalStorage, unit) comp" where
  "drop_session sessionID = State_Monad.update (\<lambda>s. s\<lparr>lo_sessions := fmdrop sessionID (lo_sessions s)\<rparr>)"

definition session_path :: "'h storage_env \<Rightarrow> string \<Rightarrow> string" where
  "session_path C sessionID = path_join [se_basePath C, sessionID]"

text \<open>A new storage has no active sessions. Making the encoder may fail.\<close>

definition NewLocalStorage :: "'h storage_env \<Rightarrow> ('h disk, (string, localSession) fmap option) comp" where
  "NewLocalStorage C = do {
     dir \<leftarrow> f_mkdir_all (se_os C) (se_basePath C);
     if \<not> dir then State_Monad.return None else do {
     encoder \<leftarrow> attempt (se_os C);
     State_Monad.return (if encoder then Some fmempty else None) }}"

subsection \<open>Metadata\<close>

definition writeMetadata :: "'h storage_env \<Rightarrow> string \<Rightarrow> SessionMetadata \<Rightarrow> ('h disk, bool) comp" where
  "writeMetadata C sessionPath metadata = (case se_marshal C metadata of
     None \<Rightarrow> State_Monad.return False
   | Some data \<Rightarrow> f_write_file (se_os C) (path_join [sessionPath, ''metadata.json'']) data)"

definition readMetadata :: "'h storage_env \<Rightarrow> string \<Rightarrow> ('h disk, SessionMetadata option) comp" where
  "readMetadata C sessionPath = do {
     f \<leftarrow> f_open (se_os C) (path_join [sessionPath, ''metadata.json'']);
     State_Monad.return (case f of Inr (data, True) \<Rightarrow> se_unmarshal C data | _ \<Rightarrow> None) }"

subsection \<open>Recording\<close>

definition StartSession :: "'h storage_env \<Rightarrow> string \<Rightarrow> string \<Rightarrow> ('h LocalStorage, storage_error option) comp" where
  "StartSession C vmID sessionID = do {
     s \<leftarrow> session sessionID;
     if s \<noteq> None then State_Monad.return (Some SessionExists) else do {
     let sessionPath = session_path C sessionID;
     dir \<leftarrow> on_disk (f_mkdir_all (se_os C) sessionPath);
     if \<not> dir then State_Monad.return (Some SessionDirectory) else do {
     let eventsPath = path_join [sessionPath, ''events.bin''];
     opened \<leftarrow> on_disk (f_open_append (se_os C) eventsPath);
     if \<not> opened then State_Monad.return (Some EventsFile) else do {
     now \<leftarrow> on_disk (draw (of_now (se_os C)));
     let metadata = \<lparr>sm_ID = sessionID, sm_VMID = vmID, sm_StartedAt = now, sm_EndedAt = None, sm_EventCount = 0,
       sm_SizeBytes = 0, sm_Status = ''active'', sm_Compressed = False\<rparr>;
     written \<leftarrow> on_disk (writeMetadata C sessionPath metadata);
     if \<not> written then State_Monad.return (Some MetadataUnwritable) else do {
     _ \<leftarrow> put_session sessionID \<lparr>ls_metadata = metadata, ls_file = Some eventsPath, ls_path = sessionPath\<rparr>;
     State_Monad.return None }}}}}"

text \<open>The writer behind a session. Writing to a file that was closed fails.\<close>

definition to_file :: "'h storage_env \<Rightarrow> string \<Rightarrow> 'h LocalStorage writer" where
  "to_file C sessionID x = do {
     s \<leftarrow> session sessionID;
     case Option.bind s ls_file of
       None \<Rightarrow> State_Monad.return False
     | Some p \<Rightarrow> on_disk (f_append (se_os C) p x) }"

definition count_event :: "Event \<Rightarrow> localSession \<Rightarrow> localSession" where
  "count_event e l = l\<lparr>ls_metadata := (ls_metadata l)\<lparr>sm_EventCount := sm_EventCount (ls_metadata l) + 1,
     sm_SizeBytes := sm_SizeBytes (ls_metadata l) + int (length (ev_Payload e) + HeaderSize)\<rparr>\<rparr>"

fun write_events :: "'h storage_env \<Rightarrow> string \<Rightarrow> Event list \<Rightarrow> ('h LocalStorage, storage_error option) comp" where
  "write_events C sessionID [] = State_Monad.return None"
| "write_events C sessionID (e # es) = do {
     r \<leftarrow> WriteEvent (to_file C sessionID) (se_entries C (ev_Metadata e)) e;
     case r of Some err \<Rightarrow> State_Monad.return (Some (EventUnwritten err)) | None \<Rightarrow> do {
     s \<leftarrow> session sessionID;
     _ \<leftarrow> (case s of None \<Rightarrow> State_Monad.return () | Some l \<Rightarrow> put_session sessionID (count_event e l));
     write_events C sessionID es }}"

definition of_session :: "string \<Rightarrow> Event list \<Rightarrow> Event list" where
  "of_session sessionID events = filter (\<lambda>e. ev_SessionID e = sessionID) events"

fun write_sessions :: "'h storage_env \<Rightarrow> string list \<Rightarrow> Event list \<Rightarrow> ('h LocalStorage, storage_error option) comp" where
  "write_sessions C [] events = State_Monad.return None"
| "write_sessions C (sessionID # ids) events = do {
     s \<leftarrow> session sessionID;
     started \<leftarrow> (if s = None then StartSession C (ev_VMID (hd (of_session sessionID events))) sessionID else State_Monad.return None);
     case started of Some err \<Rightarrow> State_Monad.return (Some (NotStarted err)) | None \<Rightarrow> do {
     r \<leftarrow> write_events C sessionID (of_session sessionID events);
     case r of Some err \<Rightarrow> State_Monad.return (Some err) | None \<Rightarrow> write_sessions C ids events }}"

definition Write :: "'h storage_env \<Rightarrow> Event list \<Rightarrow> ('h LocalStorage, storage_error option) comp" where
  "Write C events = (if events = [] then State_Monad.return None
     else write_sessions C (se_groups C (remdups (map ev_SessionID events))) events)"

subsection \<open>Finishing\<close>

definition compressFile :: "'h storage_env \<Rightarrow> string \<Rightarrow> string \<Rightarrow> ('h disk, bool) comp" where
  "compressFile C src dst = do {
     f \<leftarrow> f_open (se_os C) src;
     case f of Inl _ \<Rightarrow> State_Monad.return False | Inr (data, whole) \<Rightarrow> do {
     made \<leftarrow> f_create (se_os C) dst;
     if \<not> made then State_Monad.return False else do {
     encoder \<leftarrow> attempt (se_os C);
     if \<not> encoder then State_Monad.return False else f_copy (se_os C) dst (se_compress C data, whole) }}}"

definition finish :: "'h storage_env \<Rightarrow> string \<Rightarrow> localSession \<Rightarrow> ('h LocalStorage, storage_error option) comp" where
  "finish C sessionID l = do {
     let compressedPath = path_join [ls_path l, ''events.bin.zst''];
     _ \<leftarrow> on_disk (f_remove (se_os C) (path_join [ls_path l, ''events.bin'']));
     now \<leftarrow> on_disk (draw (of_now (se_os C)));
     stat \<leftarrow> on_disk (attempt (se_os C));
     c \<leftarrow> on_disk (file_at (locate (se_os C) compressedPath));
     let m = (ls_metadata l)\<lparr>sm_EndedAt := Some now, sm_Status := ''completed'', sm_Compressed := True,
       sm_SizeBytes := (case c of Some x \<Rightarrow> if stat then int (length x) else sm_SizeBytes (ls_metadata l)
                        | None \<Rightarrow> sm_SizeBytes (ls_metadata l))\<rparr>;
     _ \<leftarrow> put_session sessionID (l\<lparr>ls_metadata := m\<rparr>);
     written \<leftarrow> on_disk (writeMetadata C (ls_path l) m);
     if \<not> written then State_Monad.return (Some MetadataUnwritable) else do {
     _ \<leftarrow> drop_session sessionID;
     State_Monad.return None }}"

definition Finalize :: "'h storage_env \<Rightarrow> string \<Rightarrow> ('h LocalStorage, storage_error option) comp" where
  "Finalize C sessionID = do {
     s \<leftarrow> session sessionID;
     case s of None \<Rightarrow> State_Monad.return (Some SessionNotFound) | Some open_l \<Rightarrow> do {
     let l = open_l\<lparr>ls_file := None\<rparr>;
     _ \<leftarrow> put_session sessionID l;
     done_ok \<leftarrow> on_disk (compressFile C (path_join [ls_path l, ''events.bin'']) (path_join [ls_path l, ''events.bin.zst'']));
     if \<not> done_ok then do {
       _ \<leftarrow> on_disk (writeMetadata C (ls_path l) ((ls_metadata l)\<lparr>sm_Status := ''failed''\<rparr>));
       _ \<leftarrow> drop_session sessionID;
       State_Monad.return (Some CompressionFailed) }
     else finish C sessionID l }}"

subsection \<open>Looking, deleting, closing\<close>

definition GetSession :: "'h storage_env \<Rightarrow> string \<Rightarrow> ('h LocalStorage, SessionMetadata option) comp" where
  "GetSession C sessionID = do {
     s \<leftarrow> session sessionID;
     case s of Some l \<Rightarrow> State_Monad.return (Some (ls_metadata l)) | None \<Rightarrow> on_disk (readMetadata C (session_path C sessionID)) }"

text \<open>The names of the directories in a directory, sorted. One without files is not recorded; here it would have no metadata and be skipped.\<close>

definition dir_names :: "location \<Rightarrow> (location, string) fmap \<Rightarrow> string list" where
  "dir_names d F = sorted_list_of_fset ((\<lambda>l. l ! length d) |`| ffilter (\<lambda>l. below d l \<and> Suc (length d) < length l) (fmdom F))"

definition f_read_dir :: "'h os \<Rightarrow> string \<Rightarrow> ('h disk, string list option) comp" where
  "f_read_dir E p = do {
     ok \<leftarrow> attempt E;
     w \<leftarrow> State_Monad.get;
     State_Monad.return (if ok then Some (dir_names (locate E p) (dk_files w)) else None) }"

fun list_sessions :: "'h storage_env \<Rightarrow> string \<Rightarrow> string list \<Rightarrow> ('h disk, SessionMetadata list) comp" where
  "list_sessions C vmID [] = State_Monad.return []"
| "list_sessions C vmID (n # ns) = do {
     m \<leftarrow> readMetadata C (session_path C n);
     rest \<leftarrow> list_sessions C vmID ns;
     State_Monad.return (case m of
         Some x \<Rightarrow> if vmID \<noteq> [] \<and> sm_VMID x \<noteq> vmID then rest else x # rest
       | None \<Rightarrow> rest) }"

definition ListSessions :: "'h storage_env \<Rightarrow> string \<Rightarrow> ('h LocalStorage, storage_error + SessionMetadata list) comp" where
  "ListSessions C vmID = on_disk (do {
     entries \<leftarrow> f_read_dir (se_os C) (se_basePath C);
     case entries of None \<Rightarrow> State_Monad.return (Inl DirectoryUnreadable)
     | Some ns \<Rightarrow> do { ms \<leftarrow> list_sessions C vmID ns; State_Monad.return (Inr ms) }})"

definition DeleteSession :: "'h storage_env \<Rightarrow> string \<Rightarrow> ('h LocalStorage, storage_error option) comp" where
  "DeleteSession C sessionID = do {
     _ \<leftarrow> drop_session sessionID;
     ok \<leftarrow> on_disk (f_remove_all (se_os C) (session_path C sessionID));
     State_Monad.return (if ok then None else Some DeleteFailed) }"

definition GetPlaybackURL :: "'h storage_env \<Rightarrow> string \<Rightarrow> ('h LocalStorage, string option) comp" where
  "GetPlaybackURL C sessionID = on_disk (do {
     let sessionPath = session_path C sessionID;
     there \<leftarrow> f_lstat (se_os C) sessionPath;
     if there = Some False then State_Monad.return None else do {
     let compressedPath = path_join [sessionPath, ''events.bin.zst''];
     c \<leftarrow> f_lstat (se_os C) compressedPath;
     State_Monad.return (Some (''file://'' @ (if c = Some True then compressedPath else path_join [sessionPath, ''events.bin'']))) }})"

text \<open>The context is looked at before every directory; \<open>cancelled\<close> says what it answers.\<close>

fun cleanup_sessions :: "'h storage_env \<Rightarrow> ('h disk, bool) comp \<Rightarrow> int \<Rightarrow> string list \<Rightarrow> nat \<Rightarrow> ('h disk, nat \<times> bool) comp" where
  "cleanup_sessions C cancelled cutoff [] deleted = State_Monad.return (deleted, True)"
| "cleanup_sessions C cancelled cutoff (n # ns) deleted = do {
     stop \<leftarrow> cancelled;
     if stop then State_Monad.return (deleted, False) else do {
     m \<leftarrow> readMetadata C (session_path C n);
     let expired = (case m of None \<Rightarrow> False
       | Some x \<Rightarrow> sm_Status x = ''completed'' \<and> (case sm_EndedAt x of None \<Rightarrow> True | Some t \<Rightarrow> t < cutoff));
     if \<not> expired then cleanup_sessions C cancelled cutoff ns deleted else do {
     ok \<leftarrow> f_remove_all (se_os C) (session_path C n);
     cleanup_sessions C cancelled cutoff ns (if ok then Suc deleted else deleted) }}}"

definition CleanupExpired :: "'h storage_env \<Rightarrow> ('h disk, bool) comp \<Rightarrow> ('h LocalStorage, nat \<times> bool) comp" where
  "CleanupExpired C cancelled =
     (if se_retentionDays C \<le> 0 then State_Monad.return (0, True)
      else on_disk (do {
        now \<leftarrow> draw (of_now (se_os C));
        entries \<leftarrow> f_read_dir (se_os C) (se_basePath C);
        case entries of None \<Rightarrow> State_Monad.return (0, False)
        | Some ns \<Rightarrow> cleanup_sessions C cancelled (se_add_days C now (- se_retentionDays C)) ns 0 }))"

definition Close :: "('h LocalStorage, unit) comp" where
  "Close = State_Monad.update (\<lambda>s. s\<lparr>lo_sessions := fmempty\<rparr>)"

subsection \<open>What is recorded\<close>

definition events_path :: "'h storage_env \<Rightarrow> string \<Rightarrow> string" where
  "events_path C sessionID = path_join [session_path C sessionID, ''events.bin'']"

definition event_file :: "'h storage_env \<Rightarrow> string \<Rightarrow> location" where
  "event_file C sessionID = locate (se_os C) (events_path C sessionID)"

definition metadata_file :: "'h storage_env \<Rightarrow> string \<Rightarrow> location" where
  "metadata_file C sessionID = locate (se_os C) (path_join [session_path C sessionID, ''metadata.json''])"

definition contents :: "'h LocalStorage \<Rightarrow> location \<Rightarrow> string" where
  "contents s l = (case fmlookup (dk_files (lo_disk s)) l of None \<Rightarrow> [] | Some x \<Rightarrow> x)"

definition recorded :: "'h storage_env \<Rightarrow> Event list \<Rightarrow> string" where
  "recorded C es = concat (map (\<lambda>e. event_bytes (se_entries C (ev_Metadata e)) e) es)"

definition event_count :: "'h LocalStorage \<Rightarrow> string \<Rightarrow> int" where
  "event_count s sessionID = (case fmlookup (lo_sessions s) sessionID of None \<Rightarrow> 0 | Some l \<Rightarrow> sm_EventCount (ls_metadata l))"

lemma contents_sessions [simp]: "contents (s\<lparr>lo_sessions := M\<rparr>) = contents s"
  by (simp add: contents_def fun_eq_iff)

lemma wp_recording_disk [simp]: "wp (on_disk m) Q s = wp m (\<lambda>a d. Q a (s\<lparr>lo_disk := d\<rparr>)) (lo_disk s)"
  by (simp add: on_disk_def)

lemma wp_recording_diskI: "wp m (\<lambda>a d. Q a (s\<lparr>lo_disk := d\<rparr>)) (lo_disk s) \<Longrightarrow> wp (on_disk m) Q s"
  by simp

lemma wp_session [simp]: "wp (session i) Q s = Q (fmlookup (lo_sessions s) i) s"
  by (simp add: session_def)

lemma wp_put_session [simp]: "wp (put_session i l) Q s = Q () (s\<lparr>lo_sessions := fmupd i l (lo_sessions s)\<rparr>)"
  by (simp add: put_session_def)

lemma wp_drop_session [simp]: "wp (drop_session i) Q s = Q () (s\<lparr>lo_sessions := fmdrop i (lo_sessions s)\<rparr>)"
  by (simp add: drop_session_def)

text \<open>A session whose file, unless it was closed, is open and there, in an otherwise fixed state.\<close>

definition attached :: "'h storage_env \<Rightarrow> string \<Rightarrow> (string, localSession) fmap \<Rightarrow> (location, string) fmap \<Rightarrow> 'h LocalStorage \<Rightarrow> bool" where
  "attached C i M F s \<longleftrightarrow> lo_sessions s = M
     \<and> (case Option.bind (fmlookup M i) ls_file of None \<Rightarrow> True
        | Some p \<Rightarrow> p = events_path C i \<and> fmlookup (dk_files (lo_disk s)) (event_file C i) \<noteq> None)
     \<and> (\<forall>l. l \<noteq> event_file C i \<longrightarrow> fmlookup (dk_files (lo_disk s)) l = fmlookup F l)"

interpretation session_file: byte_sink "to_file C i" "attached C i M F" "\<lambda>s. contents s (event_file C i)" for C i M F
proof unfold_locales
  fix s x assume s: "attached C i M F s"
  have "wp (f_append (se_os C) p x)
      (\<lambda>ok d. attached C i M F (s\<lparr>lo_disk := d\<rparr>) \<and> appends (contents s (event_file C i)) x ok (contents (s\<lparr>lo_disk := d\<rparr>) (event_file C i))) (lo_disk s)"
    if "Option.bind (fmlookup M i) ls_file = Some p" for p
    by (rule wp_f_appendI)
      (use s that in \<open>auto simp: attached_def event_file_def contents_def intro: appendsI [OF append_take_drop_id [symmetric]]\<close>)
  then show "wp (to_file C i x) (\<lambda>ok s'. attached C i M F s' \<and> appends (contents s (event_file C i)) x ok (contents s' (event_file C i))) s"
    using s by (auto simp: to_file_def attached_def split: option.split)
qed

text \<open>A session's own files, and what recording a list of events for it does.\<close>

definition records :: "'h storage_env \<Rightarrow> string \<Rightarrow> Event list \<Rightarrow> bool \<Rightarrow> 'h LocalStorage \<Rightarrow> 'h LocalStorage \<Rightarrow> bool" where
  "records C i es ok s s' \<longleftrightarrow>
     (\<forall>l. l \<noteq> event_file C i \<and> l \<noteq> metadata_file C i \<longrightarrow> fmlookup (dk_files (lo_disk s')) l = fmlookup (dk_files (lo_disk s)) l)
     \<and> (\<forall>j. j \<noteq> i \<longrightarrow> fmlookup (lo_sessions s') j = fmlookup (lo_sessions s) j)
     \<and> appends (contents s (event_file C i)) (recorded C es) ok (contents s' (event_file C i))
     \<and> (ok \<longrightarrow> event_count s' i = event_count s i + int (length es))"

definition tracked :: "'h storage_env \<Rightarrow> string \<Rightarrow> 'h LocalStorage \<Rightarrow> bool" where
  "tracked C i s \<longleftrightarrow> (case fmlookup (lo_sessions s) i of None \<Rightarrow> False
     | Some l \<Rightarrow> ls_file l = None \<or> ls_file l = Some (events_path C i) \<and> fmlookup (dk_files (lo_disk s)) (event_file C i) \<noteq> None)"

lemma open_attached: "tracked C i s \<Longrightarrow> attached C i (lo_sessions s) (dk_files (lo_disk s)) s"
  by (auto simp: tracked_def attached_def split: option.splits)

lemma recorded_simps [simp]:
  "recorded C [] = []" "recorded C (e # es) = event_bytes (se_entries C (ev_Metadata e)) e @ recorded C es"
  by (simp_all add: recorded_def)

lemma records_none: "records C i [] True s s"
  by (simp add: records_def)

lemma records_fail:
  assumes "attached C i (lo_sessions s) (dk_files (lo_disk s)) s1"
    and "appends (contents s (event_file C i)) (event_bytes (se_entries C (ev_Metadata e)) e) ok (contents s1 (event_file C i))"
  shows "records C i (e # es) False s s1"
  using assms(1) appends_partial [OF assms(2)] by (auto simp: records_def attached_def)

lemma records_step:
  assumes "attached C i (lo_sessions s) (dk_files (lo_disk s)) s1"
    and "contents s1 (event_file C i) = contents s (event_file C i) @ event_bytes (se_entries C (ev_Metadata e)) e"
    and "fmlookup (lo_sessions s) i = Some l"
    and "records C i es ok (s1\<lparr>lo_sessions := fmupd i (count_event e l) (lo_sessions s1)\<rparr>) s'"
  shows "records C i (e # es) ok s s'"
proof -
  let ?s2 = "s1\<lparr>lo_sessions := fmupd i (count_event e l) (lo_sessions s1)\<rparr>"
  have "event_count ?s2 i = event_count s i + 1" using assms(3) by (simp add: event_count_def count_event_def)
  then show ?thesis
    using assms(1,3,4) appends_step [of "contents s (event_file C i)" _ "contents s1 (event_file C i)"]
    by (auto simp: records_def attached_def assms(2))
qed

lemma wp_write_events:
  "tracked C i s \<Longrightarrow> wp (write_events C i es) (\<lambda>r s'. tracked C i s' \<and> records C i es (r = None) s s') s"
proof (induction es arbitrary: s)
  case Nil
  then show ?case by (simp add: records_none)
next
  case (Cons e es)
  let ?post = "\<lambda>es r s'. tracked C i s' \<and> records C i es (r = None) s s'"
  have still: "tracked C i s1" if "attached C i (lo_sessions s) (dk_files (lo_disk s)) s1" for s1
    using that Cons.prems by (auto simp: attached_def tracked_def split: option.splits)
  obtain l where l: "fmlookup (lo_sessions s) i = Some l"
    using Cons.prems by (auto simp: tracked_def split: option.splits)
  have continue: "wp (write_events C i es) (?post (e # es)) (s1\<lparr>lo_sessions := fmupd i (count_event e l) (lo_sessions s)\<rparr>)"
    if "attached C i (lo_sessions s) (dk_files (lo_disk s)) s1"
      "contents s1 (event_file C i) = contents s (event_file C i) @ event_bytes (se_entries C (ev_Metadata e)) e" for s1
  proof -
    have opened: "tracked C i (s1\<lparr>lo_sessions := fmupd i (count_event e l) (lo_sessions s1)\<rparr>)"
      using still [OF that(1)] that(1) l by (auto simp: tracked_def attached_def count_event_def)
    have "lo_sessions s1 = lo_sessions s" using that(1) by (simp add: attached_def)
    then show ?thesis using wp_mono [OF Cons.IH [OF opened]] records_step [OF that l] by simp
  qed
  show ?case
    unfolding write_events.simps wp_bind
    by (rule wp_mono [OF session_file.sinks_event [unfolded session_file.sinks_def, rule_format, OF open_attached [OF Cons.prems]]])
      (auto split: option.splits intro: still records_fail continue simp: attached_def l)
qed

text \<open>Identifiers that are one component of a path keep the files of different sessions apart.\<close>

lemma session_locations:
  assumes "is_abs (se_basePath C)" and "segment i"
  shows "event_file C i = locate (se_os C) (se_basePath C) @ [i, ''events.bin'']"
    and "metadata_file C i = locate (se_os C) (se_basePath C) @ [i, ''metadata.json'']"
proof -
  have "is_abs (session_path C i)"
    using assms by (cases "se_basePath C") (auto simp: session_path_def segment_def is_abs_path_clean path_join.simps)
  moreover have "segment ''events.bin''" "segment ''metadata.json''" by (simp_all add: segment_def dotdot_def)
  ultimately have "locate (se_os C) (path_join [session_path C i, c]) = locate (se_os C) (se_basePath C) @ [i, c]"
    if "c = ''events.bin'' \<or> c = ''metadata.json''" for c
    using locate_join [of "session_path C i" c "se_os C"] locate_join [OF assms, of "se_os C"] that unfolding session_path_def [of C i]
    by (elim disjE) simp_all
  then show "event_file C i = locate (se_os C) (se_basePath C) @ [i, ''events.bin'']"
    "metadata_file C i = locate (se_os C) (se_basePath C) @ [i, ''metadata.json'']"
    unfolding event_file_def metadata_file_def events_path_def by blast+
qed

lemma wp_writeMetadataI:
  assumes "\<And>w'. dk_files w' = dk_files w \<Longrightarrow> Q False w'"
    and "\<And>w' y ok. dk_files w' = fmupd (locate (se_os C) (path_join [d, ''metadata.json''])) y (dk_files w) \<Longrightarrow> Q ok w'"
  shows "wp (writeMetadata C d m) Q w"
  unfolding writeMetadata_def by (intro wp_optionI wp_returnI wp_f_write_fileI) (auto intro: assms)

text \<open>Files in which nothing was recorded: at most the metadata changed, and the file of events was made.\<close>

definition readied :: "'h storage_env \<Rightarrow> string \<Rightarrow> (location, string) fmap \<Rightarrow> (location, string) fmap \<Rightarrow> bool" where
  "readied C i F F' \<longleftrightarrow> (\<forall>l. l \<noteq> event_file C i \<and> l \<noteq> metadata_file C i \<longrightarrow> fmlookup F' l = fmlookup F l)
     \<and> (case fmlookup F' (event_file C i) of None \<Rightarrow> [] | Some x \<Rightarrow> x) = (case fmlookup F (event_file C i) of None \<Rightarrow> [] | Some x \<Rightarrow> x)"

lemma readied_refl [simp]: "readied C i F F"
  by (simp add: readied_def)

lemma readied_create: "fmlookup F (event_file C i) = None \<Longrightarrow> readied C i F (fmupd (event_file C i) [] F)"
  by (simp add: readied_def)

lemma readied_metadata: "readied C i F F' \<Longrightarrow> event_file C i \<noteq> metadata_file C i \<Longrightarrow> readied C i F (fmupd (metadata_file C i) y F')"
  by (simp add: readied_def)

lemma readied_records:
  "readied C i (dk_files (lo_disk s)) (dk_files d) \<Longrightarrow> records C i [] True s (s\<lparr>lo_disk := d\<rparr>)"
  by (simp add: readied_def records_def contents_def event_count_def)

lemma readied_opens:
  assumes "readied C i (dk_files (lo_disk s)) (dk_files d)" and "fmlookup (lo_sessions s) i = None" and "sm_EventCount m = 0"
    and "fmlookup (dk_files d) (event_file C i) \<noteq> None" and "M = fmupd i \<lparr>ls_metadata = m, ls_file = Some (events_path C i), ls_path = p\<rparr> (lo_sessions s)"
  shows "tracked C i (s\<lparr>lo_disk := d, lo_sessions := M\<rparr>) \<and> records C i [] True s (s\<lparr>lo_disk := d, lo_sessions := M\<rparr>)"
  using assms by (simp add: readied_def records_def contents_def event_count_def tracked_def)

lemma wp_prepare_file:
  assumes "dk_files d = F"
  shows "wp (f_open_append (se_os C) (events_path C i)) (\<lambda>ok d'. readied C i F (dk_files d') \<and> (ok \<longrightarrow> fmlookup (dk_files d') (event_file C i) \<noteq> None)) d"
  by (rule wp_f_open_appendI) (auto simp: assms readied_create event_file_def [symmetric])

lemma wp_prepare_metadata:
  assumes "readied C i F (dk_files d)" and "fmlookup (dk_files d) (event_file C i) \<noteq> None" and "event_file C i \<noteq> metadata_file C i"
  shows "wp (writeMetadata C (session_path C i) m) (\<lambda>ok d'. readied C i F (dk_files d') \<and> fmlookup (dk_files d') (event_file C i) \<noteq> None) d"
  by (rule wp_writeMetadataI) (use assms in \<open>auto simp: metadata_file_def [symmetric] intro: readied_metadata\<close>)

lemma wp_StartSession:
  assumes "is_abs (se_basePath C)" and "segment i" and "fmlookup (lo_sessions s) i = None"
  shows "wp (StartSession C v i) (\<lambda>r s'. (if r = None then tracked C i s' else fmlookup (lo_sessions s') i = None) \<and> records C i [] True s s') s"
proof -
  have neq: "event_file C i \<noteq> metadata_file C i" by (simp add: session_locations [OF assms(1,2)])
  show ?thesis
    unfolding StartSession_def Let_def wp_bind wp_session wp_recording_disk events_path_def [symmetric]
    apply (simp add: assms(3))
    apply (rule wp_f_mkdir_allI)
    subgoal for dir d
      apply (cases dir; simp add: readied_records assms(3))
      apply (rule wp_mono [OF wp_prepare_file], simp)
      subgoal for ok d
        apply (cases ok; simp add: readied_records assms(3))
        apply (rule wp_drawI)
        apply (rule wp_mono [OF wp_prepare_metadata [where F = "dk_files (lo_disk s)", OF _ _ neq]]; simp)
        apply (auto simp: assms(3) intro!: readied_records readied_opens [OF _ assms(3) _ _ refl, THEN conjunct1] readied_opens [OF _ assms(3) _ _ refl, THEN conjunct2])
        done
      done
    done
qed

text \<open>All active sessions are tracked and have proper identifiers.\<close>

definition recording_ok :: "'h storage_env \<Rightarrow> 'h LocalStorage \<Rightarrow> bool" where
  "recording_ok C s \<longleftrightarrow> (\<forall>i. fmlookup (lo_sessions s) i \<noteq> None \<longrightarrow> segment i \<and> tracked C i s)"

lemma session_files_apart:
  assumes "is_abs (se_basePath C)" and "segment i" and "segment j" and "i \<noteq> j"
  shows "event_file C j \<noteq> event_file C i" "event_file C j \<noteq> metadata_file C i"
  using assms by (simp_all add: session_locations)

lemma recording_ok_records:
  assumes "recording_ok C s" and "records C i es ok s s'" and "is_abs (se_basePath C)" and "segment i"
    and "fmlookup (lo_sessions s') i \<noteq> None \<longrightarrow> tracked C i s'"
  shows "recording_ok C s'"
  unfolding recording_ok_def
proof (intro allI impI)
  fix j assume j: "fmlookup (lo_sessions s') j \<noteq> None"
  show "segment j \<and> tracked C j s'"
  proof (cases "j = i")
    case False
    then have same: "fmlookup (lo_sessions s') j = fmlookup (lo_sessions s) j" using assms(2) by (simp add: records_def)
    then have s: "segment j" "tracked C j s" using assms(1) j by (auto simp: recording_ok_def)
    then have "fmlookup (dk_files (lo_disk s')) (event_file C j) = fmlookup (dk_files (lo_disk s)) (event_file C j)"
      using session_files_apart [OF assms(3,4) s(1)] False assms(2) by (auto simp: records_def)
    with s same show ?thesis by (auto simp: tracked_def split: option.splits)
  qed (use assms j in auto)
qed

lemma records_trans: "records C i [] True s s1 \<Longrightarrow> records C i es ok s1 s' \<Longrightarrow> records C i es ok s s'"
  by (auto simp: records_def)

definition records_all :: "'h storage_env \<Rightarrow> string list \<Rightarrow> Event list \<Rightarrow> bool \<Rightarrow> 'h LocalStorage \<Rightarrow> 'h LocalStorage \<Rightarrow> bool" where
  "records_all C ids events ok s s' \<longleftrightarrow>
     (\<forall>l. (\<forall>i\<in>set ids. l \<noteq> event_file C i \<and> l \<noteq> metadata_file C i) \<longrightarrow> fmlookup (dk_files (lo_disk s')) l = fmlookup (dk_files (lo_disk s)) l)
     \<and> (\<forall>j. j \<notin> set ids \<longrightarrow> fmlookup (lo_sessions s') j = fmlookup (lo_sessions s) j)
     \<and> (\<forall>i\<in>set ids. appends (contents s (event_file C i)) (recorded C (of_session i events)) ok (contents s' (event_file C i))
         \<and> (ok \<longrightarrow> event_count s' i = event_count s i + int (length (of_session i events))))"

lemma records_other:
  assumes "records C i es ok s s'" and "event_file C j \<noteq> event_file C i" and "event_file C j \<noteq> metadata_file C i" and "j \<noteq> i"
  shows "contents s' (event_file C j) = contents s (event_file C j)" "event_count s' j = event_count s j"
  using assms by (simp_all add: records_def contents_def event_count_def)

lemma other_files:
  assumes "is_abs (se_basePath C)" and "list_all segment (i # ids)" and "distinct (i # ids)" and "j \<in> set ids"
  shows "event_file C j \<noteq> event_file C i" "event_file C j \<noteq> metadata_file C i" "event_file C i \<noteq> event_file C j" "event_file C i \<noteq> metadata_file C j" "j \<noteq> i"
  using session_files_apart [OF assms(1), of i j] session_files_apart [OF assms(1), of j i] assms by (auto simp: list_all_iff)

lemma records_all_fail:
  assumes "records C i es False s s'" and "es = [] \<or> es = of_session i events" and "is_abs (se_basePath C)" and "list_all segment (i # ids)" and "distinct (i # ids)"
  shows "records_all C (i # ids) events False s s'"
proof -
  have "appends (contents s (event_file C i)) (recorded C (of_session i events)) False (contents s' (event_file C i))"
    using assms(1,2) by (auto simp: records_def appends_def)
  moreover have "appends (contents s (event_file C j)) x False (contents s' (event_file C j))" if "j \<in> set ids" for j x
    using records_other [OF assms(1)] other_files [OF assms(3-5) that] by simp
  ultimately show ?thesis using assms(1) by (auto simp: records_all_def records_def)
qed

lemma records_all_Cons:
  assumes "records C i (of_session i events) True s s1" and "records_all C ids events ok s1 s'"
    and "is_abs (se_basePath C)" and "list_all segment (i # ids)" and "distinct (i # ids)"
  shows "records_all C (i # ids) events ok s s'"
proof -
  note other = other_files [OF assms(3-5)]
  have j: "contents s1 (event_file C j) = contents s (event_file C j)" "event_count s1 j = event_count s j" if "j \<in> set ids" for j
    using records_other [OF assms(1)] other [OF that] by simp_all
  have i: "contents s' (event_file C i) = contents s1 (event_file C i)" "event_count s' i = event_count s1 i"
    using assms(2,5) other by (auto simp: records_all_def contents_def event_count_def)
  have "appends (contents s (event_file C i)) (recorded C (of_session i events)) ok (contents s' (event_file C i))"
    using assms(1) by (auto simp: i records_def intro: appendsI)
  then show ?thesis
    using assms(1,2) by (auto simp: records_all_def records_def i j)
qed

lemma wp_started:
  assumes "recording_ok C s" and "is_abs (se_basePath C)" and "segment i"
  shows "wp (if fmlookup (lo_sessions s) i = None then StartSession C v i else State_Monad.return None)
    (\<lambda>r s'. recording_ok C s' \<and> (r = None \<longrightarrow> tracked C i s') \<and> records C i [] True s s') s"
proof (cases "fmlookup (lo_sessions s) i = None")
  case True
  have "recording_ok C s'" if "records C i [] True s s'" "fmlookup (lo_sessions s') i \<noteq> None \<longrightarrow> tracked C i s'" for s'
    using recording_ok_records [OF assms(1) that(1) assms(2,3) that(2)] .
  then show ?thesis
    using True by simp (rule wp_mono [OF wp_StartSession [OF assms(2,3) True]], auto split: if_splits)
next
  case False
  then show ?thesis using assms(1) by (auto simp: recording_ok_def records_none)
qed

lemma wp_write_sessions:
  assumes "is_abs (se_basePath C)"
  shows "recording_ok C s \<Longrightarrow> list_all segment ids \<Longrightarrow> distinct ids \<Longrightarrow>
    wp (write_sessions C ids events) (\<lambda>r s'. recording_ok C s' \<and> records_all C ids events (r = None) s s') s"
proof (induction ids arbitrary: s)
  case Nil
  then show ?case by (simp add: records_all_def)
next
  case (Cons i ids)
  let ?post = "\<lambda>r s'. recording_ok C s' \<and> records_all C (i # ids) events (r = None) s s'"
  have i: "segment i" using Cons.prems by simp
  have failed: "?post (Some e) s1" if "recording_ok C s1" "records C i es False s s1" "es = [] \<or> es = of_session i events" for e s1 es
    using that records_all_fail [OF that(2,3) assms Cons.prems(2,3)] by simp
  have rest: "wp (write_sessions C ids events) ?post s1" if "recording_ok C s1" "records C i (of_session i events) True s s1" for s1
    by (rule wp_mono [OF Cons.IH [OF that(1)]]) (use Cons.prems records_all_Cons [OF that(2) _ assms Cons.prems(2,3)] in auto)
  have written: "wp (case r of Some err \<Rightarrow> State_Monad.return (Some err) | None \<Rightarrow> write_sessions C ids events) ?post s2"
    if s1: "recording_ok C s1" "records C i [] True s s1" and s2: "tracked C i s2" "records C i (of_session i events) (r = None) s1 s2" for s1 s2 r
  proof -
    have "recording_ok C s2" by (rule recording_ok_records [OF s1(1) s2(2) assms i]) (use s2(1) in simp)
    then show ?thesis using records_trans [OF s1(2) s2(2)] failed rest by (cases r) auto
  qed
  have started: "wp (case r of Some err \<Rightarrow> State_Monad.return (Some (NotStarted err)) | None \<Rightarrow> do {
      r \<leftarrow> write_events C i (of_session i events);
      case r of Some err \<Rightarrow> State_Monad.return (Some err) | None \<Rightarrow> write_sessions C ids events }) ?post s1"
    if s1: "recording_ok C s1" "r = None \<longrightarrow> tracked C i s1" "records C i [] True s s1" for s1 r
  proof (cases r)
    case None
    with s1 have "tracked C i s1" by simp
    from wp_mono [OF wp_write_events [OF this]] written [OF s1(1,3)] None show ?thesis by (simp add: wp_bind)
  next
    case (Some e)
    have "records C i [] False s s1" using s1(3) by (auto simp: records_def)
    with failed [OF s1(1)] Some show ?thesis by simp
  qed
  show ?case
    unfolding write_sessions.simps wp_bind wp_session
    by (rule wp_mono [OF wp_started [OF Cons.prems(1) assms i]]) (use started in auto)
qed

text \<open>C38. Recording a batch, with no other call in between. Whatever fails, only the files of the sessions in the batch change, and the file of each of them keeps what it had, followed by a part of
  the encodings of this session's events in the order of the batch; every active session stays consistent. When the call succeeds, it is all of
  them, and the counters have grown by their numbers. The directory of the recordings is absolute, and the identifiers have to be single components of a path: otherwise two
  of them, like \<open>b\<close> and \<open>./b\<close>, can name the same file.\<close>

theorem Write_records:
  assumes "recording_ok C s" and "is_abs (se_basePath C)" and "list_all (\<lambda>e. segment (ev_SessionID e)) events"
    and "mset (se_groups C (remdups (map ev_SessionID events))) = mset (remdups (map ev_SessionID events))"
    and "run_state (Write C events) s = (r, s')"
  shows "recording_ok C s' \<and> records_all C (remdups (map ev_SessionID events)) events (r = None) s s'"
proof -
  let ?ids = "remdups (map ev_SessionID events)" and ?order = "se_groups C (remdups (map ev_SessionID events))"
  have same: "set ?order = set ?ids" "distinct ?order"
    using assms(4) mset_eq_setD [OF assms(4)] mset_eq_imp_distinct_iff [OF assms(4)] by auto
  then have "list_all segment ?order" using assms(3) by (auto simp: list_all_iff)
  then have "wp (Write C events) (\<lambda>r s'. recording_ok C s' \<and> records_all C ?order events (r = None) s s') s"
    using wp_write_sessions [OF assms(2,1) _ same(2)] assms(1) by (auto simp: Write_def records_all_def of_session_def)
  then show ?thesis using assms(5) same(1) by (auto simp: wp_def records_all_def)
qed

subsection \<open>Reading a recording\<close>

definition decodable :: "'h storage_env \<Rightarrow> Event \<Rightarrow> bool" where
  "decodable C e \<longleftrightarrow> (let es = se_entries C (ev_Metadata e) in sendable es e \<and> distinct (map fst es) \<and> ev_Metadata e = fmap_of_list es)"

lemma read_recorded: "list_all (decodable C) es \<Longrightarrow> read_stream (recorded C es, True) = (es, EndOfStream)"
proof (induction es)
  case (Cons e es)
  then have "reads ReadEvent (event_bytes (se_entries C (ev_Metadata e)) e) e"
    by (auto simp: decodable_def Let_def intro: reads_event)
  with Cons show ?case by (simp add: read_stream_Cons)
qed simp

lemma recorded_append: "recorded C (es @ es') = recorded C es @ recorded C es'"
  by (simp add: recorded_def)

text \<open>What was recorded can be read: when the file of a session holds a sequence of events, and a batch is written without an error, then reading the
  file gives these events and after them the session's events of the batch, in order, up to the end of the file.\<close>

theorem recording_read_back:
  assumes "recording_ok C s" and "is_abs (se_basePath C)" and "list_all (\<lambda>e. segment (ev_SessionID e)) events"
    and "mset (se_groups C (remdups (map ev_SessionID events))) = mset (remdups (map ev_SessionID events))"
    and "run_state (Write C events) s = (None, s')"
    and "contents s (event_file C i) = recorded C old" and "i \<in> ev_SessionID ` set events" and "list_all (decodable C) (old @ events)"
  shows "read_stream (contents s' (event_file C i), True) = (old @ of_session i events, EndOfStream)"
proof -
  let ?order = "se_groups C (remdups (map ev_SessionID events))"
  have order: "set ?order = ev_SessionID ` set events" "distinct ?order"
    using mset_eq_setD [OF assms(4)] mset_eq_imp_distinct_iff [OF assms(4)] by auto
  then have "list_all segment ?order" using assms(3) by (auto simp: list_all_iff)
  moreover have "events \<noteq> []" using assms(7) by auto
  ultimately have "wp (Write C events) (\<lambda>r s'. records_all C ?order events (r = None) s s') s"
    using wp_mono [OF wp_write_sessions [OF assms(2,1) _ order(2), of events]] by (simp add: Write_def)
  then have "contents s' (event_file C i) = recorded C (old @ of_session i events)"
    using assms(5,6,7) order(1) by (auto simp: wp_def records_all_def recorded_append)
  moreover have "list_all (decodable C) (old @ of_session i events)"
    using assms(8) by (auto simp: list_all_iff of_session_def)
  ultimately show ?thesis by (simp add: read_recorded)
qed

subsection \<open>Finishing a recording\<close>

definition compressed_file :: "'h storage_env \<Rightarrow> string \<Rightarrow> location" where
  "compressed_file C i = locate (se_os C) (path_join [session_path C i, ''events.bin.zst''])"

lemma compressed_location:
  assumes "is_abs (se_basePath C)" and "segment i"
  shows "compressed_file C i \<noteq> event_file C i" "compressed_file C i \<noteq> metadata_file C i" "event_file C i \<noteq> metadata_file C i"
proof -
  have "is_abs (session_path C i)"
    using assms by (cases "se_basePath C") (auto simp: session_path_def segment_def is_abs_path_clean path_join.simps)
  moreover have "segment ''events.bin.zst''" by (simp add: segment_def dotdot_def)
  ultimately have "compressed_file C i = locate (se_os C) (se_basePath C) @ [i, ''events.bin.zst'']"
    using locate_join [of "session_path C i" "''events.bin.zst''" "se_os C"] locate_join [OF assms, of "se_os C"]
    unfolding compressed_file_def session_path_def [of C i] by simp
  then show "compressed_file C i \<noteq> event_file C i" "compressed_file C i \<noteq> metadata_file C i" "event_file C i \<noteq> metadata_file C i"
    by (simp_all add: session_locations [OF assms])
qed

lemma wp_compressFileI:
  assumes "\<And>d'. dk_files d' = dk_files d \<Longrightarrow> Q False d'"
    and "\<And>d' y. dk_files d' = fmupd (locate (se_os C) dst) y (dk_files d) \<Longrightarrow> Q False d'"
    and "\<And>d' x. fmlookup (dk_files d) (locate (se_os C) src) = Some x \<Longrightarrow> dk_files d' = fmupd (locate (se_os C) dst) (se_compress C x) (dk_files d) \<Longrightarrow> Q True d'"
  shows "wp (compressFile C src dst) Q d"
  unfolding compressFile_def wp_bind
  apply (rule wp_f_openI)
   apply (simp add: assms(1))
  apply simp
  apply (rule wp_f_createI)
   apply (simp add: assms(1))
  apply simp
  apply (rule wp_attemptI)
  apply (simp add: assms(2))
  apply (intro impI)
  apply (rule wp_f_copyI)
   apply (auto intro: assms(2,3))
  done

text \<open>Whatever fails, finishing loses no recorded byte: the stream is still there, or its compressed form is. When the call succeeds it is the
  compressed form, and the session is no longer active.\<close>

lemma Finalize_keeps_recording:
  assumes "fmlookup (lo_sessions s) i = Some l" and "ls_path l = session_path C i" and "is_abs (se_basePath C)" and "segment i"
    and "fmlookup (dk_files (lo_disk s)) (event_file C i) = Some x"
  shows "wp (Finalize C i) (\<lambda>r s'. (fmlookup (dk_files (lo_disk s')) (event_file C i) = Some x
      \<or> fmlookup (dk_files (lo_disk s')) (compressed_file C i) = Some (se_compress C x))
    \<and> (r = None \<longrightarrow> fmlookup (dk_files (lo_disk s')) (compressed_file C i) = Some (se_compress C x) \<and> fmlookup (lo_sessions s') i = None)) s"
proof -
  let ?post = "\<lambda>r s'. (fmlookup (dk_files (lo_disk s')) (event_file C i) = Some x
      \<or> fmlookup (dk_files (lo_disk s')) (compressed_file C i) = Some (se_compress C x))
    \<and> (r = None \<longrightarrow> fmlookup (dk_files (lo_disk s')) (compressed_file C i) = Some (se_compress C x) \<and> fmlookup (lo_sessions s') i = None)"
  note apart = compressed_location [OF assms(3,4)]
  note files = event_file_def [of C i, unfolded events_path_def, symmetric] metadata_file_def [of C i, symmetric] compressed_file_def [of C i, symmetric]
  define P where "P d \<longleftrightarrow> fmlookup (dk_files d) (compressed_file C i) = Some (se_compress C x)" for d :: "'a disk"
  have rm: "P d \<Longrightarrow> wp (f_remove (se_os C) (path_join [session_path C i, ''events.bin''])) (\<lambda>_. P) d" for d
    by (rule wp_f_removeI) (use apart in \<open>simp_all add: P_def files\<close>)
  have dr: "P d \<Longrightarrow> wp (draw m) (\<lambda>_. P) d" for d and m :: "('a, int) comp" by (rule wp_drawI) (simp add: P_def)
  have at: "P d \<Longrightarrow> wp (attempt (se_os C)) (\<lambda>_. P) d" for d by (rule wp_attemptI) (simp add: P_def)
  have md: "P d \<Longrightarrow> wp (writeMetadata C (session_path C i) m) (\<lambda>_. P) d" for d m
    by (rule wp_writeMetadataI) (use apart in \<open>simp_all add: P_def files\<close>)
  have finished: "wp (finish C i l') ?post s1" if "P (lo_disk s1)" "ls_path l' = session_path C i" for s1 l'
    unfolding finish_def Let_def wp_bind wp_recording_disk that(2)
    apply (rule wp_mono [OF rm [OF that(1)]], rule wp_mono [OF dr], simp, rule wp_mono [OF at], simp, simp, rule wp_mono [OF md], simp)
    apply (simp add: P_def)
    done
  have failed: "wp (writeMetadata C (session_path C i) m) (\<lambda>_ d'. fmlookup (dk_files d') (event_file C i) = Some x) d"
    if "fmlookup (dk_files d) (event_file C i) = Some x" for d m
    by (rule wp_writeMetadataI) (use apart that in \<open>simp_all add: files\<close>)
  show ?thesis
    unfolding Finalize_def Let_def wp_bind wp_session wp_recording_disk
    apply (simp add: assms(1,2))
    apply (rule wp_compressFileI; simp add: files assms(2))
      apply (rule wp_mono [OF failed]; simp add: assms(5))
     apply (rule wp_mono [OF failed]; simp add: assms(5) apart)
    apply (rule finished; simp add: P_def assms(2,5))
    done
qed

subsection \<open>A recording\<close>

definition steady_os :: "unit os" where
  "steady_os = \<lparr>of_fault = State_Monad.return False, of_count = State_Monad.return 0, of_kept = State_Monad.return (\<lambda>_. False),
     of_random = State_Monad.return 0, of_now = State_Monad.return 9, of_cwd = ''/''\<rparr>"

definition demo_storage :: "unit storage_env" where
  "demo_storage = \<lparr>se_os = steady_os, se_basePath = ''/r'', se_retentionDays = 30, se_marshal = (\<lambda>_. Some ''m''), se_unmarshal = (\<lambda>_. None),
     se_compress = (\<lambda>x. x), se_add_days = (\<lambda>t d. t + d), se_entries = (\<lambda>_. [(''user'', ''root''), (''tty'', ''0'')]), se_groups = (\<lambda>xs. xs)\<rparr>"

definition empty_storage :: "unit LocalStorage" where
  "empty_storage = \<lparr>lo_sessions = fmempty, lo_disk = \<lparr>dk_files = fmempty, dk_host = ()\<rparr>\<rparr>"

lemma steady_simps [simp]:
  "of_fault steady_os = State_Monad.return False" "of_now steady_os = State_Monad.return 9"
  "se_os demo_storage = steady_os" "se_basePath demo_storage = ''/r''" "se_marshal demo_storage m = Some ''m''"
  "se_entries demo_storage x = [(''user'', ''root''), (''tty'', ''0'')]" "se_groups demo_storage xs = xs"
  by (simp_all add: steady_os_def demo_storage_def)

lemma steady_attempt [simp]: "wp (attempt steady_os) Q w = Q True w" "wp (draw (State_Monad.return (a :: 'a))) R (w :: unit disk) = R a w"
  by (cases w; simp add: attempt_def draw_def)+

lemma demo_recording_paths [simp]:
  "session_path demo_storage ''s-1'' = ''/r/s-1''" "path_join [''/r/s-1'', ''events.bin''] = ''/r/s-1/events.bin''"
  "path_join [''/r/s-1'', ''metadata.json''] = ''/r/s-1/metadata.json''"
  "locate steady_os ''/r/s-1/events.bin'' = [''r'', ''s-1'', ''events.bin'']" "locate steady_os ''/r/s-1/metadata.json'' = [''r'', ''s-1'', ''metadata.json'']"
  "session_path demo_storage ''../x'' = ''/x''" "path_join [''/x'', ''events.bin''] = ''/x/events.bin''"
  "path_join [''/x'', ''metadata.json''] = ''/x/metadata.json''"
  "locate steady_os ''/x/events.bin'' = [''x'', ''events.bin'']" "locate steady_os ''/x/metadata.json'' = [''x'', ''metadata.json'']"
  by code_simp+

text \<open>The storage while it holds some bytes in the file of the session.\<close>

definition demo_session :: localSession where
  "demo_session = \<lparr>ls_metadata = \<lparr>sm_ID = ''s-1'', sm_VMID = ''vm-1'', sm_StartedAt = 9, sm_EndedAt = None, sm_EventCount = 0, sm_SizeBytes = 0,
     sm_Status = ''active'', sm_Compressed = False\<rparr>, ls_file = Some ''/r/s-1/events.bin'', ls_path = ''/r/s-1''\<rparr>"

definition demo_holding :: "string \<Rightarrow> unit LocalStorage" where
  "demo_holding b = \<lparr>lo_sessions = fmupd ''s-1'' demo_session fmempty,
     lo_disk = \<lparr>dk_files = fmupd [''r'', ''s-1'', ''metadata.json''] ''m'' (fmupd [''r'', ''s-1'', ''events.bin''] b fmempty), dk_host = ()\<rparr>\<rparr>"

interpretation demo_file: sure_sink "to_file demo_storage ''s-1''" demo_holding
proof
  fix x Q b
  have swap: "fmupd [''r'', ''s-1'', ''events.bin''] y (fmupd [''r'', ''s-1'', ''metadata.json''] ''m'' (fmupd [''r'', ''s-1'', ''events.bin''] b fmempty))
    = fmupd [''r'', ''s-1'', ''metadata.json''] ''m'' (fmupd [''r'', ''s-1'', ''events.bin''] y fmempty)" for y
    by (rule fmap_ext) auto
  show "wp (to_file demo_storage ''s-1'' x) Q (demo_holding b) = Q True (demo_holding (b @ x))"
    by (simp add: to_file_def demo_holding_def demo_session_def f_append_def swap)
qed

lemma demo_write:
  "wp (Write demo_storage [sample_event]) (\<lambda>r _. r = None) empty_storage"
proof -
  have id: "ev_SessionID sample_event = ''s-1''" "ev_VMID sample_event = ''vm-1''" by (simp_all add: sample_event_def)
  have start: "wp (StartSession demo_storage ''vm-1'' ''s-1'') Q empty_storage = Q None (demo_holding [])" for Q
    by (simp add: StartSession_def Let_def empty_storage_def f_mkdir_all_def f_open_append_def writeMetadata_def f_write_file_def f_create_def f_copy_def
        demo_holding_def demo_session_def)
  show ?thesis
    by (simp add: Write_def id of_session_def start demo_file.wp_event [OF sample_sendable])
      (simp add: empty_storage_def)
qed

lemma demo_facts:
  "recording_ok demo_storage empty_storage" "is_abs (se_basePath demo_storage)" "list_all (\<lambda>e. segment (ev_SessionID e)) [sample_event]"
  "mset (se_groups demo_storage (remdups (map ev_SessionID [sample_event]))) = mset (remdups (map ev_SessionID [sample_event]))"
  by (simp_all add: recording_ok_def empty_storage_def segment_def sample_event_def dotdot_def)

lemma demo_run: "\<exists>s'. run_state (Write demo_storage [sample_event]) empty_storage = (None, s')"
  using demo_write by (auto simp: wp_def split: prod.splits)

theorem Write_records_witness:
  "\<exists>s'. run_state (Write demo_storage [sample_event]) empty_storage = (None, s') \<and> recording_ok demo_storage s'
     \<and> event_count s' ''s-1'' = 1"
proof -
  obtain s' where run: "run_state (Write demo_storage [sample_event]) empty_storage = (None, s')" using demo_run by blast
  have "ev_SessionID sample_event = ''s-1''" by (simp add: sample_event_def)
  with Write_records [OF demo_facts run] run show ?thesis
    by (auto simp: records_all_def of_session_def event_count_def empty_storage_def)
qed

theorem recording_read_back_witness:
  "\<exists>s'. run_state (Write demo_storage [sample_event]) empty_storage = (None, s')
     \<and> read_stream (contents s' [''r'', ''s-1'', ''events.bin''], True) = ([sample_event], EndOfStream)"
proof -
  obtain s' where run: "run_state (Write demo_storage [sample_event]) empty_storage = (None, s')" using demo_run by blast
  have id: "ev_SessionID sample_event = ''s-1''" by (simp add: sample_event_def)
  have "list_all (decodable demo_storage) ([] @ [sample_event])"
    by (simp add: decodable_def sample_sendable sample_metadata)
  from recording_read_back [OF demo_facts run _ _ this, of "''s-1''"] run show ?thesis
    by (auto simp: id of_session_def event_file_def events_path_def contents_def empty_storage_def)
qed

text \<open>The identifier of a session comes from the machine, and nothing checks it: with \<open>../x\<close> the files are made outside the directory of recordings.\<close>

lemma session_escapes:
  "wp (StartSession demo_storage ''vm-1'' ''../x'') (\<lambda>r s'. r = None \<and> fmlookup (dk_files (lo_disk s')) [''x'', ''events.bin''] = Some []) empty_storage
   \<and> locate steady_os (se_basePath demo_storage) = [''r'']"
proof -
  have "locate steady_os ''/r'' = [''r'']" by code_simp
  then show ?thesis
    by (simp add: StartSession_def Let_def empty_storage_def f_mkdir_all_def f_open_append_def writeMetadata_def f_write_file_def f_create_def f_copy_def)
qed

end
