(* ===== verification/Recording_API.thy ===== *)
theory Recording_API
  imports Recording_Storage Types
begin

section \<open>The routes of recordings (internal/api/recording\_handlers.go)\<close>

text \<open>
  The handlers work on any storage that offers the interface \<open>RecordingStorageInterface\<close>, and on the table of machines for one of them. Times
  are left unformatted. A handler that follows a nil pointer ends in \<open>RecordingPanic\<close>.
\<close>

subsection \<open>Structures\<close>

record RecordingSessionResponse =
  rp_ID :: string
  rp_VMID :: string
  rp_StartedAt :: int
  rp_EndedAt :: "int option"
  rp_EventCount :: int
  rp_SizeBytes :: int
  rp_Status :: string
  rp_Compressed :: bool

text \<open>The page of events is always empty; it has the offset, the limit and the total.\<close>

datatype recording_reply =
    RecordingError nat ErrorCode
  | ListRecordingsResponse "RecordingSessionResponse list" nat
  | RecordingResponse RecordingSessionResponse
  | ListEventsResponse int int int
  | RecordingDeleted
  | RecordingPanic

text \<open>The interface. \<open>GetSession\<close> returns an error (\<open>None\<close>), a nil pointer (\<open>Some None\<close>) or metadata.\<close>

record 's RecordingStorageInterface =
  ri_ListSessions :: "string \<Rightarrow> ('s, SessionMetadata list option) comp"
  ri_GetSession :: "string \<Rightarrow> ('s, SessionMetadata option option) comp"
  ri_Finalize :: "string \<Rightarrow> ('s, bool) comp"
  ri_DeleteSession :: "string \<Rightarrow> ('s, bool) comp"

definition session_response :: "SessionMetadata \<Rightarrow> RecordingSessionResponse" where
  "session_response m = \<lparr>rp_ID = sm_ID m, rp_VMID = sm_VMID m, rp_StartedAt = sm_StartedAt m, rp_EndedAt = sm_EndedAt m,
     rp_EventCount = sm_EventCount m, rp_SizeBytes = sm_SizeBytes m, rp_Status = sm_Status m, rp_Compressed = sm_Compressed m\<rparr>"

subsection \<open>Handlers\<close>

definition unavailable :: recording_reply where
  "unavailable = RecordingError 503 ErrInternalError"

definition list_reply :: "SessionMetadata list option \<Rightarrow> recording_reply" where
  "list_reply r = (case r of None \<Rightarrow> RecordingError 500 ErrInternalError
     | Some ms \<Rightarrow> ListRecordingsResponse (map session_response ms) (length ms))"

definition handleListRecordings :: "'s RecordingStorageInterface option \<Rightarrow> string \<Rightarrow> ('s, recording_reply) comp" where
  "handleListRecordings storage vmID = (case storage of
     None \<Rightarrow> State_Monad.return unavailable
   | Some I \<Rightarrow> do { r \<leftarrow> ri_ListSessions I vmID; State_Monad.return (list_reply r) })"

text \<open>What the handlers of one recording share: the storage, the identifier, the look-up.\<close>

definition with_recording :: "'s RecordingStorageInterface option \<Rightarrow> string
    \<Rightarrow> ('s RecordingStorageInterface \<Rightarrow> SessionMetadata \<Rightarrow> ('s, recording_reply) comp) \<Rightarrow> ('s, recording_reply) comp" where
  "with_recording storage sessionID f = (case storage of
     None \<Rightarrow> State_Monad.return unavailable
   | Some I \<Rightarrow>
       if sessionID = [] then State_Monad.return (RecordingError 400 ErrInvalidRequest) else do {
       r \<leftarrow> ri_GetSession I sessionID;
       case r of
         None \<Rightarrow> State_Monad.return (RecordingError 500 ErrInternalError)
       | Some None \<Rightarrow> State_Monad.return (RecordingError 404 ErrRecordingNotFound)
       | Some (Some m) \<Rightarrow> f I m })"

definition handleGetRecording :: "'s RecordingStorageInterface option \<Rightarrow> string \<Rightarrow> ('s, recording_reply) comp" where
  "handleGetRecording storage sessionID = with_recording storage sessionID (\<lambda>_ m. State_Monad.return (RecordingResponse (session_response m)))"

text \<open>\<open>strconv.Atoi\<close>: an optional sign and decimal digits, within 64 bits.\<close>

definition atoi :: "string \<Rightarrow> int option" where
  "atoi s = (let negative = (s \<noteq> [] \<and> hd s = CHR ''-''); digits = (if s \<noteq> [] \<and> (hd s = CHR ''-'' \<or> hd s = CHR ''+'') then tl s else s);
       n = (if negative then - int (digits_value digits) else int (digits_value digits)) in
     if digits \<noteq> [] \<and> list_all (\<lambda>c. CHR ''0'' \<le> c \<and> c \<le> CHR ''9'') digits \<and> - (2 ^ 63) \<le> n \<and> n < 2 ^ 63 then Some n else None)"

definition page_offset :: "string \<Rightarrow> int" where
  "page_offset s = (case atoi s of Some n \<Rightarrow> if s \<noteq> [] \<and> n \<ge> 0 then n else 0 | None \<Rightarrow> 0)"

definition page_limit :: "string \<Rightarrow> int" where
  "page_limit s = (case atoi s of Some n \<Rightarrow> if s \<noteq> [] \<and> n > 0 \<and> n \<le> 1000 then n else 100 | None \<Rightarrow> 100)"

definition handleGetRecordingEvents :: "'s RecordingStorageInterface option \<Rightarrow> string \<Rightarrow> string \<Rightarrow> string \<Rightarrow> ('s, recording_reply) comp" where
  "handleGetRecordingEvents storage sessionID offsetStr limitStr = with_recording storage sessionID (\<lambda>_ m.
     State_Monad.return (ListEventsResponse (page_offset offsetStr) (page_limit limitStr) (sm_EventCount m)))"

definition handleFinalizeRecording :: "'s RecordingStorageInterface option \<Rightarrow> string \<Rightarrow> ('s, recording_reply) comp" where
  "handleFinalizeRecording storage sessionID = with_recording storage sessionID (\<lambda>I m.
     if sm_Status m \<noteq> ''active'' then State_Monad.return (RecordingError 409 ErrInvalidRequest) else do {
     ok \<leftarrow> ri_Finalize I sessionID;
     if \<not> ok then State_Monad.return (RecordingError 500 ErrInternalError) else do {
     r \<leftarrow> ri_GetSession I sessionID;
     State_Monad.return (case r of Some (Some m') \<Rightarrow> RecordingResponse (session_response m') | _ \<Rightarrow> RecordingPanic) }})"

definition handleDeleteRecording :: "'s RecordingStorageInterface option \<Rightarrow> string \<Rightarrow> ('s, recording_reply) comp" where
  "handleDeleteRecording storage sessionID = with_recording storage sessionID (\<lambda>I _. do {
     ok \<leftarrow> ri_DeleteSession I sessionID;
     State_Monad.return (if ok then RecordingDeleted else RecordingError 500 ErrInternalError) })"

text \<open>The look-up in the table of machines is a computation on the same state.\<close>

definition handleListVMRecordings :: "'s RecordingStorageInterface option \<Rightarrow> (string \<Rightarrow> ('s, VM option option) comp) \<Rightarrow> string \<Rightarrow> ('s, recording_reply) comp" where
  "handleListVMRecordings storage getVM vmID = (case storage of
     None \<Rightarrow> State_Monad.return unavailable
   | Some I \<Rightarrow>
       if vmID = [] then State_Monad.return (RecordingError 400 ErrInvalidRequest) else do {
       v \<leftarrow> getVM vmID;
       case v of
         None \<Rightarrow> State_Monad.return (RecordingError 500 ErrInternalError)
       | Some None \<Rightarrow> State_Monad.return (RecordingError 404 ErrVMNotFound)
       | Some (Some vm) \<Rightarrow> do { r \<leftarrow> ri_ListSessions I (vm_ID vm); State_Monad.return (list_reply r) }})"

subsection \<open>On the local storage\<close>

text \<open>\<open>LocalStorage\<close> as the storage of the handlers. It never returns a nil pointer without an error.\<close>

definition local_recordings :: "'h storage_env \<Rightarrow> 'h LocalStorage RecordingStorageInterface" where
  "local_recordings C = \<lparr>
     ri_ListSessions = (\<lambda>vmID. do { r \<leftarrow> ListSessions C vmID; State_Monad.return (case r of Inl _ \<Rightarrow> None | Inr ms \<Rightarrow> Some ms) }),
     ri_GetSession = (\<lambda>i. do { r \<leftarrow> GetSession C i; State_Monad.return (map_option Some r) }),
     ri_Finalize = (\<lambda>i. do { r \<leftarrow> Finalize C i; State_Monad.return (r = None) }),
     ri_DeleteSession = (\<lambda>i. do { r \<leftarrow> DeleteSession C i; State_Monad.return (r = None) })\<rparr>"

lemma page_bounds: "0 \<le> page_offset s \<and> 1 \<le> page_limit s \<and> page_limit s \<le> 1000"
  by (simp add: page_offset_def page_limit_def split: option.split)

text \<open>A recording that is not there is answered with 500, never with 404.\<close>

lemma local_never_404:
  "wp (with_recording (Some (local_recordings C)) i f) (\<lambda>r _. r \<noteq> RecordingError 404 ErrRecordingNotFound) s"
  if "\<And>m s. wp (f (local_recordings C) m) (\<lambda>r _. r \<noteq> RecordingError 404 ErrRecordingNotFound) s"
  unfolding with_recording_def
  by (auto simp: local_recordings_def wp_iff_run split: option.splits) (use that in \<open>auto simp: local_recordings_def wp_iff_run\<close>)

end
