(* ===== verification/Recording_Receiver.thy ===== *)
theory Recording_Receiver
  imports Recording_Events "HOL-Library.Sublist" "HOL-Library.Multiset"
begin

section \<open>Receiving events (internal/recording/receiver.go)\<close>

text \<open>
  The receiver serves each connection of a machine with a pair of goroutines: one reads events and puts them into a channel, the other
  takes them out, collects them in batches and writes the batches to the storage. A custom handler, if there is one, takes events from the same channel.
  The goroutines interleave freely: a state has all handlers that registered and did not return yet, and a step is an iteration of one of their loops, the
  arrival of a connection, the end of the context that \<open>Start\<close> was given, or the call of \<open>Stop\<close>. Everything between two blocking operations is one step; the shared
  tables are guarded by a lock. Listening and the log are left out. The bytes of a connection are not part of the state: \<open>Read\<close> yields any event, so that what follows a time-out
  is covered too, which loses the bytes that \<open>ReadEvent\<close> had already taken when it comes in the middle of an event. A custom handler is not waited for; what it does after the
  return of \<open>handleConnection\<close> is not followed. The capacity of the channel is not negative (\<open>make\<close> panics otherwise).
\<close>

subsection \<open>Structures\<close>

datatype SessionState = SessionStateActive | SessionStateCompleted | SessionStateFailed

record Session =
  rx_ID :: string
  rx_VMID :: string
  rx_CID :: "32 word"
  rx_StartTime :: int
  rx_EndTime :: "int option"
  rx_Events :: int
  rx_Bytes :: int
  rx_State :: SessionState

text \<open>A running \<open>handleConnection\<close>: whether its reader and its processor still run, whether its context is cancelled and its channel closed, what is in the channel
  and in the batch, and, to state what happened, the events it read, those that found room in the channel, the batches that were handed to the storage, each with whether \<open>Write\<close> succeeded, and what the custom handler took.\<close>

record handler =
  hd_cid :: "32 word"
  hd_reading :: bool
  hd_processing :: bool
  hd_cancelled :: bool
  hd_closed :: bool
  hd_channel :: "Event list"
  hd_batch :: "Event list"
  hd_flushed :: "(bool \<times> Event list) list"
  hd_handled :: "Event list"
  hd_read :: "Event list"
  hd_accepted :: "Event list"

record Receiver =
  rv_bufferSize :: nat
  rv_storage :: bool
  rv_custom :: bool
  rv_cancelled :: bool
  rv_sessions :: "(string, Session) fmap"
  rv_connections :: "(32 word, nat) fmap"
  rv_handlers :: "(nat, handler) fmap"

definition NewReceiver :: "nat \<Rightarrow> bool \<Rightarrow> bool \<Rightarrow> Receiver" where
  "NewReceiver n storage custom = \<lparr>rv_bufferSize = n, rv_storage = storage, rv_custom = custom, rv_cancelled = False, rv_sessions = fmempty,
     rv_connections = fmempty, rv_handlers = fmempty\<rparr>"

definition Receiver_GetSession :: "Receiver \<Rightarrow> string \<Rightarrow> Session option" where
  "Receiver_GetSession R i = fmlookup (rv_sessions R) i"

definition GetActiveConnections :: "Receiver \<Rightarrow> nat" where
  "GetActiveConnections R = fcard (fmdom (rv_connections R))"

subsection \<open>Reading\<close>

definition session_started :: "32 word \<Rightarrow> Event \<Rightarrow> (string, Session) fmap \<Rightarrow> (string, Session) fmap" where
  "session_started cid e S = (if ev_Type e = EventSessionStart
     then fmupd (ev_SessionID e) \<lparr>rx_ID = ev_SessionID e, rx_VMID = ev_VMID e, rx_CID = cid, rx_StartTime = ev_Timestamp e, rx_EndTime = None,
       rx_Events = 0, rx_Bytes = 0, rx_State = SessionStateActive\<rparr> S
     else S)"

definition session_counted :: "Event \<Rightarrow> (string, Session) fmap \<Rightarrow> (string, Session) fmap" where
  "session_counted e S = (case fmlookup S (ev_SessionID e) of None \<Rightarrow> S
     | Some x \<Rightarrow> fmupd (ev_SessionID e) (x\<lparr>rx_Events := rx_Events x + 1, rx_Bytes := rx_Bytes x + int (length (ev_Payload e))\<rparr>) S)"

definition session_ended :: "Event \<Rightarrow> (string, Session) fmap \<Rightarrow> (string, Session) fmap" where
  "session_ended e S = (if ev_Type e = EventSessionEnd
     then (case fmlookup S (ev_SessionID e) of None \<Rightarrow> S
       | Some x \<Rightarrow> fmupd (ev_SessionID e) (x\<lparr>rx_EndTime := Some (ev_Timestamp e), rx_State := SessionStateCompleted\<rparr>) S)
     else S)"

text \<open>An iteration of \<open>readEvents\<close> that got an event. When the channel is full the event is dropped. A channel of capacity zero has room only while a
  receiver waits: the steps \<open>HandOver\<close> and \<open>HandOverCustom\<close> below are an iteration with room for one followed at once by the receiver's.\<close>

definition receive :: "nat \<Rightarrow> Event \<Rightarrow> handler \<Rightarrow> (string, Session) fmap \<Rightarrow> handler \<times> (string, Session) fmap" where
  "receive bufferSize e h S =
     (let S1 = session_started (hd_cid h) e S; room = length (hd_channel h) < bufferSize; seen = h\<lparr>hd_read := hd_read h @ [e]\<rparr> in
      if room then (seen\<lparr>hd_channel := hd_channel h @ [e], hd_accepted := hd_accepted h @ [e]\<rparr>, session_ended e (session_counted e S1))
      else (seen, session_ended e S1))"

subsection \<open>Processing\<close>

text \<open>The closure \<open>flush\<close>, \<open>ok\<close> telling whether \<open>storage.Write\<close> succeeded. Its error is only logged and the batch is emptied all the same; without a storage the batch is forgotten.\<close>

definition flush :: "bool \<Rightarrow> bool \<Rightarrow> handler \<Rightarrow> handler" where
  "flush storage ok h = (if hd_batch h = [] then h
     else h\<lparr>hd_flushed := (if storage then hd_flushed h @ [(ok, hd_batch h)] else hd_flushed h), hd_batch := []\<rparr>)"

definition take_event :: "bool \<Rightarrow> bool \<Rightarrow> Event \<Rightarrow> Event list \<Rightarrow> handler \<Rightarrow> handler" where
  "take_event storage ok e rest h = (let h1 = h\<lparr>hd_channel := rest, hd_batch := hd_batch h @ [e]\<rparr> in
     if length (hd_batch h1) \<ge> 100 then flush storage ok h1 else h1)"

definition handle_event :: "Event \<Rightarrow> Event list \<Rightarrow> handler \<Rightarrow> handler" where
  "handle_event e rest h = h\<lparr>hd_channel := rest, hd_handled := hd_handled h @ [e]\<rparr>"

text \<open>The events of the batches that were handed over, and of those that \<open>Write\<close> took without an error.\<close>

definition flushed_events :: "handler \<Rightarrow> Event list" where
  "flushed_events h = concat (map snd (hd_flushed h))"

definition stored_events :: "handler \<Rightarrow> Event list" where
  "stored_events h = concat (map snd (filter fst (hd_flushed h)))"

subsection \<open>Steps\<close>

definition new_handler :: "32 word \<Rightarrow> bool \<Rightarrow> handler" where
  "new_handler cid cancelled = \<lparr>hd_cid = cid, hd_reading = True, hd_processing = True, hd_cancelled = cancelled, hd_closed = False,
     hd_channel = [], hd_batch = [], hd_flushed = [], hd_handled = [], hd_read = [], hd_accepted = []\<rparr>"

definition put_handler :: "nat \<Rightarrow> handler \<Rightarrow> Receiver \<Rightarrow> Receiver" where
  "put_handler n h R = R\<lparr>rv_handlers := fmupd n h (rv_handlers R)\<rparr>"

text \<open>\<open>Stop\<close> cancels the receiver's context, and the end of the context that \<open>Start\<close> was given ends it as well; the contexts of the connections are its children.\<close>

definition Stop :: "Receiver \<Rightarrow> Receiver" where
  "Stop R = R\<lparr>rv_cancelled := True, rv_handlers := fmmap (\<lambda>h. h\<lparr>hd_cancelled := True\<rparr>) (rv_handlers R)\<rparr>"

text \<open>The return of \<open>handleConnection\<close>: the deferred functions close the channel and forget the connection under its number.\<close>

definition release :: "nat \<Rightarrow> handler \<Rightarrow> Receiver \<Rightarrow> Receiver" where
  "release n h R = R\<lparr>rv_handlers := fmdrop n (rv_handlers R), rv_connections := fmdrop (hd_cid h) (rv_connections R)\<rparr>"

inductive step :: "Receiver \<Rightarrow> Receiver \<Rightarrow> bool" where
  Accept: "fmlookup (rv_handlers R) n = None \<Longrightarrow>
    step R (put_handler n (new_handler cid (rv_cancelled R)) (R\<lparr>rv_connections := fmupd cid n (rv_connections R)\<rparr>))"
| Read: "fmlookup (rv_handlers R) n = Some h \<Longrightarrow> hd_reading h \<Longrightarrow> receive (rv_bufferSize R) e h (rv_sessions R) = (h', S) \<Longrightarrow>
    step R (put_handler n h' (R\<lparr>rv_sessions := S\<rparr>))"
| HandOver: "fmlookup (rv_handlers R) n = Some h \<Longrightarrow> hd_reading h \<Longrightarrow> rv_bufferSize R = 0 \<Longrightarrow> hd_processing h \<Longrightarrow>
    receive 1 e h (rv_sessions R) = (h', S) \<Longrightarrow> hd_channel h' = [e] \<Longrightarrow>
    step R (put_handler n (take_event (rv_storage R) ok e [] h') (R\<lparr>rv_sessions := S\<rparr>))"
| HandOverCustom: "fmlookup (rv_handlers R) n = Some h \<Longrightarrow> hd_reading h \<Longrightarrow> rv_bufferSize R = 0 \<Longrightarrow> rv_custom R \<Longrightarrow>
    receive 1 e h (rv_sessions R) = (h', S) \<Longrightarrow> hd_channel h' = [e] \<Longrightarrow>
    step R (put_handler n (handle_event e [] h') (R\<lparr>rv_sessions := S\<rparr>))"
| ReadEnds: "fmlookup (rv_handlers R) n = Some h \<Longrightarrow> hd_reading h \<Longrightarrow> step R (put_handler n (h\<lparr>hd_reading := False\<rparr>) R)"
| Tick: "fmlookup (rv_handlers R) n = Some h \<Longrightarrow> hd_processing h \<Longrightarrow> step R (put_handler n (flush (rv_storage R) ok h) R)"
| Take: "fmlookup (rv_handlers R) n = Some h \<Longrightarrow> hd_processing h \<Longrightarrow> hd_channel h = e # rest \<Longrightarrow>
    step R (put_handler n (take_event (rv_storage R) ok e rest h) R)"
| Handle: "fmlookup (rv_handlers R) n = Some h \<Longrightarrow> rv_custom R \<Longrightarrow> hd_channel h = e # rest \<Longrightarrow>
    step R (put_handler n (handle_event e rest h) R)"
| ProcessorCancelled: "fmlookup (rv_handlers R) n = Some h \<Longrightarrow> hd_processing h \<Longrightarrow> hd_cancelled h \<Longrightarrow>
    step R (put_handler n ((flush (rv_storage R) ok h)\<lparr>hd_processing := False\<rparr>) R)"
| ProcessorClosed: "fmlookup (rv_handlers R) n = Some h \<Longrightarrow> hd_processing h \<Longrightarrow> hd_closed h \<Longrightarrow> hd_channel h = [] \<Longrightarrow>
    step R (put_handler n ((flush (rv_storage R) ok h)\<lparr>hd_processing := False\<rparr>) R)"
| Return: "fmlookup (rv_handlers R) n = Some h \<Longrightarrow> \<not> hd_reading h \<Longrightarrow> \<not> hd_processing h \<Longrightarrow> step R (release n h R)"
| Cancelled: "step R (Stop R)"

inductive reached :: "nat \<Rightarrow> bool \<Rightarrow> bool \<Rightarrow> Receiver \<Rightarrow> bool" for cap storage custom where
  reached_new: "reached cap storage custom (NewReceiver cap storage custom)"
| reached_step: "reached cap storage custom R \<Longrightarrow> step R R' \<Longrightarrow> reached cap storage custom R'"

inductive_cases stepE: "step R R'"

subsection \<open>What every interleaving keeps\<close>

lemma shuffles_snoc_left: "m \<in> shuffles xs ys \<Longrightarrow> m @ [z] \<in> shuffles (xs @ [z]) ys"
proof (induction xs ys arbitrary: m rule: shuffles.induct)
  case (1 ys)
  then have "m = ys" by simp
  moreover have "ys @ [z] \<in> shuffles [z] ys"
    by (induction ys) (auto intro: Cons_in_shuffles_rightI)
  ultimately show ?case by simp
qed (auto intro: Cons_in_shuffles_leftI Cons_in_shuffles_rightI)

lemma shuffles_snoc_right: "m \<in> shuffles xs ys \<Longrightarrow> m @ [z] \<in> shuffles xs (ys @ [z])"
  using shuffles_snoc_left [of m ys xs z] by (simp add: shuffles_commutes)

definition handler_ok :: "nat \<Rightarrow> bool \<Rightarrow> bool \<Rightarrow> bool \<Rightarrow> handler \<Rightarrow> bool" where
  "handler_ok cap storage custom cancelled h \<longleftrightarrow>
     \<not> hd_closed h \<and> hd_cancelled h = cancelled \<and> (\<not> hd_processing h \<longrightarrow> cancelled)
     \<and> length (hd_channel h) \<le> cap \<and> length (hd_batch h) < 100 \<and> list_all (\<lambda>b. b \<noteq> [] \<and> length b \<le> 100) (map snd (hd_flushed h))
     \<and> subseq (hd_accepted h) (hd_read h) \<and> (\<not> custom \<longrightarrow> hd_handled h = [])
     \<and> (storage \<longrightarrow> (\<exists>taken. taken \<in> shuffles (flushed_events h @ hd_batch h) (hd_handled h) \<and> hd_accepted h = taken @ hd_channel h))"

lemma handler_ok_new: "handler_ok cap storage custom c (new_handler cid c)"
  by (simp add: handler_ok_def new_handler_def flushed_events_def)

lemma receive_cases:
  assumes "receive cap e h S = (h', S')"
  obtains (room) "length (hd_channel h) < cap"
      "h' = h\<lparr>hd_read := hd_read h @ [e], hd_channel := hd_channel h @ [e], hd_accepted := hd_accepted h @ [e]\<rparr>"
    | (full) "\<not> length (hd_channel h) < cap" "h' = h\<lparr>hd_read := hd_read h @ [e]\<rparr>"
  using assms by (auto simp: receive_def Let_def split: if_splits)

lemma handler_ok_receive:
  "handler_ok cap storage custom c h \<Longrightarrow> receive cap e h S = (h', S') \<Longrightarrow> handler_ok cap storage custom c h'"
  by (erule receive_cases) (auto simp: handler_ok_def flushed_events_def intro: list_emb_append_mono subseq_order.order_trans)

lemma handler_ok_flush: "handler_ok cap storage custom c h \<Longrightarrow> handler_ok cap storage custom c (flush storage ok h)"
  by (auto simp: handler_ok_def flush_def flushed_events_def)

lemma handler_ok_stops: "handler_ok cap storage custom True h \<Longrightarrow> handler_ok cap storage custom True (h\<lparr>hd_processing := False\<rparr>)"
  by (simp add: handler_ok_def flushed_events_def)

lemma handler_ok_cancelled: "handler_ok cap storage custom c h \<Longrightarrow> handler_ok cap storage custom True (h\<lparr>hd_cancelled := True\<rparr>)"
  by (simp add: handler_ok_def flushed_events_def)

text \<open>What a receiver takes from the channel goes to the end of its share.\<close>

lemma handler_ok_take:
  assumes "handler_ok cap' storage custom c h" and "hd_channel h = e # rest" and "length rest \<le> cap"
  shows "handler_ok cap storage custom c (take_event storage ok e rest h)"
proof -
  have moved: "\<exists>taken. taken \<in> shuffles (flushed_events h @ hd_batch h @ [e]) (hd_handled h) \<and> hd_accepted h = taken @ rest" if st: storage
  proof -
    obtain taken where "taken \<in> shuffles (flushed_events h @ hd_batch h) (hd_handled h)" "hd_accepted h = taken @ e # rest"
      using assms(1,2) st by (auto simp: handler_ok_def)
    then show ?thesis using shuffles_snoc_left [of taken _ _ e] by (intro exI [of _ "taken @ [e]"]) fastforce
  qed
  show ?thesis
    using assms moved by (auto simp: handler_ok_def take_event_def flush_def flushed_events_def Let_def)
qed

lemma handler_ok_handle:
  assumes "handler_ok cap' storage True c h" and "hd_channel h = e # rest" and "length rest \<le> cap"
  shows "handler_ok cap storage True c (handle_event e rest h)"
proof -
  have moved: "\<exists>taken. taken \<in> shuffles (flushed_events h @ hd_batch h) (hd_handled h @ [e]) \<and> hd_accepted h = taken @ rest" if st: storage
  proof -
    obtain taken where "taken \<in> shuffles (flushed_events h @ hd_batch h) (hd_handled h)" "hd_accepted h = taken @ e # rest"
      using assms(1,2) st by (auto simp: handler_ok_def)
    then show ?thesis using shuffles_snoc_right [of taken _ _ e] by (intro exI [of _ "taken @ [e]"]) fastforce
  qed
  show ?thesis using assms moved by (auto simp: handler_ok_def handle_event_def flushed_events_def)
qed

lemma handler_ok_wider: "handler_ok cap storage custom c h \<Longrightarrow> cap \<le> cap' \<Longrightarrow> handler_ok cap' storage custom c h"
  by (auto simp: handler_ok_def)

text \<open>Every handler is as above, and while the receiver's context is alive each has an entry under its number.\<close>

definition receiver_ok :: "nat \<Rightarrow> bool \<Rightarrow> bool \<Rightarrow> Receiver \<Rightarrow> bool" where
  "receiver_ok cap storage custom R \<longleftrightarrow> rv_bufferSize R = cap \<and> rv_storage R = storage \<and> rv_custom R = custom
     \<and> (\<forall>n h. fmlookup (rv_handlers R) n = Some h \<longrightarrow> handler_ok cap storage custom (rv_cancelled R) h
          \<and> (rv_cancelled R \<or> fmlookup (rv_connections R) (hd_cid h) \<noteq> None))"

lemma receiver_ok_lookup:
  "receiver_ok cap storage custom R \<Longrightarrow> fmlookup (rv_handlers R) n = Some h \<Longrightarrow> handler_ok cap storage custom (rv_cancelled R) h"
  by (simp add: receiver_ok_def)

lemma put_handler_simps [simp]:
  "fmlookup (rv_handlers (put_handler n h R)) m = (if m = n then Some h else fmlookup (rv_handlers R) m)" "rv_cancelled (put_handler n h R) = rv_cancelled R"
  "rv_sessions (put_handler n h R) = rv_sessions R" "rv_bufferSize (put_handler n h R) = rv_bufferSize R" "rv_storage (put_handler n h R) = rv_storage R"
  "rv_custom (put_handler n h R) = rv_custom R" "rv_connections (put_handler n h R) = rv_connections R"
  by (simp_all add: put_handler_def)

lemma cid_simps [simp]: "hd_cid (flush b ok h) = hd_cid h" "hd_cid (take_event b ok e rest h) = hd_cid h" "hd_cid (handle_event e rest h) = hd_cid h"
  by (simp_all add: flush_def take_event_def handle_event_def Let_def)

lemma flush_simps [simp]: "hd_reading (flush b ok h) = hd_reading h" "hd_cancelled (flush b ok h) = hd_cancelled h"
  by (simp_all add: flush_def)

lemma receive_cid: "receive cap e h S = (h', S') \<Longrightarrow> hd_cid h' = hd_cid h"
  by (erule receive_cases) simp_all

text \<open>Replacing a handler by one with its number, whatever happens to the sessions.\<close>

lemma receiver_ok_put:
  assumes "receiver_ok cap storage custom R" and "fmlookup (rv_handlers R) n = Some h" and "handler_ok cap storage custom (rv_cancelled R) h'" and "hd_cid h' = hd_cid h"
  shows "receiver_ok cap storage custom (put_handler n h' (R\<lparr>rv_sessions := S\<rparr>))" "receiver_ok cap storage custom (put_handler n h' R)"
  using assms by (auto simp: receiver_ok_def put_handler_def)

lemma received_one:
  assumes "handler_ok 0 storage custom c h" and "receive 1 e h S = (h', S')"
  shows "handler_ok 1 storage custom c h'"
  using handler_ok_receive [OF handler_ok_wider [OF assms(1), of 1] assms(2)] by simp

lemma step_keeps: "step R R' \<Longrightarrow> receiver_ok cap storage custom R \<Longrightarrow> receiver_ok cap storage custom R'"
proof (induction rule: step.induct)
  case (Accept R n cid)
  then show ?case using handler_ok_new [of cap storage custom "rv_cancelled R" cid] by (auto simp: receiver_ok_def put_handler_def new_handler_def)
next
  case (Read R n h e h' S)
  then show ?case
    by (intro receiver_ok_put(1) [of _ _ _ R n h]) (auto simp: receiver_ok_def receive_cid intro: handler_ok_receive)
next
  case (HandOver R n h e h' S ok)
  then have "handler_ok 1 storage custom (rv_cancelled R) h'" "rv_storage R = storage" "cap = 0"
    using received_one [of storage custom "rv_cancelled R" h e "rv_sessions R" h' S] by (auto simp: receiver_ok_def)
  then show ?case using HandOver
    by (intro receiver_ok_put(1) [of _ _ _ R n h]) (auto simp: receive_cid intro: handler_ok_take)
next
  case (HandOverCustom R n h e h' S)
  then have "handler_ok 1 storage True (rv_cancelled R) h'" "custom" "cap = 0"
    using received_one [of storage custom "rv_cancelled R" h e "rv_sessions R" h' S] by (auto simp: receiver_ok_def)
  then show ?case using HandOverCustom
    by (intro receiver_ok_put(1) [of _ _ _ R n h]) (auto simp: receive_cid intro: handler_ok_handle)
next
  case (Cancelled R)
  then show ?case by (auto simp: receiver_ok_def Stop_def intro: handler_ok_cancelled)
next
  case (Return R n h)
  then show ?case by (auto simp: receiver_ok_def release_def handler_ok_def split: if_splits)
next
  case (Take R n h e rest ok)
  then have ok: "handler_ok cap storage custom (rv_cancelled R) h" "rv_storage R = storage" by (auto simp: receiver_ok_def)
  then have "length rest \<le> cap" using Take by (simp add: handler_ok_def)
  then show ?case using Take ok by (intro receiver_ok_put(2) [of _ _ _ R n h]) (auto intro: handler_ok_take)
next
  case (Handle R n h e rest)
  then have ok: "handler_ok cap storage True (rv_cancelled R) h" "custom" by (auto simp: receiver_ok_def)
  then have "length rest \<le> cap" using Handle by (simp add: handler_ok_def)
  then show ?case using Handle ok by (intro receiver_ok_put(2) [of _ _ _ R n h]) (auto intro: handler_ok_handle)
next
  case (ProcessorCancelled R n h ok)
  then have ok: "handler_ok cap storage custom (rv_cancelled R) h" "rv_storage R = storage" by (auto simp: receiver_ok_def)
  then have "rv_cancelled R" using ProcessorCancelled by (simp add: handler_ok_def)
  then show ?case using ProcessorCancelled ok
    by (intro receiver_ok_put(2) [of _ _ _ R n h]) (auto intro: handler_ok_stops handler_ok_flush)
next
  case (ProcessorClosed R n h ok)
  then show ?case by (auto simp: receiver_ok_def handler_ok_def)
next
  case (ReadEnds R n h)
  then show ?case by (intro receiver_ok_put(2) [of _ _ _ R n h]) (auto simp: receiver_ok_def handler_ok_def flushed_events_def)
next
  case (Tick R n h ok)
  then have "handler_ok cap storage custom (rv_cancelled R) h" "rv_storage R = storage" by (auto simp: receiver_ok_def)
  then show ?case using Tick by (intro receiver_ok_put(2) [of _ _ _ R n h]) (auto intro: handler_ok_flush)
qed

lemma reached_ok: "reached cap storage custom R \<Longrightarrow> receiver_ok cap storage custom R"
proof (induction rule: reached.induct)
  case reached_new
  then show ?case by (simp add: receiver_ok_def NewReceiver_def)
qed (rule step_keeps)

lemma stored_flushed: "subseq (stored_events h) (flushed_events h)"
proof -
  have "subseq (concat (map snd (filter fst bs))) (concat (map snd bs))" for bs :: "(bool \<times> Event list) list"
    by (induction bs) (auto intro: list_emb_append_mono subseq_drop_many)
  then show ?thesis by (simp add: stored_events_def flushed_events_def)
qed

lemma shuffles_subseq: "m \<in> shuffles xs ys \<Longrightarrow> subseq xs m"
  by (induction xs ys arbitrary: m rule: shuffles.induct) (auto simp: Cons_in_shuffles_iff)

text \<open>C39. However the goroutines interleave, for every connection of a receiver with a storage: the events that found room in the channel are a subsequence of those that were read; they
  are those the receivers took, then those still in the channel; and what the receivers took is an interleaving, each side in its order and nothing twice, of the batches handed to the storage and the
  current batch on the one side and of what the custom handler took on the other. Without a custom handler the second side is empty, so that the accepted events are in order those of the batches,
  of the current batch and of the channel. The events of the batches that \<open>Write\<close> took without an error are a subsequence of the accepted ones; a batch for which it failed is not written again.
  The channel never exceeds its capacity, batches have between one and a hundred events.\<close>

theorem receiver_delivers:
  assumes "reached cap True custom R" and "fmlookup (rv_handlers R) n = Some h"
  shows "subseq (hd_accepted h) (hd_read h)
    \<and> (\<exists>taken. taken \<in> shuffles (flushed_events h @ hd_batch h) (hd_handled h) \<and> hd_accepted h = taken @ hd_channel h)
    \<and> (custom \<or> flushed_events h @ hd_batch h @ hd_channel h = hd_accepted h)
    \<and> subseq (stored_events h) (hd_accepted h)
    \<and> length (hd_channel h) \<le> cap \<and> length (hd_batch h) < 100 \<and> list_all (\<lambda>b. b \<noteq> [] \<and> length b \<le> 100) (map snd (hd_flushed h))"
proof -
  have ok: "handler_ok cap True custom (rv_cancelled R) h" by (rule receiver_ok_lookup [OF reached_ok [OF assms(1)] assms(2)])
  then obtain taken where t: "taken \<in> shuffles (flushed_events h @ hd_batch h) (hd_handled h)" "hd_accepted h = taken @ hd_channel h"
    by (auto simp: handler_ok_def)
  have "subseq (stored_events h) (flushed_events h @ hd_batch h)" using stored_flushed by (rule subseq_order.order_trans) auto
  also have "subseq \<dots> taken" by (rule shuffles_subseq [OF t(1)])
  also have "subseq \<dots> (hd_accepted h)" unfolding t(2) by (rule subseq_rev_drop_many) simp
  finally have "subseq (stored_events h) (hd_accepted h)" .
  moreover have "custom \<or> flushed_events h @ hd_batch h @ hd_channel h = hd_accepted h" using ok t by (auto simp: handler_ok_def)
  ultimately show ?thesis using ok t by (auto simp: handler_ok_def)
qed

text \<open>The ways of a handler whose context is cancelled to its return.\<close>

lemma cancelled_returns:
  assumes "fmlookup (rv_handlers R) n = Some h" and "hd_cancelled h"
  shows "\<exists>R'. step\<^sup>*\<^sup>* R R' \<and> fmlookup (rv_handlers R') n = None \<and> fmlookup (rv_connections R') (hd_cid h) = None"
proof -
  let ?h1 = "h\<lparr>hd_reading := False\<rparr>" and ?R1 = "if hd_reading h then put_handler n (h\<lparr>hd_reading := False\<rparr>) R else R"
  have r1: "step\<^sup>*\<^sup>* R ?R1" using ReadEnds [OF assms(1)] by auto
  have h1: "fmlookup (rv_handlers ?R1) n = Some ?h1" using assms(1) by (cases "hd_reading h") auto
  let ?R2 = "if hd_processing h then put_handler n ((flush (rv_storage ?R1) True ?h1)\<lparr>hd_processing := False\<rparr>) ?R1 else ?R1"
  have r2: "step\<^sup>*\<^sup>* ?R1 ?R2" using ProcessorCancelled [OF h1] assms(2) by auto
  obtain h2 where h2: "fmlookup (rv_handlers ?R2) n = Some h2" "\<not> hd_reading h2" "\<not> hd_processing h2" and cid: "hd_cid h2 = hd_cid h"
    using h1 by (cases "hd_processing h") auto
  have "step ?R2 (release n h2 ?R2)" by (rule Return [OF h2])
  moreover have "fmlookup (rv_handlers (release n h2 ?R2)) n = None" "fmlookup (rv_connections (release n h2 ?R2)) (hd_cid h) = None"
    by (simp_all add: release_def cid)
  ultimately show ?thesis using r1 r2 by (meson rtranclp.rtrancl_into_rtrancl rtranclp_trans)
qed

text \<open>While the context is alive, no step takes a handler away.\<close>

lemma step_holds:
  assumes "step R R'" and "receiver_ok cap storage custom R" and "fmlookup (rv_handlers R) n = Some h" and "\<not> rv_cancelled R"
  shows "\<exists>h'. fmlookup (rv_handlers R') n = Some h' \<and> hd_cid h' = hd_cid h"
  using assms(1)
proof cases
  case (Return m h')
  then have "rv_cancelled R" using assms(2) by (auto simp: receiver_ok_def handler_ok_def)
  then show ?thesis using assms(4) by simp
qed (use assms(3) in \<open>auto simp: Stop_def receive_cid\<close>)

lemma step_cancelled: "step R R' \<Longrightarrow> rv_cancelled R \<Longrightarrow> rv_cancelled R'"
  by (induction rule: step.induct) (simp_all add: Stop_def release_def)

lemma steps_hold:
  assumes "step\<^sup>*\<^sup>* R R'" and "receiver_ok cap storage custom R" and "fmlookup (rv_handlers R) n = Some h" and "\<not> rv_cancelled R'"
  shows "receiver_ok cap storage custom R' \<and> (\<exists>h'. fmlookup (rv_handlers R') n = Some h' \<and> hd_cid h' = hd_cid h)"
  using assms(1,4)
proof (induction rule: rtranclp_induct)
  case base
  then show ?case using assms(2,3) by blast
next
  case (step S S')
  then have alive: "\<not> rv_cancelled S" using step_cancelled by blast
  then obtain h1 where h1: "receiver_ok cap storage custom S" "fmlookup (rv_handlers S) n = Some h1" "hd_cid h1 = hd_cid h" using step.IH by blast
  then show ?case using step_holds [OF step.hyps(2) h1(1,2) alive] step_keeps [OF step.hyps(2) h1(1)] by simp
qed

text \<open>C40. Once \<open>handleConnection\<close> has registered a connection, then as long as the receiver's context is alive, whatever happens, its peer closing it included: the handler has not returned and there is
  an entry under its number, so that \<open>GetActiveConnections\<close> counts it (a later connection of the same number takes the entry over, and the handler stays). For \<open>handleConnection\<close> waits for the processor, which ends only when the context is
  cancelled or the channel is closed, and both are deferred behind the wait. After \<open>Stop\<close> (or the end of the context given to \<open>Start\<close>), every handler has a way to its return, which removes the entry.\<close>

theorem connection_held_until_stop:
  assumes "reached cap storage custom R" and "fmlookup (rv_handlers R) n = Some h"
  shows "(\<nexists>R'. step\<^sup>*\<^sup>* R R' \<and> \<not> rv_cancelled R' \<and> (fmlookup (rv_handlers R') n = None \<or> fmlookup (rv_connections R') (hd_cid h) = None))
    \<and> (\<exists>R'. step\<^sup>*\<^sup>* (Stop R) R' \<and> fmlookup (rv_handlers R') n = None \<and> fmlookup (rv_connections R') (hd_cid h) = None)"
proof -
  have "fmlookup (rv_handlers R') n \<noteq> None \<and> fmlookup (rv_connections R') (hd_cid h) \<noteq> None" if "step\<^sup>*\<^sup>* R R'" "\<not> rv_cancelled R'" for R'
    using steps_hold [OF that(1) reached_ok [OF assms(1)] assms(2) that(2)] that(2) by (fastforce simp: receiver_ok_def)
  moreover have "fmlookup (rv_handlers (Stop R)) n = Some (h\<lparr>hd_cancelled := True\<rparr>)" using assms(2) by (simp add: Stop_def)
  ultimately show ?thesis using cancelled_returns [of "Stop R" n "h\<lparr>hd_cancelled := True\<rparr>"] by fastforce
qed

text \<open>A receiver with room for one event in the channel, after one connection sent two events before the processor ran: the second was dropped.\<close>

definition busy_handler :: handler where
  "busy_handler = (new_handler 3 False)\<lparr>hd_channel := [sample_event], hd_read := [sample_event, sample_event], hd_accepted := [sample_event]\<rparr>"

definition busy_receiver :: Receiver where
  "busy_receiver = put_handler 0 busy_handler ((NewReceiver 1 True False)\<lparr>rv_connections := fmupd 3 0 fmempty\<rparr>)"

lemma busy_reached: "reached 1 True False busy_receiver"
proof -
  let ?R0 = "NewReceiver 1 True False"
  let ?R1 = "put_handler 0 (new_handler 3 False) (?R0\<lparr>rv_connections := fmupd 3 0 fmempty\<rparr>)"
  let ?h2 = "(new_handler 3 False)\<lparr>hd_channel := [sample_event], hd_read := [sample_event], hd_accepted := [sample_event]\<rparr>"
  have plain: "ev_Type sample_event \<noteq> EventSessionStart" "ev_Type sample_event \<noteq> EventSessionEnd"
    by (simp_all add: sample_event_def EventTerminalOutput_def EventSessionStart_def EventSessionEnd_def)
  have a: "step ?R0 ?R1" using Accept [of ?R0 0 3] by (simp add: NewReceiver_def)
  have b: "step ?R1 (put_handler 0 ?h2 ?R1)"
    using Read [of ?R1 0 "new_handler 3 False" sample_event ?h2 fmempty]
    by (simp add: receive_def NewReceiver_def new_handler_def session_started_def session_counted_def session_ended_def plain put_handler_def)
  have c: "step (put_handler 0 ?h2 ?R1) (put_handler 0 busy_handler (put_handler 0 ?h2 ?R1))"
    using Read [of "put_handler 0 ?h2 ?R1" 0 ?h2 sample_event busy_handler fmempty]
    by (simp add: receive_def NewReceiver_def new_handler_def session_started_def session_counted_def session_ended_def plain put_handler_def busy_handler_def)
  have d: "put_handler 0 busy_handler (put_handler 0 ?h2 ?R1) = busy_receiver"
    by (simp add: busy_receiver_def put_handler_def NewReceiver_def)
  show ?thesis
    unfolding d [symmetric] by (rule reached_step [OF reached_step [OF reached_step [OF reached_new a] b] c])
qed

lemma busy_lookup: "fmlookup (rv_handlers busy_receiver) 0 = Some busy_handler"
  by (simp add: busy_receiver_def)

theorem receiver_delivers_witness:
  "hd_read busy_handler = [sample_event, sample_event] \<and> flushed_events busy_handler @ hd_batch busy_handler @ hd_channel busy_handler = [sample_event]
     \<and> length (hd_channel busy_handler) \<le> 1"
  using receiver_delivers [OF busy_reached busy_lookup] by (simp add: busy_handler_def new_handler_def)

theorem connection_held_until_stop_witness:
  "(\<nexists>R'. step\<^sup>*\<^sup>* busy_receiver R' \<and> \<not> rv_cancelled R' \<and> (fmlookup (rv_handlers R') 0 = None \<or> fmlookup (rv_connections R') 3 = None))
     \<and> (\<exists>R'. step\<^sup>*\<^sup>* (Stop busy_receiver) R' \<and> fmlookup (rv_handlers R') 0 = None)"
  using connection_held_until_stop [OF busy_reached busy_lookup] by (auto simp: busy_handler_def new_handler_def)

end
