(* ===== verification/FC_Exec.thy ===== *)
theory FC_Exec
  imports Types Go_Path
begin

section \<open>Commands in Firecracker guests (internal/firecracker/exec.go, version.go)\<close>

text \<open>
  Running a command in a guest over ssh: the quoting of the command for the shell of the guest, the bounded buffers for its
  output, and the line with the exit code that the shell prints last. The run of the ssh client, randomness and the state of the context are
  parameters over an arbitrary host state.
\<close>

subsection \<open>Quoting\<close>

abbreviation quote_char :: char where "quote_char \<equiv> CHR 0x27"
abbreviation backslash :: char where "backslash \<equiv> CHR 0x5C"
abbreviation newline :: char where "newline \<equiv> CHR 0x0A"

definition shellQuote :: "string \<Rightarrow> string" where
  "shellQuote s = (if s = [] then [quote_char, quote_char]
     else quote_char # concat (map (\<lambda>c. if c = quote_char then [quote_char, backslash, quote_char, quote_char] else [c]) s) @ [quote_char])"

definition shellJoin :: "string list \<Rightarrow> string" where
  "shellJoin args = join '' '' (map shellQuote args)"

subsection \<open>The exit code of the guest\<close>

definition exitSentinelPrefix :: string where "exitSentinelPrefix = ''__NANOFUSE_EXIT_''"

definition hex_lower :: "8 word \<Rightarrow> string" where
  "hex_lower b = (let digit = (\<lambda>n. if n < 10 then char_of (48 + n) else char_of (87 + n)) in [digit (unat b div 16), digit (unat b mod 16)])"

definition newExitMarker :: "8 word list option \<Rightarrow> string" where
  "newExitMarker random = (case random of
       None \<Rightarrow> exitSentinelPrefix @ ''x=''
     | Some b \<Rightarrow> exitSentinelPrefix @ concat (map hex_lower b) @ ''='')"

text \<open>The index of the last occurrence, as \<open>strings.LastIndex\<close> gives it.\<close>

fun last_index :: "string \<Rightarrow> string \<Rightarrow> nat option" where
  "last_index [] m = (if m = [] then Some 0 else None)"
| "last_index (c # s) m = (case last_index s m of
       Some i \<Rightarrow> Some (Suc i)
     | None \<Rightarrow> if has_prefix (c # s) m then Some 0 else None)"

definition digit_char :: "char \<Rightarrow> bool" where
  "digit_char c \<longleftrightarrow> 48 \<le> (of_char c :: nat) \<and> of_char c \<le> (57 :: nat)"

definition trim_suffix :: "string \<Rightarrow> string \<Rightarrow> string" where
  "trim_suffix s p = (if has_suffix s p then take (length s - length p) s else s)"

definition parseExitSentinel :: "string \<Rightarrow> string \<Rightarrow> int \<times> string \<times> bool" where
  "parseExitSentinel s marker = (case last_index s marker of
       None \<Rightarrow> (0, s, False)
     | Some idx \<Rightarrow>
         let rest = drop (idx + length marker) s; digits = takeWhile digit_char rest in
         if digits = [] \<or> trim_space (dropWhile digit_char rest) \<noteq> [] then (0, s, False)
         else if digits_value digits \<ge> 2 ^ 63 then (0, s, False)
         else (int (digits_value digits), trim_suffix (take idx s) [newline], True))"

subsection \<open>Bounded output\<close>

definition execOutputCap :: int where "execOutputCap = 1048576"

record cappedBuffer =
  cb_buf :: string
  cb_limit :: int
  cb_truncated :: bool

definition cappedBuffer_Write :: "cappedBuffer \<Rightarrow> string \<Rightarrow> cappedBuffer" where
  "cappedBuffer_Write c p = (let remaining = cb_limit c - int (length (cb_buf c)) in
     if remaining > 0 then
       (if int (length p) > remaining then c\<lparr>cb_buf := cb_buf c @ take (nat remaining) p, cb_truncated := True\<rparr>
        else c\<lparr>cb_buf := cb_buf c @ p\<rparr>)
     else if length p > 0 then c\<lparr>cb_truncated := True\<rparr>
     else c)"

definition truncationMarker :: string where "truncationMarker = newline # ''[output truncated]''"

definition cappedBuffer_String :: "cappedBuffer \<Rightarrow> string" where
  "cappedBuffer_String c =
     (if \<not> cb_truncated c then cb_buf c
      else let keep = max 0 (cb_limit c - int (length truncationMarker));
               s = (if int (length (cb_buf c)) > keep then take (nat keep) (cb_buf c) else cb_buf c);
               out = s @ truncationMarker in
        if int (length out) > cb_limit c then take (nat (cb_limit c)) out else out)"

subsection \<open>The machine\<close>

definition firecrackerRuntimeID :: "VM \<Rightarrow> string" where
  "firecrackerRuntimeID vm = (case vm_Runtime vm of
       Some rt \<Rightarrow> if trim_space (rt_ExternalID rt) \<noteq> [] then rt_ExternalID rt else vm_ID vm
     | None \<Rightarrow> vm_ID vm)"

definition guestIP :: "VM \<Rightarrow> string" where
  "guestIP vm = (case vm_Runtime vm of
       Some rt \<Rightarrow> (case rt_NetworkInfo rt of
           Some ni \<Rightarrow> if ni_GuestIP ni \<noteq> [] then ni_GuestIP ni else nc_IPAddress (vc_Network (vm_Config vm))
         | None \<Rightarrow> nc_IPAddress (vc_Network (vm_Config vm)))
     | None \<Rightarrow> nc_IPAddress (vc_Network (vm_Config vm)))"

subsection \<open>Running a command\<close>

text \<open>The fields of the manager that \<open>Exec\<close> reads.\<close>

record exec_config =
  xc_dataDir :: string
  xc_execSSHKey :: string
  xc_execSSHUser :: string
  xc_execVerifyHostKey :: bool

definition hostKeyOptions :: "exec_config \<Rightarrow> string \<Rightarrow> string list" where
  "hostKeyOptions m vmID =
     (if xc_execVerifyHostKey m then
        let knownHosts = path_join [xc_dataDir m, ''exec_known_hosts''] in
        [''-o'', ''StrictHostKeyChecking=accept-new'', ''-o'', ''UserKnownHostsFile='' @ knownHosts,
         ''-o'', ''CheckHostIP=no'', ''-o'', ''HostKeyAlias=nf-'' @ vmID]
      else [''-o'', ''StrictHostKeyChecking=no'', ''-o'', ''UserKnownHostsFile=/dev/null''])"

definition remote_suffix :: "string \<Rightarrow> string" where
  "remote_suffix marker = ''; __nf_rc=$?; printf '' @ [quote_char, backslash] @ ''n'' @ marker @ ''%d'' @ [backslash] @ ''n'' @ [quote_char]
     @ '' \"$__nf_rc\"; exit \"$__nf_rc\"''"

definition remote_command :: "string list \<Rightarrow> string \<Rightarrow> string" where
  "remote_command command marker = shellJoin command @ remote_suffix marker"

text \<open>A run of ssh: what it wrote to its outputs, piece by piece, and how it ended.\<close>

datatype run_end = RunOk | RunExit int | RunFailed string

record ssh_run =
  sh_stdout :: "string list"
  sh_stderr :: "string list"
  sh_end :: run_end

record 'h exec_env =
  xe_rand8 :: "('h, 8 word list option) comp"
  xe_ssh :: "string list \<Rightarrow> ('h, ssh_run) comp"
  xe_ctx_Err :: "('h, bool) comp"
  xe_exit_text :: "int \<Rightarrow> string"

datatype exec_error = ExecUnsupported | CommandRequired | NoGuestIP | ContextDone | Transport string

definition captured :: "string list \<Rightarrow> string" where
  "captured ps = cappedBuffer_String (foldl cappedBuffer_Write \<lparr>cb_buf = [], cb_limit = execOutputCap, cb_truncated = False\<rparr> ps)"

definition transport_message :: "'h exec_env \<Rightarrow> string \<Rightarrow> run_end \<Rightarrow> string" where
  "transport_message E stderr e =
     (let msg = trim_space stderr;
          msg = (if msg = [] then (case e of
                RunExit n \<Rightarrow> xe_exit_text E n
              | RunFailed t \<Rightarrow> t
              | RunOk \<Rightarrow> ''ssh connection failed (no stderr); check guest sshd, network reachability, and the exec key'') else msg) in
      if length msg > 256 then take 256 msg @ [CHR 0xE2, CHR 0x80, CHR 0xA6] @ '' (truncated; see stderr)'' else msg)"

definition ssh_args :: "exec_config \<Rightarrow> VM \<Rightarrow> string list \<Rightarrow> string \<Rightarrow> string list" where
  "ssh_args m vm command marker = (let user = (if xc_execSSHUser m = [] then ''root'' else xc_execSSHUser m) in
     [''-i'', xc_execSSHKey m, ''-o'', ''IdentitiesOnly=yes'', ''-o'', ''BatchMode=yes'', ''-o'', ''ConnectTimeout=10'', ''-o'', ''LogLevel=ERROR'']
     @ hostKeyOptions m (vm_ID vm) @ [user @ ''@'' @ guestIP vm, remote_command command marker])"

definition Exec :: "'h exec_env \<Rightarrow> exec_config \<Rightarrow> VM \<Rightarrow> string list \<Rightarrow> ('h, VMExecResult option \<times> exec_error option) comp" where
  "Exec E m vm command =
     (if xc_execSSHKey m = [] then State_Monad.return (None, Some ExecUnsupported)
      else if length command = 0 then State_Monad.return (None, Some CommandRequired)
      else let ip = guestIP vm in
      if ip = [] then State_Monad.return (None, Some NoGuestIP)
      else do {
        random \<leftarrow> xe_rand8 E;
        let marker = newExitMarker random;
        run \<leftarrow> xe_ssh E (ssh_args m vm command marker);
        let stdout = captured (sh_stdout run);
        let stderr = captured (sh_stderr run);
        let (guestCode, cleanStdout, ranInGuest) = parseExitSentinel stdout marker;
        let result = \<lparr>xs_Command = command, xs_ExitCode = 0, xs_Stdout = cleanStdout, xs_Stderr = stderr, xs_RuntimeID = firecrackerRuntimeID vm\<rparr>;
        if ranInGuest then State_Monad.return (Some (result\<lparr>xs_ExitCode := guestCode\<rparr>), None)
        else do {
          done \<leftarrow> xe_ctx_Err E;
          State_Monad.return (
            if done then (Some result, Some ContextDone)
            else let failed = (Some (result\<lparr>xs_ExitCode := 255\<rparr>), Some (Transport (transport_message E stderr (sh_end run)))) in
              case sh_end run of
                RunOk \<Rightarrow> (Some (result\<lparr>xs_ExitCode := 0\<rparr>), None)
              | RunExit n \<Rightarrow> if n \<noteq> 255 then (Some (result\<lparr>xs_ExitCode := n\<rparr>), None) else failed
              | RunFailed _ \<Rightarrow> failed) }})"

subsection \<open>The version of the binary (version.go)\<close>

definition trim_prefix_of :: "string \<Rightarrow> string \<Rightarrow> string" where
  "trim_prefix_of s p = (if has_prefix s p then drop (length p) s else s)"

text \<open>\<open>query\<close> runs the binary with \<open>--version\<close> and gives its output, or \<open>None\<close> when it fails.\<close>

definition BinaryVersion :: "(string \<Rightarrow> ('h, string option) comp) \<Rightarrow> string \<Rightarrow> ('h, string option) comp" where
  "BinaryVersion query binaryPath =
     (if binaryPath = [] then State_Monad.return None
      else do {
        out \<leftarrow> query binaryPath;
        State_Monad.return (case out of None \<Rightarrow> None
          | Some s \<Rightarrow>
              let version = trim_space (takeWhile (\<lambda>c. c \<noteq> newline) s);
                  version = trim_space (trim_prefix_of version ''Firecracker '') in
              if version = [] then None else Some version) })"

subsection \<open>What the shell of the guest reads\<close>

text \<open>
  The rules of POSIX for words of a simple command (section 2.2 and 2.3 of the shell command language): blanks separate words, a
  quote keeps everything up to the next one, a backslash keeps the next byte, and at the first unquoted byte with a meaning of
  its own the reading of plain words ends. The result is the words and the rest of the line; \<open>None\<close> is a quote that is not closed.
\<close>

datatype lex_mode = Between | InWord | Quoted | Escaped

definition shell_special :: "char \<Rightarrow> bool" where
  "shell_special c \<longleftrightarrow> c \<in> {CHR '';'', CHR ''&'', CHR ''|'', CHR ''<'', CHR ''>'', CHR ''('', CHR '')'', CHR ''$'', CHR 0x60, CHR 0x22,
     CHR ''*'', CHR ''?'', CHR ''['', CHR ''#'', CHR ''~'', CHR ''='', CHR ''!'', CHR ''{'', CHR ''}'', CHR 0x09, newline}"

fun shell_words :: "lex_mode \<Rightarrow> string \<Rightarrow> string \<Rightarrow> (string list \<times> string) option" where
  "shell_words Quoted w [] = None"
| "shell_words Escaped w [] = None"
| "shell_words Between w [] = Some ([], [])"
| "shell_words InWord w [] = Some ([w], [])"
| "shell_words Quoted w (c # s) = (if c = quote_char then shell_words InWord w s else shell_words Quoted (w @ [c]) s)"
| "shell_words Escaped w (c # s) = shell_words InWord (w @ [c]) s"
| "shell_words Between w (c # s) =
     (if c = CHR '' '' then shell_words Between [] s
      else if c = quote_char then shell_words Quoted [] s
      else if c = backslash then shell_words Escaped [] s
      else if shell_special c then Some ([], c # s)
      else shell_words InWord [c] s)"
| "shell_words InWord w (c # s) =
     (if c = CHR '' '' then map_option (\<lambda>(ws, r). (w # ws, r)) (shell_words Between [] s)
      else if c = quote_char then shell_words Quoted w s
      else if c = backslash then shell_words Escaped w s
      else if shell_special c then Some ([w], c # s)
      else shell_words InWord (w @ [c]) s)"

lemma words_quoted:
  "shell_words Quoted w (concat (map (\<lambda>c. if c = quote_char then [quote_char, backslash, quote_char, quote_char] else [c]) s) @ quote_char # t)
     = shell_words InWord (w @ s) t"
  by (induction s arbitrary: w) auto

lemma words_shellQuote: "shell_words Between w (shellQuote s @ t) = shell_words InWord s t"
  using words_quoted [of "[]" s t] by (simp add: shellQuote_def)

lemma shellQuote_hd: "shellQuote s \<noteq> []"
  by (simp add: shellQuote_def)

lemma words_shellJoin:
  assumes "args \<noteq> []"
  shows "shell_words Between [] (shellJoin args @ CHR '';'' # t) = Some (args, CHR '';'' # t)"
  using assms
proof (induction args)
  case (Cons a args)
  show ?case
  proof (cases "args = []")
    case True
    then show ?thesis by (simp add: shellJoin_def words_shellQuote shell_special_def)
  next
    case False
    then have "shellJoin (a # args) @ CHR '';'' # t = shellQuote a @ CHR '' '' # shellJoin args @ CHR '';'' # t"
      by (simp add: shellJoin_def join_Cons)
    with Cons.IH [OF False] show ?thesis by (simp add: words_shellQuote)
  qed
qed simp

text \<open>C15. The shell of the guest reads from the remote command exactly the words of the request, byte for byte, and then the part that
  reports the exit code: no argument can end the command, add a word or be expanded.\<close>

theorem remote_command_words:
  assumes "command \<noteq> []"
  shows "shell_words Between [] (remote_command command marker) = Some (command, remote_suffix marker)"
  using words_shellJoin [OF assms, of "tl (remote_suffix marker)"] by (simp add: remote_command_def remote_suffix_def)

theorem remote_command_words_witness:
  "shell_words Between [] (remote_command [''echo'', quote_char # ''; rm -rf /'', [], ''$HOME''] ''M='')
     = Some ([''echo'', quote_char # ''; rm -rf /'', [], ''$HOME''], remote_suffix ''M='')"
  by (rule remote_command_words) simp

subsection \<open>Bounds of the buffers\<close>

definition buffered :: "cappedBuffer \<Rightarrow> string \<Rightarrow> bool" where
  "buffered c written \<longleftrightarrow> cb_buf c = take (nat (cb_limit c)) written \<and> (cb_truncated c \<longleftrightarrow> int (length written) > cb_limit c)"

lemma buffered_Write:
  assumes "buffered c w" and "cb_limit c \<ge> 0"
  shows "buffered (cappedBuffer_Write c p) (w @ p)"
proof -
  have min: "int (length (cb_buf c)) = min (cb_limit c) (int (length w))" using assms by (simp add: buffered_def)
  show ?thesis
  proof (cases "int (length w) < cb_limit c")
    case True
    then have "cb_buf c = w" "\<not> cb_truncated c" using assms by (simp_all add: buffered_def)
    with True assms(2) show ?thesis by (auto simp: buffered_def cappedBuffer_Write_def Let_def nat_diff_distrib)
  next
    case False
    then have "cb_limit c - int (length (cb_buf c)) = 0" using min by simp
    with False assms show ?thesis by (auto simp: buffered_def cappedBuffer_Write_def Let_def)
  qed
qed

lemma cappedBuffer_limit [simp]: "cb_limit (cappedBuffer_Write c p) = cb_limit c"
  by (simp add: cappedBuffer_Write_def Let_def)

lemma buffered_writes: "buffered c w \<Longrightarrow> cb_limit c \<ge> 0 \<Longrightarrow> buffered (foldl cappedBuffer_Write c ps) (w @ concat ps) \<and> cb_limit (foldl cappedBuffer_Write c ps) = cb_limit c"
proof (induction ps arbitrary: c w)
  case (Cons p ps)
  from Cons.IH [OF buffered_Write [OF Cons.prems]] Cons.prems(2) show ?case by simp
qed simp

lemma captured_bounded:
  "int (length (captured ps)) \<le> execOutputCap" "int (length (concat ps)) \<le> execOutputCap \<Longrightarrow> captured ps = concat ps"
proof -
  let ?c = "foldl cappedBuffer_Write \<lparr>cb_buf = [], cb_limit = execOutputCap, cb_truncated = False\<rparr> ps"
  have b: "buffered ?c (concat ps)" and l: "cb_limit ?c = execOutputCap"
    using buffered_writes [of "\<lparr>cb_buf = [], cb_limit = execOutputCap, cb_truncated = False\<rparr>" "[]" ps]
    by (simp_all add: buffered_def execOutputCap_def)
  show "int (length (captured ps)) \<le> execOutputCap"
    using b l by (auto simp: captured_def cappedBuffer_String_def Let_def buffered_def execOutputCap_def)
  show "captured ps = concat ps" if "int (length (concat ps)) \<le> execOutputCap"
    using that b l by (simp add: captured_def cappedBuffer_String_def buffered_def execOutputCap_def)
qed

subsection \<open>Recovering the exit code\<close>

lemma last_index_none:
  "m \<noteq> [] \<Longrightarrow> last m \<notin> set s \<Longrightarrow> last_index s m = None"
proof (induction s)
  case (Cons c s)
  have "\<not> has_prefix (c # s) m"
  proof
    assume "has_prefix (c # s) m"
    then obtain r where "c # s = m @ r" by (auto simp: has_prefix_iff)
    then have "last m \<in> set (c # s)" using last_in_set [OF Cons.prems(1)] by simp
    with Cons.prems show False by simp
  qed
  with Cons show ?case by simp
qed simp

lemma last_index_append: "last_index s m = Some i \<Longrightarrow> last_index (out @ s) m = Some (length out + i)"
  by (induction out) auto

text \<open>An occurrence that starts inside the marker would have to end behind it, on a byte that the marker does not end with.\<close>

lemma last_index_marker:
  assumes "m \<noteq> []" and "last m \<notin> set rest"
  shows "last_index (m @ rest) m = Some 0"
proof -
  have inside: "last_index (t @ rest) m = None" if "length t < length m" for t
    using that
  proof (induction t)
    case Nil
    then show ?case using last_index_none [OF assms] by simp
  next
    case (Cons c t)
    have "\<not> has_prefix ((c # t) @ rest) m"
    proof
      assume "has_prefix ((c # t) @ rest) m"
      then obtain r where r: "(c # t) @ rest = m @ r" by (auto simp: has_prefix_iff)
      then have "m = (c # t) @ drop (length (c # t)) m" using Cons.prems
        by (metis append_eq_append_conv_if append_take_drop_id less_imp_le_nat)
      then obtain u where m: "m = (c # t) @ u" by blast
      with Cons.prems have "u \<noteq> []" by auto
      moreover from r m have "rest = u @ r" by simp
      ultimately have "last m \<in> set rest" using m by simp
      with assms(2) show False by simp
    qed
    with Cons show ?case by simp
  qed
  obtain c t where m: "m = c # t" using assms(1) by (cases m) auto
  then have "last_index (t @ rest) m = None" by (intro inside) simp
  with m show ?thesis by (simp add: has_prefix_iff)
qed

lemma newExitMarker_end: "newExitMarker random \<noteq> [] \<and> last (newExitMarker random) = CHR ''=''"
  by (simp add: newExitMarker_def split: option.splits)

lemma digits_all: "list_all digit_char (nat_digits n)"
  using nat_digits_chars by (auto simp: list_all_iff digit_char_def)

lemma takeWhile_all_append: "list_all P xs \<Longrightarrow> \<not> P y \<Longrightarrow> takeWhile P (xs @ y # ys) = xs \<and> dropWhile P (xs @ y # ys) = y # ys"
  by (induction xs) auto

lemma parseExitSentinel_recovers:
  assumes "marker \<noteq> []" and "last marker = CHR ''=''" and "rc < 2 ^ 63"
  shows "parseExitSentinel (out @ newline # marker @ nat_digits rc @ [newline]) marker = (int rc, out, True)"
proof -
  let ?rest = "nat_digits rc @ [newline]"
  have "CHR ''='' \<notin> set ?rest" using nat_digits_chars [of "CHR ''=''" rc] by auto
  then have "last_index (marker @ ?rest) marker = Some 0" using assms(1,2) by (intro last_index_marker) auto
  then have idx: "last_index (out @ newline # marker @ ?rest) marker = Some (Suc (length out))"
    using last_index_append [of "marker @ ?rest" marker 0 "out @ [newline]"] by simp
  have "takeWhile digit_char ?rest = nat_digits rc \<and> dropWhile digit_char ?rest = [newline]"
    by (intro takeWhile_all_append digits_all) (simp add: digit_char_def)
  moreover have "trim_space [newline] = []" by (simp add: trim_space_def is_space_def)
  moreover have "trim_suffix (out @ [newline]) [newline] = out" by (simp add: trim_suffix_def has_suffix_iff)
  ultimately show ?thesis using idx assms(3) by (simp add: parseExitSentinel_def Let_def)
qed

text \<open>What ssh delivers when the shell of the guest runs the remote command: the output \<open>out\<close> of the command, the line that reports
  its exit code \<open>rc\<close>, nothing else, and all of it within the limit of the buffer, \<open>execOutputCap\<close> (1 MiB).\<close>

definition guest_runs :: "'h exec_env \<Rightarrow> 'h \<Rightarrow> string list \<Rightarrow> string \<Rightarrow> nat \<Rightarrow> bool" where
  "guest_runs E h command out rc \<longleftrightarrow> (case run_state (xe_rand8 E) h of (random, h1) \<Rightarrow>
     \<forall>args. last args = remote_command command (newExitMarker random) \<longrightarrow>
       (let r = fst (run_state (xe_ssh E args) h1) in
        concat (sh_stdout r) = out @ newline # newExitMarker random @ nat_digits rc @ [newline]
        \<and> int (length (concat (sh_stdout r))) \<le> execOutputCap))"

lemma guest_runsD:
  assumes "guest_runs E h command out rc" and "run_state (xe_rand8 E) h = (random, h1)" and "rc < 256"
    and "last args = remote_command command (newExitMarker random)" and "run_state (xe_ssh E args) h1 = (r, h2)"
  shows "parseExitSentinel (captured (sh_stdout r)) (newExitMarker random) = (int rc, out, True)"
proof -
  have out: "concat (sh_stdout r) = out @ newline # newExitMarker random @ nat_digits rc @ [newline]"
    and "int (length (concat (sh_stdout r))) \<le> execOutputCap"
    using assms by (auto simp: guest_runs_def Let_def)
  from captured_bounded(2) [OF this(2)] out
  have "captured (sh_stdout r) = out @ newline # newExitMarker random @ nat_digits rc @ [newline]" by (rule trans)
  moreover have "rc < 2 ^ 63" using assms(3) by simp
  ultimately show ?thesis using parseExitSentinel_recovers newExitMarker_end [of random] by simp
qed

text \<open>C16. When ssh delivers what the shell of the guest prints, \<open>Exec\<close> returns this output and this exit code, however ssh itself
  ended and even when the output contains the marker, if everything that the guest prints, the report of the exit code included, fits into the cap on captured output (1 MiB), and
  the exit code is below 256.\<close>

theorem Exec_recovers_exit_code:
  assumes "run_state (Exec E m vm command) h = ((result, e), h')" and "guest_runs E h command out rc" and "rc < 256"
    and "xc_execSSHKey m \<noteq> []" and "command \<noteq> []" and "guestIP vm \<noteq> []"
  shows "\<exists>res. result = Some res \<and> e = None \<and> xs_Stdout res = out \<and> xs_ExitCode res = int rc"
proof -
  obtain random h1 where random: "run_state (xe_rand8 E) h = (random, h1)" by fastforce
  obtain r h2 where ssh: "run_state (xe_ssh E (ssh_args m vm command (newExitMarker random))) h1 = (r, h2)" by fastforce
  have "parseExitSentinel (captured (sh_stdout r)) (newExitMarker random) = (int rc, out, True)"
    by (rule guest_runsD [OF assms(2) random assms(3) _ ssh]) (simp add: ssh_args_def Let_def)
  then show ?thesis using assms(1,4-6) random ssh by (auto simp: Exec_def Let_def)
qed

text \<open>Whatever the guest sends, the output that \<open>Exec\<close> returns is bounded.\<close>

lemma parseExitSentinel_shorter: "length (fst (snd (parseExitSentinel s marker))) \<le> length s"
proof (cases "last_index s marker")
  case (Some idx)
  have "length (trim_suffix (take idx s) [newline]) \<le> length s" by (simp add: trim_suffix_def) linarith
  with Some show ?thesis by (simp add: parseExitSentinel_def Let_def)
qed (simp add: parseExitSentinel_def)

lemma clean_bounded: "parseExitSentinel (captured ps) marker = (c, clean, ok) \<Longrightarrow> int (length clean) \<le> execOutputCap"
  using parseExitSentinel_shorter [of "captured ps" marker] captured_bounded(1) [of ps] by simp

lemma Exec_bounded:
  assumes "run_state (Exec E m vm command) h = ((Some res, e), h')"
  shows "int (length (xs_Stdout res)) \<le> execOutputCap \<and> int (length (xs_Stderr res)) \<le> execOutputCap"
  using assms by (auto simp: Exec_def Let_def captured_bounded(1) split: if_splits prod.splits run_end.splits dest: clean_bounded)

text \<open>A guest that prints a forged marker before it exits with 3, while ssh ends with 255.\<close>

definition demo_exec_env :: "unit exec_env" where
  "demo_exec_env = \<lparr>xe_rand8 = State_Monad.return None,
     xe_ssh = (\<lambda>_. State_Monad.return \<lparr>sh_stdout = [''a__NANOFUSE_EXIT_x=0'', newline # ''__NANOFUSE_EXIT_x=3'' @ [newline]], sh_stderr = [], sh_end = RunExit 255\<rparr>),
     xe_ctx_Err = State_Monad.return False, xe_exit_text = (\<lambda>_. ''exit status 255'')\<rparr>"

definition demo_exec_config :: exec_config where
  "demo_exec_config = \<lparr>xc_dataDir = ''/d'', xc_execSSHKey = ''k'', xc_execSSHUser = [], xc_execVerifyHostKey = False\<rparr>"

definition demo_guest :: VM where
  "demo_guest = \<lparr>vm_ID = ''vm-1'', vm_Name = ''g'', vm_State = StateRunning, vm_Image = [], vm_ImageDigest = [], vm_Architecture = [],
     vm_Config = \<lparr>vc_VCPUs = 1, vc_MemoryMiB = 128, vc_KernelArgs = [], vc_SSHPublicKey = [],
       vc_Network = \<lparr>nc_Mode = ''nat'', nc_TapDevice = [], nc_MACAddress = [], nc_BridgeName = None, nc_IPAddress = ''172.16.0.2'', nc_Gateway = [],
         nc_Netmask = [], nc_PortForwards = [], nc_EgressPolicy = None\<rparr>, vc_Disks = [], vc_Mounts = [], vc_Secrets = []\<rparr>,
     vm_Runtime = None, vm_CreatedAt = 0, vm_UpdatedAt = 0, vm_LockedBy = None, vm_LockedAt = None,
     vm_OwnerUserID = [], vm_GroupID = [], vm_SpiffeID = []\<rparr>"

theorem Exec_recovers_exit_code_witness:
  "\<exists>res. fst (run_state (Exec demo_exec_env demo_exec_config demo_guest [''ls'']) ()) = (Some res, None)
     \<and> xs_Stdout res = ''a__NANOFUSE_EXIT_x=0'' \<and> xs_ExitCode res = 3"
proof -
  let ?m = "Exec demo_exec_env demo_exec_config demo_guest [''ls'']"
  have digits: "nat_digits 3 = ''3''" by code_simp
  have guest: "guest_runs demo_exec_env () [''ls''] ''a__NANOFUSE_EXIT_x=0'' 3"
    by (simp add: guest_runs_def demo_exec_env_def newExitMarker_def exitSentinelPrefix_def execOutputCap_def digits)
  obtain result e h' where run: "run_state ?m () = ((result, e), h')" by (metis prod.exhaust)
  have "\<exists>res. result = Some res \<and> e = None \<and> xs_Stdout res = ''a__NANOFUSE_EXIT_x=0'' \<and> xs_ExitCode res = int 3"
    by (rule Exec_recovers_exit_code [OF run guest]) (simp_all add: demo_exec_config_def demo_guest_def guestIP_def)
  with run show ?thesis by auto
qed

end
