(* ===== verification/FC_Driver.thy ===== *)
theory FC_Driver
  imports FC_Exec Server_Env "HOL-Library.Multiset" "HOL-Library.Finite_Map"
begin

section \<open>The Firecracker driver (internal/firecracker/vm.go, vsock_proxy.go)\<close>

text \<open>
  The manager of Firecracker processes behind the interface \<open>vmm.Manager\<close>. Its state is the map of vsock proxies and the goroutines that
  wait for processes; everything it does to the host goes through one primitive that appends the call with its result to a trace.
  The results come from an arbitrary host, so any call may fail at any point. The theorems speak about the trace: which processes were
  started, killed and reaped, which sockets are open, and in which order the requests to the Firecracker API were made.
  Durations are not modelled: how many ticks or attempts fit before a timer fires is a number that the host gives.
\<close>

subsection \<open>Data\<close>

record SPIREProxyConfig =
  sp_Enabled :: bool
  sp_VsockCID :: "32 word"
  sp_VsockPort :: "32 word"
  sp_AgentSocket :: string

record BootSource =
  bo_KernelImagePath :: string
  bo_BootArgs :: string

record Drive =
  dv_DriveID :: string
  dv_PathOnHost :: string
  dv_IsReadOnly :: bool
  dv_IsRootDevice :: bool

record MachineConfig =
  mc_VcpuCount :: int
  mc_MemSizeMib :: int
  mc_SMT :: bool

record NetworkInterface =
  nf_IfaceID :: string
  nf_GuestMAC :: string
  nf_HostDevName :: string

record VsockConfig =
  vs_GuestCID :: "32 word"
  vs_UDSPath :: string

record fc_Config =
  fc_BootSource :: BootSource
  fc_Drives :: "Drive list"
  fc_MachineConfig :: MachineConfig
  fc_NetworkInterfaces :: "NetworkInterface list"
  fc_Vsock :: "VsockConfig option"

record memoryBackend =
  mb_BackendType :: string
  mb_BackendPath :: string

text \<open>The bodies of the requests to the API of Firecracker.\<close>

datatype api_body =
    snapshotCreateRequest (sc_SnapshotType: string) (sc_SnapshotPath: string) (sc_MemFilePath: string)
  | snapshotLoadRequest (sl_SnapshotPath: string) (sl_MemBackend: memoryBackend) (sl_ResumeVM: bool)
  | vmStateRequest (st_State: string)

record VsockProxy =
  vp_vsockPath :: string
  vp_targetSocket :: string
  vp_port :: "32 word"
  vp_running :: bool

text \<open>The configuration of a manager.\<close>

record fc_Manager =
  fm_binaryPath :: string
  fm_exec :: exec_config
  fm_spireConfig :: "SPIREProxyConfig option"

subsection \<open>The host\<close>

datatype fc_signal = SIGTERM | SIGKILL | Signal0
datatype signal_result = Delivered | ProcessDone | SignalError
datatype lstat_result = LstatError | Regular | NotRegular
datatype remove_result = Removed | NotPresent | RemoveError

datatype fc_event =
    Mkdir string bool
  | Chmod string bool
  | WriteConfig string fc_Config bool
  | OpenConsole string bool
  | StartProcess "string list" "int option"
  | WaitProcess int
  | FindProcess int bool
  | Signal int fc_signal signal_result
  | Dial string bool
  | API string string string api_body "int option"
  | LstatFile string lstat_result
  | RemoveFile string remove_result
  | Listen string bool
  | CloseListener string
  | RunIp "string list" bool

record 'h fc_os =
  fo_MkdirAll :: "string \<Rightarrow> ('h, bool) comp"
  fo_Chmod :: "string \<Rightarrow> ('h, bool) comp"
  fo_WriteFile :: "string \<Rightarrow> fc_Config \<Rightarrow> ('h, bool) comp"
  fo_OpenFile :: "string \<Rightarrow> ('h, bool) comp"
  fo_ReadFile :: "string \<Rightarrow> ('h, string option) comp"
  fo_Start :: "string list \<Rightarrow> ('h, int option) comp"
  fo_Wait :: "int \<Rightarrow> ('h, int \<times> bool) comp"
  fo_FindProcess :: "int \<Rightarrow> ('h, bool) comp"
  fo_Signal :: "int \<Rightarrow> fc_signal \<Rightarrow> ('h, signal_result) comp"
  fo_Dial :: "string \<Rightarrow> ('h, bool) comp"
  fo_Do :: "string \<Rightarrow> string \<Rightarrow> string \<Rightarrow> api_body \<Rightarrow> ('h, int option) comp"
  fo_Lstat :: "string \<Rightarrow> ('h, lstat_result) comp"
  fo_Remove :: "string \<Rightarrow> ('h, remove_result) comp"
  fo_Listen :: "string \<Rightarrow> ('h, bool) comp"
  fo_Run :: "string list \<Rightarrow> ('h, bool) comp"
  fo_ticks :: "('h, nat) comp"
  fo_rand :: "('h, (8 word) option) comp"

text \<open>The state: the proxies by machine, the goroutines that wait for a process, the trace and the host.\<close>

record 'h driver =
  dr_proxies :: "(string, VsockProxy) fmap"
  dr_reapers :: "(int \<times> string) list"
  dr_trace :: "fc_event list"
  dr_host :: 'h

definition on_fc :: "('h, 'a) comp \<Rightarrow> ('h driver, 'a) comp" where
  "on_fc m = zoom dr_host (\<lambda>h s. s\<lparr>dr_host := h\<rparr>) m"

definition ext :: "('h, 'a) comp \<Rightarrow> ('a \<Rightarrow> fc_event) \<Rightarrow> ('h driver, 'a) comp" where
  "ext m ev = do {
     a \<leftarrow> on_fc m;
     _ \<leftarrow> State_Monad.update (\<lambda>s. s\<lparr>dr_trace := dr_trace s @ [ev a]\<rparr>);
     State_Monad.return a }"

subsection \<open>The proxy (vsock_proxy.go)\<close>

definition NewVsockProxy :: "string \<Rightarrow> string \<Rightarrow> 32 word \<Rightarrow> VsockProxy option" where
  "NewVsockProxy vsockPath targetSocket port =
     (if vsockPath = [] then None
      else if targetSocket = [] then None
      else Some \<lparr>vp_vsockPath = vsockPath, vp_targetSocket = targetSocket, vp_port = port, vp_running = False\<rparr>)"

definition VsockProxy_Start :: "'h fc_os \<Rightarrow> VsockProxy \<Rightarrow> ('h driver, VsockProxy option) comp" where
  "VsockProxy_Start E p =
     (if vp_running p then State_Monad.return None
      else do {
        r \<leftarrow> ext (fo_Remove E (vp_vsockPath p)) (RemoveFile (vp_vsockPath p));
        if r = RemoveError then State_Monad.return None
        else do {
          ok \<leftarrow> ext (fo_Listen E (vp_vsockPath p)) (Listen (vp_vsockPath p));
          if \<not> ok then State_Monad.return None
          else State_Monad.return (Some (p\<lparr>vp_running := True\<rparr>)) }})"

definition VsockProxy_Stop :: "'h fc_os \<Rightarrow> VsockProxy \<Rightarrow> ('h driver, VsockProxy) comp" where
  "VsockProxy_Stop E p =
     (if \<not> vp_running p then State_Monad.return p
      else do {
        _ \<leftarrow> ext (State_Monad.return ()) (\<lambda>_. CloseListener (vp_vsockPath p));
        _ \<leftarrow> ext (fo_Remove E (vp_vsockPath p)) (RemoveFile (vp_vsockPath p));
        State_Monad.return (p\<lparr>vp_running := False\<rparr>) })"

subsection \<open>Managers (vm.go)\<close>

definition fc_NewManager :: "string \<Rightarrow> string \<Rightarrow> fc_Manager" where
  "fc_NewManager binaryPath dataDir = \<lparr>fm_binaryPath = binaryPath,
     fm_exec = \<lparr>xc_dataDir = dataDir, xc_execSSHKey = [], xc_execSSHUser = [], xc_execVerifyHostKey = False\<rparr>, fm_spireConfig = None\<rparr>"

definition SetExecSSH :: "string \<Rightarrow> string \<Rightarrow> bool \<Rightarrow> fc_Manager \<Rightarrow> fc_Manager" where
  "SetExecSSH keyPath user verifyHostKey m = m\<lparr>fm_exec := (fm_exec m)\<lparr>xc_execSSHKey := keyPath, xc_execSSHUser := user,
     xc_execVerifyHostKey := verifyHostKey\<rparr>\<rparr>"

definition SetSPIREConfig :: "SPIREProxyConfig option \<Rightarrow> fc_Manager \<Rightarrow> fc_Manager option" where
  "SetSPIREConfig cfg m =
     (case cfg of
        Some c \<Rightarrow> if sp_Enabled c \<and> sp_VsockCID c < 3 then None else Some (m\<lparr>fm_spireConfig := cfg\<rparr>)
      | None \<Rightarrow> Some (m\<lparr>fm_spireConfig := cfg\<rparr>))"

text \<open>The condition that both the configuration of the device and the start of the proxy test.\<close>

definition vsock_config :: "fc_Manager \<Rightarrow> SPIREProxyConfig option" where
  "vsock_config m = (case fm_spireConfig m of
       Some c \<Rightarrow> if sp_Enabled c \<and> sp_VsockCID c \<ge> 3 then Some c else None
     | None \<Rightarrow> None)"

definition addDrivesToConfig :: "fc_Config \<Rightarrow> DiskConfig list \<Rightarrow> fc_Config" where
  "addDrivesToConfig config disks = config\<lparr>fc_Drives := fc_Drives config @
     map (\<lambda>disk. \<lparr>dv_DriveID = dk_DriveID disk, dv_PathOnHost = dk_PathOnHost disk, dv_IsReadOnly = dk_IsReadOnly disk,
       dv_IsRootDevice = dk_IsRootDevice disk\<rparr>) disks\<rparr>"

definition addNetworkInterfaceToConfig :: "fc_Config \<Rightarrow> NetworkConfig \<Rightarrow> fc_Config" where
  "addNetworkInterfaceToConfig config networkConfig =
     (if nc_Mode networkConfig \<noteq> ''none'' then config\<lparr>fc_NetworkInterfaces := fc_NetworkInterfaces config @
        [\<lparr>nf_IfaceID = ''eth0'', nf_GuestMAC = nc_MACAddress networkConfig, nf_HostDevName = nc_TapDevice networkConfig\<rparr>]\<rparr>
      else config)"

definition buildKernelArgs :: "VM \<Rightarrow> string" where
  "buildKernelArgs vm = (let args = vc_KernelArgs (vm_Config vm) in
     if vc_SSHPublicKey (vm_Config vm) \<noteq> [] then args @ '' sshkey='' @ vc_SSHPublicKey (vm_Config vm) else args)"

definition buildFirecrackerConfig :: "fc_Manager \<Rightarrow> VM \<Rightarrow> Image \<Rightarrow> string \<Rightarrow> fc_Config" where
  "buildFirecrackerConfig m vm img vmDir =
     (let fcConfig = \<lparr>fc_BootSource = \<lparr>bo_KernelImagePath = im_KernelPath img, bo_BootArgs = buildKernelArgs vm\<rparr>, fc_Drives = [],
            fc_MachineConfig = \<lparr>mc_VcpuCount = vc_VCPUs (vm_Config vm), mc_MemSizeMib = vc_MemoryMiB (vm_Config vm), mc_SMT = False\<rparr>,
            fc_NetworkInterfaces = [], fc_Vsock = None\<rparr>;
          fcConfig = addDrivesToConfig fcConfig (vc_Disks (vm_Config vm));
          fcConfig = addNetworkInterfaceToConfig fcConfig (vc_Network (vm_Config vm)) in
      case vsock_config m of
        Some c \<Rightarrow> fcConfig\<lparr>fc_Vsock := Some \<lparr>vs_GuestCID = sp_VsockCID c, vs_UDSPath = path_join [vmDir, ''vsock.sock'']\<rparr>\<rparr>
      | None \<Rightarrow> fcConfig)"

definition startFirecrackerProcess :: "'h fc_os \<Rightarrow> fc_Manager \<Rightarrow> string \<Rightarrow> string \<Rightarrow> string \<Rightarrow> ('h driver, int option) comp" where
  "startFirecrackerProcess E m socketPath configPath consolePath = do {
     ok \<leftarrow> ext (fo_OpenFile E consolePath) (OpenConsole consolePath);
     if \<not> ok then State_Monad.return None
     else do {
       let args = [''--api-sock'', socketPath] @ (if configPath \<noteq> [] then [''--config-file'', configPath] else []);
       ext (fo_Start E (fm_binaryPath m # args)) (StartProcess (fm_binaryPath m # args)) }}"

definition setupVMRuntime :: "VM \<Rightarrow> int \<Rightarrow> string \<Rightarrow> string \<Rightarrow> VM" where
  "setupVMRuntime vm pid socketPath consolePath =
     (let net = vc_Network (vm_Config vm) in
      vm\<lparr>vm_Runtime := Some \<lparr>rt_PID = pid, rt_Driver = [], rt_ExternalID = [], rt_SocketPath = socketPath, rt_ConsolePath = consolePath,
        rt_NetworkInfo = (if nc_Mode net = ''nat'' then Some \<lparr>ni_TapDevice = nc_TapDevice net, ni_HostIP = ''172.16.0.1'',
           ni_GuestIP = nc_IPAddress net, ni_Gateway = nc_Gateway net\<rparr> else None)\<rparr>\<rparr>)"

definition stopVsockProxy :: "'h fc_os \<Rightarrow> string \<Rightarrow> ('h driver, bool) comp" where
  "stopVsockProxy E vmID = do {
     s \<leftarrow> State_Monad.get;
     case fmlookup (dr_proxies s) vmID of
       None \<Rightarrow> State_Monad.return False
     | Some proxy \<Rightarrow> do {
         _ \<leftarrow> State_Monad.update (\<lambda>s. s\<lparr>dr_proxies := fmdrop vmID (dr_proxies s)\<rparr>);
         _ \<leftarrow> VsockProxy_Stop E proxy;
         State_Monad.return True }}"

definition startVsockProxyIfConfigured :: "'h fc_os \<Rightarrow> fc_Manager \<Rightarrow> string \<Rightarrow> string \<Rightarrow> ('h driver, unit) comp" where
  "startVsockProxyIfConfigured E m vmID vsockPath =
     (case vsock_config m of
        None \<Rightarrow> State_Monad.return ()
      | Some c \<Rightarrow> do {
          _ \<leftarrow> stopVsockProxy E vmID;
          case NewVsockProxy vsockPath (sp_AgentSocket c) (sp_VsockPort c) of
            None \<Rightarrow> State_Monad.return ()
          | Some proxy \<Rightarrow> do {
              p \<leftarrow> VsockProxy_Start E proxy;
              case p of None \<Rightarrow> State_Monad.return ()
              | Some proxy \<Rightarrow> State_Monad.update (\<lambda>s. s\<lparr>dr_proxies := fmupd vmID proxy (dr_proxies s)\<rparr>) }})"

datatype fc_error = DirectoryError | ConfigError | StartError | NoRuntime | ProcessNotFound | SignalFailed | StillRunning
  | NoSocket | RequestFailed | PathRequired | NotAFile | SocketError | SocketNotReady | LogError | LoadFailed | ResumeFailed

text \<open>The goroutine that waits for a process.\<close>

definition spawn_reaper :: "int \<Rightarrow> string \<Rightarrow> ('h driver, unit) comp" where
  "spawn_reaper pid vmID = State_Monad.update (\<lambda>s. s\<lparr>dr_reapers := (pid, vmID) # dr_reapers s\<rparr>)"

definition vm_dir :: "fc_Manager \<Rightarrow> VM \<Rightarrow> string" where
  "vm_dir m vm = path_join [xc_dataDir (fm_exec m), ''vms'', vm_ID vm]"

definition Manager_Start :: "'h fc_os \<Rightarrow> fc_Manager \<Rightarrow> VM \<Rightarrow> Image \<Rightarrow> ('h driver, fc_error option \<times> VM) comp" where
  "Manager_Start E m vm img = (let vmDir = vm_dir m vm in do {
     ok \<leftarrow> ext (fo_MkdirAll E vmDir) (Mkdir vmDir);
     if \<not> ok then State_Monad.return (Some DirectoryError, vm) else do {
     ok \<leftarrow> ext (fo_Chmod E vmDir) (Chmod vmDir);
     if \<not> ok then State_Monad.return (Some DirectoryError, vm) else do {
     let socketPath = path_join [vmDir, ''firecracker.sock''];
     let consolePath = path_join [vmDir, ''console.log''];
     let configPath = path_join [vmDir, ''config.json''];
     let fcConfig = buildFirecrackerConfig m vm img vmDir;
     ok \<leftarrow> ext (fo_WriteFile E configPath fcConfig) (WriteConfig configPath fcConfig);
     if \<not> ok then State_Monad.return (Some ConfigError, vm) else do {
     cmd \<leftarrow> startFirecrackerProcess E m socketPath configPath consolePath;
     case cmd of None \<Rightarrow> State_Monad.return (Some StartError, vm)
     | Some pid \<Rightarrow> do {
         let vm = setupVMRuntime vm pid socketPath consolePath;
         _ \<leftarrow> (case fc_Vsock fcConfig of None \<Rightarrow> State_Monad.return ()
             | Some v \<Rightarrow> startVsockProxyIfConfigured E m (vm_ID vm) (vs_UDSPath v));
         _ \<leftarrow> spawn_reaper pid (vm_ID vm);
         State_Monad.return (None, vm) }}}}})"

text \<open>A waiting goroutine returns: the process is reaped and the handler is called with the exit code.\<close>

definition waitForProcessExit :: "'h fc_os \<Rightarrow> (string \<Rightarrow> int \<Rightarrow> bool \<Rightarrow> ('h, unit) comp) option \<Rightarrow> int \<Rightarrow> string \<Rightarrow> ('h driver, unit) comp" where
  "waitForProcessExit E onProcessExit pid vmID = do {
     r \<leftarrow> ext (fo_Wait E pid) (\<lambda>_. WaitProcess pid);
     _ \<leftarrow> (case onProcessExit of None \<Rightarrow> State_Monad.return () | Some handler \<Rightarrow> on_fc (handler vmID (fst r) (snd r)));
     State_Monad.update (\<lambda>s. s\<lparr>dr_reapers := remove1 (pid, vmID) (dr_reapers s)\<rparr>) }"

definition IsRunning :: "'h fc_os \<Rightarrow> int \<Rightarrow> ('h driver, bool) comp" where
  "IsRunning E pid = do {
     found \<leftarrow> ext (fo_FindProcess E pid) (FindProcess pid);
     if \<not> found then State_Monad.return False
     else do {
       r \<leftarrow> ext (fo_Signal E pid Signal0) (Signal pid Signal0);
       State_Monad.return (r = Delivered) }}"

text \<open>Checking at every tick until the timer fires; the result says whether the process was gone.\<close>

fun poll :: "'h fc_os \<Rightarrow> int \<Rightarrow> nat \<Rightarrow> ('h driver, bool) comp" where
  "poll E pid 0 = State_Monad.return False"
| "poll E pid (Suc n) = do {
     running \<leftarrow> IsRunning E pid;
     if \<not> running then State_Monad.return True else poll E pid n }"

definition Manager_Stop :: "'h fc_os \<Rightarrow> VM \<Rightarrow> ('h driver, fc_error option) comp" where
  "Manager_Stop E vm = (case vm_Runtime vm of None \<Rightarrow> State_Monad.return (Some NoRuntime)
     | Some rt \<Rightarrow> if rt_PID rt = 0 then State_Monad.return (Some NoRuntime) else do {
         _ \<leftarrow> stopVsockProxy E (vm_ID vm);
         found \<leftarrow> ext (fo_FindProcess E (rt_PID rt)) (FindProcess (rt_PID rt));
         if \<not> found then State_Monad.return (Some ProcessNotFound) else do {
         r \<leftarrow> ext (fo_Signal E (rt_PID rt) SIGTERM) (Signal (rt_PID rt) SIGTERM);
         case r of ProcessDone \<Rightarrow> State_Monad.return None
         | SignalError \<Rightarrow> State_Monad.return (Some SignalFailed)
         | Delivered \<Rightarrow> do {
             ticks \<leftarrow> on_fc (fo_ticks E);
             gone \<leftarrow> poll E (rt_PID rt) ticks;
             if gone then State_Monad.return None else do {
             r \<leftarrow> ext (fo_Signal E (rt_PID rt) SIGKILL) (Signal (rt_PID rt) SIGKILL);
             case r of ProcessDone \<Rightarrow> State_Monad.return None
             | SignalError \<Rightarrow> State_Monad.return (Some SignalFailed)
             | Delivered \<Rightarrow> do {
                 ticks \<leftarrow> on_fc (fo_ticks E);
                 gone \<leftarrow> poll E (rt_PID rt) ticks;
                 State_Monad.return (if gone then None else Some StillRunning) }}}}})"

definition Manager_Kill :: "'h fc_os \<Rightarrow> VM \<Rightarrow> ('h driver, fc_error option) comp" where
  "Manager_Kill E vm = (case vm_Runtime vm of None \<Rightarrow> State_Monad.return (Some NoRuntime)
     | Some rt \<Rightarrow> if rt_PID rt = 0 then State_Monad.return (Some NoRuntime) else do {
         found \<leftarrow> ext (fo_FindProcess E (rt_PID rt)) (FindProcess (rt_PID rt));
         if \<not> found then State_Monad.return (Some ProcessNotFound) else do {
         r \<leftarrow> ext (fo_Signal E (rt_PID rt) SIGKILL) (Signal (rt_PID rt) SIGKILL);
         State_Monad.return (if r = Delivered then None else Some SignalFailed) }})"

definition Manager_Delete :: "VM \<Rightarrow> ('h driver, fc_error option) comp" where
  "Manager_Delete vm = State_Monad.return None"

definition vmAPISocket :: "VM \<Rightarrow> string option" where
  "vmAPISocket vm = (case vm_Runtime vm of None \<Rightarrow> None
     | Some rt \<Rightarrow> if rt_SocketPath rt = [] then None else Some (rt_SocketPath rt))"

definition firecrackerJSONRequest :: "'h fc_os \<Rightarrow> string \<Rightarrow> string \<Rightarrow> string \<Rightarrow> api_body \<Rightarrow> ('h driver, bool) comp" where
  "firecrackerJSONRequest E socketPath method endpoint payload = do {
     status \<leftarrow> ext (fo_Do E socketPath method endpoint payload) (API socketPath method endpoint payload);
     State_Monad.return (case status of None \<Rightarrow> False | Some n \<Rightarrow> \<not> (n < 200 \<or> n \<ge> 300)) }"

definition firecrackerPUT :: "'h fc_os \<Rightarrow> string \<Rightarrow> string \<Rightarrow> api_body \<Rightarrow> ('h driver, bool) comp" where
  "firecrackerPUT E socketPath endpoint payload = firecrackerJSONRequest E socketPath ''PUT'' endpoint payload"

definition firecrackerPATCH :: "'h fc_os \<Rightarrow> string \<Rightarrow> string \<Rightarrow> api_body \<Rightarrow> ('h driver, bool) comp" where
  "firecrackerPATCH E socketPath endpoint payload = firecrackerJSONRequest E socketPath ''PATCH'' endpoint payload"

definition Manager_Pause :: "'h fc_os \<Rightarrow> VM \<Rightarrow> ('h driver, fc_error option) comp" where
  "Manager_Pause E vm = (case vmAPISocket vm of None \<Rightarrow> State_Monad.return (Some NoSocket)
     | Some socketPath \<Rightarrow> do {
         ok \<leftarrow> firecrackerPATCH E socketPath ''/vm'' (vmStateRequest ''Paused'');
         State_Monad.return (if ok then None else Some RequestFailed) })"

definition Manager_Resume :: "'h fc_os \<Rightarrow> VM \<Rightarrow> ('h driver, fc_error option) comp" where
  "Manager_Resume E vm = (case vmAPISocket vm of None \<Rightarrow> State_Monad.return (Some NoSocket)
     | Some socketPath \<Rightarrow> do {
         ok \<leftarrow> firecrackerPATCH E socketPath ''/vm'' (vmStateRequest ''Resumed'');
         State_Monad.return (if ok then None else Some RequestFailed) })"

definition Manager_CreateSnapshot :: "'h fc_os \<Rightarrow> VM \<Rightarrow> string \<Rightarrow> string \<Rightarrow> ('h driver, fc_error option) comp" where
  "Manager_CreateSnapshot E vm snapshotPath memPath = (case vmAPISocket vm of None \<Rightarrow> State_Monad.return (Some NoSocket)
     | Some socketPath \<Rightarrow>
       if snapshotPath = [] then State_Monad.return (Some PathRequired)
       else if memPath = [] then State_Monad.return (Some PathRequired)
       else do {
         ok \<leftarrow> ext (fo_MkdirAll E (path_dir snapshotPath)) (Mkdir (path_dir snapshotPath));
         if \<not> ok then State_Monad.return (Some DirectoryError) else do {
         ok \<leftarrow> ext (fo_MkdirAll E (path_dir memPath)) (Mkdir (path_dir memPath));
         if \<not> ok then State_Monad.return (Some DirectoryError) else do {
         ok \<leftarrow> firecrackerPUT E socketPath ''/snapshot/create'' (snapshotCreateRequest ''Full'' snapshotPath memPath);
         State_Monad.return (if ok then None else Some RequestFailed) }}})"

definition requireRegularFile :: "'h fc_os \<Rightarrow> string \<Rightarrow> ('h driver, bool) comp" where
  "requireRegularFile E path = do {
     r \<leftarrow> ext (fo_Lstat E path) (LstatFile path);
     State_Monad.return (r = Regular) }"

definition sendSnapshotLoad :: "'h fc_os \<Rightarrow> string \<Rightarrow> string \<Rightarrow> string \<Rightarrow> ('h driver, bool) comp" where
  "sendSnapshotLoad E socketPath snapshotPath memPath =
     firecrackerPUT E socketPath ''/snapshot/load''
       (snapshotLoadRequest snapshotPath \<lparr>mb_BackendType = ''File'', mb_BackendPath = memPath\<rparr> False)"

text \<open>The attempts to connect, \<open>n\<close> of them before the deadline has passed.\<close>

fun dial_until :: "'h fc_os \<Rightarrow> string \<Rightarrow> nat \<Rightarrow> ('h driver, bool) comp" where
  "dial_until E socketPath 0 = ext (fo_Dial E socketPath) (Dial socketPath)"
| "dial_until E socketPath (Suc n) = do {
     ok \<leftarrow> ext (fo_Dial E socketPath) (Dial socketPath);
     if ok then State_Monad.return True else dial_until E socketPath n }"

definition waitForSocketReady :: "'h fc_os \<Rightarrow> string \<Rightarrow> ('h driver, bool) comp" where
  "waitForSocketReady E socketPath = do {
     n \<leftarrow> on_fc (fo_ticks E);
     dial_until E socketPath n }"

definition killAndReap :: "'h fc_os \<Rightarrow> int \<Rightarrow> ('h driver, unit) comp" where
  "killAndReap E pid = do {
     _ \<leftarrow> ext (fo_Signal E pid SIGKILL) (Signal pid SIGKILL);
     _ \<leftarrow> ext (fo_Wait E pid) (\<lambda>_. WaitProcess pid);
     State_Monad.return () }"

text \<open>The part of \<open>LoadSnapshot\<close> after the process was started.\<close>

definition load_started :: "'h fc_os \<Rightarrow> fc_Manager \<Rightarrow> VM \<Rightarrow> string \<Rightarrow> string \<Rightarrow> string \<Rightarrow> string \<Rightarrow> int \<Rightarrow> ('h driver, fc_error option \<times> VM) comp" where
  "load_started E m vm snapshotPath memPath socketPath consolePath pid = do {
     ok \<leftarrow> waitForSocketReady E socketPath;
     if \<not> ok then do { _ \<leftarrow> killAndReap E pid; State_Monad.return (Some SocketNotReady, vm) } else do {
     ok \<leftarrow> sendSnapshotLoad E socketPath snapshotPath memPath;
     if \<not> ok then do { _ \<leftarrow> killAndReap E pid; State_Monad.return (Some LoadFailed, vm) } else do {
     _ \<leftarrow> startVsockProxyIfConfigured E m (vm_ID vm) (path_join [vm_dir m vm, ''vsock.sock'']);
     ok \<leftarrow> firecrackerPATCH E socketPath ''/vm'' (vmStateRequest ''Resumed'');
     if \<not> ok then do {
       _ \<leftarrow> stopVsockProxy E (vm_ID vm);
       _ \<leftarrow> killAndReap E pid;
       State_Monad.return (Some ResumeFailed, vm) }
     else do {
       _ \<leftarrow> spawn_reaper pid (vm_ID vm);
       State_Monad.return (None, setupVMRuntime vm pid socketPath consolePath) }}}}"

definition Manager_LoadSnapshot :: "'h fc_os \<Rightarrow> fc_Manager \<Rightarrow> VM \<Rightarrow> string \<Rightarrow> string \<Rightarrow> ('h driver, fc_error option \<times> VM) comp" where
  "Manager_LoadSnapshot E m vm snapshotPath memPath =
     (if snapshotPath = [] then State_Monad.return (Some PathRequired, vm)
      else if memPath = [] then State_Monad.return (Some PathRequired, vm)
      else do {
      ok \<leftarrow> requireRegularFile E snapshotPath;
      if \<not> ok then State_Monad.return (Some NotAFile, vm) else do {
      ok \<leftarrow> requireRegularFile E memPath;
      if \<not> ok then State_Monad.return (Some NotAFile, vm) else do {
      let vmDir = vm_dir m vm;
      ok \<leftarrow> ext (fo_MkdirAll E vmDir) (Mkdir vmDir);
      if \<not> ok then State_Monad.return (Some DirectoryError, vm) else do {
      ok \<leftarrow> ext (fo_Chmod E vmDir) (Chmod vmDir);
      if \<not> ok then State_Monad.return (Some DirectoryError, vm) else do {
      let socketPath = path_join [vmDir, ''firecracker.sock''];
      let consolePath = path_join [vmDir, ''console.log''];
      r \<leftarrow> ext (fo_Remove E socketPath) (RemoveFile socketPath);
      if r = RemoveError then State_Monad.return (Some SocketError, vm) else do {
      cmd \<leftarrow> startFirecrackerProcess E m socketPath [] consolePath;
      case cmd of None \<Rightarrow> State_Monad.return (Some StartError, vm)
      | Some pid \<Rightarrow> load_started E m vm snapshotPath memPath socketPath consolePath pid }}}}}})"

definition Manager_GetConsoleLogs :: "'h fc_os \<Rightarrow> VM \<Rightarrow> int \<Rightarrow> ('h driver, string option) comp" where
  "Manager_GetConsoleLogs E vm tailLines = (case vm_Runtime vm of None \<Rightarrow> State_Monad.return None
     | Some rt \<Rightarrow> do {
         data \<leftarrow> on_fc (fo_ReadFile E (rt_ConsolePath rt));
         State_Monad.return (case data of None \<Rightarrow> None
           | Some data \<Rightarrow>
               if tailLines \<le> 0 then Some data
               else let lines = split_on newline data in
                 if int (length lines) \<le> tailLines then Some data
                 else Some (join [newline] (drop (length lines - nat tailLines) lines))) })"

definition fc_CleanupNetwork :: "'h fc_os \<Rightarrow> VM \<Rightarrow> ('h driver, unit) comp" where
  "fc_CleanupNetwork E vm = (let net = vc_Network (vm_Config vm); tapDevice = nc_TapDevice net in
     if nc_Mode net = ''none'' \<or> tapDevice = [] then State_Monad.return ()
     else do {
       present \<leftarrow> ext (fo_Run E [''ip'', ''link'', ''show'', tapDevice]) (RunIp [''ip'', ''link'', ''show'', tapDevice]);
       if \<not> present then State_Monad.return () else do {
       _ \<leftarrow> ext (fo_Run E [''ip'', ''link'', ''delete'', tapDevice]) (RunIp [''ip'', ''link'', ''delete'', tapDevice]);
       State_Monad.return () }})"

text \<open>Filling in the network of a machine; no caller remains. \<open>None\<close> is the panic of the slice \<open>vm.ID[:8]\<close> of a shorter identifier.\<close>

definition randomByte :: "'h fc_os \<Rightarrow> ('h driver, 8 word) comp" where
  "randomByte E = do {
     b \<leftarrow> on_fc (fo_rand E);
     State_Monad.return (case b of None \<Rightarrow> 0 | Some b \<Rightarrow> b) }"

definition generateMAC :: "'h fc_os \<Rightarrow> ('h driver, string) comp" where
  "generateMAC E = do {
     a \<leftarrow> randomByte E;
     b \<leftarrow> randomByte E;
     c \<leftarrow> randomByte E;
     State_Monad.return (''AA:FC:00:'' @ hex_lower a @ '':'' @ hex_lower b @ '':'' @ hex_lower c) }"

definition SetupNetwork :: "'h fc_os \<Rightarrow> VM \<Rightarrow> ('h driver, VM option) comp" where
  "SetupNetwork E vm = (let net = vc_Network (vm_Config vm); set_net = (\<lambda>net vm. vm\<lparr>vm_Config := (vm_Config vm)\<lparr>vc_Network := net\<rparr>\<rparr>) in
     if nc_Mode net = ''none'' then State_Monad.return (Some vm)
     else if nc_TapDevice net = [] \<and> length (vm_ID vm) < 8 then State_Monad.return None
     else do {
       let net = (if nc_TapDevice net = [] then net\<lparr>nc_TapDevice := ''tap'' @ take 8 (vm_ID vm)\<rparr> else net);
       if nc_MACAddress net = [] then do {
         mac \<leftarrow> generateMAC E;
         State_Monad.return (Some (set_net (net\<lparr>nc_MACAddress := mac\<rparr>) vm)) }
       else State_Monad.return (Some (set_net net vm)) })"

subsection \<open>The interface of the handlers (internal/vmm)\<close>

definition to_mgr :: "fc_error option \<Rightarrow> mgr_error option" where
  "to_mgr e = map_option (\<lambda>_. MgrFailure) e"

definition exec_to_mgr :: "exec_error \<Rightarrow> mgr_error" where
  "exec_to_mgr e = (case e of ExecUnsupported \<Rightarrow> mgr_error.ErrUnsupportedOperation | ContextDone \<Rightarrow> DeadlineExceeded | _ \<Rightarrow> MgrFailure)"

definition kept_vm :: "VM \<Rightarrow> ('s, fc_error option) comp \<Rightarrow> ('s, mgr_error option \<times> VM) comp" where
  "kept_vm vm c = do { e \<leftarrow> c; State_Monad.return (to_mgr e, vm) }"

definition firecracker_manager :: "'h fc_os \<Rightarrow> 'h exec_env \<Rightarrow> fc_Manager \<Rightarrow> ('h driver) Manager" where
  "firecracker_manager E X m =
    \<lparr>mg_Start = (\<lambda>vm img. do { r \<leftarrow> Manager_Start E m vm img; State_Monad.return (to_mgr (fst r), snd r) }),
     mg_Stop = (\<lambda>vm timeout. kept_vm vm (Manager_Stop E vm)),
     mg_Kill = (\<lambda>vm. kept_vm vm (Manager_Kill E vm)),
     mg_Delete = (\<lambda>vm. kept_vm vm (Manager_Delete vm)),
     mg_Pause = (\<lambda>vm. kept_vm vm (Manager_Pause E vm)),
     mg_Resume = (\<lambda>vm. kept_vm vm (Manager_Resume E vm)),
     mg_CreateSnapshot = (\<lambda>vm snap mem. kept_vm vm (Manager_CreateSnapshot E vm snap mem)),
     mg_LoadSnapshot = (\<lambda>vm snap mem. do { r \<leftarrow> Manager_LoadSnapshot E m vm snap mem; State_Monad.return (to_mgr (fst r), snd r) }),
     mg_GetConsoleLogs = Manager_GetConsoleLogs E,
     mg_CleanupNetwork = (\<lambda>vm. do { _ \<leftarrow> fc_CleanupNetwork E vm; State_Monad.return True }),
     mg_ResolveImage = None,
     mg_ListImages = None,
     mg_Exec = Some (\<lambda>vm command timeout. do {
       r \<leftarrow> on_fc (Exec X (fm_exec m) vm command);
       State_Monad.return (map_option exec_to_mgr (snd r), fst r) })\<rparr>"

end
