(* ===== verification/FC_Safety.thy ===== *)
theory FC_Safety
  imports FC_Driver "HOL-Library.Sublist"
begin

section \<open>Processes and sockets of the Firecracker driver\<close>

text \<open>
  What the operations of \<open>FC_Driver\<close> guarantee whatever the host answers: every process that was started is reaped or has a goroutine that waits
  for it, every open listener belongs to a tracked proxy, loading a snapshot is all or nothing and resumes the machine last, and stopping
  reports success only when the process is gone.
\<close>

subsection \<open>Rules\<close>

lemma wp_on_fc [simp]: "wp (on_fc m) Q s = wp m (\<lambda>a h. Q a (s\<lparr>dr_host := h\<rparr>)) (dr_host s)"
  by (simp add: on_fc_def)

lemma wp_on_fcI: "(\<And>a h. Q a (s\<lparr>dr_host := h\<rparr>)) \<Longrightarrow> wp (on_fc m) Q s"
  by (simp add: wp_iff_run [of m])

lemma wp_extI: "(\<And>a h. Q a (s\<lparr>dr_host := h, dr_trace := dr_trace s @ [ev a]\<rparr>)) \<Longrightarrow> wp (ext m ev) Q s"
  unfolding ext_def wp_bind by (rule wp_on_fcI) simp

subsection \<open>Accounting\<close>

text \<open>The processes that a trace starts and reaps, and the listeners that it opens and closes.\<close>

fun event_started :: "fc_event \<Rightarrow> int list" where
  "event_started (StartProcess _ (Some pid)) = [pid]"
| "event_started _ = []"

fun event_reaped :: "fc_event \<Rightarrow> int list" where
  "event_reaped (WaitProcess pid) = [pid]"
| "event_reaped _ = []"

fun event_killed :: "fc_event \<Rightarrow> int list" where
  "event_killed (Signal pid SIGKILL _) = [pid]"
| "event_killed _ = []"

fun event_opened :: "fc_event \<Rightarrow> string list" where
  "event_opened (Listen p True) = [p]"
| "event_opened _ = []"

fun event_closed :: "fc_event \<Rightarrow> string list" where
  "event_closed (CloseListener p) = [p]"
| "event_closed _ = []"

definition started :: "fc_event list \<Rightarrow> int list" where "started t = concat (map event_started t)"
definition reaped :: "fc_event list \<Rightarrow> int list" where "reaped t = concat (map event_reaped t)"
definition killed :: "fc_event list \<Rightarrow> int list" where "killed t = concat (map event_killed t)"
definition opened_listeners :: "fc_event list \<Rightarrow> string list" where "opened_listeners t = concat (map event_opened t)"
definition closed_listeners :: "fc_event list \<Rightarrow> string list" where "closed_listeners t = concat (map event_closed t)"

lemmas trace_defs = started_def reaped_def killed_def opened_listeners_def closed_listeners_def

definition neutral :: "fc_event \<Rightarrow> bool" where
  "neutral e \<longleftrightarrow> event_started e = [] \<and> event_reaped e = [] \<and> event_opened e = [] \<and> event_closed e = []"

lemma neutral_simps [simp]:
  "neutral (Mkdir p b)" "neutral (Chmod p b)" "neutral (WriteConfig p c b)" "neutral (OpenConsole p b)" "neutral (FindProcess pid b)"
  "neutral (Signal pid sig r)" "neutral (Dial p b)" "neutral (API q me en bo st)" "neutral (LstatFile p l)" "neutral (RemoveFile p rr)"
  "neutral (RunIp a b)"
  by (simp_all add: neutral_def)

text \<open>The balance of a state; \<open>X\<close> are processes and \<open>n\<close> is the number of listeners that an operation has in its hands.\<close>

definition balanced :: "int multiset \<Rightarrow> nat \<Rightarrow> 'h driver \<Rightarrow> bool" where
  "balanced X n s \<longleftrightarrow>
     mset (started (dr_trace s)) = mset (reaped (dr_trace s)) + mset (map fst (dr_reapers s)) + X
     \<and> length (opened_listeners (dr_trace s)) = length (closed_listeners (dr_trace s)) + fcard (fmdom (dr_proxies s)) + n
     \<and> fmpred (\<lambda>_ p. vp_running p) (dr_proxies s)"

lemma balanced_neutral: "neutral e \<Longrightarrow> balanced X n (s\<lparr>dr_host := h, dr_trace := dr_trace s @ [e]\<rparr>) \<longleftrightarrow> balanced X n s"
  by (simp add: balanced_def trace_defs neutral_def)

lemma balanced_host [simp]: "balanced X n (s\<lparr>dr_host := h\<rparr>) \<longleftrightarrow> balanced X n s"
  by (simp add: balanced_def)

lemma pres_on_fc [pres_intros]: "pres (balanced X n) (on_fc m)"
  by (simp add: pres_iff_wp wp_on_fcI del: wp_on_fc)

lemma pres_ext [pres_intros]: "(\<And>a. neutral (ev a)) \<Longrightarrow> pres (balanced X n) (ext m ev)"
  unfolding pres_iff_wp by (auto intro!: wp_extI simp: balanced_neutral)

lemma wp_start:
  "balanced X n s \<Longrightarrow>
   wp (startFirecrackerProcess E m sock cfg con) (\<lambda>r. case r of None \<Rightarrow> balanced X n | Some pid \<Rightarrow> balanced (add_mset pid X) n) s"
  unfolding startFirecrackerProcess_def Let_def
  by (auto intro!: wp_bindI wp_extI wp_ifI wp_returnI simp: balanced_def trace_defs split: option.splits)

lemma wp_spawn_reaper: "balanced (add_mset pid X) n s \<Longrightarrow> wp (spawn_reaper pid v) (\<lambda>_. balanced X n) s"
  by (simp add: spawn_reaper_def balanced_def)

lemma wp_killAndReap: "balanced (add_mset pid X) n s \<Longrightarrow> wp (killAndReap E pid) (\<lambda>_. balanced X n) s"
  unfolding killAndReap_def
  by (auto intro!: wp_bindI wp_extI wp_returnI simp: balanced_def trace_defs)

lemma wp_proxy_start:
  "balanced X n s \<Longrightarrow>
   wp (VsockProxy_Start E p) (\<lambda>r t. dr_proxies t = dr_proxies s \<and>
     (case r of None \<Rightarrow> balanced X n t | Some q \<Rightarrow> balanced X (Suc n) t \<and> vp_running q)) s"
  unfolding VsockProxy_Start_def
  by (auto intro!: wp_bindI wp_extI wp_ifI wp_returnI simp: balanced_def trace_defs)

lemma fcard_dom_drop: "fmlookup m v = Some p \<Longrightarrow> fcard (fmdom m) = Suc (fcard (fmdom (fmdrop v m)))"
  by (metis fcard_Suc_fminus1 fmdomI fmdom_drop)

lemma wp_stopVsockProxy:
  assumes "balanced X n s"
  shows "wp (stopVsockProxy E v) (\<lambda>_ t. balanced X n t \<and> fmlookup (dr_proxies t) v = None) s"
proof (cases "fmlookup (dr_proxies s) v")
  case (Some p)
  then have "vp_running p" using assms by (auto simp: balanced_def dest: fmpredD)
  with Some show ?thesis using assms fcard_dom_drop [OF Some] unfolding stopVsockProxy_def VsockProxy_Stop_def
    by (auto intro!: wp_extI simp: balanced_def trace_defs fmpred_iff split: if_splits)
qed (use assms in \<open>simp add: stopVsockProxy_def\<close>)

lemma pres_stopVsockProxy [pres_intros]: "pres (balanced X n) (stopVsockProxy E v)"
  unfolding pres_iff_wp by (auto elim: wp_mono [OF wp_stopVsockProxy])

lemma track_proxy:
  "balanced X (Suc n) t \<Longrightarrow> vp_running q \<Longrightarrow> fmlookup M v = None \<Longrightarrow> dr_proxies t = M \<Longrightarrow>
   balanced X n (t\<lparr>dr_proxies := fmupd v q M\<rparr>)"
  by (auto simp: balanced_def fmpred_iff fcard_finsert_disjoint fmdom_notI split: if_splits)

lemma pres_startVsockProxy [pres_intros]: "pres (balanced X n) (startVsockProxyIfConfigured E m v p)"
  unfolding pres_iff_wp startVsockProxyIfConfigured_def
  by (auto intro!: wp_optionI wp_bindI wp_returnI wp_mono [OF wp_stopVsockProxy] wp_mono [OF wp_proxy_start] track_proxy
      split: option.splits)

subsection \<open>The operations\<close>

lemma pres_poll [pres_intros]: "pres (balanced X n) (poll E pid k)"
  by (induction k) (auto intro!: pres_intros simp: IsRunning_def)

lemma pres_dial_until [pres_intros]: "pres (balanced X n) (dial_until E p k)"
  by (induction k) (auto intro!: pres_intros)

lemma pres_request [pres_intros]:
  "pres (balanced X n) (firecrackerPUT E sock ep b)" "pres (balanced X n) (firecrackerPATCH E sock ep b)"
  by (auto intro!: pres_intros simp: firecrackerPUT_def firecrackerPATCH_def firecrackerJSONRequest_def)

lemma pres_signal [pres_intros]:
  "pres I a \<Longrightarrow> pres I b \<Longrightarrow> pres I c \<Longrightarrow> pres I (case r of Delivered \<Rightarrow> a | ProcessDone \<Rightarrow> b | SignalError \<Rightarrow> c)"
  by (cases r) auto

lemma pres_Stop [pres_intros]: "pres (balanced X n) (Manager_Stop E vm)"
  unfolding Manager_Stop_def by (intro pres_intros) simp_all

lemma pres_Kill [pres_intros]: "pres (balanced X n) (Manager_Kill E vm)"
  unfolding Manager_Kill_def by (intro pres_intros) simp_all

lemma pres_others [pres_intros]:
  "pres (balanced X n) (Manager_Delete vm)" "pres (balanced X n) (Manager_Pause E vm)" "pres (balanced X n) (Manager_Resume E vm)"
  "pres (balanced X n) (Manager_CreateSnapshot E vm sp mp)" "pres (balanced X n) (Manager_GetConsoleLogs E vm k)"
  "pres (balanced X n) (fc_CleanupNetwork E vm)"
  unfolding Manager_Delete_def Manager_Pause_def Manager_Resume_def Manager_CreateSnapshot_def Manager_GetConsoleLogs_def
    fc_CleanupNetwork_def Let_def
  by (intro pres_intros; simp)+

text \<open>A computation that gets rid of one process that it has in its hands: a goroutine waits for it, or it is killed and reaped.\<close>

definition settles :: "int \<Rightarrow> int multiset \<Rightarrow> nat \<Rightarrow> ('h driver, 'a) comp \<Rightarrow> bool" where
  "settles pid X n m \<longleftrightarrow> (\<forall>s. balanced (add_mset pid X) n s \<longrightarrow> wp m (\<lambda>_. balanced X n) s)"

lemma settles_bind: "pres (balanced (add_mset pid X) n) m \<Longrightarrow> (\<And>a. settles pid X n (f a)) \<Longrightarrow> settles pid X n (State_Monad.bind m f)"
  by (auto simp: settles_def intro: pres_wp)

lemma settles_if: "settles pid X n a \<Longrightarrow> settles pid X n b \<Longrightarrow> settles pid X n (if c then a else b)"
  by simp

lemma settles_reaper: "settles pid X n (State_Monad.bind (spawn_reaper pid v) (\<lambda>_. State_Monad.return x))"
  by (simp add: settles_def spawn_reaper_def balanced_def)

lemma settles_kill: "settles pid X n (State_Monad.bind (killAndReap E pid) (\<lambda>_. State_Monad.return x))"
  by (auto simp: settles_def intro: wp_killAndReap)

lemmas settles_intros = settles_reaper settles_kill settles_if settles_bind

lemma pres_start_process:
  fixes a :: "('h driver, 'b) comp"
  assumes "pres (balanced X n) a" and "\<And>pid. settles pid X n (f pid)"
  shows "pres (balanced X n) (State_Monad.bind (startFirecrackerProcess E m sock cfg con) (\<lambda>r. case r of None \<Rightarrow> a | Some pid \<Rightarrow> f pid))"
  unfolding pres_iff_wp wp_bind
proof (intro allI impI)
  fix s :: "'h driver"
  assume "balanced X n s"
  from wp_start [OF this]
  show "wp (startFirecrackerProcess E m sock cfg con) (\<lambda>r. wp (case r of None \<Rightarrow> a | Some pid \<Rightarrow> f pid) (\<lambda>_. balanced X n)) s"
    by (rule wp_mono) (use assms in \<open>auto simp: settles_def pres_iff_wp split: option.splits\<close>)
qed

lemma pres_Start: "pres (balanced X n) (Manager_Start E m vm img)"
  unfolding Manager_Start_def Let_def
  by (rule pres_start_process settles_intros pres_intros | simp only: neutral_simps)+

lemma pres_LoadSnapshot: "pres (balanced X n) (Manager_LoadSnapshot E m vm sp mp)"
  unfolding Manager_LoadSnapshot_def load_started_def Let_def requireRegularFile_def sendSnapshotLoad_def waitForSocketReady_def
  by (rule pres_start_process settles_intros pres_intros | simp only: neutral_simps)+

lemma mset_fst_remove1: "(a, b) \<in> set xs \<Longrightarrow> mset (map fst xs) = add_mset a (mset (map fst (remove1 (a, b) xs)))"
  by (induction xs) auto

lemma wp_waitForProcessExit:
  assumes "balanced X n s" and "(pid, v) \<in> set (dr_reapers s)"
  shows "wp (waitForProcessExit E handler pid v) (\<lambda>_. balanced X n) s"
proof -
  have "mset (map fst (dr_reapers s)) = add_mset pid (mset (map fst (remove1 (pid, v) (dr_reapers s))))"
    using assms(2) by (rule mset_fst_remove1)
  with assms(1) show ?thesis unfolding waitForProcessExit_def
    by (auto intro!: wp_bindI wp_extI wp_optionI wp_returnI wp_on_fcI simp: balanced_def trace_defs simp del: wp_on_fc mset_map)
qed

subsection \<open>All operations together\<close>

datatype fc_call =
    DoStart VM Image | DoStop VM | DoKill VM | DoDelete VM | DoPause VM | DoResume VM | DoCreateSnapshot VM string string
  | DoLoadSnapshot VM string string | DoLogs VM int | DoCleanup VM

definition ignore :: "('s, 'a) comp \<Rightarrow> ('s, unit) comp" where
  "ignore m = do { _ \<leftarrow> m; State_Monad.return () }"

fun driver_call :: "'h fc_os \<Rightarrow> fc_Manager \<Rightarrow> fc_call \<Rightarrow> ('h driver, unit) comp" where
  "driver_call E m (DoStart vm img) = ignore (Manager_Start E m vm img)"
| "driver_call E m (DoStop vm) = ignore (Manager_Stop E vm)"
| "driver_call E m (DoKill vm) = ignore (Manager_Kill E vm)"
| "driver_call E m (DoDelete vm) = ignore (Manager_Delete vm)"
| "driver_call E m (DoPause vm) = ignore (Manager_Pause E vm)"
| "driver_call E m (DoResume vm) = ignore (Manager_Resume E vm)"
| "driver_call E m (DoCreateSnapshot vm sp mp) = ignore (Manager_CreateSnapshot E vm sp mp)"
| "driver_call E m (DoLoadSnapshot vm sp mp) = ignore (Manager_LoadSnapshot E m vm sp mp)"
| "driver_call E m (DoLogs vm n) = ignore (Manager_GetConsoleLogs E vm n)"
| "driver_call E m (DoCleanup vm) = ignore (fc_CleanupNetwork E vm)"

text \<open>The states of a driver: operations in any order, with the return of a waiting goroutine in between.\<close>

inductive driver_reached :: "'h fc_os \<Rightarrow> fc_Manager \<Rightarrow> (string \<Rightarrow> int \<Rightarrow> bool \<Rightarrow> ('h, unit) comp) option \<Rightarrow> 'h driver \<Rightarrow> bool"
  for E m handler where
  init: "driver_reached E m handler \<lparr>dr_proxies = fmempty, dr_reapers = [], dr_trace = [], dr_host = h\<rparr>"
| call: "driver_reached E m handler s \<Longrightarrow> driver_reached E m handler (snd (run_state (driver_call E m c) s))"
| reap: "driver_reached E m handler s \<Longrightarrow> (pid, v) \<in> set (dr_reapers s) \<Longrightarrow>
    driver_reached E m handler (snd (run_state (waitForProcessExit E handler pid v) s))"

lemma pres_ignore: "pres I m \<Longrightarrow> pres I (ignore m)"
  unfolding ignore_def by (intro pres_intros)

lemma pres_driver_call: "pres (balanced X n) (driver_call E m c)"
  by (cases c) (simp_all only: driver_call.simps pres_ignore pres_Start pres_LoadSnapshot pres_Stop pres_Kill pres_others)

lemma driver_reached_balanced: "driver_reached E m handler s \<Longrightarrow> balanced {#} 0 s"
proof (induction rule: driver_reached.induct)
  case (call s c)
  then show ?case by (intro presD [OF pres_driver_call])
next
  case (reap s pid v)
  then show ?case using wp_waitForProcessExit [of "{#}" 0 s pid v E handler] by (simp add: wp_iff_run)
qed (simp add: balanced_def trace_defs)

text \<open>C12. After any sequence of operations, whatever the host answered: every Firecracker process that was ever started was reaped or a goroutine
  waits for it, each exactly once, and the number of open listeners is the number of tracked proxies, all of which run. So no process becomes a
  zombie and no socket is lost.\<close>

theorem driver_accounts:
  assumes "driver_reached E m handler s"
  shows "mset (started (dr_trace s)) = mset (reaped (dr_trace s)) + mset (map fst (dr_reapers s))
    \<and> length (opened_listeners (dr_trace s)) = length (closed_listeners (dr_trace s)) + fcard (fmdom (dr_proxies s))
    \<and> fmpred (\<lambda>_ p. vp_running p) (dr_proxies s)"
  using driver_reached_balanced [OF assms] by (simp add: balanced_def)

subsection \<open>Loading a snapshot\<close>

text \<open>The exchanges with the API of Firecracker, each with the status of the answer.\<close>

fun event_api :: "fc_event \<Rightarrow> fc_event list" where
  "event_api (API sock method endpoint body status) = [API sock method endpoint body status]"
| "event_api _ = []"

definition requests :: "fc_event list \<Rightarrow> fc_event list" where "requests t = concat (map event_api t)"

lemma trace_simps [simp]:
  "started [] = []" "reaped [] = []" "killed [] = []" "requests [] = []"
  "started (e # t) = event_started e @ started t" "reaped (e # t) = event_reaped e @ reaped t"
  "killed (e # t) = event_killed e @ killed t" "requests (e # t) = event_api e @ requests t"
  "started (t @ u) = started t @ started u" "reaped (t @ u) = reaped t @ reaped u"
  "killed (t @ u) = killed t @ killed u" "requests (t @ u) = requests t @ requests u"
  by (simp_all add: trace_defs requests_def)

text \<open>Events of sockets only: no process is started, signalled or reaped, and the API is not called.\<close>

fun socket_event :: "fc_event \<Rightarrow> bool" where
  "socket_event (Dial _ _) = True"
| "socket_event (RemoveFile _ _) = True"
| "socket_event (Listen _ _) = True"
| "socket_event (CloseListener _) = True"
| "socket_event _ = False"

lemma socket_events:
  "list_all socket_event d \<Longrightarrow> started d = [] \<and> reaped d = [] \<and> killed d = [] \<and> requests d = []"
  by (induction d) (auto simp: trace_defs requests_def elim!: socket_event.elims)

text \<open>The computation adds events of sockets to the trace and leaves the waiting goroutines alone.\<close>

definition sockets_only :: "('h driver, 'a) comp \<Rightarrow> bool" where
  "sockets_only m \<longleftrightarrow> (\<forall>s. wp m (\<lambda>_ t. (\<exists>d. dr_trace t = dr_trace s @ d \<and> list_all socket_event d) \<and> dr_reapers t = dr_reapers s) s)"

lemma sockets_bind: "sockets_only m \<Longrightarrow> (\<And>a. sockets_only (f a)) \<Longrightarrow> sockets_only (State_Monad.bind m f)"
  unfolding sockets_only_def wp_iff_run
  by (simp split: prod.splits) (metis append.assoc list_all_append snd_conv fst_conv)

lemma sockets_ext: "(\<And>a. socket_event (ev a)) \<Longrightarrow> sockets_only (ext m ev)"
  by (auto simp: sockets_only_def intro!: wp_extI)

lemma sockets_basic:
  "sockets_only (State_Monad.return x)" "sockets_only State_Monad.get" "sockets_only (on_fc m')"
  "sockets_only (State_Monad.update (\<lambda>s. s\<lparr>dr_proxies := f s\<rparr>))"
  by (auto simp: sockets_only_def intro!: wp_on_fcI simp del: wp_on_fc)

lemma sockets_if: "sockets_only a \<Longrightarrow> sockets_only b \<Longrightarrow> sockets_only (if c then a else b)"
  by simp

lemma sockets_option: "sockets_only a \<Longrightarrow> (\<And>y. sockets_only (f y)) \<Longrightarrow> sockets_only (case x of None \<Rightarrow> a | Some y \<Rightarrow> f y)"
  by (cases x) auto

lemmas sockets_intros = sockets_bind sockets_ext sockets_basic sockets_if sockets_option

lemma sockets_dial: "sockets_only (waitForSocketReady E p)"
proof -
  have "sockets_only (dial_until E p k)" for k by (induction k) (auto intro!: sockets_intros)
  then show ?thesis unfolding waitForSocketReady_def by (intro sockets_intros)
qed

lemma sockets_stop: "sockets_only (stopVsockProxy E v)"
  unfolding stopVsockProxy_def VsockProxy_Stop_def by (intro sockets_intros) simp_all

lemma sockets_start: "sockets_only (startVsockProxyIfConfigured E m v p)"
  unfolding startVsockProxyIfConfigured_def VsockProxy_Start_def by (intro sockets_intros sockets_stop) simp_all

lemma wp_sockets:
  assumes "sockets_only m" and "\<And>a t d. dr_trace t = dr_trace s @ d \<Longrightarrow> list_all socket_event d \<Longrightarrow> dr_reapers t = dr_reapers s \<Longrightarrow> Q a t"
  shows "wp m Q s"
  using assms by (auto simp: sockets_only_def elim!: allE [of _ s] wp_mono)

text \<open>What \<open>load_started\<close> leaves behind, from a state whose trace is \<open>tr\<close>.\<close>

definition loaded :: "VM \<Rightarrow> string \<Rightarrow> string \<Rightarrow> int \<Rightarrow> fc_event list \<Rightarrow> (int \<times> string) list \<Rightarrow> fc_error option \<times> VM \<Rightarrow> 'h driver \<Rightarrow> bool" where
  "loaded vm sp mp pid tr rs r t \<longleftrightarrow> (\<exists>d. dr_trace t = tr @ d \<and> started d = [] \<and>
     (case r of
        (Some _, vm') \<Rightarrow> vm' = vm \<and> reaped d = [pid] \<and> killed d = [pid] \<and> dr_reapers t = rs
      | (None, vm') \<Rightarrow> reaped d = [] \<and> killed d = [] \<and> dr_reapers t = (pid, vm_ID vm) # rs
          \<and> (\<exists>rt. vm_Runtime vm' = Some rt \<and> rt_PID rt = pid) \<and> vm_ID vm' = vm_ID vm
          \<and> (\<exists>before sock n1 n2. d = before @ [API sock ''PATCH'' ''/vm'' (vmStateRequest ''Resumed'') (Some n2)]
               \<and> requests before = [API sock ''PUT'' ''/snapshot/load'' (snapshotLoadRequest sp \<lparr>mb_BackendType = ''File'', mb_BackendPath = mp\<rparr> False) (Some n1)]
               \<and> 200 \<le> n1 \<and> n1 < 300 \<and> 200 \<le> n2 \<and> n2 < 300)))"

lemma wp_load_started:
  assumes "dr_trace s = tr" and "dr_reapers s = rs"
  shows "wp (load_started E m vm sp mp sock con pid) (loaded vm sp mp pid tr rs) s"
  unfolding load_started_def sendSnapshotLoad_def firecrackerPUT_def firecrackerPATCH_def firecrackerJSONRequest_def killAndReap_def
    spawn_reaper_def
  apply (rule wp_bindI, rule wp_sockets [OF sockets_dial], rule wp_ifI)
   apply (auto intro!: wp_extI simp: loaded_def assms dest!: socket_events) []
  apply (simp only: wp_bind, rule wp_extI, simp only: wp_return, rule wp_ifI)
   apply (auto intro!: wp_extI simp: loaded_def assms dest!: socket_events) []
  apply (simp only: wp_bind, rule wp_sockets [OF sockets_start], rule wp_extI, simp only: wp_return, rule wp_ifI)
   apply (simp only: wp_bind, rule wp_sockets [OF sockets_stop])
   apply (auto intro!: wp_extI simp: loaded_def assms dest!: socket_events) []
  apply (auto simp: loaded_def assms setupVMRuntime_def Let_def dest!: socket_events split: option.splits) []
  done

text \<open>C13. Loading a snapshot is all or nothing. When it fails, the machine is returned unchanged, the goroutines are those of before, and a process that was
  started on the way was killed and reaped. When it succeeds, one process was started, one goroutine waits for it, the machine's runtime names
  it, exactly one request came before the last action, the one that loads the snapshot paused, and it was answered with a status of success, and the very last action, after the
  proxy was set up, is the request that resumes the machine, answered with a status of success too.\<close>

theorem LoadSnapshot_all_or_nothing:
  assumes "run_state (Manager_LoadSnapshot E m vm sp mp) s = ((e, vm'), s')"
  shows "\<exists>t. dr_trace s' = dr_trace s @ t \<and>
    (case e of
       Some _ \<Rightarrow> vm' = vm \<and> dr_reapers s' = dr_reapers s \<and> reaped t = started t \<and> killed t = started t
     | None \<Rightarrow> \<exists>pid rt before sock n1 n2. started t = [pid] \<and> reaped t = [] \<and> killed t = []
         \<and> dr_reapers s' = (pid, vm_ID vm) # dr_reapers s \<and> vm_Runtime vm' = Some rt \<and> rt_PID rt = pid
         \<and> t = before @ [API sock ''PATCH'' ''/vm'' (vmStateRequest ''Resumed'') (Some n2)]
         \<and> requests before = [API sock ''PUT'' ''/snapshot/load'' (snapshotLoadRequest sp \<lparr>mb_BackendType = ''File'', mb_BackendPath = mp\<rparr> False) (Some n1)]
         \<and> 200 \<le> n1 \<and> n1 < 300 \<and> 200 \<le> n2 \<and> n2 < 300)"
    (is "?goal e vm' s'")
proof -
  define G where "G r u \<longleftrightarrow> ?goal (fst r) (snd r) u" for r and u :: "'a driver"
  have failed: "G (Some x, vm) u"
    if "\<exists>d. dr_trace u = dr_trace s @ d \<and> started d = [] \<and> reaped d = [] \<and> killed d = []" "dr_reapers u = dr_reapers s" for x u
    using that by (auto simp: G_def)
  have started: "G r u"
    if "loaded vm sp mp pid (dr_trace t) (dr_reapers t) r u" "dr_reapers t = dr_reapers s"
      and "\<exists>d. dr_trace t = dr_trace s @ d \<and> started d = [pid] \<and> reaped d = [] \<and> killed d = [] \<and> requests d = []" for t pid r u
    using that by (cases r; cases "fst r") (fastforce simp: loaded_def G_def)+
  have "wp (Manager_LoadSnapshot E m vm sp mp) G s"
    unfolding Manager_LoadSnapshot_def Let_def requireRegularFile_def startFirecrackerProcess_def
    by (rule wp_ifI wp_bindI wp_extI wp_returnI wp_optionI wp_mono [OF wp_load_started [OF refl refl]]
        | (rule failed; simp; fail) | (erule started; simp; fail))+
  with assms have "G (e, vm') s'" by (simp add: wp_iff_run)
  then show ?thesis by (simp only: G_def fst_conv snd_conv)
qed

subsection \<open>Stopping\<close>

text \<open>An event that shows that a process is gone.\<close>

fun shows_gone :: "int \<Rightarrow> fc_event \<Rightarrow> bool" where
  "shows_gone pid (FindProcess p found) \<longleftrightarrow> p = pid \<and> \<not> found"
| "shows_gone pid (Signal p sig r) \<longleftrightarrow> p = pid \<and> (r = ProcessDone \<or> sig = Signal0 \<and> r \<noteq> Delivered)"
| "shows_gone pid _ \<longleftrightarrow> False"

definition polled :: "int \<Rightarrow> 'h driver \<Rightarrow> bool \<Rightarrow> 'h driver \<Rightarrow> bool" where
  "polled pid s gone t \<longleftrightarrow> dr_proxies t = dr_proxies s \<and>
     (\<exists>d. dr_trace t = dr_trace s @ d \<and> killed d = [] \<and> (gone \<longrightarrow> d \<noteq> [] \<and> shows_gone pid (last d)))"

lemma wp_poll: "wp (poll E pid k) (polled pid s) s"
proof (induction k arbitrary: s)
  case (Suc k)
  have "polled pid s gone u" if "polled pid (s\<lparr>dr_host := h, dr_trace := dr_trace s @ d\<rparr>) gone u" "killed d = []" for h d gone u
    using that by (fastforce simp: polled_def)
  moreover have "wp (poll E pid k) (polled pid (s\<lparr>dr_host := h, dr_trace := dr_trace s @ d\<rparr>)) (s\<lparr>dr_host := h, dr_trace := dr_trace s @ d\<rparr>)" for h d
    by (rule Suc)
  ultimately have rec: "wp (poll E pid k) (polled pid s) (s\<lparr>dr_host := h, dr_trace := dr_trace s @ d\<rparr>)" if "killed d = []" for h d
    using that by (blast intro: wp_mono)
  show ?case unfolding poll.simps IsRunning_def
    by (auto intro!: wp_bindI wp_extI wp_ifI wp_returnI rec [unfolded polled_def] simp: polled_def)
qed (simp add: polled_def)

text \<open>C14. \<open>Stop\<close> reports success only when the last thing it saw was that the process is gone, and then the proxy of the machine is
  no longer tracked. It never sends SIGKILL without having delivered SIGTERM, and reports that a process is still running only after SIGKILL
  was delivered.\<close>

theorem Stop_means_gone:
  assumes "run_state (Manager_Stop E vm) s = (e, s')" and "vm_Runtime vm = Some rt" and "rt_PID rt \<noteq> 0"
  shows "\<exists>t. dr_trace s' = dr_trace s @ t \<and> fmlookup (dr_proxies s') (vm_ID vm) = None
    \<and> (e \<noteq> None \<or> shows_gone (rt_PID rt) (last t))
    \<and> (killed t = [] \<or> killed t = [rt_PID rt] \<and> Signal (rt_PID rt) SIGTERM Delivered \<in> set t)
    \<and> (e \<noteq> Some StillRunning \<or> Signal (rt_PID rt) SIGKILL Delivered \<in> set t)"
    (is "?goal e s'")
proof -
  have stop: "wp (stopVsockProxy E (vm_ID vm)) (\<lambda>_ t. (\<exists>d. dr_trace t = dr_trace s @ d \<and> killed d = []) \<and> fmlookup (dr_proxies t) (vm_ID vm) = None) s"
    unfolding stopVsockProxy_def VsockProxy_Stop_def
    by (auto intro!: wp_bindI wp_extI wp_ifI wp_returnI split: option.splits)
  have "wp (Manager_Stop E vm) ?goal s"
    unfolding Manager_Stop_def assms(2) option.case
    apply (rule wp_ifI)
    using assms(3) apply simp
    apply (rule wp_bindI, rule wp_mono [OF stop])
    apply (auto intro!: wp_bindI wp_extI wp_ifI wp_returnI wp_on_fcI wp_mono [OF wp_poll] simp del: wp_on_fc simp: polled_def split: signal_result.splits)
    done
  with assms(1) show ?thesis by (simp add: wp_iff_run)
qed

text \<open>Killing and deleting a machine leave its proxy running.\<close>

lemma Kill_keeps_proxy:
  "wp (Manager_Kill E vm) (\<lambda>_ t. dr_proxies t = dr_proxies s) s" "wp (Manager_Delete vm) (\<lambda>_ t. dr_proxies t = dr_proxies s) s"
  unfolding Manager_Kill_def Manager_Delete_def
  by (auto intro!: wp_bindI wp_extI wp_ifI wp_returnI split: option.splits)

text \<open>The balance is kept by every method that the handlers call through the interface.\<close>

lemma manager_balanced:
  assumes "M = firecracker_manager E X m"
  shows "pres (balanced Y n) (mg_Start M vm img)" "pres (balanced Y n) (mg_Stop M vm k)" "pres (balanced Y n) (mg_Kill M vm)"
    "pres (balanced Y n) (mg_Delete M vm)" "pres (balanced Y n) (mg_Pause M vm)" "pres (balanced Y n) (mg_Resume M vm)"
    "pres (balanced Y n) (mg_CreateSnapshot M vm sp mp)" "pres (balanced Y n) (mg_LoadSnapshot M vm sp mp)"
    "pres (balanced Y n) (mg_GetConsoleLogs M vm k)" "pres (balanced Y n) (mg_CleanupNetwork M vm)"
    "pres (balanced Y n) (the (mg_Exec M) vm command k)"
  unfolding assms firecracker_manager_def kept_vm_def
  by (simp_all, (intro pres_intros pres_Start pres_LoadSnapshot)+)

subsection \<open>A concrete host\<close>

text \<open>Every call succeeds; processes get the identifier 7.\<close>

definition demo_fc_os :: "unit fc_os" where
  "demo_fc_os = \<lparr>fo_MkdirAll = (\<lambda>_. State_Monad.return True), fo_Chmod = (\<lambda>_. State_Monad.return True),
     fo_WriteFile = (\<lambda>_ _. State_Monad.return True), fo_OpenFile = (\<lambda>_. State_Monad.return True), fo_ReadFile = (\<lambda>_. State_Monad.return None),
     fo_Start = (\<lambda>_. State_Monad.return (Some 7)), fo_Wait = (\<lambda>_. State_Monad.return (0, True)), fo_FindProcess = (\<lambda>_. State_Monad.return True),
     fo_Signal = (\<lambda>_ sig. State_Monad.return (if sig = Signal0 then ProcessDone else Delivered)), fo_Dial = (\<lambda>_. State_Monad.return True),
     fo_Do = (\<lambda>_ _ _ _. State_Monad.return (Some 204)), fo_Lstat = (\<lambda>_. State_Monad.return Regular),
     fo_Remove = (\<lambda>_. State_Monad.return NotPresent), fo_Listen = (\<lambda>_. State_Monad.return True), fo_Run = (\<lambda>_. State_Monad.return True),
     fo_ticks = State_Monad.return 2, fo_rand = State_Monad.return None\<rparr>"

definition demo_fc :: fc_Manager where
  "demo_fc = (fc_NewManager ''fc'' ''/d'')\<lparr>fm_spireConfig := Some \<lparr>sp_Enabled = True, sp_VsockCID = 3, sp_VsockPort = 8307, sp_AgentSocket = ''/a''\<rparr>\<rparr>"

definition demo_driver :: "unit driver" where
  "demo_driver = \<lparr>dr_proxies = fmempty, dr_reapers = [], dr_trace = [], dr_host = ()\<rparr>"


lemma run_ext [simp]: "run_state (ext m ev) s = (case run_state m (dr_host s) of (a, h) \<Rightarrow> (a, s\<lparr>dr_host := h, dr_trace := dr_trace s @ [ev a]\<rparr>))"
  by (simp add: ext_def on_fc_def zoom_def State_Monad.update_def split: prod.splits)

lemma run_on_fc [simp]: "run_state (on_fc m) s = (case run_state m (dr_host s) of (a, h) \<Rightarrow> (a, s\<lparr>dr_host := h\<rparr>))"
  by (simp add: on_fc_def zoom_def split: prod.splits)

lemma run_update [simp]: "run_state (State_Monad.update f) s = ((), f s)"
  by (simp add: State_Monad.update_def)

lemmas demo_fc_simps = demo_fc_os_def demo_fc_def fc_NewManager_def demo_driver_def

lemmas load_defs = Manager_LoadSnapshot_def Let_def requireRegularFile_def startFirecrackerProcess_def load_started_def waitForSocketReady_def
  sendSnapshotLoad_def firecrackerPUT_def firecrackerPATCH_def firecrackerJSONRequest_def startVsockProxyIfConfigured_def stopVsockProxy_def
  NewVsockProxy_def VsockProxy_Start_def spawn_reaper_def vsock_config_def

lemma demo_load:
  "fst (fst (run_state (Manager_LoadSnapshot demo_fc_os demo_fc demo_guest ''s'' ''m'') demo_driver)) = None"
  "dr_reapers (snd (run_state (Manager_LoadSnapshot demo_fc_os demo_fc demo_guest ''s'' ''m'') demo_driver)) = [(7, ''vm-1'')]"
  by (simp_all add: load_defs demo_fc_simps numeral_2_eq_2 del: path_join.simps split: option.splits) (simp add: demo_guest_def)

lemma run_ignore: "snd (run_state (ignore m) s) = snd (run_state m s)"
  by (simp add: ignore_def split: prod.splits)

theorem LoadSnapshot_all_or_nothing_witness:
  "\<exists>vm' s' rt. run_state (Manager_LoadSnapshot demo_fc_os demo_fc demo_guest ''s'' ''m'') demo_driver = ((None, vm'), s')
     \<and> vm_Runtime vm' = Some rt \<and> rt_PID rt = 7 \<and> started (dr_trace s') = [7] \<and> reaped (dr_trace s') = []
     \<and> (\<exists>sock n1 n2. requests (dr_trace s') = [API sock ''PUT'' ''/snapshot/load'' (snapshotLoadRequest ''s'' \<lparr>mb_BackendType = ''File'', mb_BackendPath = ''m''\<rparr> False) (Some n1),
            API sock ''PATCH'' ''/vm'' (vmStateRequest ''Resumed'') (Some n2)] \<and> n1 < 300 \<and> n2 < 300)"
proof -
  obtain e vm' s' where run: "run_state (Manager_LoadSnapshot demo_fc_os demo_fc demo_guest ''s'' ''m'') demo_driver = ((e, vm'), s')"
    by (metis prod.exhaust)
  with demo_load have "e = None" and "dr_reapers s' = [(7, ''vm-1'')]" by simp_all
  with LoadSnapshot_all_or_nothing [OF run] run show ?thesis by (auto simp: demo_driver_def)
qed

theorem driver_accounts_witness:
  "let s = snd (run_state (driver_call demo_fc_os demo_fc (DoLoadSnapshot demo_guest ''s'' ''m'')) demo_driver) in
     mset (started (dr_trace s)) = add_mset 7 (mset (reaped (dr_trace s)))
     \<and> length (opened_listeners (dr_trace s)) = length (closed_listeners (dr_trace s)) + fcard (fmdom (dr_proxies s))"
proof -
  let ?s = "snd (run_state (driver_call demo_fc_os demo_fc (DoLoadSnapshot demo_guest ''s'' ''m'')) demo_driver)"
  have "driver_reached demo_fc_os demo_fc None ?s"
    unfolding demo_driver_def by (intro driver_reached.call driver_reached.init)
  moreover have "dr_reapers ?s = [(7, ''vm-1'')]" using demo_load(2) by (simp add: run_ignore)
  ultimately show ?thesis using driver_accounts [of demo_fc_os demo_fc None ?s] by (simp add: Let_def)
qed

definition demo_runtime_guest :: VM where
  "demo_runtime_guest = setupVMRuntime demo_guest 7 ''/s'' ''/c''"

theorem Stop_means_gone_witness:
  "let r = run_state (Manager_Stop demo_fc_os demo_runtime_guest) demo_driver in
     fst r = None \<and> shows_gone 7 (last (dr_trace (snd r))) \<and> fmlookup (dr_proxies (snd r)) ''vm-1'' = None"
proof -
  obtain e s' where run: "run_state (Manager_Stop demo_fc_os demo_runtime_guest) demo_driver = (e, s')" by fastforce
  moreover have "e = None" using run
    by (simp add: Manager_Stop_def demo_runtime_guest_def setupVMRuntime_def Let_def stopVsockProxy_def demo_fc_os_def demo_driver_def
        numeral_2_eq_2 IsRunning_def)
  moreover obtain rt where rt: "vm_Runtime demo_runtime_guest = Some rt" "rt_PID rt = 7" by (simp add: demo_runtime_guest_def setupVMRuntime_def Let_def)
  ultimately show ?thesis using Stop_means_gone [OF run rt(1)] by (auto simp: demo_driver_def demo_runtime_guest_def setupVMRuntime_def demo_guest_def Let_def)
qed

end
