(* ===== verification/Apple_Driver.thy ===== *)
theory Apple_Driver
  imports Server_Env Host_Net
begin

section \<open>The driver of Apple containers (internal/applecontainer/manager.go)\<close>

text \<open>
  The second implementation of the runtime manager: it runs machines as containers through the command line of Apple's runtime. Its state is the
  set of watched machines with the goroutines that poll them, the exits they reported, and a trace of the commands with what they
  printed. The answers of all commands come from an arbitrary host, and decoding JSON is a parameter. How many times a loop polls before its
  deadline is a number that the host gives.
\<close>

subsection \<open>Data\<close>

record imageDescriptor =
  dc_Digest :: string
  dc_MediaType :: string
  dc_Size :: int

record imageListEntry =
  le_Reference :: string
  le_Descriptor :: imageDescriptor

record imagePlatform =
  pl_OS :: string
  pl_Architecture :: string
  pl_Variant :: string

record imageVariant =
  va_Size :: int
  va_Platform :: imagePlatform
  va_Config :: imagePlatform

record imageInspectEntry =
  ie_Name :: string
  ie_Index :: imageDescriptor
  ie_Variants :: "imageVariant list"

record containerNetwork =
  cw_Address :: string
  cw_Gateway :: string
  cw_Network :: string

record containerInspectEntry =
  ci_Status :: string
  ci_Networks :: "containerNetwork list"
  ci_ID :: string

record apple_Manager =
  am_binaryPath :: string
  am_dataDir :: string
  am_autoStart :: bool
  am_defaultCommand :: string

text \<open>What a command printed, and the text of the error with which it ended.\<close>

record cmd_result =
  cr_out :: string
  cr_err :: "string option"

text \<open>A command inside a machine: its two streams, its exit code, and how it ended.\<close>

datatype exec_end = ExecExited | ExecContextDone | ExecFailed

datatype apple_error =
    BinaryNotFound | ServicesNotRunning | ServicesNotStarted | ServicesNotHealthy | CommandFailed string | BadImageJSON | NoReference | PullFailed
  | ImageNotFound | BadInspectJSON | VMDirectory | UnsupportedNetwork string | MissingAfterStart | NotRunningAfterStart string | NoRuntimeID
  | StillRunningApple | KillBeforeDelete apple_error | UnsupportedApple | ExecContext | ExecError | NoConsole

record 'h apple_os =
  ao_LookPath :: "string \<Rightarrow> ('h, bool) comp"
  ao_Stat :: "string \<Rightarrow> ('h, bool) comp"
  ao_Run :: "string list \<Rightarrow> ('h, cmd_result) comp"
  ao_Exec :: "string list \<Rightarrow> ('h, string \<times> string \<times> int \<times> exec_end) comp"
  ao_MkdirAll :: "string \<Rightarrow> ('h, bool) comp"
  ao_OpenAppend :: "string \<Rightarrow> ('h, bool) comp"
  ao_WriteString :: "string \<Rightarrow> string \<Rightarrow> ('h, bool) comp"
  ao_ReadFile :: "string \<Rightarrow> ('h, string option) comp"
  ao_UserHomeDir :: "('h, string option) comp"
  ao_Now :: "('h, timestamp) comp"
  ao_polls :: "('h, nat) comp"
  ao_GOARCH :: string
  ao_images :: "string \<Rightarrow> imageListEntry list option"
  ao_inspected :: "string \<Rightarrow> imageInspectEntry list option"
  ao_containers :: "string \<Rightarrow> containerInspectEntry list option"

record 'h apple =
  ap_watching :: "string set"
  ap_watchers :: "(string \<times> string) list"
  ap_exits :: "(string \<times> apple_error option) list"
  ap_trace :: "(string list \<times> cmd_result) list"
  ap_host :: 'h

definition on_ap :: "('h, 'a) comp \<Rightarrow> ('h apple, 'a) comp" where
  "on_ap m = zoom ap_host (\<lambda>h s. s\<lparr>ap_host := h\<rparr>) m"

definition DriverName :: string where "DriverName = ''apple_container''"
definition labelVMID :: string where "labelVMID = ''nanofuse.vm_id''"

definition apple_NewManager :: "AppleContainerRuntimeConfig \<Rightarrow> string \<Rightarrow> apple_Manager" where
  "apple_NewManager cfg dataDir =
     \<lparr>am_binaryPath = (if ac_BinaryPath cfg = [] then ''/usr/local/bin/container'' else ac_BinaryPath cfg), am_dataDir = dataDir,
      am_autoStart = ac_AutoStart cfg,
      am_defaultCommand = (if ac_DefaultCommand cfg = [] then ''sleep infinity'' else ac_DefaultCommand cfg)\<rparr>"

subsection \<open>Commands\<close>

text \<open>The output, and the error as a message that contains the command, the cause and the output.\<close>

definition cmd_message :: "string list \<Rightarrow> cmd_result \<Rightarrow> string option" where
  "cmd_message args r = map_option (\<lambda>err. ''container '' @ join '' '' args @ '' failed: '' @ err @ '': '' @ trim_space (cr_out r)) (cr_err r)"

definition execContainer :: "'h apple_os \<Rightarrow> apple_Manager \<Rightarrow> string list \<Rightarrow> ('h apple, string \<times> string option) comp" where
  "execContainer E m args = do {
     r \<leftarrow> on_ap (ao_Run E (am_binaryPath m # args));
     _ \<leftarrow> State_Monad.update (\<lambda>s. s\<lparr>ap_trace := ap_trace s @ [(args, r)]\<rparr>);
     State_Monad.return (cr_out r, cmd_message args r) }"

definition ensureAvailable :: "'h apple_os \<Rightarrow> apple_Manager \<Rightarrow> ('h apple, apple_error option) comp" where
  "ensureAvailable E m = do {
     found \<leftarrow> on_ap (ao_LookPath E (am_binaryPath m));
     present \<leftarrow> (if found then State_Monad.return True else on_ap (ao_Stat E (am_binaryPath m)));
     if \<not> present then State_Monad.return (Some BinaryNotFound) else do {
     r \<leftarrow> execContainer E m [''system'', ''status''];
     if snd r = None then State_Monad.return None
     else if \<not> am_autoStart m then State_Monad.return (Some ServicesNotRunning)
     else do {
       r \<leftarrow> execContainer E m [''system'', ''start'', ''--enable-kernel-install''];
       if snd r \<noteq> None then State_Monad.return (Some ServicesNotStarted) else do {
       r \<leftarrow> execContainer E m [''system'', ''status''];
       State_Monad.return (if snd r \<noteq> None then Some ServicesNotHealthy else None) } } } }"

subsection \<open>Images\<close>

definition defaultKernelPath :: "'h apple_os \<Rightarrow> ('h apple, string) comp" where
  "defaultKernelPath E = do {
     home \<leftarrow> on_ap (ao_UserHomeDir E);
     State_Monad.return (case home of None \<Rightarrow> [] | Some home \<Rightarrow>
       path_join [home, ''Library'', ''Application Support'', ''com.apple.container'', ''kernels'', ''default.kernel-'' @ ao_GOARCH E]) }"

definition apple_image :: "'h apple_os \<Rightarrow> string \<Rightarrow> string \<Rightarrow> int \<Rightarrow> ('h apple, Image) comp" where
  "apple_image E digest tag sz = do {
     kernel \<leftarrow> defaultKernelPath E;
     now \<leftarrow> on_ap (ao_Now E);
     State_Monad.return \<lparr>im_Digest = digest, im_Tags = [tag], im_Architecture = ao_GOARCH E, im_SizeBytes = sz, im_KernelVersion = [], im_RootfsPath = [],
       im_KernelPath = kernel, im_PulledAt = now\<rparr> }"

fun list_entries :: "'h apple_os \<Rightarrow> imageListEntry list \<Rightarrow> ('h apple, Image list) comp" where
  "list_entries E [] = State_Monad.return []"
| "list_entries E (e # es) =
     (if le_Reference e = [] \<and> dc_Digest (le_Descriptor e) = [] then list_entries E es
      else do {
        i \<leftarrow> apple_image E (dc_Digest (le_Descriptor e)) (le_Reference e) (dc_Size (le_Descriptor e));
        images \<leftarrow> list_entries E es;
        State_Monad.return (i # images) })"

definition apple_ListImages :: "'h apple_os \<Rightarrow> apple_Manager \<Rightarrow> ('h apple, apple_error + Image list) comp" where
  "apple_ListImages E m = do {
     e \<leftarrow> ensureAvailable E m;
     case e of Some e \<Rightarrow> State_Monad.return (Inl e)
     | None \<Rightarrow> do {
         r \<leftarrow> execContainer E m [''images'', ''list'', ''--format'', ''json''];
         case snd r of Some msg \<Rightarrow> State_Monad.return (Inl (CommandFailed msg))
         | None \<Rightarrow> (case ao_images E (fst r) of None \<Rightarrow> State_Monad.return (Inl BadImageJSON)
             | Some es \<Rightarrow> do { images \<leftarrow> list_entries E es; State_Monad.return (Inr images) }) } }"

definition image_size :: "string \<Rightarrow> imageInspectEntry \<Rightarrow> int" where
  "image_size arch e =
     (case find (\<lambda>v. pl_Architecture (va_Platform v) = arch \<or> pl_Architecture (va_Config v) = arch) (ie_Variants e) of
        None \<Rightarrow> dc_Size (ie_Index e) | Some v \<Rightarrow> if va_Size v > 0 then va_Size v else dc_Size (ie_Index e))"

definition inspectImage :: "'h apple_os \<Rightarrow> apple_Manager \<Rightarrow> string \<Rightarrow> ('h apple, apple_error + Image) comp" where
  "inspectImage E m imageRef = do {
     r \<leftarrow> execContainer E m [''images'', ''inspect'', imageRef];
     case snd r of Some msg \<Rightarrow> State_Monad.return (Inl (CommandFailed msg))
     | None \<Rightarrow> (case ao_inspected E (fst r) of None \<Rightarrow> State_Monad.return (Inl BadImageJSON)
         | Some [] \<Rightarrow> State_Monad.return (Inl ImageNotFound)
         | Some (e # es) \<Rightarrow> do {
             i \<leftarrow> apple_image E (dc_Digest (ie_Index e)) (if ie_Name e = [] then imageRef else ie_Name e) (image_size (ao_GOARCH E) e);
             State_Monad.return (Inr i) }) }"

definition apple_ResolveImage :: "'h apple_os \<Rightarrow> apple_Manager \<Rightarrow> string \<Rightarrow> ('h apple, apple_error + Image) comp" where
  "apple_ResolveImage E m ref =
     (let imageRef = trim_space ref in
      if imageRef = [] then State_Monad.return (Inl NoReference) else do {
      e \<leftarrow> ensureAvailable E m;
      case e of Some e \<Rightarrow> State_Monad.return (Inl e)
      | None \<Rightarrow> do {
          r \<leftarrow> inspectImage E m imageRef;
          case r of Inr i \<Rightarrow> State_Monad.return (Inr i)
          | Inl _ \<Rightarrow> do {
              p \<leftarrow> execContainer E m [''images'', ''pull'', ''--disable-progress-updates'', imageRef];
              if snd p \<noteq> None then State_Monad.return (Inl PullFailed)
              else inspectImage E m imageRef } } })"

subsection \<open>Containers\<close>

definition container_missing :: "string \<Rightarrow> bool" where
  "container_missing msg = (let msg = to_lower msg in contains msg ''not found'' \<or> contains msg ''no such'' \<or> contains msg ''does not exist'')"

text \<open>What \<open>inspect\<close> says about a container: an error, that there is none, or its first entry.\<close>

definition inspection :: "'h apple_os \<Rightarrow> string \<times> string option \<Rightarrow> apple_error + containerInspectEntry option" where
  "inspection E r =
     (case snd r of
        Some msg \<Rightarrow> if container_missing msg then Inr None else Inl (CommandFailed msg)
      | None \<Rightarrow> (case ao_containers E (fst r) of None \<Rightarrow> Inl BadInspectJSON
          | Some [] \<Rightarrow> Inr None
          | Some (e # es) \<Rightarrow> Inr (Some e)))"

definition inspectContainer :: "'h apple_os \<Rightarrow> apple_Manager \<Rightarrow> string \<Rightarrow> ('h apple, apple_error + containerInspectEntry option) comp" where
  "inspectContainer E m name = do {
     r \<leftarrow> execContainer E m [''inspect'', name];
     State_Monad.return (inspection E r) }"

definition containerNameForVM :: "string \<Rightarrow> string" where
  "containerNameForVM vmID = (let cleaned = filter (\<lambda>c. c \<notin> {CHR ''-'', CHR ''_'', CHR ''.''}) vmID in ''nf-'' @ take 24 cleaned)"

definition runtimeName :: "VM \<Rightarrow> string" where
  "runtimeName vm =
     (case vm_Runtime vm of
        Some rt \<Rightarrow> if rt_ExternalID rt \<noteq> [] then rt_ExternalID rt else if vm_ID vm \<noteq> [] then containerNameForVM (vm_ID vm) else []
      | None \<Rightarrow> if vm_ID vm \<noteq> [] then containerNameForVM (vm_ID vm) else [])"

definition maxInt :: "int \<Rightarrow> int \<Rightarrow> int" where
  "maxInt value least = (if value < least then least else value)"

definition imageReference :: "Image option \<Rightarrow> string \<Rightarrow> string" where
  "imageReference img fallback =
     (case img of None \<Rightarrow> fallback
      | Some i \<Rightarrow> (case find (\<lambda>tag. trim_space tag \<noteq> []) (im_Tags i) of Some tag \<Rightarrow> tag | None \<Rightarrow> fallback))"

definition publish_args :: "PortForward \<Rightarrow> string list" where
  "publish_args pf =
     [''--publish'', ''127.0.0.1:'' @ itoa (pf_HostPort pf) @ '':'' @ itoa (pf_VMPort pf) @ ''/'' @ (if pf_Protocol pf = [] then ''tcp'' else pf_Protocol pf)]"

definition runArgs :: "apple_Manager \<Rightarrow> VM \<Rightarrow> Image option \<Rightarrow> string \<Rightarrow> apple_error + string list" where
  "runArgs m vm img containerName =
     (let mode = trim_space (nc_Mode (vc_Network (vm_Config vm)));
          networkMode = (if mode = [] then ''nat'' else mode) in
      if networkMode \<noteq> ''nat'' then Inl (UnsupportedNetwork networkMode)
      else Inr ([''run'', ''-d'', ''--name'', containerName, ''--cpus'', itoa (maxInt (vc_VCPUs (vm_Config vm)) 1),
          ''--memory'', itoa (maxInt (vc_MemoryMiB (vm_Config vm)) 128) @ ''M'', ''--label'', labelVMID @ ''='' @ vm_ID vm]
        @ concat (map publish_args (nc_PortForwards (vc_Network (vm_Config vm))))
        @ [imageReference img (vm_Image vm)] @ Host_Net.fields (am_defaultCommand m)))"

definition appendConsole :: "'h apple_os \<Rightarrow> string \<Rightarrow> string \<Rightarrow> ('h apple, bool) comp" where
  "appendConsole E path data =
     (if trim_space data = [] then State_Monad.return True else do {
      ok \<leftarrow> on_ap (ao_MkdirAll E (path_dir path));
      if \<not> ok then State_Monad.return False else do {
      ok \<leftarrow> on_ap (ao_OpenAppend E path);
      if \<not> ok then State_Monad.return False else on_ap (ao_WriteString E path (data @ [CHR 0x0A])) }})"

definition setRuntime :: "VM \<Rightarrow> string \<Rightarrow> string \<Rightarrow> containerInspectEntry \<Rightarrow> VM" where
  "setRuntime vm containerName consolePath inspect =
     vm\<lparr>vm_Runtime := Some \<lparr>rt_PID = 0, rt_Driver = DriverName, rt_ExternalID = containerName, rt_SocketPath = [], rt_ConsolePath = consolePath,
       rt_NetworkInfo = (case ci_Networks inspect of [] \<Rightarrow> None
         | net # _ \<Rightarrow> Some \<lparr>ni_TapDevice = [], ni_HostIP = cw_Gateway net, ni_GuestIP = hd (split_on CHR ''/'' (cw_Address net)), ni_Gateway = cw_Gateway net\<rparr>)\<rparr>\<rparr>"

text \<open>Registration of a watcher and its goroutine; a tick of the goroutine.\<close>

definition watchContainer :: "string \<Rightarrow> string \<Rightarrow> ('h apple, unit) comp" where
  "watchContainer vmID containerName = State_Monad.update (\<lambda>s.
     if vmID \<in> ap_watching s then s
     else s\<lparr>ap_watching := insert vmID (ap_watching s), ap_watchers := (vmID, containerName) # ap_watchers s\<rparr>)"

definition watch_tick :: "'h apple_os \<Rightarrow> apple_Manager \<Rightarrow> string \<times> string \<Rightarrow> ('h apple, bool) comp" where
  "watch_tick E m w = do {
     r \<leftarrow> inspectContainer E m (snd w);
     let finish = (\<lambda>err. do {
       _ \<leftarrow> State_Monad.update (\<lambda>s. s\<lparr>ap_exits := ap_exits s @ [(fst w, err)], ap_watching := ap_watching s - {fst w}, ap_watchers := remove1 w (ap_watchers s)\<rparr>);
       State_Monad.return True });
     case r of Inl e \<Rightarrow> finish (Some e)
     | Inr None \<Rightarrow> finish None
     | Inr (Some inspect) \<Rightarrow> if ci_Status inspect \<noteq> ''running'' then finish None else State_Monad.return False }"

definition bring_up :: "'h apple_os \<Rightarrow> apple_Manager \<Rightarrow> VM \<Rightarrow> Image option \<Rightarrow> string \<Rightarrow> string \<Rightarrow> containerInspectEntry option \<Rightarrow> ('h apple, apple_error option) comp" where
  "bring_up E m vm img containerName consolePath inspect =
     (case inspect of
        Some i \<Rightarrow>
          if ci_Status i \<noteq> ''running'' then do {
            r \<leftarrow> execContainer E m [''start'', containerName];
            case snd r of None \<Rightarrow> State_Monad.return None
            | Some msg \<Rightarrow> do { _ \<leftarrow> appendConsole E consolePath (fst r); State_Monad.return (Some (CommandFailed msg)) } }
          else State_Monad.return None
      | None \<Rightarrow> (case runArgs m vm img containerName of Inl e \<Rightarrow> State_Monad.return (Some e)
          | Inr args \<Rightarrow> do {
              r \<leftarrow> execContainer E m args;
              _ \<leftarrow> appendConsole E consolePath (fst r);
              State_Monad.return (map_option CommandFailed (snd r)) }))"

definition apple_Start :: "'h apple_os \<Rightarrow> apple_Manager \<Rightarrow> VM \<Rightarrow> Image option \<Rightarrow> ('h apple, apple_error option \<times> VM) comp" where
  "apple_Start E m vm img = do {
     e \<leftarrow> ensureAvailable E m;
     if e \<noteq> None then State_Monad.return (e, vm) else do {
     let vmDir = path_join [am_dataDir m, ''vms'', vm_ID vm];
     ok \<leftarrow> on_ap (ao_MkdirAll E vmDir);
     if \<not> ok then State_Monad.return (Some VMDirectory, vm) else do {
     let consolePath = path_join [vmDir, ''console.log''];
     let containerName = containerNameForVM (vm_ID vm);
     r \<leftarrow> inspectContainer E m containerName;
     case r of Inl e \<Rightarrow> State_Monad.return (Some e, vm)
     | Inr inspect \<Rightarrow> do {
         e \<leftarrow> bring_up E m vm img containerName consolePath inspect;
         if e \<noteq> None then State_Monad.return (e, vm) else do {
         r \<leftarrow> inspectContainer E m containerName;
         case r of Inl e \<Rightarrow> State_Monad.return (Some e, vm)
         | Inr None \<Rightarrow> State_Monad.return (Some MissingAfterStart, vm)
         | Inr (Some i) \<Rightarrow>
             if ci_Status i \<noteq> ''running'' then State_Monad.return (Some (NotRunningAfterStart (ci_Status i)), vm)
             else do {
               _ \<leftarrow> watchContainer (vm_ID vm) containerName;
               State_Monad.return (None, setRuntime vm containerName consolePath i) } } } } } }"

fun wait_stopped :: "'h apple_os \<Rightarrow> apple_Manager \<Rightarrow> string \<Rightarrow> nat \<Rightarrow> ('h apple, apple_error option) comp" where
  "wait_stopped E m name k = do {
     r \<leftarrow> inspectContainer E m name;
     case r of Inl e \<Rightarrow> State_Monad.return (Some e)
     | Inr None \<Rightarrow> State_Monad.return None
     | Inr (Some i) \<Rightarrow>
         if ci_Status i \<noteq> ''running'' then State_Monad.return None
         else (case k of 0 \<Rightarrow> State_Monad.return (Some StillRunningApple) | Suc k \<Rightarrow> wait_stopped E m name k) }"

declare wait_stopped.simps [simp del]

definition waitForContainerStopped :: "'h apple_os \<Rightarrow> apple_Manager \<Rightarrow> string \<Rightarrow> ('h apple, apple_error option) comp" where
  "waitForContainerStopped E m name = do {
     k \<leftarrow> on_ap (ao_polls E);
     wait_stopped E m name k }"

definition apple_Stop :: "'h apple_os \<Rightarrow> apple_Manager \<Rightarrow> VM \<Rightarrow> int \<Rightarrow> ('h apple, apple_error option) comp" where
  "apple_Stop E m vm timeoutSeconds =
     (let name = runtimeName vm in
      if name = [] then State_Monad.return (Some NoRuntimeID)
      else let timeoutSeconds = (if timeoutSeconds \<le> 0 then 10 else timeoutSeconds) in do {
        r \<leftarrow> execContainer E m [''stop'', ''--time'', itoa timeoutSeconds, name];
        case snd r of Some msg \<Rightarrow> State_Monad.return (Some (CommandFailed msg))
        | None \<Rightarrow> waitForContainerStopped E m name })"

definition apple_Kill :: "'h apple_os \<Rightarrow> apple_Manager \<Rightarrow> VM \<Rightarrow> ('h apple, apple_error option) comp" where
  "apple_Kill E m vm =
     (let name = runtimeName vm in
      if name = [] then State_Monad.return (Some NoRuntimeID)
      else do {
        r \<leftarrow> execContainer E m [''kill'', name];
        case snd r of Some msg \<Rightarrow> State_Monad.return (Some (CommandFailed msg))
        | None \<Rightarrow> waitForContainerStopped E m name })"

definition delete_name :: "VM \<Rightarrow> string" where
  "delete_name vm = (case vm_Runtime vm of Some rt \<Rightarrow> if rt_ExternalID rt \<noteq> [] then rt_ExternalID rt else containerNameForVM (vm_ID vm)
     | None \<Rightarrow> containerNameForVM (vm_ID vm))"

text \<open>\<open>Delete\<close> calls \<open>Kill\<close> with a fresh machine that has the identifier and the name of the container; \<open>Kill\<close> reads nothing else of it.\<close>

definition kill_target :: "VM \<Rightarrow> string \<Rightarrow> VM" where
  "kill_target vm name = vm\<lparr>vm_Runtime := Some \<lparr>rt_PID = 0, rt_Driver = [], rt_ExternalID = name, rt_SocketPath = [], rt_ConsolePath = [], rt_NetworkInfo = None\<rparr>\<rparr>"

definition apple_Delete :: "'h apple_os \<Rightarrow> apple_Manager \<Rightarrow> VM \<Rightarrow> ('h apple, apple_error option) comp" where
  "apple_Delete E m vm = do {
     let name = delete_name vm;
     r \<leftarrow> inspectContainer E m name;
     case r of Inl e \<Rightarrow> State_Monad.return (Some e)
     | Inr None \<Rightarrow> State_Monad.return None
     | Inr (Some i) \<Rightarrow> do {
         e \<leftarrow> (if ci_Status i = ''running'' then apple_Kill E m (kill_target vm name) else State_Monad.return None);
         case e of Some e \<Rightarrow> State_Monad.return (Some (KillBeforeDelete e))
         | None \<Rightarrow> do {
             r \<leftarrow> execContainer E m [''delete'', name];
             State_Monad.return (map_option CommandFailed (snd r)) } } }"

definition apple_GetConsoleLogs :: "'h apple_os \<Rightarrow> apple_Manager \<Rightarrow> VM \<Rightarrow> int \<Rightarrow> ('h apple, apple_error + string) comp" where
  "apple_GetConsoleLogs E m vm tailLines =
     (let name = runtimeName vm in
      if name = [] then
        (case vm_Runtime vm of
           Some rt \<Rightarrow> if rt_ConsolePath rt \<noteq> [] then do {
                 r \<leftarrow> on_ap (ao_ReadFile E (rt_ConsolePath rt));
                 State_Monad.return (case r of None \<Rightarrow> Inl NoConsole | Some data \<Rightarrow> Inr data) }
               else State_Monad.return (Inl NoRuntimeID)
         | None \<Rightarrow> State_Monad.return (Inl NoRuntimeID))
      else do {
        r \<leftarrow> execContainer E m ([''logs''] @ (if tailLines > 0 then [''-n'', itoa tailLines] else []) @ [name]);
        State_Monad.return (case snd r of None \<Rightarrow> Inr (fst r) | Some msg \<Rightarrow> Inl (CommandFailed msg)) })"

text \<open>An exit with a code is no error; a context that ended wins over every other error.\<close>

definition apple_Exec :: "'h apple_os \<Rightarrow> apple_Manager \<Rightarrow> VM \<Rightarrow> string list \<Rightarrow> ('h apple, VMExecResult option \<times> apple_error option) comp" where
  "apple_Exec E m vm command =
     (let name = runtimeName vm in
      if name = [] then State_Monad.return (None, Some NoRuntimeID)
      else do {
        r \<leftarrow> on_ap (ao_Exec E (am_binaryPath m # [''exec'', name] @ command));
        State_Monad.return (case r of (out, err, code, how) \<Rightarrow>
          (let result = \<lparr>xs_Command = command, xs_ExitCode = code, xs_Stdout = out, xs_Stderr = err, xs_RuntimeID = name\<rparr> in
           case how of ExecExited \<Rightarrow> (Some result, None)
           | ExecContextDone \<Rightarrow> (Some result, Some ExecContext)
           | ExecFailed \<Rightarrow> (None, Some ExecError))) })"

subsection \<open>The runtime manager\<close>

definition apple_to_mgr :: "apple_error option \<Rightarrow> mgr_error option" where
  "apple_to_mgr = map_option (\<lambda>e. case e of UnsupportedApple \<Rightarrow> ErrUnsupportedOperation | ExecContext \<Rightarrow> DeadlineExceeded | _ \<Rightarrow> MgrFailure)"

definition same_vm :: "VM \<Rightarrow> ('s, apple_error option) comp \<Rightarrow> ('s, mgr_error option \<times> VM) comp" where
  "same_vm vm c = do { e \<leftarrow> c; State_Monad.return (apple_to_mgr e, vm) }"

definition apple_manager :: "'h apple_os \<Rightarrow> apple_Manager \<Rightarrow> ('h apple) Manager" where
  "apple_manager E m =
    \<lparr>mg_Start = (\<lambda>vm img. do { r \<leftarrow> apple_Start E m vm (Some img); State_Monad.return (apple_to_mgr (fst r), snd r) }),
     mg_Stop = (\<lambda>vm timeout. same_vm vm (apple_Stop E m vm timeout)),
     mg_Kill = (\<lambda>vm. same_vm vm (apple_Kill E m vm)),
     mg_Delete = (\<lambda>vm. same_vm vm (apple_Delete E m vm)),
     mg_Pause = (\<lambda>vm. same_vm vm (State_Monad.return (Some UnsupportedApple))),
     mg_Resume = (\<lambda>vm. same_vm vm (State_Monad.return (Some UnsupportedApple))),
     mg_CreateSnapshot = (\<lambda>vm snap mem. same_vm vm (State_Monad.return (Some UnsupportedApple))),
     mg_LoadSnapshot = (\<lambda>vm snap mem. same_vm vm (State_Monad.return (Some UnsupportedApple))),
     mg_GetConsoleLogs = (\<lambda>vm tail. do { r \<leftarrow> apple_GetConsoleLogs E m vm tail; State_Monad.return (case r of Inl _ \<Rightarrow> None | Inr data \<Rightarrow> Some data) }),
     mg_CleanupNetwork = (\<lambda>vm. State_Monad.return True),
     mg_ResolveImage = Some (\<lambda>ref. do { r \<leftarrow> apple_ResolveImage E m ref; State_Monad.return (case r of Inl _ \<Rightarrow> None | Inr i \<Rightarrow> Some (Some i)) }),
     mg_ListImages = Some (do { r \<leftarrow> apple_ListImages E m; State_Monad.return (case r of Inl _ \<Rightarrow> None | Inr images \<Rightarrow> Some images) }),
     mg_Exec = Some (\<lambda>vm command timeout. do { r \<leftarrow> apple_Exec E m vm command; State_Monad.return (apple_to_mgr (snd r), fst r) })\<rparr>"

subsection \<open>What the driver has seen\<close>

text \<open>What an entry of the trace says about a container: nothing, or the answer of an inspection.\<close>

fun observed :: "'h apple_os \<Rightarrow> string \<Rightarrow> string list \<times> cmd_result \<Rightarrow> containerInspectEntry option option" where
  "observed E name (args, r) =
     (if args = [''inspect'', name] then (case inspection E (cr_out r, cmd_message args r) of Inl _ \<Rightarrow> None | Inr i \<Rightarrow> Some i) else None)"

definition seen_stopped :: "'h apple_os \<Rightarrow> string \<Rightarrow> string list \<times> cmd_result \<Rightarrow> bool" where
  "seen_stopped E name ev = (case observed E name ev of None \<Rightarrow> False | Some None \<Rightarrow> True | Some (Some i) \<Rightarrow> ci_Status i \<noteq> ''running'')"

lemma wp_on_ap [simp]: "wp (on_ap m) Q s = wp m (\<lambda>a h. Q a (s\<lparr>ap_host := h\<rparr>)) (ap_host s)"
  by (simp add: on_ap_def)

lemma wp_on_apI: "(\<And>a h. Q a (s\<lparr>ap_host := h\<rparr>)) \<Longrightarrow> wp (on_ap m) Q s"
  by (simp add: wp_iff_run [of m])

lemma wp_execI:
  "(\<And>r h. Q (cr_out r, cmd_message args r) (s\<lparr>ap_host := h, ap_trace := ap_trace s @ [(args, r)]\<rparr>)) \<Longrightarrow> wp (execContainer E m args) Q s"
  unfolding execContainer_def wp_bind by (rule wp_on_apI) simp

lemma wp_inspectI:
  "(\<And>r h. Q (inspection E (cr_out r, cmd_message [''inspect'', name] r)) (s\<lparr>ap_host := h, ap_trace := ap_trace s @ [([''inspect'', name], r)]\<rparr>)) \<Longrightarrow>
   wp (inspectContainer E m name) Q s"
  unfolding inspectContainer_def wp_bind by (rule wp_execI) simp

text \<open>The driver only appends to the trace, and operations other than \<open>Start\<close> leave the watchers alone.\<close>

definition went_on :: "'h apple \<Rightarrow> (string list \<times> cmd_result) list \<Rightarrow> 'h apple \<Rightarrow> bool" where
  "went_on s t s' \<longleftrightarrow> ap_trace s' = ap_trace s @ t \<and> ap_watching s' = ap_watching s \<and> ap_watchers s' = ap_watchers s \<and> ap_exits s' = ap_exits s"

lemma went_on_one: "went_on s [ev] (s\<lparr>ap_host := h, ap_trace := ap_trace s @ [ev]\<rparr>)"
  by (simp add: went_on_def)

lemma went_on_Cons: "went_on (s\<lparr>ap_host := h, ap_trace := ap_trace s @ [ev]\<rparr>) t s' \<Longrightarrow> went_on s (ev # t) s'"
  by (simp add: went_on_def)

lemma seen_inspection:
  "seen_stopped E name ([''inspect'', name], r) \<longleftrightarrow>
     (case inspection E (cr_out r, cmd_message [''inspect'', name] r) of Inl _ \<Rightarrow> False | Inr None \<Rightarrow> True | Inr (Some i) \<Rightarrow> ci_Status i \<noteq> ''running'')"
  by (simp add: seen_stopped_def split: sum.splits option.splits)

text \<open>A call that reports success only after its last command has shown that the container does not run.\<close>

definition stopped_by :: "'h apple_os \<Rightarrow> string \<Rightarrow> 'h apple \<Rightarrow> apple_error option \<Rightarrow> 'h apple \<Rightarrow> bool" where
  "stopped_by E name s e s' \<longleftrightarrow> (\<exists>t. t \<noteq> [] \<and> went_on s t s' \<and> (e = None \<longrightarrow> seen_stopped E name (last t)))"

lemma stopped_by_one:
  "(e = None \<Longrightarrow> seen_stopped E name ev) \<Longrightarrow> stopped_by E name s e (s\<lparr>ap_host := h, ap_trace := ap_trace s @ [ev]\<rparr>)"
  unfolding stopped_by_def by (rule exI [where x = "[ev]"]) (simp add: went_on_one)

lemma stopped_by_Cons: "stopped_by E name (s\<lparr>ap_host := h, ap_trace := ap_trace s @ [ev]\<rparr>) e s' \<Longrightarrow> stopped_by E name s e s'"
  unfolding stopped_by_def
proof (elim exE conjE)
  fix t assume "t \<noteq> []" "went_on (s\<lparr>ap_host := h, ap_trace := ap_trace s @ [ev]\<rparr>) t s'" "e = None \<longrightarrow> seen_stopped E name (last t)"
  then show "\<exists>t. t \<noteq> [] \<and> went_on s t s' \<and> (e = None \<longrightarrow> seen_stopped E name (last t))"
    by (intro exI [where x = "ev # t"]) (simp add: went_on_Cons)
qed

lemma stopped_by_host: "stopped_by E name (s\<lparr>ap_host := h\<rparr>) e s' = stopped_by E name s e s'"
  by (simp add: stopped_by_def went_on_def)

lemma wp_wait_stopped: "wp (wait_stopped E m name k) (stopped_by E name s) s"
proof (induction k arbitrary: s)
  case 0
  show ?case
    unfolding wait_stopped.simps [of E m name 0] nat.case
    apply (rule wp_bindI, rule wp_inspectI, rule wp_sumI, rule wp_returnI, rule stopped_by_one, simp)
    apply (rule wp_optionI, rule wp_returnI, rule stopped_by_one, simp add: seen_inspection)
    apply (rule wp_ifI; rule wp_returnI, rule stopped_by_one, simp add: seen_inspection)
    done
next
  case (Suc k)
  show ?case
    unfolding wait_stopped.simps [of E m name "Suc k"] nat.case
    apply (rule wp_bindI, rule wp_inspectI, rule wp_sumI, rule wp_returnI, rule stopped_by_one, simp)
    apply (rule wp_optionI, rule wp_returnI, rule stopped_by_one, simp add: seen_inspection)
    apply (rule wp_ifI, rule wp_returnI, rule stopped_by_one, simp add: seen_inspection)
    apply (rule wp_mono [OF Suc.IH], erule stopped_by_Cons)
    done
qed

lemma wp_waitForContainerStopped: "wp (waitForContainerStopped E m name) (stopped_by E name s) s"
  unfolding waitForContainerStopped_def
  by (rule wp_bindI, rule wp_on_apI, rule wp_mono [OF wp_wait_stopped]) (simp add: stopped_by_host)

lemma wp_Stop_Kill:
  assumes "runtimeName vm \<noteq> []"
  shows "wp (apple_Stop E m vm timeout) (stopped_by E (runtimeName vm) s) s" "wp (apple_Kill E m vm) (stopped_by E (runtimeName vm) s) s"
  unfolding apple_Stop_def apple_Kill_def Let_def if_not_P [OF assms]
  by (rule wp_bindI, rule wp_execI, simp only: snd_conv, rule wp_optionI, rule wp_mono [OF wp_waitForContainerStopped], erule stopped_by_Cons,
      rule wp_returnI, rule stopped_by_one, simp)+

lemma wp_Delete:
  "wp (apple_Delete E m vm) (\<lambda>e s'. \<exists>t. went_on s t s' \<and> (case e of Some _ \<Rightarrow> True
     | None \<Rightarrow> (\<exists>ev. t = [ev] \<and> observed E (delete_name vm) ev = Some None) \<or>
         (\<exists>before r. t = before @ [([''delete'', delete_name vm], r)] \<and> before \<noteq> [] \<and> cr_err r = None \<and> seen_stopped E (delete_name vm) (last before)))) s"
    (is "wp _ ?goal s")
proof -
  have name: "runtimeName (kill_target vm (delete_name vm)) = delete_name vm" "delete_name vm \<noteq> []"
    by (auto simp: kill_target_def runtimeName_def delete_name_def containerNameForVM_def Let_def split: option.splits)
  have early: "?goal (Some x) u" if "went_on s t u" for x t u using that by auto
  have deleted: "wp (do { r \<leftarrow> execContainer E m [''delete'', delete_name vm]; State_Monad.return (map_option CommandFailed (snd r)) }) ?goal u"
    if "stopped_by E (delete_name vm) s None u" for u
  proof -
    from that obtain t where t: "t \<noteq> []" "went_on s t u" "seen_stopped E (delete_name vm) (last t)" by (auto simp: stopped_by_def)
    have "?goal (map_option CommandFailed (cmd_message [''delete'', delete_name vm] r)) (u\<lparr>ap_host := h, ap_trace := ap_trace u @ [([''delete'', delete_name vm], r)]\<rparr>)" for r h
      by (rule exI [where x = "t @ [([''delete'', delete_name vm], r)]"]) (use t in \<open>auto simp: went_on_def cmd_message_def split: option.splits\<close>)
    then show ?thesis by (intro wp_bindI wp_execI) simp
  qed
  show ?thesis
    unfolding apple_Delete_def Let_def
    apply (rule wp_bindI, rule wp_inspectI, rule wp_sumI, rule wp_returnI, rule early, rule went_on_one)
    apply (rule wp_optionI, rule wp_returnI, rule exI, rule conjI, rule went_on_one, simp)
    apply (rule wp_bindI, rule wp_ifI)
     apply (rule wp_mono [OF wp_Stop_Kill(2)], simp add: name)
     apply (drule stopped_by_Cons, simp only: name, rule wp_optionI, simp only: deleted)
     apply (auto simp: stopped_by_def) []
    apply (rule wp_returnI, simp only: option.case, rule deleted, rule stopped_by_one, simp add: seen_inspection)
    done
qed

text \<open>\<open>Delete\<close> reports success only when the container was found missing, or was deleted by a command that succeeded right after an inspection
  had shown that it does not run: a running container is killed first, and its end is waited for.\<close>

theorem Delete_only_stopped:
  assumes "run_state (apple_Delete E m vm) s = (None, s')"
  shows "\<exists>t. ap_trace s' = ap_trace s @ t \<and> ((\<exists>ev. t = [ev] \<and> observed E (delete_name vm) ev = Some None) \<or>
     (\<exists>before r. t = before @ [([''delete'', delete_name vm], r)] \<and> before \<noteq> [] \<and> cr_err r = None \<and> seen_stopped E (delete_name vm) (last before)))"
  using wp_Delete [of E m vm s] unfolding wp_run [OF assms] went_on_def option.case by blast

subsection \<open>Starting\<close>

lemma went_on_trans: "went_on s t u \<Longrightarrow> went_on u t' v \<Longrightarrow> went_on s (t @ t') v"
  by (simp add: went_on_def)

lemma went_on_host: "went_on s t (u\<lparr>ap_host := h\<rparr>) = went_on s t u" "went_on s [] s"
  by (simp_all add: went_on_def)

lemma wp_exec_on:
  assumes "went_on s0 t s" and "\<And>r u. went_on s0 (t @ [(args, r)]) u \<Longrightarrow> Q (cr_out r, cmd_message args r) u"
  shows "wp (execContainer E m args) Q s"
  by (rule wp_execI, rule assms(2), rule went_on_trans [OF assms(1) went_on_one])

lemma wp_inspect_on:
  assumes "went_on s0 t s"
    and "\<And>r u. went_on s0 (t @ [([''inspect'', name], r)]) u \<Longrightarrow> Q (inspection E (cr_out r, cmd_message [''inspect'', name] r)) u"
  shows "wp (inspectContainer E m name) Q s"
  by (rule wp_inspectI, rule assms(2), rule went_on_trans [OF assms(1) went_on_one])

lemma wp_host_on:
  assumes "went_on s0 t s" and "\<And>a u. went_on s0 t u \<Longrightarrow> Q a u"
  shows "wp (on_ap c) Q s"
  by (rule wp_on_apI, rule assms(2)) (simp add: went_on_host assms(1))

lemma wp_ensureAvailable:
  assumes "\<And>e t u. went_on s t u \<Longrightarrow> Q e u"
  shows "wp (ensureAvailable E m) Q s"
  unfolding ensureAvailable_def
  by (rule wp_bindI, rule wp_host_on [OF went_on_host(2)]; rule wp_bindI)
    (rule wp_ifI wp_returnI wp_bindI wp_exec_on wp_host_on assms | assumption | simp only: snd_conv)+

lemma wp_appendConsole:
  assumes "went_on s0 t s" and "\<And>ok u. went_on s0 t u \<Longrightarrow> Q ok u"
  shows "wp (appendConsole E path data) Q s"
  unfolding appendConsole_def
  by (rule wp_ifI, rule wp_returnI, rule assms(2), rule assms(1), rule wp_bindI, rule wp_host_on [OF assms(1)])
    (rule wp_ifI wp_returnI wp_bindI wp_host_on assms(2) | assumption)+

text \<open>The command that brings the container up, given what the first inspection said.\<close>

definition brought_up :: "apple_Manager \<Rightarrow> VM \<Rightarrow> Image option \<Rightarrow> containerInspectEntry option \<Rightarrow> (string list \<times> cmd_result) list \<Rightarrow> bool" where
  "brought_up m vm img inspect up =
     (let name = containerNameForVM (vm_ID vm) in
      case inspect of
        None \<Rightarrow> \<exists>args r. runArgs m vm img name = Inr args \<and> up = [(args, r)] \<and> cr_err r = None
      | Some i \<Rightarrow> if ci_Status i = ''running'' then up = [] else \<exists>r. up = [([''start'', name], r)] \<and> cr_err r = None)"

lemma wp_bring_up:
  assumes "went_on s0 t s" and "\<And>e up u. went_on s0 (t @ up) u \<Longrightarrow> (e = None \<Longrightarrow> brought_up m vm img inspect up) \<Longrightarrow> Q e u"
  shows "wp (bring_up E m vm img (containerNameForVM (vm_ID vm)) consolePath inspect) Q s"
proof (cases inspect)
  case None
  show ?thesis
    unfolding bring_up_def None option.case
    apply (rule wp_sumI, rule wp_returnI, rule assms(2) [where up = "[]"], simp add: assms(1), simp)
    apply (rule wp_bindI, rule wp_exec_on [OF assms(1)], rule wp_bindI, rule wp_appendConsole, assumption, rule wp_returnI, rule assms(2), assumption)
    apply (auto simp: brought_up_def cmd_message_def Let_def None)
    done
next
  case (Some i)
  show ?thesis
    unfolding bring_up_def Some option.case
    apply (rule wp_ifI)
     apply (rule wp_bindI, rule wp_exec_on [OF assms(1)], simp only: snd_conv, rule wp_optionI, rule wp_returnI, rule assms(2), assumption)
      apply (simp add: brought_up_def cmd_message_def Let_def Some)
     apply (rule wp_bindI, rule wp_appendConsole, assumption, rule wp_returnI, rule assms(2), assumption, simp)
    apply (rule wp_returnI, rule assms(2) [where up = "[]"], simp add: assms(1), simp add: brought_up_def Let_def Some)
    done
qed

text \<open>C24. A successful \<open>Start\<close> has inspected the container of the machine, brought it up with exactly one command (none when it already ran), seen
  it running in its last command, recorded it in the runtime of the machine, and the machine is watched. A failed one leaves machine and
  watchers as they were.\<close>

theorem Start_running:
  assumes "run_state (apple_Start E m vm img) s = ((e, vm'), s')"
  shows "case e of
     Some _ \<Rightarrow> vm' = vm \<and> (\<exists>t. went_on s t s')
   | None \<Rightarrow> (\<exists>t first up last i j. ap_trace s' = ap_trace s @ t @ [first] @ up @ [last] \<and>
       observed E (containerNameForVM (vm_ID vm)) first = Some j \<and> brought_up m vm img j up \<and>
       observed E (containerNameForVM (vm_ID vm)) last = Some (Some i) \<and> ci_Status i = ''running'' \<and>
       (\<exists>console. vm' = setRuntime vm (containerNameForVM (vm_ID vm)) console i) \<and> vm_ID vm \<in> ap_watching s')" (is "?goal e vm' s'")
proof -
  define G where "G r u \<longleftrightarrow> ?goal (fst r) (snd r) u" for r u
  have failed: "G (Some x, vm) u" if "went_on s t u" for x t u using that by (auto simp: G_def)
  have started: "wp (do { _ \<leftarrow> watchContainer (vm_ID vm) (containerNameForVM (vm_ID vm)); State_Monad.return (None, setRuntime vm (containerNameForVM (vm_ID vm)) console i) }) G u"
    if "went_on s ((t @ [([''inspect'', containerNameForVM (vm_ID vm)], r)]) @ up @ [([''inspect'', containerNameForVM (vm_ID vm)], r')]) u"
      "inspection E (cr_out r, cmd_message [''inspect'', containerNameForVM (vm_ID vm)] r) = Inr j" "brought_up m vm img j up"
      "inspection E (cr_out r', cmd_message [''inspect'', containerNameForVM (vm_ID vm)] r') = Inr (Some i)" "ci_Status i = ''running''" for t r up r' i j u console
  proof -
    let ?ins = "[''inspect'', containerNameForVM (vm_ID vm)]"
    have "ap_trace u = ap_trace s @ t @ [(?ins, r)] @ up @ [(?ins, r')]" using that(1) by (simp add: went_on_def)
    moreover have "observed E (containerNameForVM (vm_ID vm)) (?ins, r) = Some j" "observed E (containerNameForVM (vm_ID vm)) (?ins, r') = Some (Some i)"
      using that(2,4) by simp_all
    ultimately show ?thesis using that(3,5)
      by (auto simp: watchContainer_def G_def simp del: observed.simps; blast)
  qed
  have "wp (apple_Start E m vm img) G s"
    unfolding apple_Start_def Let_def
    apply (rule wp_bindI, rule wp_ensureAvailable, rule wp_ifI)
     apply (clarsimp, rule failed, assumption)
    apply (rule wp_bindI, rule wp_host_on, assumption, rule wp_ifI, rule wp_returnI, rule failed, assumption)
    apply (rule wp_bindI, rule wp_inspect_on, assumption, rule wp_sumI, rule wp_returnI, rule failed, assumption)
    apply (rule wp_bindI, rule wp_bring_up, assumption, rule wp_ifI)
     apply (clarsimp, rule failed, assumption)
    apply (rule wp_bindI, rule wp_inspect_on, assumption, rule wp_sumI, rule wp_returnI, rule failed, assumption)
    apply (rule wp_optionI, rule wp_returnI, rule failed, assumption)
    apply (rule wp_ifI, rule wp_returnI, rule failed, assumption)
    apply (rule started)
        apply (simp add: went_on_def)
       apply assumption
      apply simp_all
    done
  then show ?thesis by (simp only: wp_run [OF assms] G_def fst_conv snd_conv)
qed

subsection \<open>Watchers\<close>

datatype apple_call = StartVM VM "Image option" | StopVM VM int | KillVM VM | DeleteVMs VM

fun apple_serve :: "'h apple_os \<Rightarrow> apple_Manager \<Rightarrow> apple_call \<Rightarrow> ('h apple, unit) comp" where
  "apple_serve E m (StartVM vm img) = do { _ \<leftarrow> apple_Start E m vm img; State_Monad.return () }"
| "apple_serve E m (StopVM vm timeout) = do { _ \<leftarrow> apple_Stop E m vm timeout; State_Monad.return () }"
| "apple_serve E m (KillVM vm) = do { _ \<leftarrow> apple_Kill E m vm; State_Monad.return () }"
| "apple_serve E m (DeleteVMs vm) = do { _ \<leftarrow> apple_Delete E m vm; State_Monad.return () }"

inductive apple_reached :: "'h apple_os \<Rightarrow> apple_Manager \<Rightarrow> 'h apple \<Rightarrow> bool" for E m where
  init: "ap_watching s = {} \<Longrightarrow> ap_watchers s = [] \<Longrightarrow> apple_reached E m s"
| serve: "apple_reached E m s \<Longrightarrow> apple_reached E m (snd (run_state (apple_serve E m c) s))"
| tick: "apple_reached E m s \<Longrightarrow> w \<in> set (ap_watchers s) \<Longrightarrow> apple_reached E m (snd (run_state (watch_tick E m w) s))"

definition watched_once :: "'h apple \<Rightarrow> bool" where
  "watched_once s \<longleftrightarrow> distinct (map fst (ap_watchers s)) \<and> set (map fst (ap_watchers s)) = ap_watching s"

lemma watched_once_on: "went_on s t s' \<Longrightarrow> watched_once s \<Longrightarrow> watched_once s'"
  by (simp add: went_on_def watched_once_def)

lemma watched_once_watch: "watched_once s \<Longrightarrow> watched_once (snd (run_state (watchContainer v n) s))"
  by (auto simp: watchContainer_def watched_once_def State_Monad.update_def)

lemma wp_Start_watched: "watched_once s \<Longrightarrow> wp (apple_Start E m vm img) (\<lambda>_. watched_once) s"
  unfolding apple_Start_def Let_def
  apply (rule wp_bindI, rule wp_ensureAvailable, rule wp_ifI, rule wp_returnI, erule (1) watched_once_on)
  apply (rule wp_bindI, rule wp_host_on, assumption, rule wp_ifI, rule wp_returnI, erule (1) watched_once_on)
  apply (rule wp_bindI, rule wp_inspect_on, assumption, rule wp_sumI, rule wp_returnI, erule (1) watched_once_on)
  apply (rule wp_bindI, rule wp_bring_up, assumption, rule wp_ifI, rule wp_returnI, erule (1) watched_once_on)
  apply (rule wp_bindI, rule wp_inspect_on, assumption, rule wp_sumI, rule wp_returnI, erule (1) watched_once_on)
  apply (rule wp_optionI, rule wp_returnI, erule (1) watched_once_on)
  apply (rule wp_ifI, rule wp_returnI, erule (1) watched_once_on)
  apply (simp add: wp_iff_run [of "watchContainer _ _"] watched_once_watch watched_once_on)
  done

lemma watched_once_finish:
  "watched_once s \<Longrightarrow> w \<in> set (ap_watchers s) \<Longrightarrow>
   watched_once (s\<lparr>ap_exits := x, ap_watching := ap_watching s - {fst w}, ap_watchers := remove1 w (ap_watchers s)\<rparr>)"
  unfolding watched_once_def
  by (auto simp: distinct_map distinct_remove1 set_remove1_eq intro: inj_on_subset dest: inj_onD)

text \<open>Every machine has at most one goroutine that watches it, and the machines marked as watched are those that have one.\<close>

lemma wp_Stop_Kill_on:
  "wp (apple_Stop E m vm timeout) (\<lambda>_ u. \<exists>t. went_on s t u) s" "wp (apple_Kill E m vm) (\<lambda>_ u. \<exists>t. went_on s t u) s"
proof -
  have none: "wp (apple_Stop E m vm timeout) (\<lambda>_ u. \<exists>t. went_on s t u) s \<and> wp (apple_Kill E m vm) (\<lambda>_ u. \<exists>t. went_on s t u) s" if "runtimeName vm = []"
    using that went_on_host(2) [of s] by (auto simp: apple_Stop_def apple_Kill_def Let_def)
  have "wp (apple_Stop E m vm timeout) (\<lambda>_ u. \<exists>t. went_on s t u) s \<and> wp (apple_Kill E m vm) (\<lambda>_ u. \<exists>t. went_on s t u) s" if "runtimeName vm \<noteq> []"
    by (rule conjI, rule wp_mono [OF wp_Stop_Kill(1) [OF that]], simp only: stopped_by_def, blast)
      (rule wp_mono [OF wp_Stop_Kill(2) [OF that]], simp only: stopped_by_def, blast)
  with none show "wp (apple_Stop E m vm timeout) (\<lambda>_ u. \<exists>t. went_on s t u) s" "wp (apple_Kill E m vm) (\<lambda>_ u. \<exists>t. went_on s t u) s" by blast+
qed

lemma reached_watched_once: "apple_reached E m s \<Longrightarrow> watched_once s"
proof (induction rule: apple_reached.induct)
  case (serve s c)
  have keep: "wp c (\<lambda>_. watched_once) s" if "wp c (\<lambda>_ u. \<exists>t. went_on s t u) s" for c :: "('a apple, apple_error option) comp"
    by (rule wp_mono [OF that]) (use serve.IH watched_once_on in blast)
  show ?case
  proof (cases c)
    case (StartVM vm img)
    then show ?thesis using wp_Start_watched [OF serve.IH, of E m vm img] by (auto simp: wp_iff_run split: prod.splits)
  next
    case (StopVM vm timeout)
    then show ?thesis using keep [OF wp_Stop_Kill_on(1) [of E m vm timeout]] by (auto simp: wp_iff_run split: prod.splits)
  next
    case (KillVM vm)
    then show ?thesis using keep [OF wp_Stop_Kill_on(2) [of E m vm]] by (auto simp: wp_iff_run split: prod.splits)
  next
    case (DeleteVMs vm)
    have "wp (apple_Delete E m vm) (\<lambda>_ u. \<exists>t. went_on s t u) s" by (rule wp_mono [OF wp_Delete]) blast
    from keep [OF this] DeleteVMs show ?thesis by (auto simp: wp_iff_run split: prod.splits)
  qed
next
  case (tick s w)
  have "wp (watch_tick E m w) (\<lambda>_. watched_once) s"
    unfolding watch_tick_def Let_def
    apply (rule wp_bindI, rule wp_inspectI)
    using tick.IH tick.hyps(2) watched_once_finish [of "s\<lparr>ap_host := h, ap_trace := t\<rparr>" w for h t]
    apply (auto simp: watched_once_def split: sum.splits option.splits)
    done
  then show ?case by (simp add: wp_iff_run)
qed (simp add: watched_once_def)

subsection \<open>Limits of the driver\<close>

text \<open>When the binary itself is missing, the message of the operating system reads as if the container did not exist: \<open>Delete\<close> then reports
  success and runs no command that deletes anything.\<close>

definition no_binary :: cmd_result where
  "no_binary = \<lparr>cr_out = [], cr_err = Some ''fork/exec: no such file or directory''\<rparr>"

lemma no_binary_missing: "inspection E (out, cmd_message args no_binary) = Inr None"
proof -
  have low: "to_lower (a @ ''no such'' @ b) = to_lower a @ ''no such'' @ to_lower b" for a b by (simp add: to_lower_def lower_char_def)
  have "contains (to_lower (a @ ''no such'' @ b)) ''no such''" for a b
    unfolding low by (auto simp: contains_iff)
  from this [of "''container '' @ join '' '' args @ '' failed: fork/exec: ''" "'' file or directory: '' @ trim_space []"]
  have "container_missing (the (cmd_message args no_binary))" by (simp add: container_missing_def cmd_message_def no_binary_def)
  then show ?thesis by (simp add: inspection_def cmd_message_def no_binary_def)
qed

lemma Delete_without_binary:
  assumes "\<And>args h. run_state (ao_Run E args) h = (no_binary, h)"
  shows "wp (apple_Delete E m vm) (\<lambda>e s'. e = None \<and> ap_trace s' = ap_trace s @ [([''inspect'', delete_name vm], no_binary)]) s"
proof -
  have "wp (ao_Run E args) Q h \<longleftrightarrow> Q no_binary h" for args Q h by (simp add: wp_run [OF assms])
  then show ?thesis by (simp add: apple_Delete_def Let_def inspectContainer_def execContainer_def no_binary_missing)
qed

text \<open>Names of containers drop punctuation and everything after 24 characters, so different identifiers can share a container.\<close>

lemma container_names_collide: "containerNameForVM ''a-b'' = containerNameForVM ''ab''"
  by (simp add: containerNameForVM_def Let_def)

subsection \<open>A machine\<close>

text \<open>A host with one container, whose status is its state.\<close>

definition demo_run :: "string list \<Rightarrow> (string, cmd_result) comp" where
  "demo_run args = do {
     status \<leftarrow> State_Monad.get;
     let cmd = hd (tl args);
     if cmd = ''inspect'' then State_Monad.return \<lparr>cr_out = status, cr_err = None\<rparr>
     else do {
       _ \<leftarrow> State_Monad.set (if cmd = ''run'' then ''running'' else if cmd = ''kill'' then ''stopped'' else if cmd = ''delete'' then [] else status);
       State_Monad.return \<lparr>cr_out = [], cr_err = None\<rparr> } }"

definition demo_apple_os :: "string apple_os" where
  "demo_apple_os = \<lparr>ao_LookPath = \<lambda>_. State_Monad.return True, ao_Stat = \<lambda>_. State_Monad.return True, ao_Run = demo_run,
     ao_Exec = \<lambda>_. State_Monad.return ([], [], 0, ExecExited), ao_MkdirAll = \<lambda>_. State_Monad.return True, ao_OpenAppend = \<lambda>_. State_Monad.return True,
     ao_WriteString = \<lambda>_ _. State_Monad.return True, ao_ReadFile = \<lambda>_. State_Monad.return None, ao_UserHomeDir = State_Monad.return None,
     ao_Now = State_Monad.return 0, ao_polls = State_Monad.return 3, ao_GOARCH = ''arm64'', ao_images = \<lambda>_. None, ao_inspected = \<lambda>_. None,
     ao_containers = \<lambda>out. Some (if out = [] then [] else [\<lparr>ci_Status = out, ci_Networks = [\<lparr>cw_Address = ''192.168.64.2/24'', cw_Gateway = ''192.168.64.1'', cw_Network = ''n''\<rparr>], ci_ID = ''c''\<rparr>])\<rparr>"

definition demo_apple :: apple_Manager where
  "demo_apple = apple_NewManager \<lparr>ac_BinaryPath = [], ac_AutoStart = False, ac_DefaultCommand = []\<rparr> ''/d''"

definition demo_box :: VM where
  "demo_box = \<lparr>vm_ID = ''vm-1'', vm_Name = ''g'', vm_State = StateStopped, vm_Image = ''alpine'', vm_ImageDigest = [], vm_Architecture = [],
     vm_Config = \<lparr>vc_VCPUs = 0, vc_MemoryMiB = 64, vc_KernelArgs = [], vc_SSHPublicKey = [],
       vc_Network = \<lparr>nc_Mode = [], nc_TapDevice = [], nc_MACAddress = [], nc_BridgeName = None, nc_IPAddress = [], nc_Gateway = [],
         nc_Netmask = [], nc_PortForwards = [\<lparr>pf_HostPort = 8080, pf_VMPort = 80, pf_Protocol = []\<rparr>], nc_EgressPolicy = None\<rparr>, vc_Disks = [], vc_Mounts = [], vc_Secrets = []\<rparr>,
     vm_Runtime = None, vm_CreatedAt = 0, vm_UpdatedAt = 0, vm_LockedBy = None, vm_LockedAt = None,
     vm_OwnerUserID = [], vm_GroupID = [], vm_SpiffeID = []\<rparr>"

definition demo_boxes :: "string \<Rightarrow> string apple" where
  "demo_boxes status = \<lparr>ap_watching = {}, ap_watchers = [], ap_exits = [], ap_trace = [], ap_host = status\<rparr>"

lemma demo_box_name: "containerNameForVM (vm_ID demo_box) = ''nf-vm1''" "delete_name demo_box = ''nf-vm1''"
  by code_simp+

lemma demo_args: "\<exists>args. runArgs demo_apple demo_box None ''nf-vm1'' = Inr (''run'' # args)"
  by (simp add: runArgs_def demo_box_def Let_def del: join.simps)

lemma demo_box_started: "wp (apple_Start demo_apple_os demo_apple demo_box None) (\<lambda>r s. fst r = None) (demo_boxes [])"
proof -
  obtain args where args: "runArgs demo_apple demo_box None ''nf-vm1'' = Inr (''run'' # args)" using demo_args by blast
  show ?thesis
    by (simp add: apple_Start_def bring_up_def ensureAvailable_def execContainer_def inspectContainer_def inspection_def cmd_message_def appendConsole_def
        watchContainer_def Let_def demo_box_name args demo_apple_os_def demo_run_def demo_boxes_def del: path_join.simps join.simps)
qed

lemma demo_box_deleted: "(case run_state (apple_Delete demo_apple_os demo_apple demo_box) (demo_boxes ''running'') of (e, s) \<Rightarrow> e = None \<and> length (ap_trace s) = 4)"
  by code_simp

theorem Delete_only_stopped_witness:
  "\<exists>s before r. run_state (apple_Delete demo_apple_os demo_apple demo_box) (demo_boxes ''running'') = (None, s)
     \<and> ap_trace s = before @ [([''delete'', ''nf-vm1''], r)] \<and> seen_stopped demo_apple_os ''nf-vm1'' (last before)"
proof -
  obtain s where run: "run_state (apple_Delete demo_apple_os demo_apple demo_box) (demo_boxes ''running'') = (None, s)" and len: "length (ap_trace s) = 4"
    using demo_box_deleted by (auto split: prod.splits)
  have "ap_trace (demo_boxes ''running'') = []" by (simp add: demo_boxes_def)
  with Delete_only_stopped [OF run] len run show ?thesis unfolding demo_box_name by auto
qed

theorem Start_running_witness:
  "\<exists>vm s. run_state (apple_Start demo_apple_os demo_apple demo_box None) (demo_boxes []) = ((None, vm), s)
     \<and> map_option rt_ExternalID (vm_Runtime vm) = Some ''nf-vm1'' \<and> ''vm-1'' \<in> ap_watching s"
proof -
  obtain vm s where run: "run_state (apple_Start demo_apple_os demo_apple demo_box None) (demo_boxes []) = ((None, vm), s)"
    using demo_box_started by (auto simp: wp_iff_run) (metis prod.collapse)
  have "vm_ID demo_box = ''vm-1''" by (simp add: demo_box_def)
  with Start_running [OF run] run show ?thesis unfolding option.case demo_box_name by (auto simp: setRuntime_def)
qed

end
