(* ===== verification/Cred_Isolation.thy ===== *)
theory Cred_Isolation
  imports Go_Path "HOL-Library.Sublist"
begin

section \<open>Credential isolation (internal/credisolation, cmd/nanofuse/isolation.go)\<close>

text \<open>
  The checks that keep the credentials of one machine away from the others: the guard on mounts, the distinctness of
  identities, the permissions of the store, the report that combines them, and the response to a detected
  access. File modes are words with the bits of Go's \<open>fs.FileMode\<close>. An error is the list of the sentinels that it wraps, which
  is what \<open>errors.Is\<close> sees; the texts of details and errors are values that name the case and its
  arguments. \<open>Lstat\<close>, the logger's sink and the terminator are parameters.
\<close>

unbundle bit_operations_syntax

subsection \<open>Identifiers and authorization (isolation.go)\<close>

datatype sentinel = ErrCrossVMAccess | ErrSharedSecretsMount | ErrInvalidMountTarget | ErrInvalidVMID

definition GuestSecretsDir :: string where "GuestSecretsDir = ''/var/run/secrets/daax''"
definition RequiredDirMode :: "32 word" where "RequiredDirMode = 0x1C0"
definition RequiredOwnerUID :: int where "RequiredOwnerUID = 0"
definition RequiredOwnerGID :: int where "RequiredOwnerGID = 0"
definition maxVMIDLen :: nat where "maxVMIDLen = 128"

text \<open>One byte of the class \<open>[a-zA-Z0-9_-]\<close>.\<close>

definition safe_id_char :: "char \<Rightarrow> bool" where
  "safe_id_char c = (let n = of_char c :: nat in
     97 \<le> n \<and> n \<le> 122 \<or> 65 \<le> n \<and> n \<le> 90 \<or> 48 \<le> n \<and> n \<le> 57 \<or> c = CHR ''_'' \<or> c = CHR ''-'')"

definition ValidateVMID :: "string \<Rightarrow> sentinel list option" where
  "ValidateVMID vmID =
     (if vmID = [] then Some [ErrInvalidVMID]
      else if length vmID > maxVMIDLen then Some [ErrInvalidVMID]
      else if \<not> list_all safe_id_char vmID then Some [ErrInvalidVMID]
      else None)"

definition Authorize :: "string \<Rightarrow> string \<Rightarrow> sentinel list option" where
  "Authorize requestingVMID targetVMID =
     (case ValidateVMID requestingVMID of Some e \<Rightarrow> Some (ErrCrossVMAccess # e)
      | None \<Rightarrow> (case ValidateVMID targetVMID of Some e \<Rightarrow> Some (ErrCrossVMAccess # e)
      | None \<Rightarrow> if requestingVMID \<noteq> targetVMID then Some [ErrCrossVMAccess] else None))"

subsection \<open>The guard on mounts (isolation.go)\<close>

record MountSpec =
  ms_Target :: string
  ms_Source :: string
  ms_Type :: string

definition isAncestorOrSame :: "string \<Rightarrow> string \<Rightarrow> bool" where
  "isAncestorOrSame ancestor descendant =
     (if ancestor = descendant then True
      else if ancestor = ''/'' then has_prefix descendant ''/''
      else has_prefix descendant (ancestor @ ''/''))"

definition pathOverlapsSecrets :: "string \<Rightarrow> bool" where
  "pathOverlapsSecrets p = (let secrets = GuestSecretsDir; alt = ''/run/secrets/daax'' in
     isAncestorOrSame p secrets \<or> isAncestorOrSame secrets p \<or> isAncestorOrSame p alt \<or> isAncestorOrSame alt p)"

definition guardOne :: "MountSpec \<Rightarrow> sentinel list option" where
  "guardOne m = (let target = ms_Target m in
     if target = [] then None
     else if CHR 0x00 \<in> set target then Some [ErrInvalidMountTarget]
     else if \<not> has_prefix target ''/'' then Some [ErrInvalidMountTarget]
     else let clean = path_clean target in
       if \<not> pathOverlapsSecrets clean then None
       else let mtype = to_lower (ms_Type m) in
         if mtype = ''tmpfs'' \<and> ms_Source m = [] then None
         else Some [ErrSharedSecretsMount])"

fun GuardMounts :: "MountSpec list \<Rightarrow> sentinel list option" where
  "GuardMounts [] = None"
| "GuardMounts (m # ms) = (case guardOne m of Some e \<Rightarrow> Some e | None \<Rightarrow> GuardMounts ms)"

subsection \<open>Results and reports (isolation.go)\<close>

datatype detail =
    NoDetail
  | DuplicateVM string
  | SharedSpiffe string string string
  | IdentitiesDistinct nat nat nat
  | StoreSymlink string
  | StoreNoDirectory string
  | StoreSpecialBits string "32 word"
  | StoreOpen string "32 word"
  | StoreMode string "32 word"
  | OwnerUnknown string
  | OwnerWrong string int int
  | StoreFine string bool
  | MountsFine nat
  | GuardAdmitted
  | GuardRejected "sentinel list"
  | PolicyFine
  | LstatFailed string
  | Failed "sentinel list"

record VerifyResult =
  vr_Name :: string
  vr_Pass :: bool
  vr_Detail :: detail

record Report =
  rp_Results :: "VerifyResult list"
  rp_Subjects :: int

definition allPass :: "Report \<Rightarrow> bool" where
  "allPass r = (if rp_Results r = [] then False else list_all vr_Pass (rp_Results r))"

definition Report_Pass :: "Report \<Rightarrow> bool" where
  "Report_Pass r \<longleftrightarrow> rp_Subjects r > 0 \<and> allPass r"

definition HasFailure :: "Report \<Rightarrow> bool" where
  "HasFailure r = list_ex (\<lambda>res. \<not> vr_Pass res) (rp_Results r)"

definition StatusLine :: "Report \<Rightarrow> string" where
  "StatusLine r =
     (if \<not> allPass r then ''credential isolation: FAIL''
      else if rp_Subjects r = 0 then ''credential isolation: NOT VERIFIED''
      else ''credential isolation: PASS'')"

subsection \<open>Distinct identities (isolation.go)\<close>

record VMIdentity =
  vi_VMID :: string
  vi_SpiffeID :: string

text \<open>The loop: \<open>seenVM\<close> and \<open>seenSpiffe\<close> are the two maps, \<open>n\<close> counts the machines with a SPIFFE ID. \<open>Inr\<close> of
  a number is the end of the loop.\<close>

fun identity_loop :: "string set \<Rightarrow> (string \<rightharpoonup> string) \<Rightarrow> nat \<Rightarrow> VMIdentity list \<Rightarrow> (sentinel list + detail) + nat" where
  "identity_loop seenVM seenSpiffe n [] = Inr n"
| "identity_loop seenVM seenSpiffe n (i # ids) =
     (case ValidateVMID (vi_VMID i) of Some e \<Rightarrow> Inl (Inl e)
      | None \<Rightarrow>
        if vi_VMID i \<in> seenVM then Inl (Inr (DuplicateVM (vi_VMID i)))
        else if vi_SpiffeID i = [] then identity_loop (insert (vi_VMID i) seenVM) seenSpiffe n ids
        else (case seenSpiffe (vi_SpiffeID i) of
            Some other \<Rightarrow> Inl (Inr (SharedSpiffe other (vi_VMID i) (vi_SpiffeID i)))
          | None \<Rightarrow> identity_loop (insert (vi_VMID i) seenVM) (seenSpiffe(vi_SpiffeID i \<mapsto> vi_VMID i)) (n + 1) ids))"

definition VerifyDistinctIdentities :: "VMIdentity list \<Rightarrow> VerifyResult \<times> sentinel list option" where
  "VerifyDistinctIdentities ids =
     (let res = \<lparr>vr_Name = ''identity-distinctness'', vr_Pass = False, vr_Detail = NoDetail\<rparr> in
      case identity_loop {} Map.empty 0 ids of
        Inl (Inl e) \<Rightarrow> (res, Some e)
      | Inl (Inr d) \<Rightarrow> (res\<lparr>vr_Detail := d\<rparr>, None)
      | Inr n \<Rightarrow> (res\<lparr>vr_Pass := True, vr_Detail := IdentitiesDistinct (length ids) n (length ids - n)\<rparr>, None))"

subsection \<open>Permissions of the store (isolation.go, owner_unix.go)\<close>

text \<open>The bits of \<open>fs.FileMode\<close>.\<close>

definition ModeDir :: "32 word" where "ModeDir = 0x80000000"
definition ModeSymlink :: "32 word" where "ModeSymlink = 0x08000000"
definition ModeSetuid :: "32 word" where "ModeSetuid = 0x00800000"
definition ModeSetgid :: "32 word" where "ModeSetgid = 0x00400000"
definition ModeSticky :: "32 word" where "ModeSticky = 0x00100000"
definition ModePerm :: "32 word" where "ModePerm = 0x1FF"

text \<open>What \<open>Lstat\<close> gives: the mode, and the owner and group where the platform tells them.\<close>

record FileInfo =
  fi_Mode :: "32 word"
  fi_Sys :: "(32 word \<times> 32 word) option"

datatype lstat_error = NotExist | OtherError

definition statOwner :: "FileInfo \<Rightarrow> int \<times> int \<times> bool" where
  "statOwner info = (case fi_Sys info of None \<Rightarrow> (0, 0, False) | Some (u, g) \<Rightarrow> (uint u, uint g, True))"

definition requiredRootOwnerFailure :: "string \<Rightarrow> int \<Rightarrow> int \<Rightarrow> bool \<Rightarrow> detail option" where
  "requiredRootOwnerFailure p uid gid ok =
     (if \<not> ok then Some (OwnerUnknown p)
      else if uid \<noteq> RequiredOwnerUID \<or> gid \<noteq> RequiredOwnerGID then Some (OwnerWrong p uid gid)
      else None)"

text \<open>The check of what \<open>Lstat\<close> returned.\<close>

definition check_perms :: "string \<Rightarrow> bool \<Rightarrow> FileInfo \<Rightarrow> VerifyResult" where
  "check_perms p requireRoot info =
     (let res = \<lparr>vr_Name = ''store-perms'', vr_Pass = False, vr_Detail = NoDetail\<rparr>;
          special = fi_Mode info AND (ModeSetuid OR ModeSetgid OR ModeSticky);
          mode = fi_Mode info AND ModePerm in
      if fi_Mode info AND ModeSymlink \<noteq> 0 then res\<lparr>vr_Detail := StoreSymlink p\<rparr>
      else if fi_Mode info AND ModeDir = 0 then res\<lparr>vr_Detail := StoreNoDirectory p\<rparr>
      else if special \<noteq> 0 then res\<lparr>vr_Detail := StoreSpecialBits p special\<rparr>
      else if mode AND 0x3F \<noteq> 0 then res\<lparr>vr_Detail := StoreOpen p mode\<rparr>
      else if mode \<noteq> RequiredDirMode then res\<lparr>vr_Detail := StoreMode p mode\<rparr>
      else case (if requireRoot then (case statOwner info of (uid, gid, ok) \<Rightarrow> requiredRootOwnerFailure p uid gid ok) else None) of
          Some d \<Rightarrow> res\<lparr>vr_Detail := d\<rparr>
        | None \<Rightarrow> res\<lparr>vr_Pass := True, vr_Detail := StoreFine p requireRoot\<rparr>)"

type_synonym 'h lstat = "string \<Rightarrow> ('h, lstat_error + FileInfo) comp"

definition VerifyDirPerms :: "'h lstat \<Rightarrow> string \<Rightarrow> bool \<Rightarrow> ('h, VerifyResult \<times> lstat_error option) comp" where
  "VerifyDirPerms Lstat p requireRoot = do {
     r \<leftarrow> Lstat p;
     State_Monad.return (case r of
       Inl e \<Rightarrow> (\<lparr>vr_Name = ''store-perms'', vr_Pass = False, vr_Detail = NoDetail\<rparr>, Some e)
     | Inr info \<Rightarrow> (check_perms p requireRoot info, None)) }"

subsection \<open>The sweep over the host (isolation.go)\<close>

record HostCheckOptions =
  ho_SecretsDir :: string
  ho_CheckDir :: bool
  ho_RequireRoot :: bool
  ho_Mounts :: "MountSpec list"
  ho_Identities :: "VMIdentity list"

definition policySelfCheck :: VerifyResult where
  "policySelfCheck =
     (let res = \<lparr>vr_Name = ''policy-contract'', vr_Pass = False, vr_Detail = NoDetail\<rparr>;
          hostBind = \<lparr>ms_Target = GuestSecretsDir, ms_Source = ''/host/leak'', ms_Type = ''bind''\<rparr>;
          privateTmpfs = \<lparr>ms_Target = GuestSecretsDir, ms_Source = [], ms_Type = ''tmpfs''\<rparr> in
      if GuardMounts [hostBind] = None then res\<lparr>vr_Detail := GuardAdmitted\<rparr>
      else case GuardMounts [privateTmpfs] of
          Some e \<Rightarrow> res\<lparr>vr_Detail := GuardRejected e\<rparr>
        | None \<Rightarrow> res\<lparr>vr_Pass := True, vr_Detail := PolicyFine\<rparr>)"

definition add_result :: "VerifyResult \<Rightarrow> Report \<Rightarrow> Report" where
  "add_result res r = r\<lparr>rp_Results := rp_Results r @ [res], rp_Subjects := rp_Subjects r + 1\<rparr>"

definition mount_result :: "MountSpec list \<Rightarrow> VerifyResult" where
  "mount_result mounts =
     (let res = \<lparr>vr_Name = ''mount-guard'', vr_Pass = True, vr_Detail = MountsFine (length mounts)\<rparr> in
      case GuardMounts mounts of None \<Rightarrow> res | Some e \<Rightarrow> res\<lparr>vr_Pass := False, vr_Detail := Failed e\<rparr>)"

definition identity_result :: "VMIdentity list \<Rightarrow> VerifyResult" where
  "identity_result ids =
     (case VerifyDistinctIdentities ids of
        (res, None) \<Rightarrow> res
      | (res, Some e) \<Rightarrow> \<lparr>vr_Name = ''identity-distinctness'', vr_Pass = False, vr_Detail = Failed e\<rparr>)"

definition VerifyHost :: "'h lstat \<Rightarrow> HostCheckOptions \<Rightarrow> ('h, Report) comp" where
  "VerifyHost Lstat opts = do {
     let r = \<lparr>rp_Results = [policySelfCheck], rp_Subjects = 0\<rparr>;
     r \<leftarrow> (if ho_CheckDir opts then do {
         let dir = (if ho_SecretsDir opts = [] then GuestSecretsDir else ho_SecretsDir opts);
         x \<leftarrow> VerifyDirPerms Lstat dir (ho_RequireRoot opts);
         let res = (case x of (res, None) \<Rightarrow> res
           | (res, Some e) \<Rightarrow> \<lparr>vr_Name = ''store-perms'', vr_Pass = False, vr_Detail = LstatFailed dir\<rparr>);
         State_Monad.return (add_result res r) }
       else State_Monad.return r);
     let r = (if length (ho_Mounts opts) > 0 then add_result (mount_result (ho_Mounts opts)) r else r);
     let r = (if length (ho_Identities opts) > 0 then add_result (identity_result (ho_Identities opts)) r else r);
     State_Monad.return r }"

subsection \<open>The command (cmd/nanofuse/isolation.go)\<close>

record isolation_flags =
  if_SecretsDir :: string
  if_RequireRoot :: bool
  if_Strict :: bool

datatype isolation_error = DirEmpty | DirPadded | DirRelative | VerificationFailed string

text \<open>The lines on standard output: a skip, a result, the status.\<close>

datatype out_line = Skip string | Line VerifyResult | Status string

definition runIsolationVerify :: "'h lstat \<Rightarrow> isolation_flags \<Rightarrow> ('h, out_line list \<times> isolation_error option) comp" where
  "runIsolationVerify Lstat f = (let dir = if_SecretsDir f in
     if trim_space dir = [] then State_Monad.return ([], Some DirEmpty)
     else if dir \<noteq> trim_space dir then State_Monad.return ([], Some DirPadded)
     else if \<not> is_abs dir then State_Monad.return ([], Some DirRelative)
     else do {
       x \<leftarrow> Lstat dir;
       let (check, skipped) = (case x of Inr _ \<Rightarrow> (True, [])
         | Inl NotExist \<Rightarrow> if if_Strict f then (True, []) else (False, [Skip dir])
         | Inl OtherError \<Rightarrow> (True, []));
       report \<leftarrow> VerifyHost Lstat \<lparr>ho_SecretsDir = dir, ho_CheckDir = check, ho_RequireRoot = if_RequireRoot f,
          ho_Mounts = [], ho_Identities = []\<rparr>;
       State_Monad.return (skipped @ map Line (rp_Results report) @ [Status (StatusLine report)],
         if HasFailure report then Some (VerificationFailed (StatusLine report)) else None) })"

subsection \<open>The response to an attempt (monitor.go)\<close>

text \<open>Times are nanoseconds since the epoch in UTC; \<open>None\<close> is the zero time.\<close>

record AccessAttempt =
  aa_RequestingVMID :: string
  aa_TargetVMID :: string
  aa_Path :: string
  aa_When :: "int option"

text \<open>The fields that both records of the log carry.\<close>

record audit_fields =
  au_requesting_vm :: string
  au_requesting_vm_valid :: bool
  au_target_vm :: string
  au_target_vm_valid :: bool
  au_path :: string
  au_timestamp :: int

datatype 'e audit_record = AttemptDetected audit_fields | FailsafeResponse audit_fields bool "'e option"

text \<open>The state that the monitor works on: the log, the clock and everything else, which the terminator changes.\<close>

record ('h, 'e) monitored =
  mo_log :: "'e audit_record list"
  mo_clock :: int
  mo_host :: 'h

type_synonym ('h, 'e) Terminator = "string \<Rightarrow> ('h, 'e option) comp"

definition audit :: "'e audit_record \<Rightarrow> (('h, 'e) monitored, unit) comp" where
  "audit x = State_Monad.update (\<lambda>s. s\<lparr>mo_log := mo_log s @ [x]\<rparr>)"

text \<open>The returned error: the sentinels and, wrapped, the error of the terminator.\<close>

definition HandleCrossVMAttempt ::
  "('h, 'e) Terminator option \<Rightarrow> AccessAttempt \<Rightarrow> (('h, 'e) monitored, sentinel list \<times> 'e option) comp" where
  "HandleCrossVMAttempt terminate a = do {
     s \<leftarrow> State_Monad.get;
     let when = (case aa_When a of None \<Rightarrow> mo_clock s | Some t \<Rightarrow> t);
     let fields = \<lparr>au_requesting_vm = aa_RequestingVMID a, au_requesting_vm_valid = (ValidateVMID (aa_RequestingVMID a) = None),
        au_target_vm = aa_TargetVMID a, au_target_vm_valid = (ValidateVMID (aa_TargetVMID a) = None),
        au_path = aa_Path a, au_timestamp = when\<rparr>;
     _ \<leftarrow> audit (AttemptDetected fields);
     (terminated, termErr) \<leftarrow> (case terminate of
         None \<Rightarrow> State_Monad.return (False, None)
       | Some t \<Rightarrow> do {
           e \<leftarrow> zoom mo_host (\<lambda>h s. s\<lparr>mo_host := h\<rparr>) (t (aa_RequestingVMID a));
           State_Monad.return (e = None, e) });
     _ \<leftarrow> audit (FailsafeResponse fields terminated termErr);
     State_Monad.return ([ErrCrossVMAccess], termErr) }"

subsection \<open>What the guard admits\<close>

text \<open>Some path lies both below the target of a mount and below a store: the mount is the store, shadows it or lies in it.\<close>

definition reaches :: "string \<Rightarrow> string \<Rightarrow> bool" where
  "reaches target store \<longleftrightarrow> (\<exists>p. within_lexical target p \<and> within_lexical store p)"

definition private_tmpfs :: "MountSpec \<Rightarrow> bool" where
  "private_tmpfs m \<longleftrightarrow> to_lower (ms_Type m) = ''tmpfs'' \<and> ms_Source m = []"

lemma split_on_append_join:
  "cs \<noteq> [] \<Longrightarrow> \<forall>c \<in> set cs. d \<notin> set c \<Longrightarrow> split_on d (join [d] cs @ d # r) = cs @ split_on d r"
proof (induction cs)
  case (Cons c cs)
  then show ?case by (cases "cs = []") (simp_all add: join_Cons split_on_append_sep)
qed simp

text \<open>Between lists of components, the test on prefixes of strings is the test on prefixes of lists.\<close>

lemma join_prefix_iff:
  assumes "as \<noteq> []" and "\<forall>c \<in> set as. d \<notin> set c" and "\<forall>c \<in> set bs. d \<notin> set c"
  shows "has_prefix (join [d] bs) (join [d] as @ [d]) \<longleftrightarrow> strict_prefix as bs"
proof
  assume "has_prefix (join [d] bs) (join [d] as @ [d])"
  then obtain r where r: "join [d] bs = join [d] as @ d # r" by (auto simp: has_prefix_iff)
  then have "bs \<noteq> []" by auto
  then have "bs = as @ split_on d r" using split_on_join [of bs d] assms r split_on_append_join [of as d r] by simp
  then show "strict_prefix as bs" by (auto intro: strict_prefixI)
next
  assume "strict_prefix as bs"
  then obtain r where "bs = as @ r" "r \<noteq> []" by (auto elim!: strict_prefixE')
  then show "has_prefix (join [d] bs) (join [d] as @ [d])" using assms(1) by (simp add: join_append has_prefix_iff)
qed

lemma isAncestorOrSame_iff:
  assumes "is_abs a" and "is_abs b"
  shows "isAncestorOrSame (path_clean a) (path_clean b) \<longleftrightarrow> prefix (clean_comps a) (clean_comps b)"
proof (cases "clean_comps a = []")
  case True
  then have "path_clean a = ''/''" using assms(1) by (simp add: path_clean_def)
  with True assms(2) show ?thesis by (simp add: isAncestorOrSame_def path_clean_def Let_def)
next
  case False
  have eq: "path_clean a = path_clean b \<longleftrightarrow> clean_comps a = clean_comps b" using assms by (simp add: path_clean_eq_iff)
  have root: "path_clean a \<noteq> ''/''"
  proof
    assume "path_clean a = ''/''"
    then have "clean_comps a = clean_comps ''/''" using clean_comps_path_clean by metis
    with False show False by (simp add: clean_comps_def)
  qed
  have "has_prefix (path_clean b) (path_clean a @ ''/'') \<longleftrightarrow> has_prefix (join ''/'' (clean_comps b)) (join ''/'' (clean_comps a) @ ''/'')"
    using assms by (simp add: path_clean_def Let_def has_prefix_def)
  then have "has_prefix (path_clean b) (path_clean a @ ''/'') \<longleftrightarrow> strict_prefix (clean_comps a) (clean_comps b)"
    using join_prefix_iff [OF False clean_comps_no_sep clean_comps_no_sep] by simp
  with eq root show ?thesis by (auto simp: isAncestorOrSame_def prefix_order.le_less)
qed

lemma reaches_iff:
  assumes "is_abs a" and "is_abs b"
  shows "reaches a b \<longleftrightarrow> prefix (clean_comps a) (clean_comps b) \<or> prefix (clean_comps b) (clean_comps a)"
proof -
  have in_a: "within_lexical a p \<longleftrightarrow> is_abs p \<and> prefix (clean_comps a) (clean_comps p)" for p
    using within_lexical_iff [OF assms(1)] by (simp add: prefix_def)
  have in_b: "within_lexical b p \<longleftrightarrow> is_abs p \<and> prefix (clean_comps b) (clean_comps p)" for p
    using within_lexical_iff [OF assms(2)] by (simp add: prefix_def)
  show ?thesis unfolding reaches_def in_a in_b using assms prefix_same_cases by blast
qed

lemma store_paths:
  "path_clean GuestSecretsDir = GuestSecretsDir" "path_clean ''/run/secrets/daax'' = ''/run/secrets/daax''" "is_abs GuestSecretsDir"
  by code_simp+

lemma pathOverlapsSecrets_iff:
  "is_abs t \<Longrightarrow> pathOverlapsSecrets (path_clean t) \<longleftrightarrow> reaches t GuestSecretsDir \<or> reaches t ''/run/secrets/daax''"
  using isAncestorOrSame_iff [of t GuestSecretsDir] isAncestorOrSame_iff [of GuestSecretsDir t]
    isAncestorOrSame_iff [of t "''/run/secrets/daax''"] isAncestorOrSame_iff [of "''/run/secrets/daax''" t]
  by (simp add: pathOverlapsSecrets_def Let_def store_paths reaches_iff)

lemma GuardMounts_None: "GuardMounts ms = None \<longleftrightarrow> list_all (\<lambda>m. guardOne m = None) ms"
  by (induction ms) (auto split: option.splits)

text \<open>C17. The guard admits a list of mounts exactly when every target is empty or an absolute path without NUL and, unless the
  mount is a private tmpfs, no path at all lies both below the target and below the store under either of its names.\<close>

theorem GuardMounts_isolates:
  "GuardMounts ms = None \<longleftrightarrow>
     list_all (\<lambda>m. ms_Target m = [] \<or> is_abs (ms_Target m) \<and> CHR 0x00 \<notin> set (ms_Target m) \<and>
       (private_tmpfs m \<or> \<not> reaches (ms_Target m) GuestSecretsDir \<and> \<not> reaches (ms_Target m) ''/run/secrets/daax'')) ms"
proof -
  have "guardOne m = None \<longleftrightarrow> ms_Target m = [] \<or> is_abs (ms_Target m) \<and> CHR 0x00 \<notin> set (ms_Target m) \<and>
     (private_tmpfs m \<or> \<not> reaches (ms_Target m) GuestSecretsDir \<and> \<not> reaches (ms_Target m) ''/run/secrets/daax'')" for m
    using pathOverlapsSecrets_iff [of "ms_Target m"]
    by (auto simp: guardOne_def Let_def is_abs_def private_tmpfs_def)
  then show ?thesis by (simp add: GuardMounts_None)
qed

subsection \<open>What a report states\<close>

definition store_private :: "bool \<Rightarrow> FileInfo \<Rightarrow> bool" where
  "store_private requireRoot info \<longleftrightarrow>
     bit (fi_Mode info) 31 \<and> \<not> bit (fi_Mode info) 27 \<and> \<not> bit (fi_Mode info) 23 \<and> \<not> bit (fi_Mode info) 22 \<and> \<not> bit (fi_Mode info) 20
     \<and> take_bit 9 (fi_Mode info) = 0x1C0 \<and> (requireRoot \<longrightarrow> fi_Sys info = Some (0, 0))"

definition identities_distinct :: "VMIdentity list \<Rightarrow> bool" where
  "identities_distinct ids \<longleftrightarrow> list_all (\<lambda>i. ValidateVMID (vi_VMID i) = None) ids \<and> distinct (map vi_VMID ids)
     \<and> distinct (filter (\<lambda>x. x \<noteq> []) (map vi_SpiffeID ids))"

lemma and_single_bit:
  fixes m :: "'a::len word"
  assumes "n < LENGTH('a)"
  shows "m AND push_bit n 1 = 0 \<longleftrightarrow> \<not> bit m n"
proof
  assume "m AND push_bit n 1 = 0"
  then have "\<not> bit (m AND push_bit n 1) n" by simp
  with assms show "\<not> bit m n" by (simp add: bit_simps)
next
  assume "\<not> bit m n"
  then show "m AND push_bit n 1 = 0" by (intro bit_eqI) (auto simp: bit_and_iff bit_push_bit_iff bit_1_iff bit_exp_iff)
qed

lemma mask_bits:
  fixes m :: "32 word"
  shows "m AND ModeDir = 0 \<longleftrightarrow> \<not> bit m 31" "m AND ModeSymlink = 0 \<longleftrightarrow> \<not> bit m 27" "m AND ModePerm = take_bit 9 m"
    "m AND (ModeSetuid OR ModeSetgid OR ModeSticky) = 0 \<longleftrightarrow> \<not> bit m 23 \<and> \<not> bit m 22 \<and> \<not> bit m 20"
proof -
  have single: "m AND push_bit n 1 = 0 \<longleftrightarrow> \<not> bit m n" if "n < 32" for n by (rule and_single_bit) (simp add: that)
  show "m AND ModeDir = 0 \<longleftrightarrow> \<not> bit m 31" using single [of 31] by (simp add: ModeDir_def push_bit_eq_mult)
  show "m AND ModeSymlink = 0 \<longleftrightarrow> \<not> bit m 27" using single [of 27] by (simp add: ModeSymlink_def push_bit_eq_mult)
  show "m AND ModePerm = take_bit 9 m" by (simp add: ModePerm_def take_bit_eq_mask mask_eq_exp_minus_1)
  show "m AND (ModeSetuid OR ModeSetgid OR ModeSticky) = 0 \<longleftrightarrow> \<not> bit m 23 \<and> \<not> bit m 22 \<and> \<not> bit m 20"
    unfolding bit.conj_disj_distrib or_eq_0_iff
    using single [of 23] single [of 22] single [of 20] by (simp add: ModeSetuid_def ModeSetgid_def ModeSticky_def push_bit_eq_mult)
qed

lemma check_perms_Pass: "vr_Pass (check_perms p rr info) \<longleftrightarrow> store_private rr info"
  by (auto simp: check_perms_def Let_def mask_bits store_private_def RequiredDirMode_def statOwner_def requiredRootOwnerFailure_def
      RequiredOwnerUID_def RequiredOwnerGID_def uint_0_iff split: option.splits if_splits)

lemma identity_loop_Inr:
  "(\<exists>k. identity_loop V S n ids = Inr k) \<longleftrightarrow>
     list_all (\<lambda>i. ValidateVMID (vi_VMID i) = None) ids \<and> distinct (map vi_VMID ids) \<and> set (map vi_VMID ids) \<inter> V = {}
     \<and> distinct (filter (\<lambda>x. x \<noteq> []) (map vi_SpiffeID ids)) \<and> (\<forall>x \<in> set (map vi_SpiffeID ids). x \<noteq> [] \<longrightarrow> S x = None)"
proof (induction V S n ids rule: identity_loop.induct)
  case (2 V S n i ids)
  have upd: "(\<forall>x \<in> A. x \<noteq> [] \<longrightarrow> (S(k \<mapsto> v)) x = None) \<longleftrightarrow> (\<forall>x \<in> A. x \<noteq> [] \<longrightarrow> S x = None) \<and> (k \<in> A \<longrightarrow> k = [])" for A k and v :: string
    by auto
  show ?case
  proof (cases "ValidateVMID (vi_VMID i) = None \<and> vi_VMID i \<notin> V")
    case True
    show ?thesis
    proof (cases "vi_SpiffeID i = [] \<or> S (vi_SpiffeID i) \<noteq> None")
      case empty: True
      with True 2(1) show ?thesis by auto
    next
      case False
      with True have "(\<exists>k. identity_loop V S n (i # ids) = Inr k) \<longleftrightarrow>
          (\<exists>k. identity_loop (insert (vi_VMID i) V) (S(vi_SpiffeID i \<mapsto> vi_VMID i)) (n + 1) ids = Inr k)" by simp
      with 2(2) True False show ?thesis by (auto simp: upd simp del: fun_upd_apply identity_loop.simps)
    qed
  qed (auto split: option.splits)
qed simp

lemma identity_result_Pass: "vr_Pass (identity_result ids) \<longleftrightarrow> identities_distinct ids"
  using identity_loop_Inr [of "{}" Map.empty 0 ids]
  by (auto simp: identity_result_def VerifyDistinctIdentities_def Let_def identities_distinct_def split: sum.splits)

lemma policySelfCheck_Pass: "vr_Pass policySelfCheck"
proof -
  have "pathOverlapsSecrets GuestSecretsDir" by (simp add: pathOverlapsSecrets_def isAncestorOrSame_def)
  moreover have "has_prefix GuestSecretsDir ''/''" "CHR 0x00 \<notin> set GuestSecretsDir" by (simp_all add: GuestSecretsDir_def)
  moreover have "to_lower ''tmpfs'' = ''tmpfs''" by (simp add: to_lower_def lower_char_def)
  ultimately show ?thesis by (simp add: policySelfCheck_def guardOne_def Let_def store_paths)
qed


lemma mount_result_Pass: "vr_Pass (mount_result ms) \<longleftrightarrow> GuardMounts ms = None"
  by (simp add: mount_result_def Let_def split: option.splits)

lemma report_status:
  "rp_Results r \<noteq> [] \<Longrightarrow> HasFailure r \<longleftrightarrow> StatusLine r = ''credential isolation: FAIL''"
  "rp_Subjects r \<ge> 0 \<Longrightarrow> Report_Pass r \<longleftrightarrow> StatusLine r = ''credential isolation: PASS''"
  by (auto simp: HasFailure_def StatusLine_def allPass_def Report_Pass_def list_all_iff list_ex_iff)

lemma VerifyHost_pass:
  assumes "run_state (VerifyHost Lstat opts) s = (r, s')"
  defines "dir \<equiv> if ho_SecretsDir opts = [] then GuestSecretsDir else ho_SecretsDir opts"
  shows "(Report_Pass r \<longleftrightarrow> (ho_CheckDir opts \<or> ho_Mounts opts \<noteq> [] \<or> ho_Identities opts \<noteq> [])
        \<and> (ho_CheckDir opts \<longrightarrow> (\<exists>info. run_state (Lstat dir) s = (Inr info, s') \<and> store_private (ho_RequireRoot opts) info))
        \<and> GuardMounts (ho_Mounts opts) = None \<and> identities_distinct (ho_Identities opts))
    \<and> rp_Results r \<noteq> [] \<and> rp_Subjects r \<ge> 0"
proof -
  define r0 where "r0 = \<lparr>rp_Results = [policySelfCheck], rp_Subjects = 0\<rparr>"
  obtain x t where x: "run_state (Lstat dir) s = (x, t)" by fastforce
  define r1 where "r1 = (if ho_CheckDir opts then add_result (case x of Inr info \<Rightarrow> check_perms dir (ho_RequireRoot opts) info
    | Inl e \<Rightarrow> \<lparr>vr_Name = ''store-perms'', vr_Pass = False, vr_Detail = LstatFailed dir\<rparr>) r0 else r0)"
  define r2 where "r2 = (if ho_Mounts opts \<noteq> [] then add_result (mount_result (ho_Mounts opts)) r1 else r1)"
  have r: "r = (if ho_Identities opts \<noteq> [] then add_result (identity_result (ho_Identities opts)) r2 else r2)"
    and t: "ho_CheckDir opts \<Longrightarrow> s' = t"
    using assms(1) x unfolding r2_def r1_def r0_def
    by (auto simp: VerifyHost_def VerifyDirPerms_def dir_def [symmetric] Let_def split: if_splits sum.splits)
  have sound: "rp_Results r \<noteq> []" "rp_Subjects r \<ge> 0"
    by (simp_all add: r r2_def r1_def r0_def add_result_def)
  have "Report_Pass r \<longleftrightarrow> (ho_CheckDir opts \<or> ho_Mounts opts \<noteq> [] \<or> ho_Identities opts \<noteq> [])
        \<and> (ho_CheckDir opts \<longrightarrow> (\<exists>info. x = Inr info \<and> store_private (ho_RequireRoot opts) info))
        \<and> (ho_Mounts opts \<noteq> [] \<longrightarrow> GuardMounts (ho_Mounts opts) = None)
        \<and> (ho_Identities opts \<noteq> [] \<longrightarrow> identities_distinct (ho_Identities opts))"
    by (cases x) (auto simp: r r2_def r1_def r0_def add_result_def Report_Pass_def allPass_def policySelfCheck_Pass mount_result_Pass
        identity_result_Pass check_perms_Pass)
  moreover have "GuardMounts [] = None" "identities_distinct []" by (simp_all add: identities_distinct_def)
  ultimately have "Report_Pass r \<longleftrightarrow> (ho_CheckDir opts \<or> ho_Mounts opts \<noteq> [] \<or> ho_Identities opts \<noteq> [])
        \<and> (ho_CheckDir opts \<longrightarrow> (\<exists>info. run_state (Lstat dir) s = (Inr info, s') \<and> store_private (ho_RequireRoot opts) info))
        \<and> GuardMounts (ho_Mounts opts) = None \<and> identities_distinct (ho_Identities opts)"
    using x t by (cases "ho_Mounts opts = []"; cases "ho_Identities opts = []") auto
  with sound show ?thesis by blast
qed

text \<open>The sweep passes exactly when something was asked for and everything that was asked for holds: the store that
  \<open>Lstat\<close> found is a real directory with mode 0700 and no special bits (owned by root where that is required), the guard admits the mounts, and
  the machines have valid, distinct identifiers and distinct SPIFFE IDs. The status line says so.\<close>

theorem VerifyHost_verdict:
  assumes "run_state (VerifyHost Lstat opts) s = (r, s')"
  defines "dir \<equiv> if ho_SecretsDir opts = [] then GuestSecretsDir else ho_SecretsDir opts"
  shows "(Report_Pass r \<longleftrightarrow> (ho_CheckDir opts \<or> ho_Mounts opts \<noteq> [] \<or> ho_Identities opts \<noteq> [])
        \<and> (ho_CheckDir opts \<longrightarrow> (\<exists>info. run_state (Lstat dir) s = (Inr info, s') \<and> store_private (ho_RequireRoot opts) info))
        \<and> GuardMounts (ho_Mounts opts) = None \<and> identities_distinct (ho_Identities opts))
    \<and> (Report_Pass r \<longleftrightarrow> StatusLine r = ''credential isolation: PASS'')
    \<and> (HasFailure r \<longleftrightarrow> StatusLine r = ''credential isolation: FAIL'')"
  using VerifyHost_pass [OF assms(1)] report_status [of r] unfolding dir_def by blast

text \<open>A store owned by root with mode 0700, one volume next to the store and two machines, one of them without SPIFFE ID.\<close>

definition demo_info :: FileInfo where
  "demo_info = \<lparr>fi_Mode = 0x800001C0, fi_Sys = Some (0, 0)\<rparr>"

definition demo_options :: HostCheckOptions where
  "demo_options = \<lparr>ho_SecretsDir = [], ho_CheckDir = True, ho_RequireRoot = True,
     ho_Mounts = [\<lparr>ms_Target = ''/var/run/secrets/other'', ms_Source = ''v'', ms_Type = ''volume''\<rparr>],
     ho_Identities = [\<lparr>vi_VMID = ''vm-1'', vi_SpiffeID = ''spiffe://d/1''\<rparr>, \<lparr>vi_VMID = ''vm-2'', vi_SpiffeID = []\<rparr>]\<rparr>"

theorem VerifyHost_verdict_witness:
  "let r = fst (run_state (VerifyHost (\<lambda>_. State_Monad.return (Inr demo_info)) demo_options) ()) in
     Report_Pass r \<and> StatusLine r = ''credential isolation: PASS'' \<and> \<not> HasFailure r"
proof -
  let ?m = "VerifyHost (\<lambda>_. State_Monad.return (Inr demo_info)) demo_options"
  have store: "store_private True demo_info" by (simp add: store_private_def demo_info_def)
  have guard: "GuardMounts (ho_Mounts demo_options) = None" by code_simp
  have ids: "identities_distinct (ho_Identities demo_options)" by code_simp
  have "run_state ?m () = (fst (run_state ?m ()), ())" by (simp add: prod_eq_iff)
  from VerifyHost_verdict [OF this] store guard ids show ?thesis
    by (auto simp: Let_def demo_options_def)
qed

subsection \<open>Authorization and the response\<close>

lemma Authorize_own: "Authorize r t = None \<longleftrightarrow> r = t \<and> ValidateVMID r = None"
  by (auto simp: Authorize_def split: option.splits)

lemma Authorize_denies: "Authorize r t = Some e \<Longrightarrow> ErrCrossVMAccess \<in> set e"
  by (auto simp: Authorize_def split: option.splits if_splits)

text \<open>Whatever the identifiers are, the response calls the terminator once for the requesting machine, appends two
  records with the same fields to the log, and returns an access error with the terminator's error wrapped.\<close>

lemma failsafe_response:
  assumes "run_state (HandleCrossVMAttempt terminate a) s = ((es, e), s')"
  shows "ErrCrossVMAccess \<in> set es
    \<and> (case terminate of None \<Rightarrow> e = None \<and> mo_host s' = mo_host s
       | Some t \<Rightarrow> run_state (t (aa_RequestingVMID a)) (mo_host s) = (e, mo_host s'))
    \<and> (\<exists>f. mo_log s' = mo_log s @ [AttemptDetected f, FailsafeResponse f (terminate \<noteq> None \<and> e = None) e]
         \<and> au_requesting_vm f = aa_RequestingVMID a \<and> au_target_vm f = aa_TargetVMID a \<and> au_path f = aa_Path a)"
  using assms by (auto simp: HandleCrossVMAttempt_def audit_def zoom_def State_Monad.update_def Let_def split: option.splits prod.splits)

text \<open>The command reports PASS only on a store that the second \<open>Lstat\<close> found private, and exits with an error exactly when it reports FAIL.\<close>

lemma isolation_command:
  assumes "run_state (runIsolationVerify Lstat f) s = ((out, e), s')" and "Status x \<in> set out"
  shows "(e \<noteq> None \<longleftrightarrow> x = ''credential isolation: FAIL'')
    \<and> (x = ''credential isolation: PASS'' \<longrightarrow> (\<exists>info t. run_state (Lstat (if_SecretsDir f)) t = (Inr info, s') \<and> store_private (if_RequireRoot f) info))"
proof -
  let ?opts = "\<lambda>check. \<lparr>ho_SecretsDir = if_SecretsDir f, ho_CheckDir = check, ho_RequireRoot = if_RequireRoot f, ho_Mounts = [], ho_Identities = []\<rparr>"
  obtain check t r where r: "run_state (VerifyHost Lstat (?opts check)) t = (r, s')" and x: "x = StatusLine r"
    and e: "e = (if HasFailure r then Some (VerificationFailed (StatusLine r)) else None)" and dir: "if_SecretsDir f \<noteq> []"
    using assms by (auto simp: runIsolationVerify_def Let_def split: if_splits prod.splits sum.splits lstat_error.splits)
  from VerifyHost_pass [OF r] report_status [of r] x e dir show ?thesis by (auto split: if_splits)
qed

end
