(* ===== verification/Spire_Service.thy ===== *)
theory Spire_Service
  imports Server_Env Cred_Isolation
begin

section \<open>Workload identities (internal/spire/service.go, the grammar of svid.go)\<close>

text \<open>
  The registration of machines with the SPIRE server, which the handlers call through the registrar interface, and the grammar of
  SPIFFE IDs. Commands run through the same parameter as the network code; \<open>url.Parse\<close> is a parameter whose result
  carries the parts of the URL that the source reads, and \<open>Hostname\<close> and \<open>Port\<close> are computed from its host as Go's library does.
\<close>

subsection \<open>Parsed URLs\<close>

record uri =
  ui_Scheme :: string
  ui_User :: bool
  ui_RawQuery :: string
  ui_Fragment :: string
  ui_Host :: string
  ui_Path :: string

type_synonym uri_parser = "string \<Rightarrow> uri option"

text \<open>\<open>splitHostPort\<close> of \<open>net/url\<close>: the part behind the last colon is a port when it consists of digits.\<close>

definition split_host_port :: "string \<Rightarrow> string \<times> string" where
  "split_host_port hostPort =
     (let before = rev (dropWhile (\<lambda>c. c \<noteq> CHR '':'') (rev hostPort)); behind = rev (takeWhile (\<lambda>c. c \<noteq> CHR '':'') (rev hostPort));
          (host, port) = (if before \<noteq> [] \<and> list_all (\<lambda>c. 48 \<le> (of_char c :: nat) \<and> of_char c \<le> (57 :: nat)) behind
             then (butlast before, behind) else (hostPort, [])) in
      (if has_prefix host ''['' \<and> has_suffix host '']'' then butlast (tl host) else host, port))"

definition Hostname :: "uri \<Rightarrow> string" where "Hostname u = fst (split_host_port (ui_Host u))"
definition Port :: "uri \<Rightarrow> string" where "Port u = snd (split_host_port (ui_Host u))"

subsection \<open>The grammar (svid.go)\<close>

definition lower_alnum :: "char \<Rightarrow> bool" where
  "lower_alnum c \<longleftrightarrow> (let n = of_char c :: nat in 97 \<le> n \<and> n \<le> 122 \<or> 48 \<le> n \<and> n \<le> 57)"

text \<open>The pattern \<open>^[a-z0-9]([a-z0-9-]*[a-z0-9])?$\<close>.\<close>

definition trust_label :: "string \<Rightarrow> bool" where
  "trust_label l \<longleftrightarrow> l \<noteq> [] \<and> lower_alnum (hd l) \<and> lower_alnum (last l) \<and> list_all (\<lambda>c. lower_alnum c \<or> c = CHR ''-'') l"

definition isValidTrustDomain :: "string \<Rightarrow> bool" where
  "isValidTrustDomain host =
     (if host = [] \<or> length host > 253 then False
      else list_all (\<lambda>label. \<not> (length label > 63 \<or> \<not> trust_label label)) (split_on CHR ''.'' host))"

text \<open>The pattern \<open>^[a-zA-Z0-9._-]+$\<close>.\<close>

definition path_segment :: "string \<Rightarrow> bool" where
  "path_segment s \<longleftrightarrow> s \<noteq> [] \<and> list_all (\<lambda>c. safe_id_char c \<or> c = CHR ''.'') s"

datatype spiffe_error =
    IDRequired | IDTooLong | PercentEncoding | NotAURI | NotSpiffe | ExtraURIParts | HasPort | NoDomain | InvalidDomain | NoPath
  | EmptySegment | DotSegment | InvalidSegment

fun check_segments :: "string list \<Rightarrow> spiffe_error option" where
  "check_segments [] = None"
| "check_segments (seg # segs) =
     (if seg = [] then Some EmptySegment
      else if seg = ''.'' \<or> seg = ''..'' then Some DotSegment
      else if \<not> path_segment seg then Some InvalidSegment
      else check_segments segs)"

definition svid_validateSPIFFEID :: "uri_parser \<Rightarrow> string \<Rightarrow> spiffe_error option" where
  "svid_validateSPIFFEID Parse i =
     (if i = [] then Some IDRequired
      else if length i > 2048 then Some IDTooLong
      else if contains i ''%'' then Some PercentEncoding
      else case Parse i of
        None \<Rightarrow> Some NotAURI
      | Some u \<Rightarrow>
          if ui_Scheme u \<noteq> ''spiffe'' then Some NotSpiffe
          else if ui_User u \<or> ui_RawQuery u \<noteq> [] \<or> ui_Fragment u \<noteq> [] then Some ExtraURIParts
          else if Port u \<noteq> [] then Some HasPort
          else let host = Hostname u in
            if host = [] then Some NoDomain
            else if \<not> isValidTrustDomain host then Some InvalidDomain
            else let path = (if has_prefix (ui_Path u) ''/'' then tl (ui_Path u) else ui_Path u) in
              if path = [] then Some NoPath
              else check_segments (split_on CHR ''/'' path))"

subsection \<open>The service (service.go)\<close>

record Service =
  sv_cfg :: SPIREConfig
  sv_enabled :: bool

definition NewService :: "SPIREConfig \<Rightarrow> Service" where
  "NewService cfg = \<lparr>sv_cfg = cfg, sv_enabled = sp_Enabled cfg\<rparr>"

definition normalizeTrustDomain :: "string \<Rightarrow> string" where
  "normalizeTrustDomain td = to_lower (trim_space td)"

datatype service_error = DomainRequired | DomainInvalid | GroupRequired | GroupInvalid | OwnerRequired | OwnerInvalid
  | VMIDRequired | VMIDInvalid | CreateFailed | DeleteFailed

definition validateTrustDomain :: "Service \<Rightarrow> service_error option" where
  "validateTrustDomain s = (let td = normalizeTrustDomain (sp_TrustDomain (sv_cfg s)) in
     if td = [] then Some DomainRequired
     else if \<not> isValidTrustDomain td then Some DomainInvalid
     else None)"

definition workload_type :: "Service \<Rightarrow> string" where
  "workload_type s = (if sp_WorkloadType (sv_cfg s) = [] then ''microvm'' else sp_WorkloadType (sv_cfg s))"

definition BuildSPIFFEID :: "Service \<Rightarrow> string \<Rightarrow> string \<Rightarrow> string \<Rightarrow> string" where
  "BuildSPIFFEID s groupID ownerUserID vmID =
     ''spiffe://'' @ normalizeTrustDomain (sp_TrustDomain (sv_cfg s)) @ ''/g/'' @ groupID @ ''/u/'' @ ownerUserID @ ''/w/'' @ workload_type s @ ''/'' @ vmID"

text \<open>The pattern \<open>^[a-zA-Z0-9_-]+$\<close>.\<close>

definition safe_id :: "string \<Rightarrow> bool" where
  "safe_id s \<longleftrightarrow> s \<noteq> [] \<and> list_all safe_id_char s"

definition ValidateIdentityParams :: "string \<Rightarrow> string \<Rightarrow> service_error option" where
  "ValidateIdentityParams groupID ownerUserID =
     (if groupID = [] then Some GroupRequired
      else if \<not> safe_id groupID then Some GroupInvalid
      else if ownerUserID = [] then Some OwnerRequired
      else if \<not> safe_id ownerUserID then Some OwnerInvalid
      else None)"

definition validateVMID :: "string \<Rightarrow> service_error option" where
  "validateVMID vmID = (if vmID = [] then Some VMIDRequired else if \<not> safe_id vmID then Some VMIDInvalid else None)"

record WorkloadEntry =
  we_SpiffeID :: string
  we_ParentID :: string
  we_Selectors :: "string list"
  we_TTL :: int
  we_OwnerUserID :: string
  we_GroupID :: string
  we_WorkloadID :: string

definition container_name :: "Service \<Rightarrow> string" where
  "container_name s = (if sp_ContainerName (sv_cfg s) = [] then ''spire-server'' else sp_ContainerName (sv_cfg s))"

definition RegisterWorkload :: "'h xrunner \<Rightarrow> Service \<Rightarrow> WorkloadEntry \<Rightarrow> ('h, service_error option) comp" where
  "RegisterWorkload xrun s entry =
     (if \<not> sv_enabled s then State_Monad.return None
      else do {
        (ok, out) \<leftarrow> xrun ([''docker'', ''exec'', container_name s, ''/opt/spire/bin/spire-server'', ''entry'', ''create'',
            ''-spiffeID'', we_SpiffeID entry, ''-parentID'', we_ParentID entry, ''-ttl'', itoa (we_TTL entry)]
            @ concat (map (\<lambda>sel. [''-selector'', sel]) (we_Selectors entry)));
        State_Monad.return (if \<not> ok \<and> \<not> contains out ''already exists'' then Some CreateFailed else None) })"

text \<open>The first match of \<open>Entry ID\s*:\s*([a-f0-9-]+)\<close>: the run behind the first place where the pattern fits.\<close>

definition entry_id_here :: "string \<Rightarrow> string option" where
  "entry_id_here s =
     (if \<not> has_prefix s ''Entry ID'' then None
      else let r = dropWhile is_space (drop 8 s) in
        if \<not> has_prefix r '':'' then None
        else let i = takeWhile (\<lambda>c. let n = of_char c :: nat in 97 \<le> n \<and> n \<le> 102 \<or> 48 \<le> n \<and> n \<le> 57 \<or> c = CHR ''-'') (dropWhile is_space (tl r)) in
          if i = [] then None else Some i)"

fun find_entry_id :: "string \<Rightarrow> string option" where
  "find_entry_id [] = None"
| "find_entry_id (c # s) = (case entry_id_here (c # s) of Some i \<Rightarrow> Some i | None \<Rightarrow> find_entry_id s)"

definition UnregisterWorkload :: "'h xrunner \<Rightarrow> Service \<Rightarrow> string \<Rightarrow> ('h, service_error option) comp" where
  "UnregisterWorkload xrun s spiffeID =
     (if \<not> sv_enabled s then State_Monad.return None
      else do {
        (ok, out) \<leftarrow> xrun [''docker'', ''exec'', container_name s, ''/opt/spire/bin/spire-server'', ''entry'', ''show'', ''-spiffeID'', spiffeID];
        if \<not> ok then State_Monad.return None
        else case find_entry_id out of
          None \<Rightarrow> State_Monad.return None
        | Some entryID \<Rightarrow> do {
            (ok, out) \<leftarrow> xrun [''docker'', ''exec'', container_name s, ''/opt/spire/bin/spire-server'', ''entry'', ''delete'', ''-entryID'', entryID];
            State_Monad.return (if ok then None else Some DeleteFailed) }})"

definition CreateVMWorkloadEntry :: "'h xrunner \<Rightarrow> Service \<Rightarrow> string \<Rightarrow> string \<Rightarrow> string \<Rightarrow> ('h, service_error + string) comp" where
  "CreateVMWorkloadEntry xrun s vmID groupID ownerUserID =
     (if \<not> sv_enabled s then State_Monad.return (Inr [])
      else case ValidateIdentityParams groupID ownerUserID of Some e \<Rightarrow> State_Monad.return (Inl e)
      | None \<Rightarrow> (case validateVMID vmID of Some e \<Rightarrow> State_Monad.return (Inl e)
      | None \<Rightarrow> (case validateTrustDomain s of Some e \<Rightarrow> State_Monad.return (Inl e)
      | None \<Rightarrow> do {
          let spiffeID = BuildSPIFFEID s groupID ownerUserID vmID;
          e \<leftarrow> RegisterWorkload xrun s \<lparr>we_SpiffeID = spiffeID, we_ParentID = sp_ParentID (sv_cfg s),
            we_Selectors = [''docker:label:vm_id:'' @ vmID], we_TTL = sp_DefaultTTL (sv_cfg s), we_OwnerUserID = ownerUserID,
            we_GroupID = groupID, we_WorkloadID = vmID\<rparr>;
          State_Monad.return (case e of Some e \<Rightarrow> Inl e | None \<Rightarrow> Inr spiffeID) })))"

definition DeleteVMWorkloadEntry :: "'h xrunner \<Rightarrow> Service \<Rightarrow> string \<Rightarrow> ('h, service_error option) comp" where
  "DeleteVMWorkloadEntry xrun s spiffeID =
     (if \<not> sv_enabled s \<or> spiffeID = [] then State_Monad.return None
      else UnregisterWorkload xrun s spiffeID)"

text \<open>The service as the registrar of the handlers.\<close>

definition spire_registrar :: "'h xrunner \<Rightarrow> Service \<Rightarrow> 'h spireRegistrar" where
  "spire_registrar xrun s =
    \<lparr>sr_IsEnabled = sv_enabled s,
     sr_ValidateIdentityParams = (\<lambda>g u. ValidateIdentityParams g u = None),
     sr_CreateVMWorkloadEntry = (\<lambda>vm g u. do {
       r \<leftarrow> CreateVMWorkloadEntry xrun s vm g u;
       State_Monad.return (case r of Inl _ \<Rightarrow> None | Inr i \<Rightarrow> Some i) }),
     sr_DeleteVMWorkloadEntry = (\<lambda>i. do {
       e \<leftarrow> DeleteVMWorkloadEntry xrun s i;
       State_Monad.return (e = None) })\<rparr>"

subsection \<open>Identifiers do not collide\<close>

lemma safe_id_no_slash: "safe_id s \<Longrightarrow> CHR ''/'' \<notin> set s"
  by (auto simp: safe_id_def list_all_iff safe_id_char_def)

lemma append_sep_inj:
  assumes "d \<notin> set a" "d \<notin> set b" and "a @ d # x = b @ d # y"
  shows "a = b \<and> x = y"
  using assms by (induction a arbitrary: b) (auto simp: Cons_eq_append_conv)

lemma BuildSPIFFEID_inj:
  assumes "safe_id g" "safe_id g'" "safe_id u" "safe_id u'" and "BuildSPIFFEID s g u v = BuildSPIFFEID s g' u' v'"
  shows "g = g' \<and> u = u' \<and> v = v'"
proof -
  let ?w = "''/w/'' @ workload_type s @ ''/''"
  have "g @ CHR ''/'' # ''u/'' @ u @ ?w @ v = g' @ CHR ''/'' # ''u/'' @ u' @ ?w @ v'" using assms(5) by (simp add: BuildSPIFFEID_def)
  then have g: "g = g'" and "''u/'' @ u @ ?w @ v = ''u/'' @ u' @ ?w @ v'"
    using append_sep_inj [OF safe_id_no_slash safe_id_no_slash] assms(1,2) by blast+
  then have "u @ CHR ''/'' # ''w/'' @ workload_type s @ ''/'' @ v = u' @ CHR ''/'' # ''w/'' @ workload_type s @ ''/'' @ v'" by simp
  then have "u = u'" and "''w/'' @ workload_type s @ ''/'' @ v = ''w/'' @ workload_type s @ ''/'' @ v'"
    using append_sep_inj [OF safe_id_no_slash safe_id_no_slash] assms(3,4) by blast+
  with g show ?thesis by simp
qed

lemma created_params:
  assumes "run_state (CreateVMWorkloadEntry xrun s v g u) h = (Inr i, h')" and "sv_enabled s"
  shows "i = BuildSPIFFEID s g u v \<and> safe_id g \<and> safe_id u \<and> safe_id v \<and> validateTrustDomain s = None"
  using assms by (auto simp: CreateVMWorkloadEntry_def ValidateIdentityParams_def validateVMID_def Let_def split: option.splits if_splits prod.splits)

text \<open>C18. The identities that the service registers for machines with distinct, bounded identifiers pass the check of
  credential isolation, whatever groups and owners they have: no two machines share a SPIFFE ID.\<close>

theorem registered_identities_distinct:
  assumes "list_all (\<lambda>(v, g, u, i). \<exists>h h'. run_state (CreateVMWorkloadEntry xrun s v g u) h = (Inr i, h')) ms"
    and "sv_enabled s" and "distinct (map fst ms)" and "list_all (\<lambda>m. length (fst m) \<le> maxVMIDLen) ms"
  shows "identities_distinct (map (\<lambda>(v, g, u, i). \<lparr>vi_VMID = v, vi_SpiffeID = i\<rparr>) ms)"
proof -
  have created: "i = BuildSPIFFEID s g u v \<and> safe_id g \<and> safe_id u \<and> safe_id v" if "(v, g, u, i) \<in> set ms" for v g u i
  proof -
    from assms(1) that obtain h h' where "run_state (CreateVMWorkloadEntry xrun s v g u) h = (Inr i, h')" by (auto simp: list_all_iff)
    from created_params [OF this assms(2)] show ?thesis by simp
  qed
  have "ValidateVMID v = None" if "(v, g, u, i) \<in> set ms" for v g u i
    using created [OF that] that assms(4) by (auto simp: ValidateVMID_def safe_id_def list_all_iff)
  moreover have "distinct (map (\<lambda>(v, g, u, i). i) ms)"
    unfolding distinct_map
  proof
    show "distinct ms" using assms(3) by (simp add: distinct_map)
    show "inj_on (\<lambda>(v, g, u, i). i) (set ms)"
    proof (rule inj_onI)
      fix x y assume xy: "x \<in> set ms" "y \<in> set ms" "(\<lambda>(v, g, u, i). i) x = (\<lambda>(v, g, u, i). i) y"
      obtain v g u i where x: "x = (v, g, u, i)" by (cases x)
      obtain v' g' u' i' where y: "y = (v', g', u', i')" by (cases y)
      have "i = i'" using xy(3) x y by simp
      with created [of v g u i] created [of v' g' u' i'] xy(1,2) x y have "g = g' \<and> u = u' \<and> v = v'"
        using BuildSPIFFEID_inj [of g g' u u' s v v'] by metis
      with \<open>i = i'\<close> x y show "x = y" by simp
    qed
  qed
  then have "distinct (map (vi_SpiffeID \<circ> (\<lambda>(v, g, u, i). \<lparr>vi_VMID = v, vi_SpiffeID = i\<rparr>)) ms)"
    by (simp add: comp_def case_prod_unfold)
  moreover have "distinct (map (vi_VMID \<circ> (\<lambda>(v, g, u, i). \<lparr>vi_VMID = v, vi_SpiffeID = i\<rparr>)) ms)"
    using assms(3) by (simp add: comp_def case_prod_unfold)
  ultimately show ?thesis by (auto simp: identities_distinct_def list_all_iff)
qed

definition demo_service :: Service where
  "demo_service = NewService \<lparr>sp_Enabled = True, sp_Required = False, sp_ServerSocket = [], sp_TrustDomain = ''d'', sp_ParentID = [], sp_WorkloadType = [],
     sp_DefaultTTL = 60, sp_VsockCID = 3, sp_VsockPort = 1, sp_AgentSocket = [], sp_ContainerName = []\<rparr>"

definition demo_docker :: "unit xrunner" where
  "demo_docker cmd = State_Monad.return (True, [])"

lemma demo_register:
  assumes "validateVMID v = None"
  shows "run_state (CreateVMWorkloadEntry demo_docker demo_service v ''x'' ''y'') () = (Inr (''spiffe://d/g/x/u/y/w/microvm/'' @ v), ())"
proof -
  have "validateTrustDomain demo_service = None" "ValidateIdentityParams ''x'' ''y'' = None" by code_simp+
  moreover have "BuildSPIFFEID demo_service ''x'' ''y'' v = ''spiffe://d/g/x/u/y/w/microvm/'' @ v"
    by (simp add: BuildSPIFFEID_def demo_service_def NewService_def workload_type_def normalizeTrustDomain_def trim_space_def to_lower_def lower_char_def is_space_def)
  ultimately show ?thesis using assms
    by (simp add: CreateVMWorkloadEntry_def RegisterWorkload_def demo_docker_def) (simp add: demo_service_def NewService_def)
qed

theorem registered_identities_distinct_witness:
  "identities_distinct [\<lparr>vi_VMID = ''a'', vi_SpiffeID = ''spiffe://d/g/x/u/y/w/microvm/a''\<rparr>, \<lparr>vi_VMID = ''b'', vi_SpiffeID = ''spiffe://d/g/x/u/y/w/microvm/b''\<rparr>]"
proof -
  let ?ms = "[(''a'', ''x'', ''y'', ''spiffe://d/g/x/u/y/w/microvm/a''), (''b'', ''x'', ''y'', ''spiffe://d/g/x/u/y/w/microvm/b'')]"
  have "validateVMID ''a'' = None" "validateVMID ''b'' = None" by code_simp+
  then have "list_all (\<lambda>(v, g, u, i). \<exists>h h'. run_state (CreateVMWorkloadEntry demo_docker demo_service v g u) h = (Inr i, h')) ?ms"
    using demo_register [of "''a''"] demo_register [of "''b''"] by auto
  from registered_identities_distinct [OF this] show ?thesis by (simp add: maxVMIDLen_def demo_service_def NewService_def)
qed

subsection \<open>Registered identities are well-formed\<close>

text \<open>What the documentation of \<open>url.Parse\<close> gives for a URL made of plain characters only.\<close>

definition plain_char :: "char \<Rightarrow> bool" where
  "plain_char c \<longleftrightarrow> safe_id_char c \<or> c = CHR ''.''"

definition parses_plain :: "uri_parser \<Rightarrow> bool" where
  "parses_plain Parse \<longleftrightarrow> (\<forall>host path. list_all plain_char host \<longrightarrow> list_all (\<lambda>c. plain_char c \<or> c = CHR ''/'') path \<longrightarrow>
     Parse (''spiffe://'' @ host @ ''/'' @ path) =
       Some \<lparr>ui_Scheme = ''spiffe'', ui_User = False, ui_RawQuery = [], ui_Fragment = [], ui_Host = host, ui_Path = ''/'' @ path\<rparr>)"

lemma plain_chars: "plain_char c \<Longrightarrow> c \<noteq> CHR ''%'' \<and> c \<noteq> CHR '':'' \<and> c \<noteq> CHR ''['' \<and> c \<noteq> CHR ''/''"
  by (auto simp: plain_char_def safe_id_char_def)

lemma safe_plain: "safe_id s \<Longrightarrow> list_all plain_char s"
  by (auto simp: safe_id_def list_all_iff plain_char_def)

lemma join_split_on: "join [d] (split_on d s) = s"
proof (induction s)
  case (Cons c s)
  obtain x xs where "split_on d s = x # xs" by (cases "split_on d s") auto
  with Cons show ?case by (cases xs) auto
qed simp

lemma trust_domain_plain:
  assumes "isValidTrustDomain td"
  shows "list_all plain_char td"
proof -
  have "list_all plain_char (join ''.'' ls)" if "\<forall>l \<in> set ls. trust_label l" for ls
    using that by (induction ls) (auto simp: join_Cons trust_label_def list_all_iff plain_char_def safe_id_char_def lower_alnum_def Let_def)
  moreover have "join ''.'' (split_on CHR ''.'' td) = td"
    by (rule join_split_on)
  moreover have "\<forall>l \<in> set (split_on CHR ''.'' td). trust_label l" using assms by (auto simp: isValidTrustDomain_def list_all_iff split: if_splits)
  ultimately show ?thesis by metis
qed

lemma split_host_plain: "list_all plain_char h \<Longrightarrow> split_host_port h = (h, [])"
proof -
  assume h: "list_all plain_char h"
  then have colon: "CHR '':'' \<notin> set h" using plain_chars by (auto simp: list_all_iff)
  then have "dropWhile (\<lambda>c. c \<noteq> CHR '':'') (rev h) = []" by (auto simp: dropWhile_eq_Nil_conv)
  moreover have "h = [] \<or> hd h \<noteq> CHR ''[''" using h plain_chars by (cases h) auto
  ultimately show ?thesis by (auto simp: split_host_port_def Let_def simp del: dropWhile_eq_Nil_conv)
qed

lemma check_segments_ok: "\<forall>x \<in> set xs. path_segment x \<and> x \<noteq> ''.'' \<and> x \<noteq> ''..'' \<Longrightarrow> check_segments xs = None"
  by (induction xs) (auto simp: path_segment_def)

lemma safe_segment_id: "safe_id x \<Longrightarrow> path_segment x \<and> x \<noteq> ''.'' \<and> x \<noteq> ''..''"
  by (auto simp: safe_id_def path_segment_def list_all_iff safe_id_char_def)

text \<open>C19. A SPIFFE ID that the service registers satisfies the grammar that the SVID side enforces, provided that the configured
  workload type is a path segment and the ID is not longer than 2048 bytes.\<close>

theorem registered_identity_valid:
  assumes "run_state (CreateVMWorkloadEntry xrun s v g u) h = (Inr i, h')" and "sv_enabled s"
    and "path_segment (workload_type s)" and "workload_type s \<noteq> ''.''" and "workload_type s \<noteq> ''..''"
    and "length i \<le> 2048" and "parses_plain Parse"
  shows "svid_validateSPIFFEID Parse i = None"
proof -
  let ?td = "normalizeTrustDomain (sp_TrustDomain (sv_cfg s))"
  let ?segs = "[''g'', g, ''u'', u, ''w'', workload_type s, v]"
  have i: "i = BuildSPIFFEID s g u v" and safe: "safe_id g" "safe_id u" "safe_id v" and td: "isValidTrustDomain ?td" "?td \<noteq> []"
    using created_params [OF assms(1,2)] by (auto simp: validateTrustDomain_def Let_def split: if_splits)
  have segs: "\<forall>x \<in> set ?segs. path_segment x \<and> x \<noteq> ''.'' \<and> x \<noteq> ''..''"
    using safe [THEN safe_segment_id] assms(3-5) by (auto simp: path_segment_def safe_id_char_def)
  have path: "i = ''spiffe://'' @ ?td @ ''/'' @ join ''/'' ?segs" by (simp add: i BuildSPIFFEID_def)
  have noslash: "\<forall>x \<in> set ?segs. CHR ''/'' \<notin> set x"
    using segs by (auto simp: path_segment_def list_all_iff dest!: bspec plain_chars [unfolded plain_char_def])
  have chars: "list_all (\<lambda>c. plain_char c \<or> c = CHR ''/'') (join ''/'' ?segs)"
    using segs by (auto simp: path_segment_def list_all_iff plain_char_def safe_id_char_def)
  have "Parse i = Some \<lparr>ui_Scheme = ''spiffe'', ui_User = False, ui_RawQuery = [], ui_Fragment = [], ui_Host = ?td, ui_Path = ''/'' @ join ''/'' ?segs\<rparr>"
    using assms(7) trust_domain_plain [OF td(1)] chars unfolding parses_plain_def path by blast
  moreover have "\<not> contains i ''%''"
  proof
    assume "contains i ''%''"
    then have "CHR ''%'' \<in> set i" by (auto simp: contains_iff)
    with chars trust_domain_plain [OF td(1)] show False unfolding path
      by (auto simp: list_all_iff dest: plain_chars)
  qed
  moreover have "split_on CHR ''/'' (join ''/'' ?segs) = ?segs" by (rule split_on_join) (use noslash in simp_all)
  moreover have "i \<noteq> []" "join ''/'' ?segs \<noteq> []" by (simp_all add: path)
  ultimately show ?thesis using assms(6) td split_host_plain [OF trust_domain_plain [OF td(1)]] check_segments_ok [OF segs]
    by (simp add: svid_validateSPIFFEID_def Hostname_def Port_def Let_def del: join.simps)
qed

text \<open>A parser that reads the scheme, the host up to the first slash and the rest as the path.\<close>

definition demo_Parse :: uri_parser where
  "demo_Parse s = (if has_prefix s ''spiffe://'' then
     (let r = drop 9 s in Some \<lparr>ui_Scheme = ''spiffe'', ui_User = False, ui_RawQuery = [], ui_Fragment = [],
        ui_Host = takeWhile (\<lambda>c. c \<noteq> CHR ''/'') r, ui_Path = dropWhile (\<lambda>c. c \<noteq> CHR ''/'') r\<rparr>) else None)"

lemma demo_parses_plain: "parses_plain demo_Parse"
proof -
  have "takeWhile (\<lambda>c. c \<noteq> CHR ''/'') (h @ CHR ''/'' # p) = h \<and> dropWhile (\<lambda>c. c \<noteq> CHR ''/'') (h @ CHR ''/'' # p) = CHR ''/'' # p"
    if "list_all plain_char h" for h p
    using that by (induction h) (auto dest: plain_chars)
  then show ?thesis by (auto simp: parses_plain_def demo_Parse_def has_prefix_def)
qed

theorem registered_identity_valid_witness:
  "svid_validateSPIFFEID demo_Parse ''spiffe://d/g/x/u/y/w/microvm/a'' = None"
proof -
  have v: "validateVMID ''a'' = None" by code_simp
  have "workload_type demo_service = ''microvm''" by (simp add: demo_service_def NewService_def workload_type_def)
  moreover have "path_segment ''microvm''" by code_simp
  moreover have "sv_enabled demo_service" by (simp add: demo_service_def NewService_def)
  ultimately show ?thesis using registered_identity_valid [OF demo_register [OF v], of demo_Parse] demo_parses_plain by simp
qed

end
