(* ===== verification/Spire_Svid.thy ===== *)
theory Spire_Svid
  imports Spire_Service
begin

section \<open>Identity documents (internal/spire/svid.go)\<close>

text \<open>
  An X.509-SVID with its checks and its document on disk. A certificate is a record of the fields that the source reads; a nil pointer in a
  chain is \<open>None\<close>. Keys and public keys are arbitrary types. What belongs to Go's library is a parameter: comparing keys,
  verifying a chain, PEM, DER, JSON and the text form of times. Times are nanoseconds.
\<close>

record 'p x509 =
  cx_NotBefore :: int
  cx_NotAfter :: int
  cx_IsCA :: bool
  cx_BasicConstraintsValid :: bool
  cx_URIs :: "string list"
  cx_KeyUsage :: "64 word"
  cx_ExtKeyUsage :: "int list"
  cx_UnknownExtKeyUsage :: "nat list list"
  cx_Extensions :: "(nat list \<times> bool) list"
  cx_PublicKey :: 'p
  cx_Raw :: string

definition oidKeyUsage :: "nat list" where "oidKeyUsage = [2, 5, 29, 15]"
definition KeyUsageDigitalSignature :: "64 word" where "KeyUsageDigitalSignature = 1"
definition KeyUsageCertSign :: "64 word" where "KeyUsageCertSign = 32"
definition KeyUsageCRLSign :: "64 word" where "KeyUsageCRLSign = 64"
definition ExtKeyUsageServerAuth :: int where "ExtKeyUsageServerAuth = 1"
definition ExtKeyUsageClientAuth :: int where "ExtKeyUsageClientAuth = 2"

definition svidDocPath :: string where "svidDocPath = ''/var/run/secrets/spiffe/svid.json''"

record ('k, 'p) SVID =
  sd_ID :: string
  sd_Certificates :: "'p x509 option list"
  sd_PrivateKey :: "'k option"
  sd_Bundle :: "'p x509 option list"
  sd_IssuedAt :: int
  sd_ExpiresAt :: int

record Document =
  do_SpiffeID :: string
  do_X509SVID :: string
  do_X509SVIDKey :: string
  do_Bundle :: string
  do_IssuedAt :: string
  do_ExpiresAt :: string

text \<open>The library: the public half of a key, \<open>None\<close> when it cannot be compared; verification of a leaf with roots, intermediates, time and
  usage; DER of keys and certificates; one PEM block; JSON; times in the form RFC 3339.\<close>

record ('k, 'p) crypto =
  cy_Public :: "'k \<Rightarrow> 'p option"
  cy_Verify :: "'p x509 \<Rightarrow> 'p x509 list \<Rightarrow> 'p x509 list \<Rightarrow> int \<Rightarrow> int \<Rightarrow> bool"
  cy_MarshalPKCS8 :: "'k \<Rightarrow> string option"
  cy_ParsePKCS8 :: "string \<Rightarrow> 'k option"
  cy_ParseCertificate :: "string \<Rightarrow> 'p x509 option"
  cy_PEMEncode :: "string \<Rightarrow> string \<Rightarrow> string"
  cy_PEMDecode :: "string \<Rightarrow> ((string \<times> string) \<times> string) option"
  cy_MarshalJSON :: "Document \<Rightarrow> string"
  cy_UnmarshalJSON :: "string \<Rightarrow> Document option"
  cy_FormatTime :: "int \<Rightarrow> string"
  cy_ParseTime :: "string \<Rightarrow> int option"
  cy_ParseURL :: uri_parser

datatype svid_error =
    BadID spiffe_error | EmptyChain | NilCertificate nat | EmptyBundle | NoPrivateKey | NilBundleEntry nat
  | WindowEmpty | ExpiresAfterChain | IssuedBeforeLeaf | BundleNotCA nat
  | URIMismatch | NoBasicConstraints | LeafIsCA | NoCriticalKeyUsage | NoDigitalSignature | SigningUsage | MissingEKU
  | KeyNotComparable | KeyMismatch | NotYetValid | Expired | ChainFailed int
  | KeyEncoding | BadJSON | BadCertificates | BadBundle | BadKey | BadTime

subsection \<open>Validation\<close>

fun nil_from :: "nat \<Rightarrow> 'a option list \<Rightarrow> nat option" where
  "nil_from i [] = None"
| "nil_from i (c # cs) = (if c = None then Some i else nil_from (Suc i) cs)"

definition firstNilCert :: "'a option list \<Rightarrow> nat option" where
  "firstNilCert certs = nil_from 0 certs"

definition entries :: "'a option list \<Rightarrow> 'a list" where
  "entries xs = List.map_filter (\<lambda>x. x) xs"

definition effective_expiry :: "int \<Rightarrow> 'p x509 list \<Rightarrow> int" where
  "effective_expiry e certs = foldl (\<lambda>e c. if cx_NotAfter c < e then cx_NotAfter c else e) e certs"

definition validateWindow :: "('k, 'p) SVID \<Rightarrow> 'p x509 \<Rightarrow> svid_error option" where
  "validateWindow s leaf =
     (if \<not> sd_ExpiresAt s > sd_IssuedAt s then Some WindowEmpty
      else let effExpiry = effective_expiry (effective_expiry (cx_NotAfter leaf) (entries (sd_Certificates s))) (entries (sd_Bundle s)) in
        if sd_ExpiresAt s > effExpiry then Some ExpiresAfterChain
        else if sd_IssuedAt s < cx_NotBefore leaf then Some IssuedBeforeLeaf
        else None)"

fun bundle_from :: "nat \<Rightarrow> 'p x509 list \<Rightarrow> svid_error option" where
  "bundle_from i [] = None"
| "bundle_from i (c # cs) = (if \<not> cx_IsCA c then Some (BundleNotCA i) else bundle_from (Suc i) cs)"

definition validateBundle :: "('k, 'p) SVID \<Rightarrow> svid_error option" where
  "validateBundle s = bundle_from 0 (entries (sd_Bundle s))"

definition hasExtKeyUsage :: "'p x509 \<Rightarrow> int \<Rightarrow> bool" where
  "hasExtKeyUsage cert want = list_ex (\<lambda>eku. eku = want) (cx_ExtKeyUsage cert)"

definition hasCriticalExtension :: "'p x509 \<Rightarrow> nat list \<Rightarrow> bool" where
  "hasCriticalExtension cert oid = (case find (\<lambda>e. fst e = oid) (cx_Extensions cert) of None \<Rightarrow> False | Some e \<Rightarrow> snd e)"

definition validateLeafConstraints :: "'p x509 \<Rightarrow> string \<Rightarrow> svid_error option" where
  "validateLeafConstraints leaf i =
     (if length (cx_URIs leaf) \<noteq> 1 \<or> hd (cx_URIs leaf) \<noteq> i then Some URIMismatch
      else if \<not> cx_BasicConstraintsValid leaf then Some NoBasicConstraints
      else if cx_IsCA leaf then Some LeafIsCA
      else if \<not> hasCriticalExtension leaf oidKeyUsage then Some NoCriticalKeyUsage
      else if cx_KeyUsage leaf AND KeyUsageDigitalSignature = 0 then Some NoDigitalSignature
      else if cx_KeyUsage leaf AND (KeyUsageCertSign OR KeyUsageCRLSign) \<noteq> 0 then Some SigningUsage
      else if (length (cx_ExtKeyUsage leaf) > 0 \<or> length (cx_UnknownExtKeyUsage leaf) > 0)
           \<and> (\<not> hasExtKeyUsage leaf ExtKeyUsageClientAuth \<or> \<not> hasExtKeyUsage leaf ExtKeyUsageServerAuth) then Some MissingEKU
      else None)"

definition keyMatchesLeaf :: "('k, 'p) crypto \<Rightarrow> 'k option \<Rightarrow> 'p x509 \<Rightarrow> svid_error option" where
  "keyMatchesLeaf C key leaf =
     (case key of None \<Rightarrow> Some NoPrivateKey
      | Some k \<Rightarrow> (case cy_Public C k of None \<Rightarrow> Some KeyNotComparable
          | Some pub \<Rightarrow> if pub \<noteq> cx_PublicKey leaf then Some KeyMismatch else None))"

definition SVID_Validate :: "('k, 'p) crypto \<Rightarrow> ('k, 'p) SVID \<Rightarrow> svid_error option" where
  "SVID_Validate C s =
     (case svid_validateSPIFFEID (cy_ParseURL C) (sd_ID s) of Some e \<Rightarrow> Some (BadID e)
      | None \<Rightarrow>
        if length (sd_Certificates s) = 0 then Some EmptyChain
        else case firstNilCert (sd_Certificates s) of Some i \<Rightarrow> Some (NilCertificate i)
        | None \<Rightarrow>
          if length (sd_Bundle s) = 0 then Some EmptyBundle
          else if sd_PrivateKey s = None then Some NoPrivateKey
          else case firstNilCert (sd_Bundle s) of Some i \<Rightarrow> Some (NilBundleEntry i)
          | None \<Rightarrow> (let leaf = hd (entries (sd_Certificates s)) in
            case validateWindow s leaf of Some e \<Rightarrow> Some e
            | None \<Rightarrow> (case validateBundle s of Some e \<Rightarrow> Some e
              | None \<Rightarrow> (case validateLeafConstraints leaf (sd_ID s) of Some e \<Rightarrow> Some e
                | None \<Rightarrow> keyMatchesLeaf C (sd_PrivateKey s) leaf))))"

definition SVID_Verify :: "('k, 'p) crypto \<Rightarrow> ('k, 'p) SVID \<Rightarrow> int \<Rightarrow> svid_error option" where
  "SVID_Verify C s now =
     (case SVID_Validate C s of Some e \<Rightarrow> Some e
      | None \<Rightarrow>
        if now < sd_IssuedAt s then Some NotYetValid
        else if \<not> now < sd_ExpiresAt s then Some Expired
        else let leaf = hd (entries (sd_Certificates s)); roots = entries (sd_Bundle s); intermediates = tl (entries (sd_Certificates s)) in
          if \<not> cy_Verify C leaf roots intermediates now ExtKeyUsageClientAuth then Some (ChainFailed ExtKeyUsageClientAuth)
          else if \<not> cy_Verify C leaf roots intermediates now ExtKeyUsageServerAuth then Some (ChainFailed ExtKeyUsageServerAuth)
          else None)"

subsection \<open>Documents\<close>

definition encodeCertsPEM :: "('k, 'p) crypto \<Rightarrow> 'p x509 list \<Rightarrow> string" where
  "encodeCertsPEM C certs = concat (map (\<lambda>c. cy_PEMEncode C ''CERTIFICATE'' (cx_Raw c)) certs)"

definition SVID_Document :: "('k, 'p) crypto \<Rightarrow> ('k, 'p) SVID \<Rightarrow> svid_error + Document" where
  "SVID_Document C s =
     (case SVID_Validate C s of Some e \<Rightarrow> Inl e
      | None \<Rightarrow> (case Option.bind (sd_PrivateKey s) (cy_MarshalPKCS8 C) of None \<Rightarrow> Inl KeyEncoding
        | Some keyDER \<Rightarrow> Inr \<lparr>do_SpiffeID = sd_ID s, do_X509SVID = encodeCertsPEM C (entries (sd_Certificates s)),
            do_X509SVIDKey = cy_PEMEncode C ''PRIVATE KEY'' keyDER, do_Bundle = encodeCertsPEM C (entries (sd_Bundle s)),
            do_IssuedAt = cy_FormatTime C (sd_IssuedAt s), do_ExpiresAt = cy_FormatTime C (sd_ExpiresAt s)\<rparr>))"

definition MarshalDocument :: "('k, 'p) crypto \<Rightarrow> ('k, 'p) SVID \<Rightarrow> svid_error + string" where
  "MarshalDocument C s = (case SVID_Document C s of Inl e \<Rightarrow> Inl e | Inr doc \<Rightarrow> Inr (cy_MarshalJSON C doc))"

text \<open>The loop over PEM blocks ends because \<open>pem.Decode\<close> returns a shorter rest; a decoder that does not would end the loop of the model.\<close>

function decode_blocks :: "('k, 'p) crypto \<Rightarrow> string \<Rightarrow> 'p x509 list \<Rightarrow> 'p x509 list option" where
  "decode_blocks C data certs =
     (case cy_PEMDecode C data of None \<Rightarrow> Some certs
      | Some ((ty, bs), rest) \<Rightarrow>
          if \<not> length rest < length data then Some certs
          else if ty \<noteq> ''CERTIFICATE'' then decode_blocks C rest certs
          else case cy_ParseCertificate C bs of None \<Rightarrow> None
          | Some c \<Rightarrow> decode_blocks C rest (certs @ [c]))"
  by pat_completeness auto
termination by (relation "measure (\<lambda>(C, data, certs). length data)") auto

declare decode_blocks.simps [simp del]

definition decodeCertsPEM :: "('k, 'p) crypto \<Rightarrow> string \<Rightarrow> 'p x509 list option" where
  "decodeCertsPEM C data = (case decode_blocks C data [] of None \<Rightarrow> None | Some certs \<Rightarrow> if length certs = 0 then None else Some certs)"

definition decodeKeyPEM :: "('k, 'p) crypto \<Rightarrow> string \<Rightarrow> 'k option" where
  "decodeKeyPEM C data =
     (case cy_PEMDecode C data of None \<Rightarrow> None
      | Some ((ty, bs), rest) \<Rightarrow>
          if length (trim_space rest) \<noteq> 0 then None
          else if ty \<noteq> ''PRIVATE KEY'' then None
          else cy_ParsePKCS8 C bs)"

definition ParseDocument :: "('k, 'p) crypto \<Rightarrow> string \<Rightarrow> svid_error + ('k, 'p) SVID" where
  "ParseDocument C data =
     (case cy_UnmarshalJSON C data of None \<Rightarrow> Inl BadJSON
      | Some doc \<Rightarrow> (case decodeCertsPEM C (do_X509SVID doc) of None \<Rightarrow> Inl BadCertificates
      | Some certs \<Rightarrow> (case decodeCertsPEM C (do_Bundle doc) of None \<Rightarrow> Inl BadBundle
      | Some bundle \<Rightarrow> (case decodeKeyPEM C (do_X509SVIDKey doc) of None \<Rightarrow> Inl BadKey
      | Some key \<Rightarrow> (case cy_ParseTime C (do_IssuedAt doc) of None \<Rightarrow> Inl BadTime
      | Some issuedAt \<Rightarrow> (case cy_ParseTime C (do_ExpiresAt doc) of None \<Rightarrow> Inl BadTime
      | Some expiresAt \<Rightarrow>
          let svid = \<lparr>sd_ID = do_SpiffeID doc, sd_Certificates = map Some certs, sd_PrivateKey = Some key, sd_Bundle = map Some bundle,
             sd_IssuedAt = issuedAt, sd_ExpiresAt = expiresAt\<rparr> in
          case SVID_Validate C svid of Some e \<Rightarrow> Inl e | None \<Rightarrow> Inr svid))))))"

subsection \<open>What verification establishes\<close>

lemma nil_from_None: "nil_from i xs = None \<longleftrightarrow> None \<notin> set xs"
  by (induction i xs rule: nil_from.induct) auto

lemma entries_all: "None \<notin> set xs \<Longrightarrow> map Some (entries xs) = xs"
proof (induction xs)
  case (Cons x xs)
  then show ?case by (cases x) (simp_all add: entries_def map_filter_simps)
qed (simp add: entries_def map_filter_simps)

lemma entries_Some [simp]: "entries (map Some xs) = xs"
  by (induction xs) (auto simp: entries_def map_filter_simps)

lemma effective_expiry_le: "effective_expiry e cs \<le> e \<and> (\<forall>c \<in> set cs. effective_expiry e cs \<le> cx_NotAfter c)"
proof (induction cs arbitrary: e)
  case (Cons c cs)
  let ?e = "if cx_NotAfter c < e then cx_NotAfter c else e"
  have "effective_expiry e (c # cs) = effective_expiry ?e cs" by (simp add: effective_expiry_def)
  moreover have "?e \<le> e" "?e \<le> cx_NotAfter c" by auto
  ultimately show ?case using Cons.IH [of ?e] by (metis order_trans set_ConsD)
qed (simp add: effective_expiry_def)

lemma bundle_from_None: "bundle_from i cs = None \<longleftrightarrow> list_all cx_IsCA cs"
  by (induction i cs rule: bundle_from.induct) auto

text \<open>An SVID that is good at a time: its parts are there, it is valid then, no certificate on its path expires before it does, the leaf
  carries exactly its SPIFFE ID, signs nothing and belongs to its key, the roots are authorities, and the chain verifies for both sides of TLS.\<close>

definition good_leaf :: "'p x509 \<Rightarrow> string \<Rightarrow> bool" where
  "good_leaf leaf i \<longleftrightarrow> cx_URIs leaf = [i] \<and> cx_BasicConstraintsValid leaf \<and> \<not> cx_IsCA leaf \<and> hasCriticalExtension leaf oidKeyUsage
     \<and> bit (cx_KeyUsage leaf) 0 \<and> \<not> bit (cx_KeyUsage leaf) 5 \<and> \<not> bit (cx_KeyUsage leaf) 6
     \<and> (cx_ExtKeyUsage leaf = [] \<and> cx_UnknownExtKeyUsage leaf = [] \<or> {ExtKeyUsageClientAuth, ExtKeyUsageServerAuth} \<subseteq> set (cx_ExtKeyUsage leaf))"

definition good_parts :: "('k, 'p) crypto \<Rightarrow> ('k, 'p) SVID \<Rightarrow> 'p x509 \<Rightarrow> 'p x509 list \<Rightarrow> 'p x509 list \<Rightarrow> 'k \<Rightarrow> bool" where
  "good_parts C s leaf rest roots k \<longleftrightarrow>
     sd_Certificates s = map Some (leaf # rest) \<and> sd_Bundle s = map Some roots \<and> roots \<noteq> []
     \<and> sd_PrivateKey s = Some k \<and> cy_Public C k = Some (cx_PublicKey leaf)
     \<and> sd_IssuedAt s < sd_ExpiresAt s \<and> cx_NotBefore leaf \<le> sd_IssuedAt s
     \<and> list_all (\<lambda>c. sd_ExpiresAt s \<le> cx_NotAfter c) (leaf # rest @ roots)
     \<and> svid_validateSPIFFEID (cy_ParseURL C) (sd_ID s) = None \<and> good_leaf leaf (sd_ID s) \<and> list_all cx_IsCA roots"

lemma key_usage_bits:
  fixes u :: "64 word"
  shows "u AND KeyUsageDigitalSignature = 0 \<longleftrightarrow> \<not> bit u 0" "u AND (KeyUsageCertSign OR KeyUsageCRLSign) = 0 \<longleftrightarrow> \<not> bit u 5 \<and> \<not> bit u 6"
proof -
  have single: "u AND push_bit n 1 = 0 \<longleftrightarrow> \<not> bit u n" if "n < 64" for n by (rule and_single_bit) (simp add: that)
  show "u AND KeyUsageDigitalSignature = 0 \<longleftrightarrow> \<not> bit u 0" using single [of 0] by (simp add: KeyUsageDigitalSignature_def)
  show "u AND (KeyUsageCertSign OR KeyUsageCRLSign) = 0 \<longleftrightarrow> \<not> bit u 5 \<and> \<not> bit u 6"
    unfolding bit.conj_disj_distrib or_eq_0_iff using single [of 5] single [of 6]
    by (simp add: KeyUsageCertSign_def KeyUsageCRLSign_def push_bit_eq_mult)
qed

lemma validateLeafConstraints_None: "validateLeafConstraints leaf i = None \<longleftrightarrow> good_leaf leaf i"
proof -
  have uri: "\<not> (length (cx_URIs leaf) \<noteq> 1 \<or> hd (cx_URIs leaf) \<noteq> i) \<longleftrightarrow> cx_URIs leaf = [i]"
    by (cases "cx_URIs leaf") auto
  show ?thesis unfolding validateLeafConstraints_def good_leaf_def uri [symmetric]
    by (auto simp: key_usage_bits hasExtKeyUsage_def list_ex_iff)
qed

lemma effective_expiry_ge: "x \<le> e \<Longrightarrow> \<forall>c \<in> set cs. x \<le> cx_NotAfter c \<Longrightarrow> x \<le> effective_expiry e cs"
  by (induction cs arbitrary: e) (auto simp: effective_expiry_def)

lemma validateWindow_None:
  assumes "sd_Certificates s = map Some (leaf # rest)" and "sd_Bundle s = map Some roots"
  shows "validateWindow s leaf = None \<longleftrightarrow> sd_IssuedAt s < sd_ExpiresAt s \<and> cx_NotBefore leaf \<le> sd_IssuedAt s
    \<and> list_all (\<lambda>c. sd_ExpiresAt s \<le> cx_NotAfter c) (leaf # rest @ roots)"
proof -
  let ?e1 = "effective_expiry (cx_NotAfter leaf) (leaf # rest)" and ?e = "effective_expiry (effective_expiry (cx_NotAfter leaf) (leaf # rest)) roots"
  have certs: "entries (sd_Certificates s) = leaf # rest" "entries (sd_Bundle s) = roots" using assms entries_Some by metis+
  have "sd_ExpiresAt s \<le> ?e \<longleftrightarrow> list_all (\<lambda>c. sd_ExpiresAt s \<le> cx_NotAfter c) (leaf # rest @ roots)"
  proof
    assume "sd_ExpiresAt s \<le> ?e"
    then show "list_all (\<lambda>c. sd_ExpiresAt s \<le> cx_NotAfter c) (leaf # rest @ roots)"
      using effective_expiry_le [of ?e1 roots] effective_expiry_le [of "cx_NotAfter leaf" "leaf # rest"] by (fastforce simp: list_all_iff)
  next
    assume "list_all (\<lambda>c. sd_ExpiresAt s \<le> cx_NotAfter c) (leaf # rest @ roots)"
    then show "sd_ExpiresAt s \<le> ?e" by (intro effective_expiry_ge) (auto simp: list_all_iff)
  qed
  then show ?thesis by (auto simp: validateWindow_def Let_def certs)
qed

lemma Validate_None: "SVID_Validate C s = None \<longleftrightarrow> (\<exists>leaf rest roots k. good_parts C s leaf rest roots k)"
proof (cases "None \<notin> set (sd_Certificates s) \<and> None \<notin> set (sd_Bundle s) \<and> sd_Certificates s \<noteq> [] \<and> sd_Bundle s \<noteq> []")
  case True
  have "map Some (entries (sd_Certificates s)) = sd_Certificates s" using True by (intro entries_all) simp
  moreover from this True obtain leaf rest where "entries (sd_Certificates s) = leaf # rest" by (cases "entries (sd_Certificates s)") auto
  ultimately have c: "sd_Certificates s = map Some (leaf # rest)" by simp
  obtain roots where b: "sd_Bundle s = map Some roots" using True entries_all by metis
  have leaf: "hd (entries (sd_Certificates s)) = leaf" "entries (sd_Bundle s) = roots" using c b entries_Some by (metis list.sel(1))+
  have "SVID_Validate C s = None \<longleftrightarrow> svid_validateSPIFFEID (cy_ParseURL C) (sd_ID s) = None \<and> validateWindow s leaf = None \<and> validateBundle s = None
      \<and> validateLeafConstraints leaf (sd_ID s) = None \<and> keyMatchesLeaf C (sd_PrivateKey s) leaf = None"
    using True by (auto simp: SVID_Validate_def firstNilCert_def nil_from_None [THEN iffD2] leaf Let_def keyMatchesLeaf_def split: option.splits)
  also have "\<dots> \<longleftrightarrow> (\<exists>k. good_parts C s leaf rest roots k)"
    unfolding validateWindow_None [OF c b] validateLeafConstraints_None validateBundle_def leaf bundle_from_None good_parts_def
    using c b True by (auto simp: keyMatchesLeaf_def split: option.splits)
  finally show ?thesis using c b by (auto simp: good_parts_def)
next
  case False
  then have "SVID_Validate C s \<noteq> None"
    using nil_from_None [of 0 "sd_Certificates s"] nil_from_None [of 0 "sd_Bundle s"] by (auto simp: SVID_Validate_def firstNilCert_def split: option.splits)
  moreover have "\<not> good_parts C s leaf rest roots k" for leaf rest roots k using False by (auto simp: good_parts_def)
  ultimately show ?thesis by blast
qed

text \<open>C20. \<open>Verify\<close> accepts an SVID at a time exactly when it is good then: complete, inside its window, which lies inside the life of every
  certificate on the path, with a leaf that carries its SPIFFE ID alone, may sign data and nothing else and belongs to the private key, with roots that
  are authorities, and with a chain that the library verifies for clients and for servers.\<close>

theorem Verify_iff_good:
  "SVID_Verify C s now = None \<longleftrightarrow> (\<exists>leaf rest roots k. good_parts C s leaf rest roots k \<and> sd_IssuedAt s \<le> now \<and> now < sd_ExpiresAt s
     \<and> cy_Verify C leaf roots rest now ExtKeyUsageClientAuth \<and> cy_Verify C leaf roots rest now ExtKeyUsageServerAuth)"
proof -
  have parts: "entries (sd_Certificates s) = leaf # rest \<and> entries (sd_Bundle s) = roots" if "good_parts C s leaf rest roots k" for leaf rest roots k
    using that entries_Some [of "leaf # rest"] entries_Some [of roots] by (simp add: good_parts_def)
  show ?thesis
  proof (cases "SVID_Validate C s")
    case None
    then obtain leaf rest roots k where good: "good_parts C s leaf rest roots k" by (auto simp: Validate_None)
    have "SVID_Verify C s now = None \<longleftrightarrow> sd_IssuedAt s \<le> now \<and> now < sd_ExpiresAt s
        \<and> cy_Verify C leaf roots rest now ExtKeyUsageClientAuth \<and> cy_Verify C leaf roots rest now ExtKeyUsageServerAuth"
      using None parts [OF good] by (auto simp: SVID_Verify_def Let_def)
    moreover have "leaf' = leaf \<and> rest' = rest \<and> roots' = roots" if "good_parts C s leaf' rest' roots' k'" for leaf' rest' roots' k'
      using parts [OF that] parts [OF good] by simp
    ultimately show ?thesis using good by blast
  next
    case (Some e)
    then have "\<not> good_parts C s leaf rest roots k" for leaf rest roots k using Validate_None [of C s] by auto
    with Some show ?thesis by (simp add: SVID_Verify_def)
  qed
qed

end
