(* ===== verification/Spire_Manager.thy ===== *)
theory Spire_Manager
  imports Spire_Svid
begin

section \<open>Rotation of identity documents (internal/spire/manager.go, credwrite_unix.go)\<close>

text \<open>
  The manager that fetches an SVID, verifies it, writes its document and renews both before they expire. The state has the directories of
  the host with their entries, the manager's fields, the readings of the clock, the newest first, and a history of all contents the directories ever had:
  a crash leaves one of these, and a reader that looks at any moment sees one of these. All answers of the host come from an arbitrary state, so
  any call may fail, the context may be cancelled between any two statements, and the path may name another directory at every call.
  The directory that a call has opened is fixed by its descriptor, a number here. SVIDs are values, so the copies of \<open>clone\<close>
  are the values themselves. Durations are nanoseconds; a difference of times saturates at 64 bits as in Go's library.
\<close>

subsection \<open>State and host\<close>

record cred_file =
  cf_Mode :: "32 word"
  cf_Data :: string

type_synonym directories = "nat \<Rightarrow> string \<rightharpoonup> cred_file"

datatype open_result = Opened nat | OpenMissing | OpenFailed

datatype manager_error =
    Cancelled | FetchFailed bool | NilSVID | Unverified svid_error | TooShort | Unrendered svid_error
  | MkdirFailed | DirOpen | DirStat | NotDirectory | InsecurePermissions | ForeignOwner
  | TempCreate | TempChmod | TempWrite | TempSync | TempClose | RenameFailed | DirSync | UnlinkFailed
  | NilContext | AlreadyStarted | StartUnreachable | StartInvalid manager_error | CurrentExpired

text \<open>The source of SVIDs answers with an error, of which it is known whether it wraps \<open>ErrSPIREUnavailable\<close>, or with a pointer.\<close>

record ('k, 'p, 'h) cred_os =
  co_Now :: "('h, int) comp"
  co_CtxErr :: "('h, bool) comp"
  co_Done :: "int \<Rightarrow> ('h, bool) comp"
  co_FetchSVID :: "('h, bool + ('k, 'p) SVID option) comp"
  co_MkdirAll :: "string \<Rightarrow> ('h, bool) comp"
  co_Open :: "string \<Rightarrow> ('h, open_result) comp"
  co_Fstat :: "nat \<Rightarrow> ('h, (32 word \<times> 32 word) option) comp"
  co_Geteuid :: "('h, int) comp"
  co_Unlink :: "nat \<Rightarrow> string \<Rightarrow> ('h, bool) comp"
  co_Create :: "nat \<Rightarrow> string \<Rightarrow> ('h, 32 word option) comp"
  co_Chmod :: "('h, bool) comp"
  co_Write :: "string \<Rightarrow> ('h, nat option) comp"
  co_Sync :: "('h, bool) comp"
  co_Close :: "('h, bool) comp"
  co_Rename :: "('h, bool) comp"
  co_FsyncDir :: "nat \<Rightarrow> ('h, bool) comp"

record ('k, 'p, 'h) svid_world =
  sw_dirs :: directories
  sw_seen :: "directories list"
  sw_opened :: "nat option"
  sw_readings :: "int list"
  sw_current :: "('k, 'p) SVID option"
  sw_started :: bool
  sw_loop :: bool
  sw_cancelled :: bool
  sw_host :: 'h

definition on_sw :: "('h, 'a) comp \<Rightarrow> (('k, 'p, 'h) svid_world, 'a) comp" where
  "on_sw m = zoom sw_host (\<lambda>h s. s\<lparr>sw_host := h\<rparr>) m"

text \<open>Every change of a directory enters the history.\<close>

definition set_entry :: "nat \<Rightarrow> string \<Rightarrow> cred_file option \<Rightarrow> (('k, 'p, 'h) svid_world, unit) comp" where
  "set_entry d n f = State_Monad.update (\<lambda>s.
     let D = (sw_dirs s)(d := (sw_dirs s d)(n := f)) in s\<lparr>sw_dirs := D, sw_seen := sw_seen s @ [D]\<rparr>)"

definition read_entry :: "nat \<Rightarrow> string \<Rightarrow> (('k, 'p, 'h) svid_world, cred_file option) comp" where
  "read_entry d n = do { s \<leftarrow> State_Monad.get; State_Monad.return (sw_dirs s d n) }"

definition clock_now :: "('k, 'p, 'h) cred_os \<Rightarrow> (('k, 'p, 'h) svid_world, int) comp" where
  "clock_now E = do {
     t \<leftarrow> on_sw (co_Now E);
     _ \<leftarrow> State_Monad.update (\<lambda>s. s\<lparr>sw_readings := t # sw_readings s\<rparr>);
     State_Monad.return t }"

text \<open>The context of the manager ends with its owner's, which the host decides, and for good when \<open>Stop\<close> cancels it. A deadline
  is one more way in which the host may end it.\<close>

definition ctx_err :: "('k, 'p, 'h) cred_os \<Rightarrow> (('k, 'p, 'h) svid_world, bool) comp" where
  "ctx_err E = do {
     b \<leftarrow> on_sw (co_CtxErr E);
     s \<leftarrow> State_Monad.get;
     State_Monad.return (b \<or> sw_cancelled s) }"

definition time_Sub :: "int \<Rightarrow> int \<Rightarrow> int" where
  "time_Sub t u = max (- (2 ^ 63)) (min (2 ^ 63 - 1) (t - u))"

subsection \<open>Files of a directory (credwrite_unix.go)\<close>

definition S_IFMT :: "32 word" where "S_IFMT = 0xF000"
definition S_IFDIR :: "32 word" where "S_IFDIR = 0x4000"

definition svidFileMode :: "32 word" where "svidFileMode = 0x100"

definition open_dir :: "('k, 'p, 'h) cred_os \<Rightarrow> string \<Rightarrow> (('k, 'p, 'h) svid_world, open_result) comp" where
  "open_dir E dir = do {
     r \<leftarrow> on_sw (co_Open E dir);
     _ \<leftarrow> State_Monad.update (\<lambda>s. s\<lparr>sw_opened := (case r of Opened d \<Rightarrow> Some d | _ \<Rightarrow> None)\<rparr>);
     State_Monad.return r }"

definition validateSVIDDirFD :: "('k, 'p, 'h) cred_os \<Rightarrow> nat \<Rightarrow> (('k, 'p, 'h) svid_world, manager_error option) comp" where
  "validateSVIDDirFD E dirFD = do {
     st \<leftarrow> on_sw (co_Fstat E dirFD);
     case st of None \<Rightarrow> State_Monad.return (Some DirStat)
     | Some (mode, uid) \<Rightarrow>
         if mode AND S_IFMT \<noteq> S_IFDIR then State_Monad.return (Some NotDirectory)
         else if mode AND 0x3F \<noteq> 0 then State_Monad.return (Some InsecurePermissions)
         else do {
           euid \<leftarrow> on_sw (co_Geteuid E);
           State_Monad.return (if euid \<ge> 0 \<and> uid \<noteq> word_of_int euid \<and> uid \<noteq> 0 then Some ForeignOwner else None) } }"

text \<open>\<open>unlinkat\<close>: a missing entry is an error of its own kind.\<close>

datatype unlink_result = Unlinked | NoEntry | UnlinkError

definition Unlinkat :: "('k, 'p, 'h) cred_os \<Rightarrow> nat \<Rightarrow> string \<Rightarrow> (('k, 'p, 'h) svid_world, unlink_result) comp" where
  "Unlinkat E d n = do {
     ok \<leftarrow> on_sw (co_Unlink E d n);
     f \<leftarrow> read_entry d n;
     if \<not> ok then State_Monad.return UnlinkError
     else if f = None then State_Monad.return NoEntry
     else do { _ \<leftarrow> set_entry d n None; State_Monad.return Unlinked } }"

text \<open>\<open>openat\<close> with \<open>O_CREAT\<close> and \<open>O_EXCL\<close>; the mode is the requested one without the bits of the umask.\<close>

definition Openat :: "('k, 'p, 'h) cred_os \<Rightarrow> nat \<Rightarrow> string \<Rightarrow> (('k, 'p, 'h) svid_world, bool) comp" where
  "Openat E d n = do {
     r \<leftarrow> on_sw (co_Create E d n);
     f \<leftarrow> read_entry d n;
     case r of None \<Rightarrow> State_Monad.return False
     | Some umask \<Rightarrow>
         if f \<noteq> None then State_Monad.return False
         else do { _ \<leftarrow> set_entry d n (Some \<lparr>cf_Mode = svidFileMode AND NOT umask, cf_Data = []\<rparr>); State_Monad.return True } }"

definition f_Chmod :: "('k, 'p, 'h) cred_os \<Rightarrow> nat \<Rightarrow> string \<Rightarrow> 32 word \<Rightarrow> (('k, 'p, 'h) svid_world, bool) comp" where
  "f_Chmod E d n mode = do {
     ok \<leftarrow> on_sw (co_Chmod E);
     f \<leftarrow> read_entry d n;
     _ \<leftarrow> (if ok then set_entry d n (map_option (\<lambda>f. f\<lparr>cf_Mode := mode\<rparr>) f) else State_Monad.return ());
     State_Monad.return ok }"

text \<open>A failing write may have written a part.\<close>

definition f_Write :: "('k, 'p, 'h) cred_os \<Rightarrow> nat \<Rightarrow> string \<Rightarrow> string \<Rightarrow> (('k, 'p, 'h) svid_world, bool) comp" where
  "f_Write E d n data = do {
     r \<leftarrow> on_sw (co_Write E data);
     f \<leftarrow> read_entry d n;
     _ \<leftarrow> set_entry d n (map_option (\<lambda>f. f\<lparr>cf_Data := cf_Data f @ (case r of None \<Rightarrow> data | Some k \<Rightarrow> take k data)\<rparr>) f);
     State_Monad.return (r = None) }"

definition Renameat :: "('k, 'p, 'h) cred_os \<Rightarrow> nat \<Rightarrow> string \<Rightarrow> string \<Rightarrow> (('k, 'p, 'h) svid_world, bool) comp" where
  "Renameat E d old new = do {
     ok \<leftarrow> on_sw (co_Rename E);
     f \<leftarrow> read_entry d old;
     if \<not> ok \<or> f = None then State_Monad.return False
     else do {
       _ \<leftarrow> State_Monad.update (\<lambda>s. let D = (sw_dirs s)(d := (sw_dirs s d)(old := None, new := f)) in s\<lparr>sw_dirs := D, sw_seen := sw_seen s @ [D]\<rparr>);
       State_Monad.return True } }"

definition temp_entry :: "string \<Rightarrow> string" where "temp_entry name = ''.'' @ name @ ''.tmp''"

definition fill_temp :: "('k, 'p, 'h) cred_os \<Rightarrow> nat \<Rightarrow> string \<Rightarrow> string \<Rightarrow> (('k, 'p, 'h) svid_world, manager_error option) comp" where
  "fill_temp E dirFD name data = do {
     let tmp = temp_entry name;
     let fail = (\<lambda>e. do { _ \<leftarrow> on_sw (co_Close E); _ \<leftarrow> Unlinkat E dirFD tmp; State_Monad.return (Some e) });
     ok \<leftarrow> f_Chmod E dirFD tmp svidFileMode;
     if \<not> ok then fail TempChmod else do {
     ok \<leftarrow> f_Write E dirFD tmp data;
     if \<not> ok then fail TempWrite else do {
     ok \<leftarrow> on_sw (co_Sync E);
     if \<not> ok then fail TempSync else do {
     ok \<leftarrow> on_sw (co_Close E);
     if \<not> ok then do { _ \<leftarrow> Unlinkat E dirFD tmp; State_Monad.return (Some TempClose) } else do {
     ok \<leftarrow> Renameat E dirFD tmp name;
     if \<not> ok then do { _ \<leftarrow> Unlinkat E dirFD tmp; State_Monad.return (Some RenameFailed) } else do {
     ok \<leftarrow> on_sw (co_FsyncDir E dirFD);
     State_Monad.return (if ok then None else Some DirSync) }}}}}}"

definition writeCredentialAtomic :: "('k, 'p, 'h) cred_os \<Rightarrow> string \<Rightarrow> string \<Rightarrow> string \<Rightarrow> (('k, 'p, 'h) svid_world, manager_error option) comp" where
  "writeCredentialAtomic E dir name data = do {
     r \<leftarrow> open_dir E dir;
     case r of Opened dirFD \<Rightarrow> do {
         e \<leftarrow> validateSVIDDirFD E dirFD;
         case e of Some e \<Rightarrow> State_Monad.return (Some e)
         | None \<Rightarrow> do {
             _ \<leftarrow> Unlinkat E dirFD (temp_entry name);
             ok \<leftarrow> Openat E dirFD (temp_entry name);
             if \<not> ok then State_Monad.return (Some TempCreate)
             else fill_temp E dirFD name data } }
     | _ \<Rightarrow> State_Monad.return (Some DirOpen) }"

definition removeCredential :: "('k, 'p, 'h) cred_os \<Rightarrow> string \<Rightarrow> string \<Rightarrow> (('k, 'p, 'h) svid_world, manager_error option) comp" where
  "removeCredential E dir name = do {
     r \<leftarrow> open_dir E dir;
     case r of OpenMissing \<Rightarrow> State_Monad.return None
     | OpenFailed \<Rightarrow> State_Monad.return (Some DirOpen)
     | Opened dirFD \<Rightarrow> do {
         e \<leftarrow> validateSVIDDirFD E dirFD;
         case e of Some e \<Rightarrow> State_Monad.return (Some e)
         | None \<Rightarrow> do {
             r \<leftarrow> Unlinkat E dirFD name;
             if r = UnlinkError then State_Monad.return (Some UnlinkFailed)
             else do {
               ok \<leftarrow> on_sw (co_FsyncDir E dirFD);
               State_Monad.return (if ok then None else Some DirSync) } } } }"

subsection \<open>The manager (manager.go)\<close>

record ManagerConfig =
  mg_HasSource :: bool
  mg_Path :: string
  mg_RefreshBefore :: int
  mg_RetryInterval :: int

record svid_Manager =
  sm_path :: string
  sm_refreshBefore :: int
  sm_retryInterval :: int

datatype config_failure = NoSource | PathNotAbsolute | TrailingSeparator | NoFilename

definition Minute :: int where "Minute = 60 * 10 ^ 9"
definition DefaultRefreshBefore :: int where "DefaultRefreshBefore = 15 * Minute"

definition last_element :: "string \<Rightarrow> string" where
  "last_element path = rev (takeWhile (\<lambda>c. c \<noteq> CHR ''/'') (rev path))"

definition svid_NewManager :: "ManagerConfig \<Rightarrow> config_failure + svid_Manager" where
  "svid_NewManager cfg =
     (if \<not> mg_HasSource cfg then Inl NoSource
      else let path = (if mg_Path cfg = [] then svidDocPath else mg_Path cfg) in
        if \<not> is_abs path then Inl PathNotAbsolute
        else if last path = CHR ''/'' then Inl TrailingSeparator
        else if last_element path \<in> {[], ''.'', ''..''} then Inl NoFilename
        else let refreshBefore = (if mg_RefreshBefore cfg \<le> 0 then DefaultRefreshBefore else mg_RefreshBefore cfg);
                 retryInterval = (if mg_RetryInterval cfg \<le> 0 then refreshBefore div 3 else mg_RetryInterval cfg);
                 retryInterval = (if retryInterval \<le> 0 then Minute else retryInterval) in
          Inr \<lparr>sm_path = path, sm_refreshBefore = refreshBefore, sm_retryInterval = retryInterval\<rparr>)"

definition svid_Current :: "(('k, 'p, 'h) svid_world, ('k, 'p) SVID option) comp" where
  "svid_Current = do { s \<leftarrow> State_Monad.get; State_Monad.return (sw_current s) }"

definition writeDocument :: "('k, 'p, 'h) cred_os \<Rightarrow> svid_Manager \<Rightarrow> string \<Rightarrow> (('k, 'p, 'h) svid_world, manager_error option) comp" where
  "writeDocument E m data = do {
     ok \<leftarrow> on_sw (co_MkdirAll E (path_dir (sm_path m)));
     if \<not> ok then State_Monad.return (Some MkdirFailed)
     else writeCredentialAtomic E (path_dir (sm_path m)) (path_base (sm_path m)) data }"

text \<open>What follows the fetch: verification, rendering, the last look at the context, the write.\<close>

definition persist :: "('k, 'p, 'h) cred_os \<Rightarrow> ('k, 'p) crypto \<Rightarrow> svid_Manager \<Rightarrow> ('k, 'p) SVID \<Rightarrow> (('k, 'p, 'h) svid_world, manager_error option) comp" where
  "persist E C m svid = do {
     now \<leftarrow> clock_now E;
     case SVID_Verify C svid now of Some e \<Rightarrow> State_Monad.return (Some (Unverified e))
     | None \<Rightarrow>
       if time_Sub (sd_ExpiresAt svid) now \<le> sm_refreshBefore m then State_Monad.return (Some TooShort)
       else case MarshalDocument C svid of Inl e \<Rightarrow> State_Monad.return (Some (Unrendered e))
       | Inr data \<Rightarrow> do {
           cancelled \<leftarrow> ctx_err E;
           if cancelled then State_Monad.return (Some Cancelled) else do {
           e \<leftarrow> writeDocument E m data;
           case e of Some e \<Rightarrow> State_Monad.return (Some e)
           | None \<Rightarrow> do {
               _ \<leftarrow> State_Monad.update (\<lambda>s. s\<lparr>sw_current := Some svid\<rparr>);
               State_Monad.return None } } } }"

definition issueAndPersist :: "('k, 'p, 'h) cred_os \<Rightarrow> ('k, 'p) crypto \<Rightarrow> svid_Manager \<Rightarrow> (('k, 'p, 'h) svid_world, manager_error option) comp" where
  "issueAndPersist E C m = do {
     cancelled \<leftarrow> ctx_err E;
     if cancelled then State_Monad.return (Some Cancelled) else do {
     r \<leftarrow> on_sw (co_FetchSVID E);
     case r of Inl unavailable \<Rightarrow> State_Monad.return (Some (FetchFailed unavailable))
     | Inr fetched \<Rightarrow> do {
         cancelled \<leftarrow> ctx_err E;
         if cancelled then State_Monad.return (Some Cancelled)
         else case fetched of None \<Rightarrow> State_Monad.return (Some NilSVID)
         | Some svid \<Rightarrow> persist E C m svid } }}"

definition svid_Start :: "('k, 'p, 'h) cred_os \<Rightarrow> ('k, 'p) crypto \<Rightarrow> svid_Manager \<Rightarrow> bool \<Rightarrow> (('k, 'p, 'h) svid_world, manager_error option) comp" where
  "svid_Start E C m ctx_nil =
     (if ctx_nil then State_Monad.return (Some NilContext) else do {
     s \<leftarrow> State_Monad.get;
     if sw_started s then State_Monad.return (Some AlreadyStarted) else do {
     _ \<leftarrow> State_Monad.update (\<lambda>s. s\<lparr>sw_started := True\<rparr>);
     e \<leftarrow> issueAndPersist E C m;
     case e of Some e \<Rightarrow> State_Monad.return (Some (if e = FetchFailed True then StartUnreachable else StartInvalid e))
     | None \<Rightarrow> do {
         _ \<leftarrow> State_Monad.update (\<lambda>s. s\<lparr>sw_loop := True\<rparr>);
         State_Monad.return None } } })"

text \<open>\<open>Stop\<close> cancels the context of the loop, if one was started; that the loop then ends is a step of the loop.\<close>

definition svid_Stop :: "(('k, 'p, 'h) svid_world, unit) comp" where
  "svid_Stop = State_Monad.update (\<lambda>s. if sw_loop s then s\<lparr>sw_cancelled := True\<rparr> else s)"

definition rotateOnce :: "('k, 'p, 'h) cred_os \<Rightarrow> ('k, 'p) crypto \<Rightarrow> svid_Manager \<Rightarrow> (('k, 'p, 'h) svid_world, manager_error option) comp" where
  "rotateOnce E C m = do {
     cur \<leftarrow> svid_Current;
     case cur of None \<Rightarrow> issueAndPersist E C m
     | Some v \<Rightarrow> do {
         now \<leftarrow> clock_now E;
         if time_Sub (sd_ExpiresAt v) now \<le> 0 then State_Monad.return (Some CurrentExpired)
         else issueAndPersist E C m } }"

definition currentExpired :: "('k, 'p, 'h) cred_os \<Rightarrow> (('k, 'p, 'h) svid_world, bool) comp" where
  "currentExpired E = do {
     cur \<leftarrow> svid_Current;
     case cur of None \<Rightarrow> State_Monad.return True
     | Some v \<Rightarrow> do { now \<leftarrow> clock_now E; State_Monad.return (\<not> now < sd_ExpiresAt v) } }"

definition invalidate :: "('k, 'p, 'h) cred_os \<Rightarrow> svid_Manager \<Rightarrow> (('k, 'p, 'h) svid_world, manager_error option) comp" where
  "invalidate E m = do {
     e \<leftarrow> removeCredential E (path_dir (sm_path m)) (path_base (sm_path m));
     case e of Some e \<Rightarrow> State_Monad.return (Some e)
     | None \<Rightarrow> do {
         _ \<leftarrow> State_Monad.update (\<lambda>s. s\<lparr>sw_current := None\<rparr>);
         State_Monad.return None } }"

definition refreshDelay :: "('k, 'p, 'h) cred_os \<Rightarrow> svid_Manager \<Rightarrow> (('k, 'p, 'h) svid_world, int) comp" where
  "refreshDelay E m = do {
     cur \<leftarrow> svid_Current;
     case cur of None \<Rightarrow> State_Monad.return 0
     | Some v \<Rightarrow> do {
         now \<leftarrow> clock_now E;
         let d = time_Sub (sd_ExpiresAt v - sm_refreshBefore m) now;
         State_Monad.return (if d < 0 then 0 else d) } }"

definition failureDelay :: "('k, 'p, 'h) cred_os \<Rightarrow> svid_Manager \<Rightarrow> (('k, 'p, 'h) svid_world, int) comp" where
  "failureDelay E m = do {
     cur \<leftarrow> svid_Current;
     d \<leftarrow> (case cur of None \<Rightarrow> State_Monad.return (sm_retryInterval m)
       | Some v \<Rightarrow> do {
           now \<leftarrow> clock_now E;
           let untilExpiry = time_Sub (sd_ExpiresAt v) now;
           State_Monad.return (if untilExpiry > 0 \<and> untilExpiry < sm_retryInterval m then untilExpiry else sm_retryInterval m) });
     State_Monad.return (if d < 0 then 0 else d) }"

text \<open>One turn of the loop of \<open>run\<close>: \<open>None\<close> when it returns, otherwise the new value of \<open>failing\<close>. The message about a retained SVID
  reads the clock once more.\<close>

definition run_turn :: "('k, 'p, 'h) cred_os \<Rightarrow> ('k, 'p) crypto \<Rightarrow> svid_Manager \<Rightarrow> bool \<Rightarrow> (('k, 'p, 'h) svid_world, bool option) comp" where
  "run_turn E C m failing = do {
     delay \<leftarrow> refreshDelay E m;
     delay \<leftarrow> (if failing then failureDelay E m else State_Monad.return delay);
     finished \<leftarrow> on_sw (co_Done E delay);
     if finished then State_Monad.return None else do {
     e \<leftarrow> rotateOnce E C m;
     if e = None then State_Monad.return (Some False) else do {
     expired \<leftarrow> currentExpired E;
     _ \<leftarrow> (if expired then do { _ \<leftarrow> invalidate E m; State_Monad.return () } else do { _ \<leftarrow> failureDelay E m; State_Monad.return () });
     State_Monad.return (Some True) } } }"

text \<open>The life of a manager: the loop runs after a successful start, \<open>Stop\<close> may come between turns. What happens inside a turn
  while another goroutine cancels the context is among the answers of the host.\<close>

inductive rotating :: "('k, 'p, 'h) cred_os \<Rightarrow> ('k, 'p) crypto \<Rightarrow> svid_Manager \<Rightarrow> ('k, 'p, 'h) svid_world \<Rightarrow> bool option \<Rightarrow> ('k, 'p, 'h) svid_world \<Rightarrow> bool"
  for E C m s0 where
  start: "run_state (svid_Start E C m ctx_nil) s0 = (e, s) \<Longrightarrow> rotating E C m s0 (if e = None then Some False else None) s"
| turn: "rotating E C m s0 (Some failing) s \<Longrightarrow> run_state (run_turn E C m failing) s = (next, s') \<Longrightarrow> rotating E C m s0 next s'"
| stop: "rotating E C m s0 loop s \<Longrightarrow> run_state svid_Stop s = ((), s') \<Longrightarrow> rotating E C m s0 loop s'"

subsection \<open>What is ever visible\<close>

definition acceptable :: "('k, 'p) crypto \<Rightarrow> svid_Manager \<Rightarrow> ('k, 'p) SVID \<Rightarrow> bool" where
  "acceptable C m v \<longleftrightarrow> (\<exists>t. SVID_Verify C v t = None \<and> time_Sub (sd_ExpiresAt v) t > sm_refreshBefore m)"

definition document_of :: "('k, 'p) crypto \<Rightarrow> ('k, 'p) SVID \<Rightarrow> cred_file \<Rightarrow> bool" where
  "document_of C v f \<longleftrightarrow> MarshalDocument C v = Inr (cf_Data f) \<and> cf_Mode f = svidFileMode"

text \<open>Compared with the directories at the beginning, only the document and its temporary file may differ, and the document is absent or
  the complete document of an SVID that was accepted.\<close>

definition presentable :: "('k, 'p) crypto \<Rightarrow> svid_Manager \<Rightarrow> directories \<Rightarrow> directories \<Rightarrow> bool" where
  "presentable C m D0 D \<longleftrightarrow> (\<forall>d n. n \<noteq> temp_entry (path_base (sm_path m)) \<longrightarrow>
     D d n = D0 d n \<or> n = path_base (sm_path m) \<and> (\<forall>f. D d n = Some f \<longrightarrow> (\<exists>v. acceptable C m v \<and> document_of C v f)))"

definition manager_inv :: "('k, 'p) crypto \<Rightarrow> svid_Manager \<Rightarrow> directories \<Rightarrow> ('k, 'p, 'h) svid_world \<Rightarrow> bool" where
  "manager_inv C m D0 s \<longleftrightarrow> presentable C m D0 (sw_dirs s) \<and> list_all (presentable C m D0) (sw_seen s)
     \<and> pred_option (acceptable C m) (sw_current s)"

lemma temp_entry_neq [simp]: "temp_entry n \<noteq> n" "n \<noteq> temp_entry n"
proof -
  have "length (temp_entry n) \<noteq> length n" by (simp add: temp_entry_def)
  then show "temp_entry n \<noteq> n" "n \<noteq> temp_entry n" by metis+
qed

lemma presentable_temp: "presentable C m D0 D \<Longrightarrow> presentable C m D0 (D(d := (D d)(temp_entry (path_base (sm_path m)) := f)))"
  by (auto simp: presentable_def)

lemma presentable_document:
  "presentable C m D0 D \<Longrightarrow> (\<And>x. f = Some x \<Longrightarrow> \<exists>v. acceptable C m v \<and> document_of C v x) \<Longrightarrow>
   presentable C m D0 (D(d := (D d)(path_base (sm_path m) := f)))"
  by (auto simp: presentable_def)

lemma wp_on_sw [simp]: "wp (on_sw m) Q s = wp m (\<lambda>a h. Q a (s\<lparr>sw_host := h\<rparr>)) (sw_host s)"
  by (simp add: on_sw_def)

lemma wp_on_swI: "(\<And>a h. Q a (s\<lparr>sw_host := h\<rparr>)) \<Longrightarrow> wp (on_sw m) Q s"
  by (simp add: wp_iff_run [of m])

lemma wp_clock_nowI: "(\<And>t h. Q t (s\<lparr>sw_host := h, sw_readings := t # sw_readings s\<rparr>)) \<Longrightarrow> wp (clock_now E) Q s"
  unfolding clock_now_def wp_bind by (rule wp_on_swI) simp

lemma wp_ctx_errI: "(\<And>b h. (sw_cancelled s \<Longrightarrow> b) \<Longrightarrow> Q b (s\<lparr>sw_host := h\<rparr>)) \<Longrightarrow> wp (ctx_err E) Q s"
  unfolding ctx_err_def wp_bind by (rule wp_on_swI) simp

lemma wp_open_dirI:
  "(\<And>r h. Q r (s\<lparr>sw_host := h, sw_opened := (case r of Opened d \<Rightarrow> Some d | _ \<Rightarrow> None)\<rparr>)) \<Longrightarrow> wp (open_dir E dir) Q s"
  unfolding open_dir_def wp_bind by (rule wp_on_swI) simp

lemma wp_set_entryI:
  "Q () (s\<lparr>sw_dirs := (sw_dirs s)(d := (sw_dirs s d)(n := f)), sw_seen := sw_seen s @ [(sw_dirs s)(d := (sw_dirs s d)(n := f))]\<rparr>) \<Longrightarrow>
   wp (set_entry d n f) Q s"
  by (simp add: set_entry_def Let_def)

lemma wp_read_entryI: "Q (sw_dirs s d n) s \<Longrightarrow> wp (read_entry d n) Q s"
  by (simp add: read_entry_def)

lemma wp_CurrentI: "Q (sw_current s) s \<Longrightarrow> wp svid_Current Q s"
  by (simp add: svid_Current_def)

lemma wp_updateI: "Q () (f s) \<Longrightarrow> wp (State_Monad.update f) Q s"
  by simp

lemma wp_getI': "Q s s \<Longrightarrow> wp State_Monad.get Q s"
  by simp

lemmas svid_intros = wp_bindI wp_ifI wp_returnI wp_optionI wp_sumI wp_on_swI wp_clock_nowI wp_ctx_errI wp_open_dirI wp_set_entryI wp_read_entryI
  wp_CurrentI wp_updateI wp_getI'

text \<open>The validation of a directory changes nothing.\<close>

lemma wp_validateI: "(\<And>e h. Q e (s\<lparr>sw_host := h\<rparr>)) \<Longrightarrow> wp (validateSVIDDirFD E d) Q s"
  unfolding validateSVIDDirFD_def
  by (auto intro!: wp_bindI wp_on_swI wp_ifI wp_returnI simp del: wp_on_sw split: option.splits)

lemma wp_UnlinkatI:
  "(\<And>r h. Q r (s\<lparr>sw_host := h\<rparr>)) \<Longrightarrow>
   (\<And>r h. Q r (s\<lparr>sw_host := h, sw_dirs := (sw_dirs s)(d := (sw_dirs s d)(n := None)), sw_seen := sw_seen s @ [(sw_dirs s)(d := (sw_dirs s d)(n := None))]\<rparr>)) \<Longrightarrow>
   wp (Unlinkat E d n) Q s"
  unfolding Unlinkat_def by (rule svid_intros | simp)+

lemma manager_inv_host [simp]:
  "manager_inv C m D0 (s\<lparr>sw_host := h\<rparr>) = manager_inv C m D0 s" "manager_inv C m D0 (s\<lparr>sw_readings := r\<rparr>) = manager_inv C m D0 s"
  "manager_inv C m D0 (s\<lparr>sw_opened := x\<rparr>) = manager_inv C m D0 s" "manager_inv C m D0 (s\<lparr>sw_started := b\<rparr>) = manager_inv C m D0 s"
  "manager_inv C m D0 (s\<lparr>sw_loop := b\<rparr>) = manager_inv C m D0 s" "manager_inv C m D0 (s\<lparr>sw_cancelled := b\<rparr>) = manager_inv C m D0 s"
  "manager_inv C m D0 (s\<lparr>sw_current := c\<rparr>) \<longleftrightarrow> presentable C m D0 (sw_dirs s) \<and> list_all (presentable C m D0) (sw_seen s) \<and> pred_option (acceptable C m) c"
  by (simp_all add: manager_inv_def)

lemma manager_inv_dirs:
  "manager_inv C m D0 s \<Longrightarrow> presentable C m D0 D \<Longrightarrow> manager_inv C m D0 (s\<lparr>sw_dirs := D, sw_seen := sw_seen s @ [D]\<rparr>)"
  by (simp add: manager_inv_def)

text \<open>The operations on the temporary file and the final rename, with what the rest of the state keeps.\<close>

definition framed :: "('k, 'p, 'h) svid_world \<Rightarrow> ('k, 'p, 'h) svid_world \<Rightarrow> bool" where
  "framed s t \<longleftrightarrow> sw_current t = sw_current s \<and> sw_readings t = sw_readings s \<and> sw_opened t = sw_opened s"

lemma framed_trans: "framed s t \<Longrightarrow> framed t u \<Longrightarrow> framed s u"
  by (simp add: framed_def)

lemma framed_updates [simp]:
  "framed s (s\<lparr>sw_host := h\<rparr>)" "framed s (t\<lparr>sw_host := h\<rparr>) = framed s t"
  "framed s (t\<lparr>sw_dirs := D\<rparr>) = framed s t" "framed s (t\<lparr>sw_seen := S\<rparr>) = framed s t" "framed s s"
  by (simp_all add: framed_def)

lemma wp_sw_hostI:
  "manager_inv C m D0 s \<Longrightarrow> (\<And>a t. manager_inv C m D0 t \<Longrightarrow> framed s t \<Longrightarrow> sw_dirs t = sw_dirs s \<Longrightarrow> Q a t) \<Longrightarrow> wp (on_sw c) Q s"
  by (rule wp_on_swI) simp

lemma wp_dirsI:
  assumes "manager_inv C m D0 s" and "presentable C m D0 D"
    and "\<And>t. manager_inv C m D0 t \<Longrightarrow> framed s t \<Longrightarrow> sw_dirs t = D \<Longrightarrow> Q () t"
  shows "Q () (s\<lparr>sw_dirs := D, sw_seen := sw_seen s @ [D]\<rparr>)"
  by (rule assms(3)) (use assms(1,2) in \<open>auto intro: manager_inv_dirs\<close>)

lemma wp_set_temp:
  assumes "manager_inv C m D0 s"
    and "\<And>t. manager_inv C m D0 t \<Longrightarrow> framed s t \<Longrightarrow> sw_dirs t d (temp_entry (path_base (sm_path m))) = f \<Longrightarrow> Q () t"
  shows "wp (set_entry d (temp_entry (path_base (sm_path m))) f) Q s"
  by (rule wp_set_entryI, rule wp_dirsI [OF assms(1)], rule presentable_temp)
    (use assms in \<open>auto simp: manager_inv_def\<close>)

lemma wp_unlink_temp:
  assumes "manager_inv C m D0 s" and Q: "\<And>r t. manager_inv C m D0 t \<Longrightarrow> framed s t \<Longrightarrow> Q r t"
  shows "wp (Unlinkat E d (temp_entry (path_base (sm_path m)))) Q s"
  unfolding Unlinkat_def
  by (rule wp_bindI wp_sw_hostI [OF assms(1)] wp_read_entryI wp_ifI wp_set_temp wp_returnI Q | assumption | erule (1) framed_trans)+

lemma wp_create_temp:
  assumes "manager_inv C m D0 s" and Q: "\<And>ok t. manager_inv C m D0 t \<Longrightarrow> framed s t \<Longrightarrow>
     (ok \<Longrightarrow> \<exists>f. sw_dirs t d (temp_entry (path_base (sm_path m))) = Some f \<and> cf_Data f = []) \<Longrightarrow> Q ok t"
  shows "wp (Openat E d (temp_entry (path_base (sm_path m)))) Q s"
  unfolding Openat_def
  by (rule wp_bindI wp_sw_hostI [OF assms(1)] wp_read_entryI wp_optionI wp_ifI wp_set_temp wp_returnI Q | assumption | erule (1) framed_trans | simp)+

lemma wp_chmod_temp:
  assumes "manager_inv C m D0 s" and "sw_dirs s d (temp_entry (path_base (sm_path m))) = Some f"
    and Q: "\<And>ok t. manager_inv C m D0 t \<Longrightarrow> framed s t \<Longrightarrow>
     (ok \<Longrightarrow> sw_dirs t d (temp_entry (path_base (sm_path m))) = Some (f\<lparr>cf_Mode := mode\<rparr>)) \<Longrightarrow> Q ok t"
  shows "wp (f_Chmod E d (temp_entry (path_base (sm_path m))) mode) Q s"
  unfolding f_Chmod_def
  by (rule wp_bindI wp_sw_hostI [OF assms(1)] wp_read_entryI wp_ifI wp_set_temp wp_returnI Q | assumption | erule (1) framed_trans | simp add: assms(2))+

lemma wp_write_temp:
  assumes "manager_inv C m D0 s" and "sw_dirs s d (temp_entry (path_base (sm_path m))) = Some f"
    and Q: "\<And>ok t. manager_inv C m D0 t \<Longrightarrow> framed s t \<Longrightarrow>
     (ok \<Longrightarrow> sw_dirs t d (temp_entry (path_base (sm_path m))) = Some (f\<lparr>cf_Data := cf_Data f @ data\<rparr>)) \<Longrightarrow> Q ok t"
  shows "wp (f_Write E d (temp_entry (path_base (sm_path m))) data) Q s"
  unfolding f_Write_def
  by (rule wp_bindI wp_sw_hostI [OF assms(1)] wp_read_entryI wp_set_temp wp_returnI Q | assumption | erule (1) framed_trans | simp add: assms(2))+

lemma wp_rename_temp:
  assumes "manager_inv C m D0 s" and "sw_dirs s d (temp_entry (path_base (sm_path m))) = Some x" and "acceptable C m v" and "document_of C v x"
    and Q: "\<And>ok t. manager_inv C m D0 t \<Longrightarrow> framed s t \<Longrightarrow> (ok \<Longrightarrow> sw_dirs t d (path_base (sm_path m)) = Some x) \<Longrightarrow> Q ok t"
  shows "wp (Renameat E d (temp_entry (path_base (sm_path m))) (path_base (sm_path m))) Q s"
proof -
  have new: "presentable C m D0 ((sw_dirs s)(d := (sw_dirs s d)(temp_entry (path_base (sm_path m)) := None, path_base (sm_path m) \<mapsto> x)))"
    using assms(1,3,4) by (auto simp: manager_inv_def presentable_def)
  show ?thesis
    unfolding Renameat_def Let_def
    apply (rule wp_bindI, rule wp_sw_hostI [OF assms(1)], rule wp_bindI, rule wp_read_entryI, rule wp_ifI)
     apply (rule wp_returnI, rule Q; simp)
    apply (rule wp_bindI, rule wp_updateI, simp only: assms(2), rule wp_dirsI, assumption, rule new, rule wp_returnI, rule Q)
      apply (auto intro: framed_trans)
    done
qed

lemma wp_fill_temp:
  assumes "manager_inv C m D0 s" and "sw_dirs s d (temp_entry (path_base (sm_path m))) = Some f" and "cf_Data f = []"
    and "acceptable C m v" and "MarshalDocument C v = Inr data"
  shows "wp (fill_temp E d (path_base (sm_path m)) data) (\<lambda>e t. manager_inv C m D0 t \<and> framed s t
    \<and> (e = None \<longrightarrow> (\<exists>x. sw_dirs t d (path_base (sm_path m)) = Some x \<and> document_of C v x))) s" (is "wp _ ?Q s")
proof -
  have doc: "document_of C v (f\<lparr>cf_Mode := svidFileMode, cf_Data := cf_Data f @ data\<rparr>)"
    using assms(3,5) by (simp add: document_of_def)
  have close: "wp (do { _ \<leftarrow> Unlinkat E d (temp_entry (path_base (sm_path m))); State_Monad.return (Some e) }) ?Q t"
    if "manager_inv C m D0 t" "framed s t" for e t
    using that by (auto intro!: wp_bindI wp_unlink_temp elim: framed_trans simp del: wp_bind)
  have fail: "wp (do { _ \<leftarrow> on_sw (co_Close E); _ \<leftarrow> Unlinkat E d (temp_entry (path_base (sm_path m))); State_Monad.return (Some e) }) ?Q t"
    if "manager_inv C m D0 t" "framed s t" for e t
    by (rule wp_bindI, rule wp_sw_hostI [OF that(1)], rule close) (auto intro: framed_trans that)
  show ?thesis
    unfolding fill_temp_def Let_def
    apply (rule wp_bindI, rule wp_chmod_temp [OF assms(1,2)], rule wp_ifI, rule fail, assumption, assumption)
    apply (rule wp_bindI, rule wp_write_temp, assumption, simp, rule wp_ifI, rule fail, assumption, erule framed_trans, assumption)
    apply (rule wp_bindI, rule wp_sw_hostI, assumption, rule wp_ifI, rule fail, assumption, blast intro: framed_trans)
    apply (rule wp_bindI, rule wp_sw_hostI, assumption, rule wp_ifI, rule close, assumption, blast intro: framed_trans)
    apply (rule wp_bindI, rule wp_rename_temp [OF _ _ assms(4) doc], assumption, simp, rule wp_ifI, rule close, assumption, blast intro: framed_trans)
    apply (rule wp_bindI, rule wp_sw_hostI, assumption)
    apply (rule wp_returnI)
    using doc apply (auto simp: framed_def)
    done
qed

lemma wp_writeCredentialAtomic:
  assumes "manager_inv C m D0 s" and "acceptable C m v" and "MarshalDocument C v = Inr data"
  shows "wp (writeCredentialAtomic E dir (path_base (sm_path m)) data) (\<lambda>e t. manager_inv C m D0 t \<and> sw_current t = sw_current s \<and> sw_readings t = sw_readings s
    \<and> (e = None \<longrightarrow> (\<exists>d x. sw_opened t = Some d \<and> sw_dirs t d (path_base (sm_path m)) = Some x \<and> document_of C v x))) s" (is "wp _ ?Q s")
proof -
  have opened: "wp (do { e \<leftarrow> validateSVIDDirFD E d;
         case e of Some e \<Rightarrow> State_Monad.return (Some e)
         | None \<Rightarrow> do {
             _ \<leftarrow> Unlinkat E d (temp_entry (path_base (sm_path m)));
             ok \<leftarrow> Openat E d (temp_entry (path_base (sm_path m)));
             if \<not> ok then State_Monad.return (Some TempCreate)
             else fill_temp E d (path_base (sm_path m)) data } }) ?Q (s\<lparr>sw_host := h, sw_opened := Some d\<rparr>)" for d h
    apply (rule wp_bindI, rule wp_validateI, rule wp_optionI)
     apply (rule wp_bindI, rule wp_unlink_temp [of C m D0], simp add: assms(1))
     apply (rule wp_bindI, rule wp_create_temp, assumption, rule wp_ifI)
      apply (simp add: framed_def)
     apply (clarsimp, rule wp_mono [OF wp_fill_temp [OF _ _ _ assms(2,3)]], assumption+)
     apply (auto simp: framed_def assms(1))
    done
  show ?thesis
    unfolding writeCredentialAtomic_def
    apply (rule wp_bindI, rule wp_open_dirI)
    subgoal for r h by (cases r; simp only: open_result.case opened) (simp_all add: assms(1))
    done
qed

lemma wp_removeCredential:
  assumes "manager_inv C m D0 s"
  shows "wp (removeCredential E dir (path_base (sm_path m))) (\<lambda>e t. manager_inv C m D0 t \<and> sw_current t = sw_current s \<and> sw_readings t = sw_readings s
    \<and> (e = None \<longrightarrow> (\<forall>d. sw_opened t = Some d \<longrightarrow> sw_dirs t d (path_base (sm_path m)) = None))) s"
proof -
  have "presentable C m D0 ((sw_dirs s)(d := (sw_dirs s d)(path_base (sm_path m) := None)))" for d
    using assms by (auto intro!: presentable_document simp: manager_inv_def)
  then show ?thesis
    unfolding removeCredential_def Unlinkat_def
    apply (intro wp_bindI wp_open_dirI)
    subgoal for r h
      using assms by (cases r) (auto intro!: svid_intros wp_validateI simp: manager_inv_def simp del: wp_bind wp_if wp_on_sw wp_get wp_update)
    done
qed

text \<open>A new SVID is in force: it verified at the time that was read, lives longer than the lead time, and its document is in place.\<close>

definition issued :: "('k, 'p) crypto \<Rightarrow> svid_Manager \<Rightarrow> ('k, 'p) SVID \<Rightarrow> int list \<Rightarrow> ('k, 'p, 'h) svid_world \<Rightarrow> bool" where
  "issued C m v before t \<longleftrightarrow> sw_current t = Some v
     \<and> (\<exists>now. sw_readings t = now # before \<and> SVID_Verify C v now = None \<and> sm_refreshBefore m < time_Sub (sd_ExpiresAt v) now)
     \<and> (\<exists>d x. sw_opened t = Some d \<and> sw_dirs t d (path_base (sm_path m)) = Some x \<and> document_of C v x)"

lemma wp_persist:
  assumes "manager_inv C m D0 s"
  shows "wp (persist E C m v) (\<lambda>e t. manager_inv C m D0 t \<and> (case e of Some _ \<Rightarrow> sw_current t = sw_current s | None \<Rightarrow> issued C m v (sw_readings s) t)) s"
  unfolding persist_def
  apply (rule wp_bindI, rule wp_clock_nowI, rule wp_optionI)
   apply (rule wp_ifI)
    apply (simp add: assms)
   apply (rule wp_sumI)
    apply (simp add: assms)
   apply (rule wp_bindI, rule wp_ctx_errI, rule wp_ifI)
    apply (simp add: assms)
   apply (simp only: writeDocument_def wp_bind)
   apply (rule wp_on_swI, rule wp_ifI)
    apply (simp add: assms)
   apply (rule wp_mono [OF wp_writeCredentialAtomic [of C m D0 _ v]])
  using assms apply (auto simp: acceptable_def manager_inv_def issued_def split: option.splits)
  done

lemma wp_issueAndPersist:
  assumes "manager_inv C m D0 s"
  shows "wp (issueAndPersist E C m) (\<lambda>e t. manager_inv C m D0 t \<and> (case e of Some _ \<Rightarrow> sw_current t = sw_current s | None \<Rightarrow> \<exists>v. issued C m v (sw_readings s) t)) s"
  unfolding issueAndPersist_def
  apply (rule wp_bindI, rule wp_ctx_errI, rule wp_ifI)
   apply (simp add: assms)
  apply (rule wp_bindI, rule wp_on_swI, rule wp_sumI)
   apply (simp add: assms)
  apply (rule wp_bindI, rule wp_ctx_errI, rule wp_ifI)
   apply (simp add: assms)
  apply (rule wp_optionI)
   apply (simp add: assms)
  apply (rule wp_mono [OF wp_persist [of C m D0]])
   apply (auto simp: assms split: option.splits)
  done

lemma wp_invalidate:
  assumes "manager_inv C m D0 s"
  shows "wp (invalidate E m) (\<lambda>e t. manager_inv C m D0 t \<and> (case e of
      None \<Rightarrow> sw_current t = None \<and> (\<forall>d. sw_opened t = Some d \<longrightarrow> sw_dirs t d (path_base (sm_path m)) = None)
    | Some x \<Rightarrow> \<exists>u. run_state (removeCredential E (path_dir (sm_path m)) (path_base (sm_path m))) u = (Some x, t))) s"
proof -
  obtain e t where run: "run_state (removeCredential E (path_dir (sm_path m)) (path_base (sm_path m))) s = (e, t)" by fastforce
  have "manager_inv C m D0 t \<and> sw_current t = sw_current s \<and> (e = None \<longrightarrow> (\<forall>d. sw_opened t = Some d \<longrightarrow> sw_dirs t d (path_base (sm_path m)) = None))"
    using wp_removeCredential [OF assms, of E "path_dir (sm_path m)"] by (simp add: wp_run [OF run])
  then show ?thesis
    using run by (auto simp: invalidate_def wp_run [OF run] manager_inv_def split: option.splits)
qed

lemma wp_rotateOnce:
  assumes "manager_inv C m D0 s"
  shows "wp (rotateOnce E C m) (\<lambda>e t. manager_inv C m D0 t \<and> (case e of Some _ \<Rightarrow> sw_current t = sw_current s | None \<Rightarrow> \<exists>v before. issued C m v before t)) s"
  unfolding rotateOnce_def
  apply (rule wp_bindI, rule wp_CurrentI, rule wp_optionI)
   apply (rule wp_mono [OF wp_issueAndPersist [OF assms]], fastforce split: option.splits)
  apply (rule wp_bindI, rule wp_clock_nowI, rule wp_ifI)
   apply (simp add: assms)
  apply (rule wp_mono [OF wp_issueAndPersist [of C m D0]], simp add: assms, fastforce split: option.splits)
  done

text \<open>The delays change nothing but the readings of the clock.\<close>

lemma clamp_max: "(if d < 0 then 0 else d) = max 0 (d :: int)"
  by simp

lemma wp_refreshDelayI:
  assumes "sw_current s = None \<Longrightarrow> Q 0 s"
    and "\<And>v t h. sw_current s = Some v \<Longrightarrow> Q (max 0 (time_Sub (sd_ExpiresAt v - sm_refreshBefore m) t)) (s\<lparr>sw_host := h, sw_readings := t # sw_readings s\<rparr>)"
  shows "wp (refreshDelay E m) Q s"
  unfolding refreshDelay_def Let_def
  by (rule wp_bindI, rule wp_CurrentI, rule wp_optionI, rule wp_returnI, erule assms(1)) (rule wp_bindI, rule wp_clock_nowI, rule wp_returnI, simp only: clamp_max, erule assms(2))

definition retry_delay :: "svid_Manager \<Rightarrow> int \<Rightarrow> int \<Rightarrow> int" where
  "retry_delay m expiresAt t = (let u = time_Sub expiresAt t in max 0 (if u > 0 \<and> u < sm_retryInterval m then u else sm_retryInterval m))"

lemma wp_failureDelayI:
  assumes "sw_current s = None \<Longrightarrow> Q (max 0 (sm_retryInterval m)) s"
    and "\<And>v t h. sw_current s = Some v \<Longrightarrow> Q (retry_delay m (sd_ExpiresAt v) t) (s\<lparr>sw_host := h, sw_readings := t # sw_readings s\<rparr>)"
  shows "wp (failureDelay E m) Q s"
  unfolding failureDelay_def Let_def
  apply (rule wp_bindI, rule wp_CurrentI, rule wp_bindI, rule wp_optionI, rule wp_returnI, rule wp_returnI)
   apply (simp only: clamp_max, erule assms(1))
  apply (rule wp_bindI, rule wp_clock_nowI, rule wp_returnI, rule wp_returnI)
  using assms(2) apply (simp only: clamp_max retry_delay_def Let_def)
  done

lemma wp_turn:
  assumes "manager_inv C m D0 s"
  shows "wp (run_turn E C m failing) (\<lambda>r t. manager_inv C m D0 t \<and> (r = None \<or>
     (\<exists>x u. run_state (removeCredential E (path_dir (sm_path m)) (path_base (sm_path m))) u = (Some x, t)) \<or>
     (case sw_current t of None \<Rightarrow> \<forall>d. sw_opened t = Some d \<longrightarrow> sw_dirs t d (path_base (sm_path m)) = None
      | Some v \<Rightarrow> \<exists>now \<in> set (take 2 (sw_readings t)). now < sd_ExpiresAt v))) s" (is "wp _ ?Q s")
proof -
  have verified: "sw_current t = Some v \<and> (\<exists>now \<in> set (take 2 (sw_readings t)). now < sd_ExpiresAt v)" if "issued C m v before t" for v before and t :: "('a, 'b, 'c) svid_world"
    using that by (auto simp: issued_def SVID_Verify_def split: option.splits if_splits)
  have rotated: "wp (do { e \<leftarrow> rotateOnce E C m;
     if e = None then State_Monad.return (Some False) else do {
     expired \<leftarrow> currentExpired E;
     _ \<leftarrow> (if expired then do { _ \<leftarrow> invalidate E m; State_Monad.return () } else do { _ \<leftarrow> failureDelay E m; State_Monad.return () });
     State_Monad.return (Some True) } }) ?Q t" if "manager_inv C m D0 t" for t
    apply (rule wp_bindI, rule wp_mono [OF wp_rotateOnce [OF that]], rule wp_ifI)
     apply (fastforce dest: verified)
    apply (simp only: currentExpired_def wp_bind)
    apply (rule wp_CurrentI, rule wp_optionI)
     apply (simp only: wp_return if_True wp_bind, rule wp_mono [OF wp_invalidate [of C m D0]])
      apply (auto split: option.splits) [2]
    apply (simp only: wp_bind, rule wp_clock_nowI, simp only: wp_return, rule wp_ifI)
     apply (simp only: wp_bind wp_return, rule wp_mono [OF wp_invalidate [of C m D0]])
      apply (auto split: option.splits) [2]
    apply (simp only: wp_bind wp_return, rule wp_failureDelayI)
     apply (auto) [2]
    done
  show ?thesis
    unfolding run_turn_def
    apply (rule wp_bindI, rule wp_refreshDelayI; rule wp_bindI, rule wp_ifI)
       apply (rule wp_failureDelayI; rule wp_bindI, rule wp_on_swI, rule wp_ifI, simp add: assms, rule rotated, simp add: assms)
      apply (rule wp_returnI, rule wp_bindI, rule wp_on_swI, rule wp_ifI, simp add: assms, rule rotated, simp add: assms)
     apply (rule wp_failureDelayI; rule wp_bindI, rule wp_on_swI, rule wp_ifI, simp add: assms, rule rotated, simp add: assms)
    apply (rule wp_returnI, rule wp_bindI, rule wp_on_swI, rule wp_ifI, simp add: assms, rule rotated, simp add: assms)
    done
qed

lemma issued_loop [simp]: "issued C m v before (t\<lparr>sw_loop := b\<rparr>) = issued C m v before t"
  by (simp add: issued_def)

lemma wp_Start:
  assumes "manager_inv C m D0 s"
  shows "wp (svid_Start E C m ctx_nil) (\<lambda>e t. manager_inv C m D0 t \<and> (e = None \<longrightarrow> (\<exists>v before. issued C m v before t))) s"
  unfolding svid_Start_def
  apply (rule wp_ifI, simp add: assms)
  apply (rule wp_bindI, rule wp_getI', rule wp_ifI, simp add: assms)
  apply (rule wp_bindI, rule wp_updateI, rule wp_bindI, rule wp_mono [OF wp_issueAndPersist [of C m D0]], simp add: assms)
  apply (rule wp_optionI)
   apply auto
  done

lemma rotating_inv:
  assumes "rotating E C m s0 loop s" and "sw_seen s0 = []" and "sw_current s0 = None"
  shows "manager_inv C m (sw_dirs s0) s"
  using assms(1)
proof (induction rule: rotating.induct)
  case (start ctx_nil e s)
  have "manager_inv C m (sw_dirs s0) s0" using assms(2,3) by (simp add: manager_inv_def presentable_def)
  from wp_Start [OF this, of E ctx_nil] start show ?case by (simp add: wp_run)
next
  case (turn failing s "next" s')
  from wp_turn [OF turn.IH, of E failing] turn.hyps(2) show ?case by (simp add: wp_run)
next
  case (stop loop s s')
  then show ?case by (auto simp: svid_Stop_def State_Monad.update_def State_Monad.get_def State_Monad.set_def State_Monad.bind_def)
qed

text \<open>C21. Whoever looks at any moment of the life of a manager, and whatever fails or crashes, finds under the name of the document what was there before the
  manager started, nothing, or a complete document, readable by its owner only, of an SVID that verified with more than the lead time left. No other
  entry of any directory changes, the temporary file apart.\<close>

theorem only_verified_documents_visible:
  assumes "rotating E C m s0 loop s" and "sw_seen s0 = []" and "sw_current s0 = None"
    and "D \<in> set (sw_dirs s # sw_seen s)" and "n \<noteq> temp_entry (path_base (sm_path m))" and "D d n \<noteq> sw_dirs s0 d n"
  shows "n = path_base (sm_path m) \<and> (case D d n of None \<Rightarrow> True | Some f \<Rightarrow> cf_Mode f = 0x100 \<and> (\<exists>v now. MarshalDocument C v = Inr (cf_Data f)
    \<and> SVID_Verify C v now = None \<and> time_Sub (sd_ExpiresAt v) now > sm_refreshBefore m))"
proof -
  have "presentable C m (sw_dirs s0) D"
    using rotating_inv [OF assms(1-3)] assms(4) by (auto simp: manager_inv_def list_all_iff)
  with assms(5,6) have "n = path_base (sm_path m)" "\<And>f. D d n = Some f \<Longrightarrow> \<exists>v. acceptable C m v \<and> document_of C v f"
    unfolding presentable_def by blast+
  then show ?thesis by (fastforce simp: document_of_def acceptable_def svidFileMode_def split: option.splits)
qed

text \<open>C22. The manager fails closed. After every turn of the loop, either the SVID in force was seen unexpired by one of the last two readings
  of the clock, or there is none and the document is gone from the directory, or removing it failed and this error is what ended the turn.\<close>

theorem expired_identity_withdrawn:
  assumes "rotating E C m s0 (Some failing) s" and "sw_seen s0 = []" and "sw_current s0 = None"
    and "run_state (run_turn E C m failing) s = (Some failing', s')"
  shows "(\<exists>x u. run_state (removeCredential E (path_dir (sm_path m)) (path_base (sm_path m))) u = (Some x, s')) \<or>
     (case sw_current s' of
        Some v \<Rightarrow> \<exists>now \<in> set (take 2 (sw_readings s')). now < sd_ExpiresAt v
      | None \<Rightarrow> \<forall>d. sw_opened s' = Some d \<longrightarrow> sw_dirs s' d (path_base (sm_path m)) = None)"
  using wp_turn [OF rotating_inv [OF assms(1-3)], of E failing] by (auto simp: wp_run [OF assms(4)] split: option.splits)

text \<open>The loop neither spins nor oversleeps: a retry waits for a positive time, at most the retry interval, and while the SVID in force is valid
  it wakes no later than at its expiry; the regular wait ends at least the lead time before the expiry.\<close>

theorem rotation_schedule:
  assumes "svid_NewManager cfg = Inr m" and "run_state (failureDelay E m) s = (d, s')" and "run_state (refreshDelay E m) s = (d', s'')"
    and "sw_current s = Some v"
  shows "0 < d \<and> d \<le> sm_retryInterval m \<and> (hd (sw_readings s') < sd_ExpiresAt v \<longrightarrow> hd (sw_readings s') + d \<le> sd_ExpiresAt v)
    \<and> 0 \<le> d' \<and> (0 < d' \<longrightarrow> hd (sw_readings s'') + d' \<le> sd_ExpiresAt v - sm_refreshBefore m)"
proof -
  have pos: "0 < sm_retryInterval m" "0 < sm_refreshBefore m"
    using assms(1) by (auto simp: svid_NewManager_def Let_def Minute_def DefaultRefreshBefore_def split: if_splits)
  have sub: "t < e \<Longrightarrow> 0 < time_Sub e t \<and> t + time_Sub e t \<le> e" "0 < time_Sub e t \<Longrightarrow> t + time_Sub e t \<le> e" for t e
    by (auto simp: time_Sub_def)
  have "wp (failureDelay E m) (\<lambda>d t. 0 < d \<and> d \<le> sm_retryInterval m \<and> (hd (sw_readings t) < sd_ExpiresAt v \<longrightarrow> hd (sw_readings t) + d \<le> sd_ExpiresAt v)) s"
    by (rule wp_failureDelayI) (use assms(4) pos sub(1) in \<open>fastforce simp: retry_delay_def Let_def\<close>)+
  moreover have "wp (refreshDelay E m) (\<lambda>d t. 0 \<le> d \<and> (0 < d \<longrightarrow> hd (sw_readings t) + d \<le> sd_ExpiresAt v - sm_refreshBefore m)) s"
    by (rule wp_refreshDelayI) (use assms(4) sub(2) in \<open>auto simp: max_def\<close>)
  ultimately show ?thesis by (simp add: wp_run [OF assms(2)] wp_run [OF assms(3)])
qed

text \<open>After \<open>Stop\<close> no credential is written any more: a turn that still runs can only withdraw the document.\<close>

definition withdrawing :: "svid_Manager \<Rightarrow> ('k, 'p, 'h) svid_world \<Rightarrow> ('k, 'p, 'h) svid_world \<Rightarrow> bool" where
  "withdrawing m s t \<longleftrightarrow> sw_current t \<in> {None, sw_current s} \<and> (\<exists>new. sw_seen t = sw_seen s @ new \<and>
     list_all (\<lambda>D. \<forall>d n. D d n = sw_dirs s d n \<or> n = path_base (sm_path m) \<and> D d n = None) (sw_dirs t # new))"

lemma withdrawing_updates [simp]:
  "withdrawing m s (t\<lparr>sw_host := h\<rparr>) = withdrawing m s t" "withdrawing m s (t\<lparr>sw_readings := r\<rparr>) = withdrawing m s t"
  "withdrawing m s (t\<lparr>sw_opened := x\<rparr>) = withdrawing m s t" "withdrawing m s s"
  by (simp_all add: withdrawing_def)

lemma withdrawing_drop:
  "withdrawing m s t \<Longrightarrow> withdrawing m s (t\<lparr>sw_dirs := (sw_dirs t)(d := (sw_dirs t d)(path_base (sm_path m) := None)),
     sw_seen := sw_seen t @ [(sw_dirs t)(d := (sw_dirs t d)(path_base (sm_path m) := None))]\<rparr>)"
  by (auto simp: withdrawing_def; blast)

lemma wp_issue_cancelled:
  assumes "sw_cancelled s" and "\<And>h. Q (Some Cancelled) (s\<lparr>sw_host := h\<rparr>)"
  shows "wp (issueAndPersist E C m) Q s"
  unfolding issueAndPersist_def
  by (rule wp_bindI, rule wp_ctx_errI, rule wp_ifI) (use assms in auto)

lemma wp_rotate_cancelled:
  assumes "sw_cancelled s" and "\<And>e h rs. Q (Some e) (s\<lparr>sw_host := h, sw_readings := rs\<rparr>)"
  shows "wp (rotateOnce E C m) Q s"
proof -
  have same: "s\<lparr>sw_host := h\<rparr> = s\<lparr>sw_host := h, sw_readings := sw_readings s\<rparr>" for h by simp
  have swap: "s\<lparr>sw_readings := r, sw_host := h\<rparr> = s\<lparr>sw_host := h, sw_readings := r\<rparr>" for r h by simp
  show ?thesis
    unfolding rotateOnce_def
    apply (rule wp_bindI, rule wp_CurrentI, rule wp_optionI)
     apply (rule wp_issue_cancelled [OF assms(1)], subst same, rule assms(2))
    apply (rule wp_bindI, rule wp_clock_nowI, rule wp_ifI)
     apply (rule wp_returnI, rule assms(2))
    apply (rule wp_issue_cancelled, simp add: assms(1))
    using assms(2) apply (simp add: swap)
    done
qed

lemma wp_invalidate_withdraws:
  assumes "withdrawing m s t"
  shows "wp (invalidate E m) (\<lambda>_. withdrawing m s) t"
proof -
  have drop: "withdrawing m s (u\<lparr>sw_current := None\<rparr>)" if "withdrawing m s u" for u
    using that by (simp add: withdrawing_def)
  have "wp (removeCredential E dir (path_base (sm_path m))) (\<lambda>_. withdrawing m s) t" for dir
    unfolding removeCredential_def
    apply (intro wp_bindI wp_open_dirI)
    subgoal for r h
      using assms withdrawing_drop [of m s "t\<lparr>sw_opened := y, sw_host := x\<rparr>" for x y]
        withdrawing_drop [of m s "t\<lparr>sw_opened := y\<rparr>" for y]
      by (cases r) (auto intro!: wp_bindI wp_optionI wp_returnI wp_ifI wp_on_swI wp_validateI wp_UnlinkatI simp del: wp_bind wp_if wp_on_sw)
    done
  from wp_mono [OF this] drop show ?thesis by (auto simp: invalidate_def split: option.splits)
qed

theorem cancelled_never_writes:
  assumes "sw_cancelled s" and "run_state (run_turn E C m failing) s = (r, s')"
  shows "withdrawing m s s'"
proof -
  have "wp (run_turn E C m failing) (\<lambda>_. withdrawing m s) s"
    unfolding run_turn_def
    apply (rule wp_bindI, rule wp_mono [where P = "\<lambda>_ t. withdrawing m s t \<and> sw_cancelled t"], rule wp_refreshDelayI)
      apply (auto simp: assms(1)) [2]
    apply (rule wp_bindI, rule wp_mono [where P = "\<lambda>_ t. withdrawing m s t \<and> sw_cancelled t"], rule wp_ifI, rule wp_failureDelayI)
       apply auto [3]
    apply (rule wp_bindI, rule wp_on_swI, rule wp_ifI, simp)
    apply (rule wp_bindI, rule wp_rotate_cancelled, simp, rule wp_ifI, simp)
    apply (simp only: currentExpired_def wp_bind, rule wp_CurrentI, rule wp_optionI)
     apply (simp only: wp_return if_True wp_bind, rule wp_invalidate_withdraws, simp)
    apply (simp only: wp_bind, rule wp_clock_nowI, simp only: wp_return, rule wp_ifI)
     apply (simp only: wp_bind wp_return, rule wp_invalidate_withdraws, simp)
    apply (simp only: wp_bind wp_return, rule wp_failureDelayI)
     apply auto
    done
  then show ?thesis by (simp add: wp_run [OF assms(2)])
qed

subsection \<open>An expiry\<close>

text \<open>A host on which every call succeeds and every look at the clock finds it ninety minutes later. The SVID lives two hours: it is issued at
  the start, and the first turn of the loop finds it expired.\<close>

definition demo_leaf :: "unit x509" where
  "demo_leaf = \<lparr>cx_NotBefore = 0, cx_NotAfter = 120 * Minute, cx_IsCA = False, cx_BasicConstraintsValid = True, cx_URIs = [''spiffe://d/a''],
     cx_KeyUsage = 1, cx_ExtKeyUsage = [], cx_UnknownExtKeyUsage = [], cx_Extensions = [(oidKeyUsage, True)], cx_PublicKey = (), cx_Raw = ''leaf''\<rparr>"

definition demo_svid :: "(unit, unit) SVID" where
  "demo_svid = \<lparr>sd_ID = ''spiffe://d/a'', sd_Certificates = [Some demo_leaf], sd_PrivateKey = Some (), sd_Bundle = [Some (demo_leaf\<lparr>cx_IsCA := True\<rparr>)],
     sd_IssuedAt = 0, sd_ExpiresAt = 120 * Minute\<rparr>"

definition demo_crypto :: "(unit, unit) crypto" where
  "demo_crypto = \<lparr>cy_Public = \<lambda>_. Some (), cy_Verify = \<lambda>_ _ _ _ _. True, cy_MarshalPKCS8 = \<lambda>_. Some ''key'', cy_ParsePKCS8 = \<lambda>_. Some (),
     cy_ParseCertificate = \<lambda>_. Some demo_leaf, cy_PEMEncode = \<lambda>ty bs. ty @ bs, cy_PEMDecode = \<lambda>_. None, cy_MarshalJSON = do_SpiffeID,
     cy_UnmarshalJSON = \<lambda>_. None, cy_FormatTime = \<lambda>_. [], cy_ParseTime = \<lambda>_. None, cy_ParseURL = demo_Parse\<rparr>"

definition demo_cred_os :: "(unit, unit, int) cred_os" where
  "demo_cred_os = \<lparr>co_Now = do { t \<leftarrow> State_Monad.get; _ \<leftarrow> State_Monad.set (t + 90 * Minute); State_Monad.return t },
     co_CtxErr = State_Monad.return False, co_Done = \<lambda>_. State_Monad.return False, co_FetchSVID = State_Monad.return (Inr (Some demo_svid)),
     co_MkdirAll = \<lambda>_. State_Monad.return True, co_Open = \<lambda>_. State_Monad.return (Opened 3), co_Fstat = \<lambda>_. State_Monad.return (Some (0x41C0, 0)),
     co_Geteuid = State_Monad.return 0, co_Unlink = \<lambda>_ _. State_Monad.return True, co_Create = \<lambda>_ _. State_Monad.return (Some 0x3F),
     co_Chmod = State_Monad.return True, co_Write = \<lambda>_. State_Monad.return None, co_Sync = State_Monad.return True, co_Close = State_Monad.return True,
     co_Rename = State_Monad.return True, co_FsyncDir = \<lambda>_. State_Monad.return True\<rparr>"

definition demo_cred_manager :: svid_Manager where
  "demo_cred_manager = \<lparr>sm_path = ''/s/v'', sm_refreshBefore = 15 * Minute, sm_retryInterval = 5 * Minute\<rparr>"

definition demo_cred_world :: "(unit, unit, int) svid_world" where
  "demo_cred_world = \<lparr>sw_dirs = \<lambda>_. Map.empty, sw_seen = [], sw_opened = None, sw_readings = [], sw_current = None, sw_started = False,
     sw_loop = False, sw_cancelled = False, sw_host = 0\<rparr>"

definition demo_issued :: "(unit, unit, int) svid_world" where
  "demo_issued = snd (run_state (svid_Start demo_cred_os demo_crypto demo_cred_manager False) demo_cred_world)"

definition demo_expired :: "(unit, unit, int) svid_world" where
  "demo_expired = snd (run_state (run_turn demo_cred_os demo_crypto demo_cred_manager False) demo_issued)"

lemma demo_base: "path_base (sm_path demo_cred_manager) = ''v''" "temp_entry ''v'' = ''.v.tmp''"
  by code_simp+

lemma demo_started: "fst (run_state (svid_Start demo_cred_os demo_crypto demo_cred_manager False) demo_cred_world) = None"
  by code_simp

lemma demo_issued_document: "sw_dirs demo_issued 3 ''v'' = Some \<lparr>cf_Mode = 0x100, cf_Data = ''spiffe://d/a''\<rparr>"
  by code_simp

lemma demo_turn: "(case run_state (run_turn demo_cred_os demo_crypto demo_cred_manager False) demo_issued of
    (r, s) \<Rightarrow> r = Some True \<and> sw_opened s = Some 3 \<and> sw_current s = None)"
  by code_simp

lemma demo_world_fresh: "sw_seen demo_cred_world = []" "sw_current demo_cred_world = None" "sw_dirs demo_cred_world d n = None"
  by (simp_all add: demo_cred_world_def)

lemma demo_rotating: "rotating demo_cred_os demo_crypto demo_cred_manager demo_cred_world (Some False) demo_issued"
proof -
  have "run_state (svid_Start demo_cred_os demo_crypto demo_cred_manager False) demo_cred_world = (None, demo_issued)"
    using demo_started unfolding demo_issued_def by (metis prod.collapse)
  from rotating.start [OF this] show ?thesis by simp
qed

lemma demo_removes: "fst (run_state (removeCredential demo_cred_os dir n) u) = None"
proof -
  have "wp (removeCredential demo_cred_os dir n) (\<lambda>e t. e = None) u"
    by (simp add: removeCredential_def open_dir_def validateSVIDDirFD_def Unlinkat_def read_entry_def set_entry_def Let_def demo_cred_os_def S_IFMT_def S_IFDIR_def)
  then show ?thesis by (simp add: wp_iff_run)
qed

theorem only_verified_documents_visible_witness:
  "\<exists>v now. MarshalDocument demo_crypto v = Inr ''spiffe://d/a'' \<and> SVID_Verify demo_crypto v now = None
     \<and> time_Sub (sd_ExpiresAt v) now > sm_refreshBefore demo_cred_manager"
  using only_verified_documents_visible [OF demo_rotating demo_world_fresh(1,2), of "sw_dirs demo_issued" "''v''" 3]
  by (simp add: demo_base demo_issued_document demo_world_fresh)

theorem expired_identity_withdrawn_witness:
  "sw_current demo_expired = None \<and> sw_dirs demo_expired 3 ''v'' = None"
proof -
  have run: "run_state (run_turn demo_cred_os demo_crypto demo_cred_manager False) demo_issued = (Some True, demo_expired)"
    and after: "sw_opened demo_expired = Some 3" "sw_current demo_expired = None"
    using demo_turn unfolding demo_expired_def by (auto split: prod.splits)
  have "run_state (removeCredential demo_cred_os dir n) u \<noteq> (Some x, demo_expired)" for dir n u x
    using demo_removes [of dir n u] by auto
  with expired_identity_withdrawn [OF demo_rotating demo_world_fresh(1,2) run] after show ?thesis by (simp add: demo_base)
qed

theorem rotation_schedule_witness:
  "let (d, s) = run_state (failureDelay demo_cred_os demo_cred_manager) demo_issued in 0 < d \<and> d \<le> 5 * Minute"
proof -
  have cfg: "svid_NewManager \<lparr>mg_HasSource = True, mg_Path = ''/s/v'', mg_RefreshBefore = 0, mg_RetryInterval = 0\<rparr> = Inr demo_cred_manager"
    by code_simp
  obtain v where cur: "sw_current demo_issued = Some v"
    using wp_Start [of demo_crypto demo_cred_manager "\<lambda>_. Map.empty" demo_cred_world demo_cred_os False] demo_started
    by (auto simp: wp_iff_run demo_issued_def issued_def manager_inv_def presentable_def demo_cred_world_def)
  obtain d s where run: "run_state (failureDelay demo_cred_os demo_cred_manager) demo_issued = (d, s)" by fastforce
  obtain d' s' where run': "run_state (refreshDelay demo_cred_os demo_cred_manager) demo_issued = (d', s')" by fastforce
  have "sm_retryInterval demo_cred_manager = 5 * Minute" by (simp add: demo_cred_manager_def)
  with rotation_schedule [OF cfg run run' cur] run show ?thesis by simp
qed

end
