(* ===== verification/Spire_Issuer.thy ===== *)
theory Spire_Issuer
  imports Spire_Manager
begin

section \<open>The local issuer (internal/spire/issuer.go)\<close>

text \<open>
  The certificate authority for development that mints an SVID for one SPIFFE ID at every request. Generating keys and creating certificates belongs to
  Go's library: the host draws keys, and creates a certificate from a template, a parent, a public and a signing key and parses it back.
  The theorem composes both sides: what this source mints is what the manager accepts.
\<close>

record template =
  tp_SerialNumber :: int
  tp_CommonName :: string
  tp_NotBefore :: int
  tp_NotAfter :: int
  tp_KeyUsage :: "64 word"
  tp_ExtKeyUsage :: "int list"
  tp_BasicConstraintsValid :: bool
  tp_IsCA :: bool
  tp_MaxPathLenZero :: bool
  tp_URIs :: "string list"

datatype issuer_error = InvalidID spiffe_error | TTLNotPositive | IDNotParsed | KeyGeneration | CreateFailed | ParseFailed | FetchCancelled

record ('k, 'p, 'h) issuer_os =
  io_Now :: "('h, int) comp"
  io_CtxErr :: "('h, bool) comp"
  io_GenerateKey :: "('h, 'k option) comp"
  io_Public :: "'k \<Rightarrow> 'p"
  io_Create :: "template \<Rightarrow> 'p x509 option \<Rightarrow> 'p \<Rightarrow> 'k \<Rightarrow> ('h, issuer_error + 'p x509) comp"
  io_URLString :: "uri \<Rightarrow> string"

record ('k, 'p) LocalCASource =
  lc_spiffeID :: string
  lc_ttl :: int
  lc_caCert :: "'p x509"
  lc_caKey :: 'k
  lc_serial :: int

definition Second :: int where "Second = 10 ^ 9"

text \<open>\<open>x509\<close> stores times in seconds, as \<open>Truncate\<close> leaves them.\<close>

definition truncate_second :: "int \<Rightarrow> int" where "truncate_second t = t - t mod Second"

definition KeyUsageKeyEncipherment :: "64 word" where "KeyUsageKeyEncipherment = 4"

definition ca_template :: "string \<Rightarrow> int \<Rightarrow> int \<Rightarrow> template" where
  "ca_template trustDomain ttl now =
     (let caValidity = ttl + 24 * 60 * Minute in
      \<lparr>tp_SerialNumber = 1, tp_CommonName = ''nanofuse-local-ca/'' @ trustDomain, tp_NotBefore = now - Minute, tp_NotAfter = now + caValidity,
       tp_KeyUsage = KeyUsageCertSign OR KeyUsageCRLSign, tp_ExtKeyUsage = [], tp_BasicConstraintsValid = True, tp_IsCA = True, tp_MaxPathLenZero = True,
       tp_URIs = [''spiffe://'' @ trustDomain]\<rparr>)"

definition NewLocalCASource :: "('k, 'p, 'h) issuer_os \<Rightarrow> ('k, 'p) crypto \<Rightarrow> string \<Rightarrow> int \<Rightarrow> ('h, issuer_error + ('k, 'p) LocalCASource) comp" where
  "NewLocalCASource E C spiffeID ttl =
     (case svid_validateSPIFFEID (cy_ParseURL C) spiffeID of Some e \<Rightarrow> State_Monad.return (Inl (InvalidID e))
      | None \<Rightarrow>
        if ttl \<le> 0 then State_Monad.return (Inl TTLNotPositive)
        else case cy_ParseURL C spiffeID of None \<Rightarrow> State_Monad.return (Inl IDNotParsed)
        | Some u \<Rightarrow> do {
            caKey \<leftarrow> io_GenerateKey E;
            case caKey of None \<Rightarrow> State_Monad.return (Inl KeyGeneration)
            | Some caKey \<Rightarrow> do {
                now \<leftarrow> io_Now E;
                r \<leftarrow> io_Create E (ca_template (ui_Host u) ttl now) None (io_Public E caKey) caKey;
                State_Monad.return (case r of Inl e \<Rightarrow> Inl e
                  | Inr caCert \<Rightarrow> Inr \<lparr>lc_spiffeID = spiffeID, lc_ttl = ttl, lc_caCert = caCert, lc_caKey = caKey, lc_serial = 1\<rparr>) } })"

definition leaf_template :: "int \<Rightarrow> int \<Rightarrow> int \<Rightarrow> string \<Rightarrow> template" where
  "leaf_template serial now notAfter uri =
     \<lparr>tp_SerialNumber = serial, tp_CommonName = [], tp_NotBefore = now - Second, tp_NotAfter = notAfter,
      tp_KeyUsage = KeyUsageDigitalSignature OR KeyUsageKeyEncipherment, tp_ExtKeyUsage = [ExtKeyUsageClientAuth, ExtKeyUsageServerAuth],
      tp_BasicConstraintsValid = True, tp_IsCA = False, tp_MaxPathLenZero = False, tp_URIs = [uri]\<rparr>"

definition FetchSVID :: "('k, 'p, 'h) issuer_os \<Rightarrow> ('k, 'p) crypto \<Rightarrow> ('k, 'p) LocalCASource \<Rightarrow>
    ('h, (issuer_error + ('k, 'p) SVID) \<times> ('k, 'p) LocalCASource) comp" where
  "FetchSVID E C l = do {
     cancelled \<leftarrow> io_CtxErr E;
     if cancelled then State_Monad.return (Inl FetchCancelled, l) else do {
     let serial = lc_serial l + 1;
     let l = l\<lparr>lc_serial := serial\<rparr>;
     case cy_ParseURL C (lc_spiffeID l) of None \<Rightarrow> State_Monad.return (Inl IDNotParsed, l)
     | Some u \<Rightarrow> do {
         leafKey \<leftarrow> io_GenerateKey E;
         case leafKey of None \<Rightarrow> State_Monad.return (Inl KeyGeneration, l)
         | Some leafKey \<Rightarrow> do {
             t \<leftarrow> io_Now E;
             let now = truncate_second t;
             let notAfter = now + lc_ttl l;
             let notAfter = (if notAfter > cx_NotAfter (lc_caCert l) then cx_NotAfter (lc_caCert l) else notAfter);
             r \<leftarrow> io_Create E (leaf_template serial now notAfter (io_URLString E u)) (Some (lc_caCert l)) (io_Public E leafKey) (lc_caKey l);
             State_Monad.return (case r of Inl e \<Rightarrow> (Inl e, l)
               | Inr leaf \<Rightarrow> (Inr \<lparr>sd_ID = lc_spiffeID l, sd_Certificates = [Some leaf], sd_PrivateKey = Some leafKey, sd_Bundle = [Some (lc_caCert l)],
                   sd_IssuedAt = now, sd_ExpiresAt = notAfter\<rparr>, l)) } } }}"

subsection \<open>The library\<close>

text \<open>A created certificate has what its template says, with times in whole seconds and the key usage as a critical extension.\<close>

definition made_from :: "template \<Rightarrow> 'p \<Rightarrow> 'p x509 \<Rightarrow> bool" where
  "made_from t pub c \<longleftrightarrow> cx_NotBefore c = truncate_second (tp_NotBefore t) \<and> cx_NotAfter c = truncate_second (tp_NotAfter t)
     \<and> cx_IsCA c = tp_IsCA t \<and> cx_BasicConstraintsValid c = tp_BasicConstraintsValid t \<and> cx_URIs c = tp_URIs t \<and> cx_KeyUsage c = tp_KeyUsage t
     \<and> cx_ExtKeyUsage c = tp_ExtKeyUsage t \<and> cx_UnknownExtKeyUsage c = [] \<and> hasCriticalExtension c oidKeyUsage \<and> cx_PublicKey c = pub"

definition creates_as_told :: "('k, 'p, 'h) issuer_os \<Rightarrow> bool" where
  "creates_as_told E \<longleftrightarrow> (\<forall>t parent pub key h c h'. run_state (io_Create E t parent pub key) h = (Inr c, h') \<longrightarrow> made_from t pub c)"

text \<open>What verification asks of an authority: its basic constraints are there and name it an authority, its key usage has the signing of certificates
  (bit 5), it restricts no extended usage, and it comes from \<open>CreateCertificate\<close>, which adds no critical extension that is not understood.\<close>

definition may_issue :: "('k, 'p, 'h) issuer_os \<Rightarrow> 'p x509 \<Rightarrow> bool" where
  "may_issue E ca \<longleftrightarrow> cx_BasicConstraintsValid ca \<and> cx_IsCA ca \<and> bit (cx_KeyUsage ca) 5 \<and> cx_ExtKeyUsage ca = [] \<and> cx_UnknownExtKeyUsage ca = []
     \<and> (\<exists>t parent pub key h h'. run_state (io_Create E t parent pub key) h = (Inr ca, h'))"

text \<open>A leaf that such an authority signed with its own key verifies under this authority alone, at every time at which both are valid and for every
  usage of the leaf.\<close>

definition verifies_issued :: "('k, 'p, 'h) issuer_os \<Rightarrow> ('k, 'p) crypto \<Rightarrow> bool" where
  "verifies_issued E C \<longleftrightarrow> (\<forall>ca t pub key h c h' now eku. run_state (io_Create E t (Some ca) pub key) h = (Inr c, h') \<longrightarrow>
     io_Public E key = cx_PublicKey ca \<longrightarrow> may_issue E ca \<longrightarrow> cx_NotBefore ca \<le> now \<and> now \<le> cx_NotAfter ca \<longrightarrow>
     cx_NotBefore c \<le> now \<and> now \<le> cx_NotAfter c \<longrightarrow> eku \<in> set (cx_ExtKeyUsage c) \<longrightarrow> cy_Verify C c [ca] [] now eku)"

definition keys_comparable :: "('k, 'p, 'h) issuer_os \<Rightarrow> ('k, 'p) crypto \<Rightarrow> bool" where
  "keys_comparable E C \<longleftrightarrow> (\<forall>k. cy_Public C k = Some (io_Public E k))"

definition url_round_trip :: "('k, 'p, 'h) issuer_os \<Rightarrow> ('k, 'p) crypto \<Rightarrow> string \<Rightarrow> bool" where
  "url_round_trip E C i \<longleftrightarrow> (\<forall>u. cy_ParseURL C i = Some u \<longrightarrow> io_URLString E u = i)"

subsection \<open>What the source mints\<close>

lemma truncate_second_whole [simp]: "t mod Second = 0 \<Longrightarrow> truncate_second t = t" "truncate_second t mod Second = 0" "truncate_second t \<le> t"
  by (simp_all add: truncate_second_def Second_def mod_diff_left_eq)

lemma truncate_shift [simp]: "t mod Second = 0 \<Longrightarrow> truncate_second (t - Second) = t - Second"
  by (simp add: truncate_second_def Second_def)

text \<open>The authority of a new source.\<close>

definition own_authority :: "('k, 'p, 'h) issuer_os \<Rightarrow> ('k, 'p) LocalCASource \<Rightarrow> bool" where
  "own_authority E l \<longleftrightarrow> may_issue E (lc_caCert l) \<and> cx_PublicKey (lc_caCert l) = io_Public E (lc_caKey l) \<and> cx_NotAfter (lc_caCert l) mod Second = 0"

lemma ca_usage: "bit (KeyUsageCertSign OR KeyUsageCRLSign) 5"
  by (simp add: KeyUsageCertSign_def KeyUsageCRLSign_def bit_or_iff)

lemma NewLocalCASource_authority:
  assumes "creates_as_told E" and "run_state (NewLocalCASource E C i ttl) h = (Inr l, h')"
  shows "own_authority E l \<and> lc_spiffeID l = i \<and> lc_ttl l = ttl \<and> svid_validateSPIFFEID (cy_ParseURL C) i = None"
proof -
  have made: "run_state (io_Create E t parent pub key) g = (Inr c, g') \<Longrightarrow> made_from t pub c" for t parent pub key g c g'
    using assms(1) unfolding creates_as_told_def by blast
  have ca: "may_issue E c \<and> cx_PublicKey c = pub \<and> cx_NotAfter c mod Second = 0"
    if "run_state (io_Create E (ca_template d t now) parent pub key) g = (Inr c, g')" for d t now parent pub key g c g'
  proof -
    have "\<exists>t parent pub key h h'. run_state (io_Create E t parent pub key) h = (Inr c, h')" using that by blast
    then show ?thesis using made [OF that] by (simp add: may_issue_def made_from_def ca_template_def Let_def ca_usage)
  qed
  show ?thesis using assms(2)
    by (auto simp: NewLocalCASource_def own_authority_def dest!: ca split: option.splits if_splits sum.splits prod.splits)
qed

lemma leaf_usage: "bit (KeyUsageDigitalSignature OR KeyUsageKeyEncipherment) 0"
  "\<not> bit (KeyUsageDigitalSignature OR KeyUsageKeyEncipherment) 5" "\<not> bit (KeyUsageDigitalSignature OR KeyUsageKeyEncipherment) 6"
  by (simp_all add: KeyUsageDigitalSignature_def KeyUsageKeyEncipherment_def bit_or_iff)

text \<open>What a successful fetch has put together.\<close>

lemma FetchSVID_parts:
  assumes "creates_as_told E" and "url_round_trip E C (lc_spiffeID l)" and "run_state (FetchSVID E C l) h = ((Inr v, l'), h')"
  shows "\<exists>leaf key serial h1 h2. sd_ID v = lc_spiffeID l \<and> sd_Certificates v = [Some leaf] \<and> sd_PrivateKey v = Some key \<and> sd_Bundle v = [Some (lc_caCert l)]
    \<and> sd_IssuedAt v mod Second = 0 \<and> sd_ExpiresAt v = min (sd_IssuedAt v + lc_ttl l) (cx_NotAfter (lc_caCert l))
    \<and> run_state (io_Create E (leaf_template serial (sd_IssuedAt v) (sd_ExpiresAt v) (lc_spiffeID l)) (Some (lc_caCert l)) (io_Public E key) (lc_caKey l)) h1 = (Inr leaf, h2)
    \<and> made_from (leaf_template serial (sd_IssuedAt v) (sd_ExpiresAt v) (lc_spiffeID l)) (io_Public E key) leaf \<and> l' = l\<lparr>lc_serial := lc_serial l + 1\<rparr>"
proof -
  have url: "io_URLString E u = lc_spiffeID l" if "cy_ParseURL C (lc_spiffeID l) = Some u" for u
    using assms(2) that by (simp add: url_round_trip_def)
  have clip: "(if a > b then b else a) = min a b" for a b :: int by simp
  from assms(3) obtain u key t leaf h1 h2 where u: "cy_ParseURL C (lc_spiffeID l) = Some u"
    and run: "run_state (io_Create E (leaf_template (lc_serial l + 1) (truncate_second t) (min (truncate_second t + lc_ttl l) (cx_NotAfter (lc_caCert l))) (io_URLString E u))
        (Some (lc_caCert l)) (io_Public E key) (lc_caKey l)) h1 = (Inr leaf, h2)"
    and v: "v = \<lparr>sd_ID = lc_spiffeID l, sd_Certificates = [Some leaf], sd_PrivateKey = Some key, sd_Bundle = [Some (lc_caCert l)],
        sd_IssuedAt = truncate_second t, sd_ExpiresAt = min (truncate_second t + lc_ttl l) (cx_NotAfter (lc_caCert l))\<rparr>"
    and l': "l' = l\<lparr>lc_serial := lc_serial l + 1\<rparr>"
    by (auto simp: FetchSVID_def Let_def clip split: option.splits if_splits sum.splits prod.splits)
  have "made_from (leaf_template (lc_serial l + 1) (truncate_second t) (min (truncate_second t + lc_ttl l) (cx_NotAfter (lc_caCert l))) (io_URLString E u)) (io_Public E key) leaf"
    using assms(1) run unfolding creates_as_told_def by blast
  with run v l' url [OF u] show ?thesis by fastforce
qed

lemma minted_parts:
  assumes "own_authority E l" and "keys_comparable E C" and "svid_validateSPIFFEID (cy_ParseURL C) (lc_spiffeID l) = None"
    and "sd_ID v = lc_spiffeID l" and "sd_Certificates v = [Some leaf]" and "sd_PrivateKey v = Some key" and "sd_Bundle v = [Some (lc_caCert l)]"
    and "sd_IssuedAt v mod Second = 0" and "sd_ExpiresAt v mod Second = 0" and "sd_ExpiresAt v \<le> cx_NotAfter (lc_caCert l)" and "sd_IssuedAt v < sd_ExpiresAt v"
    and "made_from (leaf_template serial (sd_IssuedAt v) (sd_ExpiresAt v) (lc_spiffeID l)) (io_Public E key) leaf"
  shows "good_parts C v leaf [] [lc_caCert l] key"
proof -
  have "good_leaf leaf (sd_ID v)"
    using assms(4,12) leaf_usage by (auto simp: good_leaf_def made_from_def leaf_template_def)
  with assms show ?thesis
    by (auto simp: good_parts_def own_authority_def may_issue_def keys_comparable_def made_from_def leaf_template_def Second_def)
qed


text \<open>With a fraction of a second in the lifetime the window ends after the certificate, and the SVID never verifies.\<close>

lemma fractional_ttl_never_verifies:
  assumes "creates_as_told E" and "url_round_trip E C (lc_spiffeID l)" and "run_state (FetchSVID E C l) h = ((Inr v, l'), h')"
    and "lc_ttl l mod Second \<noteq> 0" and "sd_IssuedAt v + lc_ttl l < cx_NotAfter (lc_caCert l)"
  shows "SVID_Verify C v now \<noteq> None"
proof
  from FetchSVID_parts [OF assms(1-3)] obtain leaf serial key where
    v: "sd_Certificates v = [Some leaf]" "sd_IssuedAt v mod Second = 0" "sd_ExpiresAt v = min (sd_IssuedAt v + lc_ttl l) (cx_NotAfter (lc_caCert l))"
    and made: "made_from (leaf_template serial (sd_IssuedAt v) (sd_ExpiresAt v) (lc_spiffeID l)) (io_Public E key) leaf" by auto
  have e: "sd_ExpiresAt v = sd_IssuedAt v + lc_ttl l" using v(3) assms(5) by simp
  then have "sd_ExpiresAt v mod Second = lc_ttl l mod Second" using v(2) by (metis add_0 mod_add_left_eq)
  moreover have "0 \<le> lc_ttl l mod Second" by (simp add: Second_def)
  ultimately have "truncate_second (sd_ExpiresAt v) < sd_ExpiresAt v" using assms(4) unfolding truncate_second_def by linarith
  then have late: "cx_NotAfter leaf < sd_ExpiresAt v" using made by (simp add: made_from_def leaf_template_def)
  assume "SVID_Verify C v now = None"
  then have "SVID_Validate C v = None" by (auto simp: SVID_Verify_def split: option.splits)
  then obtain leaf' rest roots k where "good_parts C v leaf' rest roots k" by (auto simp: Validate_None)
  with v(1) late show False by (auto simp: good_parts_def)
qed

text \<open>A library that creates certificates as told, and a source with a lifetime of one hour.\<close>

definition demo_create :: "template \<Rightarrow> unit x509" where
  "demo_create t = \<lparr>cx_NotBefore = truncate_second (tp_NotBefore t), cx_NotAfter = truncate_second (tp_NotAfter t), cx_IsCA = tp_IsCA t,
     cx_BasicConstraintsValid = tp_BasicConstraintsValid t, cx_URIs = tp_URIs t, cx_KeyUsage = tp_KeyUsage t, cx_ExtKeyUsage = tp_ExtKeyUsage t,
     cx_UnknownExtKeyUsage = [], cx_Extensions = [(oidKeyUsage, True)], cx_PublicKey = (), cx_Raw = tp_CommonName t\<rparr>"

definition demo_issuer_os :: "(unit, unit, unit) issuer_os" where
  "demo_issuer_os = \<lparr>io_Now = State_Monad.return (5 * Second div 2), io_CtxErr = State_Monad.return False, io_GenerateKey = State_Monad.return (Some ()),
     io_Public = \<lambda>_. (), io_Create = \<lambda>t _ _ _. State_Monad.return (Inr (demo_create t)), io_URLString = \<lambda>_. ''spiffe://d/a''\<rparr>"

definition demo_ca :: "unit x509" where
  "demo_ca = demo_create (ca_template ''d'' (60 * Minute) (5 * Second div 2))"

definition demo_local_source :: "(unit, unit) LocalCASource" where
  "demo_local_source = \<lparr>lc_spiffeID = ''spiffe://d/a'', lc_ttl = 60 * Minute, lc_caCert = demo_ca, lc_caKey = (), lc_serial = 1\<rparr>"

definition demo_minted :: "(unit, unit) SVID" where
  "demo_minted = \<lparr>sd_ID = ''spiffe://d/a'', sd_Certificates = [Some (demo_create (leaf_template 2 (2 * Second) (2 * Second + 60 * Minute) ''spiffe://d/a''))],
     sd_PrivateKey = Some (), sd_Bundle = [Some demo_ca], sd_IssuedAt = 2 * Second, sd_ExpiresAt = 2 * Second + 60 * Minute\<rparr>"

lemma demo_library: "creates_as_told demo_issuer_os" "verifies_issued demo_issuer_os demo_crypto" "keys_comparable demo_issuer_os demo_crypto"
  "url_round_trip demo_issuer_os demo_crypto ''spiffe://d/a''"
  by (simp_all add: creates_as_told_def verifies_issued_def keys_comparable_def url_round_trip_def demo_issuer_os_def demo_crypto_def made_from_def demo_create_def
      hasCriticalExtension_def)

lemma demo_new: "run_state (NewLocalCASource demo_issuer_os demo_crypto ''spiffe://d/a'' (60 * Minute)) () = (Inr demo_local_source, ())"
  by code_simp

lemma demo_fetch: "run_state (FetchSVID demo_issuer_os demo_crypto (demo_local_source\<lparr>lc_serial := 1\<rparr>)) () = ((Inr demo_minted, demo_local_source\<lparr>lc_serial := 2\<rparr>), ())"
  by code_simp


end
