(* ===== verification/Spec2Isabelle.thy ===== *)
theory Spec2Isabelle
  imports Addresses Snapshot_Demo Layer_Compose Startup Recording_API Recording_Receiver FC_Safety Apple_Driver
    Spire_Issuer
begin

text \<open>
  \<^bold>\<open>A verification development for nanofuse\<close>

  nanofuse is a control plane for microVMs: a daemon with an HTTP interface creates machines from images, starts,
  stops, pauses, snapshots and deletes them, gives each an address on a host bridge, forwards ports and restricts
  outgoing traffic. Snapshots are uploaded to an object store; images are composed of layers. This
  theory imports the whole development. All sources named here are below \<open>src/\<close>.

  \<^bold>\<open>How the program is modelled.\<close> A Go struct is a record, an enumeration a datatype, a slice a list, a
  pointer that may be nil an option, an error a value of a sum or an option. Code that has effects is a
  computation of the library's state monad. Integers are unbounded where the code only compares and counts
  small numbers. Everything that is not below \<open>src/\<close> is a parameter: the operating system, external commands, the
  database engine, the runtime that executes machines, the SPIRE server, the registry, the codecs. Any call of
  these may fail at any point, since its result is drawn from an arbitrary host state. Where a theorem needs
  documented behaviour of such code it is a named hypothesis or the locale of an interface, and a
  witness instantiates it with concrete functions.

  \<^bold>\<open>The theories, in the order of their imports.\<close>

  \<^item> \<open>Prelude\<close>: Go strings, decimal rendering, the monad with the predicate transformers \<open>wp\<close>,
    \<open>pres\<close>, \<open>triple\<close> and their rules.
  \<^item> \<open>Types\<close> (\<open>internal/types\<close>): machines, images, snapshots, requests, error responses.
  \<^item> \<open>Ipam\<close> (\<open>internal/network/ipam.go\<close>): the address manager. Free and held addresses partition the pool after
    any sequence of calls; no address is handed out twice; reloading restores the allocations.
  \<^item> \<open>Go_Path\<close>, \<open>Go_Net\<close>: the lexical path functions and the address parsers of Go's library.
  \<^item> \<open>Mount_Secret\<close> (\<open>internal/types/mount_secret.go\<close>): both validators against a declarative reference.
  \<^item> \<open>Kernel_Args\<close> (\<open>internal/api/vm_handlers.go\<close>): splitting and composing kernel command lines, bounded output.
  \<^item> \<open>Netfilter\<close>: the interface of the host firewall as the locale \<open>netfilter\<close>, with a reference firewall.
  \<^item> \<open>Egress\<close>, \<open>Port_Forward\<close>, \<open>Host_Net\<close> (\<open>internal/network\<close>): command sequences for chains, forwards, bridge and
    NAT; which packets pass, what is installed, what clean-up restores.
  \<^item> \<open>Storage_DB\<close> (\<open>internal/storage\<close>): the tables and the effect of each statement; the state \<open>world\<close> of the daemon.
  \<^item> \<open>Config\<close> (\<open>internal/config\<close>): validation of the configuration.
  \<^item> \<open>Server_Env\<close>, \<open>VM_Create\<close>, \<open>VM_Handlers\<close>, \<open>API_Handlers\<close> (\<open>internal/api\<close>): every handler that works
    on the tables, with all error paths and clean-ups.
  \<^item> \<open>Lifecycle\<close>, \<open>Daemon\<close>, \<open>Creation\<close>: what the handlers keep, through the locales \<open>row_invariant\<close> and
    \<open>tables_invariant\<close>, interpreted for each invariant.
  \<^item> \<open>System\<close>: the daemon as a transition system; the invariant of all reachable states, the life cycle of a machine as a
    refinement of a transition table, creation as a transaction.
  \<^item> \<open>Guarantees\<close>, \<open>Addresses\<close>: locks, deletion, resuming (where the snapshot files lie with
    all symbolic links of the host followed), restarting, and the agreement of rows and address manager.
  \<^item> \<open>File_System\<close>, \<open>Blob_Store\<close>, \<open>Snapshot_Store\<close>, \<open>Snapshot_Restore\<close> (\<open>internal/snapshotstore\<close>): a file system whose
    operations may fail, the object backend behind the locale \<open>blob\<close>, storing and restoring of snapshots.
  \<^item> \<open>Startup\<close> (\<open>internal/api/server.go\<close>, \<open>auth_middleware.go\<close>): the order of start-up, the listeners, and the identity
    that a TCP request must present.
  \<^item> \<open>Layer_Manifest\<close>, \<open>Layer_Order\<close> (\<open>internal/layerbuild/types.go\<close>, \<open>manifest.go\<close>): manifests of images, conditions of layers, and
    the dependency order against the declarative notion of a topological order.
  \<^item> \<open>Layer_Cache\<close> (\<open>cache.go\<close>): the cache of layers on the table and on files, its limit, its round trip.
  \<^item> \<open>Layer_Fetch\<close> (\<open>fetcher.go\<close>): extraction of tarballs, which stays below its destination, digests, fetching with retries.
  \<^item> \<open>Layer_Compose\<close> (\<open>composer.go\<close>, \<open>hooks.go\<close>): the build of an image, which applies the active layers in dependency order.
  \<^item> \<open>Recording_Events\<close> (\<open>internal/recording/events.go\<close>): the binary codec of events over machine words. Writing
    is proved against the locales \<open>byte_sink\<close> and \<open>sure_sink\<close>, which the byte list and the session file interpret;
    reading back gives the event that was written.
  \<^item> \<open>Recording_Storage\<close> (\<open>local.go\<close>): the sessions on disk. A batch appends to the files of its sessions only and
    in order, also when a write fails half-way; a successful one reads back.
  \<^item> \<open>Recording_Receiver\<close> (\<open>receiver.go\<close>): readers, processors and handlers of connections as a step relation; what is
    accepted is handed to the storage, batched or queued in order, and when a connection is released.
  \<^item> \<open>Recording_API\<close> (\<open>internal/api/recording_handlers.go\<close>): the handlers of recordings over the storage.
  \<^item> \<open>Cred_Isolation\<close> (\<open>internal/credisolation\<close>, \<open>cmd/nanofuse/isolation.go\<close>): who may read credentials, which mounts the guard
    admits (against the set of paths that a mount and the store share), the host sweep over mode bits, the response to an attempt.
  \<^item> \<open>FC_Exec\<close> (\<open>internal/firecracker/exec.go\<close>, \<open>version.go\<close>): commands in a guest over ssh. A shell reads the quoted command as the
    words of the request; the exit code is recovered from the marker; the output is bounded.
  \<^item> \<open>FC_Driver\<close>, \<open>FC_Safety\<close> (\<open>internal/firecracker/vm.go\<close>, \<open>vsock_proxy.go\<close>): the driver of Firecracker on a host that records
    processes, signals, requests and listeners, as an instance of the runtime manager of \<open>Server_Env\<close>. Every
    process is reaped or awaited, loading a snapshot is all or nothing, and stopping means that the process is gone.
  \<^item> \<open>Spire_Service\<close>, \<open>Spire_Svid\<close> (\<open>internal/spire/service.go\<close>, \<open>svid.go\<close>): registration of workloads as an instance of the registrar of
    \<open>Server_Env\<close>, the grammar of SPIFFE IDs, and verification of SVIDs against a declarative notion of a good one. URL parsing, PEM
    and certificates belong to libraries and are parameters.
  \<^item> \<open>Spire_Manager\<close> (\<open>internal/spire/manager.go\<close>, \<open>credwrite_unix.go\<close>): the rotation of SVIDs over directories whose every content is kept in
    a history, so that crashes and readers are covered. Only complete documents of verified SVIDs are ever visible, an expired one is withdrawn, the
    loop neither spins nor oversleeps, and after \<open>Stop\<close> nothing is written.
  \<^item> \<open>Spire_Issuer\<close> (\<open>internal/spire/issuer.go\<close>): the local certificate authority; what it mints passes the manager's verification.
  \<^item> \<open>Apple_Driver\<close> (\<open>internal/applecontainer/manager.go\<close>): the second implementation of the runtime manager. What start, stop, kill and
    delete report agrees with what the last inspection of the container showed, and each machine has at most one watcher.
  \<^item> \<open>Demo\<close>, \<open>Snapshot_Demo\<close>: concrete instances on which the properties are evaluated.

  \<^bold>\<open>Bounds and termination.\<close> All functions are total. \<open>temp_name\<close> draws at most 10000 names, the limit of
  Go's library. The retry loop of \<open>fetchWithRetry\<close> ends with its counter (lemma \<open>retry_bounded\<close>). The sorting loop of \<open>ResolveDependencies\<close> has a measure (names in the queue plus names with a positive count).
  The polling loops of both drivers run for the number of ticks that the host's clock grants before the deadline.
  The reader of an event stream ends because every event it reads consumes bytes.

  \<^bold>\<open>Concurrency.\<close> Handlers run one after the other; the lock in a machine's row excludes other operations on that
  machine, which \<open>lock_excludes\<close> states for any interleaving that respects requests as units. The
  parallel transfers of one snapshot touch disjoint objects and are run in sequence. The goroutines of the recording receiver
  are interleaved step by step. Calls of the recording storage run one after the other, although \<open>Write\<close> and \<open>Finalize\<close> let the lock go in the middle. The
  statements of the database run on one connection, the one on which foreign keys are enforced.

  \<^bold>\<open>Not modelled.\<close> The command line client, the tray, printing and logging hold no state of the system. Relaying of bytes in the vsock
  proxy and the writer of documents for platforms other than unix are left out. The scaffolding of layers and the checkers of layer directories and
  of image files are left out: they write templates and collect messages, and nothing in the daemon depends on them. Packing a local directory into a layer and rewriting the layers of a pulled image are left out of the fetchers. The image builder, the registry
  client and the conversion tools call docker and libraries. Parsing of JSON, YAML and of HTTP requests belongs to libraries.
\<close>

end
